(* ===== verification/Prelude.thy ===== *)
theory Prelude
  imports Main "HOL-Library.Word"
begin

text \<open>
  Shared vocabulary of the development: bytes and Python strings, exceptions as values,
  Python indexing and slicing, \<^verbatim>\<open>struct.pack\<close> and \<^verbatim>\<open>int.to_bytes\<close> in network byte order, and the bit
  arithmetic that the packet formats need. Every component theory imports it, directly or
  through another.

  A Python \<^verbatim>\<open>bytes\<close> is a list of 8-bit words. A Python \<^verbatim>\<open>str\<close> whose contents may leave ASCII (SMS
  text) is a list of code points (\<open>ustr\<close>); the ASCII protocol text of SIP and MMI codes is a
  \<open>string\<close>. A Python \<^verbatim>\<open>int\<close> is \<open>int\<close>, or \<open>nat\<close> where it is a length or an offset.
\<close>

unbundle bit_operations_syntax

type_synonym byte = "8 word"
type_synonym bytes = "byte list"
type_synonym ustr = "nat list"

definition ustr :: "string \<Rightarrow> ustr" where
  "ustr s = map of_char s"

text \<open>Text without surrogate code points, the text that UTF encodings represent.\<close>

definition unicode_text :: "ustr \<Rightarrow> bool" where
  "unicode_text t \<longleftrightarrow> list_all (\<lambda>c. c < 0x110000 \<and> \<not> (0xD800 \<le> c \<and> c < 0xE000)) t"

named_theorems bits "bit masks and shifts as arithmetic"
named_theorems pybytes "lengths, slices and integer conversions of byte strings"

section \<open>Exceptions\<close>

text \<open>The Python exceptions the modelled code raises, or lets the standard library raise.\<close>

datatype exn = ValueError | IndexError | KeyError | StructError | RuntimeError
  | MemoryError | TypeError | OverflowError | TimeoutError | SecurityError
  | UnicodeError | AttributeError | OSError | EOFError

type_synonym 'a res = "exn + 'a"

definition rbind :: "'a res \<Rightarrow> ('a \<Rightarrow> 'b res) \<Rightarrow> 'b res" where
  "rbind m f = (case m of Inl e \<Rightarrow> Inl e | Inr x \<Rightarrow> f x)"

lemma rbind_simps [simp]: "rbind (Inr x) f = f x" "rbind (Inl e) f = Inl e"
  by (simp_all add: rbind_def)

lemma rbind_eq_Inr: "rbind m f = Inr y \<longleftrightarrow> (\<exists>x. m = Inr x \<and> f x = Inr y)"
  by (cases m) auto

lemma rbind_eq_Inl: "rbind m f = Inl e \<longleftrightarrow> m = Inl e \<or> (\<exists>x. m = Inr x \<and> f x = Inl e)"
  by (cases m) auto

lemma rbind_if: "rbind (if b then m else m') f = (if b then rbind m f else rbind m' f)"
  by simp

definition raises :: "'a res \<Rightarrow> bool" where
  "raises m = (case m of Inl _ \<Rightarrow> True | Inr _ \<Rightarrow> False)"

lemma raises_simps [simp]: "raises (Inl e)" "\<not> raises (Inr x)"
  by (simp_all add: raises_def)

lemma not_raises: "\<not> raises m \<longleftrightarrow> (\<exists>x. m = Inr x)"
  by (cases m) auto

text \<open>A comprehension \<^verbatim>\<open>[f(x) for x in xs]\<close> whose \<open>f\<close> may raise.\<close>

fun rmap :: "('a \<Rightarrow> 'b res) \<Rightarrow> 'a list \<Rightarrow> 'b list res" where
  "rmap f [] = Inr []"
| "rmap f (x # xs) = rbind (f x) (\<lambda>y. rbind (rmap f xs) (\<lambda>ys. Inr (y # ys)))"

lemma rmap_Inr: "(\<And>x. x \<in> set xs \<Longrightarrow> f x = Inr (g x)) \<Longrightarrow> rmap f xs = Inr (map g xs)"
  by (induction xs) auto

text \<open>A sequence of statements of which each may raise; the state is kept up to there.\<close>

fun seq_all :: "('s \<Rightarrow> 's \<times> unit res) list \<Rightarrow> 's \<Rightarrow> 's \<times> unit res" where
  "seq_all [] s = (s, Inr ())"
| "seq_all (f # fs) s = (case f s of (s', Inl e) \<Rightarrow> (s', Inl e) | (s', Inr _) \<Rightarrow> seq_all fs s')"

section \<open>Indexing and slicing\<close>

definition idx :: "'a list \<Rightarrow> nat \<Rightarrow> 'a res" where
  "idx xs i = (if i < length xs then Inr (xs ! i) else Inl IndexError)"

text \<open>\<^verbatim>\<open>xs[i:j]\<close> for non-negative \<open>i\<close> and \<open>j\<close>: out-of-range bounds are clamped.\<close>

definition slice :: "'a list \<Rightarrow> nat \<Rightarrow> nat \<Rightarrow> 'a list" where
  "slice xs i j = take (j - i) (drop i xs)"

text \<open>\<^verbatim>\<open>xs[i:j]\<close> where \<open>j\<close> may be negative: it then counts from the end.\<close>

definition slice_to :: "'a list \<Rightarrow> nat \<Rightarrow> int \<Rightarrow> 'a list" where
  "slice_to xs i j = slice xs i (nat (if j < 0 then int (length xs) + j else j))"

lemma slice_to_nat [simp]: "slice_to xs i (int j) = slice xs i j"
  by (simp add: slice_to_def)

lemma idx_Inr [simp]: "i < length xs \<Longrightarrow> idx xs i = Inr (xs ! i)"
  by (simp add: idx_def)

lemma idx_out [simp]: "length xs \<le> i \<Longrightarrow> idx xs i = Inl IndexError"
  by (simp add: idx_def)

lemma idx_eq_Inr: "idx xs i = Inr x \<longleftrightarrow> i < length xs \<and> x = xs ! i"
  by (auto simp: idx_def)

lemma idx_append_at [pybytes]: "idx (xs @ y # ys) (length xs) = Inr y"
  by (simp add: idx_def)

lemma idx_append_right [pybytes]: "idx (xs @ ys) (length xs + i) = idx ys i"
  by (simp add: idx_def)

lemma length_slice [pybytes]: "length (slice xs i j) = min (j - i) (length xs - i)"
  by (simp add: slice_def)

lemma slice_append_exact [pybytes]:
  "slice (xs @ ys @ zs) (length xs) (length xs + length ys) = ys"
  by (simp add: slice_def)

lemma slice_append_right [pybytes]:
  "slice (xs @ ys) (length xs + i) (length xs + j) = slice ys i j"
  by (simp add: slice_def)

lemma slice_0 [simp]: "slice xs 0 j = take j xs"
  by (simp add: slice_def)

lemma slice_Cons_Suc [simp]: "slice (x # xs) (Suc i) (Suc j) = slice xs i j"
  by (simp add: slice_def)

lemma set_slice_subset: "set (slice xs i j) \<subseteq> set xs"
  by (auto simp: slice_def dest: in_set_takeD in_set_dropD)

text \<open>Lists of a known small length.\<close>

lemma list_of_length2: "length xs = 2 \<Longrightarrow> \<exists>a b. xs = [a, b]"
  by (auto simp: numeral_2_eq_2 length_Suc_conv)

lemma list_of_length4: "length xs = 4 \<Longrightarrow> \<exists>a b c d. xs = [a, b, c, d]"
  by (auto simp: eval_nat_numeral length_Suc_conv)

section \<open>Bits as arithmetic\<close>

text \<open>
  The code masks and shifts non-negative integers. On \<open>int\<close> a mask of ones is a remainder, a
  shift a multiplication or a division, and an \<^verbatim>\<open>|\<close> of disjoint fields a sum.
\<close>

lemma and_mask_mod_int: "(x :: int) AND mask n = x mod 2 ^ n"
  by (simp flip: take_bit_eq_mod take_bit_eq_mask)

lemma and_mask_mod_nat: "(x :: nat) AND mask n = x mod 2 ^ n"
  by (simp flip: take_bit_eq_mod take_bit_eq_mask)

lemma and_3_int [bits]: "(x :: int) AND 3 = x mod 4"
  using and_mask_mod_int [of x 2] by (simp add: mask_eq_exp_minus_1)

lemma and_7_int [bits]: "(x :: int) AND 7 = x mod 8"
  using and_mask_mod_int [of x 3] by (simp add: mask_eq_exp_minus_1)

lemma and_15_int [bits]: "(x :: int) AND 15 = x mod 16"
  using and_mask_mod_int [of x 4] by (simp add: mask_eq_exp_minus_1)

lemma and_63_int [bits]: "(x :: int) AND 63 = x mod 64"
  using and_mask_mod_int [of x 6] by (simp add: mask_eq_exp_minus_1)

lemma and_127_int [bits]: "(x :: int) AND 127 = x mod 128"
  using and_mask_mod_int [of x 7] by (simp add: mask_eq_exp_minus_1)

lemma and_255_int [bits]: "(x :: int) AND 255 = x mod 256"
  using and_mask_mod_int [of x 8] by (simp add: mask_eq_exp_minus_1)

lemma and_65535_int [bits]: "(x :: int) AND 65535 = x mod 65536"
  using and_mask_mod_int [of x 16] by (simp add: mask_eq_exp_minus_1)

lemma and_16777215_int [bits]: "(x :: int) AND 16777215 = x mod 16777216"
  using and_mask_mod_int [of x 24] by (simp add: mask_eq_exp_minus_1)

lemma and_4294967295_int [bits]: "(x :: int) AND 4294967295 = x mod 4294967296"
  using and_mask_mod_int [of x 32] by (simp add: mask_eq_exp_minus_1)

lemma and_15_nat [bits]: "(x :: nat) AND 15 = x mod 16"
  using and_mask_mod_nat [of x 4] by (simp add: mask_eq_exp_minus_1)

lemma and_127_nat [bits]: "(x :: nat) AND 127 = x mod 128"
  using and_mask_mod_nat [of x 7] by (simp add: mask_eq_exp_minus_1)

lemma and_255_nat [bits]: "(x :: nat) AND 255 = x mod 256"
  using and_mask_mod_nat [of x 8] by (simp add: mask_eq_exp_minus_1)

lemma and_65535_nat [bits]: "(x :: nat) AND 65535 = x mod 65536"
  using and_mask_mod_nat [of x 16] by (simp add: mask_eq_exp_minus_1)

lemma or_disjoint_int:
  fixes a b :: int
  assumes "0 \<le> b" "b < 2 ^ n"
  shows "(push_bit n a) OR b = a * 2 ^ n + b"
proof -
  have "\<not> bit b k" if "n \<le> k" for k
  proof -
    have "take_bit n b = b" using assms by (simp add: take_bit_int_eq_self)
    then have "bit b k = bit (take_bit n b) k" by simp
    also have "\<dots> = False" using that by (simp add: bit_take_bit_iff)
    finally show ?thesis by simp
  qed
  then have "push_bit n a OR b = push_bit n a + b"
    by (intro disjunctive_add_eq_or [symmetric]) (auto simp: bit_eq_iff bit_simps not_le)
  then show ?thesis by (simp add: push_bit_eq_mult)
qed

lemma or_disjoint_nat:
  fixes a b :: nat
  assumes "b < 2 ^ n"
  shows "(push_bit n a) OR b = a * 2 ^ n + b"
proof -
  have "\<not> bit b k" if "n \<le> k" for k
  proof -
    have "take_bit n b = b" using assms by (simp add: take_bit_nat_eq_self)
    then have "bit b k = bit (take_bit n b) k" by simp
    also have "\<dots> = False" using that by (simp add: bit_take_bit_iff)
    finally show ?thesis by simp
  qed
  then have "push_bit n a OR b = push_bit n a + b"
    by (intro disjunctive_add_eq_or [symmetric]) (auto simp: bit_eq_iff bit_simps not_le)
  then show ?thesis by (simp add: push_bit_eq_mult)
qed

lemma block_div: "r < n \<Longrightarrow> (n * i + r) div n = (i :: nat)"
  by simp

lemma block_mod: "r < n \<Longrightarrow> (n * i + r) mod n = (r :: nat)"
  by simp

lemma int_block: "0 \<le> r \<Longrightarrow> r < n \<Longrightarrow> (q * n + r) div n = (q :: int)"
  "0 \<le> r \<Longrightarrow> r < n \<Longrightarrow> (q * n + r) mod n = (r :: int)"
  by simp_all

lemma or_fields_int: "0 \<le> b \<Longrightarrow> b < 2 ^ n \<Longrightarrow> push_bit n a OR b = a * 2 ^ n + (b :: int)"
  by (rule or_disjoint_int)

text \<open>A test of one bit.\<close>

lemma and_exp_int: "(x :: int) AND 2 ^ n \<noteq> 0 \<longleftrightarrow> odd (x div 2 ^ n)"
  by (simp add: and_exp_eq_0_iff_not_bit bit_iff_odd)

lemma bit_test_int: "(x :: int) AND 4 \<noteq> 0 \<longleftrightarrow> odd (x div 4)" "(x :: int) AND 16 \<noteq> 0 \<longleftrightarrow> odd (x div 16)"
  "(x :: int) AND 32 \<noteq> 0 \<longleftrightarrow> odd (x div 32)" "(x :: int) AND 64 \<noteq> 0 \<longleftrightarrow> odd (x div 64)"
  "(x :: int) AND 128 \<noteq> 0 \<longleftrightarrow> odd (x div 128)"
  using and_exp_int [of x 2] and_exp_int [of x 4] and_exp_int [of x 5] and_exp_int [of x 6] and_exp_int [of x 7]
  by simp_all

lemma digit_bound:
  assumes "a < m" "d < k"
  shows "a + m * d < m * (k :: nat)"
proof -
  have "a + m * d < m * (d + 1)" using assms(1) by simp
  also have "\<dots> \<le> m * k" using assms(2) by (intro mult_left_mono) simp_all
  finally show ?thesis .
qed

lemmas shift_arith [bits] = push_bit_eq_mult drop_bit_eq_div

section \<open>Byte construction and network byte order\<close>

lemma unat_byte_bound [simp]: "unat (b :: byte) < 256"
proof -
  have "unat b < 2 ^ LENGTH(8)" by (rule unsigned_less)
  then show ?thesis by simp
qed

lemma uint_byte_bound [simp]: "uint (b :: byte) < 256"
proof -
  have "uint b < 2 ^ LENGTH(8)" by (rule unsigned_less)
  then show ?thesis by simp
qed

text \<open>\<^verbatim>\<open>bytes([x])\<close> and \<^verbatim>\<open>bytearray.append(x)\<close>: ValueError outside 0..255.\<close>

definition mk_byte :: "int \<Rightarrow> byte res" where
  "mk_byte x = (if 0 \<le> x \<and> x < 256 then Inr (word_of_int x) else Inl ValueError)"

lemma mk_byte_uint [simp]: "mk_byte (uint b) = Inr b"
  using uint_byte_bound [of b] by (simp add: mk_byte_def)

lemma mk_byte_in: "0 \<le> x \<Longrightarrow> x < 256 \<Longrightarrow> mk_byte x = Inr (word_of_int x)"
  by (simp add: mk_byte_def)

lemma mk_byte_nat: "n < 256 \<Longrightarrow> mk_byte (int n) = Inr (word_of_nat n)"
  by (simp add: mk_byte_def)

lemma uint_byte_of_int [pybytes]: "0 \<le> x \<Longrightarrow> x < 256 \<Longrightarrow> uint (word_of_int x :: byte) = x"
  by (simp add: uint_word_of_int)

lemma unat_byte_of_nat [pybytes]: "x < 256 \<Longrightarrow> unat (word_of_nat x :: byte) = x"
  by (simp add: unat_of_nat)

fun be_bytes :: "nat \<Rightarrow> nat \<Rightarrow> bytes" where
  "be_bytes 0 x = []"
| "be_bytes (Suc n) x = be_bytes n (x div 256) @ [word_of_nat (x mod 256)]"

definition from_be :: "bytes \<Rightarrow> nat" where
  "from_be bs = foldl (\<lambda>a b. a * 256 + unat b) 0 bs"

lemma from_be_Nil [simp]: "from_be [] = 0"
  by (simp add: from_be_def)

lemma from_be_snoc [simp]: "from_be (bs @ [b]) = from_be bs * 256 + unat b"
  by (simp add: from_be_def)

lemma length_be_bytes [simp]: "length (be_bytes n x) = n"
  by (induction n arbitrary: x) auto

lemma from_be_be_bytes: "from_be (be_bytes n x) = x mod 256 ^ n"
proof (induction n arbitrary: x)
  case (Suc n)
  have "x mod 256 ^ Suc n = x div 256 mod 256 ^ n * 256 + x mod 256"
    using mod_mult2_eq [of x 256 "256 ^ n"] by (simp add: mult.commute)
  with Suc show ?case by (simp add: unat_byte_of_nat)
qed simp

lemma from_be_be_bytes_id [pybytes]: "x < 256 ^ n \<Longrightarrow> from_be (be_bytes n x) = x"
  by (simp add: from_be_be_bytes)

lemma be_bytes_from_be: "length bs = n \<Longrightarrow> be_bytes n (from_be bs) = bs"
proof (induction n arbitrary: bs)
  case (Suc n)
  then obtain cs c where bs: "bs = cs @ [c]" and l: "length cs = n"
    by (cases bs rule: rev_cases) auto
  have u: "unat c < 256" by simp
  have d: "(from_be cs * 256 + unat c) div 256 = from_be cs" using u by simp
  have m: "(from_be cs * 256 + unat c) mod 256 = unat c" using u by simp
  show ?case using Suc.IH [OF l] by (simp add: bs d m)
qed simp

lemma from_be_bound: "from_be bs < 256 ^ length bs"
proof (induction bs rule: rev_induct)
  case (snoc b bs)
  have "from_be bs * 256 + unat b < (from_be bs + 1) * 256" by simp
  also have "\<dots> \<le> 256 ^ length bs * 256" using snoc by (intro mult_right_mono) auto
  finally show ?case by (simp add: mult.commute)
qed simp

declare be_bytes.simps [simp del]

text \<open>
  \<^verbatim>\<open>struct.pack("!B/H/I", x)\<close> raises \<^verbatim>\<open>struct.error\<close> when the value does not fit;
  \<^verbatim>\<open>x.to_bytes(n, "big")\<close> raises OverflowError.
\<close>

definition pack :: "nat \<Rightarrow> int \<Rightarrow> bytes res" where
  "pack n x = (if 0 \<le> x \<and> x < 256 ^ n then Inr (be_bytes n (nat x)) else Inl StructError)"

definition to_bytes_be :: "nat \<Rightarrow> int \<Rightarrow> bytes res" where
  "to_bytes_be n x = (if 0 \<le> x \<and> x < 256 ^ n then Inr (be_bytes n (nat x)) else Inl OverflowError)"

definition unpack :: "bytes \<Rightarrow> int" where
  "unpack bs = int (from_be bs)"

lemma pack_ok: "0 \<le> x \<Longrightarrow> x < 256 ^ n \<Longrightarrow> pack n x = Inr (be_bytes n (nat x))"
  by (simp add: pack_def)

lemma unpack_pack [pybytes]: "0 \<le> x \<Longrightarrow> x < 256 ^ n \<Longrightarrow> unpack (be_bytes n (nat x)) = x"
  by (simp add: unpack_def from_be_be_bytes_id nat_less_iff)

lemma pack_unpack: "pack n x = Inr bs \<Longrightarrow> unpack bs = x \<and> length bs = n"
  by (auto simp: pack_def unpack_pack split: if_splits)

lemma unpack_bound: "0 \<le> unpack bs" "unpack bs < 256 ^ length bs"
  using from_be_bound [of bs] by (simp_all add: unpack_def)

section \<open>Exclusive or of byte strings\<close>

text \<open>\<^verbatim>\<open>bytes(x ^ y for x, y in zip(a, b))\<close>: as long as the shorter operand.\<close>

definition xor_bytes :: "bytes \<Rightarrow> bytes \<Rightarrow> bytes" where
  "xor_bytes a b = map2 (XOR) a b"

lemma length_xor_bytes [simp]: "length (xor_bytes a b) = min (length a) (length b)"
  by (simp add: xor_bytes_def)

lemma nth_xor_bytes [simp]:
  "i < length a \<Longrightarrow> i < length b \<Longrightarrow> xor_bytes a b ! i = a ! i XOR b ! i"
  by (simp add: xor_bytes_def)

lemma xor_bytes_cancel [pybytes]:
  "length a \<le> length b \<Longrightarrow> xor_bytes (xor_bytes a b) b = a"
  by (rule nth_equalityI) (auto simp: xor.assoc)

lemma xor_bytes_commute: "xor_bytes a b = xor_bytes b a"
  by (rule nth_equalityI) (auto simp: xor.commute)

section \<open>Association lists: Python dicts in insertion order\<close>

text \<open>
  A dict whose order shows (headers, attributes, profiles, calls) is an association list with
  distinct keys. Assignment keeps the position of a key that is present and appends a new one;
  \<^verbatim>\<open>update\<close> assigns pair by pair; \<^verbatim>\<open>pop\<close> and \<^verbatim>\<open>del\<close> remove the key.
\<close>

fun dict_set :: "'k \<Rightarrow> 'v \<Rightarrow> ('k \<times> 'v) list \<Rightarrow> ('k \<times> 'v) list" where
  "dict_set k v [] = [(k, v)]"
| "dict_set k v ((k', v') # d) = (if k' = k then (k, v) # d else (k', v') # dict_set k v d)"

definition dict_del :: "'k \<Rightarrow> ('k \<times> 'v) list \<Rightarrow> ('k \<times> 'v) list" where
  "dict_del k d = filter (\<lambda>(k', _). k' \<noteq> k) d"

definition dict_update :: "('k \<times> 'v) list \<Rightarrow> ('k \<times> 'v) list \<Rightarrow> ('k \<times> 'v) list" where
  "dict_update d e = foldl (\<lambda>a (k, v). dict_set k v a) d e"

definition dict_get :: "('k \<times> 'v) list \<Rightarrow> 'k \<Rightarrow> 'v \<Rightarrow> 'v" where
  "dict_get d k v = (case map_of d k of None \<Rightarrow> v | Some x \<Rightarrow> x)"

definition dict_ok :: "('k \<times> 'v) list \<Rightarrow> bool" where
  "dict_ok d \<longleftrightarrow> distinct (map fst d)"

lemma map_of_dict_set [simp]: "map_of (dict_set k v d) = (map_of d)(k \<mapsto> v)"
  by (induction k v d rule: dict_set.induct) auto

lemma map_of_dict_del [simp]: "map_of (dict_del k d) = (map_of d)(k := None)"
  by (induction d) (auto simp: dict_del_def)

lemma keys_dict_set [simp]: "fst ` set (dict_set k v d) = insert k (fst ` set d)"
  by (induction k v d rule: dict_set.induct) auto

lemma keys_dict_del [simp]: "fst ` set (dict_del k d) = fst ` set d - {k}"
  by (auto simp: dict_del_def)

lemma set_dict_set_subset: "set (dict_set k v d) \<subseteq> insert (k, v) (set d)"
  by (induction k v d rule: dict_set.induct) auto

lemma dict_ok_Nil [simp, intro]: "dict_ok []"
  by (simp add: dict_ok_def)

lemma dict_ok_set [simp, intro]: "dict_ok d \<Longrightarrow> dict_ok (dict_set k v d)"
  by (induction k v d rule: dict_set.induct) (auto simp: dict_ok_def image_iff)

lemma dict_ok_del [simp, intro]: "dict_ok d \<Longrightarrow> dict_ok (dict_del k d)"
  by (auto simp: dict_ok_def dict_del_def distinct_map_filter)

lemma dict_set_new: "k \<notin> fst ` set d \<Longrightarrow> dict_set k v d = d @ [(k, v)]"
  by (induction k v d rule: dict_set.induct) auto

lemma dict_set_append: "k \<notin> fst ` set d \<Longrightarrow> dict_set k v (d @ e) = d @ dict_set k v e"
  by (induction d) auto

lemma dict_del_new: "k \<notin> fst ` set d \<Longrightarrow> dict_del k d = d"
  by (force simp: dict_del_def filter_id_conv)

end
