(* ===== verification/Formats.thy ===== *)
theory Formats
  imports Prelude
begin

text \<open>
  The contract between a serialiser and its parser. \<open>message_format\<close>: the parser reads a whole
  message back. \<open>offset_format\<close>: the parser is called on a buffer and an offset, reads exactly what
  the serialiser wrote there and returns the next offset, whatever stands before and behind; it is
  what lets a message embed the field. The packet formats of the development interpret one of
  them.
\<close>

locale message_format =
  fixes ok :: "'a \<Rightarrow> bool"
    and enc :: "'a \<Rightarrow> 'b res"
    and dec :: "'b \<Rightarrow> 'a res"
  assumes dec_enc: "ok x \<Longrightarrow> \<exists>bs. enc x = Inr bs \<and> dec bs = Inr x"
begin

lemma total: "ok x \<Longrightarrow> \<not> raises (enc x)"
  using dec_enc by (auto simp: not_raises)

lemma roundtrip: "ok x \<Longrightarrow> rbind (enc x) dec = Inr x"
  using dec_enc [of x] by auto

lemma unambiguous: "ok x \<Longrightarrow> ok y \<Longrightarrow> enc x = enc y \<Longrightarrow> x = y"
  using dec_enc [of x] dec_enc [of y] by auto

end

locale offset_format =
  fixes ok :: "'a \<Rightarrow> bool"
    and enc :: "'a \<Rightarrow> bytes res"
    and dec :: "bytes \<Rightarrow> nat \<Rightarrow> ('a \<times> nat) res"
  assumes dec_at: "ok x \<Longrightarrow> \<exists>bs. enc x = Inr bs
      \<and> (\<forall>pre post. dec (pre @ bs @ post) (length pre) = Inr (x, length pre + length bs))"
begin

lemma dec_here:
  assumes "ok x"
  obtains bs where "enc x = Inr bs" "\<And>pre post. dec (pre @ bs @ post) (length pre) = Inr (x, length pre + length bs)"
  using dec_at [OF assms] by blast

text \<open>No encoding is a proper prefix of another.\<close>

lemma prefix_free:
  assumes "ok x" "ok y" "enc x = Inr bs" "enc y = Inr (bs @ cs)"
  shows "x = y \<and> cs = []"
proof -
  have x: "\<And>pre post. dec (pre @ bs @ post) (length pre) = Inr (x, length pre + length bs)"
    using dec_at [OF assms(1)] assms(3) by auto
  have y: "\<And>pre post. dec (pre @ (bs @ cs) @ post) (length pre) = Inr (y, length pre + length (bs @ cs))"
    using dec_at [OF assms(2)] assms(4) by auto
  show ?thesis using x [of "[]" cs] y [of "[]" "[]"] by simp
qed

end

sublocale offset_format \<subseteq> whole: message_format ok enc "\<lambda>bs. rbind (dec bs 0) (\<lambda>(x, _). Inr x)"
proof unfold_locales
  fix x assume "ok x"
  then obtain bs where e: "enc x = Inr bs"
      and d: "\<And>pre post. dec (pre @ bs @ post) (length pre) = Inr (x, length pre + length bs)"
    using dec_here by metis
  show "\<exists>bs. enc x = Inr bs \<and> rbind (dec bs 0) (\<lambda>(x, _). Inr x) = Inr x"
    using e d [of "[]" "[]"] by simp
qed

end
