(* ===== verification/Rtp.thy ===== *)
theory Rtp
  imports Formats
begin

text \<open>
  \<^verbatim>\<open>ims/rtp.py\<close>: RTP packets and RTCP sender and receiver reports. Fields are Python integers,
  masked or refused by \<^verbatim>\<open>struct.pack\<close> as the code does.
\<close>

definition RTP_VERSION :: int where "RTP_VERSION = 2"

record rtp_packet =
  version :: int
  padding :: bool
  extension :: bool
  csrc_count :: int
  marker :: bool
  payload_type :: int
  sequence_number :: int
  rtp_timestamp :: int
  ssrc :: int
  csrc_list :: "int list"
  payload :: bytes

definition default_packet :: rtp_packet where
  "default_packet = \<lparr>version = RTP_VERSION, padding = False, extension = False, csrc_count = 0, marker = False,
     payload_type = 96, sequence_number = 0, rtp_timestamp = 0, ssrc = 0, csrc_list = [], payload = []\<rparr>"

definition rtp_byte0 :: "rtp_packet \<Rightarrow> int" where
  "rtp_byte0 p = push_bit 6 (version p) OR push_bit 5 (of_bool (padding p)) OR push_bit 4 (of_bool (extension p))
     OR (csrc_count p AND 0x0F)"

definition rtp_byte1 :: "rtp_packet \<Rightarrow> int" where
  "rtp_byte1 p = push_bit 7 (of_bool (marker p)) OR (payload_type p AND 0x7F)"

definition rtp_to_bytes :: "rtp_packet \<Rightarrow> bytes res" where
  "rtp_to_bytes p =
     rbind (pack 1 (rtp_byte0 p)) (\<lambda>b0. rbind (pack 1 (rtp_byte1 p)) (\<lambda>b1.
     rbind (pack 2 (sequence_number p AND 0xFFFF)) (\<lambda>s. rbind (pack 4 (rtp_timestamp p AND 0xFFFFFFFF)) (\<lambda>t.
     rbind (pack 4 (ssrc p AND 0xFFFFFFFF)) (\<lambda>r.
     rbind (rmap (\<lambda>c. pack 4 (c AND 0xFFFFFFFF)) (slice_to (csrc_list p) 0 (csrc_count p))) (\<lambda>cs.
     Inr ((b0 @ b1 @ s @ t @ r @ concat cs) @ payload p)))))))"

text \<open>\<^verbatim>\<open>for _ in range(cc): if offset + 4 > len(data): break ...\<close>\<close>

fun read_csrcs :: "nat \<Rightarrow> bytes \<Rightarrow> nat \<Rightarrow> int list \<times> nat" where
  "read_csrcs 0 d offset = ([], offset)"
| "read_csrcs (Suc n) d offset =
     (if offset + 4 > length d then ([], offset)
      else case read_csrcs n d (offset + 4) of (cs, o') \<Rightarrow> (unpack (slice d offset (offset + 4)) # cs, o'))"

definition rtp_from_bytes :: "bytes \<Rightarrow> rtp_packet res" where
  "rtp_from_bytes d =
     (if length d < 12 then Inl ValueError
      else let byte0 = unpack (slice d 0 1); byte1 = unpack (slice d 1 2); seq = unpack (slice d 2 4);
               ts = unpack (slice d 4 8); src = unpack (slice d 8 12);
               v = drop_bit 6 byte0 AND 0x03 in
        if v \<noteq> RTP_VERSION then Inl ValueError
        else let pad = (byte0 AND 0x20 \<noteq> 0); ext = (byte0 AND 0x10 \<noteq> 0); cc = byte0 AND 0x0F;
                 mark = (byte1 AND 0x80 \<noteq> 0); pt = byte1 AND 0x7F;
                 (csrcs, o1) = read_csrcs (nat cc) d 12;
                 o2 = (if ext \<and> o1 + 4 \<le> length d
                       then o1 + 4 + nat (unpack (slice d (o1 + 2) (o1 + 4))) * 4 else o1);
                 payload_end = (if pad \<and> length d > o2 then int (length d) - uint (last d) else int (length d))
          in Inr \<lparr>version = v, padding = pad, extension = ext, csrc_count = cc, marker = mark, payload_type = pt,
               sequence_number = seq, rtp_timestamp = ts, ssrc = src, csrc_list = csrcs,
               payload = slice_to d o2 payload_end\<rparr>)"

definition header_size :: "rtp_packet \<Rightarrow> int" where
  "header_size p = 12 + 4 * csrc_count p"

section \<open>Round trip\<close>

definition u32 :: "int \<Rightarrow> bool" where
  "u32 x \<longleftrightarrow> 0 \<le> x \<and> x < 2 ^ 32"

definition rtp_ok :: "rtp_packet \<Rightarrow> bool" where
  "rtp_ok p \<longleftrightarrow> version p = 2 \<and> \<not> padding p \<and> \<not> extension p
     \<and> csrc_count p = int (length (csrc_list p)) \<and> length (csrc_list p) < 16 \<and> list_all u32 (csrc_list p)
     \<and> 0 \<le> payload_type p \<and> payload_type p < 128 \<and> 0 \<le> sequence_number p \<and> sequence_number p < 65536
     \<and> u32 (rtp_timestamp p) \<and> u32 (ssrc p)"

lemma u32_masked [simp]: "u32 x \<Longrightarrow> x AND 0xFFFFFFFF = x"
  by (simp add: u32_def and_4294967295_int)

lemma pack_u32: "u32 x \<Longrightarrow> pack 4 x = Inr (be_bytes 4 (nat x))" "u32 x \<Longrightarrow> unpack (be_bytes 4 (nat x)) = x"
  by (simp_all add: u32_def pack_ok unpack_pack)

lemma read_csrcs_at:
  "list_all u32 cs \<Longrightarrow> read_csrcs (length cs) (pre @ concat (map (\<lambda>c. be_bytes 4 (nat c)) cs) @ post) (length pre)
     = (cs, length pre + 4 * length cs)"
proof (induction cs arbitrary: pre)
  case (Cons c cs)
  have "read_csrcs (length cs) ((pre @ be_bytes 4 (nat c)) @ concat (map (\<lambda>c. be_bytes 4 (nat c)) cs) @ post)
      (length (pre @ be_bytes 4 (nat c))) = (cs, length (pre @ be_bytes 4 (nat c)) + 4 * length cs)"
    using Cons by (intro Cons.IH) simp
  then show ?case using Cons.prems pack_u32(2) [of c] by (simp add: slice_def)
qed simp

lemma byte1_fields:
  fixes pt :: int and m :: bool
  assumes "0 \<le> pt" "pt < 128"
  defines "b \<equiv> push_bit 7 (of_bool m) OR (pt AND 0x7F) :: int"
  shows "0 \<le> b" "b < 256" "b AND 0x80 \<noteq> 0 \<longleftrightarrow> m" "b AND 0x7F = pt"
proof -
  have b: "b = of_bool m * 128 + pt" using or_fields_int [of pt 7 "of_bool m"] assms by (simp add: and_127_int)
  show "0 \<le> b" "b < 256" using assms(1,2) unfolding b by (cases m; simp)+
  show "b AND 0x80 \<noteq> 0 \<longleftrightarrow> m" "b AND 0x7F = pt"
    using int_block [of pt 128 "of_bool m"] assms(1,2) unfolding b bit_test_int and_127_int by (cases m; simp)+
qed

lemma byte0_fields:
  fixes c :: int
  assumes "0 \<le> c" "c < 16"
  defines "b \<equiv> push_bit 6 2 OR push_bit 5 (of_bool False) OR push_bit 4 (of_bool False) OR (c AND 0x0F) :: int"
  shows "0 \<le> b" "b < 256" "drop_bit 6 b AND 3 = 2" "b AND 0x20 = 0" "b AND 0x10 = 0" "b AND 0x0F = c"
proof -
  have b: "b = 128 + c" using or_fields_int [of c 4 8] assms by (simp add: and_15_int)
  have "(4 * 32 + c) div 32 = 4" "(8 * 16 + c) div 16 = 8" "(8 * 16 + c) mod 16 = c" "(2 * 64 + c) div 64 = 2"
    using assms(1,2) by (simp_all only: int_block)
  then have d: "b div 32 = 4" "b div 16 = 8" "b mod 16 = c" "b div 64 = 2" by (simp_all add: b)
  then show "b AND 0x20 = 0" "b AND 0x10 = 0" "b AND 0x0F = c" "drop_bit 6 b AND 3 = 2"
    using bit_test_int(2,3) [of b] by (simp_all add: and_15_int and_3_int drop_bit_eq_div)
  show "0 \<le> b" "b < 256" using assms(1,2) by (simp_all add: b)
qed

lemma slice_field:
  "length a = i \<Longrightarrow> length b = j - i \<Longrightarrow> i \<le> j \<Longrightarrow> slice (a @ b @ c) i j = b"
  by (simp add: slice_def)

lemma rtp_dec_enc:
  assumes "rtp_ok p"
  shows "\<exists>bs. rtp_to_bytes p = Inr bs \<and> rtp_from_bytes bs = Inr p"
proof -
  note o = assms [unfolded rtp_ok_def]
  have b0: "rtp_byte0 p = push_bit 6 2 OR push_bit 5 (of_bool False) OR push_bit 4 (of_bool False) OR (csrc_count p AND 0x0F)"
    using o by (simp add: rtp_byte0_def)
  note f0 = byte0_fields [of "csrc_count p", folded b0]
  note f1 = byte1_fields [of "payload_type p" "marker p", folded rtp_byte1_def]
  have cc: "0 \<le> csrc_count p" "csrc_count p < 16" using o by simp_all
  have pt: "0 \<le> payload_type p" "payload_type p < 128" using o by simp_all
  define h0 h1 hs ht hr where "h0 = be_bytes 1 (nat (rtp_byte0 p))" and "h1 = be_bytes 1 (nat (rtp_byte1 p))"
    and "hs = be_bytes 2 (nat (sequence_number p))" and "ht = be_bytes 4 (nat (rtp_timestamp p))"
    and "hr = be_bytes 4 (nat (ssrc p))"
  define cs where "cs = concat (map (\<lambda>c. be_bytes 4 (nat c)) (csrc_list p))"
  have l: "length h0 = 1" "length h1 = 1" "length hs = 2" "length ht = 4" "length hr = 4"
    by (simp_all add: h0_def h1_def hs_def ht_def hr_def)
  have u: "unpack h0 = rtp_byte0 p" "unpack h1 = rtp_byte1 p" "unpack hs = sequence_number p"
    "unpack ht = rtp_timestamp p" "unpack hr = ssrc p"
    unfolding h0_def h1_def hs_def ht_def hr_def
    using f0(1,2) [OF cc] f1(1,2) [OF pt] o by (auto intro!: unpack_pack simp: u32_def)
  have "rmap (\<lambda>c. pack 4 (c AND 0xFFFFFFFF)) (csrc_list p) = Inr (map (\<lambda>c. be_bytes 4 (nat c)) (csrc_list p))"
    by (rule rmap_Inr) (use o in \<open>auto simp: list_all_iff pack_u32\<close>)
  then have enc: "rtp_to_bytes p = Inr (h0 @ h1 @ hs @ ht @ hr @ cs @ payload p)"
    using f0(1,2) [OF cc] f1(1,2) [OF pt] o
    by (simp add: rtp_to_bytes_def pack_ok pack_u32 and_65535_int h0_def h1_def hs_def ht_def hr_def cs_def)
  define d where "d = h0 @ h1 @ hs @ ht @ hr @ cs @ payload p"
  have sl: "slice d 0 1 = h0" "slice d 1 2 = h1" "slice d 2 4 = hs" "slice d 4 8 = ht" "slice d 8 12 = hr"
    unfolding d_def by (simp_all add: slice_def l)
  have rc: "read_csrcs (length (csrc_list p)) d 12 = (csrc_list p, 12 + 4 * length (csrc_list p))"
    using read_csrcs_at [of "csrc_list p" "h0 @ h1 @ hs @ ht @ hr" "payload p"] o
    by (simp add: d_def cs_def l)
  have lc: "length cs = 4 * length (csrc_list p)"
    unfolding cs_def by (induction "csrc_list p") (auto simp: length_concat comp_def sum_list_triv)
  have pl: "slice d (12 + 4 * length (csrc_list p)) (length d) = payload p"
    unfolding d_def by (simp add: slice_def l lc)
  have "\<not> length d < 12" by (simp add: d_def l)
  then have "rtp_from_bytes d = Inr p"
    unfolding rtp_from_bytes_def sl u Let_def
    using f0(3-6) [OF cc] f1(3,4) [OF pt] o pl by (simp add: RTP_VERSION_def rc)
  with enc show ?thesis by (simp add: d_def)
qed

interpretation rtp_format: message_format rtp_ok rtp_to_bytes rtp_from_bytes
  by unfold_locales (rule rtp_dec_enc)

text \<open>
  Every packet without padding and header extension, with up to 15 contributing sources and
  fields in range, is parsed back whole, and no two such packets share a wire form.
\<close>

theorem rtp_roundtrip:
  assumes "rtp_ok p" "rtp_ok q"
  shows "rbind (rtp_to_bytes p) rtp_from_bytes = Inr p \<and> (rtp_to_bytes p = rtp_to_bytes q \<longrightarrow> p = q)"
  using rtp_format.roundtrip [OF assms(1)] rtp_format.unambiguous [OF assms] by blast

theorem rtp_roundtrip_witness:
  "rbind (rtp_to_bytes (default_packet\<lparr>csrc_list := [7], csrc_count := 1, sequence_number := 65535\<rparr>)) rtp_from_bytes
     = Inr (default_packet\<lparr>csrc_list := [7], csrc_count := 1, sequence_number := 65535\<rparr>)"
proof -
  have "rtp_ok (default_packet\<lparr>csrc_list := [7], csrc_count := 1, sequence_number := 65535\<rparr>)"
    by (simp add: rtp_ok_def default_packet_def RTP_VERSION_def u32_def)
  from rtp_roundtrip [OF this this] show ?thesis by blast
qed

section \<open>RTCP reports\<close>

record sender_report =
  sr_ssrc :: int
  ntp_msw :: int
  ntp_lsw :: int
  sr_rtp_timestamp :: int
  sender_packet_count :: int
  sender_octet_count :: int

definition packs :: "int list \<Rightarrow> bytes res" where
  "packs xs = rbind (rmap (pack 4) xs) (\<lambda>bs. Inr (concat bs))"

definition sr_to_bytes :: "sender_report \<Rightarrow> bytes res" where
  "sr_to_bytes r =
     rbind (packs [ntp_msw r, ntp_lsw r, sr_rtp_timestamp r, sender_packet_count r, sender_octet_count r]) (\<lambda>body.
     let len = (4 + int (length body)) div 4 - 1 in
     rbind (pack 1 0x80) (\<lambda>a. rbind (pack 1 200) (\<lambda>b. rbind (pack 2 len) (\<lambda>c. rbind (pack 4 (sr_ssrc r)) (\<lambda>s.
     Inr ((a @ b @ c @ s) @ body))))))"

definition words_at :: "bytes \<Rightarrow> nat \<Rightarrow> nat \<Rightarrow> int list" where
  "words_at d offset n = map (\<lambda>i. unpack (slice d (offset + 4 * i) (offset + 4 * i + 4))) [0..<n]"

definition sr_from_bytes :: "bytes \<Rightarrow> sender_report res" where
  "sr_from_bytes d =
     (if length d < 28 then Inl ValueError
      else let w = words_at d 8 5
        in Inr \<lparr>sr_ssrc = unpack (slice d 4 8), ntp_msw = w ! 0, ntp_lsw = w ! 1, sr_rtp_timestamp = w ! 2,
                sender_packet_count = w ! 3, sender_octet_count = w ! 4\<rparr>)"

record receiver_report =
  rr_ssrc :: int
  source_ssrc :: int
  fraction_lost :: int
  cumulative_lost :: int
  highest_seq :: int
  jitter :: int
  last_sr :: int
  delay_since_sr :: int

definition lost_word :: "receiver_report \<Rightarrow> int" where
  "lost_word r = push_bit 24 (fraction_lost r AND 0xFF) OR (cumulative_lost r AND 0x00FFFFFF)"

definition rr_to_bytes :: "receiver_report \<Rightarrow> bytes res" where
  "rr_to_bytes r =
     rbind (packs [source_ssrc r, lost_word r, highest_seq r, jitter r, last_sr r, delay_since_sr r]) (\<lambda>block.
     let len = (4 + int (length block)) div 4 - 1 in
     rbind (pack 1 0x81) (\<lambda>a. rbind (pack 1 201) (\<lambda>b. rbind (pack 2 len) (\<lambda>c. rbind (pack 4 (rr_ssrc r)) (\<lambda>s.
     Inr ((a @ b @ c @ s) @ block))))))"

definition rr_from_bytes :: "bytes \<Rightarrow> receiver_report res" where
  "rr_from_bytes d =
     (if length d < 32 then Inl ValueError
      else let w = words_at d 12 5
        in Inr \<lparr>rr_ssrc = unpack (slice d 4 8), source_ssrc = unpack (slice d 8 12),
                fraction_lost = drop_bit 24 (w ! 0) AND 0xFF, cumulative_lost = w ! 0 AND 0x00FFFFFF,
                highest_seq = w ! 1, jitter = w ! 2, last_sr = w ! 3, delay_since_sr = w ! 4\<rparr>)"

lemma packs_words:
  assumes "list_all u32 xs"
  obtains bs where "packs xs = Inr bs" "length bs = 4 * length xs"
    "\<And>pre i. i < length xs \<Longrightarrow> unpack (slice (pre @ bs) (length pre + 4 * i) (length pre + 4 * i + 4)) = xs ! i"
proof -
  have "\<exists>bs. packs xs = Inr bs \<and> length bs = 4 * length xs
      \<and> (\<forall>pre i. i < length xs \<longrightarrow> unpack (slice (pre @ bs) (length pre + 4 * i) (length pre + 4 * i + 4)) = xs ! i)"
    using assms
  proof (induction xs)
    case (Cons x xs)
    then obtain bs where bs: "packs xs = Inr bs" "length bs = 4 * length xs"
        "\<And>pre i. i < length xs \<Longrightarrow> unpack (slice (pre @ bs) (length pre + 4 * i) (length pre + 4 * i + 4)) = xs ! i"
      by auto
    have x: "pack 4 x = Inr (be_bytes 4 (nat x))" "unpack (be_bytes 4 (nat x)) = x" using Cons.prems pack_u32 by simp_all
    have "packs (x # xs) = Inr (be_bytes 4 (nat x) @ bs)"
      using bs(1) x(1) by (auto simp: packs_def rbind_eq_Inr)
    moreover have "unpack (slice (pre @ be_bytes 4 (nat x) @ bs) (length pre + 4 * i) (length pre + 4 * i + 4)) = (x # xs) ! i"
      if "i < length (x # xs)" for pre i
    proof (cases i)
      case 0
      then show ?thesis using x(2) by (simp add: slice_def)
    next
      case (Suc j)
      then show ?thesis using that bs(3) [of j "pre @ be_bytes 4 (nat x)"] by (simp add: algebra_simps)
    qed
    ultimately show ?case using bs(2) by auto
  qed (simp add: packs_def)
  then show thesis using that by blast
qed

definition sr_ok :: "sender_report \<Rightarrow> bool" where
  "sr_ok r \<longleftrightarrow> list_all u32 [sr_ssrc r, ntp_msw r, ntp_lsw r, sr_rtp_timestamp r, sender_packet_count r, sender_octet_count r]"

definition rr_ok :: "receiver_report \<Rightarrow> bool" where
  "rr_ok r \<longleftrightarrow> list_all u32 [rr_ssrc r, source_ssrc r, highest_seq r, jitter r, last_sr r, delay_since_sr r]
     \<and> 0 \<le> fraction_lost r \<and> fraction_lost r < 256 \<and> 0 \<le> cumulative_lost r \<and> cumulative_lost r < 2 ^ 24"

text \<open>Both reports: an eight-byte header with the SSRC, then words.\<close>

lemma report_words:
  assumes "list_all u32 xs" "u32 s" "0 \<le> t" "t < 256" "0 \<le> v" "v < 256" "length xs < 1000"
  obtains h bs where "packs xs = Inr bs" "length bs = 4 * length xs" "length h = 8"
    "rbind (pack 1 v) (\<lambda>a. rbind (pack 1 t) (\<lambda>b. rbind (pack 2 ((4 + int (length bs)) div 4 - 1)) (\<lambda>c.
       rbind (pack 4 s) (\<lambda>s. Inr ((a @ b @ c @ s) @ bs))))) = Inr (h @ bs)"
    "unpack (slice (h @ bs) 4 8) = s"
    "\<And>i. i < length xs \<Longrightarrow> unpack (slice (h @ bs) (8 + 4 * i) (8 + 4 * i + 4)) = xs ! i"
proof -
  obtain bs where bs: "packs xs = Inr bs" "length bs = 4 * length xs"
      "\<And>pre i. i < length xs \<Longrightarrow> unpack (slice (pre @ bs) (length pre + 4 * i) (length pre + 4 * i + 4)) = xs ! i"
    using packs_words [OF assms(1)] by blast
  define h where "h = be_bytes 1 (nat v) @ be_bytes 1 (nat t) @ be_bytes 2 (nat (int (length xs))) @ be_bytes 4 (nat s)"
  have lh: "length h = 8" by (simp add: h_def)
  have "(4 + int (length bs)) div 4 - 1 = int (length xs)" by (simp add: bs(2))
  then show thesis
    using that [OF bs(1,2) lh] bs(3) [of _ h] assms pack_u32 [OF assms(2)] lh
    by (simp add: pack_ok) (simp add: h_def slice_def)
qed

lemma sr_dec_enc:
  assumes "sr_ok r"
  shows "\<exists>bs. sr_to_bytes r = Inr bs \<and> sr_from_bytes bs = Inr r"
proof -
  let ?xs = "[ntp_msw r, ntp_lsw r, sr_rtp_timestamp r, sender_packet_count r, sender_octet_count r]"
  have a: "list_all u32 ?xs" "u32 (sr_ssrc r)" "length ?xs < 1000" using assms by (simp_all add: sr_ok_def)
  obtain h bs where p: "packs ?xs = Inr bs" and l: "length bs = 4 * length ?xs" "length h = 8"
    and e: "rbind (pack 1 0x80) (\<lambda>a. rbind (pack 1 200) (\<lambda>b. rbind (pack 2 ((4 + int (length bs)) div 4 - 1)) (\<lambda>c.
         rbind (pack 4 (sr_ssrc r)) (\<lambda>s. Inr ((a @ b @ c @ s) @ bs))))) = Inr (h @ bs)"
    and s: "unpack (slice (h @ bs) 4 8) = sr_ssrc r"
    and w: "\<And>i. i < length ?xs \<Longrightarrow> unpack (slice (h @ bs) (8 + 4 * i) (8 + 4 * i + 4)) = ?xs ! i"
    by (rule report_words [where t = 200 and v = 128, OF a(1,2)]) (assumption | simp)+
  have "words_at (h @ bs) 8 5 = map (\<lambda>i. ?xs ! i) [0..<5]"
    unfolding words_at_def by (rule map_cong [OF refl]) (use w in simp)
  also have "\<dots> = ?xs" by (simp add: upt_rec)
  finally have "sr_from_bytes (h @ bs) = Inr r" using l s by (simp add: sr_from_bytes_def)
  moreover have "sr_to_bytes r = Inr (h @ bs)" unfolding sr_to_bytes_def p rbind_simps Let_def by (rule e)
  ultimately show ?thesis by blast
qed

interpretation sr_format: message_format sr_ok sr_to_bytes sr_from_bytes
  by unfold_locales (rule sr_dec_enc)

lemma lost_word_fields:
  assumes "0 \<le> fraction_lost r" "fraction_lost r < 256" "0 \<le> cumulative_lost r" "cumulative_lost r < 2 ^ 24"
  shows "u32 (lost_word r)" "drop_bit 24 (lost_word r) AND 0xFF = fraction_lost r" "lost_word r AND 0x00FFFFFF = cumulative_lost r"
proof -
  have w: "lost_word r = fraction_lost r * 16777216 + cumulative_lost r"
    using or_fields_int [of "cumulative_lost r" 24 "fraction_lost r"] assms
    by (simp add: lost_word_def and_255_int and_16777215_int)
  then show "u32 (lost_word r)" using assms by (simp add: u32_def)
  show "drop_bit 24 (lost_word r) AND 0xFF = fraction_lost r" "lost_word r AND 0x00FFFFFF = cumulative_lost r"
    using int_block [of "cumulative_lost r" 16777216 "fraction_lost r"] assms
    by (simp_all add: w drop_bit_eq_div and_255_int and_16777215_int)
qed

lemma rr_dec_enc:
  assumes "rr_ok r"
  shows "\<exists>bs. rr_to_bytes r = Inr bs \<and> rr_from_bytes bs = Inr r"
proof -
  have f: "0 \<le> fraction_lost r" "fraction_lost r < 256" "0 \<le> cumulative_lost r" "cumulative_lost r < 2 ^ 24"
    using assms by (simp_all add: rr_ok_def)
  note lw = lost_word_fields [OF f]
  let ?xs = "[source_ssrc r, lost_word r, highest_seq r, jitter r, last_sr r, delay_since_sr r]"
  have a: "list_all u32 ?xs" "u32 (rr_ssrc r)" using assms lw(1) by (simp_all add: rr_ok_def)
  obtain h bs where p: "packs ?xs = Inr bs" and l: "length bs = 4 * length ?xs" "length h = 8"
    and e: "rbind (pack 1 0x81) (\<lambda>a. rbind (pack 1 201) (\<lambda>b. rbind (pack 2 ((4 + int (length bs)) div 4 - 1)) (\<lambda>c.
         rbind (pack 4 (rr_ssrc r)) (\<lambda>s. Inr ((a @ b @ c @ s) @ bs))))) = Inr (h @ bs)"
    and s: "unpack (slice (h @ bs) 4 8) = rr_ssrc r"
    and w: "\<And>i. i < length ?xs \<Longrightarrow> unpack (slice (h @ bs) (8 + 4 * i) (8 + 4 * i + 4)) = ?xs ! i"
    by (rule report_words [where t = 201 and v = 129, OF a]) (assumption | simp)+
  have "words_at (h @ bs) 12 5 = map (\<lambda>i. ?xs ! Suc i) [0..<5]"
    unfolding words_at_def by (rule map_cong [OF refl]) (use w [of "Suc _"] in simp)
  also have "\<dots> = tl ?xs" by (simp add: upt_rec)
  finally have "rr_from_bytes (h @ bs) = Inr r" using l s w [of 0] lw(2,3) by (simp add: rr_from_bytes_def)
  moreover have "rr_to_bytes r = Inr (h @ bs)" unfolding rr_to_bytes_def p rbind_simps Let_def by (rule e)
  ultimately show ?thesis by blast
qed

interpretation rr_format: message_format rr_ok rr_to_bytes rr_from_bytes
  by unfold_locales (rule rr_dec_enc)

text \<open>
  Sender and receiver reports whose fields fit their wire width are parsed back whole; in a
  receiver report the 8-bit fraction and the 24-bit count share a word without loss.
\<close>

theorem rtcp_roundtrip:
  assumes "sr_ok s" "rr_ok r"
  shows "rbind (sr_to_bytes s) sr_from_bytes = Inr s \<and> rbind (rr_to_bytes r) rr_from_bytes = Inr r"
  using sr_format.roundtrip [OF assms(1)] rr_format.roundtrip [OF assms(2)] by blast

theorem rtcp_roundtrip_witness:
  "rbind (rr_to_bytes \<lparr>rr_ssrc = 1, source_ssrc = 2, fraction_lost = 255, cumulative_lost = 16777215, highest_seq = 70000,
       jitter = 3, last_sr = 4, delay_since_sr = 5\<rparr>) rr_from_bytes
   = Inr \<lparr>rr_ssrc = 1, source_ssrc = 2, fraction_lost = 255, cumulative_lost = 16777215, highest_seq = 70000,
       jitter = 3, last_sr = 4, delay_since_sr = 5\<rparr>"
  using rtcp_roundtrip [of "\<lparr>sr_ssrc = 0, ntp_msw = 0, ntp_lsw = 0, sr_rtp_timestamp = 0, sender_packet_count = 0,
      sender_octet_count = 0\<rparr>"] by (simp add: sr_ok_def rr_ok_def u32_def)

end
