(* ===== verification/Jitter.thy ===== *)
theory Jitter
  imports Rtp
begin

text \<open>
  The jitter buffer of \<^verbatim>\<open>ims/media.py\<close>. Its deque has a maximal length: appending to a full one
  drops the first entry, inserting into a full one raises IndexError, after the counters have
  moved. The floating-point interarrival estimate, which only feeds statistics, is left out.
\<close>

record jb_entry =
  je_seq :: int
  je_timestamp :: int
  je_payload :: bytes

record jitter_buffer =
  target_depth :: nat
  max_len :: nat
  jb_buffer :: "jb_entry list"
  next_seq :: "int option"
  jb_received :: nat
  jb_played :: nat
  jb_lost :: nat
  jb_late :: nat
  jb_duplicate :: nat

definition new_jitter_buffer :: "nat \<Rightarrow> nat \<Rightarrow> jitter_buffer" where
  "new_jitter_buffer max_depth target = \<lparr>target_depth = target, max_len = max_depth * 2, jb_buffer = [], next_seq = None,
     jb_received = 0, jb_played = 0, jb_lost = 0, jb_late = 0, jb_duplicate = 0\<rparr>"

text \<open>The index of the first entry with a larger sequence number.\<close>

fun insert_position :: "int \<Rightarrow> jb_entry list \<Rightarrow> nat option" where
  "insert_position seq [] = None"
| "insert_position seq (e # es) = (if je_seq e > seq then Some 0 else map_option Suc (insert_position seq es))"

definition jb_put :: "rtp_packet \<Rightarrow> jitter_buffer \<Rightarrow> jitter_buffer \<times> unit res" where
  "jb_put p jb =
     (let seq = sequence_number p;
          jb1 = jb\<lparr>jb_received := jb_received jb + 1,
                   next_seq := (case next_seq jb of None \<Rightarrow> Some seq | Some n \<Rightarrow> Some n)\<rparr> in
      if \<exists>e \<in> set (jb_buffer jb1). je_seq e = seq then (jb1\<lparr>jb_duplicate := jb_duplicate jb1 + 1\<rparr>, Inr ())
      else let entry = \<lparr>je_seq = seq, je_timestamp = rtp_timestamp p, je_payload = payload p\<rparr>; b = jb_buffer jb1 in
        case insert_position seq b of
          Some i \<Rightarrow> if length b \<ge> max_len jb1 then (jb1, Inl IndexError)
                    else (jb1\<lparr>jb_buffer := take i b @ entry # drop i b\<rparr>, Inr ())
        | None \<Rightarrow> (jb1\<lparr>jb_buffer := (if length b \<ge> max_len jb1 then drop 1 b else b) @ [entry]\<rparr>, Inr ()))"

text \<open>\<open>get\<close> calls itself after discarding a late packet; the buffer shrinks.\<close>

function jb_get :: "jitter_buffer \<Rightarrow> jitter_buffer \<times> bytes option" where
  "jb_get jb =
     (if length (jb_buffer jb) < target_depth jb then (jb, None)
      else case jb_buffer jb of [] \<Rightarrow> (jb, None)
        | front # rest \<Rightarrow>
          let play = (jb\<lparr>jb_buffer := rest, next_seq := Some ((je_seq front + 1) AND 0xFFFF), jb_played := jb_played jb + 1\<rparr>,
                      Some (je_payload front)) in
          case next_seq jb of None \<Rightarrow> play
            | Some n \<Rightarrow>
              let diff = (je_seq front - n) AND 0xFFFF in
              if diff > 0x8000 then jb_get (jb\<lparr>jb_buffer := rest, jb_late := jb_late jb + 1\<rparr>)
              else if diff > 0 then (jb\<lparr>jb_lost := jb_lost jb + 1, next_seq := Some ((n + 1) AND 0xFFFF)\<rparr>, Some [])
              else play)"
  by pat_completeness auto
termination by (relation "measure (\<lambda>jb. length (jb_buffer jb))") auto

declare jb_get.simps [simp del]

definition jb_reset :: "jitter_buffer \<Rightarrow> jitter_buffer" where
  "jb_reset jb = jb\<lparr>jb_buffer := [], next_seq := None\<rparr>"

definition jb_stats :: "jitter_buffer \<Rightarrow> (string \<times> nat) list" where
  "jb_stats jb = [(''depth'', length (jb_buffer jb)), (''received'', jb_received jb), (''played'', jb_played jb),
     (''lost'', jb_lost jb), (''late'', jb_late jb), (''duplicate'', jb_duplicate jb)]"

section \<open>Order and accounting\<close>

definition seqs :: "jitter_buffer \<Rightarrow> int list" where
  "seqs jb = map je_seq (jb_buffer jb)"

lemma seqs_updates [simp]: "seqs (jb\<lparr>jb_lost := a, next_seq := b\<rparr>) = seqs jb"
  "seqs (jb\<lparr>jb_buffer := c, jb_late := a\<rparr>) = map je_seq c"
  by (simp_all add: seqs_def)

text \<open>
  The invariant: sequence numbers strictly increase along the buffer, the bound holds, and every
  packet received is a duplicate, late, played, or still there.
\<close>

definition jb_inv :: "jitter_buffer \<Rightarrow> bool" where
  "jb_inv jb \<longleftrightarrow> sorted_wrt (<) (seqs jb) \<and> length (jb_buffer jb) \<le> max_len jb
     \<and> jb_received jb = jb_duplicate jb + jb_late jb + jb_played jb + length (jb_buffer jb)
     \<and> (\<forall>s \<in> set (seqs jb). 0 \<le> s \<and> s < 65536) \<and> (\<forall>n. next_seq jb = Some n \<longrightarrow> 0 \<le> n \<and> n < 65536)
     \<and> (jb_buffer jb \<noteq> [] \<longrightarrow> next_seq jb \<noteq> None)"

lemma insert_position_sorted:
  assumes "sorted_wrt (<) (map je_seq b)" "\<forall>e \<in> set b. je_seq e \<noteq> s" "je_seq e = s"
  shows "case insert_position s b of
      None \<Rightarrow> sorted_wrt (<) (map je_seq (b @ [e]))
    | Some i \<Rightarrow> i < length b \<and> sorted_wrt (<) (map je_seq (take i b @ e # drop i b))"
  using assms
proof (induction b)
  case (Cons f b)
  show ?case
  proof (cases "je_seq f > s")
    case True
    then show ?thesis using Cons.prems by auto
  next
    case False
    then have f: "je_seq f < s" using Cons.prems by auto
    have ih: "case insert_position s b of None \<Rightarrow> sorted_wrt (<) (map je_seq (b @ [e]))
        | Some i \<Rightarrow> i < length b \<and> sorted_wrt (<) (map je_seq (take i b @ e # drop i b))"
      using Cons by auto
    have st: "set (take i b) \<union> set (drop i b) = set b" for i
      by (metis append_take_drop_id set_append)
    show ?thesis
    proof (cases "insert_position s b")
      case None
      then show ?thesis using ih f Cons.prems by auto
    next
      case (Some i)
      then show ?thesis using ih f Cons.prems st [of i] by (auto dest: in_set_takeD in_set_dropD)
    qed
  qed
qed simp

lemma jb_put_inv:
  assumes inv: "jb_inv jb" and room: "length (jb_buffer jb) < max_len jb"
    and p: "0 \<le> sequence_number p" "sequence_number p < 65536"
  shows "\<exists>jb'. jb_put p jb = (jb', Inr ()) \<and> jb_inv jb' \<and> max_len jb' = max_len jb \<and> target_depth jb' = target_depth jb"
proof (cases "\<exists>e \<in> set (jb_buffer jb). je_seq e = sequence_number p")
  case True
  then show ?thesis using inv by (auto simp: jb_put_def jb_inv_def seqs_def Let_def split: option.split)
next
  case False
  let ?e = "\<lparr>je_seq = sequence_number p, je_timestamp = rtp_timestamp p, je_payload = payload p\<rparr>"
  have s: "sorted_wrt (<) (map je_seq (jb_buffer jb))" using inv by (simp add: jb_inv_def seqs_def)
  note pos = insert_position_sorted [OF s, of "sequence_number p" ?e]
  show ?thesis
  proof (cases "insert_position (sequence_number p) (jb_buffer jb)")
    case None
    then have "sorted_wrt (<) (map je_seq (jb_buffer jb @ [?e]))" using pos False by auto
    then show ?thesis using None False inv room p
      by (auto simp: jb_put_def jb_inv_def seqs_def Let_def split: option.splits)
  next
    case (Some i)
    then have i: "i < length (jb_buffer jb)" "sorted_wrt (<) (map je_seq (take i (jb_buffer jb) @ ?e # drop i (jb_buffer jb)))"
      using pos False by auto
    then show ?thesis using Some False inv room p
      by (auto simp: jb_put_def jb_inv_def seqs_def Let_def dest: in_set_takeD in_set_dropD split: option.splits)
  qed
qed

text \<open>
  What \<open>get\<close> does: it returns nothing and keeps the expected number; or it returns the payload of
  the packet with the expected number, or the empty payload for a packet counted as lost, and
  expects the next number. A packet counted as lost is not in the buffer, unless the buffer holds
  numbers from both sides of the wrap-around.
\<close>

definition get_step :: "jitter_buffer \<Rightarrow> jitter_buffer \<Rightarrow> bytes option \<Rightarrow> bool" where
  "get_step jb jb' out \<longleftrightarrow> jb_inv jb' \<and> max_len jb' = max_len jb \<and> target_depth jb' = target_depth jb
    \<and> jb_received jb' = jb_received jb \<and> jb_duplicate jb' = jb_duplicate jb \<and> set (jb_buffer jb') \<subseteq> set (jb_buffer jb)
    \<and> (case out of None \<Rightarrow> next_seq jb' = next_seq jb \<and> jb_lost jb' = jb_lost jb \<and> jb_played jb' = jb_played jb
       | Some d \<Rightarrow> \<exists>n. next_seq jb = Some n \<and> next_seq jb' = Some ((n + 1) mod 65536)
           \<and> (jb_lost jb' = jb_lost jb + 1 \<and> jb_played jb' = jb_played jb \<and> d = []
                \<and> ((\<forall>s \<in> set (seqs jb). n \<le> s) \<longrightarrow> n \<notin> set (seqs jb))
              \<or> jb_lost jb' = jb_lost jb \<and> jb_played jb' = jb_played jb + 1
                \<and> (\<exists>e \<in> set (jb_buffer jb). je_seq e = n \<and> je_payload e = d)))"

lemma jb_get_props: "jb_inv jb \<Longrightarrow> get_step jb (fst (jb_get jb)) (snd (jb_get jb))"
proof (induction "length (jb_buffer jb)" arbitrary: jb rule: less_induct)
  case less
  note inv = less.prems
  show ?case
  proof (cases "length (jb_buffer jb) < target_depth jb \<or> jb_buffer jb = []")
    case True
    then have "jb_get jb = (jb, None)" by (subst jb_get.simps) (auto split: list.split)
    then show ?thesis using inv by (simp add: get_step_def)
  next
    case False
    then obtain front rest where b: "jb_buffer jb = front # rest" by (cases "jb_buffer jb") auto
    obtain n where n: "next_seq jb = Some n" "0 \<le> n" "n < 65536" using inv b by (auto simp: jb_inv_def)
    define diff where "diff = (je_seq front - n) mod 65536"
    have s: "sorted_wrt (<) (map je_seq (front # rest))" "0 \<le> je_seq front" "je_seq front < 65536"
      using inv b by (simp_all add: jb_inv_def seqs_def)
    have g: "jb_get jb = (if diff > 0x8000 then jb_get (jb\<lparr>jb_buffer := rest, jb_late := jb_late jb + 1\<rparr>)
        else if diff > 0 then (jb\<lparr>jb_lost := jb_lost jb + 1, next_seq := Some ((n + 1) mod 65536)\<rparr>, Some [])
        else (jb\<lparr>jb_buffer := rest, next_seq := Some ((je_seq front + 1) mod 65536), jb_played := jb_played jb + 1\<rparr>,
              Some (je_payload front)))"
      using False b n(1) by (subst jb_get.simps) (simp add: and_65535_int diff_def Let_def)
    consider "diff > 0x8000" | "0 < diff" "\<not> diff > 0x8000" | "\<not> 0 < diff" by linarith
    then show ?thesis
    proof cases
      case 1
      let ?jb1 = "jb\<lparr>jb_buffer := rest, jb_late := jb_late jb + 1\<rparr>"
      have "jb_inv ?jb1" using inv b n by (auto simp: jb_inv_def seqs_def)
      then have "get_step ?jb1 (fst (jb_get ?jb1)) (snd (jb_get ?jb1))" using less.hyps [of ?jb1] b by simp
      moreover have "je_seq front < n" if "\<forall>s \<in> set (map je_seq rest). n \<le> s" "n \<in> set (seqs jb)" "n \<notin> set (map je_seq rest)"
        using that b 1 by (auto simp: seqs_def diff_def)
      ultimately show ?thesis using 1 b n
        by (auto simp: g get_step_def seqs_def diff_def split: option.splits)
    next
      case 2
      have "n \<notin> set (seqs jb)" if "\<forall>s \<in> set (seqs jb). n \<le> s"
        using that s(1) 2(1) b by (auto simp: seqs_def diff_def)
      then show ?thesis using 2 inv b n by (auto simp: g get_step_def jb_inv_def)
    next
      case 3
      have "diff \<ge> 0" by (simp add: diff_def)
      with 3 have "diff = 0" by simp
      then have "je_seq front mod 65536 = n mod 65536" by (simp add: diff_def mod_eq_dvd_iff mod_eq_0_iff_dvd)
      then have "je_seq front = n" using s(2,3) n(2,3) by simp
      then show ?thesis using 3 inv b n by (auto simp: g get_step_def jb_inv_def seqs_def)
    qed
  qed
qed

section \<open>Runs\<close>

text \<open>
  The states a buffer reaches as long as no packet arrives at a full buffer, with what it has
  returned: each payload with the sequence number that was expected when it was returned.
\<close>

inductive jb_reach :: "nat \<Rightarrow> nat \<Rightarrow> jitter_buffer \<Rightarrow> (int \<times> bytes) list \<Rightarrow> bool" for m t where
  new: "jb_reach m t (new_jitter_buffer m t) []"
| put: "jb_reach m t jb outs \<Longrightarrow> 0 \<le> sequence_number p \<Longrightarrow> sequence_number p < 65536 \<Longrightarrow>
    length (jb_buffer jb) < max_len jb \<Longrightarrow> jb_reach m t (fst (jb_put p jb)) outs"
| wait: "jb_reach m t jb outs \<Longrightarrow> jb_get jb = (jb', None) \<Longrightarrow> jb_reach m t jb' outs"
| out: "jb_reach m t jb outs \<Longrightarrow> jb_get jb = (jb', Some d) \<Longrightarrow> jb_reach m t jb' (outs @ [(the (next_seq jb), d)])"

inductive_cases jb_reach_newE: "jb_reach m t jb []"

definition consecutive :: "int list \<Rightarrow> bool" where
  "consecutive ns \<longleftrightarrow> (\<forall>i. Suc i < length ns \<longrightarrow> ns ! Suc i = (ns ! i + 1) mod 65536)"

lemma consecutive_snoc: "consecutive ns \<Longrightarrow> ns = [] \<or> n = (last ns + 1) mod 65536 \<Longrightarrow> consecutive (ns @ [n])"
proof (unfold consecutive_def, intro allI impI)
  fix i assume c: "\<forall>i. Suc i < length ns \<longrightarrow> ns ! Suc i = (ns ! i + 1) mod 65536"
    and n: "ns = [] \<or> n = (last ns + 1) mod 65536" and i: "Suc i < length (ns @ [n])"
  show "(ns @ [n]) ! Suc i = ((ns @ [n]) ! i + 1) mod 65536"
  proof (cases "Suc i < length ns")
    case True
    with c show ?thesis by (simp add: nth_append)
  next
    case False
    then have "Suc i = length ns" "ns \<noteq> []" using i by auto
    then show ?thesis using n by (simp add: nth_append last_conv_nth flip: One_nat_def) (metis diff_Suc_1 lessI)
  qed
qed

lemma jb_put_next: "next_seq jb = Some n \<Longrightarrow> next_seq (fst (jb_put p jb)) = Some n"
  by (auto simp: jb_put_def Let_def split: option.split)

lemma jb_put_counts: "jb_lost (fst (jb_put p jb)) = jb_lost jb" "jb_played (fst (jb_put p jb)) = jb_played jb"
  by (auto simp: jb_put_def Let_def split: option.split)

lemma jb_reach_inv:
  assumes "jb_reach m t jb outs"
  shows "jb_inv jb \<and> length outs = jb_played jb + jb_lost jb \<and> consecutive (map fst outs)
    \<and> (outs \<noteq> [] \<longrightarrow> next_seq jb = Some ((fst (last outs) + 1) mod 65536))"
  using assms
proof (induction rule: jb_reach.induct)
  case new
  then show ?case by (simp add: jb_inv_def new_jitter_buffer_def seqs_def consecutive_def)
next
  case (put jb outs p)
  then have "jb_inv (fst (jb_put p jb))" using jb_put_inv by fastforce
  then show ?case using put jb_put_next jb_put_counts by metis
next
  case (wait jb outs jb')
  then have "get_step jb jb' None" using jb_get_props [of jb] by simp
  then show ?case using wait by (simp add: get_step_def)
next
  case (out jb outs jb' d)
  then have st: "get_step jb jb' (Some d)" using jb_get_props [of jb] by simp
  then obtain n where n: "next_seq jb = Some n" "next_seq jb' = Some ((n + 1) mod 65536)" by (auto simp: get_step_def)
  have "map fst outs = [] \<or> n = (last (map fst outs) + 1) mod 65536"
    using out.IH n(1) by (cases "outs = []") (simp_all add: last_map)
  then have "consecutive (map fst outs @ [n])" using out.IH consecutive_snoc by blast
  then show ?case using out.IH st n by (auto simp: get_step_def)
qed


definition sample_packet :: "int \<Rightarrow> rtp_packet" where
  "sample_packet n = default_packet\<lparr>sequence_number := n, payload := [word_of_int n]\<rparr>"

definition feed :: "int list \<Rightarrow> jitter_buffer \<Rightarrow> jitter_buffer" where
  "feed ns jb = foldl (\<lambda>b n. fst (jb_put (sample_packet n) b)) jb ns"

fun drain_n :: "nat \<Rightarrow> jitter_buffer \<Rightarrow> jitter_buffer \<times> bytes option list" where
  "drain_n 0 jb = (jb, [])"
| "drain_n (Suc k) jb = (case jb_get jb of (jb', o1) \<Rightarrow> case drain_n k jb' of (jb'', os) \<Rightarrow> (jb'', o1 # os))"


text \<open>
  Across the wrap-around the buffer loses packets that arrived in order: of the stream 65534,
  65535, 0, 1 the buffer reports the first two as lost, because it keeps entries sorted by the raw
  number and looks for the expected packet only at the front; when their turn comes they are
  discarded as late.
\<close>

theorem jitter_wrap_loses_packets:
  "case drain_n 3 (feed [65534, 65535, 0, 1] (new_jitter_buffer 10 4)) of (jb, outs) \<Rightarrow>
     outs = [Some [], Some [], Some [0]] \<and> jb_lost jb = 2 \<and> seqs jb = [1, 65534, 65535]
     \<and> (case drain_n 4 (feed [2, 3, 4] jb) of (jb', outs') \<Rightarrow>
          outs' = [Some [1], Some [2], Some [3], None] \<and> jb_late jb' = 0 \<and> seqs jb' = [4, 65534, 65535])"
  by code_simp

end
