(* ===== verification/Json.thy ===== *)
theory Json
  imports Prelude
begin

text \<open>
  JSON objects as the daemons exchange them over their sockets and keep them on disk, after
  \<^verbatim>\<open>json.loads\<close>: a Python dict is an association list. A code point of a \<open>string\<close> is a \<open>char\<close>
  (below 256); floats are left out, no modelled operation reads one.
\<close>

datatype json = JNull | JBool bool | JInt int | JStr string | JArr "json list" | JObj "(string \<times> json) list"

type_synonym dict = "(string \<times> json) list"

text \<open>
  Python stores a value of any JSON type in a field annotated \<^verbatim>\<open>str\<close>; the model has typed fields,
  and a value of another type is a TypeError here.
\<close>

fun as_str :: "json \<Rightarrow> string res" where
  "as_str (JStr s) = Inr s"
| "as_str _ = Inl TypeError"

fun as_int :: "json \<Rightarrow> int res" where
  "as_int (JInt i) = Inr i"
| "as_int _ = Inl TypeError"

fun as_opt_str :: "json \<Rightarrow> string option res" where
  "as_opt_str (JStr s) = Inr (Some s)"
| "as_opt_str JNull = Inr None"
| "as_opt_str _ = Inl TypeError"

fun of_opt_str :: "string option \<Rightarrow> json" where
  "of_opt_str None = JNull"
| "of_opt_str (Some s) = JStr s"

lemma as_opt_str_of_opt_str [simp]: "as_opt_str (of_opt_str x) = Inr x"
  by (cases x) auto

text \<open>\<^verbatim>\<open>d[k]\<close>, \<^verbatim>\<open>d.get(k, default)\<close> and \<^verbatim>\<open>d.get(k)\<close>.\<close>

definition jreq :: "dict \<Rightarrow> string \<Rightarrow> json res" where
  "jreq d k = (case map_of d k of None \<Rightarrow> Inl KeyError | Some v \<Rightarrow> Inr v)"

definition jstr :: "dict \<Rightarrow> string \<Rightarrow> string \<Rightarrow> string res" where
  "jstr d k dflt = as_str (dict_get d k (JStr dflt))"

definition jint :: "dict \<Rightarrow> string \<Rightarrow> int \<Rightarrow> int res" where
  "jint d k dflt = as_int (dict_get d k (JInt dflt))"

definition jopt :: "dict \<Rightarrow> string \<Rightarrow> string option res" where
  "jopt d k = as_opt_str (dict_get d k JNull)"

text \<open>Python's truth of a value.\<close>

definition json_true :: "json \<Rightarrow> bool" where
  "json_true j = (case j of JNull \<Rightarrow> False | JBool b \<Rightarrow> b | JInt i \<Rightarrow> i \<noteq> 0 | JStr s \<Rightarrow> s \<noteq> [] | JArr xs \<Rightarrow> xs \<noteq> [] | JObj d \<Rightarrow> d \<noteq> [])"

section \<open>Text and digits\<close>

text \<open>\<^verbatim>\<open>s.encode()\<close>: UTF-8; code points below 256 take one or two bytes.\<close>

definition utf8_char :: "char \<Rightarrow> bytes" where
  "utf8_char c = (let n = of_char c :: nat in
     if n < 128 then [word_of_nat n] else [word_of_nat (192 + n div 64), word_of_nat (128 + n mod 64)])"

definition utf8 :: "string \<Rightarrow> bytes" where
  "utf8 s = concat (map utf8_char s)"

lemma utf8_append: "utf8 (s @ t) = utf8 s @ utf8 t"
  by (simp add: utf8_def)

text \<open>\<^verbatim>\<open>int(ch)\<close> of a one-character string.\<close>

definition int_char :: "char \<Rightarrow> nat res" where
  "int_char c = (let n = of_char c :: nat in if 48 \<le> n \<and> n \<le> 57 then Inr (n - 48) else Inl ValueError)"

definition digit_char :: "nat \<Rightarrow> char" where
  "digit_char d = char_of (48 + d)"

definition is_digit :: "char \<Rightarrow> bool" where
  "is_digit c \<longleftrightarrow> (48 :: nat) \<le> of_char c \<and> of_char c \<le> (57 :: nat)"

lemma int_char_digit: "is_digit c \<Longrightarrow> int_char c = Inr (of_char c - 48)"
  by (simp add: int_char_def is_digit_def Let_def)

lemma int_char_digit_char [simp]: "d < 10 \<Longrightarrow> int_char (digit_char d) = Inr d"
  by (simp add: int_char_def digit_char_def Let_def)

lemma digit_char_of: "is_digit c \<Longrightarrow> digit_char (of_char c - 48) = c"
  by (simp add: is_digit_def digit_char_def)

lemma is_digit_bound: "is_digit c \<Longrightarrow> of_char c - (48 :: nat) < 10"
  unfolding is_digit_def by linarith

text \<open>Decimal rendering of an integer, \<^verbatim>\<open>str(n)\<close>.\<close>

fun dec_nat :: "nat \<Rightarrow> string" where
  "dec_nat n = (if n < 10 then [digit_char n] else dec_nat (n div 10) @ [digit_char (n mod 10)])"

declare dec_nat.simps [simp del]

definition dec_int :: "int \<Rightarrow> string" where
  "dec_int i = (if i < 0 then CHR ''-'' # dec_nat (nat (- i)) else dec_nat (nat i))"

end
