(* ===== verification/Codec.thy ===== *)
theory Codec
  imports Formats Json
begin

text \<open>
  \<^verbatim>\<open>ims/codec.py\<close>: AMR frames in octet-aligned mode, telephone events (DTMF) and the codec tables.
\<close>

definition AMR_WB_FRAME_SIZES :: "(int \<times> nat) list" where
  "AMR_WB_FRAME_SIZES = [(0, 17), (1, 23), (2, 32), (3, 36), (4, 40), (5, 46), (6, 50), (7, 58), (8, 60), (9, 5), (15, 0)]"

definition AMR_NB_FRAME_SIZES :: "(int \<times> nat) list" where
  "AMR_NB_FRAME_SIZES = [(0, 12), (1, 13), (2, 15), (3, 17), (4, 19), (5, 20), (6, 26), (7, 31), (8, 5), (15, 0)]"

record amr_frame =
  mode :: int
  quality :: bool
  fdata :: bytes
  cmr :: int
  is_wideband :: bool

definition amr_to_payload :: "amr_frame \<Rightarrow> bytes res" where
  "amr_to_payload f =
     (let cmr_byte = push_bit 4 (cmr f AND 0x0F);
          toc_byte = push_bit 7 0 OR push_bit 3 (mode f AND 0x0F) OR push_bit 2 (of_bool (quality f))
      in rbind (rmap mk_byte [cmr_byte, toc_byte]) (\<lambda>h. Inr (h @ fdata f)))"

definition amr_from_payload :: "bytes \<Rightarrow> bool \<Rightarrow> amr_frame res" where
  "amr_from_payload d wb =
     (if length d < 2 then Inl ValueError
      else let b0 = uint (d ! 0); b1 = uint (d ! 1)
        in Inr \<lparr>mode = drop_bit 3 b1 AND 0x0F, quality = (b1 AND 0x04 \<noteq> 0), fdata = drop 2 d,
                cmr = drop_bit 4 b0 AND 0x0F, is_wideband = wb\<rparr>)"

definition frame_size :: "amr_frame \<Rightarrow> nat" where
  "frame_size f = dict_get (if is_wideband f then AMR_WB_FRAME_SIZES else AMR_NB_FRAME_SIZES) (mode f) 0"

definition clock_rate :: "amr_frame \<Rightarrow> int" where
  "clock_rate f = (if is_wideband f then 16000 else 8000)"

definition samples_per_frame :: "amr_frame \<Rightarrow> int" where
  "samples_per_frame f = (if is_wideband f then 320 else 160)"

definition silence :: "bool \<Rightarrow> amr_frame" where
  "silence wb = \<lparr>mode = 9, quality = True, fdata = replicate 5 0, cmr = 15, is_wideband = wb\<rparr>"

definition amr_ok :: "bool \<Rightarrow> amr_frame \<Rightarrow> bool" where
  "amr_ok wb f \<longleftrightarrow> is_wideband f = wb \<and> 0 \<le> mode f \<and> mode f < 16 \<and> 0 \<le> cmr f \<and> cmr f < 16"

lemma amr_dec_enc:
  assumes "amr_ok wb f"
  shows "\<exists>bs. amr_to_payload f = Inr bs \<and> amr_from_payload bs wb = Inr f"
proof -
  note o = assms [unfolded amr_ok_def]
  define q :: int where "q = of_bool (quality f)"
  have q: "0 \<le> q" "q < 2" "odd q \<longleftrightarrow> quality f" by (simp_all add: q_def)
  have m: "mode f AND 0x0F = mode f" "cmr f AND 0x0F = cmr f" using o by (simp_all add: and_15_int)
  have "push_bit 2 q = q * 4" by (simp add: push_bit_eq_mult)
  then have t: "push_bit 7 0 OR push_bit 3 (mode f) OR push_bit 2 q = mode f * 8 + q * 4"
    using or_fields_int [of "q * 4" 3 "mode f"] q by simp
  define b where "b = mode f * 8 + q * 4"
  have r: "0 \<le> b" "b < 256" using o q by (simp_all add: b_def)
  have u: "uint (word_of_int b :: byte) = b" using r by (rule uint_byte_of_int)
  have c: "push_bit 4 (cmr f) = cmr f * 16" by (simp add: push_bit_eq_mult)
  have u0: "uint (word_of_int (cmr f * 16) :: byte) = cmr f * 16" using o by (intro uint_byte_of_int) simp_all
  have d: "b div 8 = mode f" using int_block(1) [of "q * 4" 8 "mode f"] q by (simp add: b_def)
  have "b div 4 = mode f * 2 + q" using int_block(1) [of 0 4 "mode f * 2 + q"] by (simp add: b_def algebra_simps)
  then have e: "b AND 4 \<noteq> 0 \<longleftrightarrow> quality f" unfolding bit_test_int using q(3) by simp
  have "amr_to_payload f = Inr ([word_of_int (cmr f * 16), word_of_int b] @ fdata f)"
    using o r unfolding amr_to_payload_def m q_def [symmetric] t c b_def [symmetric] Let_def by (simp add: mk_byte_in)
  moreover have "amr_from_payload ([word_of_int (cmr f * 16), word_of_int b] @ fdata f) wb = Inr f"
    using o m u u0 d e by (simp add: amr_from_payload_def Let_def drop_bit_eq_div)
  ultimately show ?thesis by blast
qed

interpretation amr_wb: message_format "amr_ok True" amr_to_payload "\<lambda>d. amr_from_payload d True"
  by unfold_locales (rule amr_dec_enc)

interpretation amr_nb: message_format "amr_ok False" amr_to_payload "\<lambda>d. amr_from_payload d False"
  by unfold_locales (rule amr_dec_enc)

section \<open>Telephone events\<close>

definition DTMF_EVENTS :: "(char \<times> int) list" where
  "DTMF_EVENTS = [(CHR ''0'', 0), (CHR ''1'', 1), (CHR ''2'', 2), (CHR ''3'', 3), (CHR ''4'', 4), (CHR ''5'', 5),
     (CHR ''6'', 6), (CHR ''7'', 7), (CHR ''8'', 8), (CHR ''9'', 9), (CHR ''*'', 10), (CHR ''#'', 11),
     (CHR ''A'', 12), (CHR ''B'', 13), (CHR ''C'', 14), (CHR ''D'', 15)]"

record dtmf =
  event :: int
  dend :: bool
  volume :: int
  duration :: int

definition dtmf_to_payload :: "dtmf \<Rightarrow> bytes res" where
  "dtmf_to_payload e =
     (let byte1 = push_bit 7 (of_bool (dend e)) OR (volume e AND 0x3F) in
      rbind (pack 1 (event e AND 0xFF)) (\<lambda>a. rbind (pack 1 byte1) (\<lambda>b. rbind (pack 2 (duration e)) (\<lambda>c.
      Inr (a @ b @ c)))))"

definition dtmf_from_payload :: "bytes \<Rightarrow> dtmf res" where
  "dtmf_from_payload d =
     (if length d < 4 then Inl ValueError
      else let byte1 = unpack (slice d 1 2)
        in Inr \<lparr>event = unpack (slice d 0 1), dend = (byte1 AND 0x80 \<noteq> 0), volume = byte1 AND 0x3F,
                duration = unpack (slice d 2 4)\<rparr>)"

definition upper_ascii :: "char \<Rightarrow> char" where
  "upper_ascii c = (if (97 :: nat) \<le> of_char c \<and> of_char c \<le> (122 :: nat) then char_of (of_char c - (32 :: nat)) else c)"

definition dtmf_from_digit :: "char \<Rightarrow> int \<Rightarrow> bool \<Rightarrow> dtmf" where
  "dtmf_from_digit c dur e = \<lparr>event = dict_get DTMF_EVENTS (upper_ascii c) 0, dend = e, volume = 10, duration = dur\<rparr>"

definition dtmf_digit :: "dtmf \<Rightarrow> char" where
  "dtmf_digit e = (case find (\<lambda>(_, x). x = event e) DTMF_EVENTS of Some (c, _) \<Rightarrow> c | None \<Rightarrow> CHR ''?'')"

definition dtmf_ok :: "dtmf \<Rightarrow> bool" where
  "dtmf_ok e \<longleftrightarrow> 0 \<le> event e \<and> event e < 256 \<and> 0 \<le> volume e \<and> volume e < 64 \<and> 0 \<le> duration e \<and> duration e < 65536"

lemma dtmf_dec_enc:
  assumes "dtmf_ok e"
  shows "\<exists>bs. dtmf_to_payload e = Inr bs \<and> dtmf_from_payload bs = Inr e"
proof -
  note o = assms [unfolded dtmf_ok_def]
  define b where "b = of_bool (dend e) * 128 + volume e"
  have b: "push_bit 7 (of_bool (dend e)) OR (volume e AND 0x3F) = b"
    using or_fields_int [of "volume e" 7 "of_bool (dend e)"] o by (simp add: and_63_int b_def)
  have r: "0 \<le> b" "b < 256" using o by (cases "dend e"; simp add: b_def)+
  have "b div 128 = of_bool (dend e)" using int_block(1) [of "volume e" 128 "of_bool (dend e)"] o by (simp add: b_def)
  then have f1: "b AND 0x80 \<noteq> 0 \<longleftrightarrow> dend e" unfolding bit_test_int by simp
  have "b mod 64 = volume e"
    using int_block(2) [of "volume e" 64 2] o by (cases "dend e") (simp_all add: b_def)
  then have f2: "b AND 0x3F = volume e" by (simp add: and_63_int)
  let ?w = "be_bytes 1 (nat (event e)) @ be_bytes 1 (nat b) @ be_bytes 2 (nat (duration e))"
  have enc: "dtmf_to_payload e = Inr ?w"
    using o r unfolding dtmf_to_payload_def b Let_def by (simp add: pack_ok and_255_int)
  have "unpack (be_bytes 1 (nat (event e))) = event e" "unpack (be_bytes 1 (nat b)) = b"
    "unpack (be_bytes 2 (nat (duration e))) = duration e"
    using o r by (simp_all add: unpack_pack)
  moreover have "slice ?w 0 1 = be_bytes 1 (nat (event e))" "slice ?w 1 2 = be_bytes 1 (nat b)"
    "slice ?w 2 4 = be_bytes 2 (nat (duration e))"
    by (simp_all add: slice_def)
  ultimately have "dtmf_from_payload ?w = Inr e"
    unfolding dtmf_from_payload_def Let_def by (simp only:) (simp add: f1 f2)
  with enc show ?thesis by blast
qed

interpretation dtmf_format: message_format dtmf_ok dtmf_to_payload dtmf_from_payload
  by unfold_locales (rule dtmf_dec_enc)

lemma keypad: "\<forall>(c, x) \<in> set DTMF_EVENTS. dict_get DTMF_EVENTS (upper_ascii c) 0 = x \<and> 0 \<le> x \<and> x < 16
    \<and> find (\<lambda>(_, y). y = x) DTMF_EVENTS = Some (c, x)"
  by code_simp

text \<open>
  An AMR frame with a four-bit mode and mode request survives its payload format in both
  bandwidths, and every keypad digit survives the way through a telephone event on the wire.
\<close>

theorem voice_payload_roundtrip:
  assumes "amr_ok wb f" "c \<in> fst ` set DTMF_EVENTS" "0 \<le> dur" "dur < 65536"
  shows "rbind (amr_to_payload f) (\<lambda>d. amr_from_payload d wb) = Inr f
    \<and> rbind (dtmf_to_payload (dtmf_from_digit c dur e)) (\<lambda>d. rbind (dtmf_from_payload d) (\<lambda>x. Inr (dtmf_digit x, duration x)))
        = Inr (c, dur)"
proof -
  have d: "0 \<le> event (dtmf_from_digit c dur e) \<and> event (dtmf_from_digit c dur e) < 16 \<and> dtmf_digit (dtmf_from_digit c dur e) = c"
    using keypad assms(2) unfolding dtmf_from_digit_def dtmf_digit_def
    by (force split: option.splits prod.splits)
  have "dtmf_ok (dtmf_from_digit c dur e)"
    using d assms(3,4) by (simp add: dtmf_ok_def) (simp add: dtmf_from_digit_def)
  then obtain bs where "dtmf_to_payload (dtmf_from_digit c dur e) = Inr bs" "dtmf_from_payload bs = Inr (dtmf_from_digit c dur e)"
    using dtmf_dec_enc by blast
  moreover have "duration (dtmf_from_digit c dur e) = dur" by (simp add: dtmf_from_digit_def)
  ultimately show ?thesis using amr_dec_enc [OF assms(1)] d by auto
qed

theorem voice_payload_roundtrip_witness:
  "rbind (dtmf_to_payload (dtmf_from_digit (CHR ''#'') 1600 True)) (\<lambda>d. rbind (dtmf_from_payload d)
     (\<lambda>x. Inr (dtmf_digit x, duration x))) = Inr (CHR ''#'', 1600)"
  using voice_payload_roundtrip [of True "silence True" "CHR ''#''" 1600 True]
  by (simp add: amr_ok_def silence_def DTMF_EVENTS_def)

definition get_codec_info :: "string \<Rightarrow> int \<times> int \<times> int" where
  "get_codec_info name =
     (let n = filter (\<lambda>c. c \<noteq> CHR ''-'' \<and> c \<noteq> CHR ''_'') (map upper_ascii name)
      in dict_get [(''AMRWB'', (16000, 320, 20)), (''AMR'', (8000, 160, 20)), (''EVS'', (16000, 320, 20))] n (16000, 320, 20))"

text \<open>
  Every codec name gives a positive clock in which a packet time holds exactly the samples of
  a frame; the comfort-noise frame has the size its mode announces in wideband, but in narrowband
  it carries the wideband mode number, for which the size table has no entry.
\<close>

theorem codec_tables_consistent:
  "(case get_codec_info name of (rate, samples, ptime) \<Rightarrow> rate > 0 \<and> samples * 1000 = rate * ptime)
   \<and> frame_size (silence True) = length (fdata (silence True))
   \<and> frame_size (silence False) = 0 \<and> length (fdata (silence False)) = 5"
  by (auto simp: get_codec_info_def dict_get_def frame_size_def silence_def AMR_WB_FRAME_SIZES_def
      AMR_NB_FRAME_SIZES_def Let_def)

end
