(* ===== verification/Media.thy ===== *)
theory Media
  imports Jitter Codec
begin

text \<open>
  The media session of \<^verbatim>\<open>ims/media.py\<close>: the virtual audio source, sending of frames and telephone
  events, reception, hold and resume, RTCP reports and the module's totals. Sockets are the lists
  of datagrams handed to them. The sine of the tone source is a parameter
  \<open>tone frequency n rate\<close>, the value of \<^verbatim>\<open>int(127 * sin(...))\<close> at sample \<open>n\<close>; clock readings and the
  measured jitter are arguments of the operations that use them.
\<close>

section \<open>Audio source\<close>

datatype source_type = SILENCE | TONE | ZERO | LOOPBACK

record audio_source =
  source_type :: source_type
  frequency :: int
  frame_count :: int
  loopback_buffer :: "bytes list"

definition new_source :: "source_type \<Rightarrow> int \<Rightarrow> audio_source" where
  "new_source t f = \<lparr>source_type = t, frequency = f, frame_count = 0, loopback_buffer = []\<rparr>"

definition make_frame :: "bool \<Rightarrow> int \<Rightarrow> bytes \<Rightarrow> amr_frame" where
  "make_frame wb m d = \<lparr>mode = m, quality = True, fdata = d, cmr = 15, is_wideband = wb\<rparr>"

definition generate_frame :: "(int \<Rightarrow> int \<Rightarrow> int \<Rightarrow> int) \<Rightarrow> bool \<Rightarrow> int \<Rightarrow> audio_source \<Rightarrow> audio_source \<times> amr_frame" where
  "generate_frame tone wb m src =
     (let s = src\<lparr>frame_count := frame_count src + 1\<rparr> in
      case source_type s of
        SILENCE \<Rightarrow> (s, silence wb)
      | LOOPBACK \<Rightarrow> (case loopback_buffer s of
            d # r \<Rightarrow> (s\<lparr>loopback_buffer := r\<rparr>, make_frame wb m d)
          | [] \<Rightarrow> (s, silence wb))
      | TONE \<Rightarrow>
          let size = frame_size (make_frame wb m []); rate = (if wb then 16000 else 8000);
              samples = (if wb then 320 else 160);
              d = map (\<lambda>j. if int j < samples
                           then word_of_int ((tone (frequency s) (frame_count s * samples + int j) rate + 128) AND 0xFF)
                           else 0) [0..<size]
          in (s, make_frame wb m d)
      | ZERO \<Rightarrow> (s, make_frame wb m (replicate (frame_size (make_frame wb m [])) 0)))"

definition feed_loopback :: "bytes \<Rightarrow> audio_source \<Rightarrow> audio_source" where
  "feed_loopback d s =
     (if source_type s = LOOPBACK
      then s\<lparr>loopback_buffer := (if length (loopback_buffer s) \<ge> 50 then drop 1 (loopback_buffer s) else loopback_buffer s) @ [d]\<rparr>
      else s)"

section \<open>Session\<close>

record media =
  m_ssrc :: int
  m_payload_type :: int
  m_codec :: string
  m_seq :: int
  m_timestamp :: int
  m_clock_rate :: int
  m_samples :: int
  m_active :: bool
  m_held :: bool
  m_direction :: string
  m_socket :: "bytes list option"
  m_rtcp_socket :: "bytes list option"
  m_jitter_buffer :: jitter_buffer
  m_source :: audio_source
  m_dtmf_callback :: bool
  m_digits :: string
  packets_sent :: int
  packets_received :: int
  bytes_sent :: int
  bytes_received :: int
  rtcp_sr_sent :: int
  rtcp_rr_sent :: int

record media_state =
  active_sessions :: int
  total_packets_sent :: int
  total_packets_received :: int

definition new_media :: "int \<Rightarrow> int \<Rightarrow> media" where
  "new_media s random = \<lparr>m_ssrc = (if s \<noteq> 0 then s else random), m_payload_type = 96, m_codec = ''AMR-WB'', m_seq = 0,
     m_timestamp = 0, m_clock_rate = 16000, m_samples = 320, m_active = False, m_held = False, m_direction = ''sendrecv'',
     m_socket = None, m_rtcp_socket = None, m_jitter_buffer = new_jitter_buffer 10 4, m_source = new_source SILENCE 440,
     m_dtmf_callback = False, m_digits = [], packets_sent = 0, packets_received = 0, bytes_sent = 0, bytes_received = 0,
     rtcp_sr_sent = 0, rtcp_rr_sent = 0\<rparr>"

text \<open>\<open>rtp_up\<close> and \<open>rtcp_up\<close>: whether the two ports could be bound.\<close>

definition media_start :: "string \<Rightarrow> int \<Rightarrow> bool \<Rightarrow> bool \<Rightarrow> media \<Rightarrow> media_state \<Rightarrow> media \<times> media_state" where
  "media_start codec pt rtp_up rtcp_up m g =
     (case get_codec_info codec of (rate, samples, _) \<Rightarrow>
      (m\<lparr>m_codec := codec, m_clock_rate := rate, m_samples := samples,
         m_payload_type := (if pt = 96 then dict_get [(''AMR-WB'', 96), (''AMR'', 97), (''EVS'', 98)] codec 96 else pt),
         m_socket := (if rtp_up then Some [] else None), m_rtcp_socket := (if rtcp_up then Some [] else None),
         m_active := True\<rparr>,
       g\<lparr>active_sessions := active_sessions g + 1\<rparr>))"

text \<open>The transports are closed as well; nothing is sent through a closed transport in this model.\<close>

definition media_stop :: "media \<Rightarrow> media_state \<Rightarrow> media \<times> media_state" where
  "media_stop m g =
     (m\<lparr>m_active := False\<rparr>,
      g\<lparr>active_sessions := max 0 (active_sessions g - 1), total_packets_sent := total_packets_sent g + packets_sent m,
        total_packets_received := total_packets_received g + packets_received m\<rparr>)"

definition transmit :: "bytes \<Rightarrow> media \<Rightarrow> media" where
  "transmit raw m = m\<lparr>m_socket := map_option (\<lambda>ds. ds @ [raw]) (m_socket m), packets_sent := packets_sent m + 1,
     bytes_sent := bytes_sent m + int (length raw)\<rparr>"

definition send_frame :: "bytes \<Rightarrow> bool \<Rightarrow> media \<Rightarrow> media \<times> unit res" where
  "send_frame d mark m =
     (if \<not> m_active m \<or> m_held m then (m, Inr ())
      else let packet = default_packet\<lparr>marker := mark, payload_type := m_payload_type m,
                 sequence_number := m_seq m AND 0xFFFF, rtp_timestamp := m_timestamp m AND 0xFFFFFFFF,
                 ssrc := m_ssrc m, payload := d\<rparr>;
               m1 = m\<lparr>m_seq := m_seq m + 1, m_timestamp := m_timestamp m + m_samples m\<rparr>
        in case rtp_to_bytes packet of Inl e \<Rightarrow> (m1, Inl e) | Inr raw \<Rightarrow> (transmit raw m1, Inr ()))"

definition is_wb_codec :: "string \<Rightarrow> bool" where
  "is_wb_codec c \<longleftrightarrow> map upper_ascii c \<in> {''AMR-WB'', ''AMRWB''}"

definition send_amr_frame :: "(int \<Rightarrow> int \<Rightarrow> int \<Rightarrow> int) \<Rightarrow> int \<Rightarrow> bool \<Rightarrow> media \<Rightarrow> media \<times> unit res" where
  "send_amr_frame tone md sil m =
     (let wb = is_wb_codec (m_codec m);
          (m1, frame) = (if sil then (m, silence wb)
                         else case generate_frame tone wb md (m_source m) of (s, f) \<Rightarrow> (m\<lparr>m_source := s\<rparr>, f))
      in case amr_to_payload frame of Inl e \<Rightarrow> (m1, Inl e) | Inr d \<Rightarrow> send_frame d (m_seq m1 = 0) m1)"

definition send_dtmf_packet :: "dtmf \<Rightarrow> bool \<Rightarrow> media \<Rightarrow> media \<times> unit res" where
  "send_dtmf_packet e mark m =
     (case dtmf_to_payload e of Inl x \<Rightarrow> (m, Inl x) | Inr d \<Rightarrow>
        let packet = default_packet\<lparr>marker := mark, payload_type := 101,
              sequence_number := m_seq m AND 0xFFFF, rtp_timestamp := m_timestamp m AND 0xFFFFFFFF,
              ssrc := m_ssrc m, payload := d\<rparr>;
            m1 = m\<lparr>m_seq := m_seq m + 1\<rparr>
        in case rtp_to_bytes packet of Inl x \<Rightarrow> (m1, Inl x) | Inr raw \<Rightarrow> (transmit raw m1, Inr ()))"

text \<open>\<open>int(duration_ms * clock_rate / 1000)\<close> is the floor for non-negative durations.\<close>

definition send_dtmf :: "char \<Rightarrow> int \<Rightarrow> media \<Rightarrow> media \<times> unit res" where
  "send_dtmf digit duration_ms m =
     (if digit \<notin> fst ` set DTMF_EVENTS then (m, Inr ())
      else let n = duration_ms * m_clock_rate m div 1000;
               event = dtmf_from_digit digit (n div 3) False
        in seq_all ([send_dtmf_packet event True, send_dtmf_packet (event\<lparr>duration := n * 2 div 3\<rparr>) False]
             @ replicate 3 (send_dtmf_packet (event\<lparr>duration := n, dend := True\<rparr>) False)) m)"

definition on_rtp_received :: "bytes \<Rightarrow> media \<Rightarrow> media \<times> unit res" where
  "on_rtp_received d m =
     (case rtp_from_bytes d of Inl _ \<Rightarrow> (m, Inr ())
      | Inr p \<Rightarrow>
        let m1 = m\<lparr>packets_received := packets_received m + 1, bytes_received := bytes_received m + int (length d)\<rparr> in
        if payload_type p = 101 then
          (case dtmf_from_payload (payload p) of Inl _ \<Rightarrow> (m1, Inr ())
           | Inr e \<Rightarrow> (if dend e \<and> m_dtmf_callback m1 then m1\<lparr>m_digits := m_digits m1 @ [dtmf_digit e]\<rparr> else m1, Inr ()))
        else let m2 = m1\<lparr>m_source := feed_loopback (payload p) (m_source m1)\<rparr> in
          case jb_put p (m_jitter_buffer m2) of (jb, r) \<Rightarrow> (m2\<lparr>m_jitter_buffer := jb\<rparr>, r))"

definition send_rtcp_sr :: "int \<times> int \<Rightarrow> media \<Rightarrow> media \<times> unit res" where
  "send_rtcp_sr ntp m =
     (let sr = \<lparr>sr_ssrc = m_ssrc m, ntp_msw = fst ntp, ntp_lsw = snd ntp, sr_rtp_timestamp = m_timestamp m AND 0xFFFFFFFF,
                sender_packet_count = packets_sent m, sender_octet_count = bytes_sent m\<rparr>
      in case m_rtcp_socket m of None \<Rightarrow> (m\<lparr>rtcp_sr_sent := rtcp_sr_sent m + 1\<rparr>, Inr ())
         | Some ds \<Rightarrow> (case sr_to_bytes sr of Inl e \<Rightarrow> (m, Inl e)
             | Inr raw \<Rightarrow> (m\<lparr>m_rtcp_socket := Some (ds @ [raw]), rtcp_sr_sent := rtcp_sr_sent m + 1\<rparr>, Inr ())))"

text \<open>\<open>jit\<close> is \<^verbatim>\<open>int(jitter_ms * clock_rate / 1000)\<close>.\<close>

definition rr_of :: "int \<Rightarrow> media \<Rightarrow> receiver_report" where
  "rr_of jit m =
     (let lost = int (jb_lost (m_jitter_buffer m)); received = int (jb_received (m_jitter_buffer m));
          total = received + lost; fraction = (if total > 0 then 256 * lost div total else 0)
      in \<lparr>rr_ssrc = m_ssrc m, source_ssrc = 0, fraction_lost = min 255 fraction, cumulative_lost = lost,
          highest_seq = received, jitter = jit, last_sr = 0, delay_since_sr = 0\<rparr>)"

definition send_rtcp_rr :: "int \<Rightarrow> media \<Rightarrow> media \<times> unit res" where
  "send_rtcp_rr jit m =
     (case m_rtcp_socket m of None \<Rightarrow> (m\<lparr>rtcp_rr_sent := rtcp_rr_sent m + 1\<rparr>, Inr ())
      | Some ds \<Rightarrow> (case rr_to_bytes (rr_of jit m) of Inl e \<Rightarrow> (m, Inl e)
          | Inr raw \<Rightarrow> (m\<lparr>m_rtcp_socket := Some (ds @ [raw]), rtcp_rr_sent := rtcp_rr_sent m + 1\<rparr>, Inr ())))"

definition media_hold :: "media \<Rightarrow> media" where
  "media_hold m = (if \<not> m_active m then m else m\<lparr>m_held := True, m_direction := ''sendonly''\<rparr>)"

definition media_resume :: "media \<Rightarrow> media" where
  "media_resume m = (if \<not> m_active m then m else m\<lparr>m_held := False, m_direction := ''sendrecv''\<rparr>)"

section \<open>What a session puts on the wire\<close>

definition wire :: "media \<Rightarrow> bytes list" where
  "wire m = (case m_socket m of None \<Rightarrow> [] | Some ds \<Rightarrow> ds)"

text \<open>The packet a session builds next.\<close>

definition next_packet :: "media \<Rightarrow> bool \<Rightarrow> int \<Rightarrow> bytes \<Rightarrow> rtp_packet" where
  "next_packet m mark pt d = default_packet\<lparr>marker := mark, payload_type := pt, sequence_number := m_seq m AND 0xFFFF,
     rtp_timestamp := m_timestamp m AND 0xFFFFFFFF, ssrc := m_ssrc m, payload := d\<rparr>"

lemma next_packet_ok:
  assumes "u32 (m_ssrc m)" "0 \<le> pt" "pt < 128"
  shows "rtp_ok (next_packet m mark pt d)"
  using assms
  by (simp add: rtp_ok_def next_packet_def default_packet_def RTP_VERSION_def u32_def and_65535_int and_4294967295_int)

text \<open>The stream so far is exactly the datagrams of consecutive packets of this source.\<close>

definition stream_ok :: "media \<Rightarrow> bool" where
  "stream_ok m \<longleftrightarrow> m_socket m \<noteq> None \<and> u32 (m_ssrc m) \<and> 0 \<le> m_payload_type m \<and> m_payload_type m < 128
     \<and> (\<exists>ps. map rtp_from_bytes (wire m) = map Inr ps
          \<and> map sequence_number ps = map (\<lambda>i. int i mod 65536) [0..<length ps] \<and> (\<forall>p \<in> set ps. ssrc p = m_ssrc m)
          \<and> m_seq m = int (length ps) \<and> packets_sent m = int (length ps)
          \<and> bytes_sent m = int (sum_list (map length (wire m))))"

lemma transmit_stream:
  assumes ok: "stream_ok m" and pt: "0 \<le> pt" "pt < 128"
    and raw: "rtp_to_bytes (next_packet m mark pt d) = Inr raw" and m1: "m1 = m\<lparr>m_seq := m_seq m + 1, m_timestamp := t\<rparr>"
  shows "stream_ok (transmit raw m1)"
proof -
  obtain ps where ps: "map rtp_from_bytes (wire m) = map Inr ps"
      "map sequence_number ps = map (\<lambda>i. int i mod 65536) [0..<length ps]" "\<forall>p \<in> set ps. ssrc p = m_ssrc m"
      "m_seq m = int (length ps)" "packets_sent m = int (length ps)" "bytes_sent m = int (sum_list (map length (wire m)))"
    using ok by (auto simp: stream_ok_def)
  have u: "u32 (m_ssrc m)" using ok by (simp add: stream_ok_def)
  have dec: "rtp_from_bytes raw = Inr (next_packet m mark pt d)"
    using rtp_format.dec_enc [OF next_packet_ok [OF u pt, of mark d]] raw by auto
  have w: "wire (transmit raw m1) = wire m @ [raw]" using ok by (auto simp: stream_ok_def wire_def transmit_def m1)
  have "sequence_number (next_packet m mark pt d) = int (length ps) mod 65536"
    by (simp add: next_packet_def and_65535_int ps(4))
  moreover have "ssrc (next_packet m mark pt d) = m_ssrc m" by (simp add: next_packet_def)
  ultimately show ?thesis
    using ok ps dec unfolding stream_ok_def w
    by (auto simp: m1 transmit_def intro!: exI [of _ "ps @ [next_packet m mark pt d]"])
qed

lemma stream_ok_cong:
  "stream_ok m \<Longrightarrow> m_socket m' = m_socket m \<Longrightarrow> m_ssrc m' = m_ssrc m \<Longrightarrow> m_payload_type m' = m_payload_type m \<Longrightarrow>
   m_seq m' = m_seq m \<Longrightarrow> packets_sent m' = packets_sent m \<Longrightarrow> bytes_sent m' = bytes_sent m \<Longrightarrow> stream_ok m'"
  by (simp add: stream_ok_def wire_def)

lemma send_frame_stream:
  assumes ok: "stream_ok m"
  shows "\<exists>m'. send_frame d mark m = (m', Inr ()) \<and> stream_ok m'"
proof (cases "\<not> m_active m \<or> m_held m")
  case True
  with ok show ?thesis by (simp add: send_frame_def)
next
  case False
  have pt: "0 \<le> m_payload_type m" "m_payload_type m < 128" and u: "u32 (m_ssrc m)"
    using ok by (simp_all add: stream_ok_def)
  obtain raw where raw: "rtp_to_bytes (next_packet m mark (m_payload_type m) d) = Inr raw"
    using rtp_format.dec_enc [OF next_packet_ok [OF u pt]] by blast
  from transmit_stream [OF ok pt raw refl] False raw show ?thesis
    by (simp add: send_frame_def next_packet_def)
qed

lemma dtmf_packet_sent:
  assumes "u32 (m_ssrc m)" "dtmf_ok e"
  shows "\<exists>raw p. send_dtmf_packet e mark m = (transmit raw (m\<lparr>m_seq := m_seq m + 1\<rparr>), Inr ())
    \<and> rtp_from_bytes raw = Inr p \<and> payload_type p = 101 \<and> dtmf_from_payload (payload p) = Inr e
    \<and> (\<exists>d. rtp_to_bytes (next_packet m mark 101 d) = Inr raw)"
proof -
  obtain d where d: "dtmf_to_payload e = Inr d" "dtmf_from_payload d = Inr e"
    using dtmf_format.dec_enc [OF assms(2)] by blast
  obtain raw where raw: "rtp_to_bytes (next_packet m mark 101 d) = Inr raw"
      "rtp_from_bytes raw = Inr (next_packet m mark 101 d)"
    using rtp_format.dec_enc [OF next_packet_ok [OF assms(1), of 101]] by auto
  have "send_dtmf_packet e mark m = (transmit raw (m\<lparr>m_seq := m_seq m + 1\<rparr>), Inr ())"
    using d raw(1) by (simp add: send_dtmf_packet_def next_packet_def)
  moreover have "payload (next_packet m mark 101 d) = d" "payload_type (next_packet m mark 101 d) = 101"
    by (simp_all add: next_packet_def)
  ultimately show ?thesis using raw d(2) by metis
qed

lemma send_dtmf_packet_stream:
  assumes ok: "stream_ok m"
  shows "stream_ok (fst (send_dtmf_packet e mark m))"
proof (cases "dtmf_to_payload e")
  case (Inl x)
  with ok show ?thesis by (simp add: send_dtmf_packet_def)
next
  case (Inr d)
  have u: "u32 (m_ssrc m)" using ok by (simp add: stream_ok_def)
  obtain raw where raw: "rtp_to_bytes (next_packet m mark 101 d) = Inr raw"
    using rtp_format.dec_enc [OF next_packet_ok [OF u, of 101]] by auto
  have "stream_ok (transmit raw (m\<lparr>m_seq := m_seq m + 1, m_timestamp := m_timestamp m\<rparr>))"
    by (rule transmit_stream [OF ok _ _ raw refl]) simp_all
  with Inr raw show ?thesis by (simp add: send_dtmf_packet_def next_packet_def)
qed

lemma seq_all_inv: "(\<And>f s. f \<in> set fs \<Longrightarrow> P s \<Longrightarrow> P (fst (f s))) \<Longrightarrow> P s \<Longrightarrow> P (fst (seq_all fs s))"
proof (induction fs arbitrary: s)
  case (Cons f fs)
  have "P (fst (f s))" using Cons.prems by simp
  then show ?case using Cons by (cases "f s"; cases "snd (f s)") auto
qed simp

lemma send_dtmf_inv:
  assumes "\<And>e mark s. P s \<Longrightarrow> P (fst (send_dtmf_packet e mark s))" "P m"
  shows "P (fst (send_dtmf c t m))"
proof (cases "c \<in> fst ` set DTMF_EVENTS")
  case True
  show ?thesis unfolding send_dtmf_def Let_def using True assms(2)
    by (simp only: not_True_eq_False if_False simp_thms) (rule seq_all_inv [where P = P], auto intro: assms(1))
next
  case False
  with assms(2) show ?thesis by (simp add: send_dtmf_def)
qed

datatype media_op = Frame bytes bool | AmrFrame int bool | Digit char int | Receive bytes | Hold | Resume
  | SenderReport "int \<times> int" | ReceiverReport int

definition media_exec :: "(int \<Rightarrow> int \<Rightarrow> int \<Rightarrow> int) \<Rightarrow> media_op \<Rightarrow> media \<Rightarrow> media" where
  "media_exec tone op m = (case op of Frame d mark \<Rightarrow> fst (send_frame d mark m)
     | AmrFrame md sil \<Rightarrow> fst (send_amr_frame tone md sil m) | Digit c t \<Rightarrow> fst (send_dtmf c t m)
     | Receive d \<Rightarrow> fst (on_rtp_received d m) | Hold \<Rightarrow> media_hold m | Resume \<Rightarrow> media_resume m
     | SenderReport ntp \<Rightarrow> fst (send_rtcp_sr ntp m) | ReceiverReport jit \<Rightarrow> fst (send_rtcp_rr jit m))"

lemma media_exec_stream:
  assumes ok: "stream_ok m"
  shows "stream_ok (media_exec tone op m)"
proof (cases op)
  case (Frame d mark)
  then show ?thesis using send_frame_stream [OF ok, of d mark] by (auto simp: media_exec_def)
next
  case (AmrFrame md sil)
  have src: "stream_ok (m\<lparr>m_source := s\<rparr>)" for s by (rule stream_ok_cong [OF ok]) simp_all
  show ?thesis
  proof -
    obtain m1 f where mf: "(if sil then (m, silence (is_wb_codec (m_codec m)))
        else case generate_frame tone (is_wb_codec (m_codec m)) md (m_source m) of (s, f) \<Rightarrow> (m\<lparr>m_source := s\<rparr>, f)) = (m1, f)"
      by (metis surj_pair)
    then have ok1: "stream_ok m1" using ok src by (auto split: if_splits prod.splits)
    show ?thesis
    proof (cases "amr_to_payload f")
      case (Inl e)
      then show ?thesis using AmrFrame mf ok1 by (simp add: media_exec_def send_amr_frame_def Let_def)
    next
      case (Inr d)
      then show ?thesis using AmrFrame mf send_frame_stream [OF ok1, of d "m_seq m1 = 0"]
        by (auto simp: media_exec_def send_amr_frame_def Let_def)
    qed
  qed
next
  case (Digit c t)
  then show ?thesis
    using send_dtmf_inv [where P = stream_ok, OF send_dtmf_packet_stream ok] by (simp add: media_exec_def)
next
  case (Receive d)
  then show ?thesis
    by (auto simp: media_exec_def on_rtp_received_def Let_def intro!: stream_ok_cong [OF ok] split: sum.split prod.split)
next
  case (SenderReport ntp)
  then show ?thesis
    by (auto simp: media_exec_def send_rtcp_sr_def Let_def intro!: stream_ok_cong [OF ok] split: sum.split option.split)
next
  case (ReceiverReport jit)
  then show ?thesis
    by (auto simp: media_exec_def send_rtcp_rr_def intro!: stream_ok_cong [OF ok] split: sum.split option.split)
qed (auto simp: media_exec_def media_hold_def media_resume_def intro!: stream_ok_cong [OF ok])

definition media_run :: "(int \<Rightarrow> int \<Rightarrow> int \<Rightarrow> int) \<Rightarrow> media_op list \<Rightarrow> media \<Rightarrow> media" where
  "media_run tone ops m = foldl (\<lambda>m op. media_exec tone op m) m ops"

text \<open>
  C28: whatever a started session does - frames, telephone events, hold and resume, reception,
  reports - every datagram it has sent is an RTP packet of its source, the sequence numbers count
  up from 0 modulo 65536 without gap or repetition, and the counters equal the datagrams and their
  bytes.
\<close>

theorem media_stream:
  assumes "0 < s" "s < 2 ^ 32" "0 \<le> pt" "pt < 128"
    and "m = media_run tone ops (fst (media_start codec pt True rtcp (new_media s r) g))"
  shows "\<exists>ps. map rtp_from_bytes (wire m) = map Inr ps
    \<and> map sequence_number ps = map (\<lambda>i. int i mod 65536) [0..<length ps] \<and> (\<forall>p \<in> set ps. ssrc p = s)
    \<and> packets_sent m = int (length (wire m)) \<and> bytes_sent m = int (sum_list (map length (wire m)))"
proof -
  have src: "m_ssrc (media_exec tone op x) = m_ssrc x" for op x
  proof -
    have fr: "m_ssrc (fst (send_frame d mark y)) = m_ssrc y" for d mark y
      by (auto simp: send_frame_def Let_def transmit_def split: sum.split)
    have dt: "m_ssrc (fst (send_dtmf c t y)) = m_ssrc y" for c t y
      by (rule send_dtmf_inv [where P = "\<lambda>z. m_ssrc z = m_ssrc y"])
        (auto simp: send_dtmf_packet_def Let_def transmit_def split: sum.split)
    show ?thesis
      by (cases op) (auto simp: media_exec_def fr dt Let_def send_amr_frame_def on_rtp_received_def
          media_hold_def media_resume_def send_rtcp_sr_def send_rtcp_rr_def split: sum.split prod.split option.split)
  qed
  define m0 where "m0 = fst (media_start codec pt True rtcp (new_media s r) g)"
  have "0 \<le> m_payload_type m0 \<and> m_payload_type m0 < 128"
    using assms(3,4) by (auto simp: m0_def media_start_def dict_get_def split: prod.split)
  then have 0: "stream_ok m0" "m_ssrc m0 = s"
    using assms(1,2) by (auto simp: stream_ok_def m0_def media_start_def new_media_def u32_def wire_def split: prod.split)
  have "stream_ok (media_run tone ops m0) \<and> m_ssrc (media_run tone ops m0) = s"
    unfolding media_run_def by (induction ops rule: rev_induct) (use 0 media_exec_stream src in auto)
  then have "stream_ok m" "m_ssrc m = s" using assms(5) by (simp_all add: m0_def)
  then obtain ps where "map rtp_from_bytes (wire m) = map Inr ps"
      "map sequence_number ps = map (\<lambda>i. int i mod 65536) [0..<length ps]" "\<forall>p \<in> set ps. ssrc p = s"
      "packets_sent m = int (length ps)" "bytes_sent m = int (sum_list (map length (wire m)))"
    by (auto simp: stream_ok_def)
  moreover then have "length (wire m) = length ps" by (metis length_map)
  ultimately show ?thesis by auto
qed

theorem media_stream_witness:
  "\<exists>ps. map rtp_from_bytes (wire (media_run (\<lambda>_ _ _. 0) [AmrFrame 8 True, Hold, Frame [1] False, Resume, Digit (CHR ''5'') 160]
       (fst (media_start ''AMR-WB'' 96 True True (new_media 7 0) \<lparr>active_sessions = 0, total_packets_sent = 0,
          total_packets_received = 0\<rparr>)))) = map Inr ps
     \<and> map sequence_number ps = map (\<lambda>i. int i mod 65536) [0..<length ps]"
proof -
  have "(0 :: int) < 7" "(7 :: int) < 2 ^ 32" "(0 :: int) \<le> 96" "(96 :: int) < 128" by simp_all
  from media_stream [OF this refl] show ?thesis by blast
qed

section \<open>Telephone events between two sessions\<close>

definition deliver_all :: "bytes list \<Rightarrow> media \<Rightarrow> media" where
  "deliver_all ds m = foldl (\<lambda>m d. fst (on_rtp_received d m)) m ds"

lemma deliver_all_simps [simp]: "deliver_all [] m = m" "deliver_all (d # ds) m = deliver_all ds (fst (on_rtp_received d m))"
  by (simp_all add: deliver_all_def)

lemma receive_dtmf:
  assumes "rtp_from_bytes raw = Inr p" "payload_type p = 101" "dtmf_from_payload (payload p) = Inr e" "m_dtmf_callback m"
  shows "m_dtmf_callback (fst (on_rtp_received raw m))"
    "m_digits (fst (on_rtp_received raw m)) = m_digits m @ (if dend e then [dtmf_digit e] else [])"
  using assms by (simp_all add: on_rtp_received_def Let_def)

lemma transmit_simps [simp]: "m_ssrc (transmit raw m) = m_ssrc m"
  "m_socket (transmit raw m) = map_option (\<lambda>ds. ds @ [raw]) (m_socket m)"
  by (simp_all add: transmit_def)

text \<open>A burst of events and what the receiver makes of it.\<close>

lemma dtmf_burst:
  assumes "\<And>e mark. (e, mark) \<in> set es \<Longrightarrow> dtmf_ok e" "u32 (m_ssrc m)" "m_socket m = Some ds" "m_dtmf_callback r"
  shows "\<exists>m' raws. seq_all (map (\<lambda>(e, mark). send_dtmf_packet e mark) es) m = (m', Inr ()) \<and> m_socket m' = Some (ds @ raws)
    \<and> length raws = length es \<and> m_digits (deliver_all raws r) = m_digits r @ map dtmf_digit (filter dend (map fst es))"
  using assms
proof (induction es arbitrary: m ds r)
  case (Cons em es)
  obtain e mark where em: "em = (e, mark)" by (cases em)
  have e: "dtmf_ok e" using Cons.prems(1) [of e mark] em by simp
  obtain raw p where raw: "send_dtmf_packet e mark m = (transmit raw (m\<lparr>m_seq := m_seq m + 1\<rparr>), Inr ())"
      "rtp_from_bytes raw = Inr p" "payload_type p = 101" "dtmf_from_payload (payload p) = Inr e"
    using dtmf_packet_sent [OF Cons.prems(2) e] by blast
  note r1 = receive_dtmf [OF raw(2-4) Cons.prems(4)]
  let ?m1 = "transmit raw (m\<lparr>m_seq := m_seq m + 1\<rparr>)"
  obtain m' raws where "seq_all (map (\<lambda>(e, mark). send_dtmf_packet e mark) es) ?m1 = (m', Inr ())"
      "m_socket m' = Some ((ds @ [raw]) @ raws)" "length raws = length es"
      "m_digits (deliver_all raws (fst (on_rtp_received raw r))) = m_digits (fst (on_rtp_received raw r)) @ map dtmf_digit (filter dend (map fst es))"
    using Cons.IH [of ?m1 "ds @ [raw]" "fst (on_rtp_received raw r)"] Cons.prems r1(1) by auto
  then show ?case using raw(1) em r1(2) by (intro exI [of _ m'] exI [of _ "raw # raws"]) simp
qed simp

text \<open>
  A digit sent for at most 65535 clock ticks leaves an active session as five datagrams,
  also while the session is on hold; the receiving session recognises the digit, but reports it to its
  callback three times, once for each copy of the end packet.
\<close>

theorem dtmf_end_to_end:
  assumes "c \<in> fst ` set DTMF_EVENTS" "0 \<le> t" "0 \<le> m_clock_rate m" "t * m_clock_rate m div 1000 < 65536"
    and "0 \<le> m_ssrc m" "m_ssrc m < 2 ^ 32" "m_socket m = Some ds" "m_dtmf_callback r" "m_active m"
  shows "\<exists>m' raws. send_dtmf c t m = (m', Inr ()) \<and> m_socket m' = Some (ds @ raws) \<and> length raws = 5
    \<and> m_digits (deliver_all raws r) = m_digits r @ [c, c, c]"
proof -
  define n where "n = t * m_clock_rate m div 1000"
  have n: "0 \<le> n" "n < 65536" using assms(2-4) by (simp_all add: n_def pos_imp_zdiv_nonneg_iff)
  define e where "e = dtmf_from_digit c (n div 3) False"
  have ev: "0 \<le> event e" "event e < 16" "volume e = 10" "duration e = n div 3" "\<not> dend e"
    using keypad assms(1) by (auto simp: e_def dtmf_from_digit_def)
  have dig: "dtmf_digit (e\<lparr>duration := d, dend := b\<rparr>) = c" for d b
    using keypad assms(1) by (auto simp: e_def dtmf_from_digit_def dtmf_digit_def)
  let ?es = "[(e, True), (e\<lparr>duration := n * 2 div 3\<rparr>, False)] @ replicate 3 (e\<lparr>duration := n, dend := True\<rparr>, False)"
  have ok: "dtmf_ok x" if "(x, mark) \<in> set ?es" for x mark
    using that ev n by (auto simp: dtmf_ok_def)
  have es: "map (\<lambda>(e, mark). send_dtmf_packet e mark) ?es = [send_dtmf_packet e True, send_dtmf_packet (e\<lparr>duration := n * 2 div 3\<rparr>) False]
      @ replicate 3 (send_dtmf_packet (e\<lparr>duration := n, dend := True\<rparr>) False)"
    by (simp add: numeral_3_eq_3)
  have fl: "map dtmf_digit (filter dend (map fst ?es)) = [c, c, c]"
    using ev(5) dig [of True n] by (simp add: numeral_3_eq_3)
  have u: "u32 (m_ssrc m)" using assms(5,6) by (simp add: u32_def)
  have "\<exists>m' raws. seq_all (map (\<lambda>(e, mark). send_dtmf_packet e mark) ?es) m = (m', Inr ()) \<and> m_socket m' = Some (ds @ raws)
      \<and> length raws = length ?es \<and> m_digits (deliver_all raws r) = m_digits r @ map dtmf_digit (filter dend (map fst ?es))"
    by (rule dtmf_burst [OF _ u assms(7,8)], rule ok)
  then obtain m' raws where
    "seq_all (map (\<lambda>(e, mark). send_dtmf_packet e mark) ?es) m = (m', Inr ())" "m_socket m' = Some (ds @ raws)"
    "length raws = length ?es" "m_digits (deliver_all raws r) = m_digits r @ [c, c, c]"
    unfolding fl by blast
  then show ?thesis using assms(1) unfolding es
    by (intro exI [of _ m'] exI [of _ raws]) (simp add: send_dtmf_def n_def [symmetric] e_def [symmetric] Let_def)
qed

theorem dtmf_end_to_end_witness:
  "\<exists>m' raws. send_dtmf (CHR ''#'') 160 ((new_media 7 0)\<lparr>m_active := True, m_held := True, m_socket := Some []\<rparr>) = (m', Inr ())
     \<and> length raws = 5 \<and> m_socket m' = Some raws
     \<and> m_digits (deliver_all raws ((new_media 9 0)\<lparr>m_dtmf_callback := True\<rparr>)) = ''###''"
proof -
  have "CHR ''#'' \<in> fst ` set DTMF_EVENTS" by (simp add: DTMF_EVENTS_def)
  from dtmf_end_to_end [OF this, of 160 "(new_media 7 0)\<lparr>m_active := True, m_held := True, m_socket := Some []\<rparr>" "[]"
      "(new_media 9 0)\<lparr>m_dtmf_callback := True\<rparr>"]
  show ?thesis by (auto simp: new_media_def)
qed

end
