(* ===== verification/Isdp.thy ===== *)
theory Isdp
  imports Json
begin

text \<open>
  \<^verbatim>\<open>euicc/isdp.py\<close>: one eSIM profile (ISD-P), its USIM and ISIM views, and its conversion to and
  from the JSON object that is kept on disk.
\<close>

datatype profile_state = DISABLED | ENABLED | DELETING
datatype profile_class = PROVISIONING | OPERATIONAL | TEST

fun state_value :: "profile_state \<Rightarrow> string" where
  "state_value DISABLED = ''disabled''"
| "state_value ENABLED = ''enabled''"
| "state_value DELETING = ''deleting''"

fun class_value :: "profile_class \<Rightarrow> string" where
  "class_value PROVISIONING = ''provisioning''"
| "class_value OPERATIONAL = ''operational''"
| "class_value TEST = ''test''"

definition state_of :: "string \<Rightarrow> profile_state res" where
  "state_of s = (if s = ''disabled'' then Inr DISABLED else if s = ''enabled'' then Inr ENABLED
     else if s = ''deleting'' then Inr DELETING else Inl ValueError)"

definition class_of :: "string \<Rightarrow> profile_class res" where
  "class_of s = (if s = ''provisioning'' then Inr PROVISIONING else if s = ''operational'' then Inr OPERATIONAL
     else if s = ''test'' then Inr TEST else Inl ValueError)"

lemma state_of_value [simp]: "state_of (state_value s) = Inr s"
  by (cases s) (simp_all add: state_of_def)

lemma class_of_value [simp]: "class_of (class_value c) = Inr c"
  by (cases c) (simp_all add: class_of_def)

record isdp =
  iccid :: string
  imsi :: string
  aid :: string
  ki :: string
  opc :: string
  mcc :: string
  mnc :: string
  spn :: string
  msisdn :: "string option"
  gid1 :: "string option"
  gid2 :: "string option"
  impi :: "string option"
  impu :: "string option"
  home_domain :: "string option"
  p_state :: profile_state
  p_class :: profile_class
  sqn :: int

definition increment_sqn :: "isdp \<Rightarrow> isdp" where
  "increment_sqn p = p\<lparr>sqn := sqn p + 1\<rparr>"

definition get_usim_data :: "isdp \<Rightarrow> dict" where
  "get_usim_data p = [(''imsi'', JStr (imsi p)), (''ki'', JStr (ki p)), (''opc'', JStr (opc p)),
     (''sqn'', JInt (sqn p)), (''mcc'', JStr (mcc p)), (''mnc'', JStr (mnc p))]"

text \<open>Python's truth of an optional string: neither None nor empty.\<close>

fun truthy :: "string option \<Rightarrow> bool" where
  "truthy None = False"
| "truthy (Some s) = (s \<noteq> [])"

record isim =
  isim_impi :: "string option"
  isim_impu :: "string option"
  isim_domain :: "string option"

definition get_isim_data :: "isdp \<Rightarrow> isim" where
  "get_isim_data p =
     (if \<not> truthy (impi p) then
        let domain = (if truthy (home_domain p) then the (home_domain p)
              else ''ims.mnc'' @ mnc p @ ''.mcc'' @ mcc p @ ''.3gppnetwork.org'')
        in \<lparr>isim_impi = Some (imsi p @ ''@'' @ domain), isim_impu = Some (''sip:'' @ imsi p @ ''@'' @ domain),
            isim_domain = Some domain\<rparr>
      else \<lparr>isim_impi = impi p, isim_impu = impu p, isim_domain = home_domain p\<rparr>)"

definition isdp_to_dict :: "isdp \<Rightarrow> dict" where
  "isdp_to_dict p = [(''iccid'', JStr (iccid p)), (''imsi'', JStr (imsi p)), (''aid'', JStr (aid p)),
     (''ki'', JStr (ki p)), (''opc'', JStr (opc p)), (''mcc'', JStr (mcc p)), (''mnc'', JStr (mnc p)),
     (''spn'', JStr (spn p)), (''msisdn'', of_opt_str (msisdn p)), (''gid1'', of_opt_str (gid1 p)),
     (''gid2'', of_opt_str (gid2 p)), (''impi'', of_opt_str (impi p)), (''impu'', of_opt_str (impu p)),
     (''home_domain'', of_opt_str (home_domain p)), (''state'', JStr (state_value (p_state p))),
     (''profile_class'', JStr (class_value (p_class p))), (''sqn'', JInt (sqn p))]"

definition isdp_from_dict :: "dict \<Rightarrow> isdp res" where
  "isdp_from_dict d =
     rbind (rbind (jreq d ''iccid'') as_str) (\<lambda>v_iccid.
     rbind (rbind (jreq d ''imsi'') as_str) (\<lambda>v_imsi.
     rbind (jstr d ''aid'' '''') (\<lambda>v_aid.
     rbind (rbind (jreq d ''ki'') as_str) (\<lambda>v_ki.
     rbind (rbind (jreq d ''opc'') as_str) (\<lambda>v_opc.
     rbind (jstr d ''mcc'' ''001'') (\<lambda>v_mcc.
     rbind (jstr d ''mnc'' ''01'') (\<lambda>v_mnc.
     rbind (jstr d ''spn'' ''Virtual'') (\<lambda>v_spn.
     rbind (jopt d ''msisdn'') (\<lambda>v_msisdn.
     rbind (jopt d ''gid1'') (\<lambda>v_gid1.
     rbind (jopt d ''gid2'') (\<lambda>v_gid2.
     rbind (jopt d ''impi'') (\<lambda>v_impi.
     rbind (jopt d ''impu'') (\<lambda>v_impu.
     rbind (jopt d ''home_domain'') (\<lambda>v_home_domain.
     rbind (rbind (jstr d ''state'' ''disabled'') state_of) (\<lambda>v_state.
     rbind (rbind (jstr d ''profile_class'' ''operational'') class_of) (\<lambda>v_class.
     rbind (jint d ''sqn'' 0) (\<lambda>v_sqn.
     Inr \<lparr>iccid = v_iccid, imsi = v_imsi, aid = v_aid, ki = v_ki, opc = v_opc, mcc = v_mcc, mnc = v_mnc,
          spn = v_spn, msisdn = v_msisdn, gid1 = v_gid1, gid2 = v_gid2, impi = v_impi, impu = v_impu,
          home_domain = v_home_domain, p_state = v_state, p_class = v_class, sqn = v_sqn\<rparr>)))))))))))))))))"

definition to_summary :: "isdp \<Rightarrow> dict" where
  "to_summary p = [(''iccid'', JStr (iccid p)), (''imsi'', JStr (imsi p)), (''mcc'', JStr (mcc p)),
     (''mnc'', JStr (mnc p)), (''spn'', JStr (spn p)), (''msisdn'', of_opt_str (msisdn p)),
     (''state'', JStr (state_value (p_state p))), (''profile_class'', JStr (class_value (p_class p)))]"

lemmas json_access = jreq_def jstr_def jint_def jopt_def dict_get_def

lemma isdp_from_to_dict [simp]: "isdp_from_dict (isdp_to_dict p) = Inr p"
  by (simp add: isdp_from_dict_def isdp_to_dict_def json_access)

lemma isdp_to_dict_inject: "isdp_to_dict p = isdp_to_dict q \<Longrightarrow> p = q"
  by (metis isdp_from_to_dict sum.inject(2))

lemma increment_sqn_simps [simp]:
  "iccid (increment_sqn p) = iccid p" "p_state (increment_sqn p) = p_state p"
  "sqn (increment_sqn p) = sqn p + 1" "ki (increment_sqn p) = ki p" "opc (increment_sqn p) = opc p"
  by (simp_all add: increment_sqn_def)

end
