(* ===== verification/Store.thy ===== *)
theory Store
  imports Prelude
begin

text \<open>
  The contract of a keyed store and of a pair of stores that mirror each other, such as the
  eUICC's profile dict and its files on disk. The dict operations of the prelude provide it.
\<close>

locale kv_store =
  fixes look :: "'s \<Rightarrow> 'k \<Rightarrow> 'v option"
    and put :: "'k \<Rightarrow> 'v \<Rightarrow> 's \<Rightarrow> 's"
    and del :: "'k \<Rightarrow> 's \<Rightarrow> 's"
  assumes look_put: "look (put k v s) = (look s)(k \<mapsto> v)"
    and look_del: "look (del k s) = (look s)(k := None)"
begin

lemma look_put_same: "look (put k v s) k = Some v"
  by (simp add: look_put)

lemma look_put_other: "k' \<noteq> k \<Longrightarrow> look (put k v s) k' = look s k'"
  by (simp add: look_put)

lemma dom_put: "dom (look (put k v s)) = insert k (dom (look s))"
  by (simp add: look_put)

lemma dom_del: "dom (look (del k s)) = dom (look s) - {k}"
  by (simp add: look_del)

text \<open>A property of every stored value survives the operations that respect it.\<close>

lemma all_put: "(\<And>k v. look s k = Some v \<Longrightarrow> P k v) \<Longrightarrow> P k v \<Longrightarrow>
    look (put k v s) k' = Some v' \<Longrightarrow> P k' v'"
  by (auto simp: look_put split: if_splits)

lemma all_del: "(\<And>k v. look s k = Some v \<Longrightarrow> P k v) \<Longrightarrow> look (del k s) k' = Some v' \<Longrightarrow> P k' v'"
  by (auto simp: look_del split: if_splits)

end

locale mirrored =
  mem: kv_store look put del + dsk: kv_store dlook dput ddel
  for look :: "'s \<Rightarrow> 'k \<Rightarrow> 'v option" and put and del
    and dlook :: "'d \<Rightarrow> 'k \<Rightarrow> 'w option" and dput and ddel +
  fixes agrees :: "'v \<Rightarrow> 'w \<Rightarrow> bool"
begin

definition mirror :: "'s \<Rightarrow> 'd \<Rightarrow> bool" where
  "mirror m d \<longleftrightarrow> (\<forall>k. rel_option agrees (look m k) (dlook d k))"

lemma mirror_put: "mirror m d \<Longrightarrow> agrees v w \<Longrightarrow> mirror (put k v m) (dput k w d)"
  by (simp add: mirror_def mem.look_put dsk.look_put)

lemma mirror_del: "mirror m d \<Longrightarrow> mirror (del k m) (ddel k d)"
  by (simp add: mirror_def mem.look_del dsk.look_del)

text \<open>An update of the memory side alone keeps the mirror when the new value still agrees.\<close>

lemma mirror_put_mem: "mirror m d \<Longrightarrow> dlook d k = Some w \<Longrightarrow> agrees v w \<Longrightarrow> mirror (put k v m) d"
  by (simp add: mirror_def mem.look_put)

lemma mirror_lookD: "mirror m d \<Longrightarrow> look m k = Some v \<Longrightarrow> \<exists>w. dlook d k = Some w \<and> agrees v w"
  by (metis mirror_def option_rel_Some1)

lemma mirror_dom: "mirror m d \<Longrightarrow> dom (look m) = dom (dlook d)"
  unfolding mirror_def dom_def by (auto simp: option_rel_Some1 option_rel_Some2) (metis option_rel_Some1 option_rel_Some2)+

end

interpretation dict_kv: kv_store map_of dict_set dict_del
  by unfold_locales simp_all

end
