(* ===== verification/Digits.thy ===== *)
theory Digits
  imports Json
begin

text \<open>
  Digit strings as bytes, shared by the file encodings of the card, the SMS addresses and the
  hexadecimal fields of the sockets: semi-octets (two decimal digits per byte, low nibble first,
  padded with 15) and hexadecimal text.
\<close>

section \<open>Semi-octets\<close>

text \<open>
  \<^verbatim>\<open>d1 | (d2 << 4)\<close> for two nibbles.
\<close>

definition semi_octet :: "nat \<Rightarrow> nat \<Rightarrow> byte" where
  "semi_octet d1 d2 = word_of_nat (d1 OR push_bit 4 d2)"

lemma unat_semi_octet:
  assumes "a < 16" "b < 16"
  shows "unat (semi_octet a b) = 16 * b + a"
proof -
  have "a OR push_bit 4 b = 16 * b + a"
    using or_disjoint_nat [of a 4 b] assms by (simp add: or.commute)
  moreover have "unat (word_of_nat (16 * b + a) :: byte) = 16 * b + a"
    by (rule unat_byte_of_nat) (use assms in linarith)
  ultimately show ?thesis by (simp only: semi_octet_def)
qed

lemma semi_octet_parts [simp]:
  assumes "a < 16" "b < 16"
  shows "unat (semi_octet a b) mod 16 = a" "unat (semi_octet a b) div 16 = b"
  using assms by (simp_all add: unat_semi_octet [OF assms])

text \<open>\<^verbatim>\<open>_encode_bcd\<close>: the loop over \<^verbatim>\<open>range(0, len(digits), 2)\<close>.\<close>

fun encode_bcd :: "string \<Rightarrow> bytes res" where
  "encode_bcd [] = Inr []"
| "encode_bcd [a] = rbind (int_char a) (\<lambda>d1. Inr [semi_octet d1 15])"
| "encode_bcd (a # b # r) = rbind (int_char a) (\<lambda>d1. rbind (int_char b) (\<lambda>d2.
     rbind (encode_bcd r) (\<lambda>bs. Inr (semi_octet d1 d2 # bs))))"

text \<open>How a reader of the file takes the digits back: nibbles in order, 15 is filler.\<close>

fun nibbles :: "bytes \<Rightarrow> nat list" where
  "nibbles [] = []"
| "nibbles (b # bs) = unat b mod 16 # unat b div 16 # nibbles bs"

definition digits_of :: "bytes \<Rightarrow> string" where
  "digits_of bs = map digit_char (takeWhile (\<lambda>n. n \<noteq> 15) (nibbles bs))"

definition all_digits :: "string \<Rightarrow> bool" where
  "all_digits s \<longleftrightarrow> list_all is_digit s"

lemma all_digits_simps [simp]: "all_digits []" "all_digits (c # s) \<longleftrightarrow> is_digit c \<and> all_digits s"
  "all_digits (s @ t) \<longleftrightarrow> all_digits s \<and> all_digits t"
  by (simp_all add: all_digits_def)

lemma encode_bcd_ok:
  assumes "all_digits s"
  shows "\<exists>bs. encode_bcd s = Inr bs \<and> length bs = (length s + 1) div 2
    \<and> takeWhile (\<lambda>n. n \<noteq> 15) (nibbles bs) = map (\<lambda>c. of_char c - 48) s"
  using assms
proof (induction s rule: encode_bcd.induct)
  case (2 a)
  then have "of_char a - (48 :: nat) < 10" by (simp add: is_digit_bound)
  moreover then have "of_char a - (48 :: nat) < 16" "of_char a - (48 :: nat) \<noteq> 15" by linarith+
  ultimately show ?case using 2 by (simp add: int_char_digit)
next
  case (3 a b r)
  have a: "of_char a - (48 :: nat) < 10" and b: "of_char b - (48 :: nat) < 10"
    using 3 by (simp_all add: is_digit_bound)
  then have "of_char a - (48 :: nat) < 16" "of_char b - (48 :: nat) < 16"
    "of_char a - (48 :: nat) \<noteq> 15" "of_char b - (48 :: nat) \<noteq> 15" by linarith+
  with 3 show ?case by (auto simp: int_char_digit)
qed simp

lemma digits_of_encode_bcd: "all_digits s \<Longrightarrow> encode_bcd s = Inr bs \<Longrightarrow> digits_of bs = s"
  using encode_bcd_ok [of s]
  by (auto simp: digits_of_def all_digits_def list_all_iff digit_char_of intro!: map_idI)

lemma encode_bcd_total: "all_digits s \<Longrightarrow> \<exists>bs. encode_bcd s = Inr bs \<and> length bs = (length s + 1) div 2
    \<and> digits_of bs = s"
  using encode_bcd_ok [of s] digits_of_encode_bcd [of s] by blast

lemma encode_bcd_raises: "\<not> all_digits s \<Longrightarrow> encode_bcd s = Inl ValueError"
proof (induction s rule: encode_bcd.induct)
  case (2 a)
  then show ?case by (auto simp: int_char_def is_digit_def Let_def)
next
  case (3 a b r)
  then show ?case
    by (cases "is_digit a"; cases "is_digit b")
      (auto simp: int_char_digit, auto simp: int_char_def is_digit_def Let_def)
qed simp

section \<open>Hexadecimal text\<close>

definition hex_digit :: "nat \<Rightarrow> char" where
  "hex_digit n = (if n < 10 then char_of (48 + n) else char_of (87 + n))"

definition hex_byte :: "byte \<Rightarrow> string" where
  "hex_byte b = [hex_digit (unat b div 16), hex_digit (unat b mod 16)]"

text \<open>\<^verbatim>\<open>bs.hex()\<close> and \<^verbatim>\<open>bytes.fromhex(s)\<close>, which skips ASCII white space between bytes.\<close>

definition hex_of :: "bytes \<Rightarrow> string" where
  "hex_of bs = concat (map hex_byte bs)"

definition hex_value :: "char \<Rightarrow> nat res" where
  "hex_value c = (let n = of_char c :: nat in
     if 48 \<le> n \<and> n \<le> 57 then Inr (n - 48) else if 97 \<le> n \<and> n \<le> 102 then Inr (n - 87)
     else if 65 \<le> n \<and> n \<le> 70 then Inr (n - 55) else Inl ValueError)"

definition is_space :: "char \<Rightarrow> bool" where
  "is_space c \<longleftrightarrow> (of_char c :: nat) \<in> {32, 9, 10, 11, 12, 13}"

fun fromhex :: "string \<Rightarrow> bytes res" where
  "fromhex [] = Inr []"
| "fromhex (c # s) =
     (if is_space c then fromhex s
      else case s of [] \<Rightarrow> Inl ValueError
        | d # r \<Rightarrow> rbind (hex_value c) (\<lambda>h. rbind (hex_value d) (\<lambda>l.
            rbind (fromhex r) (\<lambda>bs. Inr (word_of_nat (16 * h + l) # bs)))))"

lemma hex_value_digit [simp]: "n < 16 \<Longrightarrow> hex_value (hex_digit n) = Inr n"
  by (auto simp: hex_value_def hex_digit_def Let_def)

lemma is_space_hex [simp]: "n < 16 \<Longrightarrow> \<not> is_space (hex_digit n)"
  by (auto simp: is_space_def hex_digit_def)

lemma byte_of_nibbles: "16 * word_of_nat (unat b div 16) + word_of_nat (unat b mod 16) = (b :: byte)"
proof -
  have "(word_of_nat (16 * (unat b div 16) + unat b mod 16) :: byte) = b"
    by (simp only: mult_div_mod_eq of_nat_unat ucast_id)
  then show ?thesis by (simp only: of_nat_add of_nat_mult of_nat_numeral)
qed

lemma fromhex_hex_of [simp]: "fromhex (hex_of bs) = Inr bs"
proof (induction bs)
  case (Cons b bs)
  have "unat b div 16 < 16" using unat_byte_bound [of b] by linarith
  with Cons show ?case by (simp add: hex_of_def hex_byte_def byte_of_nibbles)
qed (simp add: hex_of_def)

lemma length_hex_of [simp]: "length (hex_of bs) = 2 * length bs"
  by (induction bs) (auto simp: hex_of_def hex_byte_def)

text \<open>\<^verbatim>\<open>s.upper()\<close> of ASCII text.\<close>

definition upper_char :: "char \<Rightarrow> char" where
  "upper_char c = (if (97 :: nat) \<le> of_char c \<and> of_char c \<le> (122 :: nat) then char_of (of_char c - (32 :: nat)) else c)"

lemma upper_hex_digit: "n < 16 \<Longrightarrow> hex_value (upper_char (hex_digit n)) = Inr n \<and> \<not> is_space (upper_char (hex_digit n))"
  by (auto simp: upper_char_def hex_digit_def hex_value_def is_space_def Let_def)

lemma fromhex_upper: "fromhex (map upper_char (hex_of bs)) = Inr bs"
proof (induction bs)
  case (Cons b bs)
  have "unat b div 16 < 16" using unat_byte_bound [of b] by linarith
  with Cons show ?case
    by (simp add: hex_of_def hex_byte_def upper_hex_digit byte_of_nibbles)
qed (simp add: hex_of_def)

section \<open>\<^verbatim>\<open>repr\<close> of the values the daemons print\<close>

definition repr_char :: "char \<Rightarrow> char \<Rightarrow> string" where
  "repr_char q c = (let n = of_char c :: nat in
     if c = q \<or> n = 92 then [char_of (92 :: nat), c]
     else if n = 10 then [char_of (92 :: nat), CHR ''n''] else if n = 13 then [char_of (92 :: nat), CHR ''r'']
     else if n = 9 then [char_of (92 :: nat), CHR ''t'']
     else if n < 32 \<or> (127 \<le> n \<and> n \<le> 160) \<or> n = 173
     then [char_of (92 :: nat), CHR ''x'', hex_digit (n div 16), hex_digit (n mod 16)] else [c])"

definition repr_str :: "string \<Rightarrow> string" where
  "repr_str s = (let sq = char_of (39 :: nat); dq = char_of (34 :: nat);
       q = (if sq \<in> set s \<and> dq \<notin> set s then dq else sq)
     in q # concat (map (repr_char q) s) @ [q])"

fun join :: "string \<Rightarrow> string list \<Rightarrow> string" where
  "join sep [] = []"
| "join sep [s] = s"
| "join sep (s # t # r) = s @ sep @ join sep (t # r)"

fun py_repr :: "json \<Rightarrow> string" where
  "py_repr JNull = ''None''"
| "py_repr (JBool b) = (if b then ''True'' else ''False'')"
| "py_repr (JInt i) = dec_int i"
| "py_repr (JStr s) = repr_str s"
| "py_repr (JArr xs) = ''['' @ join '', '' (map py_repr xs) @ '']''"
| "py_repr (JObj d) = ''{'' @ join '', '' (map (\<lambda>(k, v). repr_str k @ '': '' @ py_repr v) d) @ ''}''"

end
