(* ===== verification/Euicc.thy ===== *)
theory Euicc
  imports Isdp Store Digits
begin

text \<open>
  \<^verbatim>\<open>euicc/euicc.py\<close>: the virtual eUICC. Its state is the profile dict, the ICCID of the active
  profile, the free memory and the directory of profile files (file name without suffix, parsed
  contents, in listing order). An operation that raises leaves the state as it was, so it returns
  the new state or the exception.
\<close>

datatype euicc_state = INITIALIZED | READY | LOCKED | ERROR

record euicc =
  eid :: string
  eu_state :: euicc_state
  free_nvram :: int
  profiles :: "(string \<times> isdp) list"
  active_iccid :: "string option"
  disk :: "(string \<times> dict) list"

definition new_euicc :: "string \<Rightarrow> (string \<times> dict) list \<Rightarrow> euicc" where
  "new_euicc e files = \<lparr>eid = e, eu_state = INITIALIZED, free_nvram = 512 * 1024, profiles = [],
     active_iccid = None, disk = files\<rparr>"

section \<open>Persistence\<close>

definition load_profile :: "euicc \<Rightarrow> string \<times> dict \<Rightarrow> euicc" where
  "load_profile e file =
     (case isdp_from_dict (snd file) of
        Inl _ \<Rightarrow> e
      | Inr p \<Rightarrow> e\<lparr>profiles := dict_set (iccid p) p (profiles e),
                    active_iccid := (if p_state p = ENABLED then Some (iccid p) else active_iccid e)\<rparr>)"

definition load_profiles :: "euicc \<Rightarrow> euicc" where
  "load_profiles e = foldl load_profile e (disk e)"

definition initialize :: "euicc \<Rightarrow> euicc" where
  "initialize e = (load_profiles e)\<lparr>eu_state := READY\<rparr>"

definition save_profile :: "isdp \<Rightarrow> euicc \<Rightarrow> euicc" where
  "save_profile p e = e\<lparr>disk := dict_set (iccid p) (isdp_to_dict p) (disk e)\<rparr>"

definition delete_profile_file :: "string \<Rightarrow> euicc \<Rightarrow> euicc" where
  "delete_profile_file i e = e\<lparr>disk := dict_del i (disk e)\<rparr>"

section \<open>Profile management\<close>

definition require_ready :: "euicc \<Rightarrow> unit res" where
  "require_ready e = (if eu_state e \<noteq> READY then Inl RuntimeError else Inr ())"

definition make_isdp :: "string \<Rightarrow> dict \<Rightarrow> string \<Rightarrow> isdp res" where
  "make_isdp i d uuid =
     rbind (rbind (jreq d ''imsi'') as_str) (\<lambda>v_imsi.
     rbind (rbind (jreq d ''ki'') as_str) (\<lambda>v_ki.
     rbind (rbind (jreq d ''opc'') as_str) (\<lambda>v_opc.
     rbind (jstr d ''mcc'' ''001'') (\<lambda>v_mcc.
     rbind (jstr d ''mnc'' ''01'') (\<lambda>v_mnc.
     rbind (jstr d ''spn'' ''Virtual Operator'') (\<lambda>v_spn.
     rbind (jopt d ''msisdn'') (\<lambda>v_msisdn.
     rbind (jopt d ''impi'') (\<lambda>v_impi.
     rbind (jopt d ''impu'') (\<lambda>v_impu.
     rbind (jopt d ''home_domain'') (\<lambda>v_home_domain.
     rbind (jstr d ''aid'' (take 32 uuid)) (\<lambda>v_aid.
     Inr \<lparr>iccid = i, imsi = v_imsi, aid = v_aid, ki = v_ki, opc = v_opc, mcc = v_mcc, mnc = v_mnc,
          spn = v_spn, msisdn = v_msisdn, gid1 = None, gid2 = None, impi = v_impi, impu = v_impu,
          home_domain = v_home_domain, p_state = DISABLED, p_class = OPERATIONAL, sqn = 0\<rparr>)))))))))))"

definition install_profile :: "dict \<Rightarrow> string \<Rightarrow> euicc \<Rightarrow> (euicc \<times> isdp) res" where
  "install_profile d uuid e =
     rbind (require_ready e) (\<lambda>_.
     rbind (rbind (jreq d ''iccid'') as_str) (\<lambda>i.
     if i \<in> fst ` set (profiles e) then Inl ValueError
     else rbind (jint d ''profile_size'' (64 * 1024)) (\<lambda>required_size.
     if required_size > free_nvram e then Inl MemoryError
     else rbind (make_isdp i d uuid) (\<lambda>p.
     Inr (save_profile p (e\<lparr>profiles := dict_set i p (profiles e),
                           free_nvram := free_nvram e - required_size\<rparr>), p)))))"

definition disable_active :: "euicc \<Rightarrow> euicc" where
  "disable_active e =
     (if truthy (active_iccid e) then
        (case map_of (profiles e) (the (active_iccid e)) of
           None \<Rightarrow> e
         | Some current \<Rightarrow>
             let c = current\<lparr>p_state := DISABLED\<rparr>
             in save_profile c (e\<lparr>profiles := dict_set (the (active_iccid e)) c (profiles e)\<rparr>))
      else e)"

definition enable_profile :: "string \<Rightarrow> euicc \<Rightarrow> (euicc \<times> bool) res" where
  "enable_profile i e =
     rbind (require_ready e) (\<lambda>_.
     case map_of (profiles e) i of
       None \<Rightarrow> Inl KeyError
     | Some target \<Rightarrow>
         if p_state target = ENABLED then Inr (e, True)
         else let e1 = disable_active e;
                  t = target\<lparr>p_state := ENABLED\<rparr>;
                  e2 = e1\<lparr>profiles := dict_set i t (profiles e1), active_iccid := Some i\<rparr>
              in Inr (save_profile t e2, True))"

definition disable_profile :: "string \<Rightarrow> euicc \<Rightarrow> (euicc \<times> bool) res" where
  "disable_profile i e =
     rbind (require_ready e) (\<lambda>_.
     case map_of (profiles e) i of
       None \<Rightarrow> Inl KeyError
     | Some target \<Rightarrow>
         if p_state target = DISABLED then Inr (e, True)
         else let t = target\<lparr>p_state := DISABLED\<rparr>;
                  e1 = save_profile t (e\<lparr>profiles := dict_set i t (profiles e)\<rparr>)
              in Inr (e1\<lparr>active_iccid := (if active_iccid e1 = Some i then None else active_iccid e1)\<rparr>, True))"

definition delete_profile :: "string \<Rightarrow> euicc \<Rightarrow> (euicc \<times> bool) res" where
  "delete_profile i e =
     rbind (require_ready e) (\<lambda>_.
     if i \<notin> fst ` set (profiles e) then Inl KeyError
     else let e1 = e\<lparr>active_iccid := (if active_iccid e = Some i then None else active_iccid e)\<rparr>
          in Inr (delete_profile_file i (e1\<lparr>profiles := dict_del i (profiles e1)\<rparr>), True))"

definition get_active_profile :: "euicc \<Rightarrow> isdp option" where
  "get_active_profile e =
     (if truthy (active_iccid e) then map_of (profiles e) (the (active_iccid e)) else None)"

definition list_profiles :: "euicc \<Rightarrow> dict list res" where
  "list_profiles e = rbind (require_ready e) (\<lambda>_. Inr (map (\<lambda>(k, p). to_summary p) (profiles e)))"

fun eu_state_value :: "euicc_state \<Rightarrow> string" where
  "eu_state_value INITIALIZED = ''initialized''"
| "eu_state_value READY = ''ready''"
| "eu_state_value LOCKED = ''locked''"
| "eu_state_value ERROR = ''error''"

definition get_euicc_info :: "euicc \<Rightarrow> dict" where
  "get_euicc_info e = [(''eid'', JStr (eid e)), (''sv'', JStr ''2.5.0''), (''firmware_version'', JStr ''1.0.0''),
     (''uicc_capability'', JArr [JStr ''contactless'', JStr ''usim'', JStr ''isim'', JStr ''csim'']),
     (''javacard_version'', JStr ''3.0.5''), (''globalplatform_version'', JStr ''2.3''),
     (''free_nvram'', JInt (free_nvram e)), (''installed_profiles'', JInt (int (length (profiles e)))),
     (''active_iccid'', of_opt_str (active_iccid e)), (''state'', JStr (eu_state_value (eu_state e)))]"

text \<open>\<^verbatim>\<open>profile.increment_sqn()\<close> on the active profile, as AUTHENTICATE does: memory only.\<close>

definition set_active_profile :: "isdp \<Rightarrow> euicc \<Rightarrow> euicc" where
  "set_active_profile p e = e\<lparr>profiles := dict_set (the (active_iccid e)) p (profiles e)\<rparr>"

definition bump_active_sqn :: "euicc \<Rightarrow> euicc" where
  "bump_active_sqn e = (case get_active_profile e of None \<Rightarrow> e
     | Some p \<Rightarrow> set_active_profile (increment_sqn p) e)"

section \<open>The invariant\<close>

text \<open>
  What the file of a profile may say: everything but a sequence number that AUTHENTICATE has
  advanced since the profile was last saved.
\<close>

definition saved_as :: "isdp \<Rightarrow> dict \<Rightarrow> bool" where
  "saved_as p d \<longleftrightarrow> (\<exists>n \<le> sqn p. d = isdp_to_dict (p\<lparr>sqn := n\<rparr>))"

lemma saved_as_refl [simp]: "saved_as p (isdp_to_dict p)"
  unfolding saved_as_def by (rule exI [of _ "sqn p"]) simp

lemma saved_as_increment: "saved_as p d \<Longrightarrow> saved_as (increment_sqn p) d"
proof -
  assume "saved_as p d"
  then obtain n where "n \<le> sqn p" "d = isdp_to_dict (p\<lparr>sqn := n\<rparr>)"
    unfolding saved_as_def by blast
  then have "n \<le> sqn (increment_sqn p)" "d = isdp_to_dict ((increment_sqn p)\<lparr>sqn := n\<rparr>)"
    by (simp_all add: increment_sqn_def)
  then show ?thesis unfolding saved_as_def by blast
qed

interpretation profile_mirror: mirrored map_of dict_set dict_del map_of dict_set dict_del saved_as
  by unfold_locales

definition eu_inv :: "euicc \<Rightarrow> bool" where
  "eu_inv e \<longleftrightarrow> dict_ok (profiles e) \<and> dict_ok (disk e) \<and> map_of (profiles e) [] = None
     \<and> (\<forall>k p. map_of (profiles e) k = Some p \<longrightarrow> iccid p = k
            \<and> (p_state p = ENABLED \<longleftrightarrow> active_iccid e = Some k) \<and> p_state p \<noteq> DELETING)
     \<and> (\<forall>a. active_iccid e = Some a \<longrightarrow> a \<in> dom (map_of (profiles e)))
     \<and> profile_mirror.mirror (profiles e) (disk e)"

lemma eu_invI:
  assumes "dict_ok (profiles e)" "dict_ok (disk e)" "map_of (profiles e) [] = None"
    and "\<And>k p. map_of (profiles e) k = Some p \<Longrightarrow> iccid p = k
           \<and> (p_state p = ENABLED \<longleftrightarrow> active_iccid e = Some k) \<and> p_state p \<noteq> DELETING"
    and "\<And>a. active_iccid e = Some a \<Longrightarrow> map_of (profiles e) a \<noteq> None"
    and "profile_mirror.mirror (profiles e) (disk e)"
  shows "eu_inv e"
  using assms unfolding eu_inv_def by blast

lemma eu_invD:
  assumes "eu_inv e"
  shows "dict_ok (profiles e)" "dict_ok (disk e)" "profile_mirror.mirror (profiles e) (disk e)"
    and "map_of (profiles e) [] = None"
    and "map_of (profiles e) k = Some p \<Longrightarrow> iccid p = k
           \<and> (p_state p = ENABLED \<longleftrightarrow> active_iccid e = Some k) \<and> p_state p \<noteq> DELETING"
    and "active_iccid e = Some a \<Longrightarrow> \<exists>p. map_of (profiles e) a = Some p \<and> a \<noteq> []"
proof -
  note i = assms [unfolded eu_inv_def]
  show "dict_ok (profiles e)" "dict_ok (disk e)" "profile_mirror.mirror (profiles e) (disk e)"
    "map_of (profiles e) [] = None" using i by blast+
  show "map_of (profiles e) k = Some p \<Longrightarrow> iccid p = k
      \<and> (p_state p = ENABLED \<longleftrightarrow> active_iccid e = Some k) \<and> p_state p \<noteq> DELETING" using i by blast
  assume "active_iccid e = Some a"
  then show "\<exists>p. map_of (profiles e) a = Some p \<and> a \<noteq> []" using i by fastforce
qed

lemma truthy_active: "eu_inv e \<Longrightarrow> truthy (active_iccid e) \<longleftrightarrow> active_iccid e \<noteq> None"
  by (cases "active_iccid e") (auto dest: eu_invD(6))

lemma get_active_eq: "eu_inv e \<Longrightarrow>
    get_active_profile e = Option.bind (active_iccid e) (map_of (profiles e))"
  by (cases "active_iccid e") (auto simp: get_active_profile_def truthy_active dest: eu_invD(4))

text \<open>
  One profile changes and is saved: the step that install, enable and disable share. The last two
  premises keep the other profiles and the active ICCID consistent.
\<close>

lemma eu_inv_put:
  assumes inv: "eu_inv e" and k: "iccid p = k" "k \<noteq> []" "p_state p \<noteq> DELETING"
    and act: "p_state p = ENABLED \<longleftrightarrow> a = Some k"
    and others: "\<And>j. j \<noteq> k \<Longrightarrow> map_of (profiles e) j \<noteq> None \<Longrightarrow> a = Some j \<longleftrightarrow> active_iccid e = Some j"
    and dom: "\<And>j. a = Some j \<Longrightarrow> j = k \<or> map_of (profiles e) j \<noteq> None"
  shows "eu_inv (e\<lparr>profiles := dict_set k p (profiles e), active_iccid := a, free_nvram := n,
                   disk := dict_set k (isdp_to_dict p) (disk e)\<rparr>)"
proof (rule eu_invI, goal_cases)
  case (4 j q)
  then show ?case using inv k act others [of j] eu_invD(5) [OF inv, of j q] by (auto split: if_splits)
qed (use assms in \<open>auto simp: eu_invD dest: dom intro: profile_mirror.mirror_put [OF _ saved_as_refl]\<close>)

lemma make_isdp_fields: "make_isdp i d u = Inr p \<Longrightarrow> iccid p = i \<and> p_state p = DISABLED \<and> sqn p = 0"
  by (auto simp: make_isdp_def rbind_eq_Inr)

lemma map_of_fresh: "k \<notin> fst ` set d \<Longrightarrow> map_of d k = None"
  by (simp add: map_of_eq_None_iff)

section \<open>Each operation, seen through its success\<close>

lemma install_profile_success:
  assumes "install_profile d u e = Inr (e', p)"
  obtains i size where "jreq d ''iccid'' = Inr (JStr i)" "map_of (profiles e) i = None"
    "jint d ''profile_size'' (64 * 1024) = Inr size" "size \<le> free_nvram e" "make_isdp i d u = Inr p"
    "e' = e\<lparr>profiles := dict_set i p (profiles e), active_iccid := active_iccid e,
            free_nvram := free_nvram e - size, disk := dict_set i (isdp_to_dict p) (disk e)\<rparr>"
    "iccid p = i" "p_state p = DISABLED" "eu_state e = READY"
proof -
  have as: "as_str x = Inr y \<Longrightarrow> x = JStr y" for x y by (cases x) auto
  obtain i size where 1: "eu_state e = READY" "jreq d ''iccid'' = Inr (JStr i)"
      "i \<notin> fst ` set (profiles e)" "jint d ''profile_size'' (64 * 1024) = Inr size"
      "size \<le> free_nvram e" "make_isdp i d u = Inr p"
      "e' = save_profile p (e\<lparr>profiles := dict_set i p (profiles e), free_nvram := free_nvram e - size\<rparr>)"
    using assms unfolding install_profile_def
    by (auto simp: rbind_eq_Inr require_ready_def dest!: as split: if_splits)
  then show thesis
    using make_isdp_fields [OF 1(6)] by (intro that [of i size]) (simp_all add: map_of_fresh save_profile_def)
qed

lemma install_inv:
  assumes inv: "eu_inv e" and i: "install_profile d u e = Inr (e', p)" and ne: "jreq d ''iccid'' \<noteq> Inr (JStr [])"
  shows "eu_inv e'"
  using i
proof (rule install_profile_success)
  fix i size
  assume a: "jreq d ''iccid'' = Inr (JStr i)" "map_of (profiles e) i = None" "iccid p = i" "p_state p = DISABLED"
    "e' = e\<lparr>profiles := dict_set i p (profiles e), active_iccid := active_iccid e,
            free_nvram := free_nvram e - size, disk := dict_set i (isdp_to_dict p) (disk e)\<rparr>"
  have "active_iccid e \<noteq> Some i" using eu_invD(6) [OF inv, of i] a(2) by auto
  then show ?thesis unfolding a(5) using ne a(1,3,4)
    by (intro eu_inv_put [OF inv]) (auto dest: eu_invD(6) [OF inv])
qed

definition put_saved :: "string \<Rightarrow> isdp \<Rightarrow> string option \<Rightarrow> euicc \<Rightarrow> euicc" where
  "put_saved k p a e = e\<lparr>profiles := dict_set k p (profiles e), active_iccid := a,
     free_nvram := free_nvram e, disk := dict_set k (isdp_to_dict p) (disk e)\<rparr>"

lemmas put_saved_inv = eu_inv_put [where n = "free_nvram e" and e = e for e, folded put_saved_def]

text \<open>The state after disabling the active profile, as the invariant wants it.\<close>

definition deactivated :: "euicc \<Rightarrow> euicc" where
  "deactivated e = (case active_iccid e of None \<Rightarrow> e
     | Some a \<Rightarrow> put_saved a ((the (map_of (profiles e) a))\<lparr>p_state := DISABLED\<rparr>) None e)"

lemma active_lookup:
  assumes "eu_inv e" "active_iccid e = Some a"
  obtains c where "map_of (profiles e) a = Some c" "iccid c = a" "a \<noteq> []" "p_state c = ENABLED"
  using assms eu_invD(5,6) [OF assms(1)] by metis

lemma deactivated_inv:
  assumes "eu_inv e"
  shows "eu_inv (deactivated e)"
proof (cases "active_iccid e")
  case None
  with assms show ?thesis by (simp add: deactivated_def)
next
  case (Some a)
  then obtain c where "map_of (profiles e) a = Some c" "iccid c = a" "a \<noteq> []"
    using active_lookup [OF assms] by blast
  with Some assms show ?thesis by (auto simp: deactivated_def intro!: put_saved_inv)
qed

lemma deactivated_simps [simp]:
  "active_iccid (deactivated e) = None" "eu_state (deactivated e) = eu_state e"
  "free_nvram (deactivated e) = free_nvram e" "eid (deactivated e) = eid e"
  by (auto simp: deactivated_def put_saved_def split: option.split)

lemma put_saved_simps [simp]:
  "active_iccid (put_saved k p a e) = a" "eu_state (put_saved k p a e) = eu_state e"
  "free_nvram (put_saved k p a e) = free_nvram e" "eid (put_saved k p a e) = eid e"
  "profiles (put_saved k p a e) = dict_set k p (profiles e)"
  by (simp_all add: put_saved_def)

lemma disable_active_then_put:
  assumes "eu_inv e" "iccid p = k"
  shows "save_profile p ((disable_active e)\<lparr>profiles := dict_set k p (profiles (disable_active e)),
      active_iccid := Some k\<rparr>) = put_saved k p (Some k) (deactivated e)"
proof (cases "active_iccid e")
  case None
  then show ?thesis by (simp add: disable_active_def deactivated_def put_saved_def save_profile_def assms(2))
next
  case (Some a)
  then obtain c where "map_of (profiles e) a = Some c" "iccid c = a" "a \<noteq> []"
    using active_lookup [OF assms(1)] by blast
  with Some show ?thesis
    by (simp add: disable_active_def deactivated_def put_saved_def save_profile_def assms(2) Let_def)
qed

lemma enable_profile_success:
  assumes inv: "eu_inv e" and en: "enable_profile i e = Inr (e', b)"
  obtains t where "b" "eu_state e = READY" "map_of (profiles e) i = Some t" "iccid t = i" "i \<noteq> []"
    "p_state t = ENABLED" "e' = e" "active_iccid e = Some i"
  | t where "b" "eu_state e = READY" "map_of (profiles e) i = Some t" "iccid t = i" "i \<noteq> []"
    "p_state t = DISABLED" "e' = put_saved i (t\<lparr>p_state := ENABLED\<rparr>) (Some i) (deactivated e)"
    "active_iccid e \<noteq> Some i"
proof -
  obtain t where t: "map_of (profiles e) i = Some t" and r: "eu_state e = READY"
    using en by (auto simp: enable_profile_def rbind_eq_Inr require_ready_def split: option.splits if_splits)
  have f: "iccid t = i" "p_state t = ENABLED \<longleftrightarrow> active_iccid e = Some i" "p_state t \<noteq> DELETING" "i \<noteq> []"
    using eu_invD(5) [OF inv t] eu_invD(4) [OF inv] t by auto
  show thesis
  proof (cases "p_state t = ENABLED")
    case True
    with en t r f show thesis by (intro that(1)) (auto simp: enable_profile_def require_ready_def)
  next
    case False
    then have "p_state t = DISABLED" using f(3) by (cases "p_state t") auto
    with False en t r f show thesis
      by (intro that(2)) (auto simp: enable_profile_def require_ready_def Let_def disable_active_then_put [OF inv])
  qed
qed

lemma deactivated_lookup:
  assumes "eu_inv e"
  shows "map_of (profiles (deactivated e)) k = map_option
    (\<lambda>p. if active_iccid e = Some k then p\<lparr>p_state := DISABLED\<rparr> else p) (map_of (profiles e) k)"
  using assms by (auto simp: deactivated_def option.map_ident split: option.split elim: active_lookup)

lemma enable_inv:
  assumes inv: "eu_inv e" and en: "enable_profile i e = Inr (e', b)"
  shows "eu_inv e'"
  using en by (rule enable_profile_success [OF inv])
    (auto simp: inv deactivated_lookup intro!: put_saved_inv deactivated_inv)

lemma disable_profile_success:
  assumes inv: "eu_inv e" and d: "disable_profile i e = Inr (e', b)"
  obtains t where "b" "eu_state e = READY" "map_of (profiles e) i = Some t" "p_state t = DISABLED" "e' = e"
    "active_iccid e \<noteq> Some i"
  | t where "b" "eu_state e = READY" "map_of (profiles e) i = Some t" "iccid t = i" "i \<noteq> []"
    "p_state t = ENABLED" "active_iccid e = Some i" "e' = deactivated e"
proof -
  obtain t where t: "map_of (profiles e) i = Some t" and r: "eu_state e = READY"
    using d by (auto simp: disable_profile_def rbind_eq_Inr require_ready_def split: option.splits if_splits)
  have f: "iccid t = i" "p_state t = ENABLED \<longleftrightarrow> active_iccid e = Some i" "p_state t \<noteq> DELETING" "i \<noteq> []"
    using eu_invD(5) [OF inv t] eu_invD(4) [OF inv] t by auto
  show thesis
  proof (cases "p_state t = DISABLED")
    case True
    with d t r f show thesis by (intro that(1)) (auto simp: disable_profile_def require_ready_def)
  next
    case False
    then have "p_state t = ENABLED" using f(3) by (cases "p_state t") auto
    with False d t r f show thesis
      by (intro that(2)) (auto simp: disable_profile_def require_ready_def Let_def save_profile_def
          deactivated_def put_saved_def)
  qed
qed

lemma disable_inv:
  assumes inv: "eu_inv e" and d: "disable_profile i e = Inr (e', b)"
  shows "eu_inv e'"
  using d by (rule disable_profile_success [OF inv]) (auto simp: inv intro: deactivated_inv)

lemma delete_profile_success:
  assumes "delete_profile i e = Inr (e', b)"
  shows "b" "eu_state e = READY" "map_of (profiles e) i \<noteq> None"
    "e' = e\<lparr>active_iccid := (if active_iccid e = Some i then None else active_iccid e),
            profiles := dict_del i (profiles e), disk := dict_del i (disk e)\<rparr>"
  using assms by (auto simp: delete_profile_def require_ready_def rbind_eq_Inr Let_def
      delete_profile_file_def map_of_eq_None_iff split: if_splits)

lemma delete_inv:
  assumes inv: "eu_inv e" and d: "delete_profile i e = Inr (e', b)"
  shows "eu_inv e'"
  unfolding delete_profile_success(4) [OF d]
proof (rule eu_invI, goal_cases)
  case (4 k p)
  then show ?case using eu_invD(5) [OF inv, of k p] by (auto split: if_splits)
next
  case (5 a)
  then show ?case using eu_invD(6) [OF inv, of a] by (auto split: if_splits)
qed (use inv in \<open>auto simp: eu_invD intro: profile_mirror.mirror_del\<close>)

lemma bump_active_eq:
  assumes "eu_inv e"
  shows "bump_active_sqn e = (case active_iccid e of None \<Rightarrow> e
    | Some a \<Rightarrow> e\<lparr>profiles := dict_set a (increment_sqn (the (map_of (profiles e) a))) (profiles e)\<rparr>)"
  using assms by (auto simp: bump_active_sqn_def get_active_eq set_active_profile_def split: option.split
      elim: active_lookup)

lemma bump_inv:
  assumes inv: "eu_inv e"
  shows "eu_inv (bump_active_sqn e)"
proof (cases "active_iccid e")
  case None
  with inv show ?thesis by (simp add: bump_active_eq)
next
  case (Some a)
  then obtain p where a: "map_of (profiles e) a = Some p" "iccid p = a" "a \<noteq> []" "p_state p = ENABLED"
    using active_lookup [OF inv] by blast
  obtain w where w: "map_of (disk e) a = Some w" "saved_as p w"
    using profile_mirror.mirror_lookD [OF eu_invD(3) [OF inv] a(1)] by blast
  have m: "profile_mirror.mirror (dict_set a (increment_sqn p) (profiles e)) (disk e)"
    using eu_invD(3) [OF inv] w by (auto intro: profile_mirror.mirror_put_mem saved_as_increment)
  show ?thesis
    unfolding bump_active_eq [OF inv] using Some a
  proof (simp, intro eu_invI, goal_cases)
    case (4 k q)
    then show ?case using eu_invD(5) [OF inv, of k q] by (auto split: if_splits)
  next
    case (5 b)
    then show ?case using eu_invD(6) [OF inv, of b] by auto
  qed (use inv m in \<open>auto simp: eu_invD\<close>)
qed

section \<open>Runs of the card\<close>

datatype eu_op = Install dict string | Enable string | Disable string | Delete string | Authenticate

definition eu_exec :: "eu_op \<Rightarrow> euicc \<Rightarrow> euicc res" where
  "eu_exec op e = (case op of
     Install d u \<Rightarrow> rbind (install_profile d u e) (\<lambda>(e', _). Inr e')
   | Enable i \<Rightarrow> rbind (enable_profile i e) (\<lambda>(e', _). Inr e')
   | Disable i \<Rightarrow> rbind (disable_profile i e) (\<lambda>(e', _). Inr e')
   | Delete i \<Rightarrow> rbind (delete_profile i e) (\<lambda>(e', _). Inr e')
   | Authenticate \<Rightarrow> Inr (bump_active_sqn e))"

text \<open>
  The states the daemon's card passes through: it starts on an empty directory, runs operations
  (one that raises leaves it alone; packages name a non-empty ICCID) and restarts at any time on
  its own files, which the directory lists in any order.
\<close>

definition op_ok :: "eu_op \<Rightarrow> bool" where
  "op_ok op = (case op of Install d u \<Rightarrow> jreq d ''iccid'' \<noteq> Inr (JStr []) | _ \<Rightarrow> True)"

definition listing :: "(string \<times> dict) list \<Rightarrow> euicc \<Rightarrow> bool" where
  "listing files e \<longleftrightarrow> dict_ok files \<and> map_of files = map_of (disk e)"

inductive eu_reach :: "euicc \<Rightarrow> bool" where
  boot: "eu_reach (initialize (new_euicc i []))"
| step: "eu_reach e \<Longrightarrow> op_ok op \<Longrightarrow> eu_exec op e = Inr e' \<Longrightarrow> eu_reach e'"
| reboot: "eu_reach e \<Longrightarrow> listing files e \<Longrightarrow> eu_reach (initialize (new_euicc (eid e) files))"

lemma exec_inv:
  assumes "eu_inv e" "op_ok op" "eu_exec op e = Inr e'"
  shows "eu_inv e'"
  using assms
  by (cases op) (auto simp: eu_exec_def op_ok_def rbind_eq_Inr
      intro: install_inv enable_inv disable_inv delete_inv bump_inv)

lemma exec_ready:
  assumes inv: "eu_inv e" and "eu_exec op e = Inr e'"
  shows "eu_state e' = eu_state e"
  using assms(2)
proof (cases op)
  case (Install d u)
  with assms(2) show ?thesis by (auto simp: eu_exec_def rbind_eq_Inr elim!: install_profile_success)
next
  case (Enable i)
  with assms(2) show ?thesis
    by (auto simp: eu_exec_def rbind_eq_Inr elim!: enable_profile_success [OF inv])
next
  case (Disable i)
  with assms(2) show ?thesis
    by (auto simp: eu_exec_def rbind_eq_Inr elim!: disable_profile_success [OF inv])
next
  case (Delete i)
  with assms(2) show ?thesis by (auto simp: eu_exec_def rbind_eq_Inr dest!: delete_profile_success(4))
next
  case Authenticate
  with assms(2) show ?thesis by (auto simp: eu_exec_def bump_active_eq [OF inv] split: option.splits)
qed

subsection \<open>Restart\<close>

definition file_profile :: "dict \<Rightarrow> isdp" where
  "file_profile f = (case isdp_from_dict f of Inr p \<Rightarrow> p | Inl _ \<Rightarrow> undefined)"

lemma load_profile_good:
  assumes "isdp_from_dict f = Inr (file_profile f)" "iccid (file_profile f) = k" "k \<notin> fst ` set (profiles e)"
  shows "load_profile e (k, f) = e\<lparr>profiles := profiles e @ [(k, file_profile f)],
    active_iccid := (if p_state (file_profile f) = ENABLED then Some k else active_iccid e)\<rparr>"
  using assms by (simp add: load_profile_def dict_set_new)

definition last_enabled :: "(string \<times> dict) list \<Rightarrow> string option" where
  "last_enabled files = foldl (\<lambda>a (k, f). if p_state (file_profile f) = ENABLED then Some k else a) None files"

lemma load_all:
  assumes "dict_ok files"
    and "\<And>k f. (k, f) \<in> set files \<Longrightarrow> isdp_from_dict f = Inr (file_profile f) \<and> iccid (file_profile f) = k"
  shows "foldl load_profile (new_euicc i dsk) files = (new_euicc i dsk)
    \<lparr>profiles := map (\<lambda>(k, f). (k, file_profile f)) files, active_iccid := last_enabled files\<rparr>"
  using assms
proof (induction files rule: rev_induct)
  case Nil
  then show ?case by (simp add: new_euicc_def last_enabled_def)
next
  case (snoc x files)
  obtain k f where x: "x = (k, f)" by (cases x)
  have fresh: "k \<notin> fst ` set files" and ok: "dict_ok files" using snoc.prems(1) by (auto simp: x dict_ok_def)
  have keys: "fst ` set (map (\<lambda>(k, f). (k, file_profile f)) files) = fst ` set files" by force
  have f: "isdp_from_dict f = Inr (file_profile f)" "iccid (file_profile f) = k"
    using snoc.prems(2) [of k f] by (auto simp: x)
  have ih: "foldl load_profile (new_euicc i dsk) files = (new_euicc i dsk)
      \<lparr>profiles := map (\<lambda>(k, f). (k, file_profile f)) files, active_iccid := last_enabled files\<rparr>"
    using snoc.IH [OF ok] snoc.prems(2) by auto
  show ?case
    by (simp only: foldl_append foldl.simps ih x, subst load_profile_good [OF f])
      (use fresh keys in \<open>auto simp: last_enabled_def\<close>)
qed

lemma last_enabled_unique:
  assumes "\<And>k f. (k, f) \<in> set files \<Longrightarrow> p_state (file_profile f) = ENABLED \<longleftrightarrow> a = Some k"
    and "\<And>k. a = Some k \<Longrightarrow> k \<in> fst ` set files"
  shows "last_enabled files = a"
proof -
  have "last_enabled files = (if \<exists>k f. (k, f) \<in> set files \<and> p_state (file_profile f) = ENABLED then a else None)"
    using assms(1)
  proof (induction files rule: rev_induct)
    case (snoc x files)
    obtain k f where x: "x = (k, f)" by (cases x)
    show ?case
    proof (cases "p_state (file_profile f) = ENABLED")
      case True
      with snoc.prems [of k f] show ?thesis by (auto simp: x last_enabled_def)
    next
      case False
      with snoc show ?thesis by (auto simp: x last_enabled_def)
    qed
  qed (simp add: last_enabled_def)
  also have "\<dots> = a"
    using assms by (cases a) (fastforce split: if_splits)+
  finally show ?thesis .
qed

lemma file_profile_to_dict [simp]: "file_profile (isdp_to_dict p) = p"
  by (simp add: file_profile_def)

lemma map_of_map_snd: "map_of (map (\<lambda>(k, f). (k, g f)) xs) k = map_option g (map_of xs k)"
  by (induction xs) auto

lemma reboot_state:
  assumes inv: "eu_inv e" and l: "listing files e"
  defines "e' \<equiv> initialize (new_euicc (eid e) files)"
  shows "eu_inv e'" "active_iccid e' = active_iccid e" "eu_state e' = READY" "free_nvram e' = 512 * 1024"
    "eid e' = eid e" "disk e' = files"
    "rel_option (\<lambda>p' p. \<exists>n \<le> sqn p. p' = p\<lparr>sqn := n\<rparr>) (map_of (profiles e') k) (map_of (profiles e) k)"
proof -
  have d: "dict_ok files" and m: "map_of files = map_of (disk e)" using l by (auto simp: listing_def)
  have rel: "rel_option saved_as (map_of (profiles e) k) (map_of files k)" for k
    using eu_invD(3) [OF inv] by (simp add: profile_mirror.mirror_def m)
  have from_file: "\<exists>p n. map_of (profiles e) k = Some p \<and> iccid p = k \<and> n \<le> sqn p \<and> f = isdp_to_dict (p\<lparr>sqn := n\<rparr>)"
    if "(k, f) \<in> set files" for k f
  proof -
    have "map_of files k = Some f" using that d by (simp add: dict_ok_def)
    then obtain p where "map_of (profiles e) k = Some p" "saved_as p f"
      using rel [of k] by (auto simp: option_rel_Some2)
    moreover then have "iccid p = k" using eu_invD(5) [OF inv] by blast
    ultimately show ?thesis by (auto simp: saved_as_def)
  qed
  have good: "isdp_from_dict f = Inr (file_profile f) \<and> iccid (file_profile f) = k" if "(k, f) \<in> set files" for k f
    using from_file [OF that] by auto
  have en: "p_state (file_profile f) = ENABLED \<longleftrightarrow> active_iccid e = Some k" if kf: "(k, f) \<in> set files" for k f
  proof -
    obtain p n where p: "map_of (profiles e) k = Some p" "f = isdp_to_dict (p\<lparr>sqn := n\<rparr>)"
      using from_file [OF kf] by blast
    then show ?thesis using eu_invD(5) [OF inv p(1)] by simp
  qed
  have keys: "k \<in> fst ` set files" if a: "active_iccid e = Some k" for k
  proof -
    obtain p where "map_of (profiles e) k = Some p" using eu_invD(6) [OF inv a] by blast
    then obtain f where "map_of files k = Some f" using rel [of k] by (auto simp: option_rel_Some1)
    then have "(k, f) \<in> set files" by (rule map_of_SomeD)
    then show ?thesis by force
  qed
  have e': "e' = (new_euicc (eid e) files)\<lparr>profiles := map (\<lambda>(k, f). (k, file_profile f)) files,
      active_iccid := active_iccid e, eu_state := READY\<rparr>"
    unfolding e'_def initialize_def load_profiles_def
    using load_all [OF d good, of "eid e" files] last_enabled_unique [OF en keys] by (simp add: new_euicc_def)
  show "active_iccid e' = active_iccid e" "eu_state e' = READY" "free_nvram e' = 512 * 1024"
    "eid e' = eid e" "disk e' = files" by (simp_all add: e' new_euicc_def)
  have look: "rel_option (\<lambda>p' p. \<exists>n \<le> sqn p. p' = p\<lparr>sqn := n\<rparr>) (map_of (profiles e') k) (map_of (profiles e) k)" for k
    using rel [of k] by (cases "map_of (profiles e) k"; cases "map_of files k")
      (auto simp: e' map_of_map_snd saved_as_def)
  then show "rel_option (\<lambda>p' p. \<exists>n \<le> sqn p. p' = p\<lparr>sqn := n\<rparr>) (map_of (profiles e') k) (map_of (profiles e) k)" .
  show "eu_inv e'"
  proof (rule eu_invI, goal_cases)
    case 1
    then show ?case using d by (simp add: e' dict_ok_def comp_def case_prod_beta)
  next
    case 2
    with d show ?case by (simp add: e' new_euicc_def)
  next
    case 3
    then show ?case using look [of "[]"] eu_invD(4) [OF inv] by simp
  next
    case (4 k p)
    then show ?case using look [of k] eu_invD(5) [OF inv, of k]
      by (auto simp: option_rel_Some1 e')
  next
    case (5 a)
    then show ?case using look [of a] eu_invD(6) [OF inv, of a] by (auto simp: e' option_rel_Some2)
  next
    case 6
    have "saved_as (file_profile f) f" if "saved_as p f" for p f
    proof -
      obtain n where "f = isdp_to_dict (p\<lparr>sqn := n\<rparr>)" using \<open>saved_as p f\<close> by (auto simp: saved_as_def)
      then show ?thesis by simp
    qed
    then have "rel_option saved_as (map_of (profiles e') k) (map_of files k)" for k
      using rel [of k] by (cases "map_of (profiles e) k"; cases "map_of files k") (auto simp: e' map_of_map_snd)
    then show ?case by (simp add: profile_mirror.mirror_def e' new_euicc_def)
  qed
qed

lemma boot_inv: "eu_inv (initialize (new_euicc i []))"
  by (rule eu_invI) (simp_all add: initialize_def load_profiles_def new_euicc_def profile_mirror.mirror_def)

lemma reach_inv: "eu_reach e \<Longrightarrow> eu_inv e \<and> eu_state e = READY"
proof (induction rule: eu_reach.induct)
  case (boot i)
  then show ?case using boot_inv by (simp add: initialize_def)
next
  case (step e op e')
  then show ?case using exec_inv exec_ready by metis
next
  case (reboot e files)
  then show ?case using reboot_state(1,3) by blast
qed


lemma sample_reach: "eu_reach (initialize (new_euicc ''89001'' []))"
  by (rule eu_reach.boot)

section \<open>The card as its user sees it\<close>

text \<open>
  SGP.22's view of the card: the installed profiles by ICCID, which one is enabled, and the memory
  left. Whether a profile is enabled is not stored with the profile, and sequence numbers are not
  visible.
\<close>

record card =
  inst :: "string \<Rightarrow> isdp option"
  act :: "string option"
  mem :: int

definition plain :: "isdp \<Rightarrow> isdp" where
  "plain p = p\<lparr>p_state := DISABLED, sqn := 0\<rparr>"

definition card_view :: "euicc \<Rightarrow> card" where
  "card_view e = \<lparr>inst = (\<lambda>k. map_option plain (map_of (profiles e) k)), act = active_iccid e, mem = free_nvram e\<rparr>"

definition card_install :: "dict \<Rightarrow> string \<Rightarrow> card \<Rightarrow> card res" where
  "card_install d u c =
     rbind (rbind (jreq d ''iccid'') as_str) (\<lambda>i.
     if inst c i \<noteq> None then Inl ValueError
     else rbind (jint d ''profile_size'' (64 * 1024)) (\<lambda>size.
     if size > mem c then Inl MemoryError
     else rbind (make_isdp i d u) (\<lambda>p.
     Inr (c\<lparr>inst := (inst c)(i \<mapsto> p), mem := mem c - size\<rparr>))))"

definition card_exec :: "eu_op \<Rightarrow> card \<Rightarrow> card res" where
  "card_exec op c = (case op of
     Install d u \<Rightarrow> card_install d u c
   | Enable i \<Rightarrow> if inst c i = None then Inl KeyError else Inr (c\<lparr>act := Some i\<rparr>)
   | Disable i \<Rightarrow> if inst c i = None then Inl KeyError
       else Inr (c\<lparr>act := (if act c = Some i then None else act c)\<rparr>)
   | Delete i \<Rightarrow> if inst c i = None then Inl KeyError
       else Inr (c\<lparr>inst := (inst c)(i := None), act := (if act c = Some i then None else act c)\<rparr>)
   | Authenticate \<Rightarrow> Inr c)"

lemma card_view_simps [simp]: "inst (card_view e) k = map_option plain (map_of (profiles e) k)"
  "act (card_view e) = active_iccid e" "mem (card_view e) = free_nvram e"
  by (simp_all add: card_view_def)

lemma plain_updates [simp]: "plain (p\<lparr>p_state := s\<rparr>) = plain p" "plain (p\<lparr>sqn := n\<rparr>) = plain p"
  "plain (increment_sqn p) = plain p"
  by (simp_all add: plain_def increment_sqn_def)

lemma card_eqI: "(\<And>k. inst c k = inst c' k) \<Longrightarrow> act c = act c' \<Longrightarrow> mem c = mem c' \<Longrightarrow> c = (c' :: card)"
  by (cases c; cases c') auto

lemma make_isdp_plain: "make_isdp i d u = Inr p \<Longrightarrow> plain p = p"
  by (auto simp: make_isdp_def rbind_eq_Inr plain_def)

lemma card_view_bump: "eu_inv e \<Longrightarrow> card_view (bump_active_sqn e) = card_view e"
  by (rule card_eqI) (auto simp: bump_active_eq split: option.split elim: active_lookup)

lemma card_view_deactivated: "eu_inv e \<Longrightarrow> card_view (deactivated e) = (card_view e)\<lparr>act := None\<rparr>"
  by (rule card_eqI) (auto simp: deactivated_lookup option.map_comp comp_def intro!: option.map_cong)

lemma enable_raises: "eu_state e = READY \<Longrightarrow> enable_profile i e = Inl x \<longleftrightarrow>
    map_of (profiles e) i = None \<and> x = KeyError"
  by (auto simp: enable_profile_def require_ready_def Let_def split: option.split)

lemma disable_raises: "eu_state e = READY \<Longrightarrow> disable_profile i e = Inl x \<longleftrightarrow>
    map_of (profiles e) i = None \<and> x = KeyError"
  by (auto simp: disable_profile_def require_ready_def Let_def split: option.split)

lemma delete_raises: "eu_state e = READY \<Longrightarrow> delete_profile i e = Inl x \<longleftrightarrow>
    map_of (profiles e) i = None \<and> x = KeyError"
  by (auto simp: delete_profile_def require_ready_def Let_def map_of_eq_None_iff)

lemma install_refines:
  assumes inv: "eu_inv e" and r: "eu_state e = READY"
  shows "map_sum id (\<lambda>(e', _). card_view e') (install_profile d u e) = card_install d u (card_view e)"
proof (cases "rbind (jreq d ''iccid'') as_str")
  case (Inl x)
  with r show ?thesis by (simp add: install_profile_def card_install_def require_ready_def)
next
  case i: (Inr i)
  show ?thesis
  proof (cases "i \<in> fst ` set (profiles e)")
    case True
    with i r show ?thesis
      by (auto simp: install_profile_def card_install_def require_ready_def dest: weak_map_of_SomeI)
  next
    case False
    then have "map_of (profiles e) i = None" by (rule map_of_fresh)
    with False i r show ?thesis
      using make_isdp_fields [of i d u] make_isdp_plain [of i d u]
      by (cases "jint d ''profile_size'' (64 * 1024)"; cases "make_isdp i d u")
        (auto simp: install_profile_def card_install_def require_ready_def save_profile_def intro!: card_eqI)
  qed
qed

lemma exec_refines_card:
  assumes "eu_reach e"
  shows "map_sum id card_view (eu_exec op e) = card_exec op (card_view e)"
proof -
  have inv: "eu_inv e" and r: "eu_state e = READY" using reach_inv [OF assms] by auto
  have lift: "map_sum id card_view (rbind m (\<lambda>(e', _). Inr e')) = map_sum id (\<lambda>(e', _). card_view e') m"
    for m :: "(euicc \<times> 'x) res" by (cases m) auto
  show ?thesis
  proof (cases op)
    case (Install d u)
    then show ?thesis using install_refines [OF inv r] by (simp add: eu_exec_def card_exec_def lift)
  next
    case (Enable i)
    show ?thesis
    proof (cases "enable_profile i e")
      case (Inl x)
      then have "map_of (profiles e) i = None \<and> x = KeyError" using enable_raises [OF r] by blast
      with Inl Enable show ?thesis by (simp add: eu_exec_def card_exec_def)
    next
      case (Inr y)
      then obtain e' b where en: "enable_profile i e = Inr (e', b)" by (cases y) auto
      then have "map_of (profiles e) i \<noteq> None \<and> card_view e' = (card_view e)\<lparr>act := Some i\<rparr>"
        by (rule enable_profile_success [OF inv])
          (auto intro!: card_eqI simp: deactivated_lookup [OF inv] option.map_comp comp_def cong: option.map_cong intro!: option.map_cong)
      with en Enable show ?thesis by (auto simp: eu_exec_def card_exec_def)
    qed
  next
    case (Disable i)
    show ?thesis
    proof (cases "disable_profile i e")
      case (Inl x)
      then have "map_of (profiles e) i = None \<and> x = KeyError" using disable_raises [OF r] by blast
      with Inl Disable show ?thesis by (simp add: eu_exec_def card_exec_def)
    next
      case (Inr y)
      then obtain e' b where d: "disable_profile i e = Inr (e', b)" by (cases y) auto
      then have "map_of (profiles e) i \<noteq> None
          \<and> card_view e' = (card_view e)\<lparr>act := (if active_iccid e = Some i then None else active_iccid e)\<rparr>"
        by (rule disable_profile_success [OF inv]) (auto simp: card_view_deactivated [OF inv] intro!: card_eqI)
      with d Disable show ?thesis by (auto simp: eu_exec_def card_exec_def)
    qed
  next
    case (Delete i)
    show ?thesis
    proof (cases "delete_profile i e")
      case (Inl x)
      then have "map_of (profiles e) i = None \<and> x = KeyError" using delete_raises [OF r] by blast
      with Inl Delete show ?thesis by (simp add: eu_exec_def card_exec_def)
    next
      case (Inr y)
      then obtain e' b where d: "delete_profile i e = Inr (e', b)" by (cases y) auto
      have "map_of (profiles e) i \<noteq> None" using delete_profile_success(3) [OF d] .
      moreover have "card_view e' = (card_view e)\<lparr>inst := (inst (card_view e))(i := None),
          act := (if active_iccid e = Some i then None else active_iccid e)\<rparr>"
        unfolding delete_profile_success(4) [OF d] by (rule card_eqI) auto
      ultimately show ?thesis using d Delete by (auto simp: eu_exec_def card_exec_def)
    qed
  next
    case Authenticate
    then show ?thesis using card_view_bump [OF inv] by (simp add: eu_exec_def card_exec_def)
  qed
qed

text \<open>
  C13: on every reachable state each operation does on the eUICC exactly what it does on the
  card its user sees, errors included: the same exception, or the same new card.
\<close>

theorem eu_exec_refines:
  assumes "eu_reach e"
  shows "map_sum id card_view (eu_exec op e) = card_exec op (card_view e)"
  by (rule exec_refines_card [OF assms])

theorem eu_exec_refines_witness:
  "map_sum id card_view (eu_exec (Enable ''8901'') (initialize (new_euicc ''89001'' [])))
     = card_exec (Enable ''8901'') (card_view (initialize (new_euicc ''89001'' [])))"
  using eu_exec_refines [OF sample_reach] by blast

text \<open>
  A restart on the card's own files, in whatever order the directory lists them, gives back
  the same card, with the whole of the memory free again however much the profiles had taken, and
  with every sequence number at most what it was (the numbers AUTHENTICATE advanced since the
  profile was last saved are rolled back).
\<close>

theorem reboot_preserves_card:
  assumes "eu_reach e" "dict_ok files" "map_of files = map_of (disk e)"
  shows "card_view (initialize (new_euicc (eid e) files)) = (card_view e)\<lparr>mem := 512 * 1024\<rparr>
     \<and> (\<forall>k p. map_of (profiles e) k = Some p \<longrightarrow>
          (\<exists>n \<le> sqn p. map_of (profiles (initialize (new_euicc (eid e) files))) k = Some (p\<lparr>sqn := n\<rparr>)))"
proof -
  have inv: "eu_inv e" using reach_inv [OF assms(1)] by blast
  have l: "listing files e" using assms by (simp add: listing_def)
  note s = reboot_state [OF inv l]
  have r: "rel_option (\<lambda>p' p. \<exists>n \<le> sqn p. p' = p\<lparr>sqn := n\<rparr>)
      (map_of (profiles (initialize (new_euicc (eid e) files))) k) (map_of (profiles e) k)" for k
    by (rule s(7))
  have "map_option plain (map_of (profiles (initialize (new_euicc (eid e) files))) k)
      = map_option plain (map_of (profiles e) k)" for k
    using r [of k] by (auto simp: rel_option_iff split: option.splits)
  then have "card_view (initialize (new_euicc (eid e) files)) = (card_view e)\<lparr>mem := 512 * 1024\<rparr>"
    by (intro card_eqI) (simp_all add: s)
  moreover have "\<exists>n \<le> sqn p. map_of (profiles (initialize (new_euicc (eid e) files))) k = Some (p\<lparr>sqn := n\<rparr>)"
    if "map_of (profiles e) k = Some p" for k p
    using r [of k] that by (auto simp: option_rel_Some2)
  ultimately show ?thesis by blast
qed

text \<open>
  Deleting a profile undoes its installation except for the memory: the eUICC is the one
  before the installation, less the size of the package, which stays taken until the next restart.
\<close>

theorem delete_keeps_memory:
  assumes "eu_reach e" "install_profile d u e = Inr (e1, p)" "delete_profile (iccid p) e1 = Inr (e2, b)"
    "jint d ''profile_size'' (64 * 1024) = Inr taken"
  shows "e2 = e\<lparr>free_nvram := free_nvram e - taken\<rparr>"
  using assms(2)
proof (rule install_profile_success)
  fix i sz
  assume i: "map_of (profiles e) i = None" "jint d ''profile_size'' (64 * 1024) = Inr sz" "iccid p = i"
    "e1 = e\<lparr>profiles := dict_set i p (profiles e), active_iccid := active_iccid e,
            free_nvram := free_nvram e - sz, disk := dict_set i (isdp_to_dict p) (disk e)\<rparr>"
  have inv: "eu_inv e" using reach_inv [OF assms(1)] by blast
  have f: "i \<notin> fst ` set (profiles e)" using i(1) by (simp add: map_of_eq_None_iff)
  have "map_of (disk e) i = None"
    using i(1) eu_invD(3) [OF inv] by (auto simp: profile_mirror.mirror_def dest!: spec [of _ i])
  then have g: "i \<notin> fst ` set (disk e)" by (simp add: map_of_eq_None_iff)
  have undo: "dict_del i (dict_set i v x) = x" if "i \<notin> fst ` set x" for v and x :: "(string \<times> 'c) list"
    using that dict_del_new [OF that] by (simp add: dict_set_new dict_del_def)
  have "active_iccid e \<noteq> Some i" using eu_invD(6) [OF inv, of i] i(1) by auto
  then show ?thesis
    using i(2,3) assms(4) delete_profile_success(4) [OF assms(3)] by (simp add: i(4) undo [OF f] undo [OF g])
qed

definition sample_package :: dict where
  "sample_package = [(''iccid'', JStr ''8901''), (''imsi'', JStr ''001010000000001''), (''ki'', JStr ''00''),
     (''opc'', JStr ''11''), (''profile_size'', JInt 300000)]"

lemma sample_install:
  obtains e1 p e2 where "install_profile sample_package ''aid'' (initialize (new_euicc ''89001'' [])) = Inr (e1, p)"
    "eu_exec (Install sample_package ''aid'') (initialize (new_euicc ''89001'' [])) = Inr e1"
    "delete_profile (iccid p) e1 = Inr (e2, True)" "disk e1 = [(''8901'', isdp_to_dict p)]" "iccid p = ''8901''"
  by (simp add: eu_exec_def install_profile_def require_ready_def initialize_def load_profiles_def new_euicc_def
      sample_package_def make_isdp_def json_access save_profile_def delete_profile_def Let_def)

lemma sample_reach_installed:
  assumes "eu_exec (Install sample_package ''aid'') (initialize (new_euicc ''89001'' [])) = Inr e1"
  shows "eu_reach e1"
  by (rule eu_reach.step [OF sample_reach _ assms]) (simp add: op_ok_def sample_package_def json_access)


theorem reboot_preserves_card_witness:
  "\<exists>e files. files \<noteq> [] \<and> card_view (initialize (new_euicc (eid e) files)) = (card_view e)\<lparr>mem := 512 * 1024\<rparr>"
proof (rule sample_install)
  fix e1 p e2
  assume e1: "eu_exec (Install sample_package ''aid'') (initialize (new_euicc ''89001'' [])) = Inr e1"
    and d: "disk e1 = [(''8901'', isdp_to_dict p)]"
  have "dict_ok (disk e1)" by (simp add: d dict_ok_def)
  then show ?thesis using reboot_preserves_card [OF sample_reach_installed [OF e1] _ refl] d by (metis list.distinct(1))
qed

theorem delete_keeps_memory_witness:
  "\<exists>e1 p e2. install_profile sample_package ''aid'' (initialize (new_euicc ''89001'' [])) = Inr (e1, p)
     \<and> delete_profile (iccid p) e1 = Inr (e2, True)
     \<and> e2 = (initialize (new_euicc ''89001'' []))\<lparr>free_nvram := free_nvram (initialize (new_euicc ''89001'' [])) - 300000\<rparr>"
proof (rule sample_install)
  fix e1 p e2
  assume i: "install_profile sample_package ''aid'' (initialize (new_euicc ''89001'' [])) = Inr (e1, p)"
    "delete_profile (iccid p) e1 = Inr (e2, True)"
  have "jint sample_package ''profile_size'' (64 * 1024) = Inr 300000"
    by (simp add: sample_package_def json_access)
  then show ?thesis using i delete_keeps_memory [OF sample_reach i] by blast
qed

end
