(* ===== verification/Milenage.thy ===== *)
theory Milenage
  imports Prelude
begin

text \<open>
  \<^verbatim>\<open>euicc/crypto/milenage.py\<close>: the Milenage functions f1 to f5*, the USIM side of AKA
  authentication, AUTS generation and the GSM compatibility mode. AES-128 in ECB mode comes from
  PyCryptodome, so it is a parameter \<open>aes key data\<close> that returns the ciphertext or raises;
  \<open>aes_ok\<close> states what the code relies on (one block in, one block out).
\<close>

type_synonym aes = "bytes \<Rightarrow> bytes \<Rightarrow> bytes res"

definition aes_ok :: "aes \<Rightarrow> bool" where
  "aes_ok aes \<longleftrightarrow> (\<forall>k b. length k = 16 \<longrightarrow> length b = 16 \<longrightarrow> (\<exists>c. aes k b = Inr c \<and> length c = 16))"

record milenage =
  mil_ki :: bytes
  mil_opc :: bytes

definition mil_ok :: "milenage \<Rightarrow> bool" where
  "mil_ok m \<longleftrightarrow> length (mil_ki m) = 16 \<and> length (mil_opc m) = 16"

section \<open>The algorithm set\<close>

definition mil_C :: "nat \<Rightarrow> bytes" where
  "mil_C i = replicate 15 0 @ [([0, 1, 2, 4, 8] :: bytes) ! i]"

definition mil_R :: "nat \<Rightarrow> nat" where
  "mil_R i = [64, 0, 32, 64, 96] ! i"

definition mil_init :: "bytes \<Rightarrow> bytes \<Rightarrow> milenage res" where
  "mil_init ki opc =
     (if length ki \<noteq> 16 then Inl ValueError
      else if length opc \<noteq> 16 then Inl ValueError
      else Inr \<lparr>mil_ki = ki, mil_opc = opc\<rparr>)"

definition compute_opc :: "aes \<Rightarrow> bytes \<Rightarrow> bytes \<Rightarrow> bytes res" where
  "compute_opc aes ki op = rbind (aes ki op) (\<lambda>enc. Inr (xor_bytes op enc))"

definition mil_encrypt :: "aes \<Rightarrow> milenage \<Rightarrow> bytes \<Rightarrow> bytes res" where
  "mil_encrypt aes m data = aes (mil_ki m) data"

definition mil_rotate :: "bytes \<Rightarrow> nat \<Rightarrow> bytes" where
  "mil_rotate data bits =
     (if bits = 0 then data
      else let byte_shift = bits div 8; bit_shift = bits mod 8; n = length data
           in map (\<lambda>i. let src1 = (i + byte_shift) mod n; src2 = (i + byte_shift + 1) mod n
                       in word_of_nat ((push_bit bit_shift (unat (data ! src1))
                            OR drop_bit (8 - bit_shift) (unat (data ! src2))) AND 255)) [0..<n])"

definition f1_core :: "aes \<Rightarrow> milenage \<Rightarrow> bytes \<Rightarrow> bytes \<Rightarrow> bytes \<Rightarrow> bytes res" where
  "f1_core aes m rand sqn amf =
     rbind (mil_encrypt aes m (xor_bytes rand (mil_opc m))) (\<lambda>temp.
     let in1 = sqn @ amf @ sqn @ amf;
         rotated = mil_rotate (xor_bytes in1 (mil_opc m)) (mil_R 0);
         enc_input = xor_bytes (xor_bytes temp rotated) (mil_C 0)
     in rbind (mil_encrypt aes m enc_input) (\<lambda>out. Inr (xor_bytes out (mil_opc m))))"

definition f1 :: "aes \<Rightarrow> milenage \<Rightarrow> bytes \<Rightarrow> bytes \<Rightarrow> bytes \<Rightarrow> bytes res" where
  "f1 aes m rand sqn amf = rbind (f1_core aes m rand sqn amf) (\<lambda>o1. Inr (slice o1 0 8))"

definition f1star :: "aes \<Rightarrow> milenage \<Rightarrow> bytes \<Rightarrow> bytes \<Rightarrow> bytes \<Rightarrow> bytes res" where
  "f1star aes m rand sqn amf = rbind (f1_core aes m rand sqn amf) (\<lambda>o1. Inr (slice o1 8 16))"

definition f2345_out :: "aes \<Rightarrow> milenage \<Rightarrow> bytes \<Rightarrow> nat \<Rightarrow> bytes res" where
  "f2345_out aes m temp i =
     rbind (mil_encrypt aes m
              (xor_bytes (mil_rotate (xor_bytes temp (mil_opc m)) (mil_R i)) (mil_C i)))
       (\<lambda>out. Inr (xor_bytes out (mil_opc m)))"

definition f2345 :: "aes \<Rightarrow> milenage \<Rightarrow> bytes \<Rightarrow> (bytes \<times> bytes \<times> bytes \<times> bytes) res" where
  "f2345 aes m rand =
     rbind (mil_encrypt aes m (xor_bytes rand (mil_opc m))) (\<lambda>temp.
     rbind (f2345_out aes m temp 1) (\<lambda>out2.
     rbind (f2345_out aes m temp 2) (\<lambda>ck.
     rbind (f2345_out aes m temp 3) (\<lambda>ik.
     Inr (slice out2 8 16, ck, ik, slice out2 0 6)))))"

definition f5star :: "aes \<Rightarrow> milenage \<Rightarrow> bytes \<Rightarrow> bytes res" where
  "f5star aes m rand =
     rbind (mil_encrypt aes m (xor_bytes rand (mil_opc m))) (\<lambda>temp.
     rbind (f2345_out aes m temp 4) (\<lambda>out. Inr (slice out 0 6)))"

text \<open>
  \<^verbatim>\<open>authenticate\<close> returns \<open>None\<close> both for a wrong MAC and for a stale sequence number; the
  wrong lengths of RAND or AUTN raise.
\<close>

definition authenticate ::
  "aes \<Rightarrow> milenage \<Rightarrow> bytes \<Rightarrow> bytes \<Rightarrow> int \<Rightarrow> (bytes \<times> bytes \<times> bytes) option res" where
  "authenticate aes m rand autn sqn_stored =
     (if length rand \<noteq> 16 \<or> length autn \<noteq> 16 then Inl ValueError
      else rbind (f2345 aes m rand) (\<lambda>(res, ck, ik, ak).
        let sqn_ak = slice autn 0 6; amf = slice autn 6 8; mac_a_received = slice autn 8 16;
            sqn = xor_bytes sqn_ak ak
        in rbind (f1 aes m rand sqn amf) (\<lambda>mac_a_computed.
           if mac_a_computed \<noteq> mac_a_received then Inr None
           else if unpack sqn < sqn_stored then Inr None
           else Inr (Some (res, ck, ik)))))"

definition generate_auts :: "aes \<Rightarrow> milenage \<Rightarrow> bytes \<Rightarrow> int \<Rightarrow> bytes res" where
  "generate_auts aes m rand sqn_stored =
     rbind (to_bytes_be 6 sqn_stored) (\<lambda>sqn_bytes.
     rbind (f5star aes m rand) (\<lambda>ak_star.
     rbind (f1star aes m rand sqn_bytes (replicate 2 0)) (\<lambda>mac_s.
     Inr (xor_bytes sqn_bytes ak_star @ mac_s))))"

definition gsm_authenticate :: "aes \<Rightarrow> milenage \<Rightarrow> bytes \<Rightarrow> (bytes \<times> bytes) res" where
  "gsm_authenticate aes m rand =
     rbind (f2345 aes m rand) (\<lambda>(res, ck, ik, _).
     Inr (slice res 0 4,
          xor_bytes (xor_bytes (slice ck 0 8) (drop 8 ck)) (xor_bytes (slice ik 0 8) (drop 8 ik))))"

section \<open>Rotation is the rotation of the 128-bit block\<close>

text \<open>The bits of a byte string, most significant bit of the first byte first.\<close>

definition bits_of :: "bytes \<Rightarrow> bool list" where
  "bits_of d = map (\<lambda>k. bit (d ! (k div 8)) (7 - k mod 8)) [0..<8 * length d]"

lemma length_bits_of [simp]: "length (bits_of d) = 8 * length d"
  by (simp add: bits_of_def)

lemma bits_of_inject: "bits_of d = bits_of e \<Longrightarrow> d = e"
proof (rule nth_equalityI)
  assume eq: "bits_of d = bits_of e"
  then show len: "length d = length e" by (metis length_bits_of mult_cancel1 zero_neq_numeral)
  fix i assume i: "i < length d"
  show "d ! i = e ! i"
  proof (rule bit_word_eqI)
    fix j assume "j < LENGTH(8)"
    then have j: "j < 8" by simp
    define k where "k = 8 * i + (7 - j)"
    have r: "7 - j < 8" by simp
    have "k div 8 = i" "k mod 8 = 7 - j"
      unfolding k_def by (rule block_div [OF r], rule block_mod [OF r])
    then have k: "k < 8 * length d" "k div 8 = i" "7 - k mod 8 = j"
      using i j by (simp_all add: k_def)
    have "bits_of d ! k = bits_of e ! k" by (simp add: eq)
    with k len show "bit (d ! i) j = bit (e ! i) j" by (simp add: bits_of_def)
  qed
qed

lemma bit_rotated_byte:
  fixes a b :: byte
  assumes "s < 8" "j < 8"
  shows "bit (word_of_nat ((push_bit s (unat a) OR drop_bit (8 - s) (unat b)) AND 255) :: byte) j
       = (if s \<le> j then bit a (j - s) else bit b (8 - s + j))"
proof -
  have m: "(255 :: nat) = mask 8" by (simp add: mask_eq_exp_minus_1)
  have "\<not> bit (unat b) (8 - s + j)" if "s \<le> j"
    using that assms bit_imp_le_length [of b "8 - s + j"] by (auto simp: bit_unsigned_iff)
  then show ?thesis
    using assms unfolding m by (auto simp: bit_simps)
qed

lemma mil_rotate_nth_bit:
  assumes k: "k < 8 * length d"
  shows "bits_of (mil_rotate d b) ! k = bits_of d ! ((b + k) mod (8 * length d))"
proof (cases "b = 0")
  case True
  with k show ?thesis by (simp add: mil_rotate_def)
next
  case False
  define n where "n = length d"
  define i where "i = k div 8"
  define q where "q = k mod 8"
  define s where "s = b mod 8"
  define t where "t = b div 8"
  have n0: "0 < n" and i: "i < n" and q: "q < 8" and s: "s < 8"
    using k by (auto simp: n_def i_def q_def s_def less_mult_imp_div_less mult.commute)
  have kk: "k = 8 * i + q" and bb: "b = 8 * t + s" by (simp_all add: i_def q_def t_def s_def)
  have lhs: "bits_of (mil_rotate d b) ! k =
      (if s \<le> 7 - q then bit (d ! ((i + t) mod n)) (7 - q - s)
       else bit (d ! ((i + t + 1) mod n)) (8 - s + (7 - q)))"
    using False k i q s bit_rotated_byte [of s "7 - q" "d ! ((i + t) mod n)" "d ! ((i + t + 1) mod n)"]
    by (simp add: bits_of_def mil_rotate_def Let_def n_def i_def q_def s_def t_def)
  define p where "p = (b + k) mod (8 * n)"
  have pn: "p < 8 * n" using n0 by (simp add: p_def)
  have rhs: "bits_of d ! p = bit (d ! (p div 8)) (7 - p mod 8)"
    using pn by (simp add: bits_of_def n_def)
  show ?thesis
  proof (cases "s + q < 8")
    case True
    have "b + k = 8 * (i + t) + (s + q)" by (simp add: kk bb)
    then have "(b + k) div 8 = i + t" "(b + k) mod 8 = s + q"
      using block_div [OF True] block_mod [OF True] by (simp_all only:)
    then have "p = 8 * ((i + t) mod n) + (s + q)" by (simp add: p_def mod_mult2_eq)
    then have "p div 8 = (i + t) mod n" "p mod 8 = s + q"
      using block_div [OF True] block_mod [OF True] by (simp_all only:)
    then show ?thesis using lhs rhs True by (simp add: p_def n_def add.commute)
  next
    case False
    have "b + k = 8 * (i + t + 1) + (s + q - 8)" using False by (simp add: kk bb)
    moreover have r: "s + q - 8 < 8" using s q by simp
    ultimately have "(b + k) div 8 = i + t + 1" "(b + k) mod 8 = s + q - 8"
      using block_div [OF r] block_mod [OF r] by (simp_all only:)
    then have "p = 8 * ((i + t + 1) mod n) + (s + q - 8)" by (simp add: p_def mod_mult2_eq)
    then have "p div 8 = (i + t + 1) mod n" "p mod 8 = s + q - 8"
      using block_div [OF r] block_mod [OF r] by (simp_all only:)
    moreover have "8 - s + (7 - q) = 7 - (s + q - 8)" using False s q by simp
    ultimately show ?thesis using lhs rhs False by (simp add: p_def n_def)
  qed
qed

lemma length_mil_rotate [simp]: "length (mil_rotate d b) = length d"
  by (simp add: mil_rotate_def Let_def)

text \<open>
  C35: for every block and every number of bits, \<^verbatim>\<open>_rotate\<close> is the rotation of the block's bit
  string to the left by that many positions.
\<close>

theorem mil_rotate_is_bit_rotation: "bits_of (mil_rotate d b) = rotate b (bits_of d)"
  by (rule nth_equalityI) (simp_all add: mil_rotate_nth_bit nth_rotate)

section \<open>Lengths and totality\<close>

named_theorems mil "totality and lengths of the Milenage functions"

lemma length_mil_C [mil]: "length (mil_C i) = 16"
  by (simp add: mil_C_def)

lemma mil_init_ok [mil]: "mil_init ki opc = Inr m \<Longrightarrow> mil_ok m \<and> mil_ki m = ki \<and> mil_opc m = opc"
  by (auto simp: mil_init_def mil_ok_def split: if_splits)

lemma mil_init_total: "length ki = 16 \<Longrightarrow> length opc = 16 \<Longrightarrow>
    mil_init ki opc = Inr \<lparr>mil_ki = ki, mil_opc = opc\<rparr>"
  by (simp add: mil_init_def)

lemma mil_encrypt_total:
  "aes_ok aes \<Longrightarrow> mil_ok m \<Longrightarrow> length b = 16 \<Longrightarrow> \<exists>c. mil_encrypt aes m b = Inr c \<and> length c = 16"
  by (simp add: mil_encrypt_def aes_ok_def mil_ok_def)

lemma f1_core_total:
  assumes "aes_ok aes" "mil_ok m" "length rand = 16" "length sqn = 6" "length amf = 2"
  shows "\<exists>o1. f1_core aes m rand sqn amf = Inr o1 \<and> length o1 = 16"
proof -
  have opc: "length (mil_opc m) = 16" using assms(2) by (simp add: mil_ok_def)
  obtain temp where t: "mil_encrypt aes m (xor_bytes rand (mil_opc m)) = Inr temp" "length temp = 16"
    using mil_encrypt_total [OF assms(1,2), of "xor_bytes rand (mil_opc m)"] assms(3) opc by auto
  let ?e = "xor_bytes (xor_bytes temp (mil_rotate (xor_bytes (sqn @ amf @ sqn @ amf) (mil_opc m))
              (mil_R 0))) (mil_C 0)"
  obtain out where "mil_encrypt aes m ?e = Inr out" "length out = 16"
    using mil_encrypt_total [OF assms(1,2), of ?e] t opc assms(4,5) by (auto simp: mil)
  with t opc show ?thesis by (simp add: f1_core_def Let_def)
qed

lemma f1_total:
  assumes "aes_ok aes" "mil_ok m" "length rand = 16" "length sqn = 6" "length amf = 2"
  shows "\<exists>mac. f1 aes m rand sqn amf = Inr mac \<and> length mac = 8"
    and "\<exists>mac. f1star aes m rand sqn amf = Inr mac \<and> length mac = 8"
  using f1_core_total [OF assms] by (auto simp: f1_def f1star_def length_slice)

lemma f2345_out_total:
  assumes "aes_ok aes" "mil_ok m" "length temp = 16"
  shows "\<exists>out. f2345_out aes m temp i = Inr out \<and> length out = 16"
proof -
  have opc: "length (mil_opc m) = 16" using assms(2) by (simp add: mil_ok_def)
  let ?e = "xor_bytes (mil_rotate (xor_bytes temp (mil_opc m)) (mil_R i)) (mil_C i)"
  obtain out where "mil_encrypt aes m ?e = Inr out" "length out = 16"
    using mil_encrypt_total [OF assms(1,2), of ?e] assms(3) opc by (auto simp: mil)
  with opc show ?thesis by (simp add: f2345_out_def)
qed

lemma f2345_total:
  assumes "aes_ok aes" "mil_ok m" "length rand = 16"
  shows "\<exists>res ck ik ak. f2345 aes m rand = Inr (res, ck, ik, ak) \<and>
           length res = 8 \<and> length ck = 16 \<and> length ik = 16 \<and> length ak = 6"
proof -
  have "length (mil_opc m) = 16" using assms(2) by (simp add: mil_ok_def)
  then obtain temp where t: "mil_encrypt aes m (xor_bytes rand (mil_opc m)) = Inr temp" "length temp = 16"
    using mil_encrypt_total [OF assms(1,2), of "xor_bytes rand (mil_opc m)"] assms(3) by auto
  obtain o2 ck ik where "f2345_out aes m temp 1 = Inr o2" "length o2 = 16"
      "f2345_out aes m temp 2 = Inr ck" "length ck = 16" "f2345_out aes m temp 3 = Inr ik" "length ik = 16"
    using f2345_out_total [OF assms(1,2) t(2)] by metis
  with t show ?thesis by (simp add: f2345_def length_slice)
qed

lemma f5star_total:
  assumes "aes_ok aes" "mil_ok m" "length rand = 16"
  shows "\<exists>ak. f5star aes m rand = Inr ak \<and> length ak = 6"
proof -
  have "length (mil_opc m) = 16" using assms(2) by (simp add: mil_ok_def)
  then obtain temp where t: "mil_encrypt aes m (xor_bytes rand (mil_opc m)) = Inr temp" "length temp = 16"
    using mil_encrypt_total [OF assms(1,2), of "xor_bytes rand (mil_opc m)"] assms(3) by auto
  obtain out where "f2345_out aes m temp 4 = Inr out" "length out = 16"
    using f2345_out_total [OF assms(1,2) t(2)] by blast
  with t show ?thesis by (simp add: f5star_def length_slice)
qed

end
