(* ===== verification/Aka.thy ===== *)
theory Aka
  imports Milenage
begin

text \<open>
  The network side of AKA and the contract between both sides. \<open>aka_vector\<close> is the vector that
  \<^verbatim>\<open>scripts/scscf_auth_helper.py\<close> and \<^verbatim>\<open>scripts/provision_epdg.py\<close> build from a RAND, a sequence
  number and an AMF; the locale \<open>aka\<close> states what its users (the APDU handler, EAP-AKA, IMS
  registration) rely on, and the interpretation \<open>mil_aka\<close> discharges it for Milenage.
\<close>

definition aka_vector ::
  "aes \<Rightarrow> milenage \<Rightarrow> bytes \<Rightarrow> int \<Rightarrow> bytes \<Rightarrow> (bytes \<times> bytes \<times> bytes \<times> bytes) res" where
  "aka_vector aes m rand sqn_val amf =
     rbind (to_bytes_be 6 sqn_val) (\<lambda>sqn.
     rbind (f1 aes m rand sqn amf) (\<lambda>mac_a.
     rbind (f2345 aes m rand) (\<lambda>(res, ck, ik, ak).
     let autn = xor_bytes sqn ak @ amf @ mac_a in Inr (autn, res, ck, ik))))"

section \<open>The contract\<close>

text \<open>
  A USIM \<open>u\<close> with its algorithm: \<open>vector\<close> is the network side, \<open>auth\<close> the card side with its
  stored sequence number. The laws: vectors exist and have the standard lengths; the card accepts
  a vector whose sequence number is not below its own and derives the keys of the network; it
  refuses a stale one; and what it accepts is a vector of the network for some sequence number.
\<close>

definition rand_ok :: "bytes \<Rightarrow> bool" where
  "rand_ok rand \<longleftrightarrow> length rand = 16"

definition sqn_ok :: "int \<Rightarrow> bool" where
  "sqn_ok s \<longleftrightarrow> 0 \<le> s \<and> s < 2 ^ 48"

locale aka =
  fixes ok :: "'u \<Rightarrow> bool"
    and vector :: "'u \<Rightarrow> bytes \<Rightarrow> int \<Rightarrow> bytes \<Rightarrow> (bytes \<times> bytes \<times> bytes \<times> bytes) res"
    and auth :: "'u \<Rightarrow> bytes \<Rightarrow> bytes \<Rightarrow> int \<Rightarrow> (bytes \<times> bytes \<times> bytes) option res"
  assumes vector_total:
      "ok u \<Longrightarrow> rand_ok rand \<Longrightarrow> sqn_ok sqn \<Longrightarrow> length amf = 2 \<Longrightarrow>
         \<exists>autn res ck ik. vector u rand sqn amf = Inr (autn, res, ck, ik) \<and> length autn = 16
           \<and> length res = 8 \<and> length ck = 16 \<and> length ik = 16"
    and auth_vector:
      "ok u \<Longrightarrow> rand_ok rand \<Longrightarrow> sqn_ok sqn \<Longrightarrow> length amf = 2 \<Longrightarrow>
         vector u rand sqn amf = Inr (autn, keys) \<Longrightarrow>
         auth u rand autn stored = Inr (if sqn < stored then None else Some keys)"
    and auth_sound:
      "ok u \<Longrightarrow> rand_ok rand \<Longrightarrow> auth u rand autn stored = Inr (Some keys) \<Longrightarrow>
         \<exists>sqn amf. sqn_ok sqn \<and> length amf = 2 \<and> stored \<le> sqn \<and> vector u rand sqn amf = Inr (autn, keys)"
begin

lemma accepts: "ok u \<Longrightarrow> rand_ok rand \<Longrightarrow> sqn_ok sqn \<Longrightarrow> length amf = 2 \<Longrightarrow>
    vector u rand sqn amf = Inr (autn, keys) \<Longrightarrow> stored \<le> sqn \<Longrightarrow>
    auth u rand autn stored = Inr (Some keys)"
  by (simp add: auth_vector)

lemma refuses_stale: "ok u \<Longrightarrow> rand_ok rand \<Longrightarrow> sqn_ok sqn \<Longrightarrow> length amf = 2 \<Longrightarrow>
    vector u rand sqn amf = Inr (autn, keys) \<Longrightarrow> sqn < stored \<Longrightarrow>
    auth u rand autn stored = Inr None"
  by (simp add: auth_vector)

text \<open>An accepted challenge stays acceptable as long as the stored number has not passed its own.\<close>

lemma accepted_again:
  assumes "ok u" "rand_ok rand" "sqn_ok sqn" "length amf = 2"
    and "vector u rand sqn amf = Inr (autn, keys)" "stored < sqn"
  shows "auth u rand autn stored = Inr (Some keys) \<and> auth u rand autn (stored + 1) = Inr (Some keys)"
  using assms by (simp add: auth_vector)

text \<open>Whatever is accepted yields keys of the standard lengths.\<close>

lemma accepted_lengths:
  assumes "ok u" "rand_ok rand" "auth u rand autn stored = Inr (Some (res, ck, ik))"
  shows "length res = 8 \<and> length ck = 16 \<and> length ik = 16"
proof -
  obtain sqn amf where s: "sqn_ok sqn" "length amf = 2" "vector u rand sqn amf = Inr (autn, res, ck, ik)"
    using auth_sound [OF assms] by blast
  then show ?thesis using vector_total [OF assms(1,2) s(1,2)] by auto
qed

end

section \<open>Milenage satisfies it\<close>

type_synonym usim = "aes \<times> milenage"

definition usim_ok :: "usim \<Rightarrow> bool" where
  "usim_ok u \<longleftrightarrow> aes_ok (fst u) \<and> mil_ok (snd u)"

definition usim_vector :: "usim \<Rightarrow> bytes \<Rightarrow> int \<Rightarrow> bytes \<Rightarrow> (bytes \<times> bytes \<times> bytes \<times> bytes) res" where
  "usim_vector u = aka_vector (fst u) (snd u)"

definition usim_auth :: "usim \<Rightarrow> bytes \<Rightarrow> bytes \<Rightarrow> int \<Rightarrow> (bytes \<times> bytes \<times> bytes) option res" where
  "usim_auth u = authenticate (fst u) (snd u)"

lemmas usim_defs = usim_ok_def usim_vector_def usim_auth_def

lemma sqn_bytes: "sqn_ok sqn \<Longrightarrow> to_bytes_be 6 sqn = Inr (be_bytes 6 (nat sqn))"
  by (simp add: to_bytes_be_def sqn_ok_def)

lemma unpack_sqn_bytes: "sqn_ok sqn \<Longrightarrow> unpack (be_bytes 6 (nat sqn)) = sqn"
  by (rule unpack_pack) (simp_all add: sqn_ok_def)

lemma aka_vector_total:
  assumes "aes_ok aes" "mil_ok m" "length rand = 16" "sqn_ok sqn" "length amf = 2"
  obtains res ck ik ak mac where
    "f2345 aes m rand = Inr (res, ck, ik, ak)" "length ak = 6" "length mac = 8" "length res = 8"
    "length ck = 16" "length ik = 16" "f1 aes m rand (be_bytes 6 (nat sqn)) amf = Inr mac"
    "aka_vector aes m rand sqn amf = Inr (xor_bytes (be_bytes 6 (nat sqn)) ak @ amf @ mac, res, ck, ik)"
proof -
  obtain res ck ik ak where f: "f2345 aes m rand = Inr (res, ck, ik, ak)" "length ak = 6" "length res = 8"
      "length ck = 16" "length ik = 16"
    using f2345_total [OF assms(1-3)] by blast
  obtain mac where g: "f1 aes m rand (be_bytes 6 (nat sqn)) amf = Inr mac" "length mac = 8"
    using f1_total(1) [OF assms(1-3) _ assms(5), of "be_bytes 6 (nat sqn)"] by auto
  show thesis using f g
    by (intro that [of res ck ik ak mac]) (simp_all add: aka_vector_def sqn_bytes [OF assms(4)] Let_def)
qed

lemma authenticate_parts:
  assumes "length rand = 16" "length s = 6" "length amf = 2" "length mac = 8"
    and "f2345 aes m rand = Inr (res, ck, ik, ak)"
  shows "authenticate aes m rand (s @ amf @ mac) stored =
    rbind (f1 aes m rand (xor_bytes s ak) amf) (\<lambda>c.
      if c \<noteq> mac then Inr None else if unpack (xor_bytes s ak) < stored then Inr None
      else Inr (Some (res, ck, ik)))"
  using assms by (simp add: authenticate_def Let_def slice_def)

lemma split16:
  assumes "length autn = 16"
  obtains s amf mac where "autn = s @ amf @ mac" "length s = 6" "length amf = 2" "length mac = 8"
proof (rule that)
  show "autn = take 6 autn @ take 2 (drop 6 autn) @ drop 2 (drop 6 autn)"
    by (simp only: append_take_drop_id)
qed (simp_all add: assms)

lemma usim_auth_vector:
  assumes "usim_ok u" "rand_ok rand" "sqn_ok sqn" "length amf = 2"
    and v: "usim_vector u rand sqn amf = Inr (autn, keys)"
  shows "usim_auth u rand autn stored = Inr (if sqn < stored then None else Some keys)"
proof -
  have a: "aes_ok (fst u)" "mil_ok (snd u)" "length rand = 16" using assms by (simp_all add: usim_ok_def rand_ok_def)
  obtain res ck ik ak mac where f: "f2345 (fst u) (snd u) rand = Inr (res, ck, ik, ak)" "length ak = 6"
      "length mac = 8" "f1 (fst u) (snd u) rand (be_bytes 6 (nat sqn)) amf = Inr mac"
      "aka_vector (fst u) (snd u) rand sqn amf = Inr (xor_bytes (be_bytes 6 (nat sqn)) ak @ amf @ mac, res, ck, ik)"
    using aka_vector_total [OF a assms(3,4)] by metis
  with v have k: "autn = xor_bytes (be_bytes 6 (nat sqn)) ak @ amf @ mac" "keys = (res, ck, ik)"
    by (simp_all add: usim_vector_def)
  have x: "xor_bytes (xor_bytes (be_bytes 6 (nat sqn)) ak) ak = be_bytes 6 (nat sqn)"
    by (rule xor_bytes_cancel) (simp add: f(2))
  show ?thesis
    unfolding k(1) usim_auth_def
    by (subst authenticate_parts [OF a(3) _ assms(4) f(3,1)])
      (simp_all add: f(2,4) x unpack_sqn_bytes [OF assms(3)] k(2))
qed

lemma usim_auth_sound:
  assumes "usim_ok u" "rand_ok rand" and acc: "usim_auth u rand autn stored = Inr (Some keys)"
  shows "\<exists>sqn amf. sqn_ok sqn \<and> length amf = 2 \<and> stored \<le> sqn \<and> usim_vector u rand sqn amf = Inr (autn, keys)"
proof -
  have a: "aes_ok (fst u)" "mil_ok (snd u)" "length rand = 16" using assms by (simp_all add: usim_ok_def rand_ok_def)
  have "length autn = 16" using acc by (auto simp: usim_auth_def authenticate_def split: if_splits)
  then obtain s amf mac where p: "autn = s @ amf @ mac" "length s = 6" "length amf = 2" "length mac = 8"
    by (rule split16)
  obtain res ck ik ak where f: "f2345 (fst u) (snd u) rand = Inr (res, ck, ik, ak)" "length ak = 6"
    using f2345_total [OF a] by blast
  define sqn where "sqn = xor_bytes s ak"
  have l: "length sqn = 6" using p(2) f(2) by (simp add: sqn_def)
  have acc': "f1 (fst u) (snd u) rand sqn amf = Inr mac" "stored \<le> unpack sqn" "keys = (res, ck, ik)"
    using acc unfolding usim_auth_def p(1) authenticate_parts [OF a(3) p(2-4) f(1)] sqn_def [symmetric]
    by (auto simp: rbind_eq_Inr split: if_splits)
  have sq: "sqn_ok (unpack sqn)" using unpack_bound [of sqn] l by (simp add: sqn_ok_def)
  have b: "be_bytes 6 (nat (unpack sqn)) = sqn" using be_bytes_from_be [OF l] by (simp add: unpack_def)
  have "xor_bytes sqn ak = s" unfolding sqn_def by (rule xor_bytes_cancel) (simp add: p(2) f(2))
  then have "usim_vector u rand (unpack sqn) amf = Inr (autn, keys)"
    using f acc' p(1) sqn_bytes [OF sq] b by (simp add: usim_vector_def aka_vector_def)
  with sq p(3) acc'(2) show ?thesis by blast
qed

interpretation mil_aka: aka usim_ok usim_vector usim_auth
proof unfold_locales
  fix u rand sqn and amf :: bytes
  assume "usim_ok u" "rand_ok rand" "sqn_ok sqn" "length amf = 2"
  moreover then have a: "aes_ok (fst u)" "mil_ok (snd u)" "length rand = 16"
    by (simp_all add: usim_ok_def rand_ok_def)
  ultimately show "\<exists>autn res ck ik. usim_vector u rand sqn amf = Inr (autn, res, ck, ik) \<and> length autn = 16
      \<and> length res = 8 \<and> length ck = 16 \<and> length ik = 16"
    by (elim aka_vector_total [OF a]) (auto simp: usim_vector_def)
qed (fact usim_auth_vector usim_auth_sound)+

section \<open>What both sides agree on\<close>

text \<open>A concrete cipher and key set, for the witnesses: any function on 16-byte blocks will do.\<close>

definition sample_aes :: aes where
  "sample_aes k b = (if length k = 16 \<and> length b = 16 then Inr (xor_bytes k (rev b)) else Inl ValueError)"

definition sample_mil :: milenage where
  "sample_mil = \<lparr>mil_ki = map word_of_nat [0..<16], mil_opc = map word_of_nat [16..<32]\<rparr>"

definition sample_rand :: bytes where
  "sample_rand = map word_of_nat [100..<116]"

lemma sample_ok: "aes_ok sample_aes" "mil_ok sample_mil" "length sample_rand = 16" "sqn_ok 32"
    "length ([128, 0] :: bytes) = 2"
  by (simp_all add: aes_ok_def sample_aes_def mil_ok_def sample_mil_def sample_rand_def sqn_ok_def)

text \<open>
  C7: the card accepts a vector the network built from the same Ki and OPc exactly when the
  vector's sequence number is not below the stored one, and then returns the network's RES, CK
  and IK.
\<close>

theorem authenticate_aka_vector:
  assumes "aes_ok aes" "mil_ok m" "length rand = 16" "sqn_ok sqn" "length amf = 2"
    and "aka_vector aes m rand sqn amf = Inr (autn, keys)"
  shows "authenticate aes m rand autn stored = Inr (if sqn < stored then None else Some keys)"
  using assms mil_aka.auth_vector [of "(aes, m)" rand sqn amf autn keys stored]
  by (simp add: usim_defs rand_ok_def)

lemma sample_vector: "\<exists>autn keys. aka_vector sample_aes sample_mil sample_rand 32 [128, 0] = Inr (autn, keys)"
  using aka_vector_total [OF sample_ok] by metis

theorem authenticate_aka_vector_witness:
  "\<exists>autn keys. aka_vector sample_aes sample_mil sample_rand 32 [128, 0] = Inr (autn, keys)
     \<and> authenticate sample_aes sample_mil sample_rand autn 32 = Inr (Some keys)
     \<and> authenticate sample_aes sample_mil sample_rand autn 33 = Inr None"
  using sample_vector authenticate_aka_vector [OF sample_ok] by fastforce

text \<open>
  C25: what the card accepts was built by someone who can compute the network's vector: there is a
  sequence number at least as large as the stored one and an AMF for which the network side, with
  the same keys, produces this AUTN and the keys the card returned.
\<close>

theorem authenticate_sound:
  assumes "aes_ok aes" "mil_ok m" "length rand = 16"
    and "authenticate aes m rand autn stored = Inr (Some keys)"
  shows "\<exists>sqn amf. sqn_ok sqn \<and> length amf = 2 \<and> stored \<le> sqn
           \<and> aka_vector aes m rand sqn amf = Inr (autn, keys)"
  using assms mil_aka.auth_sound [of "(aes, m)" rand autn stored keys]
  by (simp add: usim_defs rand_ok_def)

theorem authenticate_sound_witness:
  "\<exists>autn keys sqn amf. authenticate sample_aes sample_mil sample_rand autn 5 = Inr (Some keys)
     \<and> sqn_ok sqn \<and> length amf = 2 \<and> 5 \<le> sqn
     \<and> aka_vector sample_aes sample_mil sample_rand sqn amf = Inr (autn, keys)"
proof -
  obtain autn keys where v: "aka_vector sample_aes sample_mil sample_rand 32 [128, 0] = Inr (autn, keys)"
    using sample_vector by blast
  have "authenticate sample_aes sample_mil sample_rand autn 5 = Inr (Some keys)"
    using mil_aka.accepts [of "(sample_aes, sample_mil)" sample_rand 32 "[128, 0]" autn keys 5] v sample_ok
    by (simp add: usim_defs rand_ok_def)
  then show ?thesis using authenticate_sound [OF sample_ok(1-3)] by blast
qed

text \<open>
  Resynchronisation. For every stored sequence number of 48 bits the card's AUTS has 14 bytes,
  removing AK* from its first six bytes gives the sequence number back, and its last eight bytes
  are the MAC-S the network computes for that number with a zero AMF.
\<close>

theorem generate_auts_resync:
  assumes "aes_ok aes" "mil_ok m" "length rand = 16" "sqn_ok sqn"
  shows "\<exists>auts ak. generate_auts aes m rand sqn = Inr auts \<and> length auts = 14
    \<and> f5star aes m rand = Inr ak \<and> unpack (xor_bytes (take 6 auts) ak) = sqn
    \<and> f1star aes m rand (xor_bytes (take 6 auts) ak) (replicate 2 0) = Inr (drop 6 auts)"
proof -
  obtain ak where ak: "f5star aes m rand = Inr ak" "length ak = 6"
    using f5star_total [OF assms(1-3)] by blast
  define s where "s = be_bytes 6 (nat sqn)"
  obtain mac where mac: "f1star aes m rand s (replicate 2 0) = Inr mac" "length mac = 8"
    using f1_total(2) [OF assms(1-3), of s "replicate 2 0"] by (auto simp: s_def)
  have x: "xor_bytes (xor_bytes s ak) ak = s"
    by (rule xor_bytes_cancel) (simp add: s_def ak(2))
  have t: "take 6 (xor_bytes s ak @ mac) = xor_bytes s ak" "drop 6 (xor_bytes s ak @ mac) = mac"
    by (simp_all add: s_def ak(2))
  have g: "generate_auts aes m rand sqn = Inr (xor_bytes s ak @ mac)"
    using ak(1) mac(1) by (simp add: generate_auts_def sqn_bytes [OF assms(4)] s_def)
  have u: "unpack s = sqn" unfolding s_def by (rule unpack_sqn_bytes [OF assms(4)])
  have l: "length (xor_bytes s ak @ mac) = 14" by (simp add: s_def ak(2) mac(2))
  show ?thesis
    by (intro exI [of _ "xor_bytes s ak @ mac"] exI [of _ ak] conjI)
      (simp_all only: g l ak(1) t x u mac(1))
qed

theorem generate_auts_resync_witness:
  "\<exists>auts ak. generate_auts sample_aes sample_mil sample_rand 32 = Inr auts
     \<and> f5star sample_aes sample_mil sample_rand = Inr ak \<and> unpack (xor_bytes (take 6 auts) ak) = 32"
  using generate_auts_resync [OF sample_ok(1-4)] by blast

end
