(* ===== verification/Apdu.thy ===== *)
theory Apdu
  imports Euicc Aka
begin

text \<open>
  \<^verbatim>\<open>euicc/apdu/handler.py\<close>: the ISO 7816-4 command and response formats, the elementary files of
  the active profile and the command handler, whose state is the eUICC, the selected file and the
  pending response. AES is the parameter of the Milenage theory. A handler that raises leaves the
  state as it was (every modelled handler raises before it writes), so it returns the new state
  with the response, or the exception that \<^verbatim>\<open>process\<close> turns into 6F00.
\<close>

section \<open>Commands and responses\<close>

record apdu =
  cla :: int
  ins :: int
  p1 :: int
  p2 :: int
  cdata :: bytes
  le :: int

record response =
  rdata :: bytes
  sw1 :: int
  sw2 :: int

text \<open>\<^verbatim>\<open>raw[4] or 256\<close>: a zero Le byte asks for 256 bytes.\<close>

definition le_of :: "byte \<Rightarrow> int" where
  "le_of b = (if uint b \<noteq> 0 then uint b else 256)"

definition apdu_from_bytes :: "bytes \<Rightarrow> apdu res" where
  "apdu_from_bytes raw =
     (if length raw < 4 then Inl ValueError
      else let c = \<lparr>cla = uint (raw ! 0), ins = uint (raw ! 1), p1 = uint (raw ! 2), p2 = uint (raw ! 3),
                    cdata = [], le = 0\<rparr>
        in if length raw = 4 then Inr c
           else if length raw = 5 then Inr (c\<lparr>le := le_of (raw ! 4)\<rparr>)
           else let lc = unat (raw ! 4); d = slice raw 5 (5 + lc)
             in Inr (c\<lparr>cdata := d, le := (if length raw > 5 + lc then le_of (raw ! (5 + lc)) else 0)\<rparr>))"

definition apdu_to_bytes :: "apdu \<Rightarrow> bytes res" where
  "apdu_to_bytes c =
     rbind (rmap mk_byte [cla c, ins c, p1 c, p2 c]) (\<lambda>header.
     if cdata c \<noteq> [] then rbind (mk_byte (int (length (cdata c)))) (\<lambda>lc. Inr (header @ [lc] @ cdata c))
     else if le c \<noteq> 0 then rbind (mk_byte (le c AND 255)) (\<lambda>l. Inr (header @ [l]))
     else Inr header)"

definition response_to_bytes :: "response \<Rightarrow> bytes res" where
  "response_to_bytes r = rbind (rmap mk_byte [sw1 r, sw2 r]) (\<lambda>sw. Inr (rdata r @ sw))"

definition is_success :: "response \<Rightarrow> bool" where
  "is_success r \<longleftrightarrow> sw1 r = 144 \<and> sw2 r = 0"

type_synonym sw = "int \<times> int"

definition respond :: "bytes \<Rightarrow> sw \<Rightarrow> response" where
  "respond d sw = \<lparr>rdata = d, sw1 = fst sw, sw2 = snd sw\<rparr>"

definition SW_OK :: sw where "SW_OK = (144, 0)"
definition SW_NOT_FOUND :: sw where "SW_NOT_FOUND = (106, 130)"
definition SW_WRONG_P1P2 :: sw where "SW_WRONG_P1P2 = (106, 134)"
definition SW_WRONG_LENGTH :: sw where "SW_WRONG_LENGTH = (103, 0)"
definition SW_CONDITIONS_NOT_SATISFIED :: sw where "SW_CONDITIONS_NOT_SATISFIED = (105, 133)"
definition SW_INS_NOT_SUPPORTED :: sw where "SW_INS_NOT_SUPPORTED = (109, 0)"
definition SW_INTERNAL_ERROR :: sw where "SW_INTERNAL_ERROR = (111, 0)"

lemmas sw_defs = SW_OK_def SW_NOT_FOUND_def SW_WRONG_P1P2_def SW_WRONG_LENGTH_def
  SW_CONDITIONS_NOT_SATISFIED_def SW_INS_NOT_SUPPORTED_def SW_INTERNAL_ERROR_def

section \<open>Elementary files\<close>

definition encode_imsi :: "string \<Rightarrow> bytes res" where
  "encode_imsi s =
     rbind (mk_byte ((int (length s) + 1) div 2 + 1)) (\<lambda>len.
     let parity = length s mod 2 in
     rbind (case s of [] \<Rightarrow> Inr 0 | c # _ \<Rightarrow> int_char c) (\<lambda>first.
     rbind (encode_bcd (drop 1 s)) (\<lambda>rest.
     Inr (len # word_of_nat ((if parity \<noteq> 0 then 9 else 1) OR push_bit 4 first) # rest))))"

text \<open>\<^verbatim>\<open>s.ljust(n, c)\<close>.\<close>

definition ljust :: "nat \<Rightarrow> 'a \<Rightarrow> 'a list \<Rightarrow> 'a list" where
  "ljust n c s = s @ replicate (n - length s) c"

definition nibble :: "char \<Rightarrow> nat res" where
  "nibble c = (if c = CHR ''f'' \<or> c = CHR ''F'' then Inr 15 else int_char c)"

definition encode_plmn :: "string \<Rightarrow> string \<Rightarrow> bytes res" where
  "encode_plmn v_mcc v_mnc =
     (let m = ljust 3 (CHR ''F'') v_mcc; n = ljust 3 (CHR ''F'') v_mnc in
     rbind (nibble (m ! 1)) (\<lambda>m1. rbind (nibble (m ! 0)) (\<lambda>m0.
     rbind (nibble (n ! 2)) (\<lambda>n2. rbind (nibble (m ! 2)) (\<lambda>m2.
     rbind (nibble (n ! 1)) (\<lambda>n1. rbind (nibble (n ! 0)) (\<lambda>n0.
     Inr [semi_octet m0 m1, semi_octet m2 n2, semi_octet n0 n1])))))))"

text \<open>\<^verbatim>\<open>s.lstrip("+")\<close>.\<close>

definition lstrip_plus :: "string \<Rightarrow> string" where
  "lstrip_plus s = dropWhile (\<lambda>c. c = CHR ''+'') s"

definition encode_msisdn :: "string option \<Rightarrow> bytes res" where
  "encode_msisdn m =
     (if \<not> truthy m then Inr (replicate 14 255)
      else let s = the m; number = lstrip_plus s; ton_npi = (if hd s = CHR ''+'' then 145 else 129)
        in rbind (encode_bcd number) (\<lambda>bcd.
           rbind (mk_byte (int (length bcd) + 1)) (\<lambda>bcd_len. Inr (bcd_len # ton_npi # bcd))))"

definition EF_IMSI :: int where "EF_IMSI = 0x6F07"
definition EF_ICCID :: int where "EF_ICCID = 0x2FE2"
definition EF_SPN :: int where "EF_SPN = 0x6F46"
definition EF_MSISDN :: int where "EF_MSISDN = 0x6F40"
definition EF_HPLMN :: int where "EF_HPLMN = 0x6F31"
definition EF_AD :: int where "EF_AD = 0x6FAD"
definition EF_DOMAIN :: int where "EF_DOMAIN = 0x6F03"
definition EF_IMPI :: int where "EF_IMPI = 0x6F02"
definition EF_IMPU :: int where "EF_IMPU = 0x6F04"

lemmas ef_ids = EF_IMSI_def EF_ICCID_def EF_SPN_def EF_MSISDN_def EF_HPLMN_def EF_AD_def
  EF_DOMAIN_def EF_IMPI_def EF_IMPU_def

text \<open>\<^verbatim>\<open>None.encode()\<close> is an AttributeError.\<close>

definition encode_opt :: "string option \<Rightarrow> bytes res" where
  "encode_opt s = (case s of None \<Rightarrow> Inl AttributeError | Some t \<Rightarrow> Inr (utf8 t))"

text \<open>The whole table is computed before the file is looked up.\<close>

definition ef_table :: "isdp \<Rightarrow> (int \<times> bytes) list res" where
  "ef_table p =
     rbind (encode_imsi (imsi p)) (\<lambda>f_imsi.
     rbind (encode_bcd (iccid p)) (\<lambda>f_iccid.
     let f_spn = ljust 16 255 (utf8 (spn p)) in
     rbind (encode_msisdn (msisdn p)) (\<lambda>f_msisdn.
     rbind (encode_plmn (mcc p) (mnc p)) (\<lambda>f_hplmn.
     rbind (rmap mk_byte [0, 0, int (length (mnc p)), 0]) (\<lambda>f_ad.
     let isim = get_isim_data p in
     rbind (encode_opt (isim_impi isim)) (\<lambda>f_impi.
     rbind (encode_opt (isim_impu isim)) (\<lambda>f_impu.
     rbind (encode_opt (isim_domain isim)) (\<lambda>f_domain.
     Inr [(EF_IMSI, f_imsi), (EF_ICCID, f_iccid), (EF_SPN, f_spn), (EF_MSISDN, f_msisdn), (EF_HPLMN, f_hplmn),
          (EF_AD, f_ad), (EF_IMPI, f_impi), (EF_IMPU, f_impu), (EF_DOMAIN, f_domain)]))))))))"

definition read_ef :: "int \<Rightarrow> isdp \<Rightarrow> bytes option res" where
  "read_ef file_id p = rbind (ef_table p) (\<lambda>t. Inr (map_of t file_id))"

section \<open>The handler\<close>

record handler =
  h_euicc :: euicc
  selected_ef :: "int option"
  pending_response :: "bytes option"

definition new_handler :: "euicc \<Rightarrow> handler" where
  "new_handler e = \<lparr>h_euicc = e, selected_ef = None, pending_response = None\<rparr>"

type_synonym outcome = "(handler \<times> response) res"

definition handle_select :: "apdu \<Rightarrow> handler \<Rightarrow> outcome" where
  "handle_select c h =
     (if p1 c = 4 then Inr (h, respond [] SW_OK)
      else if p1 c = 0 \<and> length (cdata c) \<ge> 2
      then let file_id = (push_bit 8 (uint (cdata c ! 0))) OR uint (cdata c ! 1)
           in Inr (h\<lparr>selected_ef := Some file_id\<rparr>, respond [] SW_OK)
      else Inr (h, respond [] SW_WRONG_P1P2))"

definition handle_read_binary :: "apdu \<Rightarrow> handler \<Rightarrow> outcome" where
  "handle_read_binary c h =
     (case selected_ef h of None \<Rightarrow> Inr (h, respond [] SW_CONDITIONS_NOT_SATISFIED)
      | Some ef \<Rightarrow> (case get_active_profile (h_euicc h) of
           None \<Rightarrow> Inr (h, respond [] SW_CONDITIONS_NOT_SATISFIED)
         | Some profile \<Rightarrow> rbind (read_ef ef profile) (\<lambda>data. case data of
              None \<Rightarrow> Inr (h, respond [] SW_NOT_FOUND)
            | Some d \<Rightarrow>
                let offset = nat ((push_bit 8 (p1 c)) OR p2 c); d1 = drop offset d;
                    d2 = (if le c > 0 then take (nat (le c)) d1 else d1)
                in Inr (h, respond d2 SW_OK))))"

definition handle_read_record :: "apdu \<Rightarrow> handler \<Rightarrow> outcome" where
  "handle_read_record c h =
     (case selected_ef h of None \<Rightarrow> Inr (h, respond [] SW_CONDITIONS_NOT_SATISFIED)
      | Some ef \<Rightarrow> (case get_active_profile (h_euicc h) of
           None \<Rightarrow> Inr (h, respond [] SW_CONDITIONS_NOT_SATISFIED)
         | Some profile \<Rightarrow> rbind (read_ef ef profile) (\<lambda>data. case data of
              None \<Rightarrow> Inr (h, respond [] SW_NOT_FOUND)
            | Some d \<Rightarrow> Inr (h, respond d SW_OK))))"

definition handle_get_response :: "apdu \<Rightarrow> handler \<Rightarrow> outcome" where
  "handle_get_response c h =
     (case pending_response h of None \<Rightarrow> Inr (h, respond [] SW_CONDITIONS_NOT_SATISFIED)
      | Some d \<Rightarrow> Inr (h\<lparr>pending_response := None\<rparr>, respond d SW_OK))"

definition handle_status :: "apdu \<Rightarrow> handler \<Rightarrow> outcome" where
  "handle_status c h =
     (let info = utf8 (py_repr (JObj (get_euicc_info (h_euicc h))))
      in Inr (h, respond (take (nat (if le c \<noteq> 0 then le c else 256)) info) SW_OK))"

definition handle_authenticate :: "aes \<Rightarrow> apdu \<Rightarrow> handler \<Rightarrow> outcome" where
  "handle_authenticate aes c h =
     (case get_active_profile (h_euicc h) of None \<Rightarrow> Inr (h, respond [] SW_CONDITIONS_NOT_SATISFIED)
      | Some profile \<Rightarrow>
        if length (cdata c) < 34 then Inr (h, respond [] SW_WRONG_LENGTH)
        else let context_tag = uint (cdata c ! 0); rand_len = unat (cdata c ! 1);
                 rand_val = slice (cdata c) 2 (2 + rand_len) in
        if context_tag = 128 \<and> length (cdata c) \<ge> 2 + rand_len + 2 then
          let autn_offset = 2 + rand_len in
          rbind (idx (cdata c) autn_offset) (\<lambda>al.
          let autn_len = unat al; autn = slice (cdata c) (autn_offset + 1) (autn_offset + 1 + autn_len) in
          rbind (fromhex (ki profile)) (\<lambda>v_ki.
          rbind (fromhex (opc profile)) (\<lambda>v_opc.
          rbind (mil_init v_ki v_opc) (\<lambda>mil.
          rbind (authenticate aes mil rand_val autn (sqn profile)) (\<lambda>result.
          case result of
            None \<Rightarrow>
              rbind (generate_auts aes mil rand_val (sqn profile)) (\<lambda>auts.
              rbind (mk_byte (int (length auts))) (\<lambda>l. Inr (h, respond (220 # l # auts) SW_OK)))
          | Some (res, ck, ik) \<Rightarrow>
              rbind (mk_byte (int (length res))) (\<lambda>lr. rbind (mk_byte (int (length ck))) (\<lambda>lc.
              rbind (mk_byte (int (length ik))) (\<lambda>li.
              Inr (h\<lparr>h_euicc := set_active_profile (increment_sqn profile) (h_euicc h)\<rparr>,
                   respond ([219, lr] @ res @ [lc] @ ck @ [li] @ ik) SW_OK)))))))))
        else
          rbind (fromhex (ki profile)) (\<lambda>v_ki.
          rbind (fromhex (opc profile)) (\<lambda>v_opc.
          rbind (mil_init v_ki v_opc) (\<lambda>mil.
          rbind (gsm_authenticate aes mil rand_val) (\<lambda>(sres, kc).
          rbind (mk_byte (int (length sres))) (\<lambda>ls. rbind (mk_byte (int (length kc))) (\<lambda>lk.
          Inr (h, respond ([ls] @ sres @ [lk] @ kc) SW_OK))))))))"

definition handle_store_data :: "apdu \<Rightarrow> handler \<Rightarrow> outcome" where
  "handle_store_data c h = Inr (h, respond [] SW_OK)"

definition dispatch_apdu :: "aes \<Rightarrow> apdu \<Rightarrow> handler \<Rightarrow> outcome" where
  "dispatch_apdu aes c h =
     (if ins c = 0xA4 then handle_select c h
      else if ins c = 0xB0 then handle_read_binary c h
      else if ins c = 0xB2 then handle_read_record c h
      else if ins c = 0xC0 then handle_get_response c h
      else if ins c = 0xF2 then handle_status c h
      else if ins c = 0x88 then handle_authenticate aes c h
      else if ins c = 0xE2 then handle_store_data c h
      else Inr (h, respond [] SW_INS_NOT_SUPPORTED))"

definition process_apdu :: "aes \<Rightarrow> bytes \<Rightarrow> handler \<Rightarrow> handler \<times> response" where
  "process_apdu aes raw h =
     (case apdu_from_bytes raw of Inl _ \<Rightarrow> (h, respond [] SW_WRONG_LENGTH)
      | Inr c \<Rightarrow> (case dispatch_apdu aes c h of
           Inl _ \<Rightarrow> (h, respond [] SW_INTERNAL_ERROR)
         | Inr (h', r) \<Rightarrow> (h', r)))"

section \<open>Formats\<close>

definition apdu_ok :: "apdu \<Rightarrow> bool" where
  "apdu_ok c \<longleftrightarrow> (\<forall>x \<in> {cla c, ins c, p1 c, p2 c}. 0 \<le> x \<and> x < 256) \<and> length (cdata c) < 256
     \<and> 0 \<le> le c \<and> le c \<le> 256"

lemma le_of_masked: "0 \<le> l \<Longrightarrow> l \<le> 256 \<Longrightarrow> l \<noteq> 0 \<Longrightarrow> le_of (word_of_int (l AND 255)) = l"
proof -
  assume l: "0 \<le> l" "l \<le> 256" "l \<noteq> 0"
  have u: "uint (word_of_int (l mod 256) :: byte) = l mod 256" by (simp add: uint_word_of_int)
  show ?thesis
  proof (cases "l = 256")
    case False
    then have "l mod 256 = l" using l by simp
    with u l show ?thesis by (simp add: le_of_def bits)
  qed (simp add: le_of_def bits)
qed

text \<open>
  Every command whose fields fit is serialised, and parsing gives it back, with one exception:
  a command that carries both data and an expected length loses the expected length.
\<close>

theorem apdu_roundtrip:
  assumes "apdu_ok c"
  shows "\<exists>raw. apdu_to_bytes c = Inr raw
    \<and> apdu_from_bytes raw = Inr (c\<lparr>le := (if cdata c \<noteq> [] then 0 else le c)\<rparr>)"
proof -
  have h: "rmap mk_byte [cla c, ins c, p1 c, p2 c]
      = Inr [word_of_int (cla c), word_of_int (ins c), word_of_int (p1 c), word_of_int (p2 c)]"
    using assms by (simp add: apdu_ok_def mk_byte_def)
  have u: "uint (word_of_int (cla c) :: byte) = cla c" "uint (word_of_int (ins c) :: byte) = ins c"
    "uint (word_of_int (p1 c) :: byte) = p1 c" "uint (word_of_int (p2 c) :: byte) = p2 c"
    using assms by (simp_all add: apdu_ok_def uint_byte_of_int)
  show ?thesis
  proof (cases "cdata c = []")
    case False
    have l: "mk_byte (int (length (cdata c))) = Inr (word_of_nat (length (cdata c)))"
      "unat (word_of_nat (length (cdata c)) :: byte) = length (cdata c)"
      using assms by (simp_all add: apdu_ok_def mk_byte_def unat_byte_of_nat)
    have n: "length (cdata c) > 0" using False by simp
    from False h l n show ?thesis
      by (simp add: apdu_to_bytes_def apdu_from_bytes_def u Let_def slice_def)
  next
    case True
    have m: "mk_byte (le c AND 255) = Inr (word_of_int (le c AND 255))"
      by (simp add: mk_byte_def bits)
    have "le_of (word_of_int (le c AND 255)) = le c" if "le c \<noteq> 0"
      using le_of_masked [of "le c"] that assms by (simp add: apdu_ok_def)
    with True h m show ?thesis by (simp add: apdu_to_bytes_def apdu_from_bytes_def u Let_def)
  qed
qed

definition sample_apdu :: apdu where
  "sample_apdu = \<lparr>cla = 0, ins = 0xA4, p1 = 0, p2 = 4, cdata = [0x6F, 0x07], le = 256\<rparr>"

theorem apdu_roundtrip_witness:
  "\<exists>raw. apdu_to_bytes sample_apdu = Inr raw \<and> apdu_from_bytes raw = Inr (sample_apdu\<lparr>le := 0\<rparr>)"
  using apdu_roundtrip [of sample_apdu] by (simp add: apdu_ok_def sample_apdu_def)

section \<open>Every command is answered\<close>

named_theorems handlers "the definitions of the command handlers"

lemmas [handlers] = handle_select_def handle_read_binary_def handle_read_record_def
  handle_get_response_def handle_status_def handle_authenticate_def handle_store_data_def

lemma respond_simps [simp]: "rdata (respond d sw) = d" "sw1 (respond d sw) = fst sw" "sw2 (respond d sw) = snd sw"
  by (simp_all add: respond_def)

lemma dispatch_outcome:
  assumes "dispatch_apdu aes c h = Inr (h', r)"
  shows "\<exists>sw \<in> {SW_OK, SW_NOT_FOUND, SW_WRONG_P1P2, SW_WRONG_LENGTH, SW_CONDITIONS_NOT_SATISFIED, SW_INS_NOT_SUPPORTED}.
           \<exists>d. r = respond d sw \<and> (sw \<noteq> SW_OK \<longrightarrow> h' = h \<and> d = [])"
  using assms unfolding dispatch_apdu_def
  by (auto simp: handlers rbind_eq_Inr Let_def split: if_splits option.splits prod.splits)

lemma apdu_from_bytes_raises: "apdu_from_bytes raw = Inl e \<longleftrightarrow> length raw < 4 \<and> e = ValueError"
  by (auto simp: apdu_from_bytes_def Let_def)

text \<open>
  C30: every byte string is answered with a response that serialises. If its status is not 9000
  the response carries no data and the card and the handler are unchanged. A command shorter than
  four bytes is answered 6700, an instruction without a handler 6D00.
\<close>

theorem process_apdu_answers:
  "\<exists>h' r bs. process_apdu aes raw h = (h', r) \<and> response_to_bytes r = Inr bs
     \<and> (is_success r \<or> h' = h \<and> rdata r = [])
     \<and> (if length raw < 4 then r = respond [] SW_WRONG_LENGTH
        else uint (raw ! 1) \<in> {0xA4, 0xB0, 0xB2, 0xC0, 0xF2, 0x88, 0xE2} \<or> r = respond [] SW_INS_NOT_SUPPORTED)"
proof (cases "apdu_from_bytes raw")
  case (Inl e)
  then have "process_apdu aes raw h = (h, respond [] SW_WRONG_LENGTH)" "length raw < 4"
    by (simp add: process_apdu_def, simp add: apdu_from_bytes_raises)
  then show ?thesis by (simp add: response_to_bytes_def sw_defs mk_byte_def)
next
  case (Inr c)
  then have l: "\<not> length raw < 4" and i: "ins c = uint (raw ! 1)"
    by (auto simp: apdu_from_bytes_def Let_def split: if_splits)
  show ?thesis
  proof (cases "dispatch_apdu aes c h")
    case d: (Inl e)
    then have "ins c \<in> {0xA4, 0xB0, 0xB2, 0xC0, 0xF2, 0x88, 0xE2}"
      by (auto simp: dispatch_apdu_def split: if_splits)
    then show ?thesis using Inr d l i
      by (simp add: process_apdu_def response_to_bytes_def sw_defs mk_byte_def)
  next
    case d: (Inr y)
    obtain h' r where y: "y = (h', r)" by (cases y)
    have n: "ins c \<in> {0xA4, 0xB0, 0xB2, 0xC0, 0xF2, 0x88, 0xE2} \<or> r = respond [] SW_INS_NOT_SUPPORTED"
      using d y by (auto simp: dispatch_apdu_def split: if_splits)
    obtain sw x where "r = respond x sw" "sw \<noteq> SW_OK \<longrightarrow> h' = h \<and> x = []"
        "sw \<in> {SW_OK, SW_NOT_FOUND, SW_WRONG_P1P2, SW_WRONG_LENGTH, SW_CONDITIONS_NOT_SATISFIED, SW_INS_NOT_SUPPORTED}"
      using dispatch_outcome d y by blast
    then have "\<exists>bs. response_to_bytes r = Inr bs" "is_success r \<or> h' = h \<and> rdata r = []"
      by (auto simp: response_to_bytes_def is_success_def sw_defs mk_byte_def)
    with Inr d y l i n show ?thesis by (auto simp: process_apdu_def)
  qed
qed

section \<open>Authentication through the card\<close>

text \<open>
  The AUTHENTICATE command of a network that knows the subscriber's keys, and a card whose active
  profile \<open>p\<close> holds them in hexadecimal.
\<close>

definition auth_apdu :: "bytes \<Rightarrow> bytes \<Rightarrow> bytes" where
  "auth_apdu rand autn = [0, 0x88, 0, 0x81, 35, 0x80, 16] @ rand @ [16] @ autn"

definition holds_keys :: "isdp \<Rightarrow> milenage \<Rightarrow> bool" where
  "holds_keys p m \<longleftrightarrow> fromhex (ki p) = Inr (mil_ki m) \<and> fromhex (opc p) = Inr (mil_opc m)"

definition db_response :: "bytes \<times> bytes \<times> bytes \<Rightarrow> response" where
  "db_response keys = (case keys of (res, ck, ik) \<Rightarrow> respond ([0xDB, 8] @ res @ [16] @ ck @ [16] @ ik) SW_OK)"

definition dc_response :: "bytes \<Rightarrow> response" where
  "dc_response auts = respond ([0xDC, 14] @ auts) SW_OK"

lemma auth_apdu_parse:
  assumes "length rand = 16" "length autn = 16"
  shows "\<exists>c. apdu_from_bytes (auth_apdu rand autn) = Inr c \<and> ins c = 0x88
    \<and> cdata c = [0x80, 16] @ rand @ [16] @ autn"
  using assms by (simp add: auth_apdu_def apdu_from_bytes_def Let_def slice_def)

definition auth_outcome :: "aes \<Rightarrow> milenage \<Rightarrow> bytes \<Rightarrow> isdp \<Rightarrow> (bytes \<times> bytes \<times> bytes) option \<Rightarrow> handler \<Rightarrow> outcome" where
  "auth_outcome aes m rand p result h = (case result of
     None \<Rightarrow>
       rbind (generate_auts aes m rand (sqn p)) (\<lambda>auts.
       rbind (mk_byte (int (length auts))) (\<lambda>l. Inr (h, respond (220 # l # auts) SW_OK)))
   | Some (res, ck, ik) \<Rightarrow>
       rbind (mk_byte (int (length res))) (\<lambda>lr. rbind (mk_byte (int (length ck))) (\<lambda>lc.
       rbind (mk_byte (int (length ik))) (\<lambda>li.
       Inr (h\<lparr>h_euicc := set_active_profile (increment_sqn p) (h_euicc h)\<rparr>,
            respond ([219, lr] @ res @ [lc] @ ck @ [li] @ ik) SW_OK)))))"

lemma process_auth:
  assumes "length rand = 16" "length autn = 16" "get_active_profile (h_euicc h) = Some p" "holds_keys p m" "mil_ok m"
    and "authenticate aes m rand autn (sqn p) = Inr result"
  shows "process_apdu aes (auth_apdu rand autn) h =
    (case auth_outcome aes m rand p result h of Inl _ \<Rightarrow> (h, respond [] SW_INTERNAL_ERROR) | Inr (h', r) \<Rightarrow> (h', r))"
proof -
  obtain c where c: "apdu_from_bytes (auth_apdu rand autn) = Inr c" "ins c = 0x88"
      "cdata c = [0x80, 16] @ rand @ [16] @ autn"
    using auth_apdu_parse [OF assms(1,2)] by blast
  have data: "length (cdata c) = 35" "cdata c ! 0 = 0x80" "cdata c ! Suc 0 = 16" "slice (cdata c) 2 18 = rand"
    "cdata c ! 18 = 16" "slice (cdata c) 19 35 = autn"
    using assms(1,2) unfolding c(3) by (simp_all add: slice_def nth_append)
  have m: "mil_init (mil_ki m) (mil_opc m) = Inr m" using assms(5) by (simp add: mil_init_def mil_ok_def)
  have "dispatch_apdu aes c h = auth_outcome aes m rand p result h"
    using assms(3,4,6)
    by (simp add: dispatch_apdu_def c(2) handle_authenticate_def data holds_keys_def m idx_def auth_outcome_def
        split: option.split)
  then show ?thesis by (simp add: process_apdu_def c(1))
qed

lemma auts_shape:
  assumes "aes_ok aes" "mil_ok m" "length rand = 16" "sqn_ok s"
  shows "\<exists>auts. generate_auts aes m rand s = Inr auts \<and> length auts = 14"
proof -
  obtain ak where "f5star aes m rand = Inr ak" "length ak = 6"
    using f5star_total [OF assms(1-3)] by blast
  moreover obtain mac where "f1star aes m rand (be_bytes 6 (nat s)) (replicate 2 0) = Inr mac" "length mac = 8"
    using f1_total(2) [OF assms(1-3), of "be_bytes 6 (nat s)" "replicate 2 0"] by auto
  ultimately show ?thesis by (simp add: generate_auts_def sqn_bytes [OF assms(4)])
qed

text \<open>The handler does not look at P1 and P2.\<close>

lemma auth_parameters: "process_apdu aes ([0, 0x88, a, b] @ x # y) h = process_apdu aes ([0, 0x88, 0, 0x81] @ x # y) h"
proof -
  have "(p # q # r # s # x # y) ! (5 + n) = y ! n" for p q r s :: byte and n by (simp add: eval_nat_numeral)
  moreover define f where "f d l = handle_authenticate aes \<lparr>cla = 0, ins = 136, p1 = 0, p2 = 0, cdata = d, le = l\<rparr> h" for d l
  have "handle_authenticate aes \<lparr>cla = 0, ins = 136, p1 = p, p2 = q, cdata = d, le = l\<rparr> h = f d l" for p q d l
    unfolding handle_authenticate_def f_def apdu.select_convs ..
  ultimately show ?thesis
    by (simp add: process_apdu_def apdu_from_bytes_def Let_def slice_def dispatch_apdu_def)
qed

lemma process_auth_vector:
  assumes u: "aes_ok aes" "mil_ok m" "length rand = 16" and s: "sqn_ok s" "length amf = 2"
    and v: "aka_vector aes m rand s amf = Inr (autn, keys)"
    and p: "get_active_profile (h_euicc h) = Some p" "holds_keys p m"
  shows "sqn p \<le> s \<Longrightarrow> process_apdu aes (auth_apdu rand autn) h =
      (h\<lparr>h_euicc := set_active_profile (increment_sqn p) (h_euicc h)\<rparr>, db_response keys)"
    and "s < sqn p \<Longrightarrow> sqn_ok (sqn p) \<Longrightarrow> \<exists>auts. generate_auts aes m rand (sqn p) = Inr auts \<and>
      process_apdu aes (auth_apdu rand autn) h = (h, dc_response auts)"
proof -
  note k = u(1,2) u(3)
  have us: "usim_ok (aes, m)" "rand_ok rand" using u by (simp_all add: usim_ok_def rand_ok_def)
  have v': "usim_vector (aes, m) rand s amf = Inr (autn, keys)" using v by (simp add: usim_vector_def)
  obtain res ck ik where keys: "keys = (res, ck, ik)" "length autn = 16" "length res = 8" "length ck = 16" "length ik = 16"
    using mil_aka.vector_total [OF us s] v' by auto
  have a: "authenticate aes m rand autn (sqn p) = Inr (if s < sqn p then None else Some keys)"
    using mil_aka.auth_vector [OF us s v'] by (simp add: usim_auth_def)
  note pr = process_auth [OF u(3) keys(2) p u(2) a]
  show "process_apdu aes (auth_apdu rand autn) h =
      (h\<lparr>h_euicc := set_active_profile (increment_sqn p) (h_euicc h)\<rparr>, db_response keys)" if "sqn p \<le> s"
    using that by (simp add: pr auth_outcome_def keys mk_byte_def db_response_def)
  show "\<exists>auts. generate_auts aes m rand (sqn p) = Inr auts \<and>
      process_apdu aes (auth_apdu rand autn) h = (h, dc_response auts)" if "s < sqn p" "sqn_ok (sqn p)"
    using that auts_shape [OF u that(2)] by (auto simp: pr auth_outcome_def mk_byte_def dc_response_def)
qed

lemma active_after_bump:
  assumes "get_active_profile e = Some p"
  shows "get_active_profile (set_active_profile q e) = Some q"
  using assms by (auto simp: get_active_profile_def set_active_profile_def split: if_splits)

text \<open>
  A network that knows the keys of the active profile authenticates through the card's byte
  interface: if its sequence number is not below the card's, the response carries the network's
  RES, CK and IK and the card's number advances by one; otherwise the response carries AUTS and
  nothing changes.
\<close>

theorem authenticate_apdu:
  assumes "aes_ok aes" "mil_ok m" "length rand = 16" "sqn_ok s" "length amf = 2"
    and "aka_vector aes m rand s amf = Inr (autn, keys)"
    and "get_active_profile (h_euicc h) = Some p" "holds_keys p m" "sqn_ok (sqn p)"
  shows "\<exists>h' r. process_apdu aes (auth_apdu rand autn) h = (h', r)
    \<and> (if sqn p \<le> s then r = db_response keys \<and> get_active_profile (h_euicc h') = Some (increment_sqn p)
       else h' = h \<and> (\<exists>auts. generate_auts aes m rand (sqn p) = Inr auts \<and> r = dc_response auts))"
proof (cases "sqn p \<le> s")
  case True
  show ?thesis
    unfolding process_auth_vector(1) [OF assms(1-8) True] using True active_after_bump [OF assms(7)] by simp
next
  case False
  then show ?thesis using process_auth_vector(2) [OF assms(1-8) _ assms(9)] by auto
qed

text \<open>
  The same challenge is accepted again and again. A challenge whose number lies \<open>k\<close> above the
  card's is accepted \<open>k + 1\<close> times in a row, each time with the same keys, because an acceptance
  moves the card's number by one and not to the number of the challenge; then it is refused.
\<close>

theorem challenge_replay:
  assumes "aes_ok aes" "mil_ok m" "length rand = 16" "sqn_ok s" "length amf = 2"
    and "aka_vector aes m rand s amf = Inr (autn, keys)"
    and "get_active_profile (h_euicc h) = Some p" "holds_keys p m" "0 \<le> sqn p" "sqn p \<le> s" "s < 2 ^ 48 - 1"
  shows "(\<forall>n \<le> nat (s - sqn p).
      snd (process_apdu aes (auth_apdu rand autn) (((\<lambda>g. fst (process_apdu aes (auth_apdu rand autn) g)) ^^ n) h))
        = db_response keys)
    \<and> (\<exists>auts. snd (process_apdu aes (auth_apdu rand autn)
         (((\<lambda>g. fst (process_apdu aes (auth_apdu rand autn) g)) ^^ nat (s - sqn p + 1)) h)) = dc_response auts)"
proof -
  define step where "step = (\<lambda>g. fst (process_apdu aes (auth_apdu rand autn) g))"
  have run: "\<exists>q. get_active_profile (h_euicc ((step ^^ n) h)) = Some q \<and> holds_keys q m \<and> sqn q = sqn p + int n"
    if "int n \<le> s - sqn p + 1" for n
    using that
  proof (induction n)
    case 0
    then show ?case using assms(7,8) by simp
  next
    case (Suc n)
    then obtain q where q: "get_active_profile (h_euicc ((step ^^ n) h)) = Some q" "holds_keys q m"
        "sqn q = sqn p + int n" by auto
    have "fst (process_apdu aes (auth_apdu rand autn) ((step ^^ n) h)) =
        ((step ^^ n) h)\<lparr>h_euicc := set_active_profile (increment_sqn q) (h_euicc ((step ^^ n) h))\<rparr>"
      using process_auth_vector(1) [OF assms(1-6) q(1,2)] Suc.prems q(3) by simp
    then have "(step ^^ Suc n) h =
        ((step ^^ n) h)\<lparr>h_euicc := set_active_profile (increment_sqn q) (h_euicc ((step ^^ n) h))\<rparr>"
      by (simp add: step_def)
    then show ?case using active_after_bump [OF q(1)] q(2,3) by (simp add: holds_keys_def)
  qed
  have yes: "snd (process_apdu aes (auth_apdu rand autn) ((step ^^ n) h)) = db_response keys"
    if "n \<le> nat (s - sqn p)" for n
  proof -
    have n: "int n \<le> s - sqn p" using that assms(10) by linarith
    then obtain q where q: "get_active_profile (h_euicc ((step ^^ n) h)) = Some q" "holds_keys q m" "sqn q = sqn p + int n"
      using run [of n] by auto
    then show ?thesis using process_auth_vector(1) [OF assms(1-6) q(1,2)] n by simp
  qed
  have no: "\<exists>auts. snd (process_apdu aes (auth_apdu rand autn) ((step ^^ nat (s - sqn p + 1)) h)) = dc_response auts"
  proof -
    obtain q where q: "get_active_profile (h_euicc ((step ^^ nat (s - sqn p + 1)) h)) = Some q" "holds_keys q m"
        "sqn q = s + 1"
      using run [of "nat (s - sqn p + 1)"] assms(10) by auto
    then show ?thesis using process_auth_vector(2) [OF assms(1-6) q(1,2)] assms(9-11) by (fastforce simp: sqn_ok_def)
  qed
  show ?thesis using yes no by (simp add: step_def)
qed

definition sample_isdp :: isdp where
  "sample_isdp = \<lparr>iccid = ''8901'', imsi = ''001010000000001'', aid = [], ki = hex_of (mil_ki sample_mil),
     opc = hex_of (mil_opc sample_mil), mcc = ''001'', mnc = ''01'', spn = ''VPhone'', msisdn = Some ''+15550100'',
     gid1 = None, gid2 = None, impi = None, impu = None, home_domain = None, p_state = ENABLED,
     p_class = OPERATIONAL, sqn = 30\<rparr>"

definition sample_handler :: handler where
  "sample_handler = new_handler \<lparr>eid = ''89001'', eu_state = READY, free_nvram = 458752,
     profiles = [(''8901'', sample_isdp)], active_iccid = Some ''8901'', disk = []\<rparr>"

lemma sample_handler_active: "get_active_profile (h_euicc sample_handler) = Some sample_isdp"
  "holds_keys sample_isdp sample_mil" "sqn sample_isdp = 30"
  by (simp_all add: sample_handler_def new_handler_def get_active_profile_def holds_keys_def sample_isdp_def)

theorem authenticate_apdu_witness:
  "\<exists>autn keys h'. aka_vector sample_aes sample_mil sample_rand 32 [128, 0] = Inr (autn, keys)
     \<and> process_apdu sample_aes (auth_apdu sample_rand autn) sample_handler = (h', db_response keys)"
proof -
  obtain autn keys where v: "aka_vector sample_aes sample_mil sample_rand 32 [128, 0] = Inr (autn, keys)"
    using sample_vector by blast
  then show ?thesis
    using authenticate_apdu [OF sample_ok v sample_handler_active(1,2)] by (auto simp: sample_handler_active(3) sqn_ok_def)
qed

theorem challenge_replay_witness:
  "\<exists>autn keys. aka_vector sample_aes sample_mil sample_rand 32 [128, 0] = Inr (autn, keys)
     \<and> snd (process_apdu sample_aes (auth_apdu sample_rand autn)
         (((\<lambda>g. fst (process_apdu sample_aes (auth_apdu sample_rand autn) g)) ^^ 2) sample_handler)) = db_response keys"
proof -
  obtain autn keys where v: "aka_vector sample_aes sample_mil sample_rand 32 [128, 0] = Inr (autn, keys)"
    using sample_vector by blast
  have n: "0 \<le> sqn sample_isdp" "sqn sample_isdp \<le> 32" "(32 :: int) < 2 ^ 48 - 1" "2 \<le> nat (32 - sqn sample_isdp)"
    by (simp_all add: sample_handler_active(3))
  from challenge_replay [OF sample_ok v sample_handler_active(1,2) n(1-3)] n(4) v show ?thesis by blast
qed

section \<open>Reading the files\<close>

definition select_apdu :: "int \<Rightarrow> bytes" where
  "select_apdu file_id = [0, 0xA4, 0, 4, 2] @ be_bytes 2 (nat file_id)"

definition read_apdu :: bytes where
  "read_apdu = [0, 0xB0, 0, 0, 0]"

definition read_file :: "aes \<Rightarrow> int \<Rightarrow> handler \<Rightarrow> handler \<times> response" where
  "read_file aes file_id h = process_apdu aes read_apdu (fst (process_apdu aes (select_apdu file_id) h))"

definition decode_imsi :: "bytes \<Rightarrow> string" where
  "decode_imsi bs = (case bs of n # first # rest \<Rightarrow> digit_char (unat first div 16) # digits_of rest | _ \<Rightarrow> [])"

text \<open>A profile whose fields have the form the encoders expect.\<close>

definition isdp_ok :: "isdp \<Rightarrow> bool" where
  "isdp_ok p \<longleftrightarrow> all_digits (imsi p) \<and> imsi p \<noteq> [] \<and> length (imsi p) < 500
     \<and> all_digits (iccid p) \<and> length (iccid p) < 500
     \<and> (truthy (msisdn p) \<longrightarrow> all_digits (lstrip_plus (the (msisdn p))) \<and> length (the (msisdn p)) < 500)
     \<and> all_digits (mcc p) \<and> length (mcc p) = 3 \<and> all_digits (mnc p) \<and> length (mnc p) \<in> {2, 3}
     \<and> (truthy (impi p) \<longrightarrow> impu p \<noteq> None \<and> home_domain p \<noteq> None)"

lemma process_select:
  assumes "0 \<le> file_id" "file_id < 65536"
  shows "process_apdu aes (select_apdu file_id) h = (h\<lparr>selected_ef := Some file_id\<rparr>, respond [] SW_OK)"
proof -
  obtain a b where ab: "be_bytes 2 (nat file_id) = [a, b]"
    using list_of_length2 [of "be_bytes 2 (nat file_id)"] by auto
  have "unpack (be_bytes 2 (nat file_id)) = file_id" by (rule unpack_pack) (use assms in simp_all)
  then have "uint a * 256 + uint b = file_id" by (simp add: ab unpack_def from_be_def)
  moreover have "push_bit 8 (uint a) OR uint b = uint a * 256 + uint b"
    using or_disjoint_int [of "uint b" 8 "uint a"] uint_byte_bound [of b] by simp
  ultimately show ?thesis
    by (simp add: process_apdu_def select_apdu_def apdu_from_bytes_def ab Let_def slice_def dispatch_apdu_def
        handle_select_def)
qed

lemma read_file_eq:
  assumes "0 \<le> file_id" "file_id < 65536" "get_active_profile (h_euicc h) = Some p"
  shows "read_file aes file_id h = (h\<lparr>selected_ef := Some file_id\<rparr>,
    case read_ef file_id p of Inl _ \<Rightarrow> respond [] SW_INTERNAL_ERROR
      | Inr None \<Rightarrow> respond [] SW_NOT_FOUND | Inr (Some d) \<Rightarrow> respond (take 256 d) SW_OK)"
  unfolding read_file_def process_select [OF assms(1,2)] fst_conv using assms(3)
  by (cases "read_ef file_id p") (auto simp: process_apdu_def read_apdu_def apdu_from_bytes_def le_of_def
      dispatch_apdu_def handle_read_binary_def Let_def split: option.split)

lemma nibble_digit: "is_digit c \<Longrightarrow> nibble c = Inr (of_char c - 48)"
  by (auto simp: nibble_def int_char_digit is_digit_def)

lemma encode_plmn_total:
  assumes "all_digits a" "length a = 3" "all_digits b" "length b \<in> {2, 3}"
  shows "\<exists>bs. encode_plmn a b = Inr bs \<and> length bs = 3"
proof -
  obtain a0 a1 a2 where a: "a = [a0, a1, a2]"
    using assms(2) by (auto simp: length_Suc_conv numeral_3_eq_3)
  consider b0 b1 where "b = [b0, b1]" | b0 b1 b2 where "b = [b0, b1, b2]"
    using assms(4) by (auto simp: length_Suc_conv numeral_3_eq_3 numeral_2_eq_2)
  then show ?thesis
    by cases (use assms a in \<open>auto simp: encode_plmn_def ljust_def nibble_digit Let_def, auto simp: nibble_def\<close>)
qed

lemma encode_msisdn_total:
  assumes "truthy m \<longrightarrow> all_digits (lstrip_plus (the m)) \<and> length (the m) < 500"
  shows "\<exists>bs. encode_msisdn m = Inr bs"
proof (cases "truthy m")
  case True
  have "length (lstrip_plus (the m)) \<le> length (the m)" by (simp add: lstrip_plus_def length_dropWhile_le)
  then have "(length (lstrip_plus (the m)) + 1) div 2 < 255" using assms True by linarith
  then show ?thesis
    using True assms encode_bcd_total [of "lstrip_plus (the m)"]
    by (auto simp: encode_msisdn_def Let_def mk_byte_def)
qed (simp add: encode_msisdn_def)

lemma encode_imsi_total:
  assumes "all_digits s" "s \<noteq> []" "length s < 500"
  shows "\<exists>bs. encode_imsi s = Inr bs \<and> decode_imsi bs = s \<and> length bs < 256"
proof -
  obtain c r where s: "s = c # r" using assms(2) by (cases s) auto
  obtain bs where bs: "encode_bcd r = Inr bs" "length bs = (length r + 1) div 2" "digits_of bs = r"
    using encode_bcd_total [of r] assms(1) by (auto simp: s)
  have c: "int_char c = Inr (of_char c - 48)" "of_char c - (48 :: nat) < 16" "digit_char (of_char c - 48) = c"
    using assms(1) is_digit_bound [of c] by (simp_all add: s int_char_digit digit_char_of)
  have "length r < 499" using assms(3) by (simp add: s)
  then have "length bs < 252" using bs(2) by linarith
  then show ?thesis using bs c assms(3)
    by (simp add: encode_imsi_def s mk_byte_def decode_imsi_def Let_def flip: semi_octet_def)
qed

lemma ef_table_total:
  assumes "isdp_ok p"
  obtains t f_imsi f_iccid where "ef_table p = Inr t" "map_of t EF_IMSI = Some f_imsi" "decode_imsi f_imsi = imsi p"
    "length f_imsi < 256" "map_of t EF_ICCID = Some f_iccid" "digits_of f_iccid = iccid p" "length f_iccid < 256"
    "\<forall>f \<in> {EF_SPN, EF_MSISDN, EF_HPLMN, EF_AD, EF_IMPI, EF_IMPU, EF_DOMAIN}. map_of t f \<noteq> None"
proof -
  note ok = assms [unfolded isdp_ok_def]
  obtain a where a: "encode_imsi (imsi p) = Inr a" "decode_imsi a = imsi p" "length a < 256"
    using encode_imsi_total ok by blast
  obtain b where b: "encode_bcd (iccid p) = Inr b" "length b = (length (iccid p) + 1) div 2" "digits_of b = iccid p"
    using encode_bcd_total ok by blast
  then have bl: "length b < 256" using ok by linarith
  obtain c where c: "encode_msisdn (msisdn p) = Inr c" using encode_msisdn_total ok by blast
  obtain d where d: "encode_plmn (mcc p) (mnc p) = Inr d" using encode_plmn_total ok by blast
  obtain e where e: "rmap mk_byte [0, 0, int (length (mnc p)), 0] = Inr e"
    using ok by (auto simp: mk_byte_def)
  obtain x y z where i: "encode_opt (isim_impi (get_isim_data p)) = Inr x"
      "encode_opt (isim_impu (get_isim_data p)) = Inr y" "encode_opt (isim_domain (get_isim_data p)) = Inr z"
    using ok by (cases "truthy (impi p)"; cases "impi p") (auto simp: get_isim_data_def Let_def encode_opt_def)
  have t: "ef_table p = Inr [(EF_IMSI, a), (EF_ICCID, b), (EF_SPN, ljust 16 255 (utf8 (spn p))), (EF_MSISDN, c),
      (EF_HPLMN, d), (EF_AD, e), (EF_IMPI, x), (EF_IMPU, y), (EF_DOMAIN, z)]"
    unfolding ef_table_def Let_def by (simp only: a(1) b(1) c d e i rbind_simps)
  show thesis by (rule that [OF t, of a b]) (use a b bl in \<open>simp_all add: ef_ids\<close>)
qed

text \<open>
  On a well-formed active profile, selecting and reading EF_IMSI and EF_ICCID through the
  byte interface succeeds and the file's semi-octets are exactly the profile's IMSI and ICCID; the
  other files of the card are all present, and only an unknown file is answered 6A82.
\<close>

theorem read_identity_files:
  assumes "isdp_ok p" "get_active_profile (h_euicc h) = Some p"
  shows "(\<exists>bs. snd (read_file aes EF_IMSI h) = respond bs SW_OK \<and> decode_imsi bs = imsi p)
    \<and> (\<exists>bs. snd (read_file aes EF_ICCID h) = respond bs SW_OK \<and> digits_of bs = iccid p)
    \<and> (\<forall>f \<in> {EF_SPN, EF_MSISDN, EF_HPLMN, EF_AD, EF_IMPI, EF_IMPU, EF_DOMAIN}.
           \<exists>bs. snd (read_file aes f h) = respond bs SW_OK)
    \<and> snd (read_file aes 0x6F38 h) = respond [] SW_NOT_FOUND"
proof (rule ef_table_total [OF assms(1)], goal_cases)
  case (1 t f_imsi f_iccid)
  then have r: "read_ef f p = Inr (map_of t f)" for f by (simp add: read_ef_def)
  have unknown: "map_of t 0x6F38 = None"
    using 1(1) by (auto simp: ef_table_def rbind_eq_Inr Let_def ef_ids)
  have "\<exists>bs. snd (read_file aes f h) = respond bs SW_OK"
    if f: "f \<in> {EF_SPN, EF_MSISDN, EF_HPLMN, EF_AD, EF_IMPI, EF_IMPU, EF_DOMAIN}" for f
  proof -
    obtain d where "map_of t f = Some d" using 1(8) f by blast
    moreover have "0 \<le> f" "f < 65536" using f by (auto simp: ef_ids)
    ultimately show ?thesis by (auto simp: read_file_eq [OF _ _ assms(2)] r)
  qed
  moreover have "EF_IMSI \<ge> 0" "EF_IMSI < 65536" "EF_ICCID \<ge> 0" "EF_ICCID < 65536" by (simp_all add: ef_ids)
  ultimately show ?case using 1(2-7) unknown by (auto simp: read_file_eq [OF _ _ assms(2)] r)
qed

theorem read_identity_files_witness:
  "\<exists>bs. snd (read_file sample_aes EF_IMSI sample_handler) = respond bs SW_OK \<and> decode_imsi bs = ''001010000000001''"
proof -
  have "isdp_ok sample_isdp" by (simp add: isdp_ok_def sample_isdp_def is_digit_def lstrip_plus_def)
  moreover have "imsi sample_isdp = ''001010000000001''" by (simp add: sample_isdp_def)
  ultimately show ?thesis using read_identity_files [OF _ sample_handler_active(1)] by metis
qed

text \<open>
  A profile with a private IMS identity but without a public one makes every file unreadable:
  whatever file is selected, EF_IMSI included, reading it is answered 6F00, because the whole file
  table is computed before the lookup and \<^verbatim>\<open>None.encode()\<close> raises.
\<close>

theorem incomplete_isim_blocks_files:
  assumes "get_active_profile (h_euicc h) = Some p" "truthy (impi p)" "impu p = None" "0 \<le> f" "f < 65536"
  shows "read_file aes f h = (h\<lparr>selected_ef := Some f\<rparr>, respond [] SW_INTERNAL_ERROR)"
proof -
  have "raises (ef_table p)"
    using assms(2,3) by (auto simp: ef_table_def get_isim_data_def encode_opt_def raises_def Let_def rbind_eq_Inr
        split: sum.split)
  then show ?thesis by (auto simp: read_file_eq [OF assms(4,5,1)] read_ef_def raises_def split: sum.splits)
qed

theorem incomplete_isim_blocks_files_witness:
  "snd (read_file sample_aes EF_IMSI (sample_handler\<lparr>h_euicc := (h_euicc sample_handler)
     \<lparr>profiles := [(''8901'', sample_isdp\<lparr>impi := Some ''user@ims''\<rparr>)]\<rparr>\<rparr>)) = respond [] SW_INTERNAL_ERROR"
  by (subst incomplete_isim_blocks_files [where p = "sample_isdp\<lparr>impi := Some ''user@ims''\<rparr>"])
    (simp_all add: sample_handler_def new_handler_def get_active_profile_def sample_isdp_def ef_ids)

end
