(* ===== verification/Gsm7.thy ===== *)
theory Gsm7
  imports Digits
begin

text \<open>
  The text codings of \<^verbatim>\<open>ims/sms_pdu.py\<close>: the GSM 7-bit default alphabet with its packing of
  septets into octets, and UTF-16BE for UCS-2. Text is a list of code points.
\<close>

section \<open>The alphabet\<close>

definition GSM7_BASIC :: ustr where
  "GSM7_BASIC =
    [64, 163, 36, 165, 232, 233, 249, 236, 242, 199, 10, 216, 248, 13, 197, 229,
     916, 95, 934, 915, 923, 937, 928, 936, 931, 920, 926, 27, 198, 230, 223, 201,
     32, 33, 34, 35, 164, 37, 38, 39, 40, 41, 42, 43, 44, 45, 46, 47,
     48, 49, 50, 51, 52, 53, 54, 55, 56, 57, 58, 59, 60, 61, 62, 63,
     161, 65, 66, 67, 68, 69, 70, 71, 72, 73, 74, 75, 76, 77, 78, 79,
     80, 81, 82, 83, 84, 85, 86, 87, 88, 89, 90, 196, 214, 209, 220, 192,
     191, 97, 98, 99, 100, 101, 102, 103, 104, 105, 106, 107, 108, 109, 110, 111,
     112, 113, 114, 115, 116, 117, 118, 119, 120, 121, 122, 228, 246, 241, 252, 224]"

text \<open>\<^verbatim>\<open>GSM7_ENCODE.get(ch)\<close>: the position in the alphabet, the escape character excluded.\<close>

definition gsm7_index :: "nat \<Rightarrow> nat option" where
  "gsm7_index c = (if c = 27 then None else map_of (zip GSM7_BASIC [0..<128]) c)"

definition gsm7_code :: "nat \<Rightarrow> nat" where
  "gsm7_code c = (case gsm7_index c of Some code \<Rightarrow> code | None \<Rightarrow> 63)"

section \<open>Packing\<close>

text \<open>
  The inner loop \<^verbatim>\<open>while bit_count >= 8\<close>, with the octets it appends, and the loop over the septets
  with its final flush.
\<close>

fun drain :: "nat \<Rightarrow> nat \<Rightarrow> bytes \<times> nat \<times> nat" where
  "drain acc n = (if n < 8 then ([], acc, n)
     else case drain (drop_bit 8 acc) (n - 8) of (out, acc', n') \<Rightarrow> (word_of_nat (acc AND 255) # out, acc', n'))"

declare drain.simps [simp del]

fun pack_septets :: "nat \<Rightarrow> nat \<Rightarrow> nat list \<Rightarrow> bytes" where
  "pack_septets acc n [] = (if n > 0 then [word_of_nat (acc AND 255)] else [])"
| "pack_septets acc n (s # ss) =
     (case drain (acc OR push_bit n (s AND 127)) (n + 7) of (out, acc', n') \<Rightarrow> out @ pack_septets acc' n' ss)"

definition encode_gsm7 :: "ustr \<Rightarrow> bytes" where
  "encode_gsm7 t = pack_septets 0 0 (map gsm7_code t)"

fun unpack_bits :: "nat \<Rightarrow> nat \<Rightarrow> bytes \<Rightarrow> nat" where
  "unpack_bits acc n [] = acc"
| "unpack_bits acc n (b # bs) = unpack_bits (acc OR push_bit n (unat b)) (n + 8) bs"

definition decode_gsm7 :: "bytes \<Rightarrow> nat \<Rightarrow> ustr" where
  "decode_gsm7 d num =
     (let acc = unpack_bits 0 0 d
      in map (\<lambda>i. let s = drop_bit (i * 7) acc AND 127
                   in if s < length GSM7_BASIC then GSM7_BASIC ! s else 63) [0..<num])"

section \<open>Packing and unpacking read the same number\<close>

fun le_value :: "bytes \<Rightarrow> nat" where
  "le_value [] = 0"
| "le_value (b # bs) = unat b + 256 * le_value bs"

fun septet_value :: "nat list \<Rightarrow> nat" where
  "septet_value [] = 0"
| "septet_value (s # ss) = s mod 128 + 128 * septet_value ss"

lemma or_shift: "(a :: nat) < 2 ^ n \<Longrightarrow> a OR push_bit n b = a + 2 ^ n * b"
  using or_disjoint_nat [of a n b] by (simp add: or.commute)

lemma unpack_bits_value: "acc < 2 ^ n \<Longrightarrow> unpack_bits acc n bs = acc + 2 ^ n * le_value bs"
proof (induction acc n bs rule: unpack_bits.induct)
  case (2 acc n b bs)
  have l: "acc + 2 ^ n * unat b < 2 ^ (n + 8)"
    using digit_bound [OF 2(2) unat_byte_bound [of b]] by (simp add: power_add)
  then show ?case using 2 by (simp add: or_shift power_add algebra_simps)
qed simp

lemma drain_small: "acc < 2 ^ n \<Longrightarrow> n < 16 \<Longrightarrow> drain acc n = (if n < 8 then ([], acc, n)
    else ([word_of_nat (acc mod 256)], acc div 256, n - 8))"
  by (cases "n < 8") (simp_all add: drain.simps and_255_nat drop_bit_eq_div)

lemma pack_septets_value:
  assumes "acc < 2 ^ n" "n < 8"
  shows "le_value (pack_septets acc n ss) = acc + 2 ^ n * septet_value ss
       \<and> length (pack_septets acc n ss) = (n + 7 * length ss + 7) div 8"
  using assms
proof (induction ss arbitrary: acc n)
  case Nil
  have "acc < 256" using Nil power_increasing [of n 8 "2 :: nat"] by simp
  then show ?case using Nil by (auto simp: bits unat_byte_of_nat)
next
  case (Cons s ss)
  let ?a = "acc + 2 ^ n * (s mod 128)"
  have a: "acc OR push_bit n (s AND 127) = ?a" using Cons.prems by (simp add: or_shift and_127_nat)
  have l: "?a < 2 ^ (n + 7)"
    using digit_bound [OF Cons.prems(1), of "s mod 128" 128] by (simp add: power_add)
  have st: "pack_septets acc n (s # ss) = (case drain ?a (n + 7) of (out, acc', n') \<Rightarrow> out @ pack_septets acc' n' ss)"
    by (simp only: pack_septets.simps a)
  show ?case
  proof (cases "n + 7 < 8")
    case True
    then have n: "n = 0" by simp
    have "drain ?a (n + 7) = ([], ?a, 7)" using drain_small [OF l] by (simp add: n)
    note st = st [unfolded this]
    have "le_value (pack_septets ?a 7 ss) = ?a + 2 ^ 7 * septet_value ss
        \<and> length (pack_septets ?a 7 ss) = (7 + 7 * length ss + 7) div 8"
      using Cons.IH [of ?a 7] l by (simp add: n)
    then show ?thesis unfolding st by (simp add: n)
  next
    case False
    have p: "2 ^ (n + 7) = 256 * (2 :: nat) ^ (n - 1)" using False by (cases n) (simp_all add: power_add)
    have d: "?a div 256 < 2 ^ (n - 1)" using l unfolding p by (simp add: less_mult_imp_div_less mult.commute)
    have "le_value (pack_septets (?a div 256) (n - 1) ss) = ?a div 256 + 2 ^ (n - 1) * septet_value ss
        \<and> length (pack_septets (?a div 256) (n - 1) ss) = (n - 1 + 7 * length ss + 7) div 8"
      using Cons.IH [OF d] Cons.prems by simp
    moreover have "drain ?a (n + 7) = ([word_of_nat (?a mod 256)], ?a div 256, n - 1)"
      using drain_small [OF l] Cons.prems False by simp
    moreover have "unat (word_of_nat (?a mod 256) :: byte) = ?a mod 256" by (rule unat_byte_of_nat) simp
    moreover have "?a mod 256 + 256 * (?a div 256 + 2 ^ (n - 1) * v) = ?a + 2 ^ (n + 7) * v" for v
      unfolding p by (simp add: algebra_simps)
    ultimately show ?thesis using False unfolding st by (simp add: power_add algebra_simps)
  qed
qed

lemma septet_nth: "i < length ss \<Longrightarrow> septet_value ss div 128 ^ i mod 128 = ss ! i mod 128"
proof (induction ss arbitrary: i)
  case (Cons s ss)
  show ?case
  proof (cases i)
    case (Suc j)
    have "septet_value (s # ss) div 128 ^ Suc j = septet_value ss div 128 ^ j"
      by (simp add: div_mult2_eq)
    then show ?thesis using Cons Suc by simp
  qed simp
qed simp

section \<open>Text\<close>

text \<open>What a receiver reads: a character outside the alphabet became a question mark.\<close>

definition gsm7_subst :: "nat \<Rightarrow> nat" where
  "gsm7_subst c = (if c \<noteq> 27 \<and> c \<in> set GSM7_BASIC then c else 63)"

definition gsm7_text :: "ustr \<Rightarrow> bool" where
  "gsm7_text t \<longleftrightarrow> list_all (\<lambda>c. c \<noteq> 27 \<and> c \<in> set GSM7_BASIC) t"

lemma length_GSM7_BASIC [simp]: "length GSM7_BASIC = 128"
  by (simp add: GSM7_BASIC_def)

lemma gsm7_code_lookup: "gsm7_code c < 128 \<and> GSM7_BASIC ! gsm7_code c = gsm7_subst c"
proof (cases "c \<noteq> 27 \<and> c \<in> set GSM7_BASIC")
  case True
  have "map fst (zip GSM7_BASIC [0..<128]) = GSM7_BASIC" by simp
  then have "c \<in> fst ` set (zip GSM7_BASIC [0..<128])" using True by (metis list.set_map)
  then obtain i where i: "map_of (zip GSM7_BASIC [0..<128]) c = Some i"
    by (metis domD dom_map_of_conv_image_fst)
  then have "(c, i) \<in> set (zip GSM7_BASIC [0..<128])" by (rule map_of_SomeD)
  then have "i < 128 \<and> GSM7_BASIC ! i = c" by (auto simp: set_zip)
  with True i show ?thesis by (simp add: gsm7_code_def gsm7_index_def gsm7_subst_def)
next
  case False
  then have "gsm7_index c = None" by (auto simp: gsm7_index_def map_of_eq_None_iff dest: set_zip_leftD)
  moreover have "GSM7_BASIC ! 63 = 63" by (simp add: GSM7_BASIC_def)
  ultimately show ?thesis using False by (auto simp: gsm7_code_def gsm7_subst_def)
qed

lemma length_encode_gsm7: "length (encode_gsm7 t) = (7 * length t + 7) div 8"
  using pack_septets_value [of 0 0 "map gsm7_code t"] by (simp add: encode_gsm7_def)

lemma decode_encode_gsm7: "decode_gsm7 (encode_gsm7 t) (length t) = map gsm7_subst t"
proof (rule nth_equalityI)
  fix i assume "i < length (decode_gsm7 (encode_gsm7 t) (length t))"
  then have i: "i < length t" by (simp add: decode_gsm7_def Let_def)
  have v: "unpack_bits 0 0 (encode_gsm7 t) = septet_value (map gsm7_code t)"
    using pack_septets_value [of 0 0 "map gsm7_code t"] by (simp add: unpack_bits_value encode_gsm7_def)
  have "drop_bit (i * 7) (septet_value (map gsm7_code t)) AND 127 = gsm7_code (t ! i) mod 128"
    using septet_nth [of i "map gsm7_code t"] i
    by (simp add: and_127_nat drop_bit_eq_div mult.commute [of i 7] power_mult)
  also have "\<dots> = gsm7_code (t ! i)" using gsm7_code_lookup [of "t ! i"] by simp
  finally show "decode_gsm7 (encode_gsm7 t) (length t) ! i = map gsm7_subst t ! i"
    using i gsm7_code_lookup [of "t ! i"] by (simp add: decode_gsm7_def v Let_def)
qed (simp add: decode_gsm7_def Let_def)

lemma decode_encode_gsm7_text: "gsm7_text t \<Longrightarrow> decode_gsm7 (encode_gsm7 t) (length t) = t"
  unfolding decode_encode_gsm7 gsm7_text_def gsm7_subst_def by (simp add: list_all_iff map_idI)

text \<open>
  For every text, packing gives exactly ceil(7n/8) octets, and unpacking n septets gives the
  text back with each character outside the default alphabet replaced by a question mark.
\<close>

theorem gsm7_roundtrip:
  "length (encode_gsm7 t) = (7 * length t + 7) div 8
   \<and> decode_gsm7 (encode_gsm7 t) (length t) = map (\<lambda>c. if c \<noteq> 27 \<and> c \<in> set GSM7_BASIC then c else 63) t"
  using length_encode_gsm7 decode_encode_gsm7 [of t] by (simp add: gsm7_subst_def [abs_def])

section \<open>UTF-16BE\<close>

text \<open>
  \<^verbatim>\<open>text.encode("utf-16-be")\<close> and \<^verbatim>\<open>data.decode("utf-16-be", errors="replace")\<close>. A lone surrogate
  in the text raises; a malformed code unit, or a single byte at the end, decodes to U+FFFD.
\<close>

definition utf16_char :: "nat \<Rightarrow> bytes res" where
  "utf16_char c =
     (if 0xD800 \<le> c \<and> c < 0xE000 \<or> 0x110000 \<le> c then Inl UnicodeError
      else if c < 0x10000 then Inr (be_bytes 2 c)
      else Inr (be_bytes 2 (0xD800 + (c - 0x10000) div 0x400) @ be_bytes 2 (0xDC00 + (c - 0x10000) mod 0x400)))"

definition utf16_encode :: "ustr \<Rightarrow> bytes res" where
  "utf16_encode t = rbind (rmap utf16_char t) (\<lambda>bss. Inr (concat bss))"

fun code_units :: "bytes \<Rightarrow> nat list \<times> bool" where
  "code_units [] = ([], False)"
| "code_units [b] = ([], True)"
| "code_units (a # b # r) = (case code_units r of (us, half) \<Rightarrow> ((256 * unat a + unat b) # us, half))"

definition high_surrogate :: "nat \<Rightarrow> bool" where
  "high_surrogate u \<longleftrightarrow> 0xD800 \<le> u \<and> u < 0xDC00"

definition low_surrogate :: "nat \<Rightarrow> bool" where
  "low_surrogate u \<longleftrightarrow> 0xDC00 \<le> u \<and> u < 0xE000"

fun from_units :: "nat list \<Rightarrow> ustr" where
  "from_units [] = []"
| "from_units [u] = [if high_surrogate u \<or> low_surrogate u then 0xFFFD else u]"
| "from_units (u # v # r) =
     (if high_surrogate u then
        (if low_surrogate v then (0x10000 + (u - 0xD800) * 0x400 + (v - 0xDC00)) # from_units r
         else 0xFFFD # from_units (v # r))
      else if low_surrogate u then 0xFFFD # from_units (v # r) else u # from_units (v # r))"

definition utf16_decode :: "bytes \<Rightarrow> ustr" where
  "utf16_decode bs = (case code_units bs of (us, half) \<Rightarrow>
     if half \<and> us \<noteq> [] \<and> high_surrogate (last us) then from_units us
     else from_units us @ (if half then [0xFFFD] else []))"

definition ucs2_text :: "ustr \<Rightarrow> bool" where
  "ucs2_text t \<longleftrightarrow> list_all (\<lambda>c. c < 0x10000 \<and> \<not> (0xD800 \<le> c \<and> c < 0xE000)) t"

lemma from_units_plain [simp]: "\<not> high_surrogate u \<Longrightarrow> \<not> low_surrogate u \<Longrightarrow> from_units (u # us) = u # from_units us"
  by (cases us) simp_all

lemma from_units_pair [simp]: "high_surrogate u \<Longrightarrow> low_surrogate v \<Longrightarrow>
    from_units (u # v # us) = (0x10000 + (u - 0xD800) * 0x400 + (v - 0xDC00)) # from_units us"
  by simp

text \<open>The code units of one character, and the octets of a code unit.\<close>

definition char_units :: "nat \<Rightarrow> nat list" where
  "char_units c = (if c < 0x10000 then [c] else [0xD800 + (c - 0x10000) div 0x400, 0xDC00 + (c - 0x10000) mod 0x400])"

lemma from_units_char: "c < 0x110000 \<Longrightarrow> \<not> (0xD800 \<le> c \<and> c < 0xE000) \<Longrightarrow>
    from_units (char_units c @ us) = c # from_units us"
proof (cases "c < 0x10000")
  case False
  assume "c < 0x110000"
  with False have "(c - 0x10000) div 0x400 < 0x400" by (simp add: less_mult_imp_div_less)
  then have "high_surrogate (0xD800 + (c - 0x10000) div 0x400)" "low_surrogate (0xDC00 + (c - 0x10000) mod 0x400)"
    by (simp_all add: high_surrogate_def low_surrogate_def)
  with False show ?thesis by (simp add: char_units_def)
qed (auto simp: char_units_def high_surrogate_def low_surrogate_def)

lemma code_units_be_bytes: "u < 0x10000 \<Longrightarrow> code_units (be_bytes 2 u @ bs) = (case code_units bs of (us, half) \<Rightarrow> (u # us, half))"
proof -
  assume u: "u < 0x10000"
  obtain a b where ab: "be_bytes 2 u = [a, b]" using list_of_length2 [of "be_bytes 2 u"] by auto
  have "from_be (be_bytes 2 u) = u" using u by (intro from_be_be_bytes_id) simp
  then have "256 * unat a + unat b = u" by (simp add: ab from_be_def mult.commute)
  then show ?thesis by (simp add: ab split: prod.split)
qed

lemma utf16_char_units: "c < 0x110000 \<Longrightarrow> \<not> (0xD800 \<le> c \<and> c < 0xE000) \<Longrightarrow>
    utf16_char c = Inr (concat (map (be_bytes 2) (char_units c))) \<and> (\<forall>u \<in> set (char_units c). u < 0x10000)"
proof -
  assume c: "c < 0x110000" "\<not> (0xD800 \<le> c \<and> c < 0xE000)"
  have "(c - 0x10000) div 0x400 < 0x400" using c by (simp add: less_mult_imp_div_less)
  with c show ?thesis by (auto simp: utf16_char_def char_units_def)
qed

lemma code_units_concat: "\<forall>u \<in> set us. u < 0x10000 \<Longrightarrow>
    code_units (concat (map (be_bytes 2) us) @ bs) = (case code_units bs of (vs, half) \<Rightarrow> (us @ vs, half))"
  by (induction us) (auto simp: code_units_be_bytes split: prod.split)

lemma utf16_roundtrip:
  assumes "unicode_text t"
  shows "\<exists>bs. utf16_encode t = Inr bs \<and> utf16_decode bs = t"
proof -
  have "\<exists>bss. rmap utf16_char t = Inr bss \<and> code_units (concat bss) = (concat (map char_units t), False)
      \<and> from_units (concat (map char_units t)) = t"
    using assms
  proof (induction t)
    case (Cons c t)
    then have c: "c < 0x110000" "\<not> (0xD800 \<le> c \<and> c < 0xE000)" by (simp_all add: unicode_text_def)
    obtain bss where "rmap utf16_char t = Inr bss" "code_units (concat bss) = (concat (map char_units t), False)"
        "from_units (concat (map char_units t)) = t"
      using Cons by (auto simp: unicode_text_def)
    then show ?case using utf16_char_units [OF c] from_units_char [OF c]
      by (simp add: code_units_concat)
  qed simp
  then show ?thesis by (auto simp: utf16_encode_def utf16_decode_def)
qed

lemma utf16_length: "ucs2_text t \<Longrightarrow> \<exists>bs. utf16_encode t = Inr bs \<and> length bs = 2 * length t"
proof -
  assume t: "ucs2_text t"
  have "rmap utf16_char t = Inr (map (be_bytes 2) t)"
    by (rule rmap_Inr) (use t in \<open>auto simp: ucs2_text_def list_all_iff utf16_char_def\<close>)
  then show ?thesis by (simp add: utf16_encode_def length_concat comp_def sum_list_triv)
qed

lemma ucs2_unicode: "ucs2_text t \<Longrightarrow> unicode_text t"
  by (auto simp: ucs2_text_def unicode_text_def list_all_iff)

text \<open>
  Every text without surrogate code points encodes to UTF-16BE and decodes to itself,
  characters outside the basic plane (surrogate pairs) included.
\<close>

theorem utf16_text_roundtrip:
  assumes "list_all (\<lambda>c. c < 0x110000 \<and> \<not> (0xD800 \<le> c \<and> c < 0xE000)) t"
  shows "\<exists>bs. utf16_encode t = Inr bs \<and> utf16_decode bs = t"
  using utf16_roundtrip assms by (simp add: unicode_text_def)

theorem utf16_text_roundtrip_witness: "\<exists>bs. utf16_encode [0x41, 0x1F600] = Inr bs \<and> utf16_decode bs = [0x41, 0x1F600]"
  by (rule utf16_text_roundtrip) simp

end
