(* ===== verification/Sms_Pdu.thy ===== *)
theory Sms_Pdu
  imports Gsm7 Formats
begin

text \<open>
  The transfer-layer formats of \<^verbatim>\<open>ims/sms_pdu.py\<close>: addresses, SMS-SUBMIT and SMS-DELIVER, the RP-DATA
  wrapper, timestamps and the PDU strings of the RIL.
\<close>

datatype data_coding = GSM_7BIT | UCS2 | EIGHT_BIT

fun dcs_value :: "data_coding \<Rightarrow> int" where
  "dcs_value GSM_7BIT = 0"
| "dcs_value UCS2 = 8"
| "dcs_value EIGHT_BIT = 4"

definition dcs_of :: "int \<Rightarrow> data_coding res" where
  "dcs_of v = (if v = 0 then Inr GSM_7BIT else if v = 8 then Inr UCS2 else if v = 4 then Inr EIGHT_BIT
     else Inl ValueError)"

datatype type_of_number = UNKNOWN | INTERNATIONAL | NATIONAL | NETWORK_SPECIFIC | SUBSCRIBER
  | ALPHANUMERIC | ABBREVIATED

fun ton_value :: "type_of_number \<Rightarrow> int" where
  "ton_value UNKNOWN = 0"
| "ton_value INTERNATIONAL = 1"
| "ton_value NATIONAL = 2"
| "ton_value NETWORK_SPECIFIC = 3"
| "ton_value SUBSCRIBER = 4"
| "ton_value ALPHANUMERIC = 5"
| "ton_value ABBREVIATED = 6"

definition ton_of :: "int \<Rightarrow> type_of_number res" where
  "ton_of v = (if v = 0 then Inr UNKNOWN else if v = 1 then Inr INTERNATIONAL else if v = 2 then Inr NATIONAL
     else if v = 3 then Inr NETWORK_SPECIFIC else if v = 4 then Inr SUBSCRIBER else if v = 5 then Inr ALPHANUMERIC
     else if v = 6 then Inr ABBREVIATED else Inl ValueError)"

lemma dcs_of_value [simp]: "dcs_of (dcs_value d) = Inr d"
  by (cases d) (simp_all add: dcs_of_def)

lemma ton_of_value [simp]: "ton_of (ton_value t) = Inr t"
  by (cases t) (simp_all add: ton_of_def)

section \<open>Semi-octets over text\<close>

text \<open>\<^verbatim>\<open>int(ch)\<close>, for the ASCII digits.\<close>

definition int_code :: "nat \<Rightarrow> nat res" where
  "int_code c = (if 48 \<le> c \<and> c \<le> 57 then Inr (c - 48) else Inl ValueError)"

fun sms_encode_bcd :: "ustr \<Rightarrow> bytes res" where
  "sms_encode_bcd [] = Inr []"
| "sms_encode_bcd [a] = rbind (int_code a) (\<lambda>low. Inr [semi_octet low 15])"
| "sms_encode_bcd (a # b # r) = rbind (int_code a) (\<lambda>low. rbind (int_code b) (\<lambda>high.
     rbind (sms_encode_bcd r) (\<lambda>bs. Inr (semi_octet low high # bs))))"

text \<open>The loop of \<^verbatim>\<open>decode_bcd\<close> over the bytes, with the digits collected so far.\<close>

fun decode_bcd_loop :: "nat \<Rightarrow> ustr \<Rightarrow> bytes \<Rightarrow> ustr" where
  "decode_bcd_loop num acc [] = acc"
| "decode_bcd_loop num acc (b # bs) =
     (let low = unat b AND 15; high = drop_bit 4 (unat b) AND 15;
          acc1 = (if low \<le> 9 then acc @ [48 + low] else acc);
          acc2 = (if high \<le> 9 \<and> length acc1 < num then acc1 @ [48 + high] else acc1)
      in decode_bcd_loop num acc2 bs)"

definition decode_bcd :: "bytes \<Rightarrow> nat \<Rightarrow> ustr" where
  "decode_bcd d num = take num (decode_bcd_loop num [] d)"

definition digit_text :: "ustr \<Rightarrow> bool" where
  "digit_text t \<longleftrightarrow> list_all (\<lambda>c. 48 \<le> c \<and> c \<le> 57) t"

lemma digit_text_simps [simp]: "digit_text []" "digit_text (c # t) \<longleftrightarrow> 48 \<le> c \<and> c \<le> 57 \<and> digit_text t"
  by (auto simp: digit_text_def)

lemma unat_nibbles: "unat b AND 15 = unat b mod 16" "drop_bit 4 (unat (b :: byte)) AND 15 = unat b div 16"
proof -
  have "unat b div 16 < 16" using unat_byte_bound [of b] by linarith
  then show "unat b AND 15 = unat b mod 16" "drop_bit 4 (unat b) AND 15 = unat b div 16"
    by (simp_all add: and_15_nat drop_bit_eq_div)
qed

lemma sms_bcd_roundtrip:
  assumes "digit_text t"
  shows "\<exists>bs. sms_encode_bcd t = Inr bs \<and> length bs = (length t + 1) div 2 \<and> decode_bcd bs (length t) = t"
proof -
  have "\<exists>bs. sms_encode_bcd t = Inr bs \<and> length bs = (length t + 1) div 2
      \<and> (\<forall>acc num. length acc + length t \<le> num \<longrightarrow> decode_bcd_loop num acc bs = acc @ t)"
    using assms
  proof (induction t rule: sms_encode_bcd.induct)
    case (2 a)
    then have "a - 48 < 16" "a - 48 \<le> 9" "48 + (a - 48) = a" by auto
    with 2 show ?case by (simp add: int_code_def unat_nibbles Let_def)
  next
    case (3 a b r)
    then have "a - 48 < 16" "a - 48 \<le> 9" "48 + (a - 48) = a" "b - 48 < 16" "b - 48 \<le> 9" "48 + (b - 48) = b"
      by auto
    with 3 show ?case by (auto simp: int_code_def unat_nibbles Let_def)
  qed simp
  then show ?thesis by (auto simp: decode_bcd_def)
qed

section \<open>Addresses\<close>

record sms_address =
  number :: ustr
  ton :: type_of_number
  npi :: int

definition default_address :: sms_address where
  "default_address = \<lparr>number = [], ton = UNKNOWN, npi = 1\<rparr>"

definition type_of_address :: "sms_address \<Rightarrow> int" where
  "type_of_address a = 0x80 OR push_bit 4 (ton_value (ton a)) OR (npi a AND 0x0F)"

definition address_from_bytes :: "bytes \<Rightarrow> nat \<Rightarrow> (sms_address \<times> nat) res" where
  "address_from_bytes d offset =
     rbind (idx d offset) (\<lambda>b. let addr_len = unat b in
     rbind (idx d (offset + 1)) (\<lambda>t. let toa = uint t in
     rbind (ton_of (drop_bit 4 toa AND 7)) (\<lambda>v_ton.
     let v_npi = toa AND 0x0F; num_bytes = (addr_len + 1) div 2;
         bcd_bytes = slice d (offset + 2) (offset + 2 + num_bytes);
         num = (if v_ton = ALPHANUMERIC then decode_gsm7 bcd_bytes (addr_len * 4 div 7)
                else decode_bcd bcd_bytes addr_len)
     in Inr (\<lparr>number = num, ton = v_ton, npi = v_npi\<rparr>, offset + 2 + num_bytes))))"

definition address_to_bytes :: "sms_address \<Rightarrow> bytes res" where
  "address_to_bytes a =
     (if ton a = ALPHANUMERIC then
        let encoded = encode_gsm7 (number a); addr_len = int (length (number a)) * 2
        in rbind (rmap mk_byte [addr_len, type_of_address a]) (\<lambda>h. Inr (h @ encoded))
      else
        let digits = filter (\<lambda>c. c \<noteq> 43) (number a); addr_len = int (length digits)
        in rbind (sms_encode_bcd digits) (\<lambda>bcd.
           rbind (rmap mk_byte [addr_len, type_of_address a]) (\<lambda>h. Inr (h @ bcd))))"

definition address_international :: "ustr \<Rightarrow> sms_address" where
  "address_international t = \<lparr>number = dropWhile (\<lambda>c. c = 43) t, ton = INTERNATIONAL, npi = 1\<rparr>"

definition address_ok :: "sms_address \<Rightarrow> bool" where
  "address_ok a \<longleftrightarrow> 0 \<le> npi a \<and> npi a < 16
     \<and> (if ton a = ALPHANUMERIC then gsm7_text (number a) \<and> length (number a) \<le> 6
        else digit_text (number a) \<and> length (number a) < 256)"

lemma type_of_address_fields:
  assumes "0 \<le> npi a" "npi a < 16"
  shows "0 \<le> type_of_address a" "type_of_address a < 256" "drop_bit 4 (type_of_address a) AND 7 = ton_value (ton a)"
    "type_of_address a AND 0x0F = npi a"
proof -
  have t: "0 \<le> ton_value (ton a)" "ton_value (ton a) < 7" by (cases "ton a"; simp)+
  have "push_bit 4 (ton_value (ton a)) OR (npi a AND 0x0F) = ton_value (ton a) * 16 + npi a"
    using or_disjoint_int [of "npi a" 4 "ton_value (ton a)"] assms by (simp add: and_15_int)
  moreover have "0x80 OR (ton_value (ton a) * 16 + npi a) = 128 + (ton_value (ton a) * 16 + npi a)"
    using or_disjoint_int [of "ton_value (ton a) * 16 + npi a" 7 1] assms t by simp
  ultimately have v: "type_of_address a = 128 + (ton_value (ton a) * 16 + npi a)"
    by (simp add: type_of_address_def or.assoc)
  show "0 \<le> type_of_address a" "type_of_address a < 256" using assms t by (simp_all add: v)
  have "type_of_address a = (8 + ton_value (ton a)) * 16 + npi a" by (simp add: v)
  then have "type_of_address a div 16 = 8 + ton_value (ton a)" "type_of_address a mod 16 = npi a"
    using int_block [of "npi a" 16 "8 + ton_value (ton a)"] assms by simp_all
  then show "drop_bit 4 (type_of_address a) AND 7 = ton_value (ton a)" "type_of_address a AND 0x0F = npi a"
    using t by (simp_all add: and_7_int and_15_int drop_bit_eq_div)
qed

lemma address_roundtrip:
  assumes "address_ok a"
  shows "\<exists>bs. address_to_bytes a = Inr bs
    \<and> (\<forall>pre post. address_from_bytes (pre @ bs @ post) (length pre) = Inr (a, length pre + length bs))"
proof -
  have npi: "0 \<le> npi a" "npi a < 16" using assms by (simp_all add: address_ok_def)
  note toa = type_of_address_fields [OF npi]
  have u: "uint (word_of_int (type_of_address a) :: byte) = type_of_address a"
    using toa by (simp add: uint_byte_of_int)
  show ?thesis
  proof (cases "ton a = ALPHANUMERIC")
    case True
    then have t: "gsm7_text (number a)" "length (number a) \<le> 6" using assms by (simp_all add: address_ok_def)
    define n where "n = 2 * length (number a)"
    have n: "int (length (number a)) * 2 = int n" "n < 256" using t(2) by (simp_all add: n_def)
    have e: "length (encode_gsm7 (number a)) = length (number a)" "n * 4 div 7 = length (number a)"
      "(n + 1) div 2 = length (number a)"
      using t(2) unfolding length_encode_gsm7 n_def by linarith+
    let ?h = "[word_of_nat n, word_of_int (type_of_address a)] :: bytes"
    have "address_to_bytes a = Inr (?h @ encode_gsm7 (number a))"
      using True n toa by (simp add: address_to_bytes_def mk_byte_nat mk_byte_in Let_def)
    moreover have "address_from_bytes (pre @ (?h @ encode_gsm7 (number a)) @ post) (length pre) = Inr (a, length pre + length (?h @ encode_gsm7 (number a)))"
      for pre post
      using True toa(3,4) decode_encode_gsm7_text [OF t(1)] e
      by (simp add: address_from_bytes_def idx_def nth_append unat_byte_of_nat [OF n(2)] u slice_def Let_def ton_of_def)
    ultimately show ?thesis by blast
  next
    case False
    then have t: "digit_text (number a)" "length (number a) < 256" using assms by (simp_all add: address_ok_def)
    obtain bs where bs: "sms_encode_bcd (number a) = Inr bs" "length bs = (length (number a) + 1) div 2"
        "decode_bcd bs (length (number a)) = number a"
      using sms_bcd_roundtrip [OF t(1)] by blast
    have f: "filter (\<lambda>c. c \<noteq> 43) (number a) = number a"
      using t(1) by (auto simp: digit_text_def list_all_iff intro!: filter_True)
    let ?h = "[word_of_nat (length (number a)), word_of_int (type_of_address a)] :: bytes"
    have "address_to_bytes a = Inr (?h @ bs)"
      using False t(2) toa bs f by (simp add: address_to_bytes_def mk_byte_nat mk_byte_in Let_def)
    moreover have "address_from_bytes (pre @ (?h @ bs) @ post) (length pre) = Inr (a, length pre + length (?h @ bs))"
      for pre post
      using False toa(3,4) bs(2,3)
      by (simp add: address_from_bytes_def idx_def nth_append unat_byte_of_nat [OF t(2)] u slice_def Let_def)
    ultimately show ?thesis by blast
  qed
qed

interpretation address_format: offset_format address_ok address_to_bytes address_from_bytes
  by unfold_locales (rule address_roundtrip)

end
