(* ===== verification/Sms_Tpdu.thy ===== *)
theory Sms_Tpdu
  imports Sms_Pdu
begin

text \<open>
  SMS-SUBMIT and SMS-DELIVER of \<^verbatim>\<open>ims/sms_pdu.py\<close>. The user-data tail that both classes write and
  read with the same code is modelled once. \<^verbatim>\<open>to_bytes\<close> stores the encoded user data in the message,
  so it returns the message with the bytes.
\<close>

section \<open>User data\<close>

definition fill_user_data :: "data_coding \<Rightarrow> ustr \<Rightarrow> bytes \<Rightarrow> bytes res" where
  "fill_user_data dcs text ud =
     (if text \<noteq> [] \<and> ud = [] then
        if dcs = UCS2 then utf16_encode text else if dcs = GSM_7BIT then Inr (encode_gsm7 text) else Inr ud
      else Inr ud)"

definition user_data_length :: "data_coding \<Rightarrow> ustr \<Rightarrow> bytes \<Rightarrow> int" where
  "user_data_length dcs text ud =
     (if dcs = GSM_7BIT then if text \<noteq> [] then int (length text) else int (length ud * 8 div 7)
      else int (length ud))"

definition write_user_data :: "data_coding \<Rightarrow> ustr \<Rightarrow> bytes \<Rightarrow> (bytes \<times> bytes) res" where
  "write_user_data dcs text ud0 =
     rbind (fill_user_data dcs text ud0) (\<lambda>ud.
     rbind (mk_byte (user_data_length dcs text ud)) (\<lambda>udl. Inr (ud, udl # ud)))"

definition read_user_data :: "data_coding \<Rightarrow> bytes \<Rightarrow> nat \<Rightarrow> (bytes \<times> ustr) res" where
  "read_user_data dcs d offset0 =
     rbind (idx d offset0) (\<lambda>b. let udl = unat b; offset = offset0 + 1 in
     if dcs = UCS2 then let ud = slice d offset (offset + udl) in Inr (ud, utf16_decode ud)
     else if dcs = GSM_7BIT then
       let packed_len = (udl * 7 + 7) div 8; ud = slice d offset (offset + packed_len)
       in Inr (ud, decode_gsm7 ud udl)
     else Inr (slice d offset (offset + udl), []))"

definition user_data_ok :: "data_coding \<Rightarrow> ustr \<Rightarrow> bytes \<Rightarrow> bool" where
  "user_data_ok dcs text ud \<longleftrightarrow> (case dcs of
     GSM_7BIT \<Rightarrow> gsm7_text text \<and> length text < 256 \<and> ud = encode_gsm7 text
   | UCS2 \<Rightarrow> unicode_text text \<and> utf16_encode text = Inr ud \<and> length ud < 256
   | EIGHT_BIT \<Rightarrow> text = [] \<and> length ud < 256)"

lemma write_user_data_ok:
  assumes "user_data_ok dcs text ud" "ud0 = ud \<or> ud0 = []" "dcs = EIGHT_BIT \<Longrightarrow> ud0 = ud"
  shows "\<exists>udl. write_user_data dcs text ud0 = Inr (ud, udl # ud)
    \<and> (\<forall>pre post. read_user_data dcs (pre @ (udl # ud) @ post) (length pre) = Inr (ud, text))"
proof (cases dcs)
  case GSM_7BIT
  with assms have t: "gsm7_text text" "length text < 256" "ud = encode_gsm7 text" by (simp_all add: user_data_ok_def)
  have e: "text = [] \<Longrightarrow> ud = []" using t(3) length_encode_gsm7 [of "text"] by simp
  have "fill_user_data dcs text ud0 = Inr ud" using GSM_7BIT assms(2) t(3) e by (auto simp: fill_user_data_def)
  moreover have "user_data_length dcs text ud = int (length text)"
    using GSM_7BIT e by (auto simp: user_data_length_def)
  moreover have "read_user_data dcs (pre @ (word_of_nat (length text) # ud) @ post) (length pre) = Inr (ud, text)" for pre post
    using GSM_7BIT decode_encode_gsm7_text [OF t(1)] length_encode_gsm7 [of "text"]
    by (simp add: read_user_data_def idx_def nth_append unat_byte_of_nat [OF t(2)] slice_def Let_def t(3) mult.commute)
  ultimately show ?thesis by (simp add: write_user_data_def mk_byte_nat [OF t(2)])
next
  case UCS2
  with assms have t: "unicode_text text" "utf16_encode text = Inr ud" "length ud < 256" by (simp_all add: user_data_ok_def)
  have dd: "utf16_decode ud = text" using utf16_roundtrip [OF t(1)] t(2) by simp
  have "fill_user_data dcs text ud0 = Inr ud"
    using UCS2 assms(2) t(2) by (auto simp: fill_user_data_def utf16_encode_def)
  moreover have "user_data_length dcs text ud = int (length ud)" using UCS2 by (simp add: user_data_length_def)
  moreover have "read_user_data dcs (pre @ (word_of_nat (length ud) # ud) @ post) (length pre) = Inr (ud, text)" for pre post
    using UCS2 dd by (simp add: read_user_data_def idx_def nth_append unat_byte_of_nat [OF t(3)] slice_def Let_def)
  ultimately show ?thesis by (simp add: write_user_data_def mk_byte_nat [OF t(3)])
next
  case EIGHT_BIT
  with assms have t: "text = []" "length ud < 256" "ud0 = ud" by (simp_all add: user_data_ok_def)
  have "user_data_length dcs text ud = int (length ud)" using EIGHT_BIT by (simp add: user_data_length_def)
  moreover have "read_user_data dcs (pre @ (word_of_nat (length ud) # ud) @ post) (length pre) = Inr (ud, text)" for pre post
    using EIGHT_BIT t by (simp add: read_user_data_def idx_def nth_append unat_byte_of_nat slice_def Let_def)
  ultimately show ?thesis using t by (simp add: write_user_data_def fill_user_data_def mk_byte_nat)
qed

section \<open>SMS-SUBMIT\<close>

record submit =
  message_ref :: int
  destination :: sms_address
  sub_pid :: int
  sub_dcs :: data_coding
  validity_period :: "int option"
  sub_ud :: bytes
  sub_text :: ustr
  reject_duplicates :: bool
  status_report_request :: bool
  sub_udh :: bool
  sub_reply_path :: bool

definition new_submit :: submit where
  "new_submit = \<lparr>message_ref = 0, destination = default_address, sub_pid = 0, sub_dcs = GSM_7BIT,
     validity_period = None, sub_ud = [], sub_text = [], reject_duplicates = False,
     status_report_request = False, sub_udh = False, sub_reply_path = False\<rparr>"

definition submit_from_bytes :: "bytes \<Rightarrow> submit res" where
  "submit_from_bytes d =
     rbind (idx d 0) (\<lambda>f. let flags = uint f; vpf = drop_bit 3 flags AND 3 in
     rbind (idx d 1) (\<lambda>mr.
     rbind (address_from_bytes d 2) (\<lambda>(da, o1).
     rbind (idx d o1) (\<lambda>pid.
     rbind (idx d (o1 + 1)) (\<lambda>c. rbind (dcs_of (uint c AND 0x0C)) (\<lambda>dcs.
     let o2 = o1 + 2 in
     rbind (if vpf = 2 then rbind (idx d o2) (\<lambda>v. Inr (Some (uint v), o2 + 1))
            else if vpf = 3 \<or> vpf = 1 then Inr (None, o2 + 7) else Inr (None, o2)) (\<lambda>(vp, o3).
     rbind (read_user_data dcs d o3) (\<lambda>(ud, text).
     Inr \<lparr>message_ref = uint mr, destination = da, sub_pid = uint pid, sub_dcs = dcs, validity_period = vp,
          sub_ud = ud, sub_text = text, reject_duplicates = (flags AND 0x04 \<noteq> 0),
          status_report_request = (flags AND 0x20 \<noteq> 0), sub_udh = (flags AND 0x40 \<noteq> 0),
          sub_reply_path = (flags AND 0x80 \<noteq> 0)\<rparr>))))))))"

definition flag_if :: "bool \<Rightarrow> int \<Rightarrow> int \<Rightarrow> int" where
  "flag_if b m flags = (if b then flags OR m else flags)"

definition submit_flags :: "submit \<Rightarrow> int" where
  "submit_flags m = flag_if (sub_reply_path m) 0x80 (flag_if (sub_udh m) 0x40
     (flag_if (status_report_request m) 0x20 (flag_if (validity_period m \<noteq> None) 0x10
     (flag_if (reject_duplicates m) 0x04 1))))"

definition submit_to_bytes :: "submit \<Rightarrow> (submit \<times> bytes) res" where
  "submit_to_bytes m =
     rbind (mk_byte (submit_flags m)) (\<lambda>flags.
     rbind (mk_byte (message_ref m AND 0xFF)) (\<lambda>mr.
     rbind (address_to_bytes (destination m)) (\<lambda>da.
     rbind (mk_byte (sub_pid m)) (\<lambda>pid.
     rbind (mk_byte (dcs_value (sub_dcs m))) (\<lambda>dcs.
     rbind (case validity_period m of None \<Rightarrow> Inr [] | Some v \<Rightarrow> rbind (mk_byte v) (\<lambda>b. Inr [b])) (\<lambda>vp.
     rbind (write_user_data (sub_dcs m) (sub_text m) (sub_ud m)) (\<lambda>(ud, tail).
     Inr (m\<lparr>sub_ud := ud\<rparr>, [flags, mr] @ da @ [pid, dcs] @ vp @ tail))))))))"

definition create_submit :: "ustr \<Rightarrow> ustr \<Rightarrow> data_coding \<Rightarrow> int \<Rightarrow> submit" where
  "create_submit dest text dcs ref = new_submit\<lparr>message_ref := ref,
     destination := address_international dest, sub_dcs := dcs, sub_text := text\<rparr>"

text \<open>Messages in their encoded form: \<^verbatim>\<open>user_data\<close> is the coding of \<^verbatim>\<open>text\<close>.\<close>

definition submit_head_ok :: "submit \<Rightarrow> bool" where
  "submit_head_ok m \<longleftrightarrow> 0 \<le> message_ref m \<and> message_ref m < 256 \<and> address_ok (destination m)
     \<and> 0 \<le> sub_pid m \<and> sub_pid m < 256
     \<and> (case validity_period m of None \<Rightarrow> True | Some v \<Rightarrow> 0 \<le> v \<and> v < 256)"

definition submit_ok :: "submit \<Rightarrow> bool" where
  "submit_ok m \<longleftrightarrow> submit_head_ok m \<and> user_data_ok (sub_dcs m) (sub_text m) (sub_ud m)"

lemma submit_flags_bits:
  "0 \<le> submit_flags m" "submit_flags m < 256"
  "submit_flags m AND 0x04 \<noteq> 0 \<longleftrightarrow> reject_duplicates m" "submit_flags m AND 0x20 \<noteq> 0 \<longleftrightarrow> status_report_request m"
  "submit_flags m AND 0x40 \<noteq> 0 \<longleftrightarrow> sub_udh m" "submit_flags m AND 0x80 \<noteq> 0 \<longleftrightarrow> sub_reply_path m"
  "drop_bit 3 (submit_flags m) AND 3 = (if validity_period m \<noteq> None then 2 else 0)"
  by (cases "reject_duplicates m"; cases "status_report_request m"; cases "sub_udh m"; cases "sub_reply_path m";
      cases "validity_period m = None"; simp add: submit_flags_def flag_if_def)+

lemma dcs_masked: "0 \<le> dcs_value d \<and> dcs_value d < 256 \<and> dcs_value d AND 0x0C = dcs_value d"
  by (cases d) simp_all

text \<open>
  The fields before the user data are always read back; what the parser takes for the user data
  depends on what it finds at its offset.
\<close>

lemma submit_parse:
  assumes ok: "submit_head_ok m"
    and w: "write_user_data (sub_dcs m) (sub_text m) (sub_ud m) = Inr (ud, tail)"
    and r: "\<And>pre. read_user_data (sub_dcs m) (pre @ tail) (length pre) = Inr (ud', text')"
  shows "\<exists>bs. submit_to_bytes m = Inr (m\<lparr>sub_ud := ud\<rparr>, bs)
    \<and> submit_from_bytes bs = Inr (m\<lparr>sub_ud := ud', sub_text := text'\<rparr>)"
proof -
  note o = ok [unfolded submit_head_ok_def]
  obtain da where da: "address_to_bytes (destination m) = Inr da"
      "\<And>pre post. address_from_bytes (pre @ da @ post) (length pre) = Inr (destination m, length pre + length da)"
    using address_format.dec_here [of "destination m"] o by blast
  define vp where "vp = (case validity_period m of None \<Rightarrow> [] | Some v \<Rightarrow> [word_of_int v :: byte])"
  have vp: "(case validity_period m of None \<Rightarrow> Inr [] | Some v \<Rightarrow> rbind (mk_byte v) (\<lambda>b. Inr [b])) = Inr vp"
    using o by (auto simp: vp_def mk_byte_in split: option.splits)
  define h where "h = [word_of_int (submit_flags m), word_of_int (message_ref m AND 255)] @ da
      @ [word_of_int (sub_pid m), word_of_int (dcs_value (sub_dcs m))]"
  have enc: "submit_to_bytes m = Inr (m\<lparr>sub_ud := ud\<rparr>, h @ vp @ tail)"
    using o da w dcs_masked [of "sub_dcs m"] submit_flags_bits(1,2) [of m]
    by (simp add: submit_to_bytes_def mk_byte_in vp and_255_int h_def)
  have u: "uint (word_of_int (submit_flags m) :: byte) = submit_flags m"
    "uint (word_of_int (message_ref m AND 255) :: byte) = message_ref m"
    "uint (word_of_int (sub_pid m) :: byte) = sub_pid m"
    "uint (word_of_int (dcs_value (sub_dcs m)) :: byte) = dcs_value (sub_dcs m)"
    using o dcs_masked [of "sub_dcs m"] submit_flags_bits(1,2) [of m] by (simp_all add: uint_byte_of_int and_255_int)
  have hd: "idx (h @ r) 0 = Inr (word_of_int (submit_flags m))" "idx (h @ r) (Suc 0) = Inr (word_of_int (message_ref m AND 255))"
    "idx (h @ r) (Suc (Suc (length da))) = Inr (word_of_int (sub_pid m))"
    "idx (h @ r) (Suc (Suc (Suc (length da)))) = Inr (word_of_int (dcs_value (sub_dcs m)))" for r
    by (simp_all add: h_def idx_def nth_append)
  have ad: "address_from_bytes (h @ r) 2 = Inr (destination m, 2 + length da)" for r
    using da(2) [of "take 2 h"] by (simp add: h_def numeral_2_eq_2)
  have lh: "length h = Suc (Suc (Suc (Suc (length da))))" by (simp add: h_def)
  have rd: "read_user_data (sub_dcs m) (h @ vp @ tail) (length h + length vp) = Inr (ud', text')"
    using r [of "h @ vp"] by simp
  have dec: "submit_from_bytes (h @ vp @ tail) = Inr (m\<lparr>sub_ud := ud', sub_text := text'\<rparr>)"
  proof (cases "validity_period m")
    case None
    then show ?thesis using rd submit_flags_bits(3-7) [of m] dcs_masked [of "sub_dcs m"]
      by (simp add: submit_from_bytes_def hd ad u Let_def lh vp_def)
  next
    case (Some v)
    then have "idx (h @ vp @ tail) (Suc (Suc (Suc (Suc (length da))))) = Inr (word_of_int v)"
      "uint (word_of_int v :: byte) = v" "length vp = 1"
      using o by (simp_all add: lh [symmetric] vp_def idx_def nth_append uint_byte_of_int)
    with Some show ?thesis using rd submit_flags_bits(3-7) [of m] dcs_masked [of "sub_dcs m"]
      by (simp add: submit_from_bytes_def hd ad u Let_def lh)
  qed
  show ?thesis using enc dec by blast
qed

lemma submit_roundtrip_filled:
  assumes ok: "submit_ok m" and ud: "ud0 = sub_ud m \<or> ud0 = []" "sub_dcs m = EIGHT_BIT \<Longrightarrow> ud0 = sub_ud m"
  shows "\<exists>bs. submit_to_bytes (m\<lparr>sub_ud := ud0\<rparr>) = Inr (m, bs) \<and> submit_from_bytes bs = Inr m"
proof -
  obtain udl where w: "write_user_data (sub_dcs m) (sub_text m) ud0 = Inr (sub_ud m, udl # sub_ud m)"
      "\<And>pre post. read_user_data (sub_dcs m) (pre @ (udl # sub_ud m) @ post) (length pre) = Inr (sub_ud m, sub_text m)"
    using write_user_data_ok [of "sub_dcs m" "sub_text m" "sub_ud m" ud0] ok ud by (auto simp: submit_ok_def)
  have h: "submit_head_ok (m\<lparr>sub_ud := ud0\<rparr>)" using ok by (simp add: submit_ok_def submit_head_ok_def)
  have r: "read_user_data (sub_dcs m) (pre @ udl # sub_ud m) (length pre) = Inr (sub_ud m, sub_text m)" for pre
    using w(2) [of pre "[]"] by simp
  show ?thesis using submit_parse [OF h, of "sub_ud m" "udl # sub_ud m" "sub_ud m" "sub_text m"] w(1) r by simp
qed

interpretation submit_format: message_format submit_ok "\<lambda>m. rbind (submit_to_bytes m) (\<lambda>(_, bs). Inr bs)" submit_from_bytes
proof unfold_locales
  fix m assume ok: "submit_ok m"
  then show "\<exists>bs. rbind (submit_to_bytes m) (\<lambda>(_, bs). Inr bs) = Inr bs \<and> submit_from_bytes bs = Inr m"
    using submit_roundtrip_filled [OF ok, of "sub_ud m"] by auto
qed

text \<open>The text an application hands over, in one of the two text codings.\<close>

definition text_ok :: "data_coding \<Rightarrow> ustr \<Rightarrow> bool" where
  "text_ok dcs text \<longleftrightarrow> (case dcs of GSM_7BIT \<Rightarrow> gsm7_text text \<and> length text < 256
     | UCS2 \<Rightarrow> ucs2_text text \<and> length text < 128 | EIGHT_BIT \<Rightarrow> False)"

lemma text_ok_user_data:
  assumes "text_ok dcs text"
  obtains ud where "user_data_ok dcs text ud" "dcs \<noteq> EIGHT_BIT"
proof (cases dcs)
  case UCS2
  with assms have "ucs2_text text" "length text < 128" by (simp_all add: text_ok_def)
  moreover obtain bs where "utf16_encode text = Inr bs" "length bs = 2 * length text"
    using utf16_length calculation(1) by blast
  ultimately show ?thesis using UCS2 by (intro that [of bs]) (simp_all add: user_data_ok_def ucs2_unicode)
qed (use assms that in \<open>auto simp: text_ok_def user_data_ok_def\<close>)

definition phone_ok :: "ustr \<Rightarrow> bool" where
  "phone_ok t \<longleftrightarrow> digit_text (dropWhile (\<lambda>c. c = 43) t) \<and> length t < 256"

lemma international_ok: "phone_ok t \<Longrightarrow> address_ok (address_international t)"
proof -
  assume "phone_ok t"
  moreover have "length (dropWhile (\<lambda>c. c = 43) t) \<le> length t" by (rule length_dropWhile_le)
  ultimately show ?thesis by (simp add: phone_ok_def address_ok_def address_international_def)
qed

text \<open>
  An SMS-SUBMIT created from a phone number and a text in the GSM alphabet or in UCS-2
  serialises, and the parser returns the message: the same number, reference and text.
\<close>

theorem submit_create_roundtrip:
  assumes "phone_ok dest" "text_ok dcs text" "0 \<le> ref" "ref < 256"
  shows "\<exists>m bs. submit_to_bytes (create_submit dest text dcs ref) = Inr (m, bs) \<and> submit_from_bytes bs = Inr m
    \<and> sub_text m = text \<and> sub_dcs m = dcs \<and> message_ref m = ref
    \<and> destination m = address_international dest"
proof -
  obtain ud where ud: "user_data_ok dcs text ud" "dcs \<noteq> EIGHT_BIT" using text_ok_user_data [OF assms(2)] by blast
  let ?m = "(create_submit dest text dcs ref)\<lparr>sub_ud := ud\<rparr>"
  have "submit_ok ?m"
    using assms ud international_ok [OF assms(1)] by (simp add: submit_ok_def submit_head_ok_def create_submit_def new_submit_def)
  moreover have "?m\<lparr>sub_ud := []\<rparr> = create_submit dest text dcs ref" by (simp add: create_submit_def new_submit_def)
  ultimately obtain bs where "submit_to_bytes (create_submit dest text dcs ref) = Inr (?m, bs)" "submit_from_bytes bs = Inr ?m"
    using submit_roundtrip_filled [of ?m "[]"] ud(2) by (auto simp: create_submit_def new_submit_def)
  then show ?thesis by (intro exI [of _ ?m] exI [of _ bs]) (simp add: create_submit_def new_submit_def)
qed

theorem submit_create_roundtrip_witness:
  "\<exists>m bs. submit_to_bytes (create_submit [43, 49, 53, 53] [72, 105] GSM_7BIT 7) = Inr (m, bs)
     \<and> submit_from_bytes bs = Inr m \<and> sub_text m = [72, 105]"
  using submit_create_roundtrip [of "[43, 49, 53, 53]" GSM_7BIT "[72, 105]" 7]
  by (auto simp: phone_ok_def text_ok_def gsm7_text_def GSM7_BASIC_def)

section \<open>SMS-DELIVER\<close>

record deliver =
  originator :: sms_address
  del_pid :: int
  del_dcs :: data_coding
  timestamp :: bytes
  del_ud :: bytes
  del_text :: ustr
  more_messages :: bool
  status_report_indication :: bool
  del_udh :: bool
  del_reply_path :: bool

definition new_deliver :: deliver where
  "new_deliver = \<lparr>originator = default_address, del_pid = 0, del_dcs = GSM_7BIT, timestamp = replicate 7 0,
     del_ud = [], del_text = [], more_messages = True, status_report_indication = False, del_udh = False,
     del_reply_path = False\<rparr>"

definition deliver_from_bytes :: "bytes \<Rightarrow> deliver res" where
  "deliver_from_bytes d =
     rbind (idx d 0) (\<lambda>f. let flags = uint f in
     rbind (address_from_bytes d 1) (\<lambda>(oa, o1).
     rbind (idx d o1) (\<lambda>pid.
     rbind (idx d (o1 + 1)) (\<lambda>c. rbind (dcs_of (uint c AND 0x0C)) (\<lambda>dcs.
     let ts = slice d (o1 + 2) (o1 + 2 + 7) in
     rbind (read_user_data dcs d (o1 + 9)) (\<lambda>(ud, text).
     Inr \<lparr>originator = oa, del_pid = uint pid, del_dcs = dcs, timestamp = ts, del_ud = ud, del_text = text,
          more_messages = (flags AND 0x04 = 0), status_report_indication = (flags AND 0x20 \<noteq> 0),
          del_udh = (flags AND 0x40 \<noteq> 0), del_reply_path = (flags AND 0x80 \<noteq> 0)\<rparr>))))))"

definition deliver_flags :: "deliver \<Rightarrow> int" where
  "deliver_flags m = flag_if (del_reply_path m) 0x80 (flag_if (del_udh m) 0x40
     (flag_if (status_report_indication m) 0x20 (flag_if (\<not> more_messages m) 0x04 0)))"

definition deliver_to_bytes :: "deliver \<Rightarrow> (deliver \<times> bytes) res" where
  "deliver_to_bytes m =
     rbind (mk_byte (deliver_flags m)) (\<lambda>flags.
     rbind (address_to_bytes (originator m)) (\<lambda>oa.
     rbind (mk_byte (del_pid m)) (\<lambda>pid.
     rbind (mk_byte (dcs_value (del_dcs m))) (\<lambda>dcs.
     let ts = (if length (timestamp m) = 7 then timestamp m else replicate 7 0) in
     rbind (write_user_data (del_dcs m) (del_text m) (del_ud m)) (\<lambda>(ud, tail).
     Inr (m\<lparr>del_ud := ud\<rparr>, [flags] @ oa @ [pid, dcs] @ ts @ tail))))))"

definition create_deliver :: "ustr \<Rightarrow> ustr \<Rightarrow> data_coding \<Rightarrow> bytes \<Rightarrow> deliver" where
  "create_deliver from text dcs scts_now = new_deliver\<lparr>originator := address_international from, del_dcs := dcs,
     del_text := text, timestamp := scts_now\<rparr>"

definition deliver_ok :: "deliver \<Rightarrow> bool" where
  "deliver_ok m \<longleftrightarrow> address_ok (originator m) \<and> 0 \<le> del_pid m \<and> del_pid m < 256 \<and> length (timestamp m) = 7
     \<and> user_data_ok (del_dcs m) (del_text m) (del_ud m)"

lemma deliver_flags_bits:
  "0 \<le> deliver_flags m" "deliver_flags m < 256"
  "deliver_flags m AND 0x04 = 0 \<longleftrightarrow> more_messages m" "deliver_flags m AND 0x20 \<noteq> 0 \<longleftrightarrow> status_report_indication m"
  "deliver_flags m AND 0x40 \<noteq> 0 \<longleftrightarrow> del_udh m" "deliver_flags m AND 0x80 \<noteq> 0 \<longleftrightarrow> del_reply_path m"
  by (cases "more_messages m"; cases "status_report_indication m"; cases "del_udh m"; cases "del_reply_path m";
      simp add: deliver_flags_def flag_if_def)+

lemma deliver_roundtrip_filled:
  assumes ok: "deliver_ok m" and ud: "ud0 = del_ud m \<or> ud0 = []" "del_dcs m = EIGHT_BIT \<Longrightarrow> ud0 = del_ud m"
  shows "\<exists>bs. deliver_to_bytes (m\<lparr>del_ud := ud0\<rparr>) = Inr (m, bs) \<and> deliver_from_bytes bs = Inr m"
proof -
  note o = ok [unfolded deliver_ok_def]
  obtain oa where oa: "address_to_bytes (originator m) = Inr oa"
      "\<And>pre post. address_from_bytes (pre @ oa @ post) (length pre) = Inr (originator m, length pre + length oa)"
    using address_format.dec_here [of "originator m"] o by blast
  obtain udl where w: "write_user_data (del_dcs m) (del_text m) ud0 = Inr (del_ud m, udl # del_ud m)"
      "\<And>pre post. read_user_data (del_dcs m) (pre @ (udl # del_ud m) @ post) (length pre) = Inr (del_ud m, del_text m)"
    using write_user_data_ok [of "del_dcs m" "del_text m" "del_ud m" ud0] o ud by blast
  have fl: "deliver_flags (m\<lparr>del_ud := ud0\<rparr>) = deliver_flags m" by (simp add: deliver_flags_def)
  define h where "h = [word_of_int (deliver_flags m)] @ oa @ [word_of_int (del_pid m), word_of_int (dcs_value (del_dcs m))]"
  have enc: "deliver_to_bytes (m\<lparr>del_ud := ud0\<rparr>) = Inr (m, h @ timestamp m @ udl # del_ud m)"
    using o oa w(1) dcs_masked [of "del_dcs m"] deliver_flags_bits(1,2) [of m]
    by (simp add: deliver_to_bytes_def mk_byte_in fl h_def)
  have u: "uint (word_of_int (deliver_flags m) :: byte) = deliver_flags m"
    "uint (word_of_int (del_pid m) :: byte) = del_pid m"
    "uint (word_of_int (dcs_value (del_dcs m)) :: byte) = dcs_value (del_dcs m)"
    using o dcs_masked [of "del_dcs m"] deliver_flags_bits(1,2) [of m] by (simp_all add: uint_byte_of_int)
  have hd: "idx (h @ r) 0 = Inr (word_of_int (deliver_flags m))"
    "idx (h @ r) (Suc (length oa)) = Inr (word_of_int (del_pid m))"
    "idx (h @ r) (Suc (Suc (length oa))) = Inr (word_of_int (dcs_value (del_dcs m)))" for r
    by (simp_all add: h_def idx_def nth_append)
  have ad: "address_from_bytes (h @ r) (Suc 0) = Inr (originator m, Suc (length oa))" for r
    using oa(2) [of "take 1 h"] by (simp add: h_def)
  have lh: "length h = Suc (Suc (Suc (length oa)))" by (simp add: h_def)
  have ts: "slice (h @ timestamp m @ r) (length h) (length h + 7) = timestamp m" for r
    using o by (simp add: slice_def)
  have rd: "read_user_data (del_dcs m) (h @ timestamp m @ udl # del_ud m) (length h + 7) = Inr (del_ud m, del_text m)"
    using w(2) [of "h @ timestamp m" "[]"] o by simp
  have "deliver_from_bytes (h @ timestamp m @ udl # del_ud m) = Inr m"
    using rd ts deliver_flags_bits(3-6) [of m] dcs_masked [of "del_dcs m"]
    by (simp add: deliver_from_bytes_def hd ad u Let_def lh)
  with enc show ?thesis by blast
qed

interpretation deliver_format: message_format deliver_ok "\<lambda>m. rbind (deliver_to_bytes m) (\<lambda>(_, bs). Inr bs)" deliver_from_bytes
proof unfold_locales
  fix m assume ok: "deliver_ok m"
  then show "\<exists>bs. rbind (deliver_to_bytes m) (\<lambda>(_, bs). Inr bs) = Inr bs \<and> deliver_from_bytes bs = Inr m"
    using deliver_roundtrip_filled [OF ok, of "del_ud m"] by auto
qed

text \<open>
  an SMS-DELIVER in encoded form is parsed back whole: originator, coding, timestamp, text,
  user data and every flag, and two different messages never share an encoding.
\<close>

theorem deliver_roundtrip:
  assumes "deliver_ok m" "deliver_ok n"
  shows "rbind (deliver_to_bytes m) (\<lambda>(_, bs). deliver_from_bytes bs) = Inr m
     \<and> (rbind (deliver_to_bytes m) (\<lambda>(_, bs). Inr bs) = rbind (deliver_to_bytes n) (\<lambda>(_, bs). Inr bs) \<longrightarrow> m = n)"
proof -
  obtain bs where "deliver_to_bytes m = Inr (m, bs)" "deliver_from_bytes bs = Inr m"
    using deliver_roundtrip_filled [OF assms(1), of "del_ud m"] by auto
  then show ?thesis using deliver_format.unambiguous [OF assms] by auto
qed

definition sample_deliver :: deliver where
  "sample_deliver = (create_deliver [49, 53, 53, 53] [] GSM_7BIT (replicate 7 0x21))\<lparr>more_messages := False\<rparr>"

lemma sample_deliver_ok: "deliver_ok sample_deliver"
  using length_encode_gsm7 [of "[]"]
  by (simp add: sample_deliver_def create_deliver_def new_deliver_def deliver_ok_def user_data_ok_def gsm7_text_def
      international_ok phone_ok_def)

theorem deliver_roundtrip_witness:
  "rbind (deliver_to_bytes sample_deliver) (\<lambda>(_, bs). deliver_from_bytes bs) = Inr sample_deliver"
  using deliver_roundtrip [OF sample_deliver_ok sample_deliver_ok] by blast

end
