(* ===== verification/Sms_Concat.thy ===== *)
theory Sms_Concat
  imports Sms_Tpdu "HOL-Library.Multiset"
begin

text \<open>
  Concatenated messages of \<^verbatim>\<open>ims/sms_pdu.py\<close>: the user-data header, splitting with the module's
  reference counter passed in and out, and reassembly.
\<close>

section \<open>The user-data header\<close>

definition encode_udh_concat :: "nat \<Rightarrow> nat \<Rightarrow> nat \<Rightarrow> bytes" where
  "encode_udh_concat ref total_parts part_num =
     [0x05, 0x00, 0x03, word_of_nat (ref AND 0xFF), word_of_nat (total_parts AND 0xFF), word_of_nat (part_num AND 0xFF)]"

text \<open>The loop over the information elements; each turn moves the offset by at least two.\<close>

function udh_loop :: "bytes \<Rightarrow> nat \<Rightarrow> nat \<Rightarrow> (nat \<times> nat \<times> nat) option" where
  "udh_loop udh limit offset =
     (if \<not> offset < limit then None
      else if offset + 1 \<ge> length udh then None
      else let iei = unat (udh ! offset); ie_len = unat (udh ! (offset + 1)) in
        if offset + 2 + ie_len > length udh then None
        else if iei = 0 \<and> ie_len = 3 then
          Some (unat (udh ! (offset + 2)), unat (udh ! (offset + 3)), unat (udh ! (offset + 4)))
        else if iei = 8 \<and> ie_len = 4 then
          Some (push_bit 8 (unat (udh ! (offset + 2))) OR unat (udh ! (offset + 3)),
                unat (udh ! (offset + 4)), unat (udh ! (offset + 5)))
        else udh_loop udh limit (offset + 2 + ie_len))"
  by pat_completeness auto
termination by (relation "measure (\<lambda>(udh, limit, offset). limit - offset)") auto

declare udh_loop.simps [simp del]

definition decode_udh_concat :: "bytes \<Rightarrow> (nat \<times> nat \<times> nat) option" where
  "decode_udh_concat udh =
     (if length udh < 1 then None
      else let udhl = unat (udh ! 0) in
        if length udh < 1 + udhl then None else udh_loop udh (1 + udhl) 1)"

lemma decode_encode_udh:
  "ref < 256 \<Longrightarrow> tot < 256 \<Longrightarrow> i < 256 \<Longrightarrow> decode_udh_concat (encode_udh_concat ref tot i @ r) = Some (ref, tot, i)"
  by (simp add: decode_udh_concat_def encode_udh_concat_def udh_loop.simps and_255_nat unat_byte_of_nat Let_def)

section \<open>Splitting\<close>

text \<open>\<^verbatim>\<open>while remaining: ...\<close> with a positive part length.\<close>

function chunks :: "nat \<Rightarrow> 'a list \<Rightarrow> 'a list list" where
  "chunks n xs = (if xs = [] \<or> n = 0 then [] else take n xs # chunks n (drop n xs))"
  by pat_completeness auto
termination by (relation "measure (\<lambda>(n, xs). length xs)") auto

declare chunks.simps [simp del]

lemma concat_chunks: "n > 0 \<Longrightarrow> concat (chunks n xs) = xs"
  by (induction n xs rule: chunks.induct) (subst chunks.simps, simp)

lemma chunks_nonempty: "x \<in> set (chunks n xs) \<Longrightarrow> x \<noteq> [] \<and> length x \<le> n \<and> set x \<subseteq> set xs"
proof (induction n xs rule: chunks.induct)
  case (1 n xs)
  then show ?case
    by (subst (asm) chunks.simps) (auto split: if_splits dest: in_set_takeD in_set_dropD)
qed

lemma length_chunks: "n > 0 \<Longrightarrow> length (chunks n xs) = (length xs + n - 1) div n"
proof (induction n xs rule: chunks.induct)
  case (1 n xs)
  show ?case
  proof (cases "xs = []")
    case True
    with 1 show ?thesis by (subst chunks.simps) simp
  next
    case False
    then have "length (chunks n xs) = Suc ((length xs - n + n - 1) div n)"
      using 1 by (subst chunks.simps) simp
    also have "\<dots> = (length xs + n - 1) div n"
    proof (cases "length xs \<le> n")
      case True
      have "length xs + n - 1 = n + (length xs - 1)" "length xs - 1 < n"
        using True False 1(2) by (cases xs; simp)+
      then have "(length xs + n - 1) div n = Suc 0" using 1(2) by (simp only: div_add_self1 div_less)
      moreover have "(n - 1) div n = 0" using 1(2) by simp
      ultimately show ?thesis using True by simp
    next
      case f: False
      then have "length xs + n - 1 = n + (length xs - n + n - 1)" using 1(2) by simp
      then have "(length xs + n - 1) div n = (length xs - n + n - 1) div n + 1"
        using 1(2) by (metis div_add_self1 less_numeral_extra(3))
      then show ?thesis by simp
    qed
    finally show ?thesis .
  qed
qed

definition GSM7_SINGLE_LIMIT :: nat where "GSM7_SINGLE_LIMIT = 160"
definition GSM7_CONCAT_LIMIT :: nat where "GSM7_CONCAT_LIMIT = 153"
definition UCS2_SINGLE_LIMIT :: nat where "UCS2_SINGLE_LIMIT = 70"
definition UCS2_CONCAT_LIMIT :: nat where "UCS2_CONCAT_LIMIT = 67"

lemmas limits = GSM7_SINGLE_LIMIT_def GSM7_CONCAT_LIMIT_def UCS2_SINGLE_LIMIT_def UCS2_CONCAT_LIMIT_def

definition single_limit :: "data_coding \<Rightarrow> nat" where
  "single_limit dcs = (if dcs = UCS2 then UCS2_SINGLE_LIMIT else GSM7_SINGLE_LIMIT)"

definition concat_limit :: "data_coding \<Rightarrow> nat" where
  "concat_limit dcs = (if dcs = UCS2 then UCS2_CONCAT_LIMIT else GSM7_CONCAT_LIMIT)"

definition next_concat_ref :: "nat \<Rightarrow> nat \<times> nat" where
  "next_concat_ref counter = (counter, (counter + 1) AND 0xFF)"

definition make_part :: "ustr \<Rightarrow> data_coding \<Rightarrow> int \<Rightarrow> nat \<Rightarrow> nat \<Rightarrow> nat \<times> ustr \<Rightarrow> submit res" where
  "make_part dest dcs msg_ref concat_ref total_parts part = (case part of (i, part_text) \<Rightarrow>
     let udh = encode_udh_concat concat_ref total_parts i in
     rbind (if dcs = UCS2 then utf16_encode part_text else Inr (encode_gsm7 part_text)) (\<lambda>encoded_text.
     Inr (new_submit\<lparr>message_ref := (msg_ref + int i - 1) AND 0xFF, destination := address_international dest,
            sub_dcs := dcs, sub_udh := True, sub_text := part_text, sub_ud := udh @ encoded_text\<rparr>)))"

definition split_multipart :: "ustr \<Rightarrow> ustr \<Rightarrow> data_coding \<Rightarrow> int \<Rightarrow> nat \<Rightarrow> (submit list \<times> nat) res" where
  "split_multipart dest text dcs msg_ref counter =
     (if length text \<le> single_limit dcs then Inr ([create_submit dest text dcs msg_ref], counter)
      else let parts_text = chunks (concat_limit dcs) text;
               (concat_ref, counter') = next_concat_ref counter;
               total_parts = length parts_text
        in rbind (rmap (make_part dest dcs msg_ref concat_ref total_parts) (zip [1..<Suc total_parts] parts_text))
             (\<lambda>ms. Inr (ms, counter')))"

section \<open>Reassembly\<close>

definition reassemble_multipart :: "(nat \<times> nat \<times> ustr) list \<Rightarrow> ustr option" where
  "reassemble_multipart parts =
     (if parts = [] then None
      else let sorted_parts = sort_key fst parts; total = fst (snd (hd sorted_parts)) in
        if length sorted_parts \<noteq> total then None
        else if map fst sorted_parts \<noteq> [1..<Suc (length sorted_parts)] then None
        else Some (concat (map (\<lambda>(_, _, d). d) sorted_parts)))"

text \<open>What a receiver collects from a part: its number and count from the header, and the text.\<close>

definition collect :: "submit \<Rightarrow> (nat \<times> nat \<times> ustr) option" where
  "collect m = map_option (\<lambda>(_, total, i). (i, total, sub_text m)) (decode_udh_concat (sub_ud m))"

lemma zip_numbered_sorted: "sorted (map fst (zip [1..<Suc (length xs)] xs))" "map fst (zip [1..<Suc (length xs)] xs) = [1..<Suc (length xs)]"
  by (simp_all del: upt_Suc)

lemma sort_key_permuted:
  assumes "mset ps = mset qs" "sorted (map f qs)" "distinct (map f qs)"
  shows "sort_key f ps = qs"
proof (rule sort_key_inj_key_eq [OF assms(1) _ assms(2)])
  have "set ps = set qs" using assms(1) by (metis set_mset_mset)
  then show "inj_on f (set ps)" using assms(3) by (simp add: distinct_map)
qed

definition numbered :: "ustr list \<Rightarrow> (nat \<times> nat \<times> ustr) list" where
  "numbered ts = map (\<lambda>(i, t). (i, length ts, t)) (zip [1..<Suc (length ts)] ts)"

lemma fst_numbered: "map fst (numbered ts) = [1..<Suc (length ts)]"
proof -
  have "map fst (numbered ts) = map fst (zip [1..<Suc (length ts)] ts)"
    unfolding numbered_def map_map by (rule map_cong) auto
  then show ?thesis by (simp del: upt_Suc)
qed

lemma reassemble_numbered:
  assumes "mset ps = mset (numbered ts)" "ts \<noteq> []"
  shows "reassemble_multipart ps = Some (concat ts)"
proof -
  have s: "sort_key fst ps = numbered ts"
    by (rule sort_key_permuted [OF assms(1)]) (simp_all add: fst_numbered del: upt_Suc)
  have l: "length (numbered ts) = length ts" by (simp add: numbered_def del: upt_Suc)
  have ne: "numbered ts \<noteq> []" using assms(2) l by auto
  then have "ps \<noteq> []" using assms(1) by auto
  moreover have "fst (snd (hd (numbered ts))) = length ts"
  proof -
    have "hd (numbered ts) \<in> set (numbered ts)" using ne by simp
    then show ?thesis by (auto simp: numbered_def)
  qed
  moreover have "map (\<lambda>(_, _, d). d) (numbered ts) = ts"
  proof -
    have "map (\<lambda>(_, _, d). d) (numbered ts) = map snd (zip [1..<Suc (length ts)] ts)"
      unfolding numbered_def map_map by (rule map_cong) auto
    also have "\<dots> = ts" by (rule map_snd_zip) (simp del: upt_Suc)
    finally show ?thesis .
  qed
  ultimately show ?thesis using l by (simp add: reassemble_multipart_def s fst_numbered Let_def del: upt_Suc)
qed

lemma reassemble_incomplete:
  assumes "length ps \<noteq> n" "ps \<noteq> []" "\<And>p. p \<in> set ps \<Longrightarrow> fst (snd p) = n"
  shows "reassemble_multipart ps = None"
proof -
  have "sort_key fst ps \<noteq> []" using assms(2) by (metis length_0_conv length_sort)
  then have "hd (sort_key fst ps) \<in> set ps" by (metis hd_in_set set_sort)
  then show ?thesis using assms by (simp add: reassemble_multipart_def Let_def)
qed

section \<open>Splitting and reassembling\<close>

definition part_of :: "ustr \<Rightarrow> data_coding \<Rightarrow> int \<Rightarrow> nat \<Rightarrow> nat \<Rightarrow> nat \<times> ustr \<Rightarrow> submit" where
  "part_of dest dcs msg_ref ref n p = (case make_part dest dcs msg_ref ref n p of Inr m \<Rightarrow> m | Inl _ \<Rightarrow> undefined)"

lemma make_part_total:
  assumes "dcs = UCS2 \<Longrightarrow> ucs2_text t"
  shows "\<exists>coded. make_part dest dcs msg_ref ref n (i, t) = Inr (part_of dest dcs msg_ref ref n (i, t))
    \<and> (if dcs = UCS2 then utf16_encode t = Inr coded else coded = encode_gsm7 t)
    \<and> part_of dest dcs msg_ref ref n (i, t) = new_submit\<lparr>message_ref := (msg_ref + int i - 1) AND 0xFF,
        destination := address_international dest, sub_dcs := dcs, sub_udh := True, sub_text := t,
        sub_ud := encode_udh_concat ref n i @ coded\<rparr>"
proof -
  obtain coded where "if dcs = UCS2 then utf16_encode t = Inr coded else coded = encode_gsm7 t"
    using assms utf16_length [of t] by (cases "dcs = UCS2") auto
  then show ?thesis by (intro exI [of _ coded]) (auto simp: make_part_def part_of_def)
qed

lemma split_multipart_parts:
  assumes "length text > single_limit dcs" "dcs = UCS2 \<Longrightarrow> ucs2_text text"
  defines "ts \<equiv> chunks (concat_limit dcs) text"
  shows "split_multipart dest text dcs msg_ref counter =
      Inr (map (part_of dest dcs msg_ref counter (length ts)) (zip [1..<Suc (length ts)] ts), (counter + 1) mod 256)"
proof -
  have "rmap (make_part dest dcs msg_ref counter (length ts)) (zip [1..<Suc (length ts)] ts)
      = Inr (map (part_of dest dcs msg_ref counter (length ts)) (zip [1..<Suc (length ts)] ts))"
  proof (rule rmap_Inr)
    fix p assume "p \<in> set (zip [1..<Suc (length ts)] ts)"
    moreover obtain i t where p: "p = (i, t)" by (cases p)
    ultimately have "t \<in> set ts" by (auto dest: set_zip_rightD)
    then have "set t \<subseteq> set text" using chunks_nonempty [of t "concat_limit dcs" "text"] by (simp add: ts_def)
    then have "dcs = UCS2 \<Longrightarrow> ucs2_text t" using assms(2) by (auto simp: ucs2_text_def list_all_iff)
    then show "make_part dest dcs msg_ref counter (length ts) p = Inr (part_of dest dcs msg_ref counter (length ts) p)"
      using make_part_total p by blast
  qed
  then show ?thesis using assms(1)
    by (simp add: split_multipart_def next_concat_ref_def and_255_nat ts_def [symmetric] Let_def del: upt_Suc)
qed

lemma concat_limit_pos: "0 < concat_limit dcs"
  by (simp add: concat_limit_def limits)



text \<open>
  A GSM 7-bit part of a split message does not survive its own transport format: the length
  octet counts the text's septets but not the header, so the receiver's parser drops the last six
  octets of the user data, for every part of every split.
\<close>

theorem gsm7_part_truncated:
  assumes "length text > 160" "phone_ok dest" "split_multipart dest text GSM_7BIT msg_ref counter = Inr (ms, counter')"
    and "m \<in> set ms"
  shows "\<exists>bs m'. submit_to_bytes m = Inr (m, bs) \<and> submit_from_bytes bs = Inr m'
    \<and> sub_ud m' = take (length (sub_ud m) - 6) (sub_ud m)"
proof -
  define ts where "ts = chunks (concat_limit GSM_7BIT) text"
  define n where "n = length ts"
  have sl: "single_limit GSM_7BIT < length text" using assms(1) by (simp add: single_limit_def limits)
  have "ms = map (part_of dest GSM_7BIT msg_ref counter n) (zip [1..<Suc n] ts)"
    using split_multipart_parts [OF sl, of dest msg_ref counter] assms(3)
    unfolding n_def ts_def by simp
  then obtain i t where it: "(i, t) \<in> set (zip [1..<Suc n] ts)" and m: "m = part_of dest GSM_7BIT msg_ref counter n (i, t)"
    using assms(4) by auto
  then have t: "t \<in> set ts" by (auto dest: set_zip_rightD)
  then have ch: "t \<noteq> []" "length t \<le> 153"
    using chunks_nonempty [of t "concat_limit GSM_7BIT" "text"] by (simp_all add: ts_def concat_limit_def limits)
  have meq: "m = new_submit\<lparr>message_ref := (msg_ref + int i - 1) AND 0xFF, destination := address_international dest,
      sub_dcs := GSM_7BIT, sub_udh := True, sub_text := t, sub_ud := encode_udh_concat counter n i @ encode_gsm7 t\<rparr>"
    unfolding m using make_part_total [of GSM_7BIT t dest msg_ref counter n i] by auto
  have h: "submit_head_ok m"
    using international_ok [OF assms(2)] by (simp add: submit_head_ok_def meq new_submit_def and_255_int)
  have u: "length (sub_ud m) = 6 + (7 * length t + 7) div 8"
    by (simp add: meq encode_udh_concat_def length_encode_gsm7)
  have w: "write_user_data (sub_dcs m) (sub_text m) (sub_ud m) = Inr (sub_ud m, word_of_nat (length t) # sub_ud m)"
    using ch by (simp add: write_user_data_def fill_user_data_def user_data_length_def meq encode_udh_concat_def mk_byte_nat)
  have r: "read_user_data (sub_dcs m) (pre @ word_of_nat (length t) # sub_ud m) (length pre) =
      Inr (take (length (sub_ud m) - 6) (sub_ud m), decode_gsm7 (take (length (sub_ud m) - 6) (sub_ud m)) (length t))" for pre
  proof -
    have "sub_dcs m = GSM_7BIT" by (simp add: meq)
    moreover have "unat (word_of_nat (length t) :: byte) = length t" using ch by (intro unat_byte_of_nat) simp
    ultimately show ?thesis unfolding u by (simp add: read_user_data_def idx_def nth_append slice_def Let_def mult.commute)
  qed
  show ?thesis using submit_parse [OF h w r] by auto
qed

theorem gsm7_part_truncated_witness:
  "\<exists>ms m bs m'. split_multipart [49] (replicate 200 97) GSM_7BIT 0 0 = Inr (ms, 1) \<and> m \<in> set ms
     \<and> submit_to_bytes m = Inr (m, bs) \<and> submit_from_bytes bs = Inr m' \<and> sub_ud m' = take (length (sub_ud m) - 6) (sub_ud m)"
proof -
  have l: "concat_limit GSM_7BIT = 153" "single_limit GSM_7BIT = 160"
    by (simp_all add: concat_limit_def single_limit_def limits)
  define ts where "ts = chunks 153 (replicate 200 (97 :: nat))"
  have n: "length ts = 2" unfolding ts_def by (subst length_chunks) simp_all
  define ms where "ms = map (part_of [49] GSM_7BIT 0 0 (length ts)) (zip [1..<Suc (length ts)] ts)"
  have s: "split_multipart [49] (replicate 200 97) GSM_7BIT 0 0 = Inr (ms, 1)"
    using split_multipart_parts [of GSM_7BIT "replicate 200 97" "[49]" 0 0] l unfolding ms_def ts_def by simp
  have "length ms = 2" using n by (simp add: ms_def)
  then have "hd ms \<in> set ms" by (cases ms) auto
  then show ?thesis using gsm7_part_truncated [OF _ _ s] s by (fastforce simp: phone_ok_def)
qed

end
