(* ===== verification/Sms_Relay.thy ===== *)
theory Sms_Relay
  imports Sms_Tpdu
begin

text \<open>
  The relay layer of \<^verbatim>\<open>ims/sms_pdu.py\<close>: RP-DATA and RP-ACK, service-centre timestamps, and the PDU
  strings exchanged with the RIL.
\<close>

datatype rp_type = RP_DATA_MO | RP_DATA_MT | RP_ACK_MO | RP_ACK_MT | RP_ERROR_MO | RP_ERROR_MT

fun rp_value :: "rp_type \<Rightarrow> int" where
  "rp_value RP_DATA_MO = 0"
| "rp_value RP_DATA_MT = 1"
| "rp_value RP_ACK_MO = 2"
| "rp_value RP_ACK_MT = 3"
| "rp_value RP_ERROR_MO = 4"
| "rp_value RP_ERROR_MT = 5"

definition rp_of :: "int \<Rightarrow> rp_type res" where
  "rp_of v = (if v = 0 then Inr RP_DATA_MO else if v = 1 then Inr RP_DATA_MT else if v = 2 then Inr RP_ACK_MO
     else if v = 3 then Inr RP_ACK_MT else if v = 4 then Inr RP_ERROR_MO else if v = 5 then Inr RP_ERROR_MT
     else Inl ValueError)"

lemma rp_of_value [simp]: "rp_of (rp_value t) = Inr t"
  by (cases t) (simp_all add: rp_of_def)

record rp_data =
  rp_msg_type :: rp_type
  rp_reference :: int
  rp_originator :: bytes
  rp_destination :: bytes
  rp_tpdu :: bytes

text \<open>The service-centre address of \<^verbatim>\<open>wrap_mo\<close> and \<^verbatim>\<open>wrap_mt\<close>.\<close>

definition smsc_address :: "ustr \<Rightarrow> bytes res" where
  "smsc_address smsc =
     (if smsc = [] then Inr []
      else rbind (sms_encode_bcd (filter (\<lambda>c. c \<noteq> 43) smsc)) (\<lambda>bcd.
           rbind (mk_byte (int (length bcd) + 1)) (\<lambda>n. Inr ([n, 0x91] @ bcd))))"

definition wrap_mo :: "bytes \<Rightarrow> int \<Rightarrow> ustr \<Rightarrow> rp_data res" where
  "wrap_mo tpdu ref smsc = rbind (smsc_address smsc) (\<lambda>dest.
     Inr \<lparr>rp_msg_type = RP_DATA_MO, rp_reference = ref, rp_originator = [], rp_destination = dest, rp_tpdu = tpdu\<rparr>)"

definition wrap_mt :: "bytes \<Rightarrow> int \<Rightarrow> ustr \<Rightarrow> rp_data res" where
  "wrap_mt tpdu ref smsc = rbind (smsc_address smsc) (\<lambda>orig.
     Inr \<lparr>rp_msg_type = RP_DATA_MT, rp_reference = ref, rp_originator = orig, rp_destination = [], rp_tpdu = tpdu\<rparr>)"

text \<open>A length byte and the value, and its parser: a slice, cut short at the end of the buffer.\<close>

definition put_lv :: "bytes \<Rightarrow> bytes res" where
  "put_lv v = rbind (mk_byte (int (length v))) (\<lambda>n. Inr (n # v))"

definition get_lv :: "bytes \<Rightarrow> nat \<Rightarrow> (bytes \<times> nat) res" where
  "get_lv d offset = rbind (idx d offset) (\<lambda>n.
     Inr (slice d (offset + 1) (offset + 1 + unat n), offset + 1 + unat n))"

definition lv_ok :: "bytes \<Rightarrow> bool" where
  "lv_ok v \<longleftrightarrow> length v < 256"

interpretation lv_format: offset_format lv_ok put_lv get_lv
  by unfold_locales
    (auto simp: lv_ok_def put_lv_def get_lv_def mk_byte_nat idx_def nth_append unat_byte_of_nat slice_def)

definition rp_to_bytes :: "rp_data \<Rightarrow> bytes res" where
  "rp_to_bytes m =
     rbind (mk_byte (rp_value (rp_msg_type m))) (\<lambda>t.
     rbind (mk_byte (rp_reference m AND 0xFF)) (\<lambda>r.
     rbind (if rp_originator m \<noteq> [] then put_lv (rp_originator m) else Inr [0]) (\<lambda>orig.
     rbind (if rp_destination m \<noteq> [] then put_lv (rp_destination m) else Inr [0]) (\<lambda>dest.
     rbind (put_lv (rp_tpdu m)) (\<lambda>tpdu. Inr ([t, r] @ orig @ dest @ tpdu))))))"

definition rp_from_bytes :: "bytes \<Rightarrow> rp_data res" where
  "rp_from_bytes d =
     rbind (rbind (idx d 0) (\<lambda>t. rp_of (uint t))) (\<lambda>msg_type.
     rbind (idx d 1) (\<lambda>r.
     rbind (get_lv d 2) (\<lambda>(orig, o1).
     rbind (get_lv d o1) (\<lambda>(dest, o2).
     rbind (get_lv d o2) (\<lambda>(tpdu, _).
     Inr \<lparr>rp_msg_type = msg_type, rp_reference = uint r, rp_originator = orig, rp_destination = dest,
          rp_tpdu = tpdu\<rparr>)))))"

definition rp_ack_to_bytes :: "rp_type \<Rightarrow> int \<Rightarrow> bytes res" where
  "rp_ack_to_bytes t ref = rmap mk_byte [rp_value t, ref AND 0xFF]"

definition rp_ok :: "rp_data \<Rightarrow> bool" where
  "rp_ok m \<longleftrightarrow> 0 \<le> rp_reference m \<and> rp_reference m < 256 \<and> lv_ok (rp_originator m) \<and> lv_ok (rp_destination m)
     \<and> lv_ok (rp_tpdu m)"

lemma rp_dec_enc:
  assumes "rp_ok m"
  shows "\<exists>bs. rp_to_bytes m = Inr bs \<and> rp_from_bytes bs = Inr m"
proof -
  note o = assms [unfolded rp_ok_def]
  have lv0: "(if v \<noteq> [] then put_lv v else Inr [0]) = put_lv v" for v
    by (simp add: put_lv_def mk_byte_def)
  obtain a b c where a: "put_lv (rp_originator m) = Inr a" and b: "put_lv (rp_destination m) = Inr b"
      and c: "put_lv (rp_tpdu m) = Inr c"
      and pa: "\<And>pre post. get_lv (pre @ a @ post) (length pre) = Inr (rp_originator m, length pre + length a)"
      and pb: "\<And>pre post. get_lv (pre @ b @ post) (length pre) = Inr (rp_destination m, length pre + length b)"
      and pc: "\<And>pre post. get_lv (pre @ c @ post) (length pre) = Inr (rp_tpdu m, length pre + length c)"
    using lv_format.dec_here o by metis
  have t: "0 \<le> rp_value (rp_msg_type m)" "rp_value (rp_msg_type m) < 256" by (cases "rp_msg_type m"; simp)+
  define h where "h = [word_of_int (rp_value (rp_msg_type m)), word_of_int (rp_reference m AND 0xFF) :: byte]"
  have enc: "rp_to_bytes m = Inr (h @ a @ b @ c)"
    using o t unfolding rp_to_bytes_def lv0 by (simp add: mk_byte_in and_255_int a b c h_def)
  have "get_lv (h @ a @ b @ c) 2 = Inr (rp_originator m, 2 + length a)"
    "get_lv (h @ a @ b @ c) (2 + length a) = Inr (rp_destination m, 2 + length a + length b)"
    "get_lv (h @ a @ b @ c) (2 + length a + length b) = Inr (rp_tpdu m, 2 + length a + length b + length c)"
    using pa [of h "b @ c"] pb [of "h @ a" c] pc [of "h @ a @ b" "[]"] by (simp_all add: h_def numeral_2_eq_2)
  then have "rp_from_bytes (h @ a @ b @ c) = Inr m"
    using o t by (simp add: rp_from_bytes_def idx_def h_def uint_byte_of_int and_255_int)
  with enc show ?thesis by blast
qed

interpretation rp_format: message_format rp_ok rp_to_bytes rp_from_bytes
  by unfold_locales (rule rp_dec_enc)



section \<open>Timestamps\<close>

text \<open>
  \<^verbatim>\<open>encode_scts_now\<close> of the clock reading (year, month, day, hour, minute, second); the last byte is
  the time zone.
\<close>

definition scts_byte :: "nat \<Rightarrow> byte" where
  "scts_byte p = word_of_nat (push_bit 4 (p mod 10) OR (p div 10))"

definition encode_scts :: "nat \<times> nat \<times> nat \<times> nat \<times> nat \<times> nat \<Rightarrow> bytes" where
  "encode_scts t = (case t of (year, mon, mday, hour, minute, sec) \<Rightarrow>
     map scts_byte [year mod 100, mon, mday, hour, minute, sec, 0])"

text \<open>\<^verbatim>\<open>f"{n:02d}"\<close>.\<close>

definition pad2 :: "nat \<Rightarrow> string" where
  "pad2 n = (if n < 10 then CHR ''0'' # dec_nat n else dec_nat n)"

definition scts_value :: "byte \<Rightarrow> nat" where
  "scts_value b = (unat b AND 15) * 10 + (drop_bit 4 (unat b) AND 15)"

definition decode_scts :: "bytes \<Rightarrow> string" where
  "decode_scts d =
     (if length d < 7 then ''''
      else let p = map scts_value (take 7 d)
        in dec_nat (2000 + p ! 0) @ ''-'' @ pad2 (p ! 1) @ ''-'' @ pad2 (p ! 2) @ ''T'' @ pad2 (p ! 3) @ '':''
           @ pad2 (p ! 4) @ '':'' @ pad2 (p ! 5) @ ''Z'')"

lemma scts_value_byte: "p < 100 \<Longrightarrow> scts_value (scts_byte p) = p"
proof -
  assume p: "p < 100"
  then have d: "p div 10 < 10" by simp
  have "push_bit 4 (p mod 10) OR (p div 10) = p mod 10 * 16 + p div 10"
    using or_disjoint_nat [of "p div 10" 4 "p mod 10"] d by simp
  moreover have "p mod 10 * 16 + p div 10 < 256" using d by linarith
  ultimately have u: "unat (scts_byte p) = p mod 10 * 16 + p div 10"
    by (simp only: scts_byte_def unat_byte_of_nat)
  have "unat (scts_byte p) mod 16 = p div 10" "unat (scts_byte p) div 16 = p mod 10"
    using d unfolding u by simp_all
  then show ?thesis by (simp add: scts_value_def unat_nibbles)
qed

text \<open>
  A service-centre timestamp of a moment of this century decodes to the ISO text of that
  moment, each field with its two digits.
\<close>

theorem scts_roundtrip:
  assumes "year < 100" "mon < 100" "mday < 100" "hour < 100" "minute < 100" "sec < 100"
  shows "decode_scts (encode_scts (2000 + year, mon, mday, hour, minute, sec)) =
    dec_nat (2000 + year) @ ''-'' @ pad2 mon @ ''-'' @ pad2 mday @ ''T'' @ pad2 hour @ '':'' @ pad2 minute
      @ '':'' @ pad2 sec @ ''Z''"
proof -
  have "(2000 + year) mod 100 = year" using mod_mult_self1 [of year 20 100] assms(1) by (simp add: add.commute)
  define ts where "ts = encode_scts (2000 + year, mon, mday, hour, minute, sec)"
  have "map scts_value ts = [year, mon, mday, hour, minute, sec, 0]" "length ts = 7"
    unfolding ts_def encode_scts_def prod.case \<open>(2000 + year) mod 100 = year\<close>
    using assms scts_value_byte [of 0] by (simp_all add: scts_value_byte)
  then show ?thesis unfolding ts_def [symmetric] decode_scts_def Let_def by simp
qed

theorem scts_roundtrip_witness:
  "decode_scts (encode_scts (2024, 6, 30, 23, 59, 7)) =
    dec_nat 2024 @ ''-'' @ pad2 6 @ ''-'' @ pad2 30 @ ''T'' @ pad2 23 @ '':'' @ pad2 59 @ '':'' @ pad2 7 @ ''Z''"
  using scts_roundtrip [of 24 6 30 23 59 7] by simp

section \<open>PDU strings of the RIL\<close>

definition parse_pdu_from_ril :: "string \<Rightarrow> (bytes \<times> bytes) res" where
  "parse_pdu_from_ril hex =
     rbind (fromhex hex) (\<lambda>raw.
     rbind (idx raw 0) (\<lambda>n. let smsc_len = unat n in
     Inr (if smsc_len > 0 then slice raw 1 (1 + smsc_len) else [], drop (1 + smsc_len) raw)))"

definition build_pdu_for_ril :: "bytes \<Rightarrow> bytes \<Rightarrow> string res" where
  "build_pdu_for_ril tpdu smsc =
     (if smsc \<noteq> [] then rbind (mk_byte (int (length smsc))) (\<lambda>n. Inr (map upper_char (hex_of ([n] @ smsc @ tpdu))))
      else Inr (map upper_char (hex_of ([0] @ tpdu))))"

lemma ril_pdu_parsed:
  "length smsc < 256 \<Longrightarrow> build_pdu_for_ril tpdu smsc = Inr pdu \<Longrightarrow> parse_pdu_from_ril pdu = Inr (smsc, tpdu)"
  by (cases "smsc = []")
    (auto simp: build_pdu_for_ril_def mk_byte_nat parse_pdu_from_ril_def fromhex_upper unat_byte_of_nat slice_def Let_def)

text \<open>
  The RIL's PDU string carries the service-centre address and the TPDU unchanged, also when
  there is no address.
\<close>

theorem ril_pdu_roundtrip:
  assumes "length smsc < 256"
  shows "rbind (build_pdu_for_ril tpdu smsc) parse_pdu_from_ril = Inr (smsc, tpdu)"
proof -
  obtain pdu where "build_pdu_for_ril tpdu smsc = Inr pdu"
    using assms by (cases "smsc = []") (simp_all add: build_pdu_for_ril_def mk_byte_nat)
  then show ?thesis using ril_pdu_parsed [OF assms] by simp
qed

theorem ril_pdu_roundtrip_witness: "rbind (build_pdu_for_ril [1, 2] [0x91, 0x21]) parse_pdu_from_ril = Inr ([0x91, 0x21], [1, 2])"
  by (rule ril_pdu_roundtrip) simp

end
