(* ===== verification/Pystr.thy ===== *)
theory Pystr
  imports Json
begin

text \<open>
  The Python string operations of the SIP code, on texts as lists of code points: searching and
  splitting at a separator, stripping, case of ASCII letters, \<^verbatim>\<open>int(s)\<close>, and UTF-8 with
  \<^verbatim>\<open>errors="replace"\<close> on decoding.
\<close>

lemma ustr_simps: "ustr [] = []" "ustr (c # s) = of_char c # ustr s"
  by (simp_all add: ustr_def)

lemma ustr_Nil [simp]: "ustr [] = []" "ustr s = [] \<longleftrightarrow> s = []" "[] = ustr s \<longleftrightarrow> s = []" "length (ustr s) = length s"
  by (cases s; simp add: ustr_def)+

lemma ustr_append: "ustr (s @ t) = ustr s @ ustr t"
  by (simp add: ustr_def)

lemma ustr_inject [simp]: "ustr s = ustr t \<longleftrightarrow> s = t"
  unfolding ustr_def by (rule inj_map_eq_map) (rule inj_of_char)

section \<open>Separators\<close>

text \<open>The parts before and after the first occurrence of a separator.\<close>

fun break_at :: "ustr \<Rightarrow> ustr \<Rightarrow> (ustr \<times> ustr) option" where
  "break_at sep [] = (if sep = [] then Some ([], []) else None)"
| "break_at sep (c # s) =
     (if take (length sep) (c # s) = sep then Some ([], drop (length sep) (c # s))
      else map_option (\<lambda>(a, b). (c # a, b)) (break_at sep s))"

lemma break_at_parts: "break_at sep s = Some (a, b) \<Longrightarrow> s = a @ sep @ b"
proof (induction sep s arbitrary: a rule: break_at.induct)
  case (2 sep c s)
  show ?case
  proof (cases "take (length sep) (c # s) = sep")
    case True
    with 2(2) have "a = []" "b = drop (length sep) (c # s)" by auto
    with append_take_drop_id [of "length sep" "c # s"] True show ?thesis by simp
  next
    case False
    with 2 show ?thesis by auto
  qed
qed (auto split: if_splits)

text \<open>\<^verbatim>\<open>sub in s\<close>.\<close>

definition contains :: "ustr \<Rightarrow> ustr \<Rightarrow> bool" where
  "contains sub s \<longleftrightarrow> break_at sub s \<noteq> None"

text \<open>\<^verbatim>\<open>s.split(sep)\<close> and \<^verbatim>\<open>s.split(sep, n)\<close> for a non-empty separator, \<^verbatim>\<open>sep.join(parts)\<close>.\<close>

function split_on :: "ustr \<Rightarrow> ustr \<Rightarrow> ustr list" where
  "split_on sep s = (if sep = [] then [s] else case break_at sep s of None \<Rightarrow> [s] | Some (a, b) \<Rightarrow> a # split_on sep b)"
  by pat_completeness auto
termination
  by (relation "measure (\<lambda>(sep, s). length s)") (auto dest: break_at_parts)

declare split_on.simps [simp del]

fun split_max :: "nat \<Rightarrow> ustr \<Rightarrow> ustr \<Rightarrow> ustr list" where
  "split_max 0 sep s = [s]"
| "split_max (Suc n) sep s = (case break_at sep s of None \<Rightarrow> [s] | Some (a, b) \<Rightarrow> a # split_max n sep b)"

fun join_with :: "ustr \<Rightarrow> ustr list \<Rightarrow> ustr" where
  "join_with sep [] = []"
| "join_with sep [x] = x"
| "join_with sep (x # y # r) = x @ sep @ join_with sep (y # r)"

lemma split_on_nonempty [simp]: "split_on sep s \<noteq> []"
  by (subst split_on.simps) (simp split: option.split)

lemma join_split: "join_with sep (split_on sep s) = s"
proof (induction sep s rule: split_on.induct)
  case (1 sep s)
  show ?case
  proof (cases "sep = [] \<or> break_at sep s = None")
    case True
    then show ?thesis by (subst split_on.simps) auto
  next
    case False
    then obtain a b where ab: "break_at sep s = Some (a, b)" by auto
    with False 1 have "join_with sep (split_on sep b) = b" by simp
    moreover obtain y r where "split_on sep b = y # r" by (cases "split_on sep b") auto
    ultimately show ?thesis using False ab break_at_parts [OF ab] by (subst split_on.simps) simp
  qed
qed

text \<open>
  A separator that cannot overlap itself: then text that does not contain it is found again in
  front of it.
\<close>

locale separator =
  fixes sep :: ustr
  assumes sep_nonempty: "sep \<noteq> []"
    and break_exact: "\<not> contains sep a \<Longrightarrow> break_at sep (a @ sep @ b) = Some (a, b)"
begin

lemma split_free: "\<not> contains sep a \<Longrightarrow> split_on sep a = [a]"
  unfolding contains_def not_not by (subst split_on.simps) simp

lemma split_front: "\<not> contains sep a \<Longrightarrow> split_on sep (a @ sep @ b) = a # split_on sep b"
  using break_exact [of a b] sep_nonempty by (subst split_on.simps) simp

lemma split_join: "ls \<noteq> [] \<Longrightarrow> \<forall>l \<in> set ls. \<not> contains sep l \<Longrightarrow> split_on sep (join_with sep ls) = ls"
  by (induction ls rule: induct_list012) (simp_all add: split_free split_front)

lemma split_join_append:
  "ls \<noteq> [] \<Longrightarrow> \<forall>l \<in> set ls. \<not> contains sep l \<Longrightarrow> split_on sep (join_with sep ls @ sep @ b) = ls @ split_on sep b"
  by (induction ls rule: induct_list012) (simp_all add: split_front)

lemma split_max_1: "\<not> contains sep a \<Longrightarrow> split_max (Suc n) sep (a @ sep @ b) = a # split_max n sep b"
  by (simp add: break_exact)

end

text \<open>It is enough that the first character does not come again.\<close>

lemma separator_head: "c \<notin> set t \<Longrightarrow> separator (c # t)"
proof unfold_locales
  fix a b :: ustr
  assume c: "c \<notin> set t" and "\<not> contains (c # t) a"
  then show "break_at (c # t) (a @ (c # t) @ b) = Some (a, b)"
  proof (induction a)
    case (Cons x a)
    let ?sep = "c # t"
    have n: "take (length ?sep) (x # a) \<noteq> ?sep" and a: "\<not> contains ?sep a"
      using Cons.prems by (auto simp: contains_def split: if_splits)
    have "take (length ?sep) ((x # a) @ ?sep @ b) \<noteq> ?sep"
    proof
      assume e: "take (length ?sep) ((x # a) @ ?sep @ b) = ?sep"
      show False
      proof (cases "length ?sep \<le> length (x # a)")
        case True
        with e n show False by simp
      next
        case False
        then have i: "length a < length t" by simp
        have "?sep ! length (x # a) = take (length ?sep) ((x # a) @ ?sep @ b) ! length (x # a)" using e by simp
        also have "\<dots> = c" using i by (simp add: nth_append)
        finally have "t ! length a = c" by simp
        with i c show False using nth_mem by blast
      qed
    qed
    with Cons.IH [OF c a] show ?case by simp
  qed simp
qed simp

lemma contains_char: "contains [c] s \<longleftrightarrow> c \<in> set s"
  by (induction s) (auto simp: contains_def)

interpretation char_sep: separator "[c]"
  by (rule separator_head) simp

lemma break_char: "c \<notin> set a \<Longrightarrow> break_at [c] (a @ c # b) = Some (a, b)"
  using char_sep.break_exact [of c a b] by (simp add: contains_char)

abbreviation CRLF :: ustr where "CRLF \<equiv> [13, 10]"

interpretation crlf: separator CRLF
  by (rule separator_head) simp

section \<open>Stripping, case and numbers\<close>

text \<open>Python's white space.\<close>

definition is_white :: "nat \<Rightarrow> bool" where
  "is_white c \<longleftrightarrow> 9 \<le> c \<and> c \<le> 13 \<or> 28 \<le> c \<and> c \<le> 32 \<or> c = 133 \<or> c = 160 \<or> c = 5760 \<or> 8192 \<le> c \<and> c \<le> 8202
     \<or> c \<in> {8232, 8233, 8239, 8287, 12288}"

definition strip_of :: "(nat \<Rightarrow> bool) \<Rightarrow> ustr \<Rightarrow> ustr" where
  "strip_of P s = rev (dropWhile P (rev (dropWhile P s)))"

definition strip :: "ustr \<Rightarrow> ustr" where
  "strip = strip_of is_white"

definition stripped :: "(nat \<Rightarrow> bool) \<Rightarrow> ustr \<Rightarrow> bool" where
  "stripped P s \<longleftrightarrow> s = [] \<or> \<not> P (hd s) \<and> \<not> P (last s)"

lemma dropWhile_id: "s = [] \<or> \<not> P (hd s) \<Longrightarrow> dropWhile P s = s"
  by (cases s) auto

lemma strip_of_id: "stripped P s \<Longrightarrow> strip_of P s = s"
  by (auto simp: strip_of_def stripped_def dropWhile_id hd_rev)

lemma strip_of_Cons: "P c \<Longrightarrow> strip_of P (c # s) = strip_of P s"
  by (simp add: strip_of_def)

text \<open>\<^verbatim>\<open>upper\<close> and \<^verbatim>\<open>lower\<close>, for ASCII letters; other letters are left alone.\<close>

definition upper :: "ustr \<Rightarrow> ustr" where
  "upper = map (\<lambda>c. if 97 \<le> c \<and> c \<le> 122 then c - 32 else c)"

definition lower :: "ustr \<Rightarrow> ustr" where
  "lower = map (\<lambda>c. if 65 \<le> c \<and> c \<le> 90 then c + 32 else c)"

text \<open>\<^verbatim>\<open>str(n)\<close> and \<^verbatim>\<open>int(s)\<close>: white space around, a sign, ASCII digits with single underscores between.\<close>

definition ustr_of_int :: "int \<Rightarrow> ustr" where
  "ustr_of_int n = ustr (dec_int n)"

fun digits_value :: "nat \<Rightarrow> ustr \<Rightarrow> nat option" where
  "digits_value v [] = Some v"
| "digits_value v (c # s) =
     (if 48 \<le> c \<and> c \<le> 57 then digits_value (v * 10 + (c - 48)) s
      else if c = 95 \<and> s \<noteq> [] \<and> 48 \<le> hd s \<and> hd s \<le> 57 then digits_value v s
      else None)"

definition unsigned_value :: "ustr \<Rightarrow> nat option" where
  "unsigned_value s = (if s \<noteq> [] \<and> hd s \<noteq> 95 then digits_value 0 s else None)"

definition int_of_ustr :: "ustr \<Rightarrow> int res" where
  "int_of_ustr s =
     (let t = strip s; neg = (t \<noteq> [] \<and> hd t = 45); u = (if t \<noteq> [] \<and> (hd t = 45 \<or> hd t = 43) then tl t else t)
      in case unsigned_value u of None \<Rightarrow> Inl ValueError | Some v \<Rightarrow> Inr (if neg then - int v else int v))"

lemma digits_value_snoc:
  assumes "digits_value a s = Some v" "d < 10"
  shows "digits_value a (s @ [48 + d]) = Some (v * 10 + d)"
  using assms
  by (induction a s rule: digits_value.induct) (auto split: if_splits)

lemma dec_nat_ustr: "digits_value 0 (ustr (dec_nat n)) = Some n \<and> ustr (dec_nat n) \<noteq> []
    \<and> (\<forall>c \<in> set (ustr (dec_nat n)). 48 \<le> c \<and> c \<le> 57)"
proof (induction n rule: dec_nat.induct)
  case (1 n)
  have d: "(of_char (digit_char d) :: nat) = 48 + d" if "d < 10" for d
    using that by (simp add: digit_char_def)
  show ?case
  proof (cases "n < 10")
    case True
    then show ?thesis by (subst (1 2 3) dec_nat.simps) (simp add: d ustr_simps)
  next
    case False
    have "n mod 10 < 10" by simp
    with 1 [OF False] False d [OF this] digits_value_snoc [OF _ this]
    show ?thesis by (subst (1 2 3) dec_nat.simps) (auto simp: ustr_simps ustr_append)
  qed
qed

lemma digits_not_white: "\<forall>c \<in> set s. 48 \<le> c \<and> c \<le> 57 \<Longrightarrow> stripped is_white s"
proof -
  assume a: "\<forall>c \<in> set s. 48 \<le> c \<and> c \<le> 57"
  have w: "\<not> is_white c" if "48 \<le> c" "c \<le> 57" for c using that by (auto simp: is_white_def)
  show ?thesis using a w by (cases "s = []") (auto simp: stripped_def)
qed

lemma int_of_ustr_dec: "int_of_ustr (ustr (dec_nat n)) = Inr (int n)"
proof -
  let ?s = "ustr (dec_nat n)"
  note s = dec_nat_ustr [of n]
  have h: "48 \<le> hd ?s" "hd ?s \<le> 57" using s hd_in_set [of ?s] by blast+
  have "strip ?s = ?s" unfolding strip_def using s by (intro strip_of_id digits_not_white) blast
  moreover have "hd ?s \<noteq> 45 \<and> hd ?s \<noteq> 43 \<and> hd ?s \<noteq> 95" using h by linarith
  ultimately show ?thesis using s by (simp add: int_of_ustr_def unsigned_value_def)
qed

end
