(* ===== verification/Utf8.thy ===== *)
theory Utf8
  imports Pystr
begin

text \<open>
  UTF-8 as the SIP code uses it: \<^verbatim>\<open>encode()\<close> raises on surrogates, \<^verbatim>\<open>decode("utf-8", errors="replace")\<close>
  puts U+FFFD for every maximal ill-formed part. Text survives the way through bytes; bytes survive
  the way through text only when they are UTF-8.
\<close>

definition utf8_of :: "nat \<Rightarrow> bytes" where
  "utf8_of c =
     (if c < 0x80 then [word_of_nat c]
      else if c < 0x800 then [word_of_nat (0xC0 + c div 64), word_of_nat (0x80 + c mod 64)]
      else if c < 0x10000 then
        [word_of_nat (0xE0 + c div 4096), word_of_nat (0x80 + c div 64 mod 64), word_of_nat (0x80 + c mod 64)]
      else [word_of_nat (0xF0 + c div 262144), word_of_nat (0x80 + c div 4096 mod 64),
            word_of_nat (0x80 + c div 64 mod 64), word_of_nat (0x80 + c mod 64)])"

definition utf8_encode :: "ustr \<Rightarrow> bytes res" where
  "utf8_encode t = (if unicode_text t then Inr (concat (map utf8_of t)) else Inl UnicodeError)"

definition is_tail :: "nat \<Rightarrow> bool" where
  "is_tail x \<longleftrightarrow> 0x80 \<le> x \<and> x < 0xC0"

text \<open>What may follow a leading byte: no overlong forms, no surrogates, nothing above 0x10FFFF.\<close>

definition second_ok :: "nat \<Rightarrow> nat \<Rightarrow> bool" where
  "second_ok a x \<longleftrightarrow> is_tail x \<and> (a = 0xE0 \<longrightarrow> 0xA0 \<le> x) \<and> (a = 0xED \<longrightarrow> x < 0xA0)
     \<and> (a = 0xF0 \<longrightarrow> 0x90 \<le> x) \<and> (a = 0xF4 \<longrightarrow> x < 0x90)"

definition tails_needed :: "nat \<Rightarrow> nat option" where
  "tails_needed a = (if a < 0x80 then Some 0 else if 0xC2 \<le> a \<and> a < 0xE0 then Some 1
     else if 0xE0 \<le> a \<and> a < 0xF0 then Some 2 else if 0xF0 \<le> a \<and> a < 0xF5 then Some 3 else None)"

fun count_tails :: "(nat \<Rightarrow> bool) \<Rightarrow> nat \<Rightarrow> bytes \<Rightarrow> nat" where
  "count_tails P 0 r = 0"
| "count_tails P (Suc n) [] = 0"
| "count_tails P (Suc n) (b # r) = (if P (unat b) then Suc (count_tails is_tail n r) else 0)"

text \<open>The code point read at a leading byte and the number of bytes taken after it.\<close>

definition utf8_step :: "nat \<Rightarrow> bytes \<Rightarrow> nat \<times> nat" where
  "utf8_step a r = (case tails_needed a of None \<Rightarrow> (0xFFFD, 0)
     | Some n \<Rightarrow> let k = count_tails (second_ok a) n r in
         if k = n then (foldl (\<lambda>v b. v * 64 + (unat b - 0x80)) (a - [0, 0xC0, 0xE0, 0xF0] ! n) (take n r), n)
         else (0xFFFD, k))"

function utf8_decode :: "bytes \<Rightarrow> ustr" where
  "utf8_decode [] = []"
| "utf8_decode (b # r) = (case utf8_step (unat b) r of (c, k) \<Rightarrow> c # utf8_decode (drop k r))"
  by pat_completeness auto
termination by (relation "measure length") auto

definition utf8_valid :: "bytes \<Rightarrow> bool" where
  "utf8_valid bs \<longleftrightarrow> utf8_encode (utf8_decode bs) = Inr bs"

section \<open>Text through bytes\<close>

lemma unicode_text_simps [simp]: "unicode_text []"
  "unicode_text (c # t) \<longleftrightarrow> c < 0x110000 \<and> \<not> (0xD800 \<le> c \<and> c < 0xE000) \<and> unicode_text t"
  "unicode_text (s @ t) \<longleftrightarrow> unicode_text s \<and> unicode_text t"
  by (auto simp: unicode_text_def)

lemma unicode_ustr [simp]: "unicode_text (ustr s)"
proof -
  have b: "(of_char c :: nat) < 256" for c :: char by (rule of_char_mod_256 [THEN subst]) simp
  show ?thesis
  proof (induction s)
    case (Cons c s)
    have "(of_char c :: nat) < 55296" "(of_char c :: nat) < 1114112" using b [of c] by linarith+
    with Cons show ?case by (simp add: ustr_simps)
  qed simp
qed

lemma unicode_ustr_of_int [simp]: "unicode_text (ustr_of_int n)"
  by (simp add: ustr_of_int_def)

lemma decode_1: "unat b < 0x80 \<Longrightarrow> utf8_decode (b # bs) = unat b # utf8_decode bs"
  by (simp add: utf8_step_def tails_needed_def)

lemma decode_2:
  assumes "unat b0 = 192 + x" "2 \<le> x" "x < 32" "is_tail (unat b1)"
  shows "utf8_decode (b0 # b1 # bs) = (x * 64 + (unat b1 - 128)) # utf8_decode bs"
proof -
  have "second_ok (192 + x) (unat b1)" using assms by (simp add: second_ok_def)
  then have "utf8_step (192 + x) (b1 # bs) = (x * 64 + (unat b1 - 128), 1)"
    using assms(2,3) by (simp add: utf8_step_def tails_needed_def)
  then show ?thesis using assms(1) by simp
qed

lemma decode_3:
  assumes "unat b0 = 224 + x" "x < 16" "second_ok (224 + x) (unat b1)" "is_tail (unat b2)"
  shows "utf8_decode (b0 # b1 # b2 # bs) = ((x * 64 + (unat b1 - 128)) * 64 + (unat b2 - 128)) # utf8_decode bs"
proof -
  have "utf8_step (224 + x) (b1 # b2 # bs) = ((x * 64 + (unat b1 - 128)) * 64 + (unat b2 - 128), 2)"
    using assms by (simp add: utf8_step_def tails_needed_def numeral_2_eq_2)
  then show ?thesis using assms(1) by (simp add: numeral_2_eq_2)
qed

lemma decode_4:
  assumes "unat b0 = 240 + x" "x < 5" "second_ok (240 + x) (unat b1)" "is_tail (unat b2)" "is_tail (unat b3)"
  shows "utf8_decode (b0 # b1 # b2 # b3 # bs) =
    (((x * 64 + (unat b1 - 128)) * 64 + (unat b2 - 128)) * 64 + (unat b3 - 128)) # utf8_decode bs"
proof -
  have "utf8_step (240 + x) (b1 # b2 # b3 # bs) =
      (((x * 64 + (unat b1 - 128)) * 64 + (unat b2 - 128)) * 64 + (unat b3 - 128), 3)"
    using assms by (simp add: utf8_step_def tails_needed_def numeral_3_eq_3)
  then show ?thesis using assms(1) by (simp add: numeral_3_eq_3)
qed

lemma sextets: "(c :: nat) div 64 * 64 + c mod 64 = c"
  "(c div 4096 * 64 + c div 64 mod 64) * 64 + c mod 64 = c"
  "((c div 262144 * 64 + c div 4096 mod 64) * 64 + c div 64 mod 64) * 64 + c mod 64 = c"
  using div_mult2_eq [of c 64 64] div_mult2_eq [of c 4096 64]
    div_mult_mod_eq [of "c div 64" 64] div_mult_mod_eq [of "c div 4096" 64] by simp_all

lemma decode_char:
  assumes "c < 0x110000" "\<not> (0xD800 \<le> c \<and> c < 0xE000)"
  shows "utf8_decode (utf8_of c @ bs) = c # utf8_decode bs"
proof -
  let ?b = "\<lambda>n. word_of_nat n :: byte"
  have m: "c mod 64 < 64" "c div 64 mod 64 < 64" "c div 4096 mod 64 < 64" by simp_all
  have t: "unat (?b (128 + n)) = 128 + n" "is_tail (unat (?b (128 + n)))" if "n < 64" for n
    using that by (simp_all add: unat_byte_of_nat is_tail_def del: of_nat_add)
  note t = t [OF m(1)] t [OF m(2)] t [OF m(3)]
  consider "c < 0x80" | "0x80 \<le> c" "c < 0x800" | "0x800 \<le> c" "c < 0x10000" | "0x10000 \<le> c" by linarith
  then show ?thesis
  proof cases
    case 1
    then show ?thesis using decode_1 [of "?b c"] by (simp add: utf8_of_def unat_byte_of_nat)
  next
    case 2
    then have d: "2 \<le> c div 64" "c div 64 < 32" by linarith+
    then have "unat (?b (192 + c div 64)) = 192 + c div 64" by (simp add: unat_byte_of_nat del: of_nat_add)
    from decode_2 [OF this d t(2), of bs] show ?thesis
      using 2 by (simp add: utf8_of_def t sextets del: of_nat_add)
  next
    case 3
    then have d: "c div 4096 < 16" by linarith
    then have u: "unat (?b (224 + c div 4096)) = 224 + c div 4096" by (simp add: unat_byte_of_nat del: of_nat_add)
    have "second_ok (224 + c div 4096) (unat (?b (128 + c div 64 mod 64)))"
      unfolding t second_ok_def is_tail_def using m sextets(2) [of c] 3 assms(2) by auto
    from decode_3 [OF u d this t(2), of bs] show ?thesis
      using 3 sextets(2) [of c] by (simp add: utf8_of_def t del: of_nat_add)
  next
    case 4
    then have d: "c div 262144 < 5" using assms(1) by linarith
    then have u: "unat (?b (240 + c div 262144)) = 240 + c div 262144" by (simp add: unat_byte_of_nat del: of_nat_add)
    have "second_ok (240 + c div 262144) (unat (?b (128 + c div 4096 mod 64)))"
      unfolding t second_ok_def is_tail_def using m sextets(3) [of c] 4 assms(1) by auto
    from decode_4 [OF u d this t(4) t(2), of bs] show ?thesis
      using 4 sextets(3) [of c] by (simp add: utf8_of_def t del: of_nat_add)
  qed
qed

lemma decode_encode_append:
  "unicode_text t \<Longrightarrow> utf8_decode (concat (map utf8_of t) @ bs) = t @ utf8_decode bs"
  by (induction t) (simp_all add: decode_char)

lemma utf8_roundtrip: "unicode_text t \<Longrightarrow> \<exists>bs. utf8_encode t = Inr bs \<and> utf8_decode bs = t"
  using decode_encode_append [of t "[]"] by (simp add: utf8_encode_def)

lemma utf8_encode_append:
  "utf8_encode s = Inr a \<Longrightarrow> utf8_encode t = Inr b \<Longrightarrow> utf8_encode (s @ t) = Inr (a @ b)"
  by (auto simp: utf8_encode_def split: if_splits)

section \<open>Bytes through text\<close>

lemma four_byte_range:
  fixes c :: nat
  assumes "c = ((d * 64 + x) * 64 + y) * 64 + z" "x < 64" "y < 64" "z < 64" "d < 5" "d = 0 \<longrightarrow> 16 \<le> x" "d = 4 \<longrightarrow> x < 16"
  shows "c < 0x110000 \<and> \<not> (0xD800 \<le> c \<and> c < 0xE000)"
proof -
  have "0x10000 \<le> c" using assms by (cases "d = 0") auto
  moreover have "c < 0x110000" using assms by (cases "d = 4") auto
  ultimately show ?thesis by linarith
qed

lemma step_unicode:
  assumes "utf8_step a r = (c, k)" "a < 256"
  shows "c < 0x110000 \<and> \<not> (0xD800 \<le> c \<and> c < 0xE000)"
proof (cases "tails_needed a")
  case None
  then show ?thesis using assms by (simp add: utf8_step_def)
next
  case (Some n)
  show ?thesis
  proof (cases "count_tails (second_ok a) n r = n")
    case False
    with Some assms show ?thesis by (simp add: utf8_step_def Let_def)
  next
    case True
    have v: "c = foldl (\<lambda>v b. v * 64 + (unat b - 0x80)) (a - [0, 0xC0, 0xE0, 0xF0] ! n) (take n r)"
      using assms(1) Some True by (auto simp: utf8_step_def Let_def)
    consider "n = 0" "a < 128" | "n = 1" "194 \<le> a" "a < 224" | "n = 2" "224 \<le> a" "a < 240" | "n = 3" "240 \<le> a" "a < 245"
      using Some by (auto simp: tails_needed_def split: if_splits)
    then show ?thesis
    proof cases
      case 1
      then show ?thesis using v by simp
    next
      case 2
      then obtain x y where "r = x # y" using True by (cases r) auto
      then show ?thesis using 2 True v by (auto simp: is_tail_def second_ok_def split: if_splits)
    next
      case 3
      then obtain x y z where r: "r = x # y # z" "second_ok a (unat x)" "is_tail (unat y)"
        using True by (cases r; cases "tl r") (auto simp: numeral_2_eq_2 split: if_splits)
      then have "c = ((a - 224) * 64 + (unat x - 128)) * 64 + (unat y - 128)" using v 3 by (simp add: numeral_2_eq_2)
      then show ?thesis using r 3 by (cases "a = 237") (auto simp: is_tail_def second_ok_def)
    next
      case 4
      then obtain x y z w where r: "r = x # y # z # w" "second_ok a (unat x)" "is_tail (unat y)" "is_tail (unat z)"
        using True by (cases r; cases "tl r"; cases "tl (tl r)") (auto simp: numeral_3_eq_3 split: if_splits)
      then have "c = (((a - 240) * 64 + (unat x - 128)) * 64 + (unat y - 128)) * 64 + (unat z - 128)"
        using v 4 by (simp add: numeral_3_eq_3)
      moreover have "unat x - 128 < 64" "unat y - 128 < 64" "unat z - 128 < 64" "a - 240 < 5"
          "a - 240 = 0 \<longrightarrow> 16 \<le> unat x - 128" "a - 240 = 4 \<longrightarrow> unat x - 128 < 16"
        using r(2-4) 4 by (auto simp: is_tail_def second_ok_def)
      ultimately show ?thesis by (rule four_byte_range)
    qed
  qed
qed

lemma decode_unicode: "unicode_text (utf8_decode bs)"
proof (induction bs rule: utf8_decode.induct)
  case (2 b r)
  obtain c k where s: "utf8_step (unat b) r = (c, k)" by fastforce
  then show ?case using 2 [OF s [symmetric]] step_unicode [OF s] by simp
qed simp

lemma utf8_valid_iff: "utf8_valid bs \<longleftrightarrow> (\<exists>t. utf8_encode t = Inr bs)"
proof
  assume "\<exists>t. utf8_encode t = Inr bs"
  then obtain t where t: "utf8_encode t = Inr bs" by blast
  then have "unicode_text t" by (simp add: utf8_encode_def split: if_splits)
  then have "utf8_decode bs = t" using utf8_roundtrip t by fastforce
  with t show "utf8_valid bs" by (simp add: utf8_valid_def)
qed (auto simp: utf8_valid_def)

text \<open>In UTF-8 a continuation byte never follows an ASCII byte.\<close>

fun tails_follow :: "bool \<Rightarrow> bytes \<Rightarrow> bool" where
  "tails_follow p [] \<longleftrightarrow> True"
| "tails_follow p (b # r) \<longleftrightarrow> (is_tail (unat b) \<longrightarrow> p) \<and> tails_follow (0x80 \<le> unat b) r"

lemma tails_follow_of:
  "c < 0x110000 \<Longrightarrow> tails_follow p (utf8_of c @ r) \<longleftrightarrow> tails_follow (0x80 \<le> c) r"
  by (auto simp: utf8_of_def is_tail_def unat_byte_of_nat simp del: of_nat_add)

lemma tails_follow_encoded: "unicode_text t \<Longrightarrow> tails_follow p (concat (map utf8_of t))"
  by (induction t arbitrary: p) (simp_all add: tails_follow_of)

lemma tails_follow_bad:
  "tails_follow p (xs @ a # b # ys) \<Longrightarrow> unat a < 0x80 \<Longrightarrow> \<not> is_tail (unat b)"
  by (induction xs arbitrary: p) auto

lemma not_utf8_valid:
  assumes "unat a < 0x80" "is_tail (unat b)"
  shows "\<not> utf8_valid (xs @ a # b # ys)"
proof
  assume "utf8_valid (xs @ a # b # ys)"
  then obtain t where "unicode_text t" "concat (map utf8_of t) = xs @ a # b # ys"
    by (auto simp: utf8_valid_iff utf8_encode_def split: if_splits)
  then have "tails_follow False (xs @ a # b # ys)" using tails_follow_encoded by metis
  then show False using tails_follow_bad assms by blast
qed

end
