(* ===== verification/Sip.thy ===== *)
theory Sip
  imports Utf8 Formats
begin

text \<open>
  SIP messages of \<^verbatim>\<open>ims/sip_client.py\<close>: \<^verbatim>\<open>SIPMessage.parse\<close> and \<^verbatim>\<open>SIPMessage.serialize\<close>. A header
  dict is an association list in insertion order. Serialising sets the Content-Length header of
  the message itself, so it returns the message, too.
\<close>

record sip_message =
  sip_method :: "ustr option"
  request_uri :: "ustr option"
  status_code :: "int option"
  reason_phrase :: "ustr option"
  headers :: "(ustr \<times> ustr) list"
  sip_body :: bytes

definition empty_sip :: sip_message where
  "empty_sip = \<lparr>sip_method = None, request_uri = None, status_code = None, reason_phrase = None, headers = [], sip_body = []\<rparr>"

definition is_request :: "sip_message \<Rightarrow> bool" where
  "is_request m \<longleftrightarrow> sip_method m \<noteq> None"

definition is_response :: "sip_message \<Rightarrow> bool" where
  "is_response m \<longleftrightarrow> status_code m \<noteq> None"

definition header :: "sip_message \<Rightarrow> string \<Rightarrow> ustr" where
  "header m k = dict_get (headers m) (ustr k) []"

definition call_id :: "sip_message \<Rightarrow> ustr" where
  "call_id m = header m ''Call-ID''"

section \<open>Parsing\<close>

definition add_header :: "(ustr \<times> ustr) list \<Rightarrow> ustr \<Rightarrow> (ustr \<times> ustr) list" where
  "add_header h line = (case break_at [58] line of None \<Rightarrow> h | Some (name, value) \<Rightarrow> dict_set (strip name) (strip value) h)"

definition parse_first :: "ustr \<Rightarrow> sip_message res" where
  "parse_first line =
     (let parts = split_max 2 [32] line in
      if take 7 line = ustr ''SIP/2.0'' then
        rbind (idx parts 1) (\<lambda>p. rbind (int_of_ustr p) (\<lambda>code.
        Inr (empty_sip\<lparr>status_code := Some code, reason_phrase := Some (if length parts > 2 then parts ! 2 else [])\<rparr>)))
      else Inr (empty_sip\<lparr>sip_method := Some (parts ! 0), request_uri := Some (if length parts > 1 then parts ! 1 else [])\<rparr>))"

definition sip_parse :: "bytes \<Rightarrow> sip_message res" where
  "sip_parse d =
     (let lines = split_on CRLF (utf8_decode d) in
      rbind (parse_first (hd lines)) (\<lambda>msg.
      let header_lines = takeWhile (\<lambda>l. l \<noteq> []) (tl lines);
          rest = drop (length header_lines + 2) lines
      in rbind (if rest \<noteq> [] then utf8_encode (join_with CRLF rest) else Inr []) (\<lambda>body.
         Inr (msg\<lparr>headers := foldl add_header [] header_lines, sip_body := body\<rparr>))))"

section \<open>Serialising\<close>

definition show_opt :: "ustr option \<Rightarrow> ustr" where
  "show_opt x = (case x of None \<Rightarrow> ustr ''None'' | Some s \<Rightarrow> s)"

definition first_line :: "sip_message \<Rightarrow> ustr" where
  "first_line m =
     (if is_request m then show_opt (sip_method m) @ [32] @ show_opt (request_uri m) @ ustr '' SIP/2.0''
      else ustr ''SIP/2.0 '' @ show_opt (map_option ustr_of_int (status_code m)) @ [32] @ show_opt (reason_phrase m))"

definition with_length :: "sip_message \<Rightarrow> sip_message" where
  "with_length m =
     (if sip_body m \<noteq> [] then m\<lparr>headers := dict_set (ustr ''Content-Length'') (ustr_of_int (int (length (sip_body m)))) (headers m)\<rparr>
      else if ustr ''Content-Length'' \<notin> fst ` set (headers m)
      then m\<lparr>headers := dict_set (ustr ''Content-Length'') (ustr ''0'') (headers m)\<rparr>
      else m)"

definition header_line :: "ustr \<times> ustr \<Rightarrow> ustr" where
  "header_line h = fst h @ [58, 32] @ snd h"

definition sip_serialize :: "sip_message \<Rightarrow> (sip_message \<times> bytes) res" where
  "sip_serialize m =
     (let m' = with_length m; lines = first_line m # map header_line (headers m') @ [[]]
      in rbind (utf8_encode (join_with CRLF lines)) (\<lambda>result.
         Inr (m', if sip_body m \<noteq> [] then result @ [13, 10] @ sip_body m else result)))"

section \<open>Round trip\<close>

text \<open>A line of text: no line break inside.\<close>

definition line_ok :: "ustr \<Rightarrow> bool" where
  "line_ok t \<longleftrightarrow> unicode_text t \<and> \<not> contains CRLF t"

definition header_ok :: "ustr \<times> ustr \<Rightarrow> bool" where
  "header_ok h \<longleftrightarrow> line_ok (fst h) \<and> line_ok (snd h) \<and> 58 \<notin> set (fst h)
     \<and> stripped is_white (fst h) \<and> stripped is_white (snd h)"

definition start_ok :: "sip_message \<Rightarrow> bool" where
  "start_ok m \<longleftrightarrow>
     (case (sip_method m, request_uri m, status_code m, reason_phrase m) of
        (Some k, Some u, None, None) \<Rightarrow> line_ok k \<and> line_ok u \<and> 32 \<notin> set k \<and> 32 \<notin> set u \<and> take 7 k \<noteq> ustr ''SIP/2.0''
      | (None, None, Some n, Some r) \<Rightarrow> 0 \<le> n \<and> line_ok r
      | _ \<Rightarrow> False)"

definition sip_ok :: "sip_message \<Rightarrow> bool" where
  "sip_ok m \<longleftrightarrow> start_ok m \<and> dict_ok (headers m) \<and> list_all header_ok (headers m)"

lemma contains_crlf_Cons: "contains CRLF (c # t) \<longleftrightarrow> c = 13 \<and> t \<noteq> [] \<and> hd t = 10 \<or> contains CRLF t"
  by (cases t) (auto simp: contains_def numeral_2_eq_2)

lemma not_contains_crlf_append:
  "\<not> contains CRLF s \<Longrightarrow> \<not> contains CRLF t \<Longrightarrow> t = [] \<or> hd t \<noteq> 10 \<Longrightarrow> \<not> contains CRLF (s @ t)"
proof (induction s)
  case (Cons c s)
  then show ?case by (cases s) (auto simp: contains_crlf_Cons)
qed simp

lemma contains_crlf_Nil [simp]: "\<not> contains CRLF []"
  by (simp add: contains_def)

lemma ustr_of_nat_ok: "line_ok (ustr_of_int (int n)) \<and> stripped is_white (ustr_of_int (int n)) \<and> 32 \<notin> set (ustr_of_int (int n))"
proof -
  have "\<not> contains CRLF s" if "\<forall>c \<in> set s. 48 \<le> c \<and> c \<le> 57" for s
    using that by (induction s) (auto simp: contains_crlf_Cons)
  moreover have "unicode_text s" if "\<forall>c \<in> set s. 48 \<le> c \<and> c \<le> 57" for s
    using that by (induction s) auto
  ultimately show ?thesis
    using dec_nat_ustr [of n] digits_not_white [of "ustr (dec_nat n)"]
    by (auto simp: line_ok_def ustr_of_int_def dec_int_def)
qed

lemma split_max_2:
  "c \<notin> set a \<Longrightarrow> c \<notin> set b \<Longrightarrow> split_max 2 [c] (a @ c # b @ c # d) = [a, b, d]"
  using char_sep.split_max_1 [of c a 1 "b @ c # d"] char_sep.split_max_1 [of c b 0 d]
  by (simp add: contains_char numeral_2_eq_2)

lemma line_ok_sep: "line_ok s \<Longrightarrow> line_ok t \<Longrightarrow> c < 128 \<Longrightarrow> c \<noteq> 10 \<Longrightarrow> c \<noteq> 13 \<Longrightarrow> line_ok (s @ c # t)"
  using not_contains_crlf_append [of s "c # t"] by (simp add: line_ok_def contains_crlf_Cons)

lemma start_cases:
  assumes "start_ok m"
  obtains (request) k u where "sip_method m = Some k" "request_uri m = Some u" "status_code m = None" "reason_phrase m = None"
      "line_ok k" "line_ok u" "32 \<notin> set k" "32 \<notin> set u" "take 7 k \<noteq> ustr ''SIP/2.0''"
    | (response) n r where "sip_method m = None" "request_uri m = None" "status_code m = Some (int n)"
      "reason_phrase m = Some r" "line_ok r"
proof (cases "sip_method m")
  case (Some k)
  with assms request show thesis by (auto simp: start_ok_def split: option.splits)
next
  case None
  with assms obtain n r where "request_uri m = None" "status_code m = Some n" "reason_phrase m = Some r" "0 \<le> n" "line_ok r"
    by (auto simp: start_ok_def split: option.splits)
  with None response [of "nat n" r] show thesis by simp
qed

lemma line_ok_SIP: "line_ok (ustr ''SIP/2.0'')"
  by (simp add: line_ok_def contains_crlf_Cons ustr_simps)

text \<open>The start line is read back.\<close>

lemma parse_first_line:
  assumes "start_ok m"
  shows "line_ok (first_line m) \<and> first_line m \<noteq> []
    \<and> parse_first (first_line m) = Inr (m\<lparr>headers := [], sip_body := []\<rparr>)"
  using assms
proof (cases rule: start_cases)
  case (request k u)
  have f: "first_line m = k @ 32 # u @ 32 # ustr ''SIP/2.0''"
    using request by (simp add: first_line_def is_request_def show_opt_def ustr_simps)
  have "take 7 (k @ 32 # x) \<noteq> ustr ''SIP/2.0''" for x
  proof
    assume t: "take 7 (k @ 32 # x) = ustr ''SIP/2.0''"
    show False
    proof (cases "length k < 7")
      case True
      then have "32 \<in> set (take 7 (k @ 32 # x))" by (cases "7 - length k") auto
      then show False unfolding t by (simp add: ustr_simps)
    qed (use t request in simp)
  qed
  moreover have "line_ok (first_line m)" unfolding f using request line_ok_SIP by (intro line_ok_sep) simp_all
  ultimately show ?thesis
    using request split_max_2 [of 32 k u "ustr ''SIP/2.0''"]
    by (simp add: f parse_first_def Let_def empty_sip_def)
next
  case (response n r)
  define d where "d = ustr_of_int (int n)"
  note n = ustr_of_nat_ok [of n, folded d_def]
  have f: "first_line m = ustr ''SIP/2.0'' @ 32 # d @ 32 # r"
    using response by (simp add: first_line_def is_request_def show_opt_def d_def ustr_simps)
  have "int_of_ustr d = Inr (int n)" using int_of_ustr_dec [of n] by (simp add: d_def ustr_of_int_def dec_int_def)
  moreover have "line_ok (first_line m)" unfolding f using response line_ok_SIP n by (intro line_ok_sep) simp_all
  moreover have "split_max 2 [32] (first_line m) = [ustr ''SIP/2.0'', d, r]"
    unfolding f by (rule split_max_2) (use n in \<open>simp_all add: ustr_simps\<close>)
  moreover have "take 7 (first_line m) = ustr ''SIP/2.0''" by (simp add: f ustr_simps)
  moreover have "first_line m \<noteq> []" by (simp add: f)
  ultimately show ?thesis
    using response unfolding parse_first_def Let_def by (simp add: empty_sip_def)
qed

lemma header_line_read:
  assumes "header_ok h"
  shows "line_ok (header_line h) \<and> header_line h \<noteq> [] \<and> add_header d (header_line h) = dict_set (fst h) (snd h) d"
proof -
  note o = assms [unfolded header_ok_def]
  have l: "line_ok (header_line h)"
    using o line_ok_sep [of "fst h" "32 # snd h" 58] line_ok_sep [of "[]" "snd h" 32]
    by (simp add: header_line_def line_ok_def)
  have "break_at [58] (header_line h) = Some (fst h, 32 # snd h)"
    using o break_char [of 58 "fst h" "32 # snd h"] by (simp add: header_line_def)
  moreover have "strip (fst h) = fst h" "strip (32 # snd h) = snd h"
    using o strip_of_Cons [of is_white 32 "snd h"] by (simp_all add: strip_def strip_of_id is_white_def)
  ultimately show ?thesis using l by (simp add: add_header_def) (simp add: header_line_def)
qed

lemma headers_read:
  assumes "list_all header_ok hs" "distinct (map fst (d @ hs))"
  shows "foldl add_header d (map header_line hs) = d @ hs"
  using assms
proof (induction hs arbitrary: d)
  case (Cons h hs)
  then have "dict_set (fst h) (snd h) d = d @ [h]" using dict_set_new [of "fst h" d "snd h"] by (simp add: image_iff)
  then show ?case using Cons header_line_read [of h d] by simp
qed simp

lemma header_ok_length: "header_ok (ustr ''Content-Length'', ustr_of_int (int n))"
  using ustr_of_nat_ok [of n]
  by (simp add: header_ok_def line_ok_def contains_crlf_Cons stripped_def is_white_def ustr_simps)

lemma list_all_dict_set: "list_all P d \<Longrightarrow> P (k, v) \<Longrightarrow> list_all P (dict_set k v d)"
  using set_dict_set_subset [of k v d] by (auto simp: list_all_iff)

lemma headers_update [simp]: "start_ok (m\<lparr>headers := h\<rparr>) = start_ok m" "first_line (m\<lparr>headers := h\<rparr>) = first_line m"
  by (cases m; simp add: start_ok_def first_line_def is_request_def)+

lemma with_length_ok:
  assumes "sip_ok m"
  shows "sip_ok (with_length m) \<and> first_line (with_length m) = first_line m \<and> sip_body (with_length m) = sip_body m"
proof -
  have "ustr_of_int 0 = ustr ''0''" by (simp add: ustr_of_int_def dec_int_def dec_nat.simps [of 0] digit_char_def ustr_simps)
  then show ?thesis
    using assms header_ok_length [of 0] header_ok_length [of "length (sip_body m)"]
    by (simp add: with_length_def sip_ok_def list_all_dict_set)
qed

text \<open>The head of a message, up to the last line break before the body.\<close>

definition head_text :: "sip_message \<Rightarrow> ustr" where
  "head_text m = join_with CRLF (first_line m # map header_line (headers m))"

lemma join_snoc: "ls \<noteq> [] \<Longrightarrow> join_with sep (ls @ [l]) = join_with sep ls @ sep @ l"
  by (induction ls rule: induct_list012) simp_all

lemma unicode_join: "\<forall>l \<in> set ls. unicode_text l \<Longrightarrow> unicode_text sep \<Longrightarrow> unicode_text (join_with sep ls)"
  by (induction ls rule: induct_list012) simp_all

lemma parse_head:
  assumes "sip_ok m" and "utf8_decode d = head_text m @ CRLF @ (if t = [] then [] else CRLF @ t)"
    and "unicode_text t"
  shows "sip_parse d = Inr (m\<lparr>sip_body := concat (map utf8_of t)\<rparr>)"
proof -
  let ?hl = "map header_line (headers m)"
  have s: "start_ok m" and d: "distinct (map fst (headers m))" and h: "list_all header_ok (headers m)"
    using assms(1) by (simp_all add: sip_ok_def dict_ok_def)
  note f = parse_first_line [OF s]
  have hl: "\<forall>l \<in> set ?hl. line_ok l \<and> l \<noteq> []" using h header_line_read by (auto simp: list_all_iff)
  have free: "\<forall>l \<in> set (first_line m # ?hl). \<not> contains CRLF l" using hl f by (auto simp: line_ok_def)
  have e: "split_on CRLF ([] :: ustr) = [[]]" by (rule crlf.split_free) simp
  have "split_on CRLF (CRLF @ t) = [] # split_on CRLF t" using crlf.split_front [of "[]" t] by simp
  then have "split_on CRLF (utf8_decode d) = first_line m # ?hl @ [] # (if t = [] then [] else split_on CRLF t)"
    unfolding assms(2) head_text_def using crlf.split_join_append [OF _ free] e by auto
  moreover have "takeWhile (\<lambda>l. l \<noteq> []) (?hl @ [] # r) = ?hl" for r
    using hl by (subst takeWhile_append2) auto
  moreover have "foldl add_header [] ?hl = headers m" using headers_read [OF h, of "[]"] d by simp
  ultimately show ?thesis
    using f assms(3) join_split [of CRLF t]
    by (simp add: sip_parse_def Let_def utf8_encode_def)
qed

lemma serialize_ok:
  assumes "sip_ok m"
  obtains bs where "sip_serialize m = Inr (with_length m, bs)"
    "\<And>t. utf8_decode (sip_body m) = t \<Longrightarrow>
      utf8_decode bs = head_text (with_length m) @ CRLF @ (if t = [] then [] else CRLF @ t)"
proof -
  let ?m = "with_length m" and ?ls = "first_line (with_length m) # map header_line (headers (with_length m))"
  note w = with_length_ok [OF assms]
  have s: "start_ok ?m" "list_all header_ok (headers ?m)" using w by (simp_all add: sip_ok_def)
  have "\<forall>l \<in> set ?ls. unicode_text l"
    using parse_first_line [OF s(1)] s(2) header_line_read by (auto simp: list_all_iff line_ok_def)
  then have u: "unicode_text (join_with CRLF (?ls @ [[]]))" by (intro unicode_join) simp_all
  let ?r = "concat (map utf8_of (join_with CRLF (?ls @ [[]])))"
  have j: "join_with CRLF (?ls @ [[]]) = head_text ?m @ CRLF" unfolding head_text_def by (subst join_snoc) simp_all
  let ?bs = "if sip_body m \<noteq> [] then ?r @ [13, 10] @ sip_body m else ?r"
  have ser: "sip_serialize m = Inr (?m, ?bs)" using u w by (simp add: sip_serialize_def utf8_encode_def Let_def)
  have c: "utf8_decode ([13, 10] @ b) = CRLF @ utf8_decode b" for b
    using decode_encode_append [of CRLF b] by (simp add: utf8_of_def)
  have "utf8_decode ?bs = head_text ?m @ CRLF @ (if t = [] then [] else CRLF @ t)" if t: "utf8_decode (sip_body m) = t" for t
  proof (cases "sip_body m = []")
    case True
    then show ?thesis using t decode_encode_append [OF u, of "[]"] unfolding j by auto
  next
    case False
    then have "t \<noteq> []" using t by (cases "sip_body m") (auto split: prod.splits)
    then show ?thesis using False t decode_encode_append [OF u, of "[13, 10] @ sip_body m"] unfolding c j by simp
  qed
  with ser that show thesis by blast
qed

lemma sip_message_parsed:
  assumes "sip_ok m"
  shows "\<exists>bs body. sip_serialize m = Inr (with_length m, bs) \<and> sip_parse bs = Inr ((with_length m)\<lparr>sip_body := body\<rparr>)
    \<and> utf8_encode (utf8_decode (sip_body m)) = Inr body"
proof -
  obtain bs where bs: "sip_serialize m = Inr (with_length m, bs)"
    "\<And>t. utf8_decode (sip_body m) = t \<Longrightarrow>
      utf8_decode bs = head_text (with_length m) @ CRLF @ (if t = [] then [] else CRLF @ t)"
    using serialize_ok [OF assms] by metis
  let ?t = "utf8_decode (sip_body m)" and ?b = "concat (map utf8_of (utf8_decode (sip_body m)))"
  have "sip_parse bs = Inr ((with_length m)\<lparr>sip_body := ?b\<rparr>)"
    using parse_head [OF _ bs(2) [OF refl] decode_unicode] with_length_ok [OF assms] by blast
  moreover have "utf8_encode ?t = Inr ?b" using decode_unicode by (simp add: utf8_encode_def)
  ultimately show ?thesis using bs(1) by blast
qed

text \<open>
  C17: a well-formed request or response is parsed back with the headers it was sent with,
  Content-Length included; its body comes back as the UTF-8 reading of its bytes, so the message
  survives exactly when the body is valid UTF-8.
\<close>

theorem sip_roundtrip:
  assumes "sip_ok m"
  shows "\<exists>m' bs body. sip_serialize m = Inr (m', bs) \<and> m' = with_length m
    \<and> sip_parse bs = Inr (m'\<lparr>sip_body := body\<rparr>) \<and> utf8_encode (utf8_decode (sip_body m)) = Inr body
    \<and> (sip_parse bs = Inr m' \<longleftrightarrow> utf8_valid (sip_body m))"
proof -
  have "(with_length m)\<lparr>sip_body := b\<rparr> = with_length m \<longleftrightarrow> b = sip_body m" for b
    using with_length_ok [OF assms] by (metis sip_message.select_convs(6) sip_message.surjective sip_message.update_convs(6))
  with sip_message_parsed [OF assms] show ?thesis by (auto simp: utf8_valid_def)
qed

definition sample_register :: sip_message where
  "sample_register = empty_sip\<lparr>sip_method := Some (ustr ''REGISTER''), request_uri := Some (ustr ''sip:ims''),
     headers := [(ustr ''Call-ID'', ustr ''c1''), (ustr ''Contact'', ustr ''<sip:u@ims>'')], sip_body := [0x41, 0x91]\<rparr>"

theorem sip_roundtrip_witness:
  "\<exists>m' bs. sip_serialize sample_register = Inr (m', bs) \<and> sip_parse bs \<noteq> Inr m'"
proof -
  have "sip_ok sample_register"
    by (simp add: sip_ok_def start_ok_def sample_register_def empty_sip_def header_ok_def line_ok_def)
      (simp add: ustr_simps contains_crlf_Cons stripped_def is_white_def dict_ok_def)
  moreover have "\<not> utf8_valid (sip_body sample_register)"
    using not_utf8_valid [where a = "0x41" and b = "0x91" and xs = "[]" and ys = "[]"] by (simp add: sample_register_def is_tail_def)
  ultimately show ?thesis using sip_roundtrip by blast
qed

end
