(* ===== verification/Sip_Client.thy ===== *)
theory Sip_Client
  imports Sip
begin

text \<open>
  The transport, the dispatcher and the transactions of \<^verbatim>\<open>ims/sip_client.py\<close>. Random identifiers
  (Call-ID, branch, tag) are arguments. A future is its number; a call of \<^verbatim>\<open>send_request\<close> is split
  where it waits: \<open>begin_request\<close> runs up to the wait, \<open>request_timeout\<close> is the 32 second timeout,
  and a response comes in through \<open>handle_message\<close> or \<open>resolve_response\<close>.
\<close>

section \<open>Transport\<close>

text \<open>
  \<open>bound\<close> is the handler the datagram protocol object was made with. Only UDP reads: a TCP
  connection's reader is dropped, and another transport name sends nothing.
\<close>

record 'h transport =
  tr_kind :: ustr
  tr_handler :: "'h option"
  tr_bound :: "'h option"
  tr_up :: bool
  tr_sent :: "((ustr \<times> int) \<times> bytes) list"

definition new_transport :: "ustr \<Rightarrow> 'h transport" where
  "new_transport kind = \<lparr>tr_kind = upper kind, tr_handler = None, tr_bound = None, tr_up = False, tr_sent = []\<rparr>"

definition set_handler :: "'h \<Rightarrow> 'h transport \<Rightarrow> 'h transport" where
  "set_handler h t = t\<lparr>tr_handler := Some h\<rparr>"

definition transport_start :: "'h transport \<Rightarrow> 'h transport" where
  "transport_start t = (if tr_kind t = ustr ''UDP'' then t\<lparr>tr_bound := tr_handler t, tr_up := True\<rparr> else t)"

definition datagram_received :: "bytes \<Rightarrow> 'h transport \<Rightarrow> ('h \<times> sip_message) option" where
  "datagram_received d t = (case sip_parse d of Inl _ \<Rightarrow> None | Inr msg \<Rightarrow> map_option (\<lambda>h. (h, msg)) (tr_bound t))"

definition transport_send :: "sip_message \<Rightarrow> ustr \<times> int \<Rightarrow> 'h transport \<Rightarrow> 'h transport res" where
  "transport_send msg dest t =
     rbind (sip_serialize msg) (\<lambda>(_, d).
     Inr (if tr_kind t = ustr ''UDP'' \<and> tr_up t \<or> tr_kind t = ustr ''TCP'' then t\<lparr>tr_sent := tr_sent t @ [(dest, d)]\<rparr> else t))"

definition transport_stop :: "'h transport \<Rightarrow> 'h transport" where
  "transport_stop t = t\<lparr>tr_up := False\<rparr>"

text \<open>\<^verbatim>\<open>SIPClient.start\<close> installs its own handler before the transport starts.\<close>

definition client_start :: "'h \<Rightarrow> 'h transport \<Rightarrow> 'h transport" where
  "client_start client_handler t = transport_start (set_handler client_handler t)"

section \<open>Dispatcher\<close>

record 'h dispatcher =
  method_handlers :: "(ustr \<times> 'h) list"
  response_handlers :: "'h list"
  default_handler :: "'h option"

definition new_dispatcher :: "'h dispatcher" where
  "new_dispatcher = \<lparr>method_handlers = [], response_handlers = [], default_handler = None\<rparr>"

definition register_method :: "ustr \<Rightarrow> 'h \<Rightarrow> 'h dispatcher \<Rightarrow> 'h dispatcher" where
  "register_method k h d = d\<lparr>method_handlers := dict_set (upper k) h (method_handlers d)\<rparr>"

definition register_response_handler :: "'h \<Rightarrow> 'h dispatcher \<Rightarrow> 'h dispatcher" where
  "register_response_handler h d = d\<lparr>response_handlers := response_handlers d @ [h]\<rparr>"

definition set_default_handler :: "'h \<Rightarrow> 'h dispatcher \<Rightarrow> 'h dispatcher" where
  "set_default_handler h d = d\<lparr>default_handler := Some h\<rparr>"

text \<open>\<open>run h msg\<close> is the handler's body; an exception of a response handler stops the others.\<close>

definition dispatch :: "('h \<Rightarrow> sip_message \<Rightarrow> 's \<Rightarrow> 's \<times> unit res) \<Rightarrow> 'h dispatcher \<Rightarrow> sip_message \<Rightarrow> 's \<Rightarrow> 's \<times> unit res" where
  "dispatch run d msg s =
     (if is_response msg then seq_all (map (\<lambda>h. run h msg) (response_handlers d)) s
      else let k = (case sip_method msg of None \<Rightarrow> [] | Some m \<Rightarrow> if m = [] then [] else upper m) in
        case map_of (method_handlers d) k of
          Some h \<Rightarrow> run h msg s
        | None \<Rightarrow> (case default_handler d of Some h \<Rightarrow> run h msg s | None \<Rightarrow> (s, Inr ())))"

section \<open>Transactions\<close>

datatype future = Waiting | Result sip_message | Cancelled

record client =
  cl_kind :: ustr
  cl_ip :: ustr
  cl_port :: int
  cl_cseq :: int
  pending :: "(ustr \<times> nat) list"
  futures :: "(ustr \<times> future) list"
  sent :: "sip_message list"

definition new_client :: "ustr \<Rightarrow> client" where
  "new_client kind = \<lparr>cl_kind = upper kind, cl_ip = ustr ''0.0.0.0'', cl_port = 5060, cl_cseq = 1, pending = [], futures = [], sent = []\<rparr>"

record request =
  rq_method :: ustr
  rq_uri :: ustr
  rq_to :: ustr
  rq_from :: ustr
  rq_extra :: "(ustr \<times> ustr) list"
  rq_body :: bytes
  rq_call_id :: "ustr option"

definition request_message :: "request \<Rightarrow> ustr \<Rightarrow> ustr \<Rightarrow> ustr \<Rightarrow> client \<Rightarrow> sip_message" where
  "request_message rq cid branch tag c =
     (let h = [(ustr ''Via'', ustr ''SIP/2.0/'' @ cl_kind c @ [32] @ cl_ip c @ [58] @ ustr_of_int (cl_port c) @ ustr '';branch='' @ branch),
               (ustr ''Max-Forwards'', ustr ''70''),
               (ustr ''From'', [60] @ rq_from rq @ ustr ''>;tag='' @ tag),
               (ustr ''To'', [60] @ rq_to rq @ [62]),
               (ustr ''Call-ID'', cid),
               (ustr ''CSeq'', ustr_of_int (cl_cseq c) @ [32] @ rq_method rq),
               (ustr ''User-Agent'', ustr ''VirtualPhone/1.0'')]
      in \<lparr>sip_method = Some (rq_method rq), request_uri = Some (rq_uri rq), status_code = None, reason_phrase = None,
          headers = dict_update h (rq_extra rq), sip_body = rq_body rq\<rparr>)"

text \<open>\<open>call_id or generate_call_id()\<close>: an empty Call-ID is replaced, too.\<close>

definition request_id :: "request \<Rightarrow> ustr \<Rightarrow> ustr" where
  "request_id rq fresh = (case rq_call_id rq of None \<Rightarrow> fresh | Some cid \<Rightarrow> if cid = [] then fresh else cid)"

definition begin_request :: "request \<Rightarrow> ustr \<Rightarrow> ustr \<Rightarrow> ustr \<Rightarrow> client \<Rightarrow> client \<times> nat res" where
  "begin_request rq fresh branch tag c =
     (let cid = request_id rq fresh; msg = request_message rq cid branch tag c; f = length (futures c);
          c1 = c\<lparr>cl_cseq := cl_cseq c + 1, futures := futures c @ [(cid, Waiting)], pending := dict_set cid f (pending c)\<rparr>
      in case sip_serialize msg of
           Inl e \<Rightarrow> (c1, Inl e)
         | Inr (m', _) \<Rightarrow> (c1\<lparr>sent := sent c1 @ [m']\<rparr>, Inr f))"

definition is_done :: "future \<Rightarrow> bool" where
  "is_done f \<longleftrightarrow> f \<noteq> Waiting"

definition set_result :: "nat \<Rightarrow> sip_message \<Rightarrow> client \<Rightarrow> client" where
  "set_result f msg c = (case futures c ! f of (cid, x) \<Rightarrow> if is_done x then c else c\<lparr>futures := (futures c)[f := (cid, Result msg)]\<rparr>)"

definition resolve_final :: "sip_message \<Rightarrow> client \<Rightarrow> client" where
  "resolve_final msg c =
     (case map_of (pending c) (call_id msg) of None \<Rightarrow> c
      | Some f \<Rightarrow> set_result f msg (c\<lparr>pending := dict_del (call_id msg) (pending c)\<rparr>))"

definition handle_message :: "sip_message \<Rightarrow> client \<Rightarrow> client" where
  "handle_message msg c =
     (case status_code msg of None \<Rightarrow> c | Some code \<Rightarrow> if code \<ge> 200 then resolve_final msg c else c)"

definition resolve_response :: "sip_message \<Rightarrow> client \<Rightarrow> client \<times> bool" where
  "resolve_response msg c =
     (if call_id msg \<notin> fst ` set (pending c) then (c, False)
      else case status_code msg of None \<Rightarrow> (c, False)
        | Some code \<Rightarrow> if code \<ge> 200 then (resolve_final msg c, True) else (c, False))"

definition has_pending_request :: "ustr \<Rightarrow> client \<Rightarrow> bool" where
  "has_pending_request cid c \<longleftrightarrow> cid \<in> fst ` set (pending c)"

text \<open>
  The timeout of a future that is still waiting: it is cancelled, its Call-ID is deleted from the
  table, which raises KeyError when the table has no such entry, and TimeoutError is raised.
\<close>

definition request_timeout :: "nat \<Rightarrow> client \<Rightarrow> client \<times> exn" where
  "request_timeout f c =
     (case futures c ! f of (cid, _) \<Rightarrow>
      let c1 = c\<lparr>futures := (futures c)[f := (cid, Cancelled)]\<rparr> in
      if cid \<notin> fst ` set (pending c) then (c1, KeyError)
      else (c1\<lparr>pending := dict_del cid (pending c)\<rparr>, TimeoutError))"

section \<open>Runs\<close>

datatype client_event = Request request ustr ustr ustr | Message sip_message | Resolve sip_message | Timeout nat

definition client_exec :: "client_event \<Rightarrow> client \<Rightarrow> client" where
  "client_exec e c = (case e of Request rq fresh branch tag \<Rightarrow> fst (begin_request rq fresh branch tag c)
     | Message msg \<Rightarrow> handle_message msg c | Resolve msg \<Rightarrow> fst (resolve_response msg c)
     | Timeout f \<Rightarrow> (if f < length (futures c) \<and> snd (futures c ! f) = Waiting then fst (request_timeout f c) else c))"

inductive client_run :: "ustr \<Rightarrow> client \<Rightarrow> client_event list \<Rightarrow> bool" where
  start: "client_run kind (new_client kind) []"
| step: "client_run kind c es \<Longrightarrow> client_run kind (client_exec e c) (es @ [e])"

text \<open>
  What holds whatever the Call-IDs are: the table has one entry per Call-ID, of a future that was
  made for it, and only final responses with the right Call-ID are delivered.
\<close>

definition client_inv :: "client \<Rightarrow> bool" where
  "client_inv c \<longleftrightarrow> dict_ok (pending c)
     \<and> (\<forall>(cid, f) \<in> set (pending c). f < length (futures c) \<and> fst (futures c ! f) = cid)
     \<and> (\<forall>(cid, x) \<in> set (futures c). \<forall>r. x = Result r \<longrightarrow> call_id r = cid \<and> (\<exists>n \<ge> 200. status_code r = Some n))
     \<and> cl_cseq c = 1 + int (length (futures c))"

lemma dict_okD: "dict_ok d \<Longrightarrow> (k, v) \<in> set d \<longleftrightarrow> map_of d k = Some v"
  by (auto simp: dict_ok_def dest: map_of_SomeD)

lemma set_result_inv:
  assumes "client_inv c" "f < length (futures c)" "fst (futures c ! f) = call_id msg" "status_code msg = Some n" "n \<ge> 200"
  shows "client_inv (set_result f msg c)"
proof -
  obtain cid x where fx: "futures c ! f = (cid, x)" by fastforce
  have "set ((futures c)[f := (cid, Result msg)]) \<subseteq> insert (cid, Result msg) (set (futures c))"
    by (rule set_update_subset_insert)
  then show ?thesis using assms fx
    by (auto simp: set_result_def client_inv_def nth_list_update split: prod.splits)
qed

lemma pending_sub:
  "client_inv c \<Longrightarrow> set p \<subseteq> set (pending c) \<Longrightarrow> dict_ok p \<Longrightarrow> client_inv (c\<lparr>pending := p\<rparr>)"
  by (auto simp: client_inv_def)

lemma in_dict_del: "x \<in> set (dict_del k d) \<Longrightarrow> x \<in> set d"
  by (auto simp: dict_del_def)

lemma resolve_final_inv:
  assumes "client_inv c" "status_code msg = Some n" "n \<ge> 200"
  shows "client_inv (resolve_final msg c)"
proof (cases "map_of (pending c) (call_id msg)")
  case None
  then show ?thesis using assms by (simp add: resolve_final_def)
next
  case (Some f)
  let ?c = "c\<lparr>pending := dict_del (call_id msg) (pending c)\<rparr>"
  have "client_inv ?c"
    using assms(1) by (intro pending_sub) (auto simp: client_inv_def dest: in_dict_del)
  moreover have "f < length (futures ?c)" "fst (futures ?c ! f) = call_id msg"
    using map_of_SomeD [OF Some] assms(1) by (auto simp: client_inv_def)
  ultimately show ?thesis using set_result_inv assms(2,3) Some by (simp add: resolve_final_def)
qed

lemma begin_request_inv:
  assumes "client_inv c"
  shows "client_inv (fst (begin_request rq fresh branch tag c))"
proof -
  let ?cid = "request_id rq fresh" and ?f = "length (futures c)"
  have s: "client_inv (c'\<lparr>sent := x\<rparr>) = client_inv c'" for c' x by (simp add: client_inv_def)
  have "client_inv (c\<lparr>cl_cseq := cl_cseq c + 1, futures := futures c @ [(?cid, Waiting)], pending := dict_set ?cid ?f (pending c)\<rparr>)"
    using assms set_dict_set_subset [of ?cid ?f "pending c"]
    by (auto simp: client_inv_def nth_append split: prod.splits)
  then show ?thesis by (auto simp: begin_request_def Let_def s split: sum.split prod.split)
qed

lemma request_timeout_inv:
  assumes "client_inv c" "f < length (futures c)"
  shows "client_inv (fst (request_timeout f c))"
proof -
  obtain cid x where fx: "futures c ! f = (cid, x)" by fastforce
  have "set ((futures c)[f := (cid, Cancelled)]) \<subseteq> insert (cid, Cancelled) (set (futures c))"
    by (rule set_update_subset_insert)
  then have "client_inv (c\<lparr>futures := (futures c)[f := (cid, Cancelled)]\<rparr>)"
    using assms fx by (auto simp: client_inv_def nth_list_update split: prod.splits)
  moreover from this have "client_inv (c\<lparr>futures := (futures c)[f := (cid, Cancelled)], pending := dict_del cid (pending c)\<rparr>)"
    by (auto simp: client_inv_def dest: in_dict_del)
  ultimately show ?thesis using fx by (simp add: request_timeout_def Let_def)
qed

lemma client_exec_inv: "client_inv c \<Longrightarrow> client_inv (client_exec e c)"
  by (cases e) (auto simp: client_exec_def handle_message_def resolve_response_def
      intro!: begin_request_inv request_timeout_inv resolve_final_inv split: option.split)

lemma client_run_inv: "client_run kind c es \<Longrightarrow> client_inv c"
  by (induction rule: client_run.induct) (simp_all add: client_exec_inv, simp add: client_inv_def new_client_def)

text \<open>With distinct Call-IDs a request waits exactly as long as the table has its entry.\<close>

fun request_ids :: "client_event list \<Rightarrow> ustr list" where
  "request_ids [] = []"
| "request_ids (Request rq fresh _ _ # es) = request_id rq fresh # request_ids es"
| "request_ids (_ # es) = request_ids es"

lemma request_ids_append [simp]: "request_ids (es @ fs) = request_ids es @ request_ids fs"
  by (induction es rule: request_ids.induct) simp_all

definition waiting_inv :: "client \<Rightarrow> bool" where
  "waiting_inv c \<longleftrightarrow> (\<forall>f < length (futures c). snd (futures c ! f) = Waiting \<longleftrightarrow> map_of (pending c) (fst (futures c ! f)) = Some f)"

lemma pending_future:
  "client_inv c \<Longrightarrow> map_of (pending c) cid = Some f \<Longrightarrow> f < length (futures c) \<and> fst (futures c ! f) = cid"
  by (auto simp: client_inv_def dest!: map_of_SomeD)

lemma settle:
  assumes "waiting_inv c" "distinct (map fst (futures c))" "f < length (futures c)" "futures c ! f = (cid, y)" "x \<noteq> Waiting"
  shows "waiting_inv (c\<lparr>futures := (futures c)[f := (cid, x)], pending := dict_del cid (pending c)\<rparr>)"
proof -
  have "fst (futures c ! g) \<noteq> cid" if "g < length (futures c)" "g \<noteq> f" for g
    using assms(2-4) that unfolding distinct_conv_nth by (metis fst_conv length_map nth_map)
  then show ?thesis using assms by (auto simp: waiting_inv_def nth_list_update)
qed

lemma resolve_final_waiting:
  assumes "client_inv c" "waiting_inv c" "map_of (pending c) (call_id msg) = Some f"
  shows "resolve_final msg c = c\<lparr>futures := (futures c)[f := (call_id msg, Result msg)], pending := dict_del (call_id msg) (pending c)\<rparr>"
proof -
  obtain x where "futures c ! f = (call_id msg, x)" "f < length (futures c)"
    using pending_future [OF assms(1,3)] by (cases "futures c ! f") auto
  moreover from this have "x = Waiting" using assms(2,3) by (auto simp: waiting_inv_def)
  ultimately show ?thesis using assms(3) by (simp add: resolve_final_def set_result_def is_done_def)
qed

lemma resolve_final_ids [simp]: "map fst (futures (resolve_final msg c)) = map fst (futures c)"
proof -
  have u: "map fst (xs[i := (fst (xs ! i), x)]) = map fst xs" for xs :: "(ustr \<times> future) list" and i x
    by (cases "i < length xs") (simp_all add: map_update list_update_same_conv list_update_beyond)
  show ?thesis using u [of "futures c"]
    by (auto simp: resolve_final_def set_result_def split: option.split prod.split) (metis fst_conv)
qed

lemma resolve_final_waiting_inv:
  assumes "client_inv c" "waiting_inv c" "distinct (map fst (futures c))"
  shows "waiting_inv (resolve_final msg c)"
proof (cases "map_of (pending c) (call_id msg)")
  case None
  then show ?thesis using assms by (simp add: resolve_final_def)
next
  case (Some f)
  obtain x where "futures c ! f = (call_id msg, x)" "f < length (futures c)"
    using pending_future [OF assms(1) Some] by (cases "futures c ! f") auto
  then show ?thesis using settle [OF assms(2,3)] resolve_final_waiting [OF assms(1,2) Some] by simp
qed

lemma begin_request_waiting:
  assumes "client_inv c" "waiting_inv c" "request_id rq fresh \<notin> set (map fst (futures c))"
  shows "waiting_inv (fst (begin_request rq fresh branch tag c))"
    "map fst (futures (fst (begin_request rq fresh branch tag c))) = map fst (futures c) @ [request_id rq fresh]"
proof -
  let ?cid = "request_id rq fresh"
  have s: "waiting_inv (c'\<lparr>sent := x\<rparr>) = waiting_inv c'" for c' x by (simp add: waiting_inv_def)
  have "fst (futures c ! f) \<noteq> ?cid" if "f < length (futures c)" for f
    using assms(3) that by (metis length_map nth_map nth_mem)
  moreover have "map_of (pending c) i \<noteq> Some (length (futures c))" for i using pending_future [OF assms(1)] by blast
  ultimately have "waiting_inv (c\<lparr>cl_cseq := cl_cseq c + 1, futures := futures c @ [(?cid, Waiting)],
      pending := dict_set ?cid (length (futures c)) (pending c)\<rparr>)"
    using assms(2) by (auto simp: waiting_inv_def nth_append less_Suc_eq)
  then show "waiting_inv (fst (begin_request rq fresh branch tag c))"
    "map fst (futures (fst (begin_request rq fresh branch tag c))) = map fst (futures c) @ [?cid]"
    by (auto simp: begin_request_def Let_def s split: sum.split prod.split)
qed

lemma timeout_waiting:
  assumes "waiting_inv c" "distinct (map fst (futures c))" "f < length (futures c)" "snd (futures c ! f) = Waiting"
  shows "snd (request_timeout f c) = TimeoutError" "waiting_inv (fst (request_timeout f c))"
    "map fst (futures (fst (request_timeout f c))) = map fst (futures c)"
proof -
  obtain cid where f: "futures c ! f = (cid, Waiting)" using assms(4) by (cases "futures c ! f") auto
  have "map_of (pending c) cid = Some f" using assms(1,3) f unfolding waiting_inv_def by (metis fst_conv snd_conv)
  then have "cid \<in> fst ` set (pending c)" by (force dest: map_of_SomeD)
  then have t: "request_timeout f c = (c\<lparr>futures := (futures c)[f := (cid, Cancelled)], pending := dict_del cid (pending c)\<rparr>, TimeoutError)"
    using f by (simp add: request_timeout_def Let_def)
  show "snd (request_timeout f c) = TimeoutError" "waiting_inv (fst (request_timeout f c))"
    using settle [OF assms(1-3) f] by (simp_all add: t)
  show "map fst (futures (fst (request_timeout f c))) = map fst (futures c)"
    using assms(3) f by (simp add: t map_update list_update_same_conv)
qed

lemma client_exec_waiting:
  assumes "client_inv c" "waiting_inv c" "map fst (futures c) = request_ids es" "distinct (request_ids (es @ [e]))"
  shows "waiting_inv (client_exec e c) \<and> map fst (futures (client_exec e c)) = request_ids (es @ [e])"
proof -
  have d: "distinct (map fst (futures c))" using assms(3,4) by simp
  show ?thesis
  proof (cases e)
    case (Request rq fresh branch tag)
    then have "request_id rq fresh \<notin> set (map fst (futures c))" using assms(3,4) by simp
    with Request assms begin_request_waiting [OF assms(1,2)] show ?thesis by (simp add: client_exec_def)
  next
    case (Timeout f)
    then show ?thesis using assms timeout_waiting [OF assms(2) d] by (auto simp: client_exec_def)
  qed (use assms d resolve_final_waiting_inv in
      \<open>auto simp: client_exec_def handle_message_def resolve_response_def split: option.split\<close>)
qed

lemma client_run_waiting:
  "client_run kind c es \<Longrightarrow> distinct (request_ids es) \<Longrightarrow> waiting_inv c \<and> map fst (futures c) = request_ids es"
proof (induction rule: client_run.induct)
  case (step kind c es e)
  then show ?case using client_exec_waiting [OF client_run_inv [OF step.hyps(1)]] by simp
qed (simp add: waiting_inv_def new_client_def)

section \<open>What requests and services get\<close>

text \<open>
  C14: as long as no Call-ID is used twice, a request waits exactly while the table holds its
  entry; any final response with its Call-ID completes it at once and nothing else changes; a
  timeout raises TimeoutError; and what a completed request returns is a final response with its
  Call-ID.
\<close>

theorem client_transactions:
  assumes "client_run kind c es" "distinct (request_ids es)" "f < length (futures c)" "futures c ! f = (cid, x)"
  shows "(x = Waiting \<longleftrightarrow> map_of (pending c) cid = Some f)
    \<and> (\<forall>r. x = Result r \<longrightarrow> call_id r = cid \<and> (\<exists>n \<ge> 200. status_code r = Some n))
    \<and> (\<forall>r n. x = Waiting \<and> call_id r = cid \<and> status_code r = Some n \<and> 200 \<le> n \<longrightarrow>
         futures (handle_message r c) = (futures c)[f := (cid, Result r)] \<and> \<not> has_pending_request cid (handle_message r c))
    \<and> (x = Waiting \<longrightarrow> snd (request_timeout f c) = TimeoutError)"
proof -
  note i = client_run_inv [OF assms(1)] and w = client_run_waiting [OF assms(1,2)]
  have 1: "x = Waiting \<longleftrightarrow> map_of (pending c) cid = Some f"
    using w assms(3,4) unfolding waiting_inv_def by (metis fst_conv snd_conv)
  moreover have "\<forall>r. x = Result r \<longrightarrow> call_id r = cid \<and> (\<exists>n \<ge> 200. status_code r = Some n)"
    using i nth_mem [OF assms(3)] assms(4) by (auto simp: client_inv_def)
  moreover have "futures (handle_message r c) = (futures c)[f := (cid, Result r)] \<and> \<not> has_pending_request cid (handle_message r c)"
    if "x = Waiting" "call_id r = cid" "status_code r = Some n" "200 \<le> n" for r n
    using that resolve_final_waiting [OF i, of r f] w 1 by (simp add: handle_message_def has_pending_request_def)
  moreover have "x = Waiting \<longrightarrow> snd (request_timeout f c) = TimeoutError"
    using timeout_waiting(1) [of c f] w assms by simp
  ultimately show ?thesis by blast
qed

definition sample_request :: request where
  "sample_request = \<lparr>rq_method = ustr ''OPTIONS'', rq_uri = ustr ''sip:a'', rq_to = ustr ''sip:a'', rq_from = ustr ''sip:b'',
     rq_extra = [], rq_body = [], rq_call_id = None\<rparr>"

theorem client_transactions_witness:
  "let c = client_exec (Request sample_request (ustr ''c1'') (ustr ''b'') (ustr ''t'')) (new_client (ustr ''udp'')) in
     map_of (pending c) (ustr ''c1'') = Some 0 \<and> snd (request_timeout 0 c) = TimeoutError"
proof -
  let ?e = "Request sample_request (ustr ''c1'') (ustr ''b'') (ustr ''t'')" and ?c0 = "new_client (ustr ''udp'')"
  let ?c = "client_exec ?e ?c0"
  have r: "client_run (ustr ''udp'') ?c ([] @ [?e])" by (intro client_run.intros)
  have d: "distinct (request_ids ([] @ [?e]))" by simp
  have "futures ?c = [(ustr ''c1'', Waiting)]"
    by (simp add: client_exec_def begin_request_def Let_def request_id_def sample_request_def new_client_def split: sum.split prod.split)
  then have "0 < length (futures ?c)" "futures ?c ! 0 = (ustr ''c1'', Waiting)" by simp_all
  from client_transactions [OF r d this] show ?thesis by simp
qed

text \<open>
  While a request is waiting, a second request with the same Call-ID takes its place in the
  table: the first final response completes the second request only, the first one stays without
  an entry, and its timeout then raises KeyError, which the callers, prepared for TimeoutError, do
  not catch.
\<close>

theorem shared_call_id_orphans:
  assumes "client_run kind c es" "f < length (futures c)" "futures c ! f = (cid, Waiting)"
    and "begin_request rq fresh branch tag c = (c1, Inr g)" "request_id rq fresh = cid"
    and "call_id r = cid" "status_code r = Some n" "200 \<le> n"
  shows "g \<noteq> f \<and> futures (handle_message r c1) = futures c @ [(cid, Result r)]
    \<and> \<not> has_pending_request cid (handle_message r c1) \<and> snd (request_timeout f (handle_message r c1)) = KeyError"
proof -
  have c1: "futures c1 = futures c @ [(cid, Waiting)]" "pending c1 = dict_set cid g (pending c)" "g = length (futures c)"
    using assms(4,5) by (auto simp: begin_request_def Let_def split: sum.splits prod.splits)
  have "handle_message r c1 = c1\<lparr>pending := dict_del cid (dict_set cid g (pending c)), futures := futures c @ [(cid, Result r)]\<rparr>"
    using assms(6-8) c1 by (simp add: handle_message_def resolve_final_def set_result_def is_done_def)
  then show ?thesis using assms(2,3) c1(3)
    by (simp add: has_pending_request_def request_timeout_def Let_def nth_append)
qed

definition sample_response :: sip_message where
  "sample_response = empty_sip\<lparr>status_code := Some 200, headers := [(ustr ''Call-ID'', ustr ''c1'')]\<rparr>"

theorem shared_call_id_orphans_witness:
  "\<exists>c c1 g. futures c ! 0 = (ustr ''c1'', Waiting) \<and> begin_request sample_request (ustr ''c1'') [] [] c = (c1, Inr g)
     \<and> snd (request_timeout 0 (handle_message sample_response c1)) = KeyError"
proof -
  let ?e = "Request sample_request (ustr ''c1'') [] []" and ?c0 = "new_client (ustr ''udp'')"
  let ?c = "client_exec ?e ?c0"
  have r: "client_run (ustr ''udp'') ?c ([] @ [?e])" by (intro client_run.intros)
  have f: "futures ?c = [(ustr ''c1'', Waiting)]" "cl_kind ?c = ustr ''UDP''" "cl_ip ?c = ustr ''0.0.0.0''" "cl_port ?c = 5060" "cl_cseq ?c = 2"
    by (simp_all add: client_exec_def begin_request_def Let_def request_id_def sample_request_def new_client_def
        upper_def ustr_simps split: sum.split prod.split)
  have "\<not> raises (sip_serialize (request_message sample_request (ustr ''c1'') [] [] ?c))"
    unfolding request_message_def f Let_def
    by (simp add: sip_serialize_def sample_request_def dict_update_def with_length_def first_line_def
        is_request_def show_opt_def header_line_def utf8_encode_def Let_def)
  then obtain m' bs where "sip_serialize (request_message sample_request (ustr ''c1'') [] [] ?c) = Inr (m', bs)"
    by (auto simp: not_raises)
  then obtain c1 g where b: "begin_request sample_request (ustr ''c1'') [] [] ?c = (c1, Inr g)"
    by (auto simp: begin_request_def Let_def request_id_def sample_request_def)
  have l: "0 < length (futures ?c)" "futures ?c ! 0 = (ustr ''c1'', Waiting)" using f by simp_all
  have i: "request_id sample_request (ustr ''c1'') = ustr ''c1''" "call_id sample_response = ustr ''c1''"
      "status_code sample_response = Some 200" "(200 :: int) \<le> 200"
    by (simp_all add: request_id_def sample_request_def sample_response_def call_id_def header_def dict_get_def)
  from shared_call_id_orphans [OF r l b i] l(2) b show ?thesis by blast
qed

end
