(* ===== verification/Sms_Service.thy ===== *)
theory Sms_Service
  imports Sms_Relay Sip_Client Digits
begin

text \<open>
  \<^verbatim>\<open>ims/sms.py\<close>: SMS over IMS. What \<^verbatim>\<open>send_request\<close> returns or raises is a parameter \<open>net request\<close>;
  a call of the MT callback is an entry of \<open>inbox\<close>, a response handed to the transport one of
  \<open>outbox\<close>. The module's counters are part of the state. Digits in URIs are the ASCII ones.
\<close>

datatype sms_error = SipFailed | Raised exn

record sms =
  sc_pcscf :: ustr
  sc_impu :: ustr
  sc_home :: ustr
  sc_route :: ustr
  sms_started :: bool
  rp_ref :: int
  last_message_ref :: int
  mt_callback :: bool
  inbox :: "(ustr \<times> ustr \<times> ustr) list"
  outbox :: "sip_message list"
  sms_enabled :: bool
  messages_sent :: int
  messages_received :: int
  last_error :: "sms_error option"

definition new_sms :: "ustr \<Rightarrow> ustr \<Rightarrow> ustr \<Rightarrow> ustr \<Rightarrow> sms" where
  "new_sms pcscf impu home route = \<lparr>sc_pcscf = pcscf, sc_impu = impu, sc_home = home, sc_route = route, sms_started = False,
     rp_ref = 0, last_message_ref = 0, mt_callback = False, inbox = [], outbox = [], sms_enabled = False, messages_sent = 0,
     messages_received = 0, last_error = None\<rparr>"

text \<open>The handlers that a transport can hold: the client's own and the service's.\<close>

datatype sms_handler = Client_Handler | Sms_Handler

definition sms_start :: "sms_handler transport \<Rightarrow> sms \<Rightarrow> sms_handler transport \<times> sms" where
  "sms_start t s =
     (if sc_pcscf s = [] then (t, s)
      else (set_handler Sms_Handler (client_start Client_Handler t), s\<lparr>sms_started := True, sms_enabled := True\<rparr>))"

definition sms_stop :: "sms \<Rightarrow> sms" where
  "sms_stop s = s\<lparr>sms_started := False, sms_enabled := False\<rparr>"

section \<open>Numbers in URIs\<close>

definition is_number_char :: "nat \<Rightarrow> bool" where
  "is_number_char c \<longleftrightarrow> c = 43 \<or> 48 \<le> c \<and> c \<le> 57"

text \<open>\<open>re.search(scheme + r'([+\d]+)' + end, uri)\<close>: the leftmost match.\<close>

fun search_number :: "ustr \<Rightarrow> ustr \<Rightarrow> ustr \<Rightarrow> ustr option" where
  "search_number scheme end [] = None"
| "search_number scheme end (c # s) =
     (let t = drop (length scheme) (c # s); num = takeWhile is_number_char t in
      if take (length scheme) (c # s) = scheme \<and> num \<noteq> [] \<and> take (length end) (dropWhile is_number_char t) = end
      then Some num else search_number scheme end s)"

definition extract_number_from_uri :: "ustr \<Rightarrow> ustr" where
  "extract_number_from_uri uri =
     (case search_number (ustr ''sip:'') [64] uri of Some n \<Rightarrow> n
      | None \<Rightarrow> (case search_number (ustr ''tel:'') [] uri of Some n \<Rightarrow> n | None \<Rightarrow> uri))"

section \<open>Sending\<close>

definition next_rp_ref :: "sms \<Rightarrow> int \<times> sms" where
  "next_rp_ref s = (rp_ref s, s\<lparr>rp_ref := (rp_ref s + 1) AND 0xFF\<rparr>)"

definition sip_uri :: "ustr \<Rightarrow> ustr" where
  "sip_uri u = (if take 4 u = ustr ''sip:'' then u else ustr ''sip:'' @ u)"

definition sms_request :: "ustr \<Rightarrow> bytes \<Rightarrow> sms \<Rightarrow> request" where
  "sms_request dest_number body s =
     (let dest_uri = ustr ''sip:'' @ dropWhile (\<lambda>c. c = 43) dest_number @ [64] @ sc_home s; from_uri = sip_uri (sc_impu s)
      in \<lparr>rq_method = ustr ''MESSAGE'', rq_uri = dest_uri, rq_to = dest_uri, rq_from = from_uri,
          rq_extra = [(ustr ''Content-Type'', ustr ''application/vnd.3gpp.sms'')]
            @ (if sc_route s \<noteq> [] then [(ustr ''Route'', sc_route s)] else [])
            @ [(ustr ''P-Preferred-Identity'', [60] @ from_uri @ [62])],
          rq_body = body, rq_call_id = None\<rparr>)"

definition send_sip_message :: "(request \<Rightarrow> sip_message res) \<Rightarrow> ustr \<Rightarrow> bytes \<Rightarrow> sms \<Rightarrow> sms \<times> bool res" where
  "send_sip_message net dest_number tpdu s =
     (case next_rp_ref s of (ref, s1) \<Rightarrow>
      (case rbind (wrap_mo tpdu ref []) rp_to_bytes of Inl e \<Rightarrow> (s1, Inl e)
       | Inr body \<Rightarrow>
           (case net (sms_request dest_number body s1) of
              Inl TimeoutError \<Rightarrow> (s1, Inr False)
            | Inl e \<Rightarrow> (s1, Inl e)
            | Inr resp \<Rightarrow> (s1, Inr (status_code resp = Some 200 \<or> status_code resp = Some 202)))))"

record send_result =
  res_message_ref :: int
  res_error_code :: int

definition plus_number :: "sms_address \<Rightarrow> ustr" where
  "plus_number a = (if ton_value (ton a) = 1 then [43] @ number a else number a)"

definition send_sms :: "(request \<Rightarrow> sip_message res) \<Rightarrow> string \<Rightarrow> sms \<Rightarrow> sms \<times> send_result" where
  "send_sms net pdu s =
     (if \<not> sms_started s then (s, \<lparr>res_message_ref = 0, res_error_code = 0\<rparr>)
      else case rbind (parse_pdu_from_ril pdu) (\<lambda>(_, tpdu). rbind (submit_from_bytes tpdu) (\<lambda>m. Inr (tpdu, m))) of
        Inl e \<Rightarrow> (s\<lparr>last_error := Some (Raised e)\<rparr>, \<lparr>res_message_ref = 0, res_error_code = 1\<rparr>)
      | Inr (tpdu, m) \<Rightarrow>
          (case send_sip_message net (plus_number (destination m)) tpdu (s\<lparr>last_message_ref := message_ref m\<rparr>) of
             (s1, Inl e) \<Rightarrow> (s1\<lparr>last_error := Some (Raised e)\<rparr>, \<lparr>res_message_ref = 0, res_error_code = 1\<rparr>)
           | (s1, Inr ok) \<Rightarrow>
               if ok then (s1\<lparr>messages_sent := messages_sent s1 + 1, last_error := None\<rparr>,
                           \<lparr>res_message_ref = message_ref m, res_error_code = 0\<rparr>)
               else (s1\<lparr>last_error := Some SipFailed\<rparr>, \<lparr>res_message_ref = message_ref m, res_error_code = 1\<rparr>)))"

section \<open>Receiving\<close>

definition mt_deliver :: "ustr \<Rightarrow> ustr \<Rightarrow> ustr \<Rightarrow> sms \<Rightarrow> sms" where
  "mt_deliver from to text s = s\<lparr>inbox := inbox s @ [(from, to, text)], messages_received := messages_received s + 1\<rparr>"

definition deliver_mt_sms :: "ustr \<Rightarrow> ustr \<Rightarrow> ustr \<Rightarrow> sms \<Rightarrow> sms \<times> bool" where
  "deliver_mt_sms from text to s = (if mt_callback s then (mt_deliver from to text s, True) else (s, False))"

definition ok_response :: "sip_message \<Rightarrow> sip_message" where
  "ok_response m = empty_sip\<lparr>status_code := Some 200, reason_phrase := Some (ustr ''OK''),
     headers := [(ustr ''Via'', header m ''Via''), (ustr ''From'', header m ''From''), (ustr ''To'', header m ''To''),
       (ustr ''Call-ID'', header m ''Call-ID''), (ustr ''CSeq'', header m ''CSeq'')]\<rparr>"

definition handle_sip_message :: "sip_message \<Rightarrow> sms \<Rightarrow> sms \<times> unit res" where
  "handle_sip_message m s =
     (case sip_serialize (ok_response m) of Inl e \<Rightarrow> (s, Inl e)
      | Inr (r, _) \<Rightarrow>
          let s1 = s\<lparr>outbox := outbox s @ [r]\<rparr> in
          if \<not> contains (ustr ''application/vnd.3gpp.sms'') (header m ''Content-Type'') then
            let text = utf8_decode (sip_body m) in
            (if mt_callback s1 \<and> text \<noteq> [] then mt_deliver (extract_number_from_uri (header m ''From'')) [] text s1 else s1, Inr ())
          else (case rp_from_bytes (sip_body m) of Inl _ \<Rightarrow> (s1, Inr ())
            | Inr rp \<Rightarrow>
                if rp_msg_type rp \<in> {RP_DATA_MT, RP_DATA_MO} then
                  (case deliver_from_bytes (rp_tpdu rp) of Inl _ \<Rightarrow> (s1, Inr ())
                   | Inr d \<Rightarrow> (if mt_callback s1 then mt_deliver (plus_number (originator d)) [] (del_text d) s1 else s1, Inr ()))
                else (s1, Inr ())))"

definition sms_handle_incoming :: "sip_message \<Rightarrow> client \<times> sms \<Rightarrow> (client \<times> sms) \<times> unit res" where
  "sms_handle_incoming m cs =
     (if is_response m then ((fst (resolve_response m (fst cs)), snd cs), Inr ())
      else if sip_method m = Some (ustr ''MESSAGE'') then
        (case handle_sip_message m (snd cs) of (s, r) \<Rightarrow> ((fst cs, s), r))
      else (cs, Inr ()))"

section \<open>Mobile-originated messages\<close>

lemma send_sms_parsed:
  assumes "sms_started s" "submit_from_bytes tpdu = Inr m" "length smsc < 256" "build_pdu_for_ril tpdu smsc = Inr pdu"
  shows "send_sms net pdu s =
    (case send_sip_message net (plus_number (destination m)) tpdu (s\<lparr>last_message_ref := message_ref m\<rparr>) of
             (s1, Inl e) \<Rightarrow> (s1\<lparr>last_error := Some (Raised e)\<rparr>, \<lparr>res_message_ref = 0, res_error_code = 1\<rparr>)
           | (s1, Inr ok) \<Rightarrow>
               if ok then (s1\<lparr>messages_sent := messages_sent s1 + 1, last_error := None\<rparr>,
                           \<lparr>res_message_ref = message_ref m, res_error_code = 0\<rparr>)
               else (s1\<lparr>last_error := Some SipFailed\<rparr>, \<lparr>res_message_ref = message_ref m, res_error_code = 1\<rparr>))"
  using assms ril_pdu_parsed [OF assms(3,4)] by (simp add: send_sms_def)

text \<open>
  A message handed over by the RIL leaves as one SIP MESSAGE to the number of its address,
  whose body is an RP-DATA with the message's TPDU unchanged and the next reference; the result
  carries the message's own reference, error code 0 exactly for a 200 or a 202, and the counter of
  sent messages advances exactly then. A timeout is a failed message, not an exception.
\<close>

theorem send_sms_outcome:
  assumes "sms_started s" "submit_from_bytes tpdu = Inr m" "length tpdu < 256" "length smsc < 256"
    and "build_pdu_for_ril tpdu smsc = Inr pdu" "0 \<le> rp_ref s" "rp_ref s < 256"
    and "send_sms net pdu s = (s', r)" "net = (\<lambda>rq. if bad rq then Inl TimeoutError else Inr (answer rq))"
  shows "\<exists>body rp. rp_from_bytes body = Inr rp \<and> rp_tpdu rp = tpdu \<and> rp_reference rp = rp_ref s \<and> rp_msg_type rp = RP_DATA_MO
    \<and> (let rq = sms_request (plus_number (destination m)) body s; ok = (\<not> bad rq \<and> status_code (answer rq) \<in> {Some 200, Some 202})
       in r = \<lparr>res_message_ref = message_ref m, res_error_code = (if ok then 0 else 1)\<rparr>
        \<and> messages_sent s' = messages_sent s + (if ok then 1 else 0) \<and> (last_error s' = None \<longleftrightarrow> ok)
        \<and> rp_ref s' = (rp_ref s + 1) mod 256)"
proof -
  let ?rp = "\<lparr>rp_msg_type = RP_DATA_MO, rp_reference = rp_ref s, rp_originator = [], rp_destination = [], rp_tpdu = tpdu\<rparr>"
  let ?s1 = "s\<lparr>last_message_ref := message_ref m, rp_ref := (rp_ref s + 1) AND 0xFF\<rparr>"
  have w: "wrap_mo tpdu (rp_ref s) [] = Inr ?rp" by (simp add: wrap_mo_def smsc_address_def)
  have "rp_ok ?rp" using assms(3,6,7) by (simp add: rp_ok_def lv_ok_def)
  then obtain body where b: "rp_to_bytes ?rp = Inr body" "rp_from_bytes body = Inr ?rp"
    using rp_format.dec_enc by blast
  have q: "sms_request d body ?s1 = sms_request d body s" for d by (simp add: sms_request_def)
  have "send_sip_message net (plus_number (destination m)) tpdu (s\<lparr>last_message_ref := message_ref m\<rparr>) =
      (?s1, Inr (let rq = sms_request (plus_number (destination m)) body s in \<not> bad rq \<and> status_code (answer rq) \<in> {Some 200, Some 202}))"
    by (simp add: send_sip_message_def next_rp_ref_def w b q assms(9) Let_def)
  then show ?thesis
    using b(2) assms(8) send_sms_parsed [OF assms(1,2,4,5), of net]
    by (intro exI [of _ body] exI [of _ ?rp]) (auto simp: Let_def and_255_int split: if_splits)
qed

definition sample_tpdu :: bytes where
  "sample_tpdu = [1, 1, 2, 0x91, 0x51, 0, 0, 0]"

lemma sample_tpdu_parsed: "submit_from_bytes sample_tpdu = Inr (create_submit [49, 53] [] GSM_7BIT 1)"
  by code_simp

lemma sample_pdu: "\<exists>pdu. build_pdu_for_ril sample_tpdu [] = Inr pdu"
  by (simp add: build_pdu_for_ril_def)

theorem send_sms_outcome_witness:
  "\<exists>s s' pdu. build_pdu_for_ril sample_tpdu [] = Inr pdu
     \<and> send_sms (\<lambda>rq. Inr (empty_sip\<lparr>status_code := Some 202\<rparr>)) pdu s = (s', \<lparr>res_message_ref = 1, res_error_code = 0\<rparr>)
     \<and> messages_sent s' = 1"
proof -
  let ?s = "(new_sms (ustr ''p'') (ustr ''u'') (ustr ''h'') [])\<lparr>sms_started := True\<rparr>"
  let ?net = "\<lambda>rq. Inr (empty_sip\<lparr>status_code := Some 202\<rparr>)"
  obtain pdu where pdu: "build_pdu_for_ril sample_tpdu [] = Inr pdu" using sample_pdu by blast
  obtain s' r where r: "send_sms ?net pdu ?s = (s', r)" by fastforce
  have a: "sms_started ?s" "0 \<le> rp_ref ?s" "rp_ref ?s < 256" "messages_sent ?s = 0" by (simp_all add: new_sms_def)
  have l: "length sample_tpdu < 256" "length ([] :: bytes) < 256" by (simp_all add: sample_tpdu_def)
  have m: "message_ref (create_submit [49, 53] [] GSM_7BIT 1) = 1" by (simp add: create_submit_def)
  have n: "?net = (\<lambda>rq. if False then Inl TimeoutError else Inr (empty_sip\<lparr>status_code := Some 202\<rparr>))" by simp
  from send_sms_outcome [OF a(1) sample_tpdu_parsed l pdu a(2,3) r, of "\<lambda>_. False" "\<lambda>_. empty_sip\<lparr>status_code := Some 202\<rparr>"]
  have "r = \<lparr>res_message_ref = 1, res_error_code = 0\<rparr> \<and> messages_sent s' = 1"
    using a(4) m by (auto simp: Let_def)
  with pdu r show ?thesis by blast
qed

section \<open>Mobile-terminated messages\<close>

text \<open>
  An SMS-DELIVER that reaches the service in the RP-DATA of a SIP MESSAGE is delivered once,
  with the originator's number, preceded by a plus sign exactly when it is international, and the
  message's text; the sender gets one 200 with the Via, From, To, Call-ID and CSeq of the request.
\<close>

theorem mt_sms_delivered:
  assumes "deliver_ok d" "deliver_to_bytes d = Inr (d', tpdu)" "length tpdu < 256"
    and "wrap_mt tpdu ref [] = Inr rp" "0 \<le> ref" "ref < 256" "rp_to_bytes rp = Inr (sip_body m)"
    and "contains (ustr ''application/vnd.3gpp.sms'') (header m ''Content-Type'')" "sip_serialize (ok_response m) = Inr (r, bs)"
    and "mt_callback s"
  shows "\<exists>s'. handle_sip_message m s = (s', Inr ())
    \<and> inbox s' = inbox s @ [((if ton (originator d) = INTERNATIONAL then [43] else []) @ number (originator d), [], del_text d)]
    \<and> messages_received s' = messages_received s + 1 \<and> outbox s' = outbox s @ [r] \<and> status_code r = Some 200
    \<and> (\<forall>k \<in> {''Via'', ''From'', ''To'', ''Call-ID'', ''CSeq''}. header r k = header m k)"
proof -
  have p: "deliver_from_bytes tpdu = Inr d" using deliver_format.dec_enc [OF assms(1)] assms(2) by simp
  have rp: "rp_ok rp" "rp_tpdu rp = tpdu" "rp_msg_type rp = RP_DATA_MT"
    using assms(3-6) by (auto simp: wrap_mt_def smsc_address_def rp_ok_def lv_ok_def)
  have q: "rp_from_bytes (sip_body m) = Inr rp" using rp_format.dec_enc [OF rp(1)] assms(7) by simp
  have r: "r = with_length (ok_response m)" using assms(9) by (auto simp: sip_serialize_def rbind_eq_Inr Let_def)
  have n: "plus_number (originator d) = (if ton (originator d) = INTERNATIONAL then [43] else []) @ number (originator d)"
    by (cases "ton (originator d)") (simp_all add: plus_number_def)
  show ?thesis using assms(8-10) p q rp
    by (simp add: handle_sip_message_def mt_deliver_def n)
      (simp add: r ok_response_def with_length_def empty_sip_def header_def dict_get_def)
qed

definition sample_message :: "bytes \<Rightarrow> sip_message" where
  "sample_message body = empty_sip\<lparr>sip_method := Some (ustr ''MESSAGE''), request_uri := Some (ustr ''sip:a''),
     headers := [(ustr ''Content-Type'', ustr ''application/vnd.3gpp.sms'')], sip_body := body\<rparr>"

lemma sample_message_ok: "sip_ok (sample_message body)"
  by (simp add: sip_ok_def start_ok_def sample_message_def empty_sip_def header_ok_def line_ok_def)
    (simp add: ustr_simps contains_crlf_Cons stripped_def is_white_def dict_ok_def)

lemma contains_self: "s \<noteq> [] \<Longrightarrow> contains s s"
  by (cases s) (simp_all add: contains_def)

lemma sample_deliver_bytes: "deliver_ok sample_deliver"
    "deliver_to_bytes sample_deliver = Inr (sample_deliver, [4, 4, 0x91, 0x51, 0x55, 0, 0, 0x21, 0x21, 0x21, 0x21, 0x21, 0x21, 0x21, 0])"
  subgoal by (simp add: sample_deliver_def deliver_ok_def create_deliver_def new_deliver_def address_international_def address_ok_def
        user_data_ok_def gsm7_text_def encode_gsm7_def)
  subgoal by code_simp
  done

definition sample_rp :: rp_data where
  "sample_rp = \<lparr>rp_msg_type = RP_DATA_MT, rp_reference = 0, rp_originator = [], rp_destination = [],
     rp_tpdu = [4, 4, 0x91, 0x51, 0x55, 0, 0, 0x21, 0x21, 0x21, 0x21, 0x21, 0x21, 0x21, 0]\<rparr>"

lemma sample_rp_wrapped: "wrap_mt (rp_tpdu sample_rp) 0 [] = Inr sample_rp"
  by (simp add: wrap_mt_def smsc_address_def sample_rp_def)

lemma sample_rp_bytes: "\<exists>body. rp_to_bytes sample_rp = Inr body"
  using rp_format.dec_enc [of sample_rp] by (auto simp: rp_ok_def lv_ok_def sample_rp_def)

theorem mt_sms_delivered_witness:
  "\<exists>body s'. rp_to_bytes sample_rp = Inr body
     \<and> handle_sip_message (sample_message body) ((new_sms [] [] [] [])\<lparr>mt_callback := True\<rparr>) = (s', Inr ())
     \<and> inbox s' = [([43, 49, 53, 53, 53], [], [])]"
proof -
  obtain body where b: "rp_to_bytes sample_rp = Inr body" using sample_rp_bytes by blast
  let ?m = "sample_message body" and ?s = "(new_sms [] [] [] [])\<lparr>mt_callback := True\<rparr>"
  have h: "header ?m ''Content-Type'' = ustr ''application/vnd.3gpp.sms''"
    by (simp add: sample_message_def header_def dict_get_def)
  then have c: "contains (ustr ''application/vnd.3gpp.sms'') (header ?m ''Content-Type'')" by (simp add: contains_self)
  have "\<not> raises (sip_serialize (ok_response ?m))"
    by (simp add: sip_serialize_def ok_response_def sample_message_def empty_sip_def header_def dict_get_def with_length_def
        first_line_def is_request_def show_opt_def header_line_def utf8_encode_def)
  then obtain r bs where r: "sip_serialize (ok_response ?m) = Inr (r, bs)" by (auto simp: not_raises)
  have l: "length (rp_tpdu sample_rp) < 256" "(0 :: int) \<le> 0" "(0 :: int) < 256" by (simp_all add: sample_rp_def)
  have t: "deliver_to_bytes sample_deliver = Inr (sample_deliver, rp_tpdu sample_rp)"
    using sample_deliver_bytes(2) by (simp add: sample_rp_def)
  have bd: "rp_to_bytes sample_rp = Inr (sip_body ?m)" using b by (simp add: sample_message_def)
  have "originator sample_deliver = \<lparr>number = [49, 53, 53, 53], ton = INTERNATIONAL, npi = 1\<rparr>" "del_text sample_deliver = []"
    by (simp_all add: sample_deliver_def create_deliver_def new_deliver_def address_international_def)
  moreover have "mt_callback ?s" "inbox ?s = []" by (simp_all add: new_sms_def)
  ultimately show ?thesis
    using mt_sms_delivered [OF sample_deliver_bytes(1) t l(1) sample_rp_wrapped l(2,3) bd c r, of ?s] b by auto
qed

text \<open>
  No SMS-DELIVER from an international number survives the SIP layer: the parser decodes the
  datagram as UTF-8 and encodes the body again, and the type-of-address byte 0x91 behind the address
  length is not UTF-8, so the body the service gets differs from the RP-DATA that was sent.
\<close>

lemma address_marks:
  assumes "ton a = INTERNATIONAL" "npi a = 1" "length (number a) < 128" "address_to_bytes a = Inr bs"
  shows "\<exists>n r. bs = n # 0x91 # r \<and> unat n < 0x80"
proof -
  let ?d = "filter (\<lambda>c. c \<noteq> 43) (number a)"
  have l: "length ?d < 128" using assms(3) le_less_trans length_filter_le by blast
  have t: "type_of_address a = 0x91" using assms(1,2) by (simp add: type_of_address_def)
  show ?thesis using assms(1,4) l
    by (auto simp: address_to_bytes_def t Let_def rbind_eq_Inr mk_byte_nat mk_byte_def unat_byte_of_nat split: if_splits)
qed

lemma deliver_marks:
  assumes "ton (originator d) = INTERNATIONAL" "npi (originator d) = 1" "length (number (originator d)) < 128"
    and "deliver_to_bytes d = Inr (d', tpdu)"
  shows "\<exists>f n r. tpdu = f # n # 0x91 # r \<and> unat n < 0x80"
proof -
  obtain f oa x where "tpdu = f # oa @ x" "address_to_bytes (originator d) = Inr oa"
    using assms(4) by (auto simp: deliver_to_bytes_def rbind_eq_Inr Let_def)
  with address_marks [OF assms(1-3)] show ?thesis by auto
qed

theorem international_sms_corrupted:
  assumes "ton (originator d) = INTERNATIONAL" "npi (originator d) = 1" "length (number (originator d)) < 128"
    and "deliver_to_bytes d = Inr (d', tpdu)" "rp_tpdu rp = tpdu" "rp_to_bytes rp = Inr body" "sip_ok m" "sip_body m = body"
  shows "\<exists>m' bs m2. sip_serialize m = Inr (m', bs) \<and> sip_parse bs = Inr m2 \<and> sip_body m2 \<noteq> body"
proof -
  obtain f n r where t: "tpdu = f # n # 0x91 # r" "unat n < 0x80" using deliver_marks [OF assms(1-4)] by blast
  obtain h where "body = h @ tpdu"
    using assms(5,6) by (auto simp: rp_to_bytes_def put_lv_def rbind_eq_Inr)
  then have b: "body = (h @ [f]) @ n # 0x91 # r" using t(1) by simp
  have "is_tail (unat (0x91 :: byte))" by (simp add: is_tail_def)
  then have "\<not> utf8_valid body" unfolding b using not_utf8_valid [OF t(2)] by blast
  then have "utf8_encode (utf8_decode body) \<noteq> Inr body" by (simp add: utf8_valid_def)
  then show ?thesis using sip_message_parsed [OF assms(7)] assms(8) by fastforce
qed

theorem international_sms_corrupted_witness:
  "\<exists>body m' bs m2. rp_to_bytes sample_rp = Inr body \<and> sip_serialize (sample_message body) = Inr (m', bs)
     \<and> sip_parse bs = Inr m2 \<and> sip_body m2 \<noteq> body"
proof -
  obtain body where b: "rp_to_bytes sample_rp = Inr body" using sample_rp_bytes by blast
  have "ton (originator sample_deliver) = INTERNATIONAL" "npi (originator sample_deliver) = 1" "length (number (originator sample_deliver)) < 128"
    by (simp_all add: sample_deliver_def create_deliver_def new_deliver_def address_international_def)
  moreover have "rp_tpdu sample_rp = [4, 4, 0x91, 0x51, 0x55, 0, 0, 0x21, 0x21, 0x21, 0x21, 0x21, 0x21, 0x21, 0]" by (simp add: sample_rp_def)
  moreover have "sip_body (sample_message body) = body" by (simp add: sample_message_def)
  ultimately show ?thesis
    using international_sms_corrupted [OF _ _ _ sample_deliver_bytes(2) _ b sample_message_ok] b by blast
qed

text \<open>
  Over UDP the service's handler never gets a datagram: the protocol object keeps the handler
  that was set when the transport started, the client's own, which does nothing with requests; so
  no message from the network reaches the inbox.
\<close>

theorem sms_handler_unbound:
  assumes "sc_pcscf s \<noteq> []" "sms_start (new_transport (ustr ''udp'')) s = (t, s')"
  shows "sms_started s' \<and> tr_handler t = Some Sms_Handler \<and>
    datagram_received d t = (case sip_parse d of Inl _ \<Rightarrow> None | Inr m \<Rightarrow> Some (Client_Handler, m))
    \<and> (\<forall>m c. \<not> is_response m \<longrightarrow> handle_message m c = c)"
  using assms
  by (auto simp: sms_start_def client_start_def set_handler_def transport_start_def new_transport_def datagram_received_def
      is_response_def handle_message_def upper_def ustr_simps split: sum.split)

theorem sms_handler_unbound_witness:
  "\<exists>t s'. sms_start (new_transport (ustr ''udp'')) (new_sms (ustr ''10.0.0.1'') [] [] []) = (t, s') \<and> sms_started s'
     \<and> (\<forall>d. datagram_received d t = (case sip_parse d of Inl _ \<Rightarrow> None | Inr m \<Rightarrow> Some (Client_Handler, m)))"
proof -
  obtain t s' where t: "sms_start (new_transport (ustr ''udp'')) (new_sms (ustr ''10.0.0.1'') [] [] []) = (t, s')" by fastforce
  have "sc_pcscf (new_sms (ustr ''10.0.0.1'') [] [] []) \<noteq> []" by (simp add: new_sms_def)
  from sms_handler_unbound [OF this t] t show ?thesis by blast
qed

end
