(* ===== verification/Digest.thy ===== *)
theory Digest
  imports Sip_Client Digits
begin

text \<open>
  HTTP digest authentication as the SIP code uses it: base64, the parameters of a challenge, and
  \<^verbatim>\<open>SIPClient.build_auth_header\<close>. MD5 comes from \<^verbatim>\<open>hashlib\<close>: a parameter \<open>md5\<close> from bytes to its
  digest, about which nothing is assumed. The random client nonce is an argument.
\<close>

section \<open>Base64\<close>

definition b64_char :: "nat \<Rightarrow> nat" where
  "b64_char v = (if v < 26 then 65 + v else if v < 52 then 71 + v else if v < 62 then v - 4 else if v = 62 then 43 else 47)"

definition b64_value :: "nat \<Rightarrow> nat option" where
  "b64_value c = (if 65 \<le> c \<and> c \<le> 90 then Some (c - 65) else if 97 \<le> c \<and> c \<le> 122 then Some (c - 71)
     else if 48 \<le> c \<and> c \<le> 57 then Some (c + 4) else if c = 43 then Some 62 else if c = 47 then Some 63 else None)"

fun b64encode :: "bytes \<Rightarrow> ustr" where
  "b64encode [] = []"
| "b64encode [a] = [b64_char (unat a div 4), b64_char (unat a mod 4 * 16), 61, 61]"
| "b64encode [a, b] = [b64_char (unat a div 4), b64_char (unat a mod 4 * 16 + unat b div 16),
     b64_char (unat b mod 16 * 4), 61]"
| "b64encode (a # b # c # r) = b64_char (unat a div 4) # b64_char (unat a mod 4 * 16 + unat b div 16)
     # b64_char (unat b mod 16 * 4 + unat c div 64) # b64_char (unat c mod 64) # b64encode r"

text \<open>
  \<^verbatim>\<open>b64decode\<close> without validation: characters outside the alphabet are skipped, a complete padding
  ends the input, and an incomplete group raises. The state is the position in the group of four,
  the bits left over and the padding seen.
\<close>

fun b64_loop :: "nat \<Rightarrow> nat \<Rightarrow> nat \<Rightarrow> ustr \<Rightarrow> bytes res" where
  "b64_loop quad left pads [] = (if quad \<noteq> 0 then Inl ValueError else Inr [])"
| "b64_loop quad left pads (c # s) =
     (if c = 61 then
        if quad \<ge> 2 then (if quad + pads + 1 \<ge> 4 then Inr [] else b64_loop quad left (pads + 1) s)
        else b64_loop quad left pads s
      else case b64_value c of
        None \<Rightarrow> b64_loop quad left pads s
      | Some v \<Rightarrow>
          if quad = 0 then b64_loop 1 v 0 s
          else if quad = 1 then rbind (b64_loop 2 (v mod 16) 0 s) (\<lambda>r. Inr (word_of_nat (left * 4 + v div 16) # r))
          else if quad = 2 then rbind (b64_loop 3 (v mod 4) 0 s) (\<lambda>r. Inr (word_of_nat (left * 16 + v div 4) # r))
          else rbind (b64_loop 0 0 0 s) (\<lambda>r. Inr (word_of_nat (left * 64 + v) # r)))"

definition b64decode :: "ustr \<Rightarrow> bytes res" where
  "b64decode s = (if list_all (\<lambda>c. c < 128) s then b64_loop 0 0 0 s else Inl ValueError)"

lemma b64_value_char [simp]: "v < 64 \<Longrightarrow> b64_value (b64_char v) = Some v" "v < 64 \<Longrightarrow> b64_char v \<noteq> 61"
  by (auto simp: b64_value_def b64_char_def)

lemma b64_char_set: "v < 64 \<Longrightarrow> b64_char v < 128 \<and> b64_char v \<noteq> 44 \<and> b64_char v \<noteq> 34 \<and> \<not> is_white (b64_char v)"
  by (auto simp: b64_char_def is_white_def)

lemma byte_sextets:
  "unat a div 4 < 64" "unat a mod 4 * 16 + unat b div 16 < 64" "unat b mod 16 * 4 + unat c div 64 < 64"
  "unat c mod 64 < 64" "unat a mod 4 * 16 < 64" "unat b mod 16 * 4 < 64" for a b c :: byte
  using unat_byte_bound [of a] unat_byte_bound [of b] unat_byte_bound [of c] by linarith+

lemma byte_high: "unat b div 16 div 16 = 0" "unat b div 16 mod 16 = unat b div 16"
  "unat b div 64 div 4 = 0" "unat b div 64 mod 4 = unat b div 64" for b :: byte
proof -
  have "unat b div 16 < 16" "unat b div 64 < 4" using unat_byte_bound [of b] by linarith+
  then show "unat b div 16 div 16 = 0" "unat b div 16 mod 16 = unat b div 16"
    "unat b div 64 div 4 = 0" "unat b div 64 mod 4 = unat b div 64" by (simp_all only: mod_less div_less)
qed

lemma b64_loop_encode: "b64_loop 0 left 0 (b64encode bs) = Inr bs"
  by (induction bs arbitrary: left rule: b64encode.induct)
    (simp_all add: byte_sextets byte_high del: of_nat_add of_nat_mult)

definition b64_ok :: "nat \<Rightarrow> bool" where
  "b64_ok x \<longleftrightarrow> x < 128 \<and> x \<noteq> 44 \<and> x \<noteq> 34 \<and> \<not> is_white x"

lemma b64_ok_char: "v < 64 \<Longrightarrow> b64_ok (b64_char v)" "b64_ok 61"
  by (simp_all add: b64_ok_def b64_char_set) (simp add: is_white_def)

lemma b64_alphabet: "list_all b64_ok (b64encode bs)"
  by (induction bs rule: b64encode.induct) (simp_all add: byte_sextets b64_ok_char)

lemma b64_unicode: "unicode_text (b64encode bs)"
proof -
  have "list_all b64_ok s \<Longrightarrow> unicode_text s" for s by (induction s) (simp_all add: b64_ok_def)
  then show ?thesis using b64_alphabet by blast
qed

lemma b64_roundtrip: "b64decode (b64encode bs) = Inr bs"
  using b64_alphabet [of bs] b64_loop_encode [of 0 bs] by (auto simp: b64decode_def list_all_iff b64_ok_def)

section \<open>Challenge parameters\<close>

definition replace :: "ustr \<Rightarrow> ustr \<Rightarrow> ustr \<Rightarrow> ustr" where
  "replace old new s = join_with new (split_on old s)"

definition unquote :: "ustr \<Rightarrow> ustr" where
  "unquote = strip_of (\<lambda>c. c = 34)"

definition add_param :: "(ustr \<times> ustr) list \<Rightarrow> ustr \<Rightarrow> (ustr \<times> ustr) list" where
  "add_param params part =
     (case break_at [61] (strip part) of None \<Rightarrow> params
      | Some (key, val) \<Rightarrow> dict_set (strip key) (unquote (strip val)) params)"

definition auth_params :: "ustr \<Rightarrow> (ustr \<times> ustr) list" where
  "auth_params www = foldl add_param [] (split_on [44] (replace (ustr ''Digest '') [] www))"

section \<open>The Authorization header\<close>

definition hexdigest :: "(bytes \<Rightarrow> bytes) \<Rightarrow> ustr list \<Rightarrow> ustr res" where
  "hexdigest md5 parts = rbind (utf8_encode (join_with [58] parts)) (\<lambda>b. Inr (ustr (hex_of (md5 b))))"

fun hex_nat :: "nat \<Rightarrow> string" where
  "hex_nat n = (if n < 16 then [hex_digit n] else hex_nat (n div 16) @ [hex_digit (n mod 16)])"

declare hex_nat.simps [simp del]

text \<open>\<^verbatim>\<open>f"{nc:08x}"\<close>.\<close>

definition hex8 :: "nat \<Rightarrow> string" where
  "hex8 n = (let s = hex_nat n in replicate (8 - length s) (CHR ''0'') @ s)"

record auth_values =
  av_username :: ustr
  av_realm :: ustr
  av_nonce :: ustr
  av_uri :: ustr
  av_response :: ustr
  av_algorithm :: ustr
  av_qop :: ustr
  av_nc :: ustr
  av_cnonce :: ustr

text \<open>Both branches on the algorithm name compute the same hash.\<close>

definition auth_values_for :: "(bytes \<Rightarrow> bytes) \<Rightarrow> ustr \<Rightarrow> ustr \<Rightarrow> ustr \<Rightarrow> ustr \<Rightarrow> ustr \<Rightarrow> nat \<Rightarrow> bytes \<Rightarrow> auth_values res" where
  "auth_values_for md5 www meth uri username password nc rnd =
     (let params = auth_params www;
          realm = dict_get params (ustr ''realm'') []; nonce = dict_get params (ustr ''nonce'') [];
          qop = dict_get params (ustr ''qop'') (ustr ''auth'');
          algorithm = dict_get params (ustr ''algorithm'') (ustr ''MD5'');
          cnonce = ustr (hex_of rnd); nc_str = ustr (hex8 nc)
      in rbind (hexdigest md5 [username, realm, password]) (\<lambda>ha1.
         rbind (hexdigest md5 [meth, uri]) (\<lambda>ha2.
         rbind (if qop \<noteq> [] then hexdigest md5 [ha1, nonce, nc_str, cnonce, qop, ha2] else hexdigest md5 [ha1, nonce, ha2]) (\<lambda>response.
         Inr \<lparr>av_username = username, av_realm = realm, av_nonce = nonce, av_uri = uri, av_response = response,
              av_algorithm = algorithm, av_qop = qop, av_nc = nc_str, av_cnonce = cnonce\<rparr>))))"

definition quoted :: "ustr \<Rightarrow> ustr" where
  "quoted s = [34] @ s @ [34]"

definition auth_text :: "auth_values \<Rightarrow> ustr" where
  "auth_text v = ustr ''Digest username='' @ quoted (av_username v) @ ustr '', realm='' @ quoted (av_realm v)
     @ ustr '', nonce='' @ quoted (av_nonce v) @ ustr '', uri='' @ quoted (av_uri v)
     @ ustr '', response='' @ quoted (av_response v) @ ustr '', algorithm='' @ av_algorithm v
     @ (if av_qop v \<noteq> [] then ustr '', qop='' @ av_qop v @ ustr '', nc='' @ av_nc v @ ustr '', cnonce='' @ quoted (av_cnonce v) else [])"

definition build_auth_header :: "(bytes \<Rightarrow> bytes) \<Rightarrow> ustr \<Rightarrow> ustr \<Rightarrow> ustr \<Rightarrow> ustr \<Rightarrow> ustr \<Rightarrow> nat \<Rightarrow> bytes \<Rightarrow> ustr res" where
  "build_auth_header md5 www meth uri username password nc rnd =
     rbind (auth_values_for md5 www meth uri username password nc rnd) (\<lambda>v. Inr (auth_text v))"

section \<open>Reading parameters back\<close>

text \<open>
  A parameter list as both ends write it: \<open>name=value\<close> or \<open>name="value"\<close>, joined by a comma and a
  blank behind the scheme. Values without commas, quotes and blanks are read back.
\<close>

definition param :: "ustr \<times> bool \<times> ustr \<Rightarrow> ustr" where
  "param p = (case p of (k, q, w) \<Rightarrow> k @ [61] @ (if q then quoted w else w))"

definition auth_line :: "(ustr \<times> bool \<times> ustr) list \<Rightarrow> ustr" where
  "auth_line ps = ustr ''Digest '' @ join_with [44, 32] (map param ps)"

definition word_ok :: "ustr \<Rightarrow> bool" where
  "word_ok w \<longleftrightarrow> list_all (\<lambda>c. \<not> is_white c \<and> c \<noteq> 44 \<and> c \<noteq> 34) w"

definition param_ok :: "ustr \<times> bool \<times> ustr \<Rightarrow> bool" where
  "param_ok p \<longleftrightarrow> (case p of (k, q, w) \<Rightarrow> k \<noteq> [] \<and> word_ok k \<and> 61 \<notin> set k \<and> word_ok w)"

lemma word_ok_append [simp]: "word_ok []" "word_ok (c # t) \<longleftrightarrow> \<not> is_white c \<and> c \<noteq> 44 \<and> c \<noteq> 34 \<and> word_ok t"
    "word_ok (s @ t) \<longleftrightarrow> word_ok s \<and> word_ok t"
  by (auto simp: word_ok_def)

lemma word_ok_free: "word_ok w \<Longrightarrow> 44 \<notin> set w \<and> 34 \<notin> set w \<and> 32 \<notin> set w"
  by (induction w) (auto simp: is_white_def)

lemma word_ok_ends: "word_ok w \<Longrightarrow> w = [] \<or> \<not> is_white (hd w) \<and> \<not> is_white (last w) \<and> hd w \<noteq> 34 \<and> last w \<noteq> 34"
  by (cases "w = []") (auto simp: word_ok_def list_all_iff)

lemma strip_word: "word_ok w \<Longrightarrow> strip w = w" "word_ok w \<Longrightarrow> unquote w = w"
  using word_ok_ends [of w] by (auto simp: strip_def unquote_def stripped_def intro!: strip_of_id)

lemma unquote_quoted: "word_ok w \<Longrightarrow> unquote (quoted w) = w"
proof -
  assume w: "word_ok w"
  have "strip_of (\<lambda>c. c = 34) ([34] @ w @ [34]) = strip_of (\<lambda>c. c = 34) (w @ [34])"
    by (simp add: strip_of_def)
  also have "\<dots> = w"
  proof (cases "w = []")
    case False
    with word_ok_ends [OF w] have "dropWhile (\<lambda>c. c = 34) (w @ [34]) = w @ [34]" "dropWhile (\<lambda>c. c = 34) (rev w) = rev w"
      by (auto simp: hd_rev intro!: dropWhile_id)
    then show ?thesis by (simp add: strip_of_def)
  qed (simp add: strip_of_def)
  finally show ?thesis by (simp add: unquote_def quoted_def)
qed

lemma param_read:
  assumes "param_ok (k, q, w)" "b = [] \<or> b = [32]"
  shows "add_param d (b @ param (k, q, w)) = dict_set k w d" "44 \<notin> set (b @ param (k, q, w))"
proof -
  note o = assms(1) [unfolded param_ok_def, simplified]
  let ?v = "if q then quoted w else w"
  have w32: "is_white 32" "\<not> is_white 34" "\<not> is_white 61" by (simp_all add: is_white_def)
  have "stripped is_white (param (k, q, w))"
    using word_ok_ends [of k] word_ok_ends [of w] o w32 by (auto simp: param_def stripped_def quoted_def)
  then have s: "strip (b @ param (k, q, w)) = k @ 61 # ?v"
    using assms(2) w32 by (auto simp: strip_def strip_of_Cons strip_of_id param_def)
  have "strip ?v = ?v" using word_ok_ends [of w] o w32
    by (auto simp: strip_def stripped_def quoted_def strip_of_id intro!: strip_word)
  then have "unquote (strip ?v) = w" using o by (auto simp: unquote_quoted strip_word)
  then show "add_param d (b @ param (k, q, w)) = dict_set k w d"
    using o break_char [of 61 k ?v] by (simp add: add_param_def s strip_word)
  show "44 \<notin> set (b @ param (k, q, w))"
    using word_ok_free [of k] word_ok_free [of w] o assms(2) by (auto simp: param_def quoted_def)
qed

text \<open>A blank stands behind commas only, so the scheme name is found once.\<close>

fun comma_spaces :: "nat \<Rightarrow> ustr \<Rightarrow> bool" where
  "comma_spaces p [] \<longleftrightarrow> True"
| "comma_spaces p (c # s) \<longleftrightarrow> (c = 32 \<longrightarrow> p = 44) \<and> comma_spaces c s"

lemma comma_spaces_append: "32 \<notin> set s \<Longrightarrow> comma_spaces p (s @ t) \<longleftrightarrow> comma_spaces (last (p # s)) t"
  by (induction s arbitrary: p) auto

lemma comma_spaces_bad: "\<not> comma_spaces p (a @ 116 # 32 # b)"
  by (induction a arbitrary: p) auto

lemma comma_spaces_join: "\<forall>p \<in> set ps. 32 \<notin> set p \<Longrightarrow> comma_spaces x (join_with [44, 32] ps)"
  by (induction ps arbitrary: x rule: induct_list012) (simp_all add: comma_spaces_append comma_spaces_append [of _ _ "[]", simplified])

lemma scheme_once: "comma_spaces x s \<Longrightarrow> \<not> contains (ustr ''Digest '') s"
proof
  assume c: "comma_spaces x s" and "contains (ustr ''Digest '') s"
  then obtain a b where "s = a @ ustr ''Digest '' @ b" by (auto simp: contains_def dest: break_at_parts)
  then have "s = (a @ ustr ''Diges'') @ 116 # 32 # b" by (simp add: ustr_simps)
  with c comma_spaces_bad show False by metis
qed

interpretation scheme: separator "ustr ''Digest ''"
proof -
  have "ustr ''Digest '' = 68 # ustr ''igest ''" "68 \<notin> set (ustr ''igest '')" by (simp_all add: ustr_simps)
  then show "separator (ustr ''Digest '')" using separator_head by metis
qed

lemma join_comma: "join_with [44, 32] (p # ps) = join_with [44] (p # map (Cons 32) ps)"
proof (induction ps arbitrary: p)
  case (Cons q ps)
  show ?case using Cons [of q] by (cases ps) simp_all
qed simp

lemma fold_params:
  assumes "list_all param_ok ps" "distinct (map fst (d @ map (\<lambda>(k, q, w). (k, w)) ps))"
  shows "foldl add_param d (map (Cons 32 \<circ> param) ps) = d @ map (\<lambda>(k, q, w). (k, w)) ps"
  using assms
proof (induction ps arbitrary: d)
  case (Cons p ps)
  obtain k q w where p: "p = (k, q, w)" by (cases p)
  have "dict_set k w d = d @ [(k, w)]" using Cons.prems p by (intro dict_set_new) (auto simp: image_iff)
  with Cons p param_read(1) [of k q w "[32]" d] show ?case by simp
qed simp

lemma params_read:
  assumes "list_all param_ok ps" "ps \<noteq> []" "distinct (map fst ps)"
  shows "auth_params (auth_line ps) = map (\<lambda>(k, q, w). (k, w)) ps"
proof -
  obtain p r where ps: "ps = p # r" using assms(2) by (cases ps) auto
  obtain k q w where p: "p = (k, q, w)" by (cases p)
  let ?rest = "join_with [44, 32] (map param ps)"
  have "32 \<notin> set (param x)" if "x \<in> set ps" for x
  proof -
    obtain k q w where x: "x = (k, q, w)" by (cases x)
    then have "param_ok (k, q, w)" using assms(1) that by (auto simp: list_all_iff)
    then show ?thesis using word_ok_free [of k] word_ok_free [of w] by (auto simp: x param_ok_def param_def quoted_def)
  qed
  then have c: "\<not> contains (ustr ''Digest '') ?rest" using comma_spaces_join [of "map param ps" 0] scheme_once by auto
  have "split_on (ustr ''Digest '') (auth_line ps) = [[], ?rest]"
    using scheme.split_front [of "[]" ?rest] scheme.split_free [OF c] by (simp add: auth_line_def contains_def)
  then have r: "replace (ustr ''Digest '') [] (auth_line ps) = ?rest" by (simp add: replace_def)
  have parts: "44 \<notin> set (b @ param x)" if "x \<in> set ps" "b = [] \<or> b = [32]" for x b
    using assms(1) that param_read(2) by (cases x) (auto simp: list_all_iff)
  have s: "split_on [44] ?rest = param p # map (Cons 32 \<circ> param) r"
    unfolding ps list.map join_comma
    by (subst char_sep.split_join) (use parts [of _ "[]"] parts [of _ "[32]"] ps in \<open>auto simp: contains_char\<close>)
  have o: "param_ok (k, q, w)" "list_all param_ok r" using assms(1) ps p by simp_all
  have f: "add_param [] (param p) = [(k, w)]" using param_read(1) [OF o(1), of "[]" "[]"] p by simp
  have "map fst (map (\<lambda>(k, q, w). (k, w)) r) = map fst r" by auto
  then have "distinct (map fst ([(k, w)] @ map (\<lambda>(k, q, w). (k, w)) r))"
    using assms(3) ps p unfolding map_append by (simp only: list.map distinct.simps set_map fst_conv append.simps) simp
  from fold_params [OF o(2) this] show ?thesis
    unfolding auth_params_def r s foldl.simps f by (simp add: ps p)
qed

end
