(* ===== verification/Auth_Helper.thy ===== *)
theory Auth_Helper
  imports Aka Digest
begin

text \<open>
  \<^verbatim>\<open>scripts/scscf_auth_helper.py\<close>: authentication vectors from the subscriber documents and the
  verification of digest responses. The document store is MongoDB; it is an association list of
  documents here, and \<open>db_ok\<close> says whether an update reaches it. RAND is an argument.
\<close>

record auth_vector =
  v_rand :: string
  v_autn :: string
  v_xres :: string
  v_ck :: string
  v_ik :: string
  v_nonce :: ustr
  v_realm :: string

record helper =
  subscribers :: "(string \<times> dict) list"
  vector_cache :: "(string \<times> auth_vector) list"

definition get_subscriber :: "string \<Rightarrow> helper \<Rightarrow> dict option" where
  "get_subscriber imsi h = map_of (subscribers h) imsi"

fun as_obj :: "json \<Rightarrow> dict res" where
  "as_obj (JObj d) = Inr d"
| "as_obj _ = Inl AttributeError"

definition zfill :: "nat \<Rightarrow> string \<Rightarrow> string" where
  "zfill n s = (case s of
     c # t \<Rightarrow> if c \<in> {CHR ''+'', CHR ''-''} then c # replicate (n - length s) (CHR ''0'') @ t
              else replicate (n - length s) (CHR ''0'') @ s
   | [] \<Rightarrow> replicate n (CHR ''0''))"

definition ims_realm :: "string \<Rightarrow> string" where
  "ims_realm imsi = ''ims.mnc'' @ zfill 3 (slice imsi 3 5) @ ''.mcc'' @ slice imsi 0 3 @ ''.3gppnetwork.org''"

definition subscriber_keys :: "aes \<Rightarrow> dict \<Rightarrow> (bytes \<times> bytes) option res" where
  "subscriber_keys aes security =
     rbind (jstr security ''k'' '''') (\<lambda>ki_hex. rbind (jint security ''op_type'' 0) (\<lambda>op_type.
     rbind (jstr security ''op_value'' '''') (\<lambda>op_hex.
     if ki_hex = '''' \<or> op_hex = '''' then Inr None
     else rbind (fromhex ki_hex) (\<lambda>ki. rbind (fromhex op_hex) (\<lambda>op.
       if op_type = 0 then rbind (mil_init ki (replicate 16 0)) (\<lambda>_. rbind (compute_opc aes ki op) (\<lambda>opc. Inr (Some (ki, opc))))
       else Inr (Some (ki, op)))))))"

definition make_vector :: "aes \<Rightarrow> bytes \<Rightarrow> string \<Rightarrow> bytes \<Rightarrow> bytes \<Rightarrow> int \<Rightarrow> string \<Rightarrow> auth_vector res" where
  "make_vector aes rand imsi ki opc sqn_val amf_hex =
     rbind (mil_init ki opc) (\<lambda>mil.
     rbind (to_bytes_be 6 sqn_val) (\<lambda>_.
     rbind (fromhex amf_hex) (\<lambda>amf.
     rbind (aka_vector aes mil rand sqn_val amf) (\<lambda>(autn, res, ck, ik).
     Inr \<lparr>v_rand = hex_of rand, v_autn = hex_of autn, v_xres = hex_of res, v_ck = hex_of ck, v_ik = hex_of ik,
          v_nonce = b64encode (rand @ autn), v_realm = ims_realm imsi\<rparr>))))"

definition advance_sqn :: "string \<Rightarrow> dict \<Rightarrow> dict \<Rightarrow> int \<Rightarrow> helper \<Rightarrow> helper" where
  "advance_sqn imsi sub security sqn_val h =
     h\<lparr>subscribers := dict_set imsi (dict_set ''security'' (JObj (dict_set ''sqn'' (JInt (sqn_val + 32)) security)) sub) (subscribers h)\<rparr>"

definition generate_auth_vector :: "aes \<Rightarrow> bytes \<Rightarrow> bool \<Rightarrow> string \<Rightarrow> helper \<Rightarrow> helper \<times> auth_vector option res" where
  "generate_auth_vector aes rand db_ok imsi h =
     (case get_subscriber imsi h of None \<Rightarrow> (h, Inr None)
      | Some sub \<Rightarrow> if sub = [] then (h, Inr None) else
        (case rbind (as_obj (dict_get sub ''security'' (JObj []))) (\<lambda>security.
              rbind (subscriber_keys aes security) (\<lambda>keys. rbind (jstr security ''amf'' ''8000'') (\<lambda>amf_hex.
              rbind (jint security ''sqn'' 32) (\<lambda>sqn_val. Inr (security, keys, amf_hex, sqn_val))))) of
           Inl e \<Rightarrow> (h, Inl e)
         | Inr (security, None, _, _) \<Rightarrow> (h, Inr None)
         | Inr (security, Some (ki, opc), amf_hex, sqn_val) \<Rightarrow>
             (case make_vector aes rand imsi ki opc sqn_val amf_hex of
                Inl e \<Rightarrow> (h, Inl e)
              | Inr v \<Rightarrow> let h1 = (if db_ok then advance_sqn imsi sub security sqn_val h else h)
                         in (h1\<lparr>vector_cache := dict_set imsi v (vector_cache h1)\<rparr>, Inr (Some v)))))"

definition verify_response :: "string \<Rightarrow> ustr \<Rightarrow> helper \<Rightarrow> bool" where
  "verify_response imsi res_hex h =
     (case map_of (vector_cache h) imsi of None \<Rightarrow> False | Some v \<Rightarrow> lower res_hex = lower (ustr (v_xres v)))"

definition expected_digest :: "(bytes \<Rightarrow> bytes) \<Rightarrow> auth_vector \<Rightarrow> ustr \<Rightarrow> ustr \<Rightarrow> ustr \<Rightarrow> ustr \<Rightarrow> ustr \<Rightarrow> ustr \<Rightarrow> ustr res" where
  "expected_digest md5 v username realm uri nc cnonce qop =
     rbind (hexdigest md5 [username, realm, ustr (v_xres v)]) (\<lambda>ha1.
     rbind (hexdigest md5 [ustr ''REGISTER'', uri]) (\<lambda>ha2.
     if qop \<noteq> [] then hexdigest md5 [ha1, v_nonce v, nc, cnonce, qop, ha2]
     else hexdigest md5 [ha1, v_nonce v, ha2]))"

definition verify_digest_response :: "(bytes \<Rightarrow> bytes) \<Rightarrow> string \<Rightarrow> ustr \<Rightarrow> ustr \<Rightarrow> ustr \<Rightarrow> ustr \<Rightarrow> ustr \<Rightarrow> ustr \<Rightarrow> ustr \<Rightarrow> helper \<Rightarrow> bool res" where
  "verify_digest_response md5 imsi username realm uri nc cnonce qop response h =
     (case map_of (vector_cache h) imsi of None \<Rightarrow> Inr False
      | Some v \<Rightarrow> rbind (expected_digest md5 v username realm uri nc cnonce qop) (\<lambda>expected.
          Inr (lower response = lower expected)))"

definition challenge_text :: "auth_vector \<Rightarrow> ustr" where
  "challenge_text v = ustr ''Digest realm='' @ quoted (ustr (v_realm v)) @ ustr '', nonce='' @ quoted (v_nonce v)
     @ ustr '', algorithm=AKAv1-MD5'' @ ustr '', qop='' @ quoted (ustr ''auth'')"

section \<open>The HTTP interface\<close>

text \<open>
  \<^verbatim>\<open>AuthHandler\<close>: the parsed query of a GET request is a list of parameters with non-empty values
  (\<^verbatim>\<open>parse_qs\<close> drops blank ones, and the first of several counts). A reply is its code and the
  text, or the JSON object, it carries.
\<close>

datatype reply = Text_Reply nat ustr | Json_Reply nat dict

definition vector_json :: "auth_vector \<Rightarrow> dict" where
  "vector_json v = [(''rand'', JStr (v_rand v)), (''autn'', JStr (v_autn v)), (''xres'', JStr (v_xres v)), (''ck'', JStr (v_ck v)),
     (''ik'', JStr (v_ik v)), (''nonce'', JStr (map char_of (v_nonce v))), (''realm'', JStr (v_realm v)), (''algorithm'', JStr ''AKAv1-MD5'')]"

definition do_get :: "(bytes \<Rightarrow> bytes) \<Rightarrow> aes \<Rightarrow> bytes \<Rightarrow> bool \<Rightarrow> string \<Rightarrow> (string \<times> string) list \<Rightarrow> helper \<Rightarrow> helper \<times> reply res" where
  "do_get md5 aes rand db_ok path params h =
     (let p = map_of params in
      if path = ''/health'' then (h, Inr (Json_Reply 200 [(''status'', JStr ''ok'')]))
      else if path = ''/auth/vector'' then
        (case p ''imsi'' of None \<Rightarrow> (h, Inr (Json_Reply 400 [(''error'', JStr ''Missing imsi parameter'')]))
         | Some imsi \<Rightarrow> (case generate_auth_vector aes rand db_ok imsi h of
              (h1, Inl e) \<Rightarrow> (h1, Inl e)
            | (h1, Inr (Some v)) \<Rightarrow> (h1, Inr (Json_Reply 200 (vector_json v)))
            | (h1, Inr None) \<Rightarrow> (h1, Inr (Json_Reply 404 [(''error'', JStr (''Subscriber '' @ imsi @ '' not found''))]))))
      else if path = ''/auth/challenge'' then
        (case p ''imsi'' of None \<Rightarrow> (h, Inr (Text_Reply 400 (ustr ''Missing imsi parameter'')))
         | Some imsi \<Rightarrow> (case generate_auth_vector aes rand db_ok imsi h of
              (h1, Inl e) \<Rightarrow> (h1, Inl e)
            | (h1, Inr (Some v)) \<Rightarrow> (h1, Inr (Text_Reply 200 (challenge_text v)))
            | (h1, Inr None) \<Rightarrow> (h1, Inr (Text_Reply 404 (ustr (''Subscriber '' @ imsi @ '' not found''))))))
      else if path = ''/auth/verify'' then
        (case (p ''imsi'', p ''username'', p ''response'') of
           (Some imsi, Some username, Some response) \<Rightarrow>
             let g = (\<lambda>k. case p k of None \<Rightarrow> [] | Some s \<Rightarrow> ustr s) in
             (h, rbind (verify_digest_response md5 imsi (ustr username) (g ''realm'') (g ''uri'') (g ''nc'') (g ''cnonce'') (g ''qop'')
                    (ustr response) h) (\<lambda>ok. Inr (Text_Reply 200 (ustr (if ok then ''OK'' else ''FAIL'')))))
         | _ \<Rightarrow> (h, Inr (Text_Reply 400 (ustr ''Missing required parameters''))))
      else (h, Inr (Json_Reply 404 [(''error'', JStr ''Not found'')])))"

text \<open>\<^verbatim>\<open>do_POST\<close> of a parsed body; the keys are read when they are present.\<close>

definition do_post :: "string \<Rightarrow> dict option \<Rightarrow> helper \<Rightarrow> reply res" where
  "do_post path body h =
     (if path = ''/auth/verify'' then
        (case body of None \<Rightarrow> Inr (Json_Reply 400 [(''error'', JStr ''Invalid JSON'')])
         | Some d \<Rightarrow> rbind (jstr d ''imsi'' '''') (\<lambda>imsi. rbind (jstr d ''res'' '''') (\<lambda>res_hex.
             if imsi = '''' \<or> res_hex = '''' then Inr (Json_Reply 400 [(''error'', JStr ''Missing imsi or res'')])
             else Inr (Json_Reply 200 [(''success'', JBool (verify_response imsi (ustr res_hex) h))]))))
      else Inr (Json_Reply 404 [(''error'', JStr ''Not found'')]))"

section \<open>Challenges and their answers\<close>

lemma hex_of_word: "word_ok (ustr (hex_of bs))"
proof -
  have d: "word_ok (ustr [hex_digit n])" if "n < 16" for n
    using that by (auto simp: hex_digit_def ustr_simps is_white_def)
  have "unat b div 16 < 16" for b :: byte using unat_byte_bound [of b] by linarith
  then have "word_ok (ustr (hex_byte b))" for b
    using d [of "unat b div 16"] d [of "unat b mod 16"] by (simp add: hex_byte_def ustr_simps)
  then show ?thesis by (induction bs) (simp_all add: hex_of_def ustr_append)
qed

lemma b64_word: "word_ok (b64encode bs)"
  using b64_alphabet [of bs] by (auto simp: word_ok_def b64_ok_def list_all_iff)

lemma param_ustr: "ustr ''Digest '' @ ustr k @ [61] = ustr (''Digest '' @ k @ ''='')"
  by (simp add: ustr_simps ustr_append)

lemma challenge_params:
  assumes "word_ok (ustr (v_realm v))" "word_ok (v_nonce v)"
  shows "auth_params (challenge_text v) = [(ustr ''realm'', ustr (v_realm v)), (ustr ''nonce'', v_nonce v),
     (ustr ''algorithm'', ustr ''AKAv1-MD5''), (ustr ''qop'', ustr ''auth'')]"
proof -
  let ?ps = "[(ustr ''realm'', True, ustr (v_realm v)), (ustr ''nonce'', True, v_nonce v),
     (ustr ''algorithm'', False, ustr ''AKAv1-MD5''), (ustr ''qop'', True, ustr ''auth'')]"
  have "challenge_text v = auth_line ?ps"
    by (simp add: challenge_text_def auth_line_def param_def ustr_simps)
  moreover have "list_all param_ok ?ps" using assms by (simp add: param_ok_def ustr_simps is_white_def)
  ultimately show ?thesis using params_read [of ?ps] by simp
qed

definition values_ok :: "auth_values \<Rightarrow> bool" where
  "values_ok v \<longleftrightarrow> word_ok (av_username v) \<and> word_ok (av_realm v) \<and> word_ok (av_nonce v) \<and> word_ok (av_uri v)
     \<and> word_ok (av_response v) \<and> word_ok (av_algorithm v) \<and> av_qop v \<noteq> [] \<and> word_ok (av_qop v) \<and> word_ok (av_nc v)
     \<and> word_ok (av_cnonce v)"

lemma authorization_params:
  assumes "values_ok v"
  shows "auth_params (auth_text v) = [(ustr ''username'', av_username v), (ustr ''realm'', av_realm v), (ustr ''nonce'', av_nonce v),
     (ustr ''uri'', av_uri v), (ustr ''response'', av_response v), (ustr ''algorithm'', av_algorithm v), (ustr ''qop'', av_qop v),
     (ustr ''nc'', av_nc v), (ustr ''cnonce'', av_cnonce v)]"
proof -
  let ?ps = "[(ustr ''username'', True, av_username v), (ustr ''realm'', True, av_realm v), (ustr ''nonce'', True, av_nonce v),
     (ustr ''uri'', True, av_uri v), (ustr ''response'', True, av_response v), (ustr ''algorithm'', False, av_algorithm v),
     (ustr ''qop'', False, av_qop v), (ustr ''nc'', False, av_nc v), (ustr ''cnonce'', True, av_cnonce v)]"
  have "auth_text v = auth_line ?ps"
    using assms by (simp add: auth_text_def auth_line_def param_def ustr_simps values_ok_def)
  moreover have "list_all param_ok ?ps" using assms by (simp add: param_ok_def values_ok_def ustr_simps is_white_def)
  ultimately show ?thesis using params_read [of ?ps] by simp
qed

end
