(* ===== verification/Registration.thy ===== *)
theory Registration
  imports Auth_Helper
begin

text \<open>
  \<^verbatim>\<open>ims/registration.py\<close>. The network is a parameter \<open>net n request\<close>: what the \<open>n\<close>-th
  \<^verbatim>\<open>send_request\<close> of a registration returns or raises. \<open>r_bound\<close> records that a client made by this
  registration holds its UDP port: \<^verbatim>\<open>start\<close> of another one then raises OSError. Random values (the
  IPsec SPIs and the client nonce) are arguments.
\<close>

datatype reg_state = NOT_REGISTERED | REGISTERING | REGISTERED | DEREGISTERING | REG_FAILED

record registration =
  r_impi :: ustr
  r_impu :: ustr
  r_home :: ustr
  r_ki :: bytes
  r_opc :: bytes
  r_sqn :: int
  r_pcscf :: ustr
  r_port :: int
  r_transport :: ustr
  r_expiry :: int
  r_ipsec :: bool
  r_state :: reg_state
  r_call_id :: ustr
  r_service_route :: "ustr option"
  r_timer :: "int option"
  r_bound :: bool

definition register_headers :: "int \<times> int \<Rightarrow> registration \<Rightarrow> (ustr \<times> ustr) list" where
  "register_headers spi r =
     [(ustr ''Contact'', ustr ''<sip:'' @ r_impi r @ [62]), (ustr ''Expires'', ustr_of_int (r_expiry r)),
      (ustr ''Allow'', ustr ''INVITE, ACK, BYE, CANCEL, OPTIONS, NOTIFY, SUBSCRIBE, MESSAGE''),
      (ustr ''Supported'', ustr ''path, outbound, gruu, sec-agree'')]
     @ (if r_ipsec r then [(ustr ''Security-Client'', ustr ''ipsec-3gpp; alg=hmac-sha-1-96; spi-c='' @ ustr_of_int (fst spi)
          @ ustr ''; spi-s='' @ ustr_of_int (snd spi) @ ustr ''; port-c=5060; port-s=5060'')] else [])"

definition register_request :: "int \<times> int \<Rightarrow> (ustr \<times> ustr) list \<Rightarrow> registration \<Rightarrow> request" where
  "register_request spi extra r =
     \<lparr>rq_method = ustr ''REGISTER'', rq_uri = ustr ''sip:'' @ r_home r, rq_to = r_impu r, rq_from = r_impu r,
      rq_extra = dict_update (register_headers spi r) extra, rq_body = [], rq_call_id = Some (r_call_id r)\<rparr>"

text \<open>The answer to a challenge; every exception on the way gives \<open>None\<close>.\<close>

definition compute_aka_response :: "(bytes \<Rightarrow> bytes) \<Rightarrow> aes \<Rightarrow> bytes \<Rightarrow> ustr \<Rightarrow> registration \<Rightarrow> registration \<times> ustr option" where
  "compute_aka_response md5 aes cnonce www r =
     (let nonce = dict_get (auth_params www) (ustr ''nonce'') [] in
      if nonce = [] then (r, None)
      else case b64decode nonce of Inl _ \<Rightarrow> (r, None)
        | Inr nonce_bytes \<Rightarrow>
            if length nonce_bytes < 32 then (r, None)
            else let rand = slice nonce_bytes 0 16; autn = slice nonce_bytes 16 32 in
              (case rbind (mil_init (r_ki r) (r_opc r)) (\<lambda>mil. authenticate aes mil rand autn (r_sqn r)) of
                 Inl _ \<Rightarrow> (r, None) | Inr None \<Rightarrow> (r, None)
               | Inr (Some (res, ck, ik)) \<Rightarrow>
                   let r1 = r\<lparr>r_sqn := r_sqn r + 1\<rparr> in
                   (case build_auth_header md5 www (ustr ''REGISTER'') (ustr ''sip:'' @ r_home r) (r_impi r) (ustr (hex_of res)) 1 cnonce of
                      Inl _ \<Rightarrow> (r1, None) | Inr h \<Rightarrow> (r1, Some h))))"

definition process_200ok :: "sip_message \<Rightarrow> registration \<Rightarrow> registration" where
  "process_200ok resp r =
     (case map_of (headers resp) (ustr ''Service-Route'') of
        Some route \<Rightarrow> if route \<noteq> [] then r\<lparr>r_service_route := Some route\<rparr> else r
      | None \<Rightarrow> r)"

text \<open>\<^verbatim>\<open>int(expiry * 0.9)\<close> is the floor of nine tenths for the expiry times in question.\<close>

definition schedule_reregistration :: "int \<Rightarrow> registration \<Rightarrow> registration" where
  "schedule_reregistration expiry r = r\<lparr>r_timer := Some (max 60 (expiry * 9 div 10))\<rparr>"

definition granted_expiry :: "ustr \<Rightarrow> int \<Rightarrow> int" where
  "granted_expiry contact expiry =
     (case break_at (ustr ''expires='') contact of None \<Rightarrow> expiry
      | Some (_, after) \<Rightarrow>
          (case int_of_ustr (hd (split_on [44] (hd (split_on [59] (hd (split_on (ustr ''expires='') after)))))) of
             Inl _ \<Rightarrow> expiry | Inr n \<Rightarrow> n))"

definition finish_register :: "sip_message \<Rightarrow> registration \<Rightarrow> registration \<times> bool" where
  "finish_register resp r =
     (if status_code resp = Some 200 then
        (schedule_reregistration (granted_expiry (header resp ''Contact'') (r_expiry r)) (process_200ok resp (r\<lparr>r_state := REGISTERED\<rparr>)), True)
      else (r\<lparr>r_state := REG_FAILED\<rparr>, False))"

definition run_register :: "(bytes \<Rightarrow> bytes) \<Rightarrow> aes \<Rightarrow> bytes \<Rightarrow> int \<times> int \<Rightarrow> (nat \<Rightarrow> request \<Rightarrow> sip_message res) \<Rightarrow> registration \<Rightarrow> registration \<times> bool" where
  "run_register md5 aes cnonce spi net r =
     (case net 0 (register_request spi [] r) of Inl _ \<Rightarrow> (r\<lparr>r_state := REG_FAILED\<rparr>, False)
      | Inr resp \<Rightarrow>
          if status_code resp = Some 401 then
            (case compute_aka_response md5 aes cnonce (header resp ''WWW-Authenticate'') r of
               (r1, None) \<Rightarrow> (r1\<lparr>r_state := REG_FAILED\<rparr>, False)
             | (r1, Some auth) \<Rightarrow>
                 (case net 1 (register_request spi [(ustr ''Authorization'', auth)] r1) of
                    Inl _ \<Rightarrow> (r1\<lparr>r_state := REG_FAILED\<rparr>, False)
                  | Inr resp2 \<Rightarrow> finish_register resp2 r1))
          else finish_register resp r)"

definition register :: "(bytes \<Rightarrow> bytes) \<Rightarrow> aes \<Rightarrow> bytes \<Rightarrow> int \<times> int \<Rightarrow> (nat \<Rightarrow> request \<Rightarrow> sip_message res) \<Rightarrow> registration \<Rightarrow> registration \<times> bool res" where
  "register md5 aes cnonce spi net r =
     (if r_pcscf r = [] then (r\<lparr>r_state := REG_FAILED\<rparr>, Inr False)
      else let r1 = r\<lparr>r_state := REGISTERING\<rparr> in
        if upper (r_transport r) = ustr ''UDP'' \<and> r_bound r then (r1, Inl OSError)
        else let r2 = r1\<lparr>r_bound := (r_bound r \<or> upper (r_transport r) = ustr ''UDP'')\<rparr>
             in case run_register md5 aes cnonce spi net r2 of (r3, ok) \<Rightarrow> (r3, Inr ok))"

text \<open>The task of the timer, when it fires.\<close>

definition reregister :: "(bytes \<Rightarrow> bytes) \<Rightarrow> aes \<Rightarrow> bytes \<Rightarrow> int \<times> int \<Rightarrow> (nat \<Rightarrow> request \<Rightarrow> sip_message res) \<Rightarrow> registration \<Rightarrow> registration \<times> bool res" where
  "reregister md5 aes cnonce spi net r =
     (if r_state r = REGISTERED then register md5 aes cnonce spi net r else (r, Inr False))"

definition deregister :: "int \<times> int \<Rightarrow> (nat \<Rightarrow> request \<Rightarrow> sip_message res) \<Rightarrow> registration \<Rightarrow> registration \<times> bool" where
  "deregister spi net r =
     (if r_state r \<noteq> REGISTERED then (r, True)
      else case net 0 (register_request spi [(ustr ''Expires'', ustr ''0''), (ustr ''Contact'', ustr ''*'')] (r\<lparr>r_state := DEREGISTERING\<rparr>)) of
        Inl _ \<Rightarrow> (r\<lparr>r_state := REG_FAILED, r_bound := False\<rparr>, False)
      | Inr _ \<Rightarrow> (r\<lparr>r_state := NOT_REGISTERED, r_bound := False\<rparr>, True))"

section \<open>What a registration can end in\<close>

lemma finish_register_state:
  "finish_register resp r = (r', ok) \<Longrightarrow> (ok \<longleftrightarrow> status_code resp = Some 200)
     \<and> r_state r' = (if ok then REGISTERED else REG_FAILED) \<and> r_sqn r' = r_sqn r \<and> (ok \<longrightarrow> r_timer r' \<noteq> None)"
  by (auto simp: finish_register_def schedule_reregistration_def process_200ok_def split: if_splits option.split)

lemma compute_aka_state: "compute_aka_response md5 aes cnonce www r = (r1, x) \<Longrightarrow>
    r_sqn r \<le> r_sqn r1 \<and> r_sqn r1 \<le> r_sqn r + 1 \<and> (x \<noteq> None \<longrightarrow> r_sqn r1 = r_sqn r + 1)"
  by (auto simp: compute_aka_response_def Let_def split: if_splits sum.splits option.splits prod.splits)

lemma run_register_outcome:
  assumes "run_register md5 aes cnonce spi net r = (r', ok)"
  shows "r_state r' = (if ok then REGISTERED else REG_FAILED) \<and> (ok \<longrightarrow> r_timer r' \<noteq> None)
    \<and> r_sqn r \<le> r_sqn r' \<and> r_sqn r' \<le> r_sqn r + 1
    \<and> (ok \<longrightarrow> (\<exists>rq resp. net 0 rq = Inr resp \<and>
         (status_code resp = Some 200 \<and> r_sqn r' = r_sqn r
          \<or> status_code resp = Some 401 \<and> r_sqn r' = r_sqn r + 1
            \<and> (\<exists>rq2 resp2 auth. net 1 rq2 = Inr resp2 \<and> status_code resp2 = Some 200
                 \<and> map_of (rq_extra rq2) (ustr ''Authorization'') = Some auth))))"
proof (cases "net 0 (register_request spi [] r)")
  case (Inl e)
  with assms show ?thesis by (auto simp: run_register_def)
next
  case (Inr resp)
  show ?thesis
  proof (cases "status_code resp = Some 401")
    case False
    with assms Inr have "finish_register resp r = (r', ok)" by (simp add: run_register_def)
    with Inr show ?thesis by (auto dest!: finish_register_state)
  next
    case True
    obtain r1 x where x: "compute_aka_response md5 aes cnonce (header resp ''WWW-Authenticate'') r = (r1, x)" by fastforce
    note st = compute_aka_state [OF x]
    show ?thesis
    proof (cases x)
      case None
      with assms Inr True x st show ?thesis by (auto simp: run_register_def)
    next
      case (Some auth)
      let ?rq = "register_request spi [(ustr ''Authorization'', auth)] r1"
      have a: "map_of (rq_extra ?rq) (ustr ''Authorization'') = Some auth"
        by (simp add: register_request_def dict_update_def)
      show ?thesis
      proof (cases "net 1 ?rq")
        case Inl
        with assms Inr True x st Some show ?thesis by (auto simp: run_register_def)
      next
        case (Inr resp2)
        with assms \<open>net 0 _ = Inr resp\<close> True x Some have "finish_register resp2 r1 = (r', ok)" by (simp add: run_register_def)
        then show ?thesis using st Some a Inr True \<open>net 0 _ = Inr resp\<close> by (fastforce dest!: finish_register_state)
      qed
    qed
  qed
qed

text \<open>
  A registration attempt that does not raise ends registered or failed, with a timer when
  registered; it is registered only by a 200, either to the first request, or to a second one that
  answers a 401 with an Authorization header; and the sequence number advances only then, by one.
\<close>

theorem register_outcome:
  assumes "register md5 aes cnonce spi net r = (r', Inr ok)"
  shows "r_state r' = (if ok then REGISTERED else REG_FAILED) \<and> (ok \<longrightarrow> r_timer r' \<noteq> None)
    \<and> r_sqn r \<le> r_sqn r' \<and> r_sqn r' \<le> r_sqn r + 1
    \<and> (ok \<longrightarrow> (\<exists>rq resp. net 0 rq = Inr resp \<and>
         (status_code resp = Some 200 \<and> r_sqn r' = r_sqn r
          \<or> status_code resp = Some 401 \<and> r_sqn r' = r_sqn r + 1
            \<and> (\<exists>rq2 resp2 auth. net 1 rq2 = Inr resp2 \<and> status_code resp2 = Some 200
                 \<and> map_of (rq_extra rq2) (ustr ''Authorization'') = Some auth))))"
proof (cases "r_pcscf r = []")
  case True
  with assms show ?thesis by (auto simp: register_def)
next
  case False
  then obtain r2 where "run_register md5 aes cnonce spi net r2 = (r', ok)" "r_sqn r2 = r_sqn r"
    using assms by (auto simp: register_def Let_def split: if_splits prod.splits)
  with run_register_outcome [of md5 aes cnonce spi net r2 r' ok] show ?thesis by simp
qed

definition sample_registration :: registration where
  "sample_registration = \<lparr>r_impi = ustr ''001010123456789@ims'', r_impu = ustr ''sip:001010123456789@ims'', r_home = ustr ''ims'',
     r_ki = mil_ki sample_mil, r_opc = mil_opc sample_mil, r_sqn = 0, r_pcscf = ustr ''10.0.0.1'', r_port = 5060, r_transport = ustr ''UDP'',
     r_expiry = 3600, r_ipsec = False, r_state = NOT_REGISTERED, r_call_id = ustr ''c1'', r_service_route = None, r_timer = None,
     r_bound = False\<rparr>"

lemma sample_registration_udp: "upper (r_transport sample_registration) = ustr ''UDP''" "r_pcscf sample_registration \<noteq> []"
    "\<not> r_bound sample_registration"
  by (simp_all add: sample_registration_def upper_def ustr_simps)

definition accepting :: "nat \<Rightarrow> request \<Rightarrow> sip_message res" where
  "accepting n rq = Inr (empty_sip\<lparr>status_code := Some 200\<rparr>)"

lemma sample_accepted: "\<exists>r'. register md5 aes [] (0, 0) accepting sample_registration = (r', Inr True)"
  using sample_registration_udp
  by (simp add: register_def run_register_def accepting_def empty_sip_def finish_register_def)

theorem register_outcome_witness:
  "\<exists>r'. register (\<lambda>b. b) sample_aes [] (0, 0) accepting sample_registration = (r', Inr True) \<and> r_state r' = REGISTERED"
proof -
  obtain r' where r: "register (\<lambda>b. b) sample_aes [] (0, 0) accepting sample_registration = (r', Inr True)"
    using sample_accepted by blast
  from register_outcome [OF this] r show ?thesis by simp
qed

definition same_port :: "registration \<Rightarrow> registration \<Rightarrow> bool" where
  "same_port r r' \<longleftrightarrow> r_bound r' = r_bound r \<and> r_transport r' = r_transport r \<and> r_pcscf r' = r_pcscf r"

lemma finish_register_port: "finish_register resp r = (r', ok) \<Longrightarrow> same_port r r'"
  by (auto simp: finish_register_def schedule_reregistration_def process_200ok_def same_port_def split: if_splits option.splits)

lemma compute_aka_port: "compute_aka_response md5 aes cnonce www r = (r1, x) \<Longrightarrow> same_port r r1"
  by (auto simp: compute_aka_response_def same_port_def Let_def split: sum.splits if_splits option.splits prod.splits)

lemma same_port_trans: "same_port r r1 \<Longrightarrow> same_port r1 r2 \<Longrightarrow> same_port r r2"
  by (simp add: same_port_def)

lemma run_register_keeps:
  assumes "run_register md5 aes cnonce spi net r = (r', ok)"
  shows "same_port r r'"
proof -
  have u: "same_port r (r\<lparr>r_state := x\<rparr>)" for r x by (simp add: same_port_def)
  show ?thesis using assms
    by (auto simp: run_register_def u dest: finish_register_port compute_aka_port
        split: sum.splits if_splits option.splits prod.splits intro: same_port_trans)
qed

text \<open>
  Over UDP the registration cannot renew itself: after any successful attempt the timer's
  attempt raises OSError, because the first client still holds the port, and leaves the state at
  registering, in which neither the timer nor \<^verbatim>\<open>deregister\<close> does anything any more.
\<close>

theorem reregistration_blocked:
  assumes "upper (r_transport r) = ustr ''UDP''" "register md5 aes cnonce spi net r = (r1, Inr True)"
    and "reregister md5' aes' cnonce' spi' net' r1 = (r2, x)"
  shows "x = Inl OSError \<and> r_state r2 = REGISTERING
    \<and> reregister md5' aes' cnonce' spi' net' r2 = (r2, Inr False) \<and> deregister spi' net' r2 = (r2, True)"
proof -
  have p: "r_pcscf r \<noteq> []" using assms(2) by (auto simp: register_def split: if_splits)
  then obtain ra where ra: "run_register md5 aes cnonce spi net ra = (r1, True)" "r_bound ra"
      "r_transport ra = r_transport r" "r_pcscf ra = r_pcscf r"
    using assms(1,2) by (auto simp: register_def Let_def split: if_splits prod.splits)
  have "r_state r1 = REGISTERED" using run_register_outcome [OF ra(1)] by simp
  moreover have "r_bound r1" "upper (r_transport r1) = ustr ''UDP''" "r_pcscf r1 \<noteq> []"
    using run_register_keeps [OF ra(1)] ra assms(1) p by (simp_all add: same_port_def)
  ultimately have "r2 = r1\<lparr>r_state := REGISTERING\<rparr> \<and> x = Inl OSError"
    using assms(3) by (auto simp: reregister_def register_def)
  then show ?thesis by (simp add: reregister_def deregister_def)
qed

theorem reregistration_blocked_witness:
  "\<exists>r1 r2. register (\<lambda>b. b) sample_aes [] (0, 0) accepting sample_registration = (r1, Inr True)
     \<and> reregister (\<lambda>b. b) sample_aes [] (0, 0) accepting r1 = (r2, Inl OSError) \<and> r_state r2 = REGISTERING"
proof -
  obtain r1 where r1: "register (\<lambda>b. b) sample_aes [] (0, 0) accepting sample_registration = (r1, Inr True)"
    using sample_accepted by blast
  obtain r2 x where r2: "reregister (\<lambda>b. b) sample_aes [] (0, 0) accepting r1 = (r2, x)" by fastforce
  from reregistration_blocked [OF sample_registration_udp(1) r1 r2] r1 r2 show ?thesis by blast
qed

section \<open>Registration against the authentication helper\<close>

text \<open>
  A registrar that challenges with the helper's vector and checks the answer with the helper; it
  reads the parameters of the Authorization header the way the client reads a challenge.
\<close>

definition registrar :: "(bytes \<Rightarrow> bytes) \<Rightarrow> string \<Rightarrow> auth_vector \<Rightarrow> helper \<Rightarrow> nat \<Rightarrow> request \<Rightarrow> sip_message res" where
  "registrar md5 imsi v h n rq =
     (case map_of (rq_extra rq) (ustr ''Authorization'') of
        None \<Rightarrow> Inr (empty_sip\<lparr>status_code := Some 401, headers := [(ustr ''WWW-Authenticate'', challenge_text v)]\<rparr>)
      | Some auth \<Rightarrow>
          let p = auth_params auth; g = (\<lambda>k. dict_get p (ustr k) []) in
          rbind (verify_digest_response md5 imsi (g ''username'') (g ''realm'') (g ''uri'') (g ''nc'') (g ''cnonce'') (g ''qop'')
                   (g ''response'') h) (\<lambda>ok.
          Inr (empty_sip\<lparr>status_code := Some (if ok then 200 else 403)\<rparr>)))"

lemma hexdigest_word: "hexdigest md5 parts = Inr x \<Longrightarrow> word_ok x \<and> unicode_text x"
  by (auto simp: hexdigest_def rbind_eq_Inr hex_of_word)

lemma hexdigest_total: "\<forall>p \<in> set parts. unicode_text p \<Longrightarrow> \<exists>x. hexdigest md5 parts = Inr x"
  using unicode_join [of parts "[58]"] by (simp add: hexdigest_def utf8_encode_def)

lemma hex8_1: "hex8 1 = ''00000001''"
proof -
  have "hex_nat 1 = ''1''" by (subst hex_nat.simps) (simp add: hex_digit_def char_of_def bit_0)
  then show ?thesis by (simp add: hex8_def numeral_eq_Suc)
qed

lemma word_hex8: "word_ok (ustr (hex8 1))" "unicode_text (ustr (hex8 1))"
  unfolding hex8_1 by (simp_all add: ustr_simps is_white_def)

text \<open>The client's values for a challenge of the helper.\<close>

lemma client_values:
  assumes "word_ok (ustr (v_realm v))" "word_ok (v_nonce v)" "word_ok user" "unicode_text user"
    "word_ok uri" "unicode_text uri" "unicode_text (v_nonce v)"
  shows "\<exists>a. auth_values_for md5 (challenge_text v) (ustr ''REGISTER'') uri user (ustr (v_xres v)) 1 cn = Inr a
    \<and> values_ok a \<and> av_username a = user \<and> av_realm a = ustr (v_realm v) \<and> av_uri a = uri
    \<and> expected_digest md5 v user (ustr (v_realm v)) uri (av_nc a) (av_cnonce a) (av_qop a) = Inr (av_response a)"
proof -
  note p = challenge_params [OF assms(1,2)]
  obtain ha1 where h1: "hexdigest md5 [user, ustr (v_realm v), ustr (v_xres v)] = Inr ha1"
    using hexdigest_total [of "[user, ustr (v_realm v), ustr (v_xres v)]"] assms(4) by auto
  obtain ha2 where h2: "hexdigest md5 [ustr ''REGISTER'', uri] = Inr ha2"
    using hexdigest_total [of "[ustr ''REGISTER'', uri]"] assms(6) by auto
  let ?parts = "[ha1, v_nonce v, ustr (hex8 1), ustr (hex_of cn), ustr ''auth'', ha2]"
  obtain x where x: "hexdigest md5 ?parts = Inr x"
    using hexdigest_total [of ?parts] hexdigest_word [OF h1] hexdigest_word [OF h2] assms(7) word_hex8 by auto
  show ?thesis
    using h1 h2 x hexdigest_word [OF x] assms word_hex8 hex_of_word [of cn]
    by (simp add: auth_values_for_def p dict_get_def Let_def values_ok_def expected_digest_def)
      (simp add: ustr_simps is_white_def)
qed

lemma register_run:
  assumes "aes_ok aes" "length rand = 16" "sqn_ok sqn" "fromhex amf_hex = Inr amf" "length amf = 2"
    and "make_vector aes rand imsi (r_ki r) (r_opc r) sqn amf_hex = Inr v" "map_of (vector_cache h) imsi = Some v"
    and "word_ok (r_impi r)" "unicode_text (r_impi r)" "word_ok (r_home r)" "unicode_text (r_home r)" "word_ok (ustr (ims_realm imsi))"
    and "r_pcscf r \<noteq> []" "\<not> r_bound r"
  shows "\<exists>r'. register md5 aes cnonce spi (registrar md5 imsi v h) r = (r', Inr (r_sqn r \<le> sqn))
    \<and> r_state r' = (if r_sqn r \<le> sqn then REGISTERED else REG_FAILED)
    \<and> r_sqn r' = (if r_sqn r \<le> sqn then r_sqn r + 1 else r_sqn r)"
proof -
  obtain mil where mil: "mil_init (r_ki r) (r_opc r) = Inr mil" using assms(6) by (auto simp: make_vector_def rbind_eq_Inr)
  then have mk: "mil_ok mil" by (auto simp: mil_init_def mil_ok_def split: if_splits)
  obtain autn res ck ik where vec: "aka_vector aes mil rand sqn amf = Inr (autn, res, ck, ik)"
    and v: "v_xres v = hex_of res" "v_nonce v = b64encode (rand @ autn)" "v_realm v = ims_realm imsi"
    using assms(4,6) mil by (auto simp: make_vector_def rbind_eq_Inr)
  have la: "length autn = 16"
    using mil_aka.vector_total [of "(aes, mil)" rand sqn amf] vec assms(1,2,3,5) mk by (simp add: usim_defs rand_ok_def)
  have auth: "authenticate aes mil rand autn (r_sqn r) = Inr (if sqn < r_sqn r then None else Some (res, ck, ik))"
    using mil_aka.auth_vector [of "(aes, mil)" rand sqn amf autn "(res, ck, ik)" "r_sqn r"] vec assms(1,2,3,5) mk
    by (simp add: usim_defs rand_ok_def)
  let ?www = "challenge_text v" and ?net = "registrar md5 imsi v h"
  have wr: "word_ok (ustr (v_realm v))" "word_ok (v_nonce v)" using v assms(12) b64_word by simp_all
  have un: "unicode_text (v_nonce v)" by (simp add: v b64_unicode)
  have nonce: "dict_get (auth_params ?www) (ustr ''nonce'') [] = b64encode (rand @ autn)"
    using challenge_params [OF wr] by (simp add: dict_get_def v)
  have ne: "b64encode (rand @ autn) \<noteq> []" using assms(2) by (cases "rand @ autn" rule: b64encode.cases) auto
  have parts: "slice (rand @ autn) 0 16 = rand" "slice (rand @ autn) 16 32 = autn" using assms(2) la by (simp_all add: slice_def)
  define r2 where "r2 = r\<lparr>r_state := REGISTERING, r_bound := (r_bound r \<or> upper (r_transport r) = ustr ''UDP'')\<rparr>"
  have r2: "r_ki r2 = r_ki r" "r_opc r2 = r_opc r" "r_sqn r2 = r_sqn r" "r_home r2 = r_home r" "r_impi r2 = r_impi r"
    by (simp_all add: r2_def)
  have reg: "register md5 aes cnonce spi ?net r = (case run_register md5 aes cnonce spi ?net r2 of (r3, ok) \<Rightarrow> (r3, Inr ok))"
    using assms(13,14) by (simp add: register_def r2_def Let_def)
  have n0: "?net 0 (register_request spi [] r2) = Inr (empty_sip\<lparr>status_code := Some 401, headers := [(ustr ''WWW-Authenticate'', ?www)]\<rparr>)"
    by (simp add: registrar_def register_request_def register_headers_def dict_update_def)
  have aka: "compute_aka_response md5 aes cnonce ?www r2 =
      (if sqn < r_sqn r then (r2, None) else
       (case build_auth_header md5 ?www (ustr ''REGISTER'') (ustr ''sip:'' @ r_home r) (r_impi r) (ustr (v_xres v)) 1 cnonce of
          Inl _ \<Rightarrow> (r2\<lparr>r_sqn := r_sqn r + 1\<rparr>, None) | Inr x \<Rightarrow> (r2\<lparr>r_sqn := r_sqn r + 1\<rparr>, Some x)))"
    using la assms(2) auth mil by (simp add: compute_aka_response_def nonce ne b64_roundtrip parts Let_def r2 v(1))
  show ?thesis
  proof (cases "r_sqn r \<le> sqn")
    case False
    then show ?thesis unfolding reg by (simp add: run_register_def n0 header_def dict_get_def aka r2)
  next
    case True
    have uri: "word_ok (ustr ''sip:'' @ r_home r)" "unicode_text (ustr ''sip:'' @ r_home r)"
      using assms(10,11) by (simp_all add: ustr_simps is_white_def)
    obtain a where a: "auth_values_for md5 ?www (ustr ''REGISTER'') (ustr ''sip:'' @ r_home r) (r_impi r) (ustr (v_xres v)) 1 cnonce = Inr a"
        "values_ok a" "av_username a = r_impi r" "av_realm a = ustr (v_realm v)" "av_uri a = ustr ''sip:'' @ r_home r"
        "expected_digest md5 v (r_impi r) (ustr (v_realm v)) (ustr ''sip:'' @ r_home r) (av_nc a) (av_cnonce a) (av_qop a) = Inr (av_response a)"
      using client_values [OF wr assms(8,9) uri un, of md5 cnonce] by blast
    let ?r3 = "r2\<lparr>r_sqn := r_sqn r + 1\<rparr>"
    have aka': "compute_aka_response md5 aes cnonce ?www r2 = (?r3, Some (auth_text a))"
      using True a(1) by (simp add: aka build_auth_header_def)
    have "?net 1 (register_request spi [(ustr ''Authorization'', auth_text a)] ?r3) = Inr (empty_sip\<lparr>status_code := Some 200\<rparr>)"
      using a authorization_params [OF a(2)] assms(7)
      by (simp add: registrar_def register_request_def register_headers_def dict_update_def dict_get_def verify_digest_response_def Let_def)
    then have run: "run_register md5 aes cnonce spi ?net r2 = finish_register (empty_sip\<lparr>status_code := Some 200\<rparr>) ?r3"
      by (simp add: run_register_def n0 header_def dict_get_def aka')
    obtain r' ok where f: "finish_register (empty_sip\<lparr>status_code := Some 200\<rparr>) ?r3 = (r', ok)" by fastforce
    from finish_register_state [OF this] True show ?thesis unfolding reg run f by simp
  qed
qed

text \<open>
  C9: a client whose USIM shares the subscriber's key and whose sequence number the helper's is
  not behind registers with it: it understands the challenge, Milenage accepts it, and the digest
  it sends verifies; the state is registered and the sequence number has advanced by one. With a
  sequence number ahead of the helper's the attempt fails without a second request.
\<close>

theorem register_end_to_end:
  assumes "aes_ok aes" "length rand = 16" "sqn_ok sqn" "fromhex amf_hex = Inr amf" "length amf = 2"
    and "make_vector aes rand imsi (r_ki r) (r_opc r) sqn amf_hex = Inr v" "map_of (vector_cache h) imsi = Some v"
    and "word_ok (r_impi r)" "unicode_text (r_impi r)" "word_ok (r_home r)" "unicode_text (r_home r)" "word_ok (ustr (ims_realm imsi))"
    and "r_pcscf r \<noteq> []" "\<not> r_bound r"
  shows "\<exists>r'. register md5 aes cnonce spi (registrar md5 imsi v h) r = (r', Inr (r_sqn r \<le> sqn))
    \<and> r_state r' = (if r_sqn r \<le> sqn then REGISTERED else REG_FAILED)
    \<and> r_sqn r' = (if r_sqn r \<le> sqn then r_sqn r + 1 else r_sqn r)"
  using assms by (rule register_run)

theorem register_end_to_end_witness:
  "\<exists>v h r'. register (\<lambda>b. b) sample_aes [] (0, 0) (registrar (\<lambda>b. b) ''001010123456789'' v h) sample_registration = (r', Inr True)
     \<and> r_state r' = REGISTERED"
proof -
  obtain autn res ck ik where "aka_vector sample_aes sample_mil sample_rand 32 [128, 0] = Inr (autn, res, ck, ik)"
    using sample_vector by fastforce
  moreover have "mil_init (r_ki sample_registration) (r_opc sample_registration) = Inr sample_mil"
    by (simp add: sample_registration_def mil_init_def sample_mil_def)
  moreover have f: "fromhex ''8000'' = Inr [128, 0]" by (simp add: is_space_def hex_value_def Let_def)
  moreover have "to_bytes_be 6 32 = Inr (be_bytes 6 32)" by (simp add: to_bytes_be_def)
  ultimately obtain v where v: "make_vector sample_aes sample_rand ''001010123456789'' (r_ki sample_registration)
      (r_opc sample_registration) 32 ''8000'' = Inr v" by (simp add: make_vector_def)
  let ?h = "\<lparr>subscribers = [], vector_cache = [(''001010123456789'', v)]\<rparr>"
  have w: "word_ok (r_impi sample_registration)" "unicode_text (r_impi sample_registration)"
    "word_ok (r_home sample_registration)" "unicode_text (r_home sample_registration)" "word_ok (ustr (ims_realm ''001010123456789''))"
    by (simp_all add: sample_registration_def ims_realm_def zfill_def slice_def ustr_simps is_white_def)
  have c: "map_of (vector_cache ?h) ''001010123456789'' = Some v" by simp
  have "r_sqn sample_registration \<le> 32" by (simp add: sample_registration_def)
  with register_end_to_end [OF sample_ok(1,3,4) f _ v c w sample_registration_udp(2,3), of "\<lambda>b. b" "[]" "(0, 0)"]
  show ?thesis by auto
qed

text \<open>
  Whatever the network answers to it, an error included, \<^verbatim>\<open>deregister\<close> reports success and
  takes the registration for gone; only a request that gets no answer fails.
\<close>

theorem deregister_any_answer:
  assumes "r_state r = REGISTERED" "\<And>rq. net 0 rq = Inr (resp rq)"
  shows "\<exists>r'. deregister spi net r = (r', True) \<and> r_state r' = NOT_REGISTERED"
  using assms by (simp add: deregister_def)

theorem deregister_any_answer_witness:
  "\<exists>r'. deregister (0, 0) (\<lambda>n rq. Inr (empty_sip\<lparr>status_code := Some 403\<rparr>)) (sample_registration\<lparr>r_state := REGISTERED\<rparr>) = (r', True)
     \<and> r_state r' = NOT_REGISTERED"
  by (rule deregister_any_answer [where resp = "\<lambda>_. empty_sip\<lparr>status_code := Some 403\<rparr>"]) simp_all

end
