(* ===== verification/Eap.thy ===== *)
theory Eap
  imports Aka Utf8
begin

text \<open>
  \<^verbatim>\<open>euicc/crypto/eap_aka.py\<close>: EAP packets. The loop of the parser advances by the length an attribute
  claims to have, so it may never end: the parser is a partial function, and not returning is \<open>None\<close>.
\<close>

section \<open>Packets\<close>

datatype eap_code = EAP_REQUEST | EAP_RESPONSE | EAP_SUCCESS | EAP_FAILURE

datatype eap_type = TYPE_IDENTITY | TYPE_AKA | TYPE_AKA_PRIME

datatype aka_subtype = SUB_CHALLENGE | SUB_AUTHENTICATION_REJECT | SUB_SYNCHRONIZATION_FAILURE | SUB_IDENTITY
  | SUB_NOTIFICATION | SUB_REAUTHENTICATION | SUB_CLIENT_ERROR

definition code_value :: "eap_code \<Rightarrow> byte" where
  "code_value c = (case c of EAP_REQUEST \<Rightarrow> 1 | EAP_RESPONSE \<Rightarrow> 2 | EAP_SUCCESS \<Rightarrow> 3 | EAP_FAILURE \<Rightarrow> 4)"

definition code_of :: "byte \<Rightarrow> eap_code res" where
  "code_of b = (if b = 1 then Inr EAP_REQUEST else if b = 2 then Inr EAP_RESPONSE else if b = 3 then Inr EAP_SUCCESS
     else if b = 4 then Inr EAP_FAILURE else Inl ValueError)"

definition type_value :: "eap_type \<Rightarrow> byte" where
  "type_value t = (case t of TYPE_IDENTITY \<Rightarrow> 1 | TYPE_AKA \<Rightarrow> 23 | TYPE_AKA_PRIME \<Rightarrow> 50)"

definition type_of :: "byte \<Rightarrow> eap_type res" where
  "type_of b = (if b = 1 then Inr TYPE_IDENTITY else if b = 23 then Inr TYPE_AKA else if b = 50 then Inr TYPE_AKA_PRIME else Inl ValueError)"

definition subtype_value :: "aka_subtype \<Rightarrow> byte" where
  "subtype_value t = (case t of SUB_CHALLENGE \<Rightarrow> 1 | SUB_AUTHENTICATION_REJECT \<Rightarrow> 2 | SUB_SYNCHRONIZATION_FAILURE \<Rightarrow> 4
     | SUB_IDENTITY \<Rightarrow> 5 | SUB_NOTIFICATION \<Rightarrow> 12 | SUB_REAUTHENTICATION \<Rightarrow> 13 | SUB_CLIENT_ERROR \<Rightarrow> 14)"

definition subtype_of :: "byte \<Rightarrow> aka_subtype res" where
  "subtype_of b = (if b = 1 then Inr SUB_CHALLENGE else if b = 2 then Inr SUB_AUTHENTICATION_REJECT
     else if b = 4 then Inr SUB_SYNCHRONIZATION_FAILURE else if b = 5 then Inr SUB_IDENTITY else if b = 12 then Inr SUB_NOTIFICATION
     else if b = 13 then Inr SUB_REAUTHENTICATION else if b = 14 then Inr SUB_CLIENT_ERROR else Inl ValueError)"

lemma code_of_value [simp]: "code_of (code_value c) = Inr c"
  by (cases c) (simp_all add: code_of_def code_value_def)

lemma type_of_value [simp]: "type_of (type_value t) = Inr t"
  by (cases t) (simp_all add: type_of_def type_value_def)

lemma subtype_of_value [simp]: "subtype_of (subtype_value s) = Inr s"
  by (cases s) (simp_all add: subtype_of_def subtype_value_def)

text \<open>The attribute numbers that are used; \<^verbatim>\<open>AT_PERMANENT_ID\<close> has the number of \<^verbatim>\<open>AT_MAC\<close>.\<close>

abbreviation AT_RAND :: byte where "AT_RAND \<equiv> 1"
abbreviation AT_AUTN :: byte where "AT_AUTN \<equiv> 2"
abbreviation AT_RES :: byte where "AT_RES \<equiv> 3"
abbreviation AT_AUTS :: byte where "AT_AUTS \<equiv> 4"
abbreviation AT_MAC :: byte where "AT_MAC \<equiv> 11"
abbreviation AT_CLIENT_ERROR_CODE :: byte where "AT_CLIENT_ERROR_CODE \<equiv> 22"

record eap_packet =
  ep_code :: eap_code
  ep_id :: byte
  ep_type :: "eap_type option"
  ep_sub :: "aka_subtype option"
  ep_attrs :: "(byte \<times> bytes) list"

section \<open>Parsing\<close>

partial_function (option) parse_attrs :: "bytes \<Rightarrow> nat \<Rightarrow> nat \<Rightarrow> (byte \<times> bytes) list \<Rightarrow> (byte \<times> bytes) list option" where
  "parse_attrs d len pos attrs =
     (if pos < len then
        (if pos + 4 > length d then Some attrs
         else parse_attrs d len (pos + unat (d ! (pos + 1)) * 4)
                (dict_set (d ! pos) (slice d (pos + 4) (pos + unat (d ! (pos + 1)) * 4)) attrs))
      else Some attrs)"

definition eap_parse :: "bytes \<Rightarrow> eap_packet res option" where
  "eap_parse d =
     (if length d < 4 then Some (Inl ValueError)
      else case code_of (d ! 0) of Inl e \<Rightarrow> Some (Inl e)
      | Inr code \<Rightarrow>
        let len = from_be (slice d 2 4) in
        if code \<in> {EAP_SUCCESS, EAP_FAILURE} then
          Some (Inr \<lparr>ep_code = code, ep_id = d ! 1, ep_type = None, ep_sub = None, ep_attrs = []\<rparr>)
        else if length d < 8 then Some (Inl ValueError)
        else (case type_of (d ! 4) of Inl e \<Rightarrow> Some (Inl e) | Inr t \<Rightarrow>
          case subtype_of (d ! 5) of Inl e \<Rightarrow> Some (Inl e) | Inr s \<Rightarrow>
          map_option (\<lambda>attrs. Inr \<lparr>ep_code = code, ep_id = d ! 1, ep_type = Some t, ep_sub = Some s, ep_attrs = attrs\<rparr>)
            (parse_attrs d len 8 [])))"

section \<open>Serialising\<close>

definition padded_len :: "nat \<Rightarrow> nat" where
  "padded_len n = (if (n + 4) mod 4 \<noteq> 0 then n + 4 + (4 - (n + 4) mod 4) else n + 4)"

definition pad_value :: "bytes \<Rightarrow> bytes" where
  "pad_value v = v @ replicate (padded_len (length v) - 4 - length v) 0"

definition attr_bytes :: "byte \<times> bytes \<Rightarrow> bytes res" where
  "attr_bytes a = rbind (pack 1 (int (padded_len (length (snd a)) div 4))) (\<lambda>w. Inr (fst a # w @ [0, 0] @ pad_value (snd a)))"

definition eap_serialize :: "eap_packet \<Rightarrow> bytes res" where
  "eap_serialize p =
     (if ep_code p \<in> {EAP_SUCCESS, EAP_FAILURE} then Inr [code_value (ep_code p), ep_id p, 0, 4]
      else rbind (rmap attr_bytes (ep_attrs p)) (\<lambda>as.
        rbind (pack 2 (int (8 + length (concat as)))) (\<lambda>n.
        case (ep_type p, ep_sub p) of
          (Some t, Some s) \<Rightarrow> Inr ([code_value (ep_code p), ep_id p] @ n @ [type_value t, subtype_value s, 0, 0] @ concat as)
        | _ \<Rightarrow> Inl StructError)))"

section \<open>Round trip\<close>

lemma padded_len_props: "padded_len n mod 4 = 0" "n + 4 \<le> padded_len n" "padded_len n < n + 8"
  unfolding padded_len_def by (split if_split, presburger)+

lemma length_pad_value [simp]: "length (pad_value v) = padded_len (length v) - 4"
  using padded_len_props(2) [of "length v"] by (simp add: pad_value_def)

definition attr_ok :: "byte \<times> bytes \<Rightarrow> bool" where
  "attr_ok a \<longleftrightarrow> length (snd a) \<le> 1016"

definition attr_wire :: "byte \<times> bytes \<Rightarrow> bytes" where
  "attr_wire a = [fst a, word_of_nat (padded_len (length (snd a)) div 4), 0, 0] @ pad_value (snd a)"

lemma attr_words: "attr_ok a \<Longrightarrow> padded_len (length (snd a)) div 4 < 256"
  using padded_len_props [of "length (snd a)"] by (simp add: attr_ok_def)

lemma attr_bytes_ok: "attr_ok a \<Longrightarrow> attr_bytes a = Inr (attr_wire a)"
  using attr_words [of a] by (simp add: attr_bytes_def attr_wire_def pack_def be_bytes.simps)

lemma length_attr_wire: "length (attr_wire a) = padded_len (length (snd a))"
  using padded_len_props(2) [of "length (snd a)"] by (simp add: attr_wire_def)

text \<open>One attribute, and a sequence of attributes, anywhere in a packet.\<close>

lemma parse_attr:
  assumes "attr_ok a" "length pre < len"
  shows "parse_attrs (pre @ attr_wire a @ post) len (length pre) attrs =
    parse_attrs (pre @ attr_wire a @ post) len (length pre + length (attr_wire a)) (dict_set (fst a) (pad_value (snd a)) attrs)"
proof -
  let ?d = "pre @ attr_wire a @ post"
  have "x mod 4 = 0 \<Longrightarrow> x div 4 * 4 = x" for x :: nat by presburger
  from this [OF padded_len_props(1)] have w: "unat (?d ! (length pre + 1)) * 4 = length (attr_wire a)"
    using attr_words [OF assms(1)] unfolding length_attr_wire
    by (simp add: nth_append attr_wire_def unat_byte_of_nat)
  have "?d ! length pre = fst a" by (simp add: attr_wire_def)
  moreover have "slice ?d (length pre + 4) (length pre + length (attr_wire a)) = pad_value (snd a)"
    using padded_len_props(2) [of "length (snd a)"] by (simp add: slice_def attr_wire_def)
  moreover have "length pre + 4 \<le> length ?d" by (simp add: attr_wire_def)
  ultimately show ?thesis using assms(2) by (subst parse_attrs.simps) (simp add: w [simplified])
qed

lemma parse_attrs_all:
  assumes "\<forall>a \<in> set as. attr_ok a" "length pre + length (concat (map attr_wire as)) \<le> len"
  shows "parse_attrs (pre @ concat (map attr_wire as) @ post) len (length pre) attrs =
    parse_attrs (pre @ concat (map attr_wire as) @ post) len (length pre + length (concat (map attr_wire as)))
      (dict_update attrs (map (map_prod id pad_value) as))"
  using assms
proof (induction as arbitrary: pre attrs)
  case Nil
  then show ?case by (simp add: dict_update_def)
next
  case (Cons a as)
  have "4 \<le> length (attr_wire a)" by (simp add: attr_wire_def)
  then have "parse_attrs (pre @ attr_wire a @ concat (map attr_wire as) @ post) len (length pre) attrs =
      parse_attrs ((pre @ attr_wire a) @ concat (map attr_wire as) @ post) len (length (pre @ attr_wire a)) (dict_set (fst a) (pad_value (snd a)) attrs)"
    using parse_attr [of a pre len "concat (map attr_wire as) @ post" attrs] Cons.prems by simp
  with Cons.IH [of "pre @ attr_wire a" "dict_set (fst a) (pad_value (snd a)) attrs"] Cons.prems
  show ?case by (cases a) (simp add: dict_update_def add.assoc)
qed

lemma dict_update_new: "dict_ok (d @ e) \<Longrightarrow> dict_update d e = d @ e"
proof (induction e arbitrary: d)
  case (Cons a e)
  have "fst a \<notin> fst ` set d" using Cons.prems by (auto simp: dict_ok_def)
  then have "dict_update d (a # e) = dict_update (d @ [a]) e" by (cases a) (simp add: dict_update_def dict_set_new)
  with Cons show ?case by simp
qed (simp add: dict_update_def)

definition packet_ok :: "eap_packet \<Rightarrow> bool" where
  "packet_ok p \<longleftrightarrow> ep_code p \<in> {EAP_REQUEST, EAP_RESPONSE} \<and> ep_type p \<noteq> None \<and> ep_sub p \<noteq> None
     \<and> dict_ok (ep_attrs p) \<and> (\<forall>a \<in> set (ep_attrs p). attr_ok a)
     \<and> 8 + length (concat (map attr_wire (ep_attrs p))) < 65536"

text \<open>The header with any length field.\<close>

definition eap_head :: "eap_packet \<Rightarrow> nat \<Rightarrow> bytes" where
  "eap_head p n = [code_value (ep_code p), ep_id p] @ be_bytes 2 n @ [type_value (the (ep_type p)), subtype_value (the (ep_sub p)), 0, 0]"

lemma eap_parse_head:
  assumes "packet_ok p" "n < 65536"
  shows "eap_parse (eap_head p n @ rest) = map_option (\<lambda>attrs. Inr (p\<lparr>ep_attrs := attrs\<rparr>)) (parse_attrs (eap_head p n @ rest) n 8 [])"
proof -
  obtain a b where ab: "be_bytes 2 n = [a, b]" using list_of_length2 [of "be_bytes 2 n"] by auto
  have "from_be (be_bytes 2 n) = n" using assms(2) by (simp add: from_be_be_bytes_id)
  moreover obtain t s where "ep_type p = Some t" "ep_sub p = Some s" using assms(1) by (auto simp: packet_ok_def)
  moreover have "ep_code p \<notin> {EAP_SUCCESS, EAP_FAILURE}" using assms(1) by (auto simp: packet_ok_def)
  ultimately show ?thesis
    by (cases p) (simp add: eap_parse_def eap_head_def ab slice_def Let_def take_Cons' drop_Cons' nth_Cons')
qed

lemma eap_dec_enc:
  assumes "packet_ok p"
  shows "\<exists>bs. eap_serialize p = Inr bs \<and> eap_parse bs = Some (Inr (p\<lparr>ep_attrs := map (map_prod id pad_value) (ep_attrs p)\<rparr>))"
proof -
  let ?as = "ep_attrs p" and ?n = "8 + length (concat (map attr_wire (ep_attrs p)))"
  let ?bs = "eap_head p ?n @ concat (map attr_wire ?as)"
  have l: "length (eap_head p ?n) = 8" by (simp add: eap_head_def)
  have "rmap attr_bytes ?as = Inr (map attr_wire ?as)"
    using assms attr_bytes_ok by (intro rmap_Inr) (auto simp: packet_ok_def)
  then have "eap_serialize p = Inr ?bs"
    using assms by (auto simp: eap_serialize_def packet_ok_def pack_def eap_head_def nat_add_distrib)
  moreover have "parse_attrs ?bs ?n 8 [] = Some (map (map_prod id pad_value) ?as)"
  proof -
    have "dict_ok (map (map_prod id pad_value) ?as)" using assms by (simp add: packet_ok_def dict_ok_def comp_def)
    then have "dict_update [] (map (map_prod id pad_value) ?as) = map (map_prod id pad_value) ?as" by (simp add: dict_update_new)
    then show ?thesis
      using parse_attrs_all [of ?as "eap_head p ?n" ?n "[]" "[]"] assms
      by (simp add: l packet_ok_def) (subst parse_attrs.simps, simp)
  qed
  ultimately show ?thesis using eap_parse_head [OF assms, of ?n "concat (map attr_wire ?as)"] assms by (simp add: packet_ok_def)
qed

text \<open>
  A request or response whose fields fit their wire width is parsed back whole, with every value
  padded to a multiple of four bytes less four of its header.
\<close>

theorem eap_roundtrip:
  assumes "packet_ok p"
  shows "\<exists>bs. eap_serialize p = Inr bs \<and> eap_parse bs = Some (Inr (p\<lparr>ep_attrs := map (map_prod id pad_value) (ep_attrs p)\<rparr>))"
  using eap_dec_enc [OF assms] .

theorem eap_roundtrip_witness:
  "\<exists>bs. eap_serialize \<lparr>ep_code = EAP_REQUEST, ep_id = 7, ep_type = Some TYPE_AKA, ep_sub = Some SUB_CHALLENGE, ep_attrs = [(AT_RES, [1])]\<rparr> = Inr bs
    \<and> eap_parse bs = Some (Inr \<lparr>ep_code = EAP_REQUEST, ep_id = 7, ep_type = Some TYPE_AKA, ep_sub = Some SUB_CHALLENGE,
         ep_attrs = [(AT_RES, [1, 0, 0, 0])]\<rparr>)"
  using eap_roundtrip [of "\<lparr>ep_code = EAP_REQUEST, ep_id = 7, ep_type = Some TYPE_AKA, ep_sub = Some SUB_CHALLENGE, ep_attrs = [(AT_RES, [1])]\<rparr>"]
  by (simp add: packet_ok_def attr_ok_def attr_wire_def pad_value_def padded_len_def dict_ok_def numeral_3_eq_3)

section \<open>When the parser returns\<close>

text \<open>The walk over the attributes, which meets no length byte 0.\<close>

function attr_walk :: "bytes \<Rightarrow> nat \<Rightarrow> nat \<Rightarrow> bool" where
  "attr_walk d len pos =
     (if pos < len \<and> pos + 4 \<le> length d then
        (if d ! (pos + 1) = 0 then False else attr_walk d len (pos + unat (d ! (pos + 1)) * 4))
      else True)"
  by pat_completeness auto
termination
proof (relation "measure (\<lambda>(d, len, pos). len - pos)")
  fix d :: bytes and len pos :: nat
  assume "pos < len \<and> pos + 4 \<le> length d" "d ! (pos + 1) \<noteq> 0"
  moreover from this(2) have "0 < unat (d ! (pos + 1))" by (simp add: unat_gt_0)
  moreover have "pos < len \<Longrightarrow> 0 < u \<Longrightarrow> len - (pos + u * 4) < len - pos" for u by simp
  ultimately show "((d, len, pos + unat (d ! (pos + 1)) * 4), d, len, pos) \<in> measure (\<lambda>(d, len, pos). len - pos)" by simp
qed simp

declare attr_walk.simps [simp del]

lemma parse_attrs_walk:
  assumes "parse_attrs d len pos attrs = Some y"
  shows "attr_walk d len pos"
proof (rule parse_attrs.raw_induct [OF _ assms])
  fix f d len pos attrs y
  assume IH: "\<And>d len pos attrs y. f d len pos attrs = Some y \<Longrightarrow> attr_walk d len pos"
    and f: "(if pos < len then
        (if pos + 4 > length d then Some attrs
         else f d len (pos + unat (d ! (pos + 1)) * 4) (dict_set (d ! pos) (slice d (pos + 4) (pos + unat (d ! (pos + 1)) * 4)) attrs))
      else Some attrs) = Some y"
  show "attr_walk d len pos"
  proof (cases "pos < len \<and> pos + 4 \<le> length d")
    case True
    let ?n = "pos + unat (d ! (pos + 1)) * 4"
    have "f d len ?n (dict_set (d ! pos) (slice d (pos + 4) ?n) attrs) = Some y" using f True by (simp split: if_splits)
    then have "attr_walk d len ?n" by (rule IH)
    then show ?thesis using True by (cases "d ! (pos + 1) = 0") (simp, subst attr_walk.simps, simp)
  qed (subst attr_walk.simps, auto)
qed

lemma walk_parse_attrs: "attr_walk d len pos \<Longrightarrow> \<exists>y. parse_attrs d len pos attrs = Some y"
proof (induction d len pos arbitrary: attrs rule: attr_walk.induct)
  case (1 d len pos)
  show ?case
  proof (cases "pos < len \<and> pos + 4 \<le> length d")
    case True
    have "d ! (pos + 1) \<noteq> 0" using 1(2) True by (subst (asm) attr_walk.simps) (simp split: if_splits)
    moreover have "attr_walk d len (pos + unat (d ! (pos + 1)) * 4)"
      using 1(2) True by (subst (asm) attr_walk.simps) (simp split: if_splits)
    ultimately show ?thesis using 1(1) True by (subst parse_attrs.simps) simp
  qed (subst parse_attrs.simps, auto)
qed

text \<open>
  The parser returns, with a packet or an exception, exactly when the attributes it walks over up
  to the length field have no length byte 0; otherwise its loop never ends. A request of twelve bytes
  is enough for that.
\<close>

theorem eap_parse_returns:
  "(eap_parse d = None \<longleftrightarrow> 8 \<le> length d \<and> code_of (d ! 0) \<in> {Inr EAP_REQUEST, Inr EAP_RESPONSE} \<and> \<not> raises (type_of (d ! 4))
      \<and> \<not> raises (subtype_of (d ! 5)) \<and> \<not> attr_walk d (from_be (slice d 2 4)) 8)
   \<and> eap_parse [1, ident, 0, 12, 23, 1, 0, 0, t, 0, x, y] = None"
proof -
  have w: "parse_attrs e len 8 [] = None \<longleftrightarrow> \<not> attr_walk e len 8" for e len
    using parse_attrs_walk [of e len 8 "[]"] walk_parse_attrs [of e len 8 "[]"] by (cases "parse_attrs e len 8 []") auto
  have p: "eap_parse e = None \<longleftrightarrow> 8 \<le> length e \<and> code_of (e ! 0) \<in> {Inr EAP_REQUEST, Inr EAP_RESPONSE} \<and> \<not> raises (type_of (e ! 4))
      \<and> \<not> raises (subtype_of (e ! 5)) \<and> \<not> attr_walk e (from_be (slice e 2 4)) 8" for e
  proof (cases "code_of (e ! 0)")
    case (Inr c)
    then show ?thesis by (cases c) (auto simp: eap_parse_def w Let_def not_raises split: sum.split)
  qed (auto simp: eap_parse_def)
  have "\<not> attr_walk [1, ident, 0, 12, 23, 1, 0, 0, t, 0, x, y] 12 8" by (subst attr_walk.simps) simp
  moreover have "from_be (slice [1, ident, 0, 12, 23, 1, 0, 0, t, 0, x, y] 2 4) = 12"
    by (simp add: slice_def from_be_def)
  ultimately have "eap_parse [1, ident, 0, 12, 23, 1, 0, 0, t, 0, x, y] = None"
    unfolding p by (simp add: code_of_def type_of_def subtype_of_def)
  then show ?thesis using p [of d] by blast
qed

end
