(* ===== verification/Eap_Aka.thy ===== *)
theory Eap_Aka
  imports Eap
begin

text \<open>
  The session of \<^verbatim>\<open>euicc/crypto/eap_aka.py\<close>: key derivation and the answer to a challenge, for EAP-AKA
  and EAP-AKA'. SHA-1 and the HMACs are arguments of which only the lengths of the digests are used.
\<close>

section \<open>Keys\<close>

record hashes =
  sha1 :: "bytes \<Rightarrow> bytes"
  hmac1 :: "bytes \<Rightarrow> bytes \<Rightarrow> bytes"
  hmac256 :: "bytes \<Rightarrow> bytes \<Rightarrow> bytes"

definition hashes_ok :: "hashes \<Rightarrow> bool" where
  "hashes_ok h \<longleftrightarrow> (\<forall>d. length (sha1 h d) = 20) \<and> (\<forall>k d. length (hmac1 h k d) = 20) \<and> (\<forall>k d. length (hmac256 h k d) = 32)"

text \<open>\<^verbatim>\<open>bytes([counter])\<close> raises ValueError above 255, which also ends the loop.\<close>

function prf_loop :: "(bytes \<Rightarrow> bytes) \<Rightarrow> nat \<Rightarrow> nat \<Rightarrow> bytes \<Rightarrow> bytes \<Rightarrow> bytes res" where
  "prf_loop mac n counter prev result =
     (if length result < n then
        (if counter > 255 then Inl ValueError
         else let t = mac (prev @ [word_of_nat counter]) in prf_loop mac n (counter + 1) t (result @ t))
      else Inr (take n result))"
  by pat_completeness auto
termination by (relation "measure (\<lambda>(mac, n, counter, prev, result). 256 - counter)") auto

declare prf_loop.simps [simp del]

definition prf_plus :: "hashes \<Rightarrow> bytes \<Rightarrow> nat \<Rightarrow> bytes res" where
  "prf_plus h key n = prf_loop (hmac1 h key) n 1 [] []"

definition prf_prime_plus :: "hashes \<Rightarrow> bytes \<Rightarrow> nat \<Rightarrow> bytes res" where
  "prf_prime_plus h key n = prf_loop (hmac256 h key) n 1 [] []"

record eap_session =
  es_mil :: milenage
  es_imsi :: ustr
  es_sqn :: int
  es_prime :: bool
  es_network :: ustr
  es_mk :: "bytes option"
  es_k_aut :: "bytes option"
  es_k_encr :: "bytes option"
  es_msk :: "bytes option"
  es_emsk :: "bytes option"
  es_ck :: bytes
  es_ik :: bytes
  es_res :: bytes

definition new_session :: "bytes \<Rightarrow> bytes \<Rightarrow> ustr \<Rightarrow> int \<Rightarrow> bool \<Rightarrow> ustr \<Rightarrow> eap_session res" where
  "new_session ki opc imsi sqn use_prime network = rbind (mil_init ki opc) (\<lambda>m. Inr \<lparr>es_mil = m, es_imsi = imsi, es_sqn = sqn,
     es_prime = use_prime, es_network = network, es_mk = None, es_k_aut = None, es_k_encr = None, es_msk = None, es_emsk = None,
     es_ck = [], es_ik = [], es_res = []\<rparr>)"

definition derive_keys_aka :: "hashes \<Rightarrow> eap_session \<Rightarrow> eap_session \<times> unit res" where
  "derive_keys_aka h s =
     (case utf8_encode (48 # es_imsi s) of Inl e \<Rightarrow> (s, Inl e)
      | Inr ident \<Rightarrow>
        let mk = sha1 h (ident @ es_ik s @ es_ck s); s1 = s\<lparr>es_mk := Some mk\<rparr> in
        (case prf_plus h mk 160 of Inl e \<Rightarrow> (s1, Inl e)
         | Inr prk \<Rightarrow> (s1\<lparr>es_k_encr := Some (slice prk 0 16), es_k_aut := Some (slice prk 16 32), es_msk := Some (slice prk 32 96),
             es_emsk := Some (slice prk 96 160)\<rparr>, Inr ())))"

text \<open>CK' and IK': the HMAC over the function code, the network name and the RAND with their lengths.\<close>

definition prime_keys :: "hashes \<Rightarrow> ustr \<Rightarrow> bytes \<Rightarrow> bytes \<Rightarrow> bytes \<Rightarrow> bytes res" where
  "prime_keys h network rand ck ik =
     rbind (if network = [] then Inr (map of_char ''WLAN'') else utf8_encode network) (\<lambda>name.
     rbind (pack 2 (int (length name))) (\<lambda>l1. rbind (pack 2 (int (length rand))) (\<lambda>l2.
     Inr (hmac256 h (ck @ ik) ([0x20] @ name @ l1 @ rand @ l2)))))"

definition derive_keys_aka_prime :: "hashes \<Rightarrow> bytes \<Rightarrow> eap_session \<Rightarrow> eap_session \<times> unit res" where
  "derive_keys_aka_prime h rand s =
     (case rbind (prime_keys h (es_network s) rand (es_ck s) (es_ik s)) (\<lambda>derived.
           rbind (utf8_encode (54 # es_imsi s)) (\<lambda>ident.
           Inr (hmac256 h (slice derived 16 32 @ take 16 derived) (map of_char ''EAP-AKA'' @ [39] @ ident)))) of
        Inl e \<Rightarrow> (s, Inl e)
      | Inr mk \<Rightarrow> let s1 = s\<lparr>es_mk := Some mk\<rparr> in
        (case prf_prime_plus h mk 208 of Inl e \<Rightarrow> (s1, Inl e)
         | Inr prk \<Rightarrow> (s1\<lparr>es_k_encr := Some (slice prk 0 16), es_k_aut := Some (slice prk 16 48), es_msk := Some (slice prk 64 128),
             es_emsk := Some (slice prk 128 192)\<rparr>, Inr ())))"

section \<open>The challenge\<close>

definition aka_type :: "eap_session \<Rightarrow> eap_type" where
  "aka_type s = (if es_prime s then TYPE_AKA_PRIME else TYPE_AKA)"

definition aka_response :: "eap_session \<Rightarrow> byte \<Rightarrow> aka_subtype \<Rightarrow> (byte \<times> bytes) list \<Rightarrow> eap_packet" where
  "aka_response s ident sub attrs = \<lparr>ep_code = EAP_RESPONSE, ep_id = ident, ep_type = Some (aka_type s), ep_sub = Some sub, ep_attrs = attrs\<rparr>"

definition make_sync_failure :: "eap_session \<Rightarrow> byte \<Rightarrow> bytes \<Rightarrow> eap_packet" where
  "make_sync_failure s ident auts = aka_response s ident SUB_SYNCHRONIZATION_FAILURE [(AT_AUTS, auts)]"

definition make_client_error :: "eap_session \<Rightarrow> byte \<Rightarrow> eap_packet" where
  "make_client_error s ident = aka_response s ident SUB_CLIENT_ERROR [(AT_CLIENT_ERROR_CODE, [0, 0])]"

definition compute_mac :: "hashes \<Rightarrow> eap_session \<Rightarrow> bytes \<Rightarrow> bytes" where
  "compute_mac h s data = take 16 ((if es_prime s then hmac256 else hmac1) h (the (es_k_aut s)) data)"

definition make_challenge_response :: "hashes \<Rightarrow> eap_session \<Rightarrow> byte \<Rightarrow> eap_packet res" where
  "make_challenge_response h s ident =
     rbind (pack 2 (int (length (es_res s) * 8))) (\<lambda>bits.
     let pkt = aka_response s ident SUB_CHALLENGE [(AT_RES, bits @ es_res s), (AT_MAC, replicate 18 0)] in
     if es_k_aut s = None \<or> es_k_aut s = Some [] then Inr pkt
     else rbind (eap_serialize pkt) (\<lambda>raw. Inr (pkt\<lparr>ep_attrs := dict_set AT_MAC ([0, 0] @ compute_mac h s raw) (ep_attrs pkt)\<rparr>)))"

text \<open>The MAC of the challenge is computed and not compared; serialising the challenge may raise.\<close>

definition process_challenge :: "aes \<Rightarrow> hashes \<Rightarrow> eap_packet \<Rightarrow> eap_session \<Rightarrow> eap_session \<times> eap_packet res" where
  "process_challenge aes h p s =
     (case (map_of (ep_attrs p) AT_RAND, map_of (ep_attrs p) AT_AUTN) of
        (Some rand0, Some autn0) \<Rightarrow>
          let rand = take 16 rand0; autn = take 16 autn0 in
          (case authenticate aes (es_mil s) rand autn (es_sqn s) of
             Inl e \<Rightarrow> (s, Inl e)
           | Inr None \<Rightarrow> (s, rbind (generate_auts aes (es_mil s) rand (es_sqn s)) (\<lambda>auts. Inr (make_sync_failure s (ep_id p) auts)))
           | Inr (Some (res, ck, ik)) \<Rightarrow>
               let s1 = s\<lparr>es_res := res, es_ck := ck, es_ik := ik\<rparr> in
               (case (if es_prime s then derive_keys_aka_prime h rand s1 else derive_keys_aka h s1) of
                  (s2, Inl e) \<Rightarrow> (s2, Inl e)
                | (s2, Inr _) \<Rightarrow>
                    (s2, rbind (if es_k_aut s2 \<notin> {None, Some []} \<and> take 16 (dict_get (ep_attrs p) AT_MAC []) \<noteq> []
                                then rbind (eap_serialize p) (\<lambda>_. Inr ()) else Inr ())
                           (\<lambda>_. make_challenge_response h s2 (ep_id p)))))
      | _ \<Rightarrow> (s, Inr (make_client_error s (ep_id p))))"

section \<open>The key stream\<close>

text \<open>The blocks \<open>T\<^sub>1 = mac [1]\<close>, \<open>T\<^sub>i = mac (T\<^sub>i\<^sub>-\<^sub>1 @ [i])\<close>.\<close>

fun prf_block :: "(bytes \<Rightarrow> bytes) \<Rightarrow> nat \<Rightarrow> bytes" where
  "prf_block mac 0 = []"
| "prf_block mac (Suc i) = mac (prf_block mac i @ [word_of_nat (Suc i)])"

definition prf_stream :: "(bytes \<Rightarrow> bytes) \<Rightarrow> nat \<Rightarrow> bytes" where
  "prf_stream mac k = concat (map (prf_block mac) [1..<Suc k])"

lemma prf_stream_Suc: "prf_stream mac (Suc k) = prf_stream mac k @ prf_block mac (Suc k)"
  by (simp add: prf_stream_def)

lemma length_prf_stream: "(\<And>d. length (mac d) = w) \<Longrightarrow> length (prf_stream mac k) = k * w"
  by (induction k) (simp_all add: prf_stream_Suc, simp add: prf_stream_def)

lemma prf_loop_stream:
  assumes w: "\<And>d. length (mac d) = w" "0 < w" and k: "n \<le> 255 * w" "i \<le> 255" "i * w < n + w"
  shows "prf_loop mac n (Suc i) (prf_block mac i) (prf_stream mac i) = Inr (take n (prf_stream mac 255))"
  using k
proof (induction "255 - i" arbitrary: i)
  have prefix: "take n (prf_stream mac i) = take n (prf_stream mac 255)" if "n \<le> i * w" "i \<le> 255" for i
  proof -
    have "[1..<256] = [1..<Suc i] @ [Suc i..<256]" using that(2) upt_add_eq_append [of 1 "Suc i" "255 - i"] by simp
    then have "prf_stream mac 255 = prf_stream mac i @ concat (map (prf_block mac) [Suc i..<256])"
      unfolding prf_stream_def by simp
    then show ?thesis using that(1) length_prf_stream [of mac w i, OF w(1)] by simp
  qed
  {
    case 0
    then have "i = 255" by simp
    with 0 show ?case using length_prf_stream [of mac w 255, OF w(1)] by (subst prf_loop.simps) simp
  next
    case (Suc m)
    show ?case
    proof (cases "i * w < n")
      case True
      then have "Suc i * w < n + w" by simp
      then have "prf_loop mac n (Suc (Suc i)) (prf_block mac (Suc i)) (prf_stream mac (Suc i)) = Inr (take n (prf_stream mac 255))"
        using Suc.hyps(1) [of "Suc i"] Suc.hyps(2) Suc.prems by simp
      then show ?thesis
        using True Suc.hyps(2) Suc.prems(2) by (subst prf_loop.simps) (simp add: Let_def length_prf_stream [of mac w i, OF w(1)] prf_stream_Suc)
    next
      case False
      then show ?thesis using prefix [of i] Suc.prems by (subst prf_loop.simps) (simp add: length_prf_stream [of mac w i, OF w(1)])
    qed
  }
qed

lemma prf_plus_stream:
  assumes "hashes_ok h"
  shows "n \<le> 5100 \<Longrightarrow> prf_plus h key n = Inr (take n (prf_stream (hmac1 h key) 255))"
    and "n \<le> 8160 \<Longrightarrow> prf_prime_plus h key n = Inr (take n (prf_stream (hmac256 h key) 255))"
proof -
  have l: "length (hmac1 h key d) = 20" "length (hmac256 h key d) = 32" for d using assms by (simp_all add: hashes_ok_def)
  show "n \<le> 5100 \<Longrightarrow> prf_plus h key n = Inr (take n (prf_stream (hmac1 h key) 255))"
    using prf_loop_stream [of "hmac1 h key" 20 n 0] l by (simp add: prf_plus_def prf_stream_def)
  show "n \<le> 8160 \<Longrightarrow> prf_prime_plus h key n = Inr (take n (prf_stream (hmac256 h key) 255))"
    using prf_loop_stream [of "hmac256 h key" 32 n 0] l by (simp add: prf_prime_plus_def prf_stream_def)
qed

section \<open>Answering a challenge\<close>

text \<open>The session's keys as the network computes them from its own CK and IK.\<close>

definition network_keys :: "hashes \<Rightarrow> bool \<Rightarrow> bytes \<Rightarrow> bytes \<Rightarrow> bytes \<Rightarrow> bytes \<Rightarrow> bytes \<Rightarrow> bytes \<times> (bytes \<Rightarrow> bytes)" where
  "network_keys h prime imsi name rand ck ik =
     (if prime then
        let d = hmac256 h (ck @ ik) ([0x20] @ name @ be_bytes 2 (length name) @ rand @ be_bytes 2 (length rand));
            mk = hmac256 h (drop 16 d @ take 16 d) (map of_char ''EAP-AKA'' @ [39, 54] @ imsi) in (mk, hmac256 h mk)
      else let mk = sha1 h (48 # imsi @ ik @ ck) in (mk, hmac1 h mk))"

definition stream_at :: "(bytes \<Rightarrow> bytes) \<Rightarrow> nat \<Rightarrow> nat \<Rightarrow> bytes" where
  "stream_at mac i j = slice (prf_stream mac 255) i j"

text \<open>The session after key derivation.\<close>

definition keyed :: "hashes \<Rightarrow> eap_session \<Rightarrow> bytes \<Rightarrow> bytes \<Rightarrow> bytes \<Rightarrow> bytes \<times> bytes \<times> bytes \<Rightarrow> eap_session" where
  "keyed h s imsi name rand = (\<lambda>(res, ck, ik). let (mk, mac) = network_keys h (es_prime s) imsi name rand ck ik in
     s\<lparr>es_res := res, es_ck := ck, es_ik := ik, es_mk := Some mk, es_k_encr := Some (stream_at mac 0 16),
       es_k_aut := Some (if es_prime s then stream_at mac 16 48 else stream_at mac 16 32),
       es_msk := Some (if es_prime s then stream_at mac 64 128 else stream_at mac 32 96),
       es_emsk := Some (if es_prime s then stream_at mac 128 192 else stream_at mac 96 160)\<rparr>)"

lemma slice_take: "j \<le> n \<Longrightarrow> slice (take n xs) i j = slice xs i j"
  by (simp add: slice_def drop_take min_def)

lemma utf8_ascii_cons: "c < 128 \<Longrightarrow> utf8_encode t = Inr bs \<Longrightarrow> utf8_encode (c # t) = Inr (word_of_nat c # bs)"
  by (auto simp: utf8_encode_def utf8_of_def split: if_splits)

lemma derive_keyed:
  assumes "hashes_ok h" "utf8_encode (es_imsi s) = Inr imsi" "length rand = 16"
    and "utf8_encode (if es_network s = [] then ustr ''WLAN'' else es_network s) = Inr name" "length name < 65536"
    and s1_def: "s1 = s\<lparr>es_res := res, es_ck := ck, es_ik := ik\<rparr>"
  shows "(if es_prime s then derive_keys_aka_prime h rand s1 else derive_keys_aka h s1) = (keyed h s imsi name rand (res, ck, ik), Inr ())"
proof (cases "es_prime s")
  case False
  have "utf8_encode (48 # es_imsi s) = Inr (48 # imsi)" using utf8_ascii_cons [OF _ assms(2), of 48] by simp
  with False show ?thesis
    using prf_plus_stream(1) [OF assms(1)]
    by (simp add: s1_def derive_keys_aka_def keyed_def network_keys_def Let_def slice_take stream_at_def)
next
  case True
  let ?d = "hmac256 h (ck @ ik) ([0x20] @ name @ be_bytes 2 (length name) @ rand @ be_bytes 2 (length rand))"
  let ?mk = "hmac256 h (drop 16 ?d @ take 16 ?d) (map of_char ''EAP-AKA'' @ [39, 54] @ imsi)"
  have u: "utf8_encode (54 # es_imsi s) = Inr (54 # imsi)" using utf8_ascii_cons [OF _ assms(2), of 54] by simp
  have sl: "slice ?d 16 32 = drop 16 ?d" using assms(1) by (simp add: hashes_ok_def slice_def)
  have "utf8_encode (ustr ''WLAN'') = Inr (map of_char ''WLAN'')" by (simp add: utf8_encode_def utf8_of_def ustr_simps unicode_text_def)
  then have "(if es_network s = [] then Inr (map of_char ''WLAN'') else utf8_encode (es_network s)) = Inr name"
    using assms(4) by (simp split: if_splits)
  moreover have "pack 2 (int (length name)) = Inr (be_bytes 2 (length name))" "pack 2 (int (length rand)) = Inr (be_bytes 2 (length rand))"
    using assms(3,5) by (simp_all add: pack_def)
  ultimately have d: "prime_keys h (es_network s) rand ck ik = Inr ?d" unfolding prime_keys_def by (simp only: rbind_simps)
  have "derive_keys_aka_prime h rand s1 = (keyed h s imsi name rand (res, ck, ik), Inr ())"
    using True prf_plus_stream(2) [OF assms(1), of 208 ?mk]
    by (simp add: s1_def derive_keys_aka_prime_def d u sl del: append_Cons append.simps)
      (simp add: keyed_def network_keys_def True Let_def slice_take stream_at_def)
  with True show ?thesis by simp
qed

definition es_ok :: "eap_session \<Rightarrow> bytes \<Rightarrow> bytes \<Rightarrow> bool" where
  "es_ok s imsi name \<longleftrightarrow> utf8_encode (es_imsi s) = Inr imsi \<and> length name < 65536
     \<and> utf8_encode (if es_network s = [] then ustr ''WLAN'' else es_network s) = Inr name"

text \<open>The response of a session with keys, and the packet its MAC is computed over.\<close>

definition unsigned_answer :: "eap_session \<Rightarrow> byte \<Rightarrow> eap_packet" where
  "unsigned_answer s ident = aka_response s ident SUB_CHALLENGE [(AT_RES, be_bytes 2 (length (es_res s) * 8) @ es_res s), (AT_MAC, replicate 18 0)]"

definition signed_answer :: "hashes \<Rightarrow> eap_session \<Rightarrow> byte \<Rightarrow> bytes \<Rightarrow> eap_packet" where
  "signed_answer h s ident raw = aka_response s ident SUB_CHALLENGE
     [(AT_RES, be_bytes 2 (length (es_res s) * 8) @ es_res s), (AT_MAC, [0, 0] @ compute_mac h s raw)]"

lemma answers_ok:
  assumes "length (es_res s) = 8"
  shows "packet_ok (unsigned_answer s ident)" and "length (compute_mac h s raw) \<le> 16 \<Longrightarrow> packet_ok (signed_answer h s ident raw)"
proof -
  have w: "length (attr_wire (t, v)) < length v + 8" for t v
    using padded_len_props(3) [of "length v"] by (simp add: length_attr_wire)
  have "packet_ok (aka_response s ident SUB_CHALLENGE [(AT_RES, v), (AT_MAC, v')])" if "length v \<le> 100" "length v' \<le> 100" for v v'
    using that w [of AT_RES v] w [of AT_MAC v'] by (simp add: packet_ok_def aka_response_def dict_ok_def attr_ok_def)
  then show "packet_ok (unsigned_answer s ident)" "length (compute_mac h s raw) \<le> 16 \<Longrightarrow> packet_ok (signed_answer h s ident raw)"
    using assms by (simp_all add: unsigned_answer_def signed_answer_def)
qed

lemma process_keyed:
  assumes "aes_ok aes" "mil_ok (es_mil s)" "hashes_ok h" "length rand = 16" "sqn_ok sqn" "length amf = 2"
    and "aka_vector aes (es_mil s) rand sqn amf = Inr (autn, res, ck, ik)" "es_sqn s \<le> sqn" "es_ok s imsi name"
    and "map_of (ep_attrs p) AT_RAND = Some (rand @ x)" "map_of (ep_attrs p) AT_AUTN = Some (autn @ y)" "packet_ok p"
  defines "s' \<equiv> keyed h s imsi name rand (res, ck, ik)"
  shows "\<exists>raw. eap_serialize (unsigned_answer s' (ep_id p)) = Inr raw \<and> length (es_res s') = 8
    \<and> process_challenge aes h p s = (s', Inr (signed_answer h s' (ep_id p) raw))"
proof -
  obtain autn' res' ck' ik' where "aka_vector aes (es_mil s) rand sqn amf = Inr (autn', res', ck', ik')" "length autn' = 16" "length res' = 8"
    using mil_aka.vector_total [of "(aes, es_mil s)" rand sqn amf] assms(1-6) by (auto simp: usim_defs rand_ok_def)
  then have l: "length autn = 16" "length res = 8" using assms(7) by auto
  have a: "authenticate aes (es_mil s) rand autn (es_sqn s) = Inr (Some (res, ck, ik))"
    using mil_aka.accepts [of "(aes, es_mil s)" rand sqn amf autn "(res, ck, ik)" "es_sqn s"] assms(1-8) by (simp add: usim_defs rand_ok_def)
  have k: "(if es_prime s then derive_keys_aka_prime h rand (s\<lparr>es_res := res, es_ck := ck, es_ik := ik\<rparr>)
      else derive_keys_aka h (s\<lparr>es_res := res, es_ck := ck, es_ik := ik\<rparr>)) = (s', Inr ())"
    unfolding s'_def using assms(3,4,9) by (intro derive_keyed) (simp_all add: es_ok_def)
  have r: "es_res s' = res" "es_prime s' = es_prime s" by (simp_all add: s'_def keyed_def split_beta Let_def)
  have "length (stream_at mac 16 j) \<noteq> 0" if "j \<in> {32, 48}" "mac = hmac1 h key \<or> mac = hmac256 h key" for mac j key
    using that assms(3) length_prf_stream [of mac 20 255] length_prf_stream [of mac 32 255] by (auto simp: stream_at_def length_slice hashes_ok_def)
  then have key: "es_k_aut s' \<noteq> None" "es_k_aut s' \<noteq> Some []"
    by (auto simp: s'_def keyed_def split_beta Let_def network_keys_def)
  obtain raw where raw: "eap_serialize (unsigned_answer s' (ep_id p)) = Inr raw"
    using eap_dec_enc [OF answers_ok(1)] l r by metis
  have "\<exists>bs. eap_serialize p = Inr bs" using eap_dec_enc [OF assms(12)] by blast
  moreover have "make_challenge_response h s' (ep_id p) = Inr (signed_answer h s' (ep_id p) raw)"
    using raw l r key by (simp add: make_challenge_response_def pack_def unsigned_answer_def signed_answer_def) (auto simp: aka_response_def Let_def)
  ultimately have "process_challenge aes h p s = (s', Inr (signed_answer h s' (ep_id p) raw))"
    using assms(4,10,11) l a k by (auto simp: process_challenge_def Let_def)
  then show ?thesis using raw l r by blast
qed


text \<open>
  The MAC of a challenge counts for nothing, and an answered challenge is answered again: every
  packet with the same identifier, RAND and AUTN gets the same response and the same keys, and the
  session does not move its sequence number.
\<close>

theorem eap_mac_unchecked:
  assumes "aes_ok aes" "mil_ok (es_mil s)" "hashes_ok h" "length rand = 16" "sqn_ok sqn" "length amf = 2"
    and "aka_vector aes (es_mil s) rand sqn amf = Inr (autn, res, ck, ik)" "es_sqn s \<le> sqn" "es_ok s imsi name"
    and "map_of (ep_attrs p) AT_RAND = Some (rand @ x)" "map_of (ep_attrs p) AT_AUTN = Some (autn @ y)" "packet_ok p"
    and "map_of (ep_attrs p') AT_RAND = Some (rand @ x')" "map_of (ep_attrs p') AT_AUTN = Some (autn @ y')" "packet_ok p'" "ep_id p' = ep_id p"
  shows "process_challenge aes h p' s = process_challenge aes h p s
    \<and> (\<exists>s' resp. process_challenge aes h p s = (s', Inr resp) \<and> es_sqn s' = es_sqn s \<and> process_challenge aes h p' s' = (s', Inr resp))"
proof -
  let ?s = "keyed h s imsi name rand (res, ck, ik)"
  have same: "es_mil ?s = es_mil s" "es_sqn ?s = es_sqn s" "es_imsi ?s = es_imsi s" "es_network ?s = es_network s" "es_prime ?s = es_prime s"
    by (simp_all add: keyed_def split_beta Let_def)
  have idem: "keyed h ?s imsi name rand (res, ck, ik) = ?s" by (simp add: keyed_def Let_def split_beta)
  have ok: "es_ok ?s imsi name" using assms(9) by (simp only: es_ok_def same)
  show ?thesis
    using process_keyed [OF assms(1-12)] process_keyed [OF assms(1-9,13-15)]
      process_keyed [OF assms(1) _ assms(3-6) _ _ ok assms(13-15)] assms(2,7,8,16) by (auto simp: same idem)
qed

definition sample_hashes :: hashes where
  "sample_hashes = \<lparr>sha1 = \<lambda>d. replicate 20 (word_of_nat (length d)), hmac1 = \<lambda>k d. replicate 20 (word_of_nat (length k + length d)),
     hmac256 = \<lambda>k d. replicate 32 (word_of_nat (length k + length d))\<rparr>"

definition sample_session :: eap_session where
  "sample_session = \<lparr>es_mil = sample_mil, es_imsi = ustr ''001010000000001'', es_sqn = 32, es_prime = False, es_network = [],
     es_mk = None, es_k_aut = None, es_k_encr = None, es_msk = None, es_emsk = None, es_ck = [], es_ik = [], es_res = []\<rparr>"

definition sample_challenge :: "bytes \<Rightarrow> bytes \<Rightarrow> eap_packet" where
  "sample_challenge autn mac = \<lparr>ep_code = EAP_REQUEST, ep_id = 1, ep_type = Some TYPE_AKA, ep_sub = Some SUB_CHALLENGE,
     ep_attrs = [(AT_RAND, sample_rand), (AT_AUTN, autn), (AT_MAC, mac)]\<rparr>"

lemma sample_challenge_ok:
  assumes "aka_vector sample_aes sample_mil sample_rand 32 [128, 0] = Inr (autn, keys)" "length mac \<le> 16"
  shows "packet_ok (sample_challenge autn mac)" and "hashes_ok sample_hashes" and "\<exists>imsi name. es_ok sample_session imsi name"
    and "map_of (ep_attrs (sample_challenge autn mac)) AT_RAND = Some (sample_rand @ [])"
    and "map_of (ep_attrs (sample_challenge autn mac)) AT_AUTN = Some (autn @ [])"
proof -
  obtain r c i ak m where "aka_vector sample_aes sample_mil sample_rand 32 [128, 0] = Inr (xor_bytes (be_bytes 6 (nat 32)) ak @ [128, 0] @ m, r, c, i)"
    "length ak = 6" "length m = 8"
    using aka_vector_total [OF sample_ok] .
  then have "length autn = 16" using assms(1) by (simp only: sum.inject prod.inject) auto
  moreover have "length (attr_wire (t, v)) < length v + 8" for t v
    using padded_len_props(3) [of "length v"] by (simp add: length_attr_wire)
  from this [of AT_RAND sample_rand] this [of AT_AUTN autn] this [of AT_MAC mac]
  have "length (attr_wire (AT_RAND, sample_rand)) < 24" "length (attr_wire (AT_AUTN, autn)) < 24" "length (attr_wire (AT_MAC, mac)) < 24"
    using sample_ok(3) assms(2) calculation by simp_all
  ultimately show "packet_ok (sample_challenge autn mac)"
    using assms(2) sample_ok(3) by (simp add: packet_ok_def sample_challenge_def dict_ok_def attr_ok_def)
  show "hashes_ok sample_hashes" by (simp add: hashes_ok_def sample_hashes_def)
  obtain bs where "utf8_encode (ustr ''001010000000001'') = Inr bs" using utf8_roundtrip [of "ustr ''001010000000001''"] by auto
  moreover have "utf8_encode (ustr ''WLAN'') = Inr (map of_char ''WLAN'')" by (simp add: utf8_encode_def utf8_of_def ustr_simps unicode_text_def)
  ultimately show "\<exists>imsi name. es_ok sample_session imsi name" by (simp add: es_ok_def sample_session_def)
  show "map_of (ep_attrs (sample_challenge autn mac)) AT_RAND = Some (sample_rand @ [])"
    "map_of (ep_attrs (sample_challenge autn mac)) AT_AUTN = Some (autn @ [])" by (simp_all add: sample_challenge_def)
qed


theorem eap_mac_unchecked_witness:
  "\<exists>autn. process_challenge sample_aes sample_hashes (sample_challenge autn (replicate 16 1)) sample_session =
     process_challenge sample_aes sample_hashes (sample_challenge autn []) sample_session"
proof -
  obtain autn res ck ik where v: "aka_vector sample_aes sample_mil sample_rand 32 [128, 0] = Inr (autn, res, ck, ik)"
    using sample_vector by (metis prod_cases3)
  have s: "mil_ok (es_mil sample_session)" "es_mil sample_session = sample_mil" "es_sqn sample_session \<le> 32"
    using sample_ok(2) by (simp_all add: sample_session_def)
  obtain imsi name where "es_ok sample_session imsi name" using sample_challenge_ok(3) [OF v, of "[]"] by auto
  with eap_mac_unchecked [OF sample_ok(1) s(1) _ sample_ok(3-5) _ s(3), of sample_hashes autn res ck ik imsi name
      "sample_challenge autn []" "[]" "[]" "sample_challenge autn (replicate 16 1)" "[]" "[]"]
    sample_challenge_ok [OF v, of "[]"] sample_challenge_ok [OF v, of "replicate 16 1"] v s(2)
  show ?thesis by (auto simp: sample_challenge_def)
qed

end
