(* ===== verification/Coroutine.thy ===== *)
theory Coroutine
  imports Prelude
begin

text \<open>
  Python coroutines over a shared state \<open>'s\<close>. A coroutine runs until it returns, raises, or waits
  for a future; then it is the future's number and the continuation that the event loop resumes
  with the outcome \<open>'r\<close> and the state of that moment, which other tasks may have changed.
\<close>

datatype ('s, 'r, 'a) co = Ret 'a | Exc exn | Wait nat "'r \<Rightarrow> 's \<Rightarrow> 's \<times> ('s, 'r, 'a) co"

type_synonym ('s, 'r, 'a) proc = "'s \<Rightarrow> 's \<times> ('s, 'r, 'a) co"

definition ret :: "'a \<Rightarrow> ('s, 'r, 'a) proc" where
  "ret x = (\<lambda>s. (s, Ret x))"

definition throw :: "exn \<Rightarrow> ('s, 'r, 'a) proc" where
  "throw e = (\<lambda>s. (s, Exc e))"

definition act :: "('s \<Rightarrow> 's) \<Rightarrow> ('s, 'r, unit) proc" where
  "act f = (\<lambda>s. (f s, Ret ()))"

definition read :: "('s \<Rightarrow> ('s, 'r, 'a) proc) \<Rightarrow> ('s, 'r, 'a) proc" where
  "read k = (\<lambda>s. k s s)"

text \<open>A statement without a wait that may raise.\<close>

definition effect :: "('s \<Rightarrow> 's \<times> 'a res) \<Rightarrow> ('s, 'r, 'a) proc" where
  "effect f = (\<lambda>s. case f s of (s', Inl e) \<Rightarrow> (s', Exc e) | (s', Inr x) \<Rightarrow> (s', Ret x))"

primrec co_bind :: "('s, 'r, 'a) co \<Rightarrow> ('a \<Rightarrow> ('s, 'r, 'b) proc) \<Rightarrow> ('s, 'r, 'b) proc" where
  "co_bind (Ret x) k = k x"
| "co_bind (Exc e) k = (\<lambda>s. (s, Exc e))"
| "co_bind (Wait f c) k =
     (\<lambda>s. (s, Wait f (\<lambda>r s. case map_prod id (\<lambda>x. co_bind x k) (c r s) of (s', g) \<Rightarrow> g s')))"

definition cbind :: "('s, 'r, 'a) proc \<Rightarrow> ('a \<Rightarrow> ('s, 'r, 'b) proc) \<Rightarrow> ('s, 'r, 'b) proc" where
  "cbind m k = (\<lambda>s. case m s of (s', x) \<Rightarrow> co_bind x k s')"

abbreviation seq :: "('s, 'r, 'a) proc \<Rightarrow> ('s, 'r, 'b) proc \<Rightarrow> ('s, 'r, 'b) proc" where
  "seq m k \<equiv> cbind m (\<lambda>_. k)"

definition ignore :: "('s, 'r, 'a) proc \<Rightarrow> ('s, 'r, unit) proc" where
  "ignore m = seq m (ret ())"

text \<open>\<^verbatim>\<open>for x in xs: body\<close> over a list that is copied before the loop.\<close>

primrec each :: "('a \<Rightarrow> ('s, 'r, unit) proc) \<Rightarrow> 'a list \<Rightarrow> ('s, 'r, unit) proc" where
  "each f [] = ret ()"
| "each f (x # xs) = seq (f x) (each f xs)"

lemma ret_run [simp]: "ret x s = (s, Ret x)"
  by (simp add: ret_def)

lemma throw_run [simp]: "throw e s = (s, Exc e)"
  by (simp add: throw_def)

lemma act_run [simp]: "act f s = (f s, Ret ())"
  by (simp add: act_def)

lemma read_run [simp]: "read k s = k s s"
  by (simp add: read_def)

lemma effect_run: "effect f s = (case f s of (s', Inl e) \<Rightarrow> (s', Exc e) | (s', Inr x) \<Rightarrow> (s', Ret x))"
  by (simp add: effect_def)

lemma cbind_ret [simp]: "m s = (s', Ret x) \<Longrightarrow> cbind m k s = k x s'"
  by (simp add: cbind_def)

lemma cbind_exc [simp]: "m s = (s', Exc e) \<Longrightarrow> cbind m k s = (s', Exc e)"
  by (simp add: cbind_def)

lemma cbind_wait [simp]: "m s = (s', Wait f c) \<Longrightarrow> cbind m k s = (s', Wait f (\<lambda>r. cbind (c r) k))"
  by (simp add: cbind_def case_prod_beta fun_eq_iff)

lemma cbind_act [simp]: "cbind (act f) k s = k () (f s)"
  by simp

lemma cbind_ret_left [simp]: "cbind (ret x) k = k x"
  by (rule ext) simp

lemma cbind_assoc: "cbind (cbind m k) l = cbind m (\<lambda>x. cbind (k x) l)"
proof -
  have b: "co_bind x k s = (s', y) \<Longrightarrow> co_bind y l s' = co_bind x (\<lambda>x. cbind (k x) l) s" for x s s' y
  proof (induction x arbitrary: s s' y)
    case (Wait f c)
    have "(case co_bind (snd (c r q)) k (fst (c r q)) of (s', y) \<Rightarrow> co_bind y l s') =
        co_bind (snd (c r q)) (\<lambda>x. cbind (k x) l) (fst (c r q))" for r q
      using Wait.IH [OF rangeI [of c r] rangeI [of "c r" q], of "snd (c r q)" "fst (c r q)"]
      by (cases "co_bind (snd (c r q)) k (fst (c r q))") (simp add: prod_set_defs)
    with Wait.prems show ?case by (auto simp: cbind_def case_prod_beta fun_eq_iff)
  qed (auto simp: cbind_def)
  show ?thesis
    by (rule ext) (simp add: cbind_def b split: prod.split)
qed

section \<open>Invariants\<close>

text \<open>
  \<open>keeps P m\<close>: between any two waits, whatever the other tasks do while they keep \<open>P\<close>, the
  coroutine keeps \<open>P\<close>.
\<close>

inductive safe :: "('s \<Rightarrow> bool) \<Rightarrow> ('s, 'r, 'a) co \<Rightarrow> bool" for P where
  safe_Ret: "safe P (Ret x)"
| safe_Exc: "safe P (Exc e)"
| safe_Wait: "(\<And>r s. P s \<Longrightarrow> P (fst (c r s)) \<and> safe P (snd (c r s))) \<Longrightarrow> safe P (Wait f c)"

inductive_simps safe_simps [simp]: "safe P (Ret x)" "safe P (Exc e)" "safe P (Wait f c)"

definition keeps :: "('s \<Rightarrow> bool) \<Rightarrow> ('s, 'r, 'a) proc \<Rightarrow> bool" where
  "keeps P m \<longleftrightarrow> (\<forall>s. P s \<longrightarrow> P (fst (m s)) \<and> safe P (snd (m s)))"

lemma safe_bind:
  assumes "safe P x" "\<And>v. keeps P (k v)" "P s"
  shows "P (fst (co_bind x k s)) \<and> safe P (snd (co_bind x k s))"
  using assms
proof (induction arbitrary: s rule: safe.induct)
  case (safe_Wait c f)
  then show ?case by (auto simp: case_prod_beta)
qed (auto simp: keeps_def)

named_theorems keeping "rules for keeps"

lemma keeps_bind [keeping]: "keeps P m \<Longrightarrow> (\<And>x. keeps P (k x)) \<Longrightarrow> keeps P (cbind m k)"
  unfolding keeps_def cbind_def using safe_bind [of P _ k] by (fastforce simp: keeps_def split: prod.split)

lemma keeps_ret [keeping]: "keeps P (ret x)" and keeps_throw [keeping]: "keeps P (throw e)"
  by (simp_all add: keeps_def)

lemma keeps_act [keeping]: "(\<And>s. P s \<Longrightarrow> P (f s)) \<Longrightarrow> keeps P (act f)"
  by (simp add: keeps_def)

lemma keeps_read [keeping]: "(\<And>s. P s \<Longrightarrow> keeps P (k s)) \<Longrightarrow> keeps P (read k)"
  by (simp add: keeps_def)

lemma keeps_effect: "(\<And>s. P s \<Longrightarrow> P (fst (f s))) \<Longrightarrow> keeps P (effect f)"
  by (force simp: keeps_def effect_def split: prod.split sum.split)

lemma keeps_ignore [keeping]: "keeps P m \<Longrightarrow> keeps P (ignore m)"
  unfolding ignore_def by (intro keeping)

lemma keeps_each [keeping]: "(\<And>x. x \<in> set xs \<Longrightarrow> keeps P (f x)) \<Longrightarrow> keeps P (each f xs)"
  by (induction xs) (auto intro!: keeping)

lemma keeps_if [keeping]: "(b \<Longrightarrow> keeps P m) \<Longrightarrow> (\<not> b \<Longrightarrow> keeps P m') \<Longrightarrow> keeps P (if b then m else m')"
  by simp

lemma keeps_option [keeping]:
  "(x = None \<Longrightarrow> keeps P m) \<Longrightarrow> (\<And>y. x = Some y \<Longrightarrow> keeps P (k y)) \<Longrightarrow> keeps P (case x of None \<Rightarrow> m | Some y \<Rightarrow> k y)"
  by (cases x) auto

lemma keeps_sum [keeping]:
  "(\<And>e. x = Inl e \<Longrightarrow> keeps P (m e)) \<Longrightarrow> (\<And>y. x = Inr y \<Longrightarrow> keeps P (k y)) \<Longrightarrow> keeps P (case x of Inl e \<Rightarrow> m e | Inr y \<Rightarrow> k y)"
  by (cases x) auto

section \<open>Bounded waiting\<close>

text \<open>On no path, whatever the waits give and other tasks do, are there more than \<open>n\<close> waits.\<close>

inductive waits :: "nat \<Rightarrow> ('s, 'r, 'a) co \<Rightarrow> bool" where
  waits_Ret: "waits n (Ret x)"
| waits_Exc: "waits n (Exc e)"
| waits_Wait: "(\<And>r s. waits n (snd (c r s))) \<Longrightarrow> waits (Suc n) (Wait f c)"

inductive_simps waits_simps [simp]: "waits n (Ret x)" "waits n (Exc e)" "waits n (Wait f c)"

definition within :: "nat \<Rightarrow> ('s, 'r, 'a) proc \<Rightarrow> bool" where
  "within n m \<longleftrightarrow> (\<forall>s. waits n (snd (m s)))"

lemma waits_mono: "waits n x \<Longrightarrow> n \<le> n' \<Longrightarrow> waits n' x"
proof (induction arbitrary: n' rule: waits.induct)
  case (waits_Wait n c f)
  then show ?case by (cases n') auto
qed simp_all

lemma waits_bind: "waits a x \<Longrightarrow> (\<And>v. within b (k v)) \<Longrightarrow> waits (a + b) (snd (co_bind x k s))"
proof (induction arbitrary: s rule: waits.induct)
  case (waits_Ret n x)
  then have "waits b (snd (k x s))" by (simp add: within_def)
  then show ?case using waits_mono [of b _ "n + b"] by simp
next
  case (waits_Wait n c f)
  then show ?case by (simp add: case_prod_beta)
qed simp

named_theorems waiting "rules for within"

lemma within_mono: "within a m \<Longrightarrow> a \<le> n \<Longrightarrow> within n m"
  using waits_mono by (auto simp: within_def)

lemma within_bind: "within a m \<Longrightarrow> (\<And>x. within b (k x)) \<Longrightarrow> within (a + b) (cbind m k)"
proof -
  assume m: "within a m" and k: "\<And>x. within b (k x)"
  have "waits (a + b) (snd (cbind m k s))" for s
  proof (cases "m s")
    case (Pair s' x)
    then have "waits a x" using m by (metis within_def snd_conv)
    from waits_bind [OF this, of b k s', OF k] Pair show ?thesis by (simp add: cbind_def)
  qed
  then show ?thesis by (simp add: within_def)
qed

lemma within_bind0 [waiting]: "within 0 m \<Longrightarrow> (\<And>x. within n (k x)) \<Longrightarrow> within n (cbind m k)"
  using within_bind [of 0 m n k] by simp

lemma within_base [waiting]: "within n (ret x)" "within n (throw e)" "within n (act f)" "within n (effect h)"
  by (simp_all add: within_def effect_def split: prod.split sum.split)

lemma within_read [waiting]: "(\<And>s. within n (k s)) \<Longrightarrow> within n (read k)"
  by (simp add: within_def)

lemma within_ignore [waiting]: "within n m \<Longrightarrow> within n (ignore m)"
  unfolding ignore_def using within_bind [of n m 0 "\<lambda>_. ret ()"] by (simp add: within_base)

lemma within_cases [waiting]:
  "(b \<Longrightarrow> within n m) \<Longrightarrow> (\<not> b \<Longrightarrow> within n m') \<Longrightarrow> within n (if b then m else m')"
  "within n m \<Longrightarrow> (\<And>y. within n (k y)) \<Longrightarrow> within n (case x of None \<Rightarrow> m | Some y \<Rightarrow> k y)"
  "(\<And>e. within n (h e)) \<Longrightarrow> (\<And>y. within n (k' y)) \<Longrightarrow> within n (case z of Inl e \<Rightarrow> h e | Inr y \<Rightarrow> k' y)"
  by (auto split: option.split sum.split)

lemma within_then: "within a m \<Longrightarrow> (\<And>x. within b (k x)) \<Longrightarrow> a + b \<le> n \<Longrightarrow> within n (cbind m k)"
  using within_mono [OF within_bind] by blast

lemma within_then1: "within n m \<Longrightarrow> (\<And>x. within 0 (k x)) \<Longrightarrow> within n (cbind m k)"
  using within_bind [of n m 0 k] by simp

lemma within_then_ret: "within n m \<Longrightarrow> within n (cbind m (\<lambda>x. ret (h x)))"
  by (rule within_then1) (simp_all add: within_base)

lemma withinD: "within n m \<Longrightarrow> waits n (snd (m s))"
  by (simp add: within_def)

lemma waits_then1: "waits n (snd (m s)) \<Longrightarrow> (\<And>x. within 0 (k x)) \<Longrightarrow> waits n (snd (cbind m k s))"
  using waits_bind [of n "snd (m s)" 0 k "fst (m s)"] by (simp add: cbind_def split_beta)

lemma within_each: "(\<And>x. x \<in> set xs \<Longrightarrow> within n (f x)) \<Longrightarrow> within (length xs * n) (each f xs)"
  by (induction xs) (auto intro: within_base within_bind)

section \<open>The event loop\<close>

type_synonym ('s, 'r) task = "nat \<times> ('r \<Rightarrow> 's \<Rightarrow> 's \<times> ('s, 'r, unit) co)"

text \<open>What is left of a task that has run: nothing, or a task that waits.\<close>

definition waiting_task :: "('s, 'r, unit) co \<Rightarrow> ('s, 'r) task list" where
  "waiting_task x = (case x of Wait f c \<Rightarrow> [(f, c)] | _ \<Rightarrow> [])"

lemma waiting_task_simps [simp]: "waiting_task (Ret x) = []" "waiting_task (Exc e) = []" "waiting_task (Wait f c) = [(f, c)]"
  by (simp_all add: waiting_task_def)

definition task_safe :: "('s \<Rightarrow> bool) \<Rightarrow> ('s, 'r) task \<Rightarrow> bool" where
  "task_safe P t \<longleftrightarrow> (\<forall>r s. P s \<longrightarrow> P (fst (snd t r s)) \<and> safe P (snd (snd t r s)))"

lemma waiting_task_safe: "safe P x \<Longrightarrow> t \<in> set (waiting_task x) \<Longrightarrow> task_safe P t"
  by (cases x) (auto simp: task_safe_def)

text \<open>One task resumed: it leaves the list, and what it still waits for joins it.\<close>

definition resume :: "nat \<Rightarrow> 'r \<Rightarrow> 's \<times> ('s, 'r) task list \<Rightarrow> 's \<times> ('s, 'r) task list" where
  "resume i r = (\<lambda>(s, ts). case snd (ts ! i) r s of (s', x) \<Rightarrow> (s', take i ts @ drop (Suc i) ts @ waiting_task x))"

definition spawn :: "('s, 'r, unit) proc \<Rightarrow> 's \<times> ('s, 'r) task list \<Rightarrow> 's \<times> ('s, 'r) task list" where
  "spawn m = (\<lambda>(s, ts). case m s of (s', x) \<Rightarrow> (s', ts @ waiting_task x))"

definition loop_inv :: "('s \<Rightarrow> bool) \<Rightarrow> 's \<times> ('s, 'r) task list \<Rightarrow> bool" where
  "loop_inv P = (\<lambda>(s, ts). P s \<and> (\<forall>t \<in> set ts. task_safe P t))"

lemma spawn_inv: "keeps P m \<Longrightarrow> loop_inv P st \<Longrightarrow> loop_inv P (spawn m st)"
  using waiting_task_safe [where P = P]
  by (cases st) (fastforce simp: loop_inv_def spawn_def keeps_def split: prod.split)

lemma resume_inv:
  assumes "loop_inv P st" "i < length (snd st)"
  shows "loop_inv P (resume i r st)"
proof -
  obtain s ts where st: "st = (s, ts)" by (cases st)
  with assms have p: "P s" and ts: "\<And>t. t \<in> set ts \<Longrightarrow> task_safe P t" and i: "i < length ts" by (auto simp: loop_inv_def)
  obtain s' x where r: "snd (ts ! i) r s = (s', x)" by fastforce
  have "P s' \<and> safe P x" using ts [OF nth_mem [OF i]] p r unfolding task_safe_def by (metis fst_conv snd_conv)
  moreover have "set (take i ts @ drop (Suc i) ts) \<subseteq> set ts" by (auto dest: in_set_takeD in_set_dropD)
  ultimately show ?thesis using ts r waiting_task_safe [of P x] unfolding st loop_inv_def resume_def by (auto; blast)
qed

end
