(* ===== verification/Supplementary.thy ===== *)
theory Supplementary
  imports Pystr Store
begin

text \<open>
  \<^verbatim>\<open>ims/supplementary.py\<close>: call forwarding rules and the USSD codes that edit them. A rule object is
  reached only through the dict of its manager, so the manager is the dict. Digits in codes are
  the ASCII ones.
\<close>

section \<open>Call forwarding\<close>

datatype cf_reason = UNCONDITIONAL | BUSY | NO_REPLY | NOT_REACHABLE | CF_ALL | ALL_CONDITIONAL

definition reason_value :: "cf_reason \<Rightarrow> int" where
  "reason_value r = (case r of UNCONDITIONAL \<Rightarrow> 0 | BUSY \<Rightarrow> 1 | NO_REPLY \<Rightarrow> 2 | NOT_REACHABLE \<Rightarrow> 3 | CF_ALL \<Rightarrow> 4 | ALL_CONDITIONAL \<Rightarrow> 5)"

definition reason_of :: "int \<Rightarrow> cf_reason res" where
  "reason_of n = (if n = 0 then Inr UNCONDITIONAL else if n = 1 then Inr BUSY else if n = 2 then Inr NO_REPLY
     else if n = 3 then Inr NOT_REACHABLE else if n = 4 then Inr CF_ALL else if n = 5 then Inr ALL_CONDITIONAL else Inl ValueError)"

definition reason_name :: "cf_reason \<Rightarrow> string" where
  "reason_name r = (case r of UNCONDITIONAL \<Rightarrow> ''UNCONDITIONAL'' | BUSY \<Rightarrow> ''BUSY'' | NO_REPLY \<Rightarrow> ''NO_REPLY''
     | NOT_REACHABLE \<Rightarrow> ''NOT_REACHABLE'' | CF_ALL \<Rightarrow> ''ALL'' | ALL_CONDITIONAL \<Rightarrow> ''ALL_CONDITIONAL'')"

lemma reason_of_value [simp]: "reason_of (reason_value r) = Inr r"
  by (cases r) (simp_all add: reason_of_def reason_value_def)

record cf_rule =
  cf_of :: cf_reason
  cf_enabled :: bool
  cf_number :: ustr
  cf_seconds :: int
  cf_class :: int

type_synonym cf_rules = "(cf_reason \<times> cf_rule) list"

text \<open>\<^verbatim>\<open>to_dict\<close>: status, reason, service class, number, time.\<close>

definition rule_dict :: "cf_rule \<Rightarrow> int \<times> int \<times> int \<times> ustr \<times> int" where
  "rule_dict r = (if cf_enabled r then 1 else 0, reason_value (cf_of r), cf_class r, cf_number r, cf_seconds r)"

definition set_rule :: "cf_reason \<Rightarrow> ustr \<Rightarrow> int \<Rightarrow> cf_rules \<Rightarrow> cf_rules" where
  "set_rule reason num time_seconds rules =
     dict_set reason \<lparr>cf_of = reason, cf_enabled = True, cf_number = num, cf_seconds = time_seconds, cf_class = 1\<rparr> rules"

definition switch_rule :: "bool \<Rightarrow> cf_reason \<Rightarrow> cf_rules \<Rightarrow> cf_rules \<times> bool" where
  "switch_rule on reason rules =
     (case map_of rules reason of None \<Rightarrow> (rules, False) | Some r \<Rightarrow> (dict_set reason (r\<lparr>cf_enabled := on\<rparr>) rules, True))"

definition enable_rule :: "cf_reason \<Rightarrow> cf_rules \<Rightarrow> cf_rules \<times> bool" where
  "enable_rule = switch_rule True"

definition disable_rule :: "cf_reason \<Rightarrow> cf_rules \<Rightarrow> cf_rules \<times> bool" where
  "disable_rule = switch_rule False"

definition erase_rule :: "cf_reason \<Rightarrow> cf_rules \<Rightarrow> cf_rules \<times> bool" where
  "erase_rule reason rules =
     (if reason = CF_ALL then ([], True)
      else if reason = ALL_CONDITIONAL then (dict_del NOT_REACHABLE (dict_del NO_REPLY (dict_del BUSY rules)), True)
      else (dict_del reason rules, reason \<in> fst ` set rules))"

definition query_rule :: "cf_reason \<Rightarrow> cf_rules \<Rightarrow> (int \<times> int \<times> int \<times> ustr \<times> int) list" where
  "query_rule reason rules =
     (if reason = CF_ALL then map (rule_dict \<circ> snd) rules
      else if reason = ALL_CONDITIONAL
        then map rule_dict (filter (\<lambda>r. cf_of r \<in> {BUSY, NO_REPLY, NOT_REACHABLE}) (map snd rules))
      else case map_of rules reason of None \<Rightarrow> [] | Some r \<Rightarrow> [rule_dict r])"

definition should_forward :: "cf_reason \<Rightarrow> cf_rules \<Rightarrow> ustr option" where
  "should_forward reason rules =
     (let active = (\<lambda>k. case map_of rules k of Some r \<Rightarrow> if cf_enabled r then Some (cf_number r) else None | None \<Rightarrow> None)
      in case active UNCONDITIONAL of Some n \<Rightarrow> Some n | None \<Rightarrow> active reason)"

section \<open>USSD\<close>

datatype ussd_state = USSD_IDLE | USSD_ACTIVE | USSD_PENDING

record ussd =
  us_session :: "(ussd_state \<times> ustr \<times> int) option"
  us_rules :: cf_rules
  us_imei :: ustr

definition new_ussd :: "cf_rules \<Rightarrow> ussd" where
  "new_ussd rules = \<lparr>us_session = None, us_rules = rules, us_imei = ustr ''358240051111110''\<rparr>"

definition set_imei :: "ustr \<Rightarrow> ussd \<Rightarrow> ussd" where
  "set_imei imei u = u\<lparr>us_imei := imei\<rparr>"

definition ussd_respond :: "int \<Rightarrow> ustr \<Rightarrow> ussd \<Rightarrow> ussd \<times> int \<times> ustr" where
  "ussd_respond typ message u =
     (u\<lparr>us_session := Some (if typ \<noteq> 1 then USSD_IDLE else USSD_ACTIVE, message, typ)\<rparr>, typ, message)"

definition cancel_ussd :: "ussd \<Rightarrow> ussd" where
  "cancel_ussd u = u\<lparr>us_session := None\<rparr>"

definition is_dig :: "nat \<Rightarrow> bool" where
  "is_dig c \<longleftrightarrow> 48 \<le> c \<and> c \<le> 57"

definition number_char :: "nat \<Rightarrow> bool" where
  "number_char c \<longleftrightarrow> c = 43 \<or> is_dig c"

text \<open>\<^verbatim>\<open>prefix(\d{2})#$\<close>; the code is stripped, so that nothing follows the hash.\<close>

definition match_code :: "ustr \<Rightarrow> ustr \<Rightarrow> ustr option" where
  "match_code pre s =
     (if take (length pre) s = pre then
        (case drop (length pre) s of [a, b, c] \<Rightarrow> if is_dig a \<and> is_dig b \<and> c = 35 then Some [a, b] else None | _ \<Rightarrow> None)
      else None)"

text \<open>\<^verbatim>\<open>\*\*?(\d{2})\*([+\d]+)#$\<close>.\<close>

definition match_set :: "ustr \<Rightarrow> (ustr \<times> ustr) option" where
  "match_set s =
     (case s of x # r \<Rightarrow> if x \<noteq> 42 then None else
        (case (case r of y # t \<Rightarrow> if y = 42 then t else r | [] \<Rightarrow> r) of
           a # b # c # t \<Rightarrow>
             let num = takeWhile number_char t in
             if is_dig a \<and> is_dig b \<and> c = 42 \<and> num \<noteq> [] \<and> dropWhile number_char t = [35] then Some ([a, b], num) else None
         | _ \<Rightarrow> None)
      | [] \<Rightarrow> None)"

definition cf_codes :: "(ustr \<times> cf_reason) list" where
  "cf_codes = [([50, 49], UNCONDITIONAL), ([54, 49], NO_REPLY), ([54, 50], NOT_REACHABLE), ([54, 55], BUSY)]"

definition code_reason :: "ustr option \<Rightarrow> cf_reason option" where
  "code_reason m = Option.bind m (map_of cf_codes)"

definition cf_text :: "cf_reason \<Rightarrow> string \<Rightarrow> ustr" where
  "cf_text r what = ustr ''Call Forwarding '' @ ustr (reason_name r) @ ustr '': '' @ ustr what"

definition cf_number_text :: "ustr \<Rightarrow> ustr" where
  "cf_number_text n = [10] @ ustr ''Number: '' @ n"

definition handle_cf_code :: "ustr \<Rightarrow> ussd \<Rightarrow> (ussd \<times> int \<times> ustr) option" where
  "handle_cf_code code u =
     (case code_reason (match_code [42, 35] code) of
        Some r \<Rightarrow> Some (case query_rule r (us_rules u) of
            (status, _, _, num, _) # _ \<Rightarrow>
              if status \<noteq> 0 then ussd_respond 0 (cf_text r ''Active'' @ cf_number_text num) u
              else ussd_respond 0 (cf_text r ''Not active'') u
          | [] \<Rightarrow> ussd_respond 0 (cf_text r ''Not active'') u)
      | None \<Rightarrow>
     (case match_set code of
        Some (sc, num) \<Rightarrow> (case map_of cf_codes sc of
            Some r \<Rightarrow> Some (ussd_respond 0 (cf_text r ''Registered'' @ cf_number_text num) (u\<lparr>us_rules := set_rule r num 20 (us_rules u)\<rparr>))
          | None \<Rightarrow> None)
      | None \<Rightarrow>
     (case code_reason (match_code [35] code) of
        Some r \<Rightarrow> Some (ussd_respond 0 (cf_text r ''Deactivated'') (u\<lparr>us_rules := fst (disable_rule r (us_rules u))\<rparr>))
      | None \<Rightarrow>
     (case code_reason (match_code [35, 35] code) of
        Some r \<Rightarrow> Some (ussd_respond 0 (cf_text r ''Erased'') (u\<lparr>us_rules := fst (erase_rule r (us_rules u))\<rparr>))
      | None \<Rightarrow> None))))"

definition send_ussd :: "ustr \<Rightarrow> ussd \<Rightarrow> ussd \<times> int \<times> ustr" where
  "send_ussd c u =
     (let code = strip c in
      if code = ustr ''*#06#'' \<or> code = ustr ''*#06*#'' then ussd_respond 0 (ustr ''IMEI: '' @ us_imei u) u
      else case handle_cf_code code u of
        Some r \<Rightarrow> r
      | None \<Rightarrow>
          if code = ustr ''*#*#4636#*#*'' then
            ussd_respond 0 (ustr ''Virtual Phone Info'' @ [10] @ ustr ''Network: LTE'' @ [10] @ ustr ''SIM: Active'') u
          else if code \<noteq> [] \<and> hd code = 42 \<and> last code = 35 \<and> length code \<le> 6 then
            ussd_respond 0 (ustr ''Balance: $50.00'' @ [10] @ ustr ''Valid until: 2025-12-31'') u
          else ussd_respond 2 (ustr ''USSD code not recognized'') u)"

section \<open>The state shown by the management interface\<close>

record supplementary_state =
  ss_rules :: "(int \<times> int \<times> int \<times> ustr \<times> int) list"
  ss_ussd_active :: bool
  ss_held :: int
  ss_conference :: int

definition update_supplementary_state :: "cf_rules option \<Rightarrow> int \<Rightarrow> int \<Rightarrow> supplementary_state \<Rightarrow> supplementary_state" where
  "update_supplementary_state cf held conf st =
     (case cf of None \<Rightarrow> st | Some rules \<Rightarrow> st\<lparr>ss_rules := map (rule_dict \<circ> snd) rules\<rparr>)\<lparr>ss_held := held, ss_conference := conf\<rparr>"

section \<open>What the codes do\<close>

lemma code_reason_ok: "code_reason (Some sc) = Some r \<Longrightarrow> \<exists>a b. sc = [a, b] \<and> is_dig a \<and> is_dig b"
  by (auto simp: code_reason_def cf_codes_def is_dig_def split: if_splits)

lemma codes_are_digits: "map_of cf_codes sc = Some r \<Longrightarrow> \<exists>a b. sc = [a, b] \<and> is_dig a \<and> is_dig b"
  by (auto simp: cf_codes_def is_dig_def split: if_splits)

lemma strip_code: "\<not> is_white a \<Longrightarrow> \<not> is_white b \<Longrightarrow> strip (a # s @ [b]) = a # s @ [b]"
  unfolding strip_def by (rule strip_of_id) (simp add: stripped_def)

lemma number_hash: "list_all number_char n \<Longrightarrow> takeWhile number_char (n @ [35]) = n \<and> dropWhile number_char (n @ [35]) = [35]"
  by (induction n) (simp_all add: number_char_def is_dig_def)

lemma ussd_respond_rules [simp]: "us_rules (fst (ussd_respond t m u)) = us_rules u" "fst (snd (ussd_respond t m u)) = t"
    "snd (snd (ussd_respond t m u)) = m"
  by (simp_all add: ussd_respond_def)

lemma stars_not_white: "\<not> is_white 42" "\<not> is_white 35"
  by (simp_all add: is_white_def)

text \<open>The rule a registration leaves behind.\<close>

definition registered_rule :: "cf_reason \<Rightarrow> ustr \<Rightarrow> cf_rule" where
  "registered_rule r n = \<lparr>cf_of = r, cf_enabled = True, cf_number = n, cf_seconds = 20, cf_class = 1\<rparr>"

lemma send_ussd_set:
  assumes "map_of cf_codes [a, b] = Some r" "n \<noteq> []" "list_all number_char n" "stars \<in> {[42], [42, 42]}"
  shows "send_ussd (stars @ [a, b, 42] @ n @ [35]) u =
    ussd_respond 0 (cf_text r ''Registered'' @ cf_number_text n) (u\<lparr>us_rules := dict_set r (registered_rule r n) (us_rules u)\<rparr>)"
proof -
  have d: "is_dig a" "is_dig b" using codes_are_digits [OF assms(1)] by auto
  then have ab: "a \<noteq> 42" "a \<noteq> 35" "b \<noteq> 35" "b \<noteq> 42" by (auto simp: is_dig_def)
  let ?s = "stars @ [a, b, 42] @ n @ [35]"
  have "strip ?s = ?s"
    using assms(4) strip_code [OF stars_not_white, of "[a, b, 42] @ n"] strip_code [OF stars_not_white, of "[42, a, b, 42] @ n"] by auto
  moreover have "match_set ?s = Some ([a, b], n)"
    using assms(2,4) d ab number_hash [OF assms(3)] by (auto simp: match_set_def Let_def)
  moreover have "match_code [42, 35] ?s = None" using assms(4) ab by (auto simp: match_code_def)
  moreover have "?s \<noteq> ustr ''*#06#'' \<and> ?s \<noteq> ustr ''*#06*#''" using assms(4) ab by (auto simp: ustr_simps)
  moreover have "code_reason None = None" by (simp add: code_reason_def)
  ultimately show ?thesis using assms(1) by (simp add: send_ussd_def handle_cf_code_def set_rule_def registered_rule_def)
qed

lemma send_ussd_code:
  assumes "map_of cf_codes [a, b] = Some r" "pre \<in> {[42, 35], [35], [35, 35]}" "handle_cf_code (pre @ [a, b, 35]) u = Some x"
  shows "send_ussd (pre @ [a, b, 35]) u = x"
proof -
  have "strip (pre @ [a, b, 35]) = pre @ [a, b, 35]"
    using assms(2) strip_code [OF stars_not_white, of "[35, a, b]"] strip_code [OF stars_not_white(2,2), of "[a, b]"]
      strip_code [OF stars_not_white(2,2), of "[35, a, b]"] by auto
  moreover have "[a, b] \<noteq> [48, 54]" using assms(1) by (auto simp: cf_codes_def)
  then have "pre @ [a, b, 35] \<noteq> ustr ''*#06#'' \<and> pre @ [a, b, 35] \<noteq> ustr ''*#06*#''"
    using assms(2) by (auto simp: ustr_simps)
  ultimately show ?thesis using assms(3) by (simp add: send_ussd_def)
qed

lemma send_ussd_edit:
  assumes "map_of cf_codes [a, b] = Some r" "map_of (us_rules u) r = Some x"
  shows "send_ussd [42, 35, a, b, 35] u = ussd_respond 0 (if cf_enabled x then cf_text r ''Active'' @ cf_number_text (cf_number x) else cf_text r ''Not active'') u"
    "send_ussd [35, a, b, 35] u = ussd_respond 0 (cf_text r ''Deactivated'') (u\<lparr>us_rules := dict_set r (x\<lparr>cf_enabled := False\<rparr>) (us_rules u)\<rparr>)"
    "send_ussd [35, 35, a, b, 35] u = ussd_respond 0 (cf_text r ''Erased'') (u\<lparr>us_rules := dict_del r (us_rules u)\<rparr>)"
proof -
  have d: "is_dig a" "is_dig b" using codes_are_digits [OF assms(1)] by auto
  have cr: "code_reason (Some [a, b]) = Some r" "code_reason None = None" using assms(1) by (simp_all add: code_reason_def)
  have r: "r \<notin> {CF_ALL, ALL_CONDITIONAL}" using assms(1) by (auto simp: cf_codes_def split: if_splits)
  show "send_ussd [42, 35, a, b, 35] u = ussd_respond 0 (if cf_enabled x then cf_text r ''Active'' @ cf_number_text (cf_number x) else cf_text r ''Not active'') u"
    by (rule send_ussd_code [OF assms(1), of "[42, 35]", simplified])
      (use d r in \<open>auto simp: handle_cf_code_def match_code_def cr query_rule_def rule_dict_def assms(2)\<close>)
  show "send_ussd [35, a, b, 35] u = ussd_respond 0 (cf_text r ''Deactivated'') (u\<lparr>us_rules := dict_set r (x\<lparr>cf_enabled := False\<rparr>) (us_rules u)\<rparr>)"
    by (rule send_ussd_code [OF assms(1), of "[35]", simplified])
      (use d in \<open>simp add: handle_cf_code_def match_code_def match_set_def cr disable_rule_def switch_rule_def assms(2)\<close>)
  show "send_ussd [35, 35, a, b, 35] u = ussd_respond 0 (cf_text r ''Erased'') (u\<lparr>us_rules := dict_del r (us_rules u)\<rparr>)"
    by (rule send_ussd_code [OF assms(1), of "[35, 35]", simplified])
      (use d r in \<open>simp add: handle_cf_code_def match_code_def match_set_def cr erase_rule_def\<close>)
qed

lemma should_forward_simps:
  "should_forward r (dict_set r x rs) = (if r \<noteq> UNCONDITIONAL \<and> should_forward UNCONDITIONAL rs \<noteq> None then should_forward UNCONDITIONAL rs
     else if cf_enabled x then Some (cf_number x) else None)"
  "should_forward r (dict_del r rs) = (if r \<noteq> UNCONDITIONAL then should_forward UNCONDITIONAL rs else None)"
  "r \<noteq> UNCONDITIONAL \<Longrightarrow> should_forward UNCONDITIONAL (dict_set r x rs) = should_forward UNCONDITIONAL rs"
  by (auto simp: should_forward_def Let_def split: option.splits if_splits)

text \<open>A rule for all reasons, or for all conditional ones, changes nothing for an incoming call.\<close>

lemma all_reasons_ineffective:
  "k \<notin> {CF_ALL, UNCONDITIONAL} \<Longrightarrow> should_forward k (set_rule CF_ALL n t rs) = should_forward k rs"
  by (auto simp: should_forward_def set_rule_def)

text \<open>
  C33: the codes \<^verbatim>\<open>*SC*number#\<close> (or with two stars), \<^verbatim>\<open>#SC#\<close> and \<^verbatim>\<open>##SC#\<close> of a service code register
  and enable, disable and erase the rule of its reason and no other rule; after registration the
  number is the one calls are forwarded to, unless an unconditional rule is in the way, and
  \<^verbatim>\<open>*#SC#\<close> reports it; a disabled or erased rule forwards nothing.
\<close>

theorem ussd_forwarding:
  assumes "map_of cf_codes sc = Some r" "n \<noteq> []" "list_all number_char n" "stars \<in> {[42], [42, 42]}"
  shows "let (u1, t1, _) = send_ussd (stars @ sc @ [42] @ n @ [35]) u; (u2, t2, m2) = send_ussd ([42, 35] @ sc @ [35]) u1;
             (u3, _, _) = send_ussd ([35] @ sc @ [35]) u1; (u4, _, _) = send_ussd ([35, 35] @ sc @ [35]) u1
    in t1 = 0 \<and> (\<forall>k. k \<noteq> r \<longrightarrow> map_of (us_rules u1) k = map_of (us_rules u) k)
     \<and> (r = UNCONDITIONAL \<or> should_forward UNCONDITIONAL (us_rules u) = None \<longrightarrow> should_forward r (us_rules u1) = Some n)
     \<and> us_rules u2 = us_rules u1 \<and> m2 = cf_text r ''Active'' @ cf_number_text n
     \<and> map_of (us_rules u3) r = map_option (\<lambda>x. x\<lparr>cf_enabled := False\<rparr>) (map_of (us_rules u1) r)
     \<and> map_of (us_rules u4) = (map_of (us_rules u))(r := None)
     \<and> (should_forward UNCONDITIONAL (us_rules u) = None \<longrightarrow>
          should_forward r (us_rules u3) = None \<and> should_forward r (us_rules u4) = None)"
proof -
  obtain a b where sc: "sc = [a, b]" using codes_are_digits [OF assms(1)] by blast
  define u1 where "u1 = fst (send_ussd (stars @ sc @ [42] @ n @ [35]) u)"
  have 1: "send_ussd (stars @ sc @ [42] @ n @ [35]) u = (u1, 0, cf_text r ''Registered'' @ cf_number_text n)"
      "us_rules u1 = dict_set r (registered_rule r n) (us_rules u)"
    using send_ussd_set [of a b r n stars u] assms sc by (simp_all add: u1_def ussd_respond_def)
  have x: "map_of (us_rules u1) r = Some (registered_rule r n)" by (simp add: 1(2))
  note edits = send_ussd_edit [OF assms(1) [unfolded sc] x, folded sc]
  show ?thesis
    unfolding 1(1) Let_def prod.case using edits sc
    by (auto simp: split_beta 1(2) should_forward_simps registered_rule_def fun_eq_iff)
qed

theorem ussd_forwarding_witness:
  "should_forward NO_REPLY (us_rules (fst (send_ussd (ustr ''*61*+155#'') (new_ussd [])))) = Some (ustr ''+155'')"
proof -
  have "map_of cf_codes [54, 49] = Some NO_REPLY" "[43, 49, 53, 53 :: nat] \<noteq> []" "list_all number_char [43, 49, 53, 53]"
      "[42 :: nat] \<in> {[42], [42, 42]}" "should_forward UNCONDITIONAL (us_rules (new_ussd [])) = None"
    by (simp_all add: cf_codes_def number_char_def is_dig_def new_ussd_def should_forward_def)
  with ussd_forwarding [of "[54, 49]" NO_REPLY "[43, 49, 53, 53]" "[42]" "new_ussd []"] show ?thesis
    by (simp add: Let_def split_beta ustr_simps)
qed

end
