(* ===== verification/Sdp.thy ===== *)
theory Sdp
  imports Supplementary
begin

text \<open>
  Session descriptions: the offer of \<^verbatim>\<open>ims/volte.py\<close> and what it and \<^verbatim>\<open>ims/media.py\<close> read from an
  answer with regular expressions. Digits are the ASCII ones, and ignoring case concerns the ASCII
  letters.
\<close>

section \<open>Searching\<close>

text \<open>\<^verbatim>\<open>re.search\<close>: the leftmost position where the pattern matches.\<close>

fun search :: "(ustr \<Rightarrow> 'a option) \<Rightarrow> ustr \<Rightarrow> 'a option" where
  "search f [] = f []"
| "search f (c # s) = (case f (c # s) of Some x \<Rightarrow> Some x | None \<Rightarrow> search f s)"

definition lit :: "ustr \<Rightarrow> ustr \<Rightarrow> ustr option" where
  "lit p s = (if take (length p) s = p then Some (drop (length p) s) else None)"

definition lit_nocase :: "ustr \<Rightarrow> ustr \<Rightarrow> ustr option" where
  "lit_nocase p s = (if lower (take (length p) s) = lower p then Some (drop (length p) s) else None)"

definition span1 :: "(nat \<Rightarrow> bool) \<Rightarrow> ustr \<Rightarrow> (ustr \<times> ustr) option" where
  "span1 P s = (if takeWhile P s = [] then None else Some (takeWhile P s, dropWhile P s))"

definition visible :: "nat \<Rightarrow> bool" where
  "visible c \<longleftrightarrow> \<not> is_white c"

section \<open>Offers\<close>

definition codec_map :: "(string \<times> nat \<times> string) list" where
  "codec_map = [(''AMR-WB'', 96, ''AMR-WB/16000/1''), (''AMR-NB'', 97, ''AMR/8000/1''), (''EVS'', 98, ''EVS/16000/1''),
     (''telephone-event'', 101, ''telephone-event/8000'')]"

definition rtpmap_line :: "nat \<times> string \<Rightarrow> ustr" where
  "rtpmap_line = (\<lambda>(pt, name). ustr ''a=rtpmap:'' @ ustr (dec_nat pt) @ [32] @ ustr name)"

text \<open>\<^verbatim>\<open>codec_priority or default\<close> is the caller's matter; unknown names are skipped.\<close>

definition offered :: "string list \<Rightarrow> (nat \<times> string) list" where
  "offered priority = List.map_filter (map_of codec_map) priority @ [(101, ''telephone-event/8000'')]"

definition build_sdp_offer :: "ustr \<Rightarrow> int \<Rightarrow> string list \<Rightarrow> string \<Rightarrow> ustr" where
  "build_sdp_offer local_ip local_port priority direction =
     ustr ''v=0'' @ CRLF
     @ ustr ''o=VirtualPhone 1 1 IN IP4 '' @ local_ip @ CRLF
     @ ustr ''s=VoLTE Call'' @ CRLF
     @ ustr ''c=IN IP4 '' @ local_ip @ CRLF
     @ ustr ''t=0 0'' @ CRLF
     @ ustr ''m=audio '' @ ustr_of_int local_port @ ustr '' RTP/AVP '' @ join_with [32] (map (ustr \<circ> dec_nat \<circ> fst) (offered priority)) @ CRLF
     @ join_with CRLF (map rtpmap_line (offered priority)) @ CRLF
     @ ustr ''a=ptime:20'' @ CRLF
     @ ustr ''a=maxptime:240'' @ CRLF
     @ ustr ''a='' @ ustr direction @ CRLF"

section \<open>Answers\<close>

definition rtpmap_codec :: "ustr \<Rightarrow> ustr option" where
  "rtpmap_codec s = Option.bind (lit (ustr ''a=rtpmap:'') s) (\<lambda>t. Option.bind (span1 is_dig t) (\<lambda>(_, r).
     Option.bind (lit [32] r) (\<lambda>w. map_option fst (span1 visible w))))"

definition extract_codec_from_sdp :: "ustr \<Rightarrow> ustr" where
  "extract_codec_from_sdp sdp = (case search rtpmap_codec sdp of Some c \<Rightarrow> hd (split_on [47] c) | None \<Rightarrow> ustr ''unknown'')"

definition connection_address :: "ustr \<Rightarrow> ustr option" where
  "connection_address s = Option.bind (lit (ustr ''c=IN IP'') s) (\<lambda>t. case t of v # r \<Rightarrow>
     if v \<in> {52, 54} then Option.bind (lit [32] r) (\<lambda>w. map_option fst (span1 visible w)) else None | [] \<Rightarrow> None)"

definition digits_int :: "ustr \<Rightarrow> int" where
  "digits_int s = int (the (digits_value 0 s))"

definition audio_port :: "ustr \<Rightarrow> int option" where
  "audio_port s = Option.bind (lit (ustr ''m=audio '') s) (\<lambda>t. map_option (digits_int \<circ> fst) (span1 is_dig t))"

definition parse_remote_rtp_address :: "ustr \<Rightarrow> ustr \<times> int" where
  "parse_remote_rtp_address sdp =
     (case search connection_address sdp of None \<Rightarrow> ustr ''0.0.0.0'' | Some ip \<Rightarrow> ip,
      case search audio_port sdp of None \<Rightarrow> 0 | Some p \<Rightarrow> p)"

definition rtpmap_type :: "ustr \<Rightarrow> ustr \<Rightarrow> int option" where
  "rtpmap_type codec s = Option.bind (lit_nocase (ustr ''a=rtpmap:'') s) (\<lambda>t. Option.bind (span1 is_dig t) (\<lambda>(d, r).
     map_option (\<lambda>_. digits_int d) (lit_nocase ([32] @ codec) r)))"

definition parse_payload_type :: "ustr \<Rightarrow> ustr \<Rightarrow> int" where
  "parse_payload_type sdp codec =
     (case search (rtpmap_type codec) sdp of Some n \<Rightarrow> n
      | None \<Rightarrow> dict_get [(ustr ''AMRWB'', 96), (ustr ''AMR'', 97), (ustr ''EVS'', 98)]
          (filter (\<lambda>c. c \<noteq> 45 \<and> c \<noteq> 95) (upper codec)) 96)"

section \<open>Reading offers\<close>

lemma search_skip: "(\<And>c s. c \<in> set xs \<Longrightarrow> f (c # s) = None) \<Longrightarrow> search f (xs @ s) = search f s"
  by (induction xs) simp_all

lemma search_found: "f s = Some x \<Longrightarrow> search f s = Some x"
  by (cases s) simp_all

lemma lit_front [simp]: "lit p (p @ s) = Some s"
  by (simp add: lit_def)

lemma lit_head: "p \<noteq> [] \<Longrightarrow> hd p \<noteq> c \<Longrightarrow> lit p (c # s) = None"
  by (cases p) (auto simp: lit_def)

lemma span1_front: "xs \<noteq> [] \<Longrightarrow> list_all P xs \<Longrightarrow> s = [] \<or> \<not> P (hd s) \<Longrightarrow> span1 P (xs @ s) = Some (xs, s)"
proof -
  assume a: "xs \<noteq> []" "list_all P xs" "s = [] \<or> \<not> P (hd s)"
  then have "takeWhile P (xs @ s) = xs \<and> dropWhile P (xs @ s) = s"
    by (cases s) (auto simp: list_all_iff)
  with a show ?thesis by (simp add: span1_def)
qed

text \<open>An address as the configuration has it: digits and dots.\<close>

definition ip_ok :: "ustr \<Rightarrow> bool" where
  "ip_ok ip \<longleftrightarrow> ip \<noteq> [] \<and> list_all (\<lambda>c. c = 46 \<or> is_dig c) ip"

lemma ip_chars: "ip_ok ip \<Longrightarrow> c \<in> set ip \<Longrightarrow> 46 \<le> c \<and> c \<le> 57"
  by (auto simp: ip_ok_def list_all_iff is_dig_def)

lemma ip_visible: "ip_ok ip \<Longrightarrow> list_all visible ip"
  using ip_chars by (fastforce simp: list_all_iff visible_def is_white_def)

lemma dec_digits: "list_all is_dig (ustr (dec_nat n))" "ustr (dec_nat n) \<noteq> []" "digits_int (ustr (dec_nat n)) = int n"
  using dec_nat_ustr [of n] by (auto simp: list_all_iff is_dig_def digits_int_def)

text \<open>
  A piece of text in which no match of a pattern with the literal beginning \<open>p\<close> starts, whatever
  follows: at every position it differs from \<open>p\<close> before it ends. Cases are ignored on both sides.
\<close>

fun clash :: "ustr \<Rightarrow> ustr \<Rightarrow> bool" where
  "clash (a # p) (b # s) \<longleftrightarrow> a \<noteq> b \<or> clash p s"
| "clash _ _ \<longleftrightarrow> False"

fun clean :: "ustr \<Rightarrow> ustr \<Rightarrow> bool" where
  "clean p [] \<longleftrightarrow> True"
| "clean p (c # s) \<longleftrightarrow> clash p (c # s) \<and> clean p s"

definition begins :: "ustr \<Rightarrow> (ustr \<Rightarrow> 'a option) \<Rightarrow> bool" where
  "begins p f \<longleftrightarrow> (\<forall>s x. f s = Some x \<longrightarrow> take (length p) (lower s) = p)"

lemma clash_take: "clash p s \<Longrightarrow> take (length p) (s @ t) \<noteq> p"
  by (induction p s rule: clash.induct) auto

lemma clash_append: "clash p s \<Longrightarrow> clash p (s @ t)"
  by (induction p s rule: clash.induct) auto

named_theorems cleaning "pieces without a match"

lemma clean_append [cleaning]: "clean p xs \<Longrightarrow> clean p ys \<Longrightarrow> clean p (xs @ ys)"
  by (induction xs) (use clash_append [of p "_ # _"] in auto)

lemma clean_joined [cleaning]: "(\<And>x. x \<in> set xs \<Longrightarrow> clean p x) \<Longrightarrow> clean p sep \<Longrightarrow> clean p (join_with sep xs)"
  by (induction xs rule: induct_list012) (auto intro: clean_append)

lemma clean_head: "p \<noteq> [] \<Longrightarrow> hd p \<notin> set xs \<Longrightarrow> clean p xs"
  by (induction xs; cases p) auto

lemma lower_append [simp]: "lower (s @ t) = lower s @ lower t" and lower_Nil [simp]: "lower [] = []"
  by (simp_all add: lower_def)

lemma search_clean:
  assumes "begins p f" "clean p (lower xs)"
  shows "search f (xs @ s) = search f s"
  using assms(2)
proof (induction xs)
  case (Cons c xs)
  then have "clash p (lower (c # xs))" by (simp add: lower_def)
  then have "f (c # xs @ s) = None"
    using assms(1) clash_take [of p "lower (c # xs)" "lower s"] unfolding begins_def
    by (metis append_Cons lower_append not_None_eq)
  with Cons show ?case by (simp add: lower_def)
qed simp

lemma lit_begins: "lit p s = Some t \<Longrightarrow> take (length p) (lower s) = lower p"
  by (auto simp: lit_def lower_def take_map split: if_splits)

lemma nocase_begins: "lit_nocase p s = Some t \<Longrightarrow> take (length p) (lower s) = lower p"
  by (auto simp: lit_nocase_def lower_def take_map split: if_splits)

abbreviation rtpmap_key :: ustr where "rtpmap_key \<equiv> ustr ''a=rtpmap:''"
abbreviation address_key :: ustr where "address_key \<equiv> ustr ''c=in ip''"
abbreviation audio_key :: ustr where "audio_key \<equiv> ustr ''m=audio ''"

lemma patterns_begin:
  "begins rtpmap_key rtpmap_codec" "begins address_key connection_address" "begins audio_key audio_port"
  "begins rtpmap_key (rtpmap_type codec)" "begins (lower d) (lit d)"
proof -
  have l: "lower rtpmap_key = rtpmap_key" "lower (ustr ''c=IN IP'') = address_key" "lower audio_key = audio_key"
    by (simp_all add: lower_def ustr_simps)
  show "begins rtpmap_key rtpmap_codec"
    using lit_begins [of rtpmap_key] l unfolding begins_def rtpmap_codec_def by (fastforce simp: bind_eq_Some_conv)
  show "begins address_key connection_address"
    using lit_begins [of "ustr ''c=IN IP''"] l unfolding begins_def connection_address_def
    by (fastforce simp: bind_eq_Some_conv)
  show "begins audio_key audio_port"
    using lit_begins [of audio_key] l unfolding begins_def audio_port_def by (fastforce simp: bind_eq_Some_conv)
  show "begins rtpmap_key (rtpmap_type codec)"
    using nocase_begins [of rtpmap_key] l unfolding begins_def rtpmap_type_def by (fastforce simp: bind_eq_Some_conv)
  show "begins (lower d) (lit d)"
    using lit_begins [of d] by (auto simp: begins_def lower_def)
qed

lemma lower_id: "(\<And>c. c \<in> set s \<Longrightarrow> c < 65) \<Longrightarrow> lower s = s"
  unfolding lower_def by (rule map_idI) fastforce

lemma clean_ip: "ip_ok ip \<Longrightarrow> p \<noteq> [] \<Longrightarrow> 57 < hd p \<Longrightarrow> clean p (lower ip)"
  using ip_chars [of ip] lower_id [of ip] by (intro clean_head) (fastforce simp: not_le)+

lemma clean_dec: "p \<noteq> [] \<Longrightarrow> 57 < hd p \<Longrightarrow> clean p (lower (ustr (dec_nat n)))"
  using dec_nat_ustr [of n] lower_id [of "ustr (dec_nat n)"] by (intro clean_head) (fastforce simp: not_le)+

lemma offered_cases:
  assumes "x \<in> set (offered priority)"
  shows "x \<in> {(96, ''AMR-WB/16000/1''), (97, ''AMR/8000/1''), (98, ''EVS/16000/1''), (101, ''telephone-event/8000'')}"
proof -
  have "map_of codec_map k = Some y \<Longrightarrow> y \<in> snd ` set codec_map" for k y by (force dest: map_of_SomeD)
  moreover have "(101, ''telephone-event/8000'') \<in> snd ` set codec_map" by (simp add: codec_map_def)
  ultimately have "x \<in> snd ` set codec_map" using assms by (auto simp: offered_def map_filter_def)
  then show ?thesis by (simp add: codec_map_def)
qed

text \<open>The offer in pieces: up to the second address, up to the port, up to the first format.\<close>

definition sdp_head :: "ustr \<Rightarrow> ustr" where
  "sdp_head ip = ustr ''v=0'' @ CRLF @ ustr ''o=VirtualPhone 1 1 IN IP4 '' @ ip @ CRLF @ ustr ''s=VoLTE Call'' @ CRLF"

definition sdp_media :: "string list \<Rightarrow> ustr" where
  "sdp_media priority = ustr '' RTP/AVP '' @ join_with [32] (map (ustr \<circ> dec_nat \<circ> fst) (offered priority)) @ CRLF"

definition sdp_tail :: "string \<Rightarrow> ustr" where
  "sdp_tail direction = ustr ''a=ptime:20'' @ CRLF @ ustr ''a=maxptime:240'' @ CRLF @ ustr (''a='' @ direction) @ CRLF"

lemma offer_pieces:
  "build_sdp_offer ip (int port) priority direction = sdp_head ip @ ustr ''c=IN IP4 '' @ ip @ CRLF @ ustr ''t=0 0'' @ CRLF
     @ ustr ''m=audio '' @ ustr (dec_nat port) @ sdp_media priority
     @ join_with CRLF (map rtpmap_line (offered priority)) @ CRLF @ sdp_tail direction"
  by (simp add: build_sdp_offer_def sdp_head_def sdp_media_def sdp_tail_def ustr_of_int_def dec_int_def ustr_simps)

lemma clean_head_piece:
  assumes "ip_ok ip"
  shows "clean rtpmap_key (lower (sdp_head ip))" "clean address_key (lower (sdp_head ip))" "clean audio_key (lower (sdp_head ip))"
    "clean (ustr ''a='') (lower (sdp_head ip))"
  unfolding sdp_head_def lower_append
  by (intro cleaning clean_ip [OF assms]; simp add: ustr_simps lower_def)+

lemma clean_address_piece:
  assumes "ip_ok ip"
  shows "clean rtpmap_key (lower (ustr ''c=IN IP4 '' @ ip @ CRLF @ ustr ''t=0 0'' @ CRLF))"
    "clean audio_key (lower (ustr ''c=IN IP4 '' @ ip @ CRLF @ ustr ''t=0 0'' @ CRLF))"
    "clean (ustr ''a='') (lower (ustr ''c=IN IP4 '' @ ip @ CRLF @ ustr ''t=0 0'' @ CRLF))"
  unfolding lower_append
  by (intro cleaning clean_ip [OF assms]; simp add: ustr_simps lower_def)+

lemma clean_media_piece:
  "clean rtpmap_key (lower (ustr ''m=audio '' @ ustr (dec_nat port) @ sdp_media priority))"
  "clean (ustr ''a='') (lower (ustr ''m=audio '' @ ustr (dec_nat port) @ sdp_media priority))"
proof -
  have j: "lower (join_with sep xs) = join_with (lower sep) (map lower xs)" for sep xs
    by (induction xs rule: induct_list012) simp_all
  have J: "clean p (join_with (lower [32]) (map lower (map (ustr \<circ> dec_nat \<circ> fst) ps)))" if "p \<noteq> []" "57 < hd p"
    for p and ps :: "(nat \<times> string) list"
  proof (rule clean_joined)
    show "clean p (lower [32])" using that by (intro clean_head) (auto simp: lower_def)
  qed (use clean_dec [OF that] in auto)
  have r: "rtpmap_key \<noteq> []" "57 < hd rtpmap_key" and a: "ustr ''a='' \<noteq> []" "57 < hd (ustr ''a='')"
    by (simp_all add: ustr_simps)
  show "clean rtpmap_key (lower (ustr ''m=audio '' @ ustr (dec_nat port) @ sdp_media priority))"
    unfolding sdp_media_def lower_append j
    by (intro clean_append clean_dec [OF r] J [OF r]) (simp_all add: ustr_simps lower_def)
  show "clean (ustr ''a='') (lower (ustr ''m=audio '' @ ustr (dec_nat port) @ sdp_media priority))"
    unfolding sdp_media_def lower_append j
    by (intro clean_append clean_dec [OF a] J [OF a]) (simp_all add: ustr_simps lower_def)
qed

lemma rtpmap_read:
  assumes "x \<in> set (offered priority)" "r = [] \<or> is_white (hd r)"
  shows "rtpmap_codec (rtpmap_line x @ r) = Some (ustr (snd x))"
    "rtpmap_type (hd (split_on [47] (ustr (snd x)))) (rtpmap_line x @ r) = Some (int (fst x))"
proof -
  have v: "list_all visible (ustr (snd x))" "snd x \<noteq> []"
    using offered_cases [OF assms(1)] by (auto simp: ustr_simps visible_def is_white_def)
  have d: "span1 is_dig (ustr (dec_nat n) @ 32 # s) = Some (ustr (dec_nat n), 32 # s)" for n s
    using dec_digits(1,2) by (intro span1_front) (simp_all add: is_dig_def)
  have w: "span1 visible (ustr (snd x) @ r) = Some (ustr (snd x), r)"
    using v assms(2) by (intro span1_front) (auto simp: visible_def)
  show "rtpmap_codec (rtpmap_line x @ r) = Some (ustr (snd x))"
    using w by (simp add: rtpmap_codec_def rtpmap_line_def split_beta d lit_def [of "[32]"])
  have "\<exists>t. ustr (snd x) = hd (split_on [47] (ustr (snd x))) @ t"
    using join_split [of "[47]" "ustr (snd x)"] by (cases "split_on [47] (ustr (snd x))" rule: remdups_adj.cases) (auto, metis)
  then obtain t where t: "ustr (snd x) = hd (split_on [47] (ustr (snd x))) @ t" by blast
  have f: "lit_nocase p (p @ s) = Some s" for p s by (simp add: lit_nocase_def)
  show "rtpmap_type (hd (split_on [47] (ustr (snd x)))) (rtpmap_line x @ r) = Some (int (fst x))"
    using f [of "[32] @ hd (split_on [47] (ustr (snd x)))" "t @ r"] t
    by (simp add: rtpmap_type_def rtpmap_line_def split_beta f d dec_digits) (metis append.assoc)
qed

section \<open>Directions\<close>

lemma contains_search: "contains sub s \<longleftrightarrow> sub = [] \<or> search (lit sub) s \<noteq> None"
proof (induction s)
  case (Cons c s)
  then show ?case
    unfolding contains_def by (cases "take (length sub) (c # s) = sub") (auto simp: lit_def)
qed (auto simp: contains_def lit_def)

lemma contains_inside: "contains sub (a @ sub @ b)"
proof (induction a)
  case Nil
  show ?case by (simp add: contains_search search_found lit_front)
next
  case (Cons c a)
  then show ?case by (auto simp: contains_search split: option.split)
qed

lemma clash_longer: "clash p s \<Longrightarrow> clash (p @ q) s"
  by (induction p s rule: clash.induct) auto

lemma clean_longer: "clean p s \<Longrightarrow> clean (p @ q) s"
  by (induction s) (auto intro: clash_longer)

lemma clean_not_contained: "p \<noteq> [] \<Longrightarrow> lower p = p \<Longrightarrow> clean p (lower s) \<Longrightarrow> \<not> contains p s"
  using search_clean [of p "lit p" s "[]"] patterns_begin(5) [of p] by (simp add: contains_search lit_def)

lemma offer_direction:
  assumes "ip_ok ip" "d \<in> {''sendrecv'', ''sendonly'', ''inactive''}" "e \<in> {''sendrecv'', ''sendonly'', ''inactive''}"
  shows "contains (ustr (''a='' @ e)) (build_sdp_offer ip (int port) priority d) \<longleftrightarrow> e = d"
proof
  assume "e = d"
  then show "contains (ustr (''a='' @ e)) (build_sdp_offer ip (int port) priority d)"
    unfolding offer_pieces sdp_tail_def using contains_inside [of "ustr (''a='' @ d)"]
    by (metis append.assoc ustr_append)
next
  have k: "ustr (''a='' @ e) = ustr ''a='' @ ustr e" by (rule ustr_append)
  have "list_all (\<lambda>x. clean (ustr (''a='' @ e)) (lower (rtpmap_line x)))
      [(96, ''AMR-WB/16000/1''), (97, ''AMR/8000/1''), (98, ''EVS/16000/1''), (101, ''telephone-event/8000'')]"
    using assms(3) by (auto simp: rtpmap_line_def dec_nat.simps digit_char_def ustr_simps lower_def)
  then have "clean (ustr (''a='' @ e)) (lower (rtpmap_line x))" if "x \<in> set (offered priority)" for x
    using offered_cases [OF that] by auto
  moreover have "lower (join_with CRLF xs) = join_with CRLF (map lower xs)" for xs
    by (induction xs rule: induct_list012) (simp_all add: lower_def)
  ultimately have m: "clean (ustr (''a='' @ e)) (lower (join_with CRLF (map rtpmap_line (offered priority))))"
    by (auto intro!: clean_joined simp: ustr_simps)
  have p: "clean (ustr (''a='' @ e)) (lower (ustr ''a=ptime:20''))" "clean (ustr (''a='' @ e)) (lower (ustr ''a=maxptime:240''))"
    "clean (ustr (''a='' @ e)) (lower CRLF)"
    using assms(3) by (elim insertE emptyE; simp add: ustr_simps lower_def)+
  have "clean (ustr (''a='' @ e)) (lower (ustr (''a='' @ d)))" if "e \<noteq> d"
    using assms(2,3) that by (elim insertE emptyE; simp add: ustr_simps lower_def)
  then have t: "clean (ustr (''a='' @ e)) (lower (sdp_tail d))" if "e \<noteq> d"
    using p that unfolding sdp_tail_def lower_append by (intro clean_append) simp_all
  define A M where "A = ustr ''c=IN IP4 '' @ ip @ CRLF @ ustr ''t=0 0'' @ CRLF" "M = ustr ''m=audio '' @ ustr (dec_nat port) @ sdp_media priority"
  have "clean (ustr (''a='' @ e)) (lower (sdp_head ip))" "clean (ustr (''a='' @ e)) (lower A)" "clean (ustr (''a='' @ e)) (lower M)"
    using clean_head_piece(4) [OF assms(1)] clean_address_piece(3) [OF assms(1)] clean_media_piece(2) [of port priority]
    unfolding k A_M_def by (auto intro: clean_longer)
  then have "clean (ustr (''a='' @ e)) (lower (sdp_head ip) @ lower A @ lower M
      @ lower (join_with CRLF (map rtpmap_line (offered priority))) @ lower CRLF @ lower (sdp_tail d))" if "e \<noteq> d"
    using m p(3) t [OF that] by (intro clean_append)
  then have "e \<noteq> d \<Longrightarrow> clean (ustr (''a='' @ e)) (lower (build_sdp_offer ip (int port) priority d))"
    unfolding offer_pieces A_M_def lower_append append_assoc by blast
  moreover have "lower (ustr (''a='' @ e)) = ustr (''a='' @ e)" using assms(3) by (auto simp: lower_def ustr_simps)
  ultimately show "contains (ustr (''a='' @ e)) (build_sdp_offer ip (int port) priority d) \<Longrightarrow> e = d"
    using clean_not_contained [of "ustr (''a='' @ e)"] by fastforce
qed

section \<open>Codec and address\<close>

text \<open>
  Whatever codecs are offered, the receiver of an offer reads from it the address and the port
  it was made with, and as codec and payload type the first pair offered.
\<close>

theorem sdp_offer_read:
  assumes "ip_ok ip" "offered priority = x # xs"
  shows "parse_remote_rtp_address (build_sdp_offer ip (int port) priority direction) = (ip, int port)
    \<and> extract_codec_from_sdp (build_sdp_offer ip (int port) priority direction) = hd (split_on [47] (ustr (snd x)))
    \<and> parse_payload_type (build_sdp_offer ip (int port) priority direction)
        (extract_codec_from_sdp (build_sdp_offer ip (int port) priority direction)) = int (fst x)"
proof -
  let ?s = "build_sdp_offer ip (int port) priority direction"
  let ?maps = "join_with CRLF (map rtpmap_line (offered priority)) @ CRLF @ sdp_tail direction"
  obtain r where r: "?maps = rtpmap_line x @ r" "r \<noteq> []" "is_white (hd r)"
    using assms(2) by (cases xs) (auto simp: is_white_def)
  note s = offer_pieces [of ip port priority direction]
  note c = search_clean [OF patterns_begin(1)] search_clean [OF patterns_begin(4)]
  have x: "x \<in> set (offered priority)" using assms(2) by simp
  have pre: "?s = sdp_head ip @ (ustr ''c=IN IP4 '' @ ip @ CRLF @ ustr ''t=0 0'' @ CRLF)
      @ (ustr ''m=audio '' @ ustr (dec_nat port) @ sdp_media priority) @ ?maps" using s by simp
  note clean = clean_head_piece [OF assms(1)] clean_address_piece [OF assms(1)] clean_media_piece
  have rest: "search f ?s = search f ?maps" if "begins rtpmap_key f" for f :: "ustr \<Rightarrow> 'b option"
    unfolding pre using search_clean [OF that] clean(1,5,8) by metis
  have codec: "search rtpmap_codec ?s = Some (ustr (snd x))"
    unfolding rest [OF patterns_begin(1)] r(1) using rtpmap_read(1) [OF x] r(2,3) by (blast intro: search_found)
  then have e: "extract_codec_from_sdp ?s = hd (split_on [47] (ustr (snd x)))" by (simp add: extract_codec_from_sdp_def)
  have t: "search (rtpmap_type (hd (split_on [47] (ustr (snd x))))) ?s = Some (int (fst x))"
    unfolding rest [OF patterns_begin(4)] r(1) using rtpmap_read(2) [OF x] r(2,3) by (blast intro: search_found)
  have "search connection_address ?s = Some ip"
  proof -
    have "span1 visible (ip @ CRLF @ q) = Some (ip, CRLF @ q)" for q
      using assms(1) ip_visible by (intro span1_front) (auto simp: ip_ok_def visible_def is_white_def)
    then have "connection_address (ustr ''c=IN IP4 '' @ ip @ CRLF @ q) = Some ip" for q
      by (simp add: connection_address_def lit_def ustr_simps)
    then show ?thesis unfolding s search_clean [OF patterns_begin(2) clean(2)] by (rule search_found)
  qed
  moreover have "search audio_port ?s = Some (int port)"
  proof -
    have "span1 is_dig (ustr (dec_nat port) @ sdp_media priority @ q) = Some (ustr (dec_nat port), sdp_media priority @ q)" for q
      using dec_digits(1,2) by (intro span1_front) (simp_all add: sdp_media_def ustr_simps is_dig_def)
    then have "audio_port (ustr ''m=audio '' @ ustr (dec_nat port) @ sdp_media priority @ q) = Some (int port)" for q
      by (simp add: audio_port_def dec_digits)
    then have "search audio_port ((ustr ''m=audio '' @ ustr (dec_nat port) @ sdp_media priority) @ ?maps) = Some (int port)"
      by (intro search_found) simp
    then show ?thesis unfolding pre using search_clean [OF patterns_begin(3)] clean(3,6) by metis
  qed
  ultimately show ?thesis using e t by (simp add: parse_remote_rtp_address_def parse_payload_type_def)
qed

theorem sdp_offer_read_witness:
  "parse_remote_rtp_address (build_sdp_offer (ustr ''10.45.0.2'') 50000 [''AMR-NB'', ''EVS''] ''sendrecv'') = (ustr ''10.45.0.2'', 50000)"
proof -
  have "ip_ok (ustr ''10.45.0.2'')" by (simp add: ip_ok_def ustr_simps is_dig_def)
  moreover have "\<exists>x xs. offered [''AMR-NB'', ''EVS''] = x # xs" by (simp add: offered_def map_filter_def codec_map_def)
  ultimately show ?thesis using sdp_offer_read [of "ustr ''10.45.0.2''" "[''AMR-NB'', ''EVS'']" _ _ 50000 "''sendrecv''"] by auto
qed

end
