(* ===== verification/Phone.thy ===== *)
theory Phone
  imports Coroutine Sdp Sms_Service Media
begin

text \<open>
  The state that voice calls share: the objects of \<^verbatim>\<open>ims/volte.py\<close> (configuration, call sessions,
  the call manager and the module's counters) and the call part of the Radio HAL of
  \<^verbatim>\<open>hal/radio_hal.py\<close>, which hold references to each other. A call session is an object: the table
  of the manager and the coroutines that wait refer to it by its number in \<open>vobjs\<close>. A
  \<^verbatim>\<open>VoiceCall\<close> is referred to by its index, which is never used twice.
\<close>

section \<open>Data\<close>

record volte_config =
  vg_pcscf :: ustr
  vg_port :: int
  vg_transport :: ustr
  vg_codecs :: "string list"
  vg_impu :: ustr
  vg_home :: ustr
  vg_route :: ustr
  vg_local_ip :: ustr
  vg_rtp_base :: int

datatype volte_state = INITIATING | RINGING_OUT | RINGING_IN | ACTIVE | HELD | TERMINATING | ENDED

record volte_call =
  vc_id :: ustr
  vc_index :: int
  vc_state :: volte_state
  vc_mo :: bool
  vc_number :: ustr
  vc_uri :: ustr
  vc_local_sdp :: ustr
  vc_remote_sdp :: ustr
  vc_port :: int
  vc_codec :: ustr
  vc_media :: "media option"
  vc_peer :: "ustr \<times> int"
  vc_invite :: "(sip_message \<times> ustr \<times> int) option"
  vc_transfer :: bool
  vc_target :: ustr

datatype call_state = CS_ACTIVE | CS_HOLDING | CS_DIALING | CS_ALERTING | CS_INCOMING | CS_WAITING

record voice_call =
  vi_index :: int
  vi_state :: call_state
  vi_mt :: bool
  vi_mpty :: bool
  vi_number :: ustr
  vi_sip_id :: ustr

text \<open>
  \<open>vids\<close> are the random identifiers still to be drawn, \<open>vssrc\<close> the random source identifier of each
  session and \<open>vbind\<close> the UDP ports that can be bound.
\<close>

record phone =
  vcfg :: volte_config
  vclient :: "client option"
  vup :: bool
  vstarted :: bool
  vcalls :: "(ustr \<times> nat) list"
  vobjs :: "volte_call list"
  vport_next :: int
  venabled :: bool
  vactive :: int
  vtotal :: int
  vcodec :: "ustr option"
  vhal :: bool
  vout :: "((ustr \<times> int) \<times> sip_message) list"
  vtotals :: media_state
  vids :: "nat \<Rightarrow> ustr"
  vid_next :: nat
  vssrc :: "nat \<Rightarrow> int"
  vbind :: "int \<Rightarrow> bool"
  r_calls :: "voice_call list"
  r_next :: int
  r_manager :: bool
  r_rules :: "cf_rules option"
  r_ussd :: "ussd option"
  r_muted :: bool
  r_callback :: bool
  r_sent :: "(int \<times> dict) list"

type_synonym 'a run = "(phone, sip_message res, 'a) proc"

definition new_phone :: "volte_config \<Rightarrow> (nat \<Rightarrow> ustr) \<Rightarrow> (nat \<Rightarrow> int) \<Rightarrow> (int \<Rightarrow> bool) \<Rightarrow> phone" where
  "new_phone cfg ids ssrcs can_bind = \<lparr>vcfg = cfg, vclient = None, vup = False, vstarted = False, vcalls = [], vobjs = [],
     vport_next = vg_rtp_base cfg, venabled = False, vactive = 0, vtotal = 0, vcodec = None, vhal = True, vout = [],
     vtotals = \<lparr>active_sessions = 0, total_packets_sent = 0, total_packets_received = 0\<rparr>, vids = ids, vid_next = 0,
     vssrc = ssrcs, vbind = can_bind, r_calls = [], r_next = 1, r_manager = True, r_rules = None, r_ussd = None,
     r_muted = False, r_callback = True, r_sent = []\<rparr>"

section \<open>Primitive steps\<close>

definition next_id :: "phone \<Rightarrow> phone \<times> ustr" where
  "next_id p = (p\<lparr>vid_next := vid_next p + 1\<rparr>, vids p (vid_next p))"

definition call_obj :: "nat \<Rightarrow> phone \<Rightarrow> volte_call" where
  "call_obj i p = vobjs p ! i"

definition set_obj :: "nat \<Rightarrow> (volte_call \<Rightarrow> volte_call) \<Rightarrow> phone \<Rightarrow> phone" where
  "set_obj i f p = p\<lparr>vobjs := (vobjs p)[i := f (vobjs p ! i)]\<rparr>"

definition pcscf :: "phone \<Rightarrow> ustr \<times> int" where
  "pcscf p = (vg_pcscf (vcfg p), vg_port (vcfg p))"

definition own_uri :: "phone \<Rightarrow> ustr" where
  "own_uri p = sip_uri (vg_impu (vcfg p))"

definition route_header :: "phone \<Rightarrow> (ustr \<times> ustr) list" where
  "route_header p = (if vg_route (vcfg p) = [] then [] else [(ustr ''Route'', vg_route (vcfg p))])"

definition transmit_sip :: "sip_message \<Rightarrow> ustr \<times> int \<Rightarrow> phone \<Rightarrow> phone \<times> unit res" where
  "transmit_sip m dest p =
     (case sip_serialize m of Inl e \<Rightarrow> (p, Inl e)
      | Inr (m', _) \<Rightarrow> (if vup p then p\<lparr>vout := vout p @ [(dest, m')]\<rparr> else p, Inr ()))"

text \<open>\<^verbatim>\<open>if self._sip_client: await self._sip_client.transport.send(...)\<close>.\<close>

definition send_if_client :: "sip_message \<Rightarrow> ustr \<times> int \<Rightarrow> unit run" where
  "send_if_client m dest = read (\<lambda>p. if vclient p = None then ret () else effect (transmit_sip m dest))"

text \<open>
  \<^verbatim>\<open>SIPClient.send_request\<close> as a coroutine: it returns the response or the exception of the wait,
  for its caller to handle.
\<close>

definition send_request :: "request \<Rightarrow> sip_message res run" where
  "send_request rq p =
     (case vclient p of None \<Rightarrow> (p, Ret (Inl AttributeError))
      | Some c \<Rightarrow>
        (case next_id p of (p1, i1) \<Rightarrow> case next_id p1 of (p2, i2) \<Rightarrow> case next_id p2 of (p3, i3) \<Rightarrow>
         case begin_request rq (i1 @ ustr ''@virtualphone'') (ustr ''z9hG4bK'' @ i2) i3 c of
           (c', Inl e) \<Rightarrow> (p3\<lparr>vclient := Some c'\<rparr>, Ret (Inl e))
         | (c', Inr f) \<Rightarrow>
             (p3\<lparr>vclient := Some c', vout := (if vup p then vout p @ [(pcscf p, last (sent c'))] else vout p)\<rparr>,
              Wait f ret)))"

text \<open>The Radio HAL: \<^verbatim>\<open>_send_indication\<close>, and the calls by index.\<close>

definition indicate :: "int \<Rightarrow> dict \<Rightarrow> phone \<Rightarrow> phone" where
  "indicate n d p = (if r_callback p then p\<lparr>r_sent := r_sent p @ [(n, d)]\<rparr> else p)"

definition voice_index :: "int \<Rightarrow> phone \<Rightarrow> voice_call option" where
  "voice_index i p = find (\<lambda>c. vi_index c = i) (r_calls p)"

definition set_voice :: "int \<Rightarrow> (voice_call \<Rightarrow> voice_call) \<Rightarrow> phone \<Rightarrow> phone" where
  "set_voice i f p = p\<lparr>r_calls := map (\<lambda>c. if vi_index c = i then f c else c) (r_calls p)\<rparr>"

definition drop_voice :: "int \<Rightarrow> phone \<Rightarrow> phone" where
  "drop_voice i p = p\<lparr>r_calls := filter (\<lambda>c. vi_index c \<noteq> i) (r_calls p)\<rparr>"

text \<open>\<^verbatim>\<open>self.voice_calls.remove(call)\<close>.\<close>

definition remove_voice :: "int \<Rightarrow> unit run" where
  "remove_voice i = read (\<lambda>p. if voice_index i p = None then throw ValueError else act (drop_voice i))"

definition update_call_state :: "int \<Rightarrow> call_state \<Rightarrow> phone \<Rightarrow> phone" where
  "update_call_state i st p =
     (if voice_index i p = None then p else indicate 1001 [] (set_voice i (\<lambda>c. c\<lparr>vi_state := st\<rparr>) p))"

text \<open>The same, from the manager, which may have no HAL.\<close>

definition tell_hal :: "int \<Rightarrow> call_state \<Rightarrow> unit run" where
  "tell_hal i st = read (\<lambda>p. if vhal p then act (update_call_state i st) else ret ())"

text \<open>\<^verbatim>\<open>_volte_state["active_calls"] = len([... ACTIVE])\<close>.\<close>

definition active_calls :: "phone \<Rightarrow> nat" where
  "active_calls p = length (filter (\<lambda>(_, i). vc_state (call_obj i p) = ACTIVE) (vcalls p))"

definition count_active :: "phone \<Rightarrow> phone" where
  "count_active p = p\<lparr>vactive := int (active_calls p)\<rparr>"

definition call_answered :: "nat \<Rightarrow> phone \<Rightarrow> phone" where
  "call_answered i p = (count_active p)\<lparr>vtotal := vtotal p + 1, vcodec := Some (vc_codec (call_obj i p))\<rparr>"

definition allocate_rtp_port :: "phone \<Rightarrow> phone \<times> int" where
  "allocate_rtp_port p = (p\<lparr>vport_next := vport_next p + 2\<rparr>, vport_next p)"

text \<open>\<^verbatim>\<open>self._calls[call_id] = VoLTECall(...)\<close>; the object's number is that of the first free place.\<close>

definition add_call :: "volte_call \<Rightarrow> phone \<Rightarrow> phone" where
  "add_call c p = p\<lparr>vcalls := dict_set (vc_id c) (length (vobjs p)) (vcalls p), vobjs := vobjs p @ [c]\<rparr>"

definition find_call :: "ustr \<Rightarrow> phone \<Rightarrow> nat option" where
  "find_call cid p = map_of (vcalls p) cid"

definition pop_call :: "ustr \<Rightarrow> phone \<Rightarrow> phone" where
  "pop_call cid p = p\<lparr>vcalls := dict_del cid (vcalls p)\<rparr>"

text \<open>\<^verbatim>\<open>del self._calls[call_id]\<close>.\<close>

definition del_call :: "ustr \<Rightarrow> unit run" where
  "del_call cid = read (\<lambda>p. if find_call cid p = None then throw KeyError else act (pop_call cid))"

section \<open>Media of a call\<close>

text \<open>
  \<^verbatim>\<open>_start_media\<close>. A codec name outside ASCII is in no table of the media session. A port outside
  the 16-bit range makes the bind raise OverflowError, which is caught and leaves no session.
\<close>

definition codec_name :: "ustr \<Rightarrow> string" where
  "codec_name u = (if list_all (\<lambda>c. c < 128) u then map char_of u else ''unknown'')"

definition start_media :: "nat \<Rightarrow> phone \<Rightarrow> phone" where
  "start_media i p =
     (let c = call_obj i p; (ip, port) = parse_remote_rtp_address (vc_remote_sdp c) in
      if vc_remote_sdp c = [] \<or> vc_port c = 0 \<or> port = 0 then p
      else if vc_port c < 0 \<or> vc_port c > 65535 then p
      else let (m, t) = media_start (codec_name (vc_codec c)) (parse_payload_type (vc_remote_sdp c) (vc_codec c))
                          (vbind p (vc_port c)) (vbind p (vc_port c + 1)) (new_media 0 (vssrc p i)) (vtotals p)
           in set_obj i (\<lambda>c. c\<lparr>vc_media := Some m, vc_peer := (ip, port)\<rparr>) (p\<lparr>vtotals := t\<rparr>))"

definition stop_media :: "nat \<Rightarrow> phone \<Rightarrow> phone" where
  "stop_media i p =
     (case vc_media (call_obj i p) of None \<Rightarrow> p
      | Some m \<Rightarrow> set_obj i (\<lambda>c. c\<lparr>vc_media := None\<rparr>) (p\<lparr>vtotals := snd (media_stop m (vtotals p))\<rparr>))"

definition hold_media :: "volte_call \<Rightarrow> volte_call" where
  "hold_media c = c\<lparr>vc_media := map_option media_hold (vc_media c)\<rparr>"

definition resume_media :: "volte_call \<Rightarrow> volte_call" where
  "resume_media c = c\<lparr>vc_media := map_option media_resume (vc_media c)\<rparr>"

section \<open>The manager's messages\<close>

definition reply_headers :: "sip_message \<Rightarrow> (ustr \<times> ustr) list" where
  "reply_headers m = [(ustr ''Via'', header m ''Via''), (ustr ''From'', header m ''From''), (ustr ''To'', header m ''To''),
     (ustr ''Call-ID'', call_id m), (ustr ''CSeq'', header m ''CSeq'')]"

definition reply_message :: "int \<Rightarrow> string \<Rightarrow> sip_message \<Rightarrow> sip_message" where
  "reply_message code reason m = empty_sip\<lparr>status_code := Some code, reason_phrase := Some (ustr reason), headers := reply_headers m\<rparr>"

text \<open>The 200 with a session description, for an INVITE or a re-INVITE.\<close>

definition sdp_reply :: "ustr \<Rightarrow> bytes \<Rightarrow> sip_message \<Rightarrow> phone \<Rightarrow> sip_message" where
  "sdp_reply cid body m p = (reply_message 200 ''OK'' m)\<lparr>headers := dict_set (ustr ''Call-ID'') cid (reply_headers m)
     @ [(ustr ''Contact'', ustr ''<sip:'' @ vg_impu (vcfg p) @ [62]), (ustr ''Content-Type'', ustr ''application/sdp'')],
     sip_body := body\<rparr>"

definition ack_message :: "nat \<Rightarrow> ustr \<Rightarrow> ustr \<Rightarrow> client \<Rightarrow> phone \<Rightarrow> sip_message" where
  "ack_message i branch tag c p =
     (let u = vc_uri (call_obj i p) in
      empty_sip\<lparr>sip_method := Some (ustr ''ACK''), request_uri := Some u,
        headers := [(ustr ''Via'', ustr ''SIP/2.0/'' @ vg_transport (vcfg p) @ [32] @ cl_ip c @ [58] @ ustr_of_int (cl_port c)
                      @ ustr '';branch=z9hG4bK'' @ branch),
          (ustr ''Max-Forwards'', ustr ''70''), (ustr ''From'', [60] @ own_uri p @ ustr ''>;tag='' @ tag), (ustr ''To'', [60] @ u @ [62]),
          (ustr ''Call-ID'', vc_id (call_obj i p)), (ustr ''CSeq'', ustr ''1 ACK'')]\<rparr>)"

definition send_ack :: "nat \<Rightarrow> unit run" where
  "send_ack i = read (\<lambda>p.
     case vclient p of None \<Rightarrow> throw AttributeError
     | Some c \<Rightarrow> (case next_id p of (p1, branch) \<Rightarrow> case next_id p1 of (p2, tag) \<Rightarrow>
         seq (act (\<lambda>_. p2)) (effect (transmit_sip (ack_message i branch tag c p) (pcscf p)))))"

text \<open>A request inside the dialogue of a call.\<close>

definition call_request :: "string \<Rightarrow> (ustr \<times> ustr) list \<Rightarrow> bytes \<Rightarrow> ustr \<Rightarrow> nat \<Rightarrow> phone \<Rightarrow> request" where
  "call_request meth extra body cid i p = \<lparr>rq_method = ustr meth, rq_uri = vc_uri (call_obj i p), rq_to = vc_uri (call_obj i p),
     rq_from = own_uri p, rq_extra = extra @ route_header p, rq_body = body, rq_call_id = Some cid\<rparr>"

definition offer :: "string \<Rightarrow> int \<Rightarrow> phone \<Rightarrow> ustr" where
  "offer direction port p = build_sdp_offer (if vg_local_ip (vcfg p) = [] then ustr ''10.45.0.2'' else vg_local_ip (vcfg p)) port
     (vg_codecs (vcfg p)) direction"

end
