(* ===== verification/Volte.thy ===== *)
theory Volte
  imports Phone
begin

text \<open>
  The call manager of \<^verbatim>\<open>ims/volte.py\<close>: outgoing calls, answering, hold and resume, swap, conference,
  transfer and hang-up. Each method is a coroutine that waits where the code awaits
  \<^verbatim>\<open>send_request\<close>; other tasks run there. What the methods do with the exceptions of the wait is
  written out: most of them handle TimeoutError only.
\<close>

section \<open>Start and stop\<close>

text \<open>\<open>start\<close> when the port can be bound.\<close>

definition volte_start :: "phone \<Rightarrow> phone" where
  "volte_start p =
     (if vg_pcscf (vcfg p) = [] then p
      else p\<lparr>vclient := Some (new_client (vg_transport (vcfg p))), vup := True, vstarted := True, venabled := True\<rparr>)"

section \<open>Outgoing calls\<close>

definition mo_call :: "ustr \<Rightarrow> int \<Rightarrow> ustr \<Rightarrow> int \<Rightarrow> phone \<Rightarrow> volte_call" where
  "mo_call num vidx cid port p = \<lparr>vc_id = cid, vc_index = vidx, vc_state = INITIATING, vc_mo = True, vc_number = num,
     vc_uri = ustr ''sip:'' @ dropWhile (\<lambda>c. c = 43) num @ [64] @ vg_home (vcfg p), vc_local_sdp = offer ''sendrecv'' port p,
     vc_remote_sdp = [], vc_port = port, vc_codec = [], vc_media = None, vc_peer = ([], 0), vc_invite = None,
     vc_transfer = False, vc_target = []\<rparr>"

text \<open>Up to the wait: port, Call-ID, session; the result is the number of the session.\<close>

definition place_call :: "ustr \<Rightarrow> int \<Rightarrow> phone \<Rightarrow> phone \<times> nat res" where
  "place_call num vidx p =
     (case allocate_rtp_port p of (p1, port) \<Rightarrow> case next_id p1 of (p2, i) \<Rightarrow>
      (add_call (mo_call num vidx (i @ ustr ''@virtualphone'') port p) p2, Inr (length (vobjs p))))"

definition invite_request :: "nat \<Rightarrow> bytes \<Rightarrow> phone \<Rightarrow> request" where
  "invite_request i body p = call_request ''INVITE''
     [(ustr ''Content-Type'', ustr ''application/sdp''), (ustr ''Allow'', ustr ''INVITE, ACK, BYE, CANCEL, OPTIONS, MESSAGE''),
      (ustr ''Supported'', ustr ''100rel, timer, precondition''), (ustr ''P-Preferred-Identity'', [60] @ own_uri p @ [62])]
     body (vc_id (call_obj i p)) i p"

definition mo_answered :: "nat \<Rightarrow> sip_message \<Rightarrow> phone \<Rightarrow> phone" where
  "mo_answered i resp = set_obj i (\<lambda>c. let sdp = utf8_decode (sip_body resp) in
     c\<lparr>vc_state := ACTIVE, vc_remote_sdp := sdp, vc_codec := extract_codec_from_sdp sdp\<rparr>)"

definition finish_initiate :: "nat \<Rightarrow> int \<Rightarrow> sip_message \<Rightarrow> ustr option run" where
  "finish_initiate i vidx resp =
     (if status_code resp = Some 200 then
        seq (act (mo_answered i resp)) (
        seq (send_ack i) (
        seq (tell_hal vidx CS_ACTIVE) (
        seq (act (call_answered i)) (
        seq (act (start_media i)) (
        read (\<lambda>p. ret (Some (vc_id (call_obj i p)))))))))
      else read (\<lambda>p. seq (del_call (vc_id (call_obj i p))) (ret None)))"

definition after_invite :: "nat \<Rightarrow> int \<Rightarrow> sip_message res \<Rightarrow> ustr option run" where
  "after_invite i vidx r =
     (case r of
        Inr resp \<Rightarrow> finish_initiate i vidx resp
      | Inl e \<Rightarrow> if e = TimeoutError then read (\<lambda>p. seq (del_call (vc_id (call_obj i p))) (ret None)) else throw e)"

definition initiate_call :: "ustr \<Rightarrow> int \<Rightarrow> ustr option run" where
  "initiate_call num vidx = read (\<lambda>p.
     if \<not> vstarted p then ret None
     else cbind (effect (place_call num vidx)) (\<lambda>i. read (\<lambda>p.
       case utf8_encode (vc_local_sdp (call_obj i p)) of Inl e \<Rightarrow> throw e
       | Inr body \<Rightarrow> cbind (send_request (invite_request i body p)) (after_invite i vidx))))"

section \<open>Answering\<close>

definition answer_call :: "ustr \<Rightarrow> bool run" where
  "answer_call cid = read (\<lambda>p.
     case find_call cid p of None \<Rightarrow> ret False
     | Some i \<Rightarrow> if vc_state (call_obj i p) \<noteq> RINGING_IN then ret False else
       (case vc_invite (call_obj i p) of None \<Rightarrow> ret False
        | Some (invite, addr) \<Rightarrow> if vclient p = None then ret False else
          (case utf8_encode (vc_local_sdp (call_obj i p)) of Inl e \<Rightarrow> throw e
           | Inr body \<Rightarrow>
             seq (effect (transmit_sip (sdp_reply cid body invite p) addr)) (
             seq (act (set_obj i (\<lambda>c. c\<lparr>vc_state := ACTIVE, vc_codec := extract_codec_from_sdp (vc_remote_sdp c)\<rparr>))) (
             seq (act (call_answered i)) (
             seq (act (start_media i)) (ret True)))))))"

section \<open>Hold and resume\<close>

text \<open>
  The common part of \<^verbatim>\<open>hold_call\<close> and \<^verbatim>\<open>resume_call\<close>: the session's new state, its media, a
  re-INVITE with the direction, whose answer is acknowledged whatever its status is, the HAL and
  the counter.
\<close>

definition reinvite :: "string \<Rightarrow> ustr \<Rightarrow> nat \<Rightarrow> unit run" where
  "reinvite direction cid i = read (\<lambda>p.
     if vclient p = None \<or> \<not> vstarted p then ret ()
     else case utf8_encode (offer direction (vc_port (call_obj i p)) p) of Inl e \<Rightarrow> throw e
     | Inr body \<Rightarrow>
       cbind (send_request (call_request ''INVITE'' [(ustr ''Content-Type'', ustr ''application/sdp'')] body cid i p)) (\<lambda>r.
         case r of Inr _ \<Rightarrow> send_ack i | Inl e \<Rightarrow> if e = TimeoutError then ret () else throw e))"

definition change_hold :: "volte_state \<Rightarrow> volte_state \<Rightarrow> (volte_call \<Rightarrow> volte_call) \<Rightarrow> string \<Rightarrow> call_state \<Rightarrow> ustr \<Rightarrow> bool run" where
  "change_hold from to change direction cs cid = read (\<lambda>p.
     case find_call cid p of None \<Rightarrow> ret False
     | Some i \<Rightarrow> if vc_state (call_obj i p) \<noteq> from then ret False else
       seq (act (set_obj i (\<lambda>c. change (c\<lparr>vc_state := to\<rparr>)))) (
       seq (reinvite direction cid i) (
       read (\<lambda>p. seq (tell_hal (vc_index (call_obj i p)) cs) (
       seq (act count_active) (ret True))))))"

definition hold_call :: "ustr \<Rightarrow> bool run" where
  "hold_call = change_hold ACTIVE HELD hold_media ''sendonly'' CS_HOLDING"

definition resume_call :: "ustr \<Rightarrow> bool run" where
  "resume_call = change_hold HELD ACTIVE resume_media ''sendrecv'' CS_ACTIVE"

definition calls_in :: "volte_state \<Rightarrow> phone \<Rightarrow> (ustr \<times> nat) list" where
  "calls_in st p = filter (\<lambda>(_, i). vc_state (call_obj i p) = st) (vcalls p)"

text \<open>The first active and the first held call; both are found before the first one is held.\<close>

definition swap_calls :: "bool run" where
  "swap_calls = read (\<lambda>p.
     let acts = calls_in ACTIVE p; helds = calls_in HELD p in
     if acts = [] \<and> helds = [] then ret False
     else seq (if acts \<noteq> [] then ignore (hold_call (vc_id (call_obj (snd (hd acts)) p))) else ret ()) (
          seq (if helds \<noteq> [] then ignore (resume_call (vc_id (call_obj (snd (hd helds)) p))) else ret ()) (ret True)))"

section \<open>Conference\<close>

definition merge_voice :: "ustr \<Rightarrow> ustr \<Rightarrow> phone \<Rightarrow> phone" where
  "merge_voice a b p = indicate 1001 [] (p\<lparr>r_calls :=
     map (\<lambda>c. if vi_sip_id c \<in> {a, b} then c\<lparr>vi_mpty := True, vi_state := CS_ACTIVE\<rparr> else c) (r_calls p)\<rparr>)"

text \<open>The last active and the last held call.\<close>

definition conference_calls :: "bool run" where
  "conference_calls = read (\<lambda>p.
     let acts = calls_in ACTIVE p; helds = calls_in HELD p in
     if acts = [] \<or> helds = [] then ret False
     else let a = snd (last acts); h = snd (last helds) in
       seq (act (set_obj h (\<lambda>c. resume_media (c\<lparr>vc_state := ACTIVE\<rparr>)))) (
       seq (if vhal p then act (merge_voice (vc_id (call_obj a p)) (vc_id (call_obj h p))) else ret ()) (
       seq (act count_active) (ret True))))"

section \<open>Transfer\<close>

definition refer_accepted :: "nat \<Rightarrow> (volte_call \<Rightarrow> volte_call) \<Rightarrow> sip_message res \<Rightarrow> bool run" where
  "refer_accepted i change r =
     (case r of
        Inr resp \<Rightarrow> if status_code resp \<in> {Some 200, Some 202} then seq (act (set_obj i change)) (ret True) else ret False
      | Inl e \<Rightarrow> if e = TimeoutError then ret False else throw e)"

definition transfer_call :: "ustr \<Rightarrow> ustr \<Rightarrow> bool run" where
  "transfer_call cid num = read (\<lambda>p.
     case find_call cid p of None \<Rightarrow> ret False
     | Some i \<Rightarrow> if vc_state (call_obj i p) \<notin> {ACTIVE, HELD} then ret False
       else if vclient p = None \<or> \<not> vstarted p then ret False
       else let target = ustr ''sip:'' @ dropWhile (\<lambda>c. c = 43) num @ [64] @ vg_home (vcfg p) in
         cbind (send_request (call_request ''REFER'' [(ustr ''Refer-To'', [60] @ target @ [62]), (ustr ''Referred-By'', [60] @ own_uri p @ [62])]
             [] cid i p))
           (refer_accepted i (\<lambda>c. c\<lparr>vc_state := ACTIVE, vc_transfer := True, vc_target := target\<rparr>)))"

definition attended_transfer :: "ustr \<Rightarrow> ustr \<Rightarrow> bool run" where
  "attended_transfer cid_a cid_b = read (\<lambda>p.
     case (find_call cid_a p, find_call cid_b p) of
       (Some a, Some b) \<Rightarrow> if vc_state (call_obj a p) \<notin> {ACTIVE, HELD} then ret False
         else if vclient p = None \<or> \<not> vstarted p then ret False
         else let target = vc_uri (call_obj b p) in
           cbind (send_request (call_request ''REFER''
               [(ustr ''Refer-To'', [60] @ target @ ustr ''?Replaces='' @ cid_b @ [62]), (ustr ''Referred-By'', [60] @ own_uri p @ [62])]
               [] cid_a a p))
             (refer_accepted a (\<lambda>c. c\<lparr>vc_transfer := True, vc_target := target\<rparr>))
     | _ \<Rightarrow> ret False)"

section \<open>Hanging up\<close>

definition hangup_call :: "ustr \<Rightarrow> bool run" where
  "hangup_call cid = read (\<lambda>p.
     case find_call cid p of None \<Rightarrow> ret False
     | Some i \<Rightarrow>
       seq (act (pop_call cid)) (
       seq (act (stop_media i)) (
       read (\<lambda>p. if vclient p = None \<or> \<not> vstarted p then ret False else
         seq (act (set_obj i (\<lambda>c. c\<lparr>vc_state := TERMINATING\<rparr>))) (
         cbind (send_request (call_request ''BYE'' [] [] cid i p)) (\<lambda>r.
         case r of
           Inl e \<Rightarrow> if e = TimeoutError then seq (act count_active) (ret True) else throw e
         | Inr _ \<Rightarrow> seq (act count_active) (ret True)))))))"

text \<open>The calls are listed first, their states are read when their turn comes.\<close>

definition volte_stop :: "unit run" where
  "volte_stop = read (\<lambda>p.
     seq (each (\<lambda>(_, i). read (\<lambda>q. if vc_state (call_obj i q) \<in> {ACTIVE, RINGING_OUT}
                 then ignore (hangup_call (vc_id (call_obj i q))) else ret ())) (vcalls p))
     (act (\<lambda>q. q\<lparr>vup := False, vstarted := False, venabled := False\<rparr>)))"

text \<open>\<^verbatim>\<open>get_calls\<close>: Call-ID, direction, state, number, codec, port, and whether there is a session.\<close>

definition get_calls :: "phone \<Rightarrow> (ustr \<times> bool \<times> volte_state \<times> ustr \<times> ustr \<times> int \<times> bool) list" where
  "get_calls p = map (\<lambda>(_, i). let c = call_obj i p in
     (vc_id c, vc_mo c, vc_state c, vc_number c, vc_codec c, vc_port c, vc_media c \<noteq> None)) (vcalls p)"

section \<open>Messages from the remote party\<close>

definition remove_by_sip_id :: "ustr \<Rightarrow> phone \<Rightarrow> phone" where
  "remove_by_sip_id cid p = (case find (\<lambda>c. vi_sip_id c = cid) (r_calls p) of None \<Rightarrow> p | Some c \<Rightarrow> drop_voice (vi_index c) p)"

text \<open>What BYE and CANCEL share: the call goes, its media stops, a 200, the HAL forgets it.\<close>

definition remote_end :: "sip_message \<Rightarrow> ustr \<times> int \<Rightarrow> unit run" where
  "remote_end m addr = read (\<lambda>p.
     let found = find_call (call_id m) p in
     seq (case found of None \<Rightarrow> ret () | Some i \<Rightarrow> act (\<lambda>q. stop_media i (pop_call (call_id m) q))) (
     seq (send_if_client (reply_message 200 ''OK'' m) addr) (
     if found \<noteq> None \<and> vhal p then act (\<lambda>q. indicate 1001 [] (remove_by_sip_id (call_id m) q)) else ret ())))"

definition handle_incoming_bye :: "sip_message \<Rightarrow> ustr \<times> int \<Rightarrow> unit run" where
  "handle_incoming_bye m addr = seq (remote_end m addr) (act count_active)"

definition handle_incoming_cancel :: "sip_message \<Rightarrow> ustr \<times> int \<Rightarrow> unit run" where
  "handle_incoming_cancel m addr = remote_end m addr"

definition body_text :: "sip_message \<Rightarrow> ustr" where
  "body_text m = (if sip_body m = [] then [] else utf8_decode (sip_body m))"

definition handle_reinvite :: "sip_message \<Rightarrow> ustr \<times> int \<Rightarrow> nat \<Rightarrow> unit run" where
  "handle_reinvite m addr i =
     (let sdp = body_text m in
      seq (act (set_obj i (\<lambda>c. c\<lparr>vc_remote_sdp := sdp\<rparr>))) (
      seq (if contains (ustr ''a=sendonly'') sdp \<or> contains (ustr ''a=inactive'') sdp then
             seq (act (set_obj i (\<lambda>c. hold_media (c\<lparr>vc_state := HELD\<rparr>)))) (read (\<lambda>p. tell_hal (vc_index (call_obj i p)) CS_HOLDING))
           else if contains (ustr ''a=sendrecv'') sdp then
             seq (act (set_obj i (\<lambda>c. resume_media (c\<lparr>vc_state := ACTIVE\<rparr>)))) (read (\<lambda>p. tell_hal (vc_index (call_obj i p)) CS_ACTIVE))
           else ret ()) (
      read (\<lambda>p. case utf8_encode (vc_local_sdp (call_obj i p)) of Inl e \<Rightarrow> throw e
        | Inr body \<Rightarrow> send_if_client (sdp_reply (call_id m) body m p) addr))))"

text \<open>
  The status of a sipfrag body; \<^verbatim>\<open>parts[1]\<close> of \<^verbatim>\<open>strip().split(" ", 2)\<close>, where it is a number.
\<close>

definition sipfrag_status :: "ustr \<Rightarrow> int option" where
  "sipfrag_status s =
     (case split_max 2 [32] (strip s) of _ # b # _ \<Rightarrow> (case int_of_ustr b of Inl _ \<Rightarrow> None | Inr n \<Rightarrow> Some n) | _ \<Rightarrow> None)"

definition handle_incoming_notify :: "sip_message \<Rightarrow> ustr \<times> int \<Rightarrow> unit run" where
  "handle_incoming_notify m addr = read (\<lambda>p.
     let found = find_call (call_id m) p in
     seq (send_if_client (reply_message 200 ''OK'' m) addr) (
     case found of None \<Rightarrow> ret ()
     | Some i \<Rightarrow> if header m ''Event'' \<noteq> ustr ''refer'' then ret () else
       let frag = body_text m; status = (if frag = [] then None else sipfrag_status frag);
           success = (\<exists>n \<in> set_option status. 200 \<le> n \<and> n < 300)
       in if (\<exists>n \<in> set_option status. n \<ge> 400) then act (set_obj i (\<lambda>c. c\<lparr>vc_transfer := False\<rparr>))
          else if success \<or> take 10 (header m ''Subscription-State'') = ustr ''terminated'' then
            read (\<lambda>p. if vc_transfer (call_obj i p) then ignore (hangup_call (call_id m)) else ret ())
          else ret ()))"

definition send_refer_notify :: "nat \<Rightarrow> string \<Rightarrow> string \<Rightarrow> unit run" where
  "send_refer_notify i frag sub_state = read (\<lambda>p.
     if vclient p = None then ret () else
     cbind (send_request (call_request ''NOTIFY'' [(ustr ''Event'', ustr ''refer''), (ustr ''Subscription-State'', ustr sub_state),
         (ustr ''Content-Type'', ustr ''message/sipfrag;version=2.0'')] (map (word_of_nat \<circ> of_char) frag @ [13, 10]) (vc_id (call_obj i p)) i p))
       (\<lambda>r. case r of Inr _ \<Rightarrow> ret () | Inl e \<Rightarrow> if e = TimeoutError then ret () else throw e))"

end
