(* ===== verification/Radio.thy ===== *)
theory Radio
  imports Volte
begin

text \<open>
  The call operations of the Radio HAL (\<^verbatim>\<open>hal/radio_hal.py\<close>), and the handlers of the call manager
  that call the HAL back: incoming INVITE and REFER, and the dispatch of incoming messages. The
  system is the shared state and the tasks that wait; its steps are the requests of Android, the
  messages of the network, and the event loop resuming a task.
\<close>

section \<open>Requests of Android\<close>

definition hal_ok :: dict where
  "hal_ok = [(''success'', JBool True)]"

definition hal_error :: "string \<Rightarrow> dict" where
  "hal_error e = [(''success'', JBool False), (''error'', JStr e)]"

definition call_number :: "call_state \<Rightarrow> int" where
  "call_number s = (case s of CS_ACTIVE \<Rightarrow> 0 | CS_HOLDING \<Rightarrow> 1 | CS_DIALING \<Rightarrow> 2 | CS_ALERTING \<Rightarrow> 3 | CS_INCOMING \<Rightarrow> 4 | CS_WAITING \<Rightarrow> 5)"

text \<open>\<^verbatim>\<open>to_ril_dict\<close>; nothing sets a name or another presentation.\<close>

definition to_ril_dict :: "voice_call \<Rightarrow> dict" where
  "to_ril_dict c = [(''state'', JInt (call_number (vi_state c))), (''index'', JInt (vi_index c)), (''isMT'', JBool (vi_mt c)),
     (''isMpty'', JBool (vi_mpty c)), (''number'', JStr (map char_of (vi_number c))), (''name'', JStr ''''), (''numberPresentation'', JInt 0)]"

definition get_current_calls :: "phone \<Rightarrow> dict" where
  "get_current_calls p = [(''calls'', JArr (map (JObj \<circ> to_ril_dict) (r_calls p)))]"

definition add_voice :: "call_state \<Rightarrow> bool \<Rightarrow> ustr \<Rightarrow> ustr \<Rightarrow> phone \<Rightarrow> phone" where
  "add_voice st mt num cid p = p\<lparr>r_calls := r_calls p @ [\<lparr>vi_index = r_next p, vi_state = st, vi_mt = mt, vi_mpty = False,
     vi_number = num, vi_sip_id = cid\<rparr>], r_next := r_next p + 1\<rparr>"

definition dial_failed :: "int \<Rightarrow> dict run" where
  "dial_failed i = seq (remove_voice i) (seq (act (indicate 1001 [])) (ret (hal_error ''INVITE failed'')))"

definition after_initiate :: "int \<Rightarrow> ustr option \<Rightarrow> dict run" where
  "after_initiate i r =
     (case r of
        Some cid \<Rightarrow> if cid = [] then dial_failed i
          else seq (act (set_voice i (\<lambda>c. c\<lparr>vi_sip_id := cid\<rparr>))) (ret (hal_ok @ [(''callIndex'', JInt i)]))
      | None \<Rightarrow> dial_failed i)"

definition dial :: "ustr \<Rightarrow> dict run" where
  "dial num = read (\<lambda>p. let i = r_next p in
     seq (act (\<lambda>q. indicate 1001 [] (add_voice CS_DIALING False num [] q))) (
     if \<not> r_manager p then ret (hal_ok @ [(''callIndex'', JInt i)])
     else cbind (initiate_call num i) (after_initiate i)))"

definition answer :: "dict run" where
  "answer = read (\<lambda>p. case find (\<lambda>c. vi_state c = CS_INCOMING) (r_calls p) of None \<Rightarrow> ret (hal_error ''No incoming call'')
     | Some c \<Rightarrow>
       seq (act (\<lambda>q. indicate 1001 [] (set_voice (vi_index c) (\<lambda>c. c\<lparr>vi_state := CS_ACTIVE\<rparr>) q))) (
       seq (if r_manager p then ignore (answer_call (vi_sip_id c)) else ret ()) (ret hal_ok)))"

definition hangup :: "int \<Rightarrow> dict run" where
  "hangup i = read (\<lambda>p. case voice_index i p of None \<Rightarrow> ret (hal_error ''Call not found'')
     | Some c \<Rightarrow>
       seq (if r_manager p \<and> vi_sip_id c \<noteq> [] then ignore (hangup_call (vi_sip_id c)) else ret ()) (
       seq (remove_voice i) (
       seq (act (indicate 1001 [])) (ret hal_ok))))"

text \<open>
  \<^verbatim>\<open>switch_waiting_or_holding_and_active\<close>: the loop that holds the active calls walks over the live
  list by position; a call that joins the list while it waits is not visited here.
\<close>

definition hold_actives :: "unit run" where
  "hold_actives = read (\<lambda>p. each (\<lambda>k. read (\<lambda>q.
     if k < length (r_calls q) \<and> vi_state (r_calls q ! k) = CS_ACTIVE then
       (let c = r_calls q ! k in
        seq (act (set_voice (vi_index c) (\<lambda>c. c\<lparr>vi_state := CS_HOLDING\<rparr>)))
            (if r_manager q then ignore (hold_call (vi_sip_id c)) else ret ()))
     else ret ())) [0..<length (r_calls p)])"

definition switch_calls :: "dict run" where
  "switch_calls = read (\<lambda>p.
     seq (case find (\<lambda>c. vi_state c = CS_WAITING) (r_calls p) of
            Some w \<Rightarrow>
              seq hold_actives (
              seq (act (set_voice (vi_index w) (\<lambda>c. c\<lparr>vi_state := CS_ACTIVE\<rparr>)))
                  (if r_manager p \<and> vi_sip_id w \<noteq> [] then ignore (answer_call (vi_sip_id w)) else ret ()))
          | None \<Rightarrow> if r_manager p then ignore swap_calls else ret ())
     (seq (act (indicate 1001 [])) (ret hal_ok)))"

definition conference :: "dict run" where
  "conference = read (\<lambda>p. if r_manager p then cbind conference_calls (\<lambda>b. ret [(''success'', JBool b)])
     else ret (hal_error ''No call manager''))"

definition separate_connection :: "int \<Rightarrow> dict run" where
  "separate_connection i = read (\<lambda>p.
     case find (\<lambda>c. vi_index c = i \<and> vi_mpty c) (r_calls p) of None \<Rightarrow> ret (hal_error ''Call not in conference'')
     | Some c \<Rightarrow>
       seq (act (set_voice i (\<lambda>c. c\<lparr>vi_mpty := False, vi_state := CS_HOLDING\<rparr>))) (
       seq (if r_manager p then ignore (hold_call (vi_sip_id c)) else ret ()) (
       seq (act (indicate 1001 [])) (ret hal_ok))))"

text \<open>The last active and the last held call.\<close>

definition explicit_call_transfer :: "dict run" where
  "explicit_call_transfer = read (\<lambda>p.
     let acts = filter (\<lambda>c. vi_state c = CS_ACTIVE) (r_calls p); helds = filter (\<lambda>c. vi_state c = CS_HOLDING) (r_calls p) in
     if acts = [] \<or> helds = [] then ret (hal_error ''Need active + held call'')
     else if \<not> r_manager p then ret (hal_error ''Transfer failed'')
     else cbind (transfer_call (vi_sip_id (last helds)) (vi_number (last acts))) (\<lambda>ok.
       if ok then seq (remove_voice (vi_index (last acts))) (seq (remove_voice (vi_index (last helds))) (
                  seq (act (indicate 1001 [])) (ret hal_ok)))
       else ret (hal_error ''Transfer failed'')))"

text \<open>A copy of the list is walked; a call that has left the list keeps its last Call-ID.\<close>

definition hangup_all :: "dict run" where
  "hangup_all = read (\<lambda>p.
     seq (each (\<lambda>c. read (\<lambda>q.
            let cid = (case voice_index (vi_index c) q of None \<Rightarrow> vi_sip_id c | Some d \<Rightarrow> vi_sip_id d) in
            if r_manager q \<and> cid \<noteq> [] then ignore (hangup_call cid) else ret ())) (r_calls p)) (
     seq (act (\<lambda>q. indicate 1001 [] (q\<lparr>r_calls := []\<rparr>))) (ret hal_ok)))"

section \<open>Call forwarding, USSD and mute\<close>

text \<open>The USSD handler is the one wired to the HAL's forwarding manager: they share its rules.\<close>

definition hal_send_ussd :: "ustr \<Rightarrow> phone \<Rightarrow> phone \<times> dict" where
  "hal_send_ussd s p = (case r_ussd p of None \<Rightarrow> (p, hal_error ''USSD not available'')
     | Some u \<Rightarrow> (case send_ussd s u of (u', typ, msg) \<Rightarrow>
         (indicate 1028 [(''type'', JInt typ), (''message'', JStr (map char_of msg))]
            (p\<lparr>r_ussd := Some u', r_rules := map_option (\<lambda>_. us_rules u') (r_rules p)\<rparr>), hal_ok)))"

definition hal_cancel_ussd :: "phone \<Rightarrow> phone \<times> dict" where
  "hal_cancel_ussd p = (case r_ussd p of None \<Rightarrow> (p, [(''success'', JBool False)]) | Some u \<Rightarrow> (p\<lparr>r_ussd := Some (cancel_ussd u)\<rparr>, hal_ok))"

definition store_rules :: "cf_rules \<Rightarrow> phone \<Rightarrow> phone" where
  "store_rules rs p = p\<lparr>r_rules := Some rs, r_ussd := map_option (\<lambda>u. u\<lparr>us_rules := rs\<rparr>) (r_ussd p)\<rparr>"

definition set_call_forward :: "int \<Rightarrow> int \<Rightarrow> ustr \<Rightarrow> int \<Rightarrow> phone \<Rightarrow> phone \<times> dict" where
  "set_call_forward action reason num seconds p =
     (case r_rules p of None \<Rightarrow> (p, hal_error ''CF not available'')
      | Some rs \<Rightarrow> (case reason_of reason of Inl _ \<Rightarrow> (p, hal_error (''Invalid reason: '' @ dec_int reason))
         | Inr r \<Rightarrow>
             if action = 0 then (store_rules (fst (disable_rule r rs)) p, hal_ok)
             else if action = 1 then (store_rules (fst (enable_rule r rs)) p, hal_ok)
             else if action = 3 then (store_rules (set_rule r num seconds rs) p, hal_ok)
             else if action = 4 then (store_rules (fst (erase_rule r rs)) p, hal_ok)
             else (p, hal_error (''Invalid action: '' @ dec_int action))))"

definition query_call_forward :: "int \<Rightarrow> phone \<Rightarrow> (int \<times> int \<times> int \<times> ustr \<times> int) list" where
  "query_call_forward reason p = (case r_rules p of None \<Rightarrow> []
     | Some rs \<Rightarrow> (case reason_of reason of Inl _ \<Rightarrow> [] | Inr r \<Rightarrow> query_rule r rs))"

definition set_mute :: "bool \<Rightarrow> phone \<Rightarrow> phone \<times> dict" where
  "set_mute m p = (p\<lparr>r_muted := m\<rparr>, hal_ok)"

definition get_mute :: "phone \<Rightarrow> dict" where
  "get_mute p = [(''muted'', JBool (r_muted p))]"

section \<open>Calls of the manager into the HAL\<close>

definition incoming_call :: "ustr \<Rightarrow> ustr \<Rightarrow> unit run" where
  "incoming_call num cid = read (\<lambda>p.
     let fwd = Option.bind (r_rules p) (\<lambda>rs. case should_forward UNCONDITIONAL rs of Some n \<Rightarrow> if n = [] then None else Some n | None \<Rightarrow> None) in
     case fwd of
       Some n \<Rightarrow> if r_manager p then seq (ignore (hangup_call cid)) (ignore (initiate_call n 0)) else ret ()
     | None \<Rightarrow>
       let st = (if \<exists>c \<in> set (r_calls p). vi_state c = CS_ACTIVE then CS_WAITING else CS_INCOMING) in
       act (\<lambda>q. indicate 1001 [] (indicate 1002 [(''isGsm'', JBool False)] (add_voice st True num cid q))))"

definition mt_call :: "sip_message \<Rightarrow> ustr \<times> int \<Rightarrow> int \<Rightarrow> phone \<Rightarrow> volte_call" where
  "mt_call m addr port p = \<lparr>vc_id = call_id m, vc_index = 0, vc_state = RINGING_IN, vc_mo = False,
     vc_number = extract_number_from_uri (header m ''From''), vc_uri = header m ''From'', vc_local_sdp = offer ''sendrecv'' port p,
     vc_remote_sdp = body_text m, vc_port = port, vc_codec = [], vc_media = None, vc_peer = ([], 0), vc_invite = Some (m, addr),
     vc_transfer = False, vc_target = []\<rparr>"

definition ring_call :: "sip_message \<Rightarrow> ustr \<times> int \<Rightarrow> phone \<Rightarrow> phone \<times> nat res" where
  "ring_call m addr p = (case allocate_rtp_port p of (p1, port) \<Rightarrow> (add_call (mt_call m addr port p) p1, Inr (length (vobjs p))))"

text \<open>The index of the last voice call; IndexError when there is none.\<close>

definition take_last_index :: "nat \<Rightarrow> unit run" where
  "take_last_index i = read (\<lambda>p. if r_calls p = [] then throw IndexError
     else act (set_obj i (\<lambda>c. c\<lparr>vc_index := vi_index (last (r_calls p))\<rparr>)))"

definition handle_incoming_invite :: "sip_message \<Rightarrow> ustr \<times> int \<Rightarrow> unit run" where
  "handle_incoming_invite m addr =
     seq (send_if_client (reply_message 180 ''Ringing'' m) addr) (
     cbind (effect (ring_call m addr)) (\<lambda>i.
     read (\<lambda>p. if \<not> vhal p then ret () else
       seq (incoming_call (extract_number_from_uri (header m ''From'')) (call_id m)) (take_last_index i))))"

definition handle_incoming_refer :: "sip_message \<Rightarrow> ustr \<times> int \<Rightarrow> unit run" where
  "handle_incoming_refer m addr = read (\<lambda>p.
     case find_call (call_id m) p of None \<Rightarrow> ret ()
     | Some i \<Rightarrow>
       seq (send_if_client (reply_message 202 ''Accepted'' m) addr) (
       let target = extract_number_from_uri (header m ''Refer-To'') in
       if target = [] then ret () else
       seq (send_refer_notify i ''SIP/2.0 100 Trying'' ''active'') (
       seq (ignore (hangup_call (call_id m))) (
       read (\<lambda>p. seq (if vhal p then ignore (dial target) else ret ()) (
       send_refer_notify i ''SIP/2.0 200 OK'' ''terminated;reason=noresource''))))))"

text \<open>A status below 200, or none, of a pending request changes only an outgoing call's state, for 180.\<close>

definition handle_response :: "sip_message \<Rightarrow> unit run" where
  "handle_response m = read (\<lambda>p.
     case vclient p of None \<Rightarrow> throw AttributeError
     | Some c \<Rightarrow>
       if \<not> has_pending_request (call_id m) c then ret ()
       else (case status_code m of None \<Rightarrow> throw TypeError
         | Some n \<Rightarrow>
           if n \<ge> 200 then act (\<lambda>q. q\<lparr>vclient := Some (fst (resolve_response m c))\<rparr>)
           else if n = 180 then
             (case find_call (call_id m) p of None \<Rightarrow> ret ()
              | Some i \<Rightarrow> if \<not> vc_mo (call_obj i p) then ret () else
                  seq (act (set_obj i (\<lambda>c. c\<lparr>vc_state := RINGING_OUT\<rparr>))) (tell_hal (vc_index (call_obj i p)) CS_ALERTING))
           else ret ()))"

definition volte_handle_incoming :: "sip_message \<Rightarrow> ustr \<times> int \<Rightarrow> unit run" where
  "volte_handle_incoming m addr =
     (if is_response m then handle_response m
      else if sip_method m = Some (ustr ''INVITE'') then
        read (\<lambda>p. case find_call (call_id m) p of Some i \<Rightarrow> handle_reinvite m addr i | None \<Rightarrow> handle_incoming_invite m addr)
      else if sip_method m = Some (ustr ''BYE'') then handle_incoming_bye m addr
      else if sip_method m = Some (ustr ''CANCEL'') then handle_incoming_cancel m addr
      else if sip_method m = Some (ustr ''REFER'') then handle_incoming_refer m addr
      else if sip_method m = Some (ustr ''NOTIFY'') then handle_incoming_notify m addr
      else ret ())"

section \<open>The system\<close>

datatype request_of_android = Dial ustr | Answer | Hangup int | Switch | Conference | Separate int | Transfer | Hangup_All
  | Ussd ustr | Cancel_Ussd | Forward int int ustr int | Mute bool | Attended ustr ustr | Stop

definition android :: "request_of_android \<Rightarrow> unit run" where
  "android rq = (case rq of Dial n \<Rightarrow> ignore (dial n) | Answer \<Rightarrow> ignore answer | Hangup i \<Rightarrow> ignore (hangup i)
     | Switch \<Rightarrow> ignore switch_calls | Conference \<Rightarrow> ignore conference | Separate i \<Rightarrow> ignore (separate_connection i)
     | Transfer \<Rightarrow> ignore explicit_call_transfer | Hangup_All \<Rightarrow> ignore hangup_all
     | Ussd s \<Rightarrow> act (\<lambda>p. fst (hal_send_ussd s p)) | Cancel_Ussd \<Rightarrow> act (\<lambda>p. fst (hal_cancel_ussd p))
     | Forward a r n t \<Rightarrow> act (\<lambda>p. fst (set_call_forward a r n t p)) | Mute b \<Rightarrow> act (\<lambda>p. fst (set_mute b p))
     | Attended a b \<Rightarrow> ignore (attended_transfer a b) | Stop \<Rightarrow> volte_stop)"

type_synonym system = "phone \<times> (phone, sip_message res) task list"

text \<open>
  A request or a message starts a task; a task whose future has a result, or has waited too long,
  is resumed. A datagram goes either to the client's own handler or to the manager's.
\<close>

definition future_of :: "nat \<Rightarrow> phone \<Rightarrow> future" where
  "future_of f p = (case vclient p of None \<Rightarrow> Cancelled | Some c \<Rightarrow> if f < length (futures c) then snd (futures c ! f) else Cancelled)"

definition expire :: "nat \<Rightarrow> phone \<Rightarrow> phone \<times> exn" where
  "expire f p = (case vclient p of None \<Rightarrow> (p, TimeoutError)
     | Some c \<Rightarrow> (case request_timeout f c of (c', e) \<Rightarrow> (p\<lparr>vclient := Some c'\<rparr>, e)))"

inductive sys_run :: "phone \<Rightarrow> system \<Rightarrow> bool" for p0 where
  start: "sys_run p0 (p0, [])"
| request: "sys_run p0 st \<Longrightarrow> sys_run p0 (spawn (android rq) st)"
| message: "sys_run p0 st \<Longrightarrow> sys_run p0 (spawn (volte_handle_incoming m addr) st)"
| response: "sys_run p0 (p, ts) \<Longrightarrow> vclient p = Some c \<Longrightarrow> sys_run p0 (p\<lparr>vclient := Some (handle_message m c)\<rparr>, ts)"
| resume: "sys_run p0 (p, ts) \<Longrightarrow> i < length ts \<Longrightarrow> future_of (fst (ts ! i)) p = Result m \<Longrightarrow> sys_run p0 (resume i (Inr m) (p, ts))"
| timeout: "sys_run p0 (p, ts) \<Longrightarrow> i < length ts \<Longrightarrow> future_of (fst (ts ! i)) p = Waiting \<Longrightarrow> expire (fst (ts ! i)) p = (p', e) \<Longrightarrow>
    sys_run p0 (resume i (Inl e) (p', ts))"

end
