(* ===== verification/Call_Invariant.thy ===== *)
theory Call_Invariant
  imports Radio
begin

text \<open>
  What holds of the shared call state whatever requests, messages, answers and timeouts come, in
  whatever order the tasks run: the manager's table, the RTP ports and the HAL's call list.
\<close>

definition table_ok :: "phone \<Rightarrow> bool" where
  "table_ok p \<longleftrightarrow> dict_ok (vcalls p) \<and> (\<forall>(cid, i) \<in> set (vcalls p). i < length (vobjs p) \<and> vc_id (vobjs p ! i) = cid)"

definition obj_ok :: "volte_config \<Rightarrow> nat \<Rightarrow> volte_call \<Rightarrow> bool" where
  "obj_ok g i c \<longleftrightarrow> vc_port c = vg_rtp_base g + 2 * int i \<and> (vc_media c \<noteq> None \<longrightarrow> 0 \<le> vc_port c \<and> vc_port c \<le> 65535)"

definition ports_ok :: "phone \<Rightarrow> bool" where
  "ports_ok p \<longleftrightarrow> vport_next p = vg_rtp_base (vcfg p) + 2 * int (length (vobjs p)) \<and> (\<forall>i < length (vobjs p). obj_ok (vcfg p) i (vobjs p ! i))"

definition voice_ok :: "phone \<Rightarrow> bool" where
  "voice_ok p \<longleftrightarrow> distinct (map vi_index (r_calls p)) \<and> (\<forall>c \<in> set (r_calls p). 1 \<le> vi_index c \<and> vi_index c < r_next p) \<and> 1 \<le> r_next p"

definition phone_inv :: "volte_config \<Rightarrow> phone \<Rightarrow> bool" where
  "phone_inv g p \<longleftrightarrow> vcfg p = g \<and> table_ok p \<and> ports_ok p \<and> voice_ok p"

section \<open>Primitive steps\<close>

named_theorems inv_steps "steps that keep the invariant"

lemma inv_same:
  assumes "phone_inv g p" "vcfg q = vcfg p" "vcalls q = vcalls p" "vobjs q = vobjs p" "vport_next q = vport_next p"
    "r_calls q = r_calls p" "r_next q = r_next p"
  shows "phone_inv g q"
  using assms(1) unfolding phone_inv_def table_ok_def ports_ok_def voice_ok_def assms(2-7) by blast

text \<open>A change of a session that leaves its Call-ID and port alone and starts no media.\<close>

definition keeps_call :: "(volte_call \<Rightarrow> volte_call) \<Rightarrow> bool" where
  "keeps_call f \<longleftrightarrow> (\<forall>c. vc_id (f c) = vc_id c \<and> vc_port (f c) = vc_port c \<and> (vc_media (f c) \<noteq> None \<longrightarrow> vc_media c \<noteq> None))"

lemma inv_update_obj:
  assumes "phone_inv g p" "i < length (vobjs p) \<Longrightarrow> obj_ok g i c" "i < length (vobjs p) \<Longrightarrow> vc_id c = vc_id (vobjs p ! i)"
  shows "phone_inv g (p\<lparr>vobjs := (vobjs p)[i := c]\<rparr>)"
proof (cases "i < length (vobjs p)")
  case True
  have "vc_id ((vobjs p)[i := c] ! k) = vc_id (vobjs p ! k)" if "k < length (vobjs p)" for k
    using assms(3) [OF True] that by (cases "k = i") simp_all
  then have "table_ok (p\<lparr>vobjs := (vobjs p)[i := c]\<rparr>)"
    using assms(1) unfolding phone_inv_def table_ok_def by fastforce
  moreover have "ports_ok (p\<lparr>vobjs := (vobjs p)[i := c]\<rparr>)"
    using assms(1) assms(2) [OF True] True by (auto simp: phone_inv_def ports_ok_def) (metis nth_list_update)
  ultimately show ?thesis using assms(1) by (simp add: phone_inv_def voice_ok_def)
qed (use assms(1) in \<open>simp add: list_update_beyond\<close>)

lemma inv_obj: "phone_inv g p \<Longrightarrow> i < length (vobjs p) \<Longrightarrow> obj_ok g i (vobjs p ! i)"
  by (auto simp: phone_inv_def ports_ok_def)

lemma inv_set_obj [inv_steps]: "keeps_call f \<Longrightarrow> phone_inv g p \<Longrightarrow> phone_inv g (set_obj i f p)"
  unfolding set_obj_def by (rule inv_update_obj) (auto dest!: inv_obj simp: obj_ok_def keeps_call_def)

lemma keeps_call_media [simp]: "keeps_call (\<lambda>c. hold_media (c\<lparr>vc_state := st\<rparr>))" "keeps_call (\<lambda>c. resume_media (c\<lparr>vc_state := st\<rparr>))"
  by (simp_all add: keeps_call_def hold_media_def resume_media_def)

lemma inv_next_id [inv_steps]: "phone_inv g p \<Longrightarrow> phone_inv g (fst (next_id p))"
  by (rule inv_same) (simp_all add: next_id_def)

lemma inv_transmit [inv_steps]: "phone_inv g p \<Longrightarrow> phone_inv g (fst (transmit_sip m d p))"
  by (auto simp: transmit_sip_def split: sum.split elim!: inv_same)

lemma inv_indicate [inv_steps]: "phone_inv g p \<Longrightarrow> phone_inv g (indicate n d p)"
  by (erule inv_same) (simp_all add: indicate_def)

lemma inv_count [inv_steps]: "phone_inv g p \<Longrightarrow> phone_inv g (count_active p)" "phone_inv g p \<Longrightarrow> phone_inv g (call_answered i p)"
  by (rule inv_same; simp add: count_active_def call_answered_def)+

lemma inv_map_voice:
  assumes "\<And>c. vi_index (h c) = vi_index c" "phone_inv g p"
  shows "phone_inv g (p\<lparr>r_calls := map h (r_calls p)\<rparr>)"
proof -
  have "vi_index \<circ> h = vi_index" using assms(1) by auto
  with assms show ?thesis by (auto simp: phone_inv_def table_ok_def ports_ok_def voice_ok_def)
qed

lemma inv_set_voice [inv_steps]: "(\<And>c. vi_index (f c) = vi_index c) \<Longrightarrow> phone_inv g p \<Longrightarrow> phone_inv g (set_voice i f p)"
  unfolding set_voice_def by (rule inv_map_voice) simp_all

lemma inv_drop_voice [inv_steps]: "phone_inv g p \<Longrightarrow> phone_inv g (drop_voice i p)"
  by (auto simp: phone_inv_def table_ok_def ports_ok_def voice_ok_def drop_voice_def distinct_map_filter)

lemma inv_add_voice [inv_steps]: "phone_inv g p \<Longrightarrow> phone_inv g (add_voice st mt n cid p)"
  by (auto simp: phone_inv_def table_ok_def ports_ok_def voice_ok_def add_voice_def)

lemma inv_update_state [inv_steps]: "phone_inv g p \<Longrightarrow> phone_inv g (update_call_state i st p)"
  by (simp add: update_call_state_def inv_indicate inv_set_voice)

lemma inv_merge [inv_steps]: "phone_inv g p \<Longrightarrow> phone_inv g (merge_voice a b p)"
  unfolding merge_voice_def by (intro inv_indicate inv_map_voice) simp_all

lemma inv_remove_sip [inv_steps]: "phone_inv g p \<Longrightarrow> phone_inv g (remove_by_sip_id cid p)"
  by (auto simp: remove_by_sip_id_def split: option.split intro: inv_drop_voice)

lemma inv_pop [inv_steps]: "phone_inv g p \<Longrightarrow> phone_inv g (pop_call cid p)"
  by (auto simp: phone_inv_def table_ok_def ports_ok_def voice_ok_def pop_call_def dict_del_def dict_ok_def distinct_map_filter)

lemma inv_stop_media [inv_steps]: "phone_inv g p \<Longrightarrow> phone_inv g (stop_media i p)"
  unfolding stop_media_def
  by (auto split: option.split intro!: inv_set_obj simp: keeps_call_def elim: inv_same)

lemma inv_start_media [inv_steps]:
  assumes "phone_inv g p"
  shows "phone_inv g (start_media i p)"
proof -
  have "phone_inv g (p\<lparr>vtotals := t\<rparr>)" for t by (rule inv_same [OF assms]) simp_all
  then have "phone_inv g (set_obj i (\<lambda>c. c\<lparr>vc_media := Some m, vc_peer := a\<rparr>) (p\<lparr>vtotals := t\<rparr>))"
    if "0 \<le> vc_port (call_obj i p)" "vc_port (call_obj i p) \<le> 65535" for m a t
    unfolding set_obj_def using inv_obj [OF assms] that by (intro inv_update_obj) (auto simp: obj_ok_def call_obj_def)
  with assms show ?thesis unfolding start_media_def Let_def by (auto split: prod.split)
qed

text \<open>A new session gets the next number and the next port.\<close>

lemma inv_add_call:
  assumes "phone_inv g p" "vc_port c = vport_next p" "vc_media c = None"
  shows "phone_inv g (add_call c (p\<lparr>vport_next := vport_next p + 2\<rparr>))"
proof -
  let ?q = "add_call c (p\<lparr>vport_next := vport_next p + 2\<rparr>)"
  have "(cid, i) \<in> set (dict_set k n t) \<Longrightarrow> (cid, i) = (k, n) \<or> (cid, i) \<in> set t" for cid i k n and t :: "(ustr \<times> nat) list"
    using set_dict_set_subset by fastforce
  then have "table_ok ?q"
    using assms(1) unfolding phone_inv_def table_ok_def add_call_def by (fastforce simp: nth_append)
  moreover have "ports_ok ?q"
    using assms by (auto simp: phone_inv_def ports_ok_def add_call_def nth_append less_Suc_eq obj_ok_def)
  ultimately show ?thesis using assms(1) by (simp add: phone_inv_def voice_ok_def add_call_def)
qed

lemma inv_place [inv_steps]: "phone_inv g p \<Longrightarrow> phone_inv g (fst (place_call n i p))"
proof -
  assume p: "phone_inv g p"
  let ?c = "mo_call n i (vids p (vid_next p) @ ustr ''@virtualphone'') (vport_next p) p"
  have "phone_inv g (add_call ?c (p\<lparr>vport_next := vport_next p + 2\<rparr>))"
    by (rule inv_add_call [OF p]) (simp_all add: mo_call_def)
  moreover have "mo_call n i cid port (q\<lparr>vport_next := a, vid_next := b\<rparr>) = mo_call n i cid port q" for q a b cid port
    by (simp add: mo_call_def offer_def)
  ultimately show ?thesis
    by (elim inv_same) (simp_all add: place_call_def allocate_rtp_port_def next_id_def add_call_def)
qed

lemma inv_ring [inv_steps]: "phone_inv g p \<Longrightarrow> phone_inv g (fst (ring_call m a p))"
  using inv_add_call [of g p "mt_call m a (vport_next p) p"]
  by (simp add: ring_call_def allocate_rtp_port_def) (simp add: mt_call_def)

section \<open>Coroutines\<close>

lemma keeps_request [keeping]: "keeps (phone_inv g) (send_request rq)"
proof -
  have "phone_inv g (fst (send_request rq p)) \<and> safe (phone_inv g) (snd (send_request rq p))" if "phone_inv g p" for p
    unfolding send_request_def
    by (auto simp: next_id_def split: option.split prod.split sum.split intro!: inv_same [OF that])
  then show ?thesis by (simp add: keeps_def)
qed

lemma keeps_effect_inv [keeping]: "(\<And>p. phone_inv g p \<Longrightarrow> phone_inv g (fst (f p))) \<Longrightarrow> keeps (phone_inv g) (effect f)"
  by (rule keeps_effect)

lemma keeps_act_const: "phone_inv g q \<Longrightarrow> keeps (phone_inv g) (act (\<lambda>_. q))"
  by (simp add: keeps_def)

lemma keeps_ack [keeping]: "keeps (phone_inv g) (send_ack i)"
  unfolding send_ack_def
  by (intro keeping) (auto simp: next_id_def Let_def intro!: keeping inv_steps keeps_act_const elim: inv_same)

text \<open>Each method: its steps one after the other.\<close>

lemma keeps_start [keeping]: "keeps (phone_inv g) (tell_hal i st)" "keeps (phone_inv g) (send_if_client m d)"
    "keeps (phone_inv g) (remove_voice i)" "keeps (phone_inv g) (del_call cid)" "keeps (phone_inv g) (take_last_index k)"
  unfolding tell_hal_def send_if_client_def remove_voice_def del_call_def take_last_index_def
  by (intro keeping inv_steps; assumption?; simp add: keeps_call_def)+

lemma keeps_calls [simp]: "keeps_call (\<lambda>c. c\<lparr>vc_state := st\<rparr>)" "keeps_call (\<lambda>c. c\<lparr>vc_state := st, vc_codec := u c\<rparr>)"
    "keeps_call (\<lambda>c. c\<lparr>vc_state := st, vc_transfer := b, vc_target := t\<rparr>)" "keeps_call (\<lambda>c. c\<lparr>vc_transfer := b, vc_target := t\<rparr>)"
    "keeps_call (\<lambda>c. c\<lparr>vc_transfer := b\<rparr>)" "keeps_call (\<lambda>c. c\<lparr>vc_remote_sdp := sdp\<rparr>)"
    "keeps_call (\<lambda>c. c\<lparr>vc_state := st, vc_remote_sdp := sdp, vc_codec := u2\<rparr>)"
  by (simp_all add: keeps_call_def)

lemma inv_answered [inv_steps]: "phone_inv g p \<Longrightarrow> phone_inv g (mo_answered i r p)"
  unfolding mo_answered_def by (intro inv_set_obj) (simp_all add: Let_def)

lemma keeps_initiate [keeping]: "keeps (phone_inv g) (initiate_call n i)"
  unfolding initiate_call_def after_invite_def finish_initiate_def by (intro keeping inv_steps; assumption?)

lemma keeps_answer_call [keeping]: "keeps (phone_inv g) (answer_call cid)"
  unfolding answer_call_def by (auto intro!: keeping inv_steps split: prod.split)

lemma keeps_reinvite [keeping]: "keeps (phone_inv g) (reinvite d cid i)"
  unfolding reinvite_def by (intro keeping inv_steps; assumption?)

lemma keeps_hold [keeping]: "keeps (phone_inv g) (hold_call cid)" "keeps (phone_inv g) (resume_call cid)"
  unfolding hold_call_def resume_call_def change_hold_def by (intro keeping inv_steps; assumption?; simp)+

lemma keeps_swap [keeping]: "keeps (phone_inv g) swap_calls"
  unfolding swap_calls_def Let_def by (intro keeping)

lemma keeps_conference [keeping]: "keeps (phone_inv g) conference_calls"
  unfolding conference_calls_def Let_def by (intro keeping inv_steps; assumption?; simp)

lemma keeps_transfer [keeping]: "keeps (phone_inv g) (transfer_call cid n)"
  unfolding transfer_call_def refer_accepted_def Let_def by (intro keeping inv_steps; assumption?; simp)

lemma keeps_attended [keeping]: "keeps (phone_inv g) (attended_transfer a b)"
  unfolding attended_transfer_def refer_accepted_def Let_def
  by (auto intro!: keeping inv_steps split: option.split)

lemma keeps_hangup_call [keeping]: "keeps (phone_inv g) (hangup_call cid)"
  unfolding hangup_call_def by (intro keeping inv_steps; assumption?; simp)

lemma keeps_stop [keeping]: "keeps (phone_inv g) volte_stop"
  unfolding volte_stop_def
  by (intro keeping; auto intro!: keeping elim: inv_same)

lemma keeps_remote_end [keeping]: "keeps (phone_inv g) (remote_end m a)"
  unfolding remote_end_def Let_def by (intro keeping inv_steps; assumption?)

lemma keeps_remote [keeping]: "keeps (phone_inv g) (handle_incoming_bye m a)" "keeps (phone_inv g) (handle_incoming_cancel m a)"
    "keeps (phone_inv g) (handle_reinvite m a i)" "keeps (phone_inv g) (handle_incoming_notify m a)"
    "keeps (phone_inv g) (send_refer_notify i f st)"
  unfolding handle_incoming_bye_def handle_incoming_cancel_def handle_reinvite_def handle_incoming_notify_def
    send_refer_notify_def Let_def
  by (intro keeping inv_steps; assumption?; simp)+

lemma keeps_dial [keeping]: "keeps (phone_inv g) (dial n)"
  unfolding dial_def after_initiate_def dial_failed_def Let_def by (intro keeping inv_steps; assumption?; simp)

lemma keeps_requests [keeping]: "keeps (phone_inv g) answer" "keeps (phone_inv g) (hangup i)" "keeps (phone_inv g) conference"
    "keeps (phone_inv g) (separate_connection i)" "keeps (phone_inv g) explicit_call_transfer"
  unfolding answer_def hangup_def conference_def separate_connection_def explicit_call_transfer_def Let_def
  by (intro keeping inv_steps; assumption?; simp)+

lemma keeps_actives [keeping]: "keeps (phone_inv g) hold_actives"
  unfolding hold_actives_def Let_def by (intro keeping inv_steps; assumption?; simp)

lemma keeps_switch [keeping]: "keeps (phone_inv g) switch_calls"
  unfolding switch_calls_def by (intro keeping inv_steps; assumption?; simp)

lemma inv_no_calls: "phone_inv g p \<Longrightarrow> phone_inv g (p\<lparr>r_calls := []\<rparr>)"
  by (auto simp: phone_inv_def table_ok_def ports_ok_def voice_ok_def)

lemma keeps_hangup_all [keeping]: "keeps (phone_inv g) hangup_all"
  unfolding hangup_all_def Let_def by (intro keeping inv_steps inv_no_calls; assumption?)

lemma keeps_incoming [keeping]: "keeps (phone_inv g) (incoming_call n cid)" "keeps (phone_inv g) (handle_incoming_invite m a)"
    "keeps (phone_inv g) (handle_incoming_refer m a)"
  unfolding incoming_call_def handle_incoming_invite_def handle_incoming_refer_def Let_def
  by (intro keeping inv_steps; assumption?)+

lemma keeps_response [keeping]: "keeps (phone_inv g) (handle_response m)"
  unfolding handle_response_def
proof (intro keeping inv_steps; (assumption | simp)?)
  fix p c assume "phone_inv g p"
  then show "phone_inv g (p\<lparr>vclient := Some (fst (resolve_response m c))\<rparr>)" by (rule inv_same) simp_all
qed

lemma keeps_message: "keeps (phone_inv g) (volte_handle_incoming m a)"
  unfolding volte_handle_incoming_def by (intro keeping)

lemma inv_services:
  assumes "phone_inv g p"
  shows "phone_inv g (fst (hal_send_ussd s p))" "phone_inv g (fst (hal_cancel_ussd p))" "phone_inv g (fst (set_call_forward x r n t p))"
    "phone_inv g (fst (set_mute b p))"
  by (auto simp: hal_send_ussd_def hal_cancel_ussd_def set_call_forward_def set_mute_def store_rules_def
      split: option.split prod.split sum.split intro!: inv_steps inv_same [OF assms] assms)

lemma keeps_android: "keeps (phone_inv g) (android rq)"
  by (cases rq) (auto simp: android_def intro!: keeping inv_services)

section \<open>Runs\<close>

lemma sys_run_inv:
  assumes "sys_run p0 st" "phone_inv g p0"
  shows "loop_inv (phone_inv g) st"
  using assms
proof (induction rule: sys_run.induct)
  case (response p ts c m)
  have "phone_inv g (p\<lparr>vclient := x\<rparr>)" if "phone_inv g p" for x by (rule inv_same [OF that]) simp_all
  with response show ?case by (auto simp: loop_inv_def)
next
  case (resume p ts i m)
  then show ?case by (auto intro: resume_inv)
next
  case (timeout p ts i p' e)
  have "phone_inv g p'" if "phone_inv g p"
    using timeout(4) by (auto simp: expire_def split: option.splits prod.splits intro: inv_same [OF that] that)
  with timeout have "loop_inv (phone_inv g) (p', ts)" by (auto simp: loop_inv_def)
  with timeout show ?case by (auto intro: resume_inv)
next
  case start
  then show ?case by (simp add: loop_inv_def)
qed (use spawn_inv keeps_message keeps_android in blast)+

lemma new_phone_inv: "phone_inv g (volte_start (new_phone g ids ss bd))"
  by (simp add: volte_start_def new_phone_def phone_inv_def table_ok_def ports_ok_def voice_ok_def)

end
