(* ===== verification/Call_Steps.thy ===== *)
theory Call_Steps
  imports Call_Invariant
begin

text \<open>
  What the primitive steps and the two halves of a request do to the shared state, for the proofs
  about whole calls. Texts that leave the phone have to be encodable.
\<close>

section \<open>Texts\<close>

definition unicode_headers :: "(ustr \<times> ustr) list \<Rightarrow> bool" where
  "unicode_headers hs \<longleftrightarrow> (\<forall>(k, v) \<in> set hs. unicode_text k \<and> unicode_text v)"

lemma unicode_headers_simps [simp]: "unicode_headers []"
  "unicode_headers ((k, v) # hs) \<longleftrightarrow> unicode_text k \<and> unicode_text v \<and> unicode_headers hs"
  "unicode_headers (hs @ hs') \<longleftrightarrow> unicode_headers hs \<and> unicode_headers hs'"
  by (auto simp: unicode_headers_def)

lemma unicode_headers_set: "unicode_headers hs \<Longrightarrow> unicode_text k \<Longrightarrow> unicode_text v \<Longrightarrow> unicode_headers (dict_set k v hs)"
  using set_dict_set_subset [of k v hs] by (fastforce simp: unicode_headers_def)

lemma unicode_headers_update: "unicode_headers hs \<Longrightarrow> unicode_headers hs' \<Longrightarrow> unicode_headers (dict_update hs hs')"
  unfolding dict_update_def by (induction hs' arbitrary: hs) (auto simp: unicode_headers_set)

definition message_text_ok :: "sip_message \<Rightarrow> bool" where
  "message_text_ok m \<longleftrightarrow> unicode_text (show_opt (sip_method m)) \<and> unicode_text (show_opt (request_uri m))
     \<and> unicode_text (show_opt (reason_phrase m)) \<and> unicode_headers (headers m)"

lemma serialize_text:
  assumes "message_text_ok m"
  shows "\<exists>bs. sip_serialize m = Inr (with_length m, bs)"
proof -
  have n: "unicode_text (show_opt (map_option ustr_of_int x))" for x by (cases x) (simp_all add: show_opt_def)
  have "unicode_headers (headers (with_length m))"
    using assms by (auto simp: with_length_def message_text_ok_def intro!: unicode_headers_set)
  then have h: "\<forall>l \<in> set (map header_line (headers (with_length m))). unicode_text l"
    by (auto simp: unicode_headers_def header_line_def)
  moreover have "unicode_text (first_line m)" using assms n by (simp add: first_line_def message_text_ok_def)
  ultimately have "\<forall>l \<in> set (first_line m # map header_line (headers (with_length m)) @ [[]]). unicode_text l" by simp
  then have "unicode_text (join_with CRLF (first_line m # map header_line (headers (with_length m)) @ [[]]))"
    by (rule unicode_join) simp
  then show ?thesis by (simp add: sip_serialize_def utf8_encode_def Let_def)
qed

definition texts_ok :: "phone \<Rightarrow> bool" where
  "texts_ok p \<longleftrightarrow> (\<forall>t \<in> {vg_impu (vcfg p), vg_home (vcfg p), vg_route (vcfg p), vg_local_ip (vcfg p), vg_transport (vcfg p)}. unicode_text t)
     \<and> (\<forall>n. unicode_text (vids p n)) \<and> (\<forall>c. vclient p = Some c \<longrightarrow> unicode_text (cl_kind c) \<and> unicode_text (cl_ip c))
     \<and> (\<forall>c \<in> set (vobjs p). unicode_text (vc_id c) \<and> unicode_text (vc_uri c) \<and> unicode_text (vc_local_sdp c))"

lemma texts_obj: "texts_ok p \<Longrightarrow> i < length (vobjs p) \<Longrightarrow>
    unicode_text (vc_id (call_obj i p)) \<and> unicode_text (vc_uri (call_obj i p)) \<and> unicode_text (vc_local_sdp (call_obj i p))"
  by (simp add: texts_ok_def call_obj_def)

lemma unicode_sip_uri: "unicode_text u \<Longrightarrow> unicode_text (sip_uri u)"
  by (simp add: sip_uri_def)

lemma unicode_drop: "unicode_text t \<Longrightarrow> unicode_text (dropWhile P t)"
  by (metis takeWhile_dropWhile_id unicode_text_simps(3))

lemma unicode_offer: "texts_ok p \<Longrightarrow> unicode_text (offer d port p)"
proof -
  have j: "unicode_text (join_with [32] (map (ustr \<circ> dec_nat \<circ> fst) xs))" for xs :: "(nat \<times> string) list"
    by (rule unicode_join) auto
  have k: "unicode_text (join_with CRLF (map rtpmap_line xs))" for xs
    by (rule unicode_join) (auto simp: rtpmap_line_def split: prod.splits)
  show "texts_ok p \<Longrightarrow> ?thesis" by (auto simp: offer_def build_sdp_offer_def texts_ok_def j k)
qed

lemma texts_route: "texts_ok p \<Longrightarrow> unicode_headers (route_header p)" "texts_ok p \<Longrightarrow> unicode_text (own_uri p)"
  by (auto simp: texts_ok_def route_header_def own_uri_def unicode_sip_uri)

section \<open>Sending\<close>

lemma transmit_ok:
  assumes "message_text_ok m"
  shows "transmit_sip m d p = (if vup p then p\<lparr>vout := vout p @ [(d, with_length m)]\<rparr> else p, Inr ())"
  using serialize_text [OF assms] by (auto simp: transmit_sip_def)

definition request_text_ok :: "request \<Rightarrow> bool" where
  "request_text_ok rq \<longleftrightarrow> unicode_text (rq_method rq) \<and> unicode_text (rq_uri rq) \<and> unicode_text (rq_to rq) \<and> unicode_text (rq_from rq)
     \<and> unicode_headers (rq_extra rq) \<and> (\<forall>cid. rq_call_id rq = Some cid \<longrightarrow> unicode_text cid)"

lemma call_request_text:
  assumes "texts_ok p" "unicode_headers extra" "unicode_text cid" "i < length (vobjs p)"
  shows "request_text_ok (call_request meth extra body cid i p)"
  using assms texts_obj [OF assms(1,4)] texts_route [OF assms(1)] by (simp add: request_text_ok_def call_request_def)

text \<open>What a request that waits changes: the client, the next identifiers, and one message more.\<close>

definition request_sent :: "request \<Rightarrow> phone \<Rightarrow> phone \<Rightarrow> bool" where
  "request_sent rq p p' \<longleftrightarrow> p' = p\<lparr>vid_next := vid_next p', vclient := vclient p', vout := vout p'\<rparr>
     \<and> (\<exists>c'. vclient p' = Some c' \<and> unicode_text (cl_kind c') \<and> unicode_text (cl_ip c'))
     \<and> (if vup p then \<exists>m. vout p' = vout p @ [(pcscf p, m)] \<and> sip_method m = Some (rq_method rq) \<and> request_uri m = Some (rq_uri rq)
          \<and> sip_body m = rq_body rq else vout p' = vout p)"

lemma send_request_waits:
  assumes "texts_ok p" "vclient p = Some c" "request_text_ok rq"
  shows "\<exists>p'. send_request rq p = (p', Wait (length (futures c)) ret) \<and> request_sent rq p p'"
proof -
  let ?fresh = "vids p (vid_next p) @ ustr ''@virtualphone''" and ?branch = "ustr ''z9hG4bK'' @ vids p (Suc (vid_next p))"
    and ?tag = "vids p (Suc (Suc (vid_next p)))"
  let ?m = "request_message rq (request_id rq ?fresh) ?branch ?tag c"
  have u: "unicode_text (vids p n)" for n using assms(1) by (simp add: texts_ok_def)
  have k: "unicode_text (cl_kind c)" "unicode_text (cl_ip c)" using assms(1,2) by (simp_all add: texts_ok_def)
  have "unicode_text (request_id rq ?fresh)"
    using assms(3) u by (auto simp: request_id_def request_text_ok_def split: option.split)
  then have "unicode_headers (headers ?m)"
    using assms(3) u k unfolding request_message_def Let_def
    by (auto simp: request_text_ok_def intro!: unicode_headers_update)
  then have "message_text_ok ?m"
    using assms(3) by (simp add: message_text_ok_def request_message_def Let_def show_opt_def request_text_ok_def)
  then obtain bs where s: "sip_serialize ?m = Inr (with_length ?m, bs)" using serialize_text by blast
  have w: "sip_method (with_length ?m) = Some (rq_method rq)" "request_uri (with_length ?m) = Some (rq_uri rq)"
    "sip_body (with_length ?m) = rq_body rq"
    by (simp_all add: with_length_def request_message_def Let_def)
  show ?thesis
    using s assms(2) k w
    by (auto simp: send_request_def next_id_def begin_request_def Let_def request_sent_def)
qed

lemma request_sentD:
  assumes "request_sent rq p p'"
  shows "vobjs p' = vobjs p" "vcalls p' = vcalls p" "r_calls p' = r_calls p" "r_next p' = r_next p" "vcfg p' = vcfg p" "vup p' = vup p"
    "vstarted p' = vstarted p" "vhal p' = vhal p" "r_manager p' = r_manager p" "r_rules p' = r_rules p" "vactive p' = vactive p"
    "vtotal p' = vtotal p" "vids p' = vids p" "r_callback p' = r_callback p" "vtotals p' = vtotals p" "vport_next p' = vport_next p"
    "r_sent p' = r_sent p" "vbind p' = vbind p" "vssrc p' = vssrc p" "vclient p' \<noteq> None"
proof -
  have p: "p' = p\<lparr>vid_next := vid_next p', vclient := vclient p', vout := vout p'\<rparr>" using assms by (simp add: request_sent_def)
  show "vobjs p' = vobjs p" "vcalls p' = vcalls p" "r_calls p' = r_calls p" "r_next p' = r_next p" "vcfg p' = vcfg p" "vup p' = vup p"
    "vstarted p' = vstarted p" "vhal p' = vhal p" "r_manager p' = r_manager p" "r_rules p' = r_rules p" "vactive p' = vactive p"
    "vtotal p' = vtotal p" "vids p' = vids p" "r_callback p' = r_callback p" "vtotals p' = vtotals p" "vport_next p' = vport_next p"
    "r_sent p' = r_sent p" "vbind p' = vbind p" "vssrc p' = vssrc p"
    by (subst p; simp)+
  show "vclient p' \<noteq> None" using assms by (auto simp: request_sent_def)
qed

lemma request_sent_texts:
  assumes "request_sent rq p p'" "texts_ok p"
  shows "texts_ok p'"
proof -
  obtain c where "vclient p' = Some c" "unicode_text (cl_kind c)" "unicode_text (cl_ip c)"
    using assms(1) by (auto simp: request_sent_def)
  then show ?thesis using assms(2) by (simp add: texts_ok_def request_sentD [OF assms(1)])
qed

section \<open>Sessions\<close>

lemma call_obj_set [simp]:
  "call_obj j (set_obj i f p) = (if j = i \<and> i < length (vobjs p) then f (call_obj i p) else call_obj j p)"
proof (cases "i < length (vobjs p)")
  case True
  then show ?thesis by (simp add: call_obj_def set_obj_def nth_list_update)
next
  case False
  then have "(vobjs p)[i := f (vobjs p ! i)] = vobjs p" by (simp add: list_update_beyond)
  with False show ?thesis by (simp add: call_obj_def set_obj_def)
qed

lemma set_obj_fields [simp]: "length (vobjs (set_obj i f p)) = length (vobjs p)" "vcalls (set_obj i f p) = vcalls p"
    "r_calls (set_obj i f p) = r_calls p" "vclient (set_obj i f p) = vclient p" "vup (set_obj i f p) = vup p" "vcfg (set_obj i f p) = vcfg p"
    "vids (set_obj i f p) = vids p" "vhal (set_obj i f p) = vhal p" "vout (set_obj i f p) = vout p" "vtotal (set_obj i f p) = vtotal p"
    "r_sent (set_obj i f p) = r_sent p" "vstarted (set_obj i f p) = vstarted p" "r_callback (set_obj i f p) = r_callback p"
    "vactive (set_obj i f p) = vactive p" "r_manager (set_obj i f p) = r_manager p" "r_next (set_obj i f p) = r_next p" "r_rules (set_obj i f p) = r_rules p"
    "vid_next (set_obj i f p) = vid_next p" "vbind (set_obj i f p) = vbind p" "vssrc (set_obj i f p) = vssrc p"
  by (simp_all add: set_obj_def)

lemma call_obj_cong: "vobjs q = vobjs p \<Longrightarrow> call_obj i q = call_obj i p"
  by (simp add: call_obj_def)

lemma active_calls_cong: "vcalls q = vcalls p \<Longrightarrow> (\<And>i. vc_state (call_obj i q) = vc_state (call_obj i p)) \<Longrightarrow> active_calls q = active_calls p"
  by (simp add: active_calls_def)

text \<open>Media changes the session's own media and peer, and the totals.\<close>

definition same_but_media :: "nat \<Rightarrow> phone \<Rightarrow> phone \<Rightarrow> bool" where
  "same_but_media i p p' \<longleftrightarrow> p' = p\<lparr>vobjs := vobjs p', vtotals := vtotals p'\<rparr> \<and> length (vobjs p') = length (vobjs p)
     \<and> (\<forall>j. j \<noteq> i \<longrightarrow> call_obj j p' = call_obj j p)
     \<and> call_obj i p' = (call_obj i p)\<lparr>vc_media := vc_media (call_obj i p'), vc_peer := vc_peer (call_obj i p')\<rparr>"

lemma same_but_mediaD:
  assumes "same_but_media i p p'"
  shows "vcalls p' = vcalls p" "r_calls p' = r_calls p" "vcfg p' = vcfg p" "vup p' = vup p" "vstarted p' = vstarted p" "vhal p' = vhal p"
    "r_manager p' = r_manager p" "vactive p' = vactive p" "vtotal p' = vtotal p" "vout p' = vout p" "vclient p' = vclient p"
    "vids p' = vids p" "r_sent p' = r_sent p" "r_callback p' = r_callback p" "r_next p' = r_next p"
    "vc_state (call_obj j p') = vc_state (call_obj j p)" "vc_id (call_obj j p') = vc_id (call_obj j p)"
    "vc_codec (call_obj j p') = vc_codec (call_obj j p)" "vc_local_sdp (call_obj j p') = vc_local_sdp (call_obj j p)"
    "length (vobjs p') = length (vobjs p)" "vc_uri (call_obj j p') = vc_uri (call_obj j p)"
    "vc_index (call_obj j p') = vc_index (call_obj j p)"
proof -
  have p: "p' = p\<lparr>vobjs := vobjs p', vtotals := vtotals p'\<rparr>" and o: "j \<noteq> i \<Longrightarrow> call_obj j p' = call_obj j p"
    and i: "call_obj i p' = (call_obj i p)\<lparr>vc_media := vc_media (call_obj i p'), vc_peer := vc_peer (call_obj i p')\<rparr>"
    using assms by (auto simp: same_but_media_def)
  show "vcalls p' = vcalls p" "r_calls p' = r_calls p" "vcfg p' = vcfg p" "vup p' = vup p" "vstarted p' = vstarted p" "vhal p' = vhal p"
    "r_manager p' = r_manager p" "vactive p' = vactive p" "vtotal p' = vtotal p" "vout p' = vout p" "vclient p' = vclient p"
    "vids p' = vids p" "r_sent p' = r_sent p" "r_callback p' = r_callback p" "r_next p' = r_next p"
    by (subst p; simp)+
  show "vc_state (call_obj j p') = vc_state (call_obj j p)" "vc_id (call_obj j p') = vc_id (call_obj j p)"
    "vc_codec (call_obj j p') = vc_codec (call_obj j p)" "vc_local_sdp (call_obj j p') = vc_local_sdp (call_obj j p)"
    "vc_uri (call_obj j p') = vc_uri (call_obj j p)" "vc_index (call_obj j p') = vc_index (call_obj j p)"
    by (cases "j = i"; use o in simp; subst i; simp)+
  show "length (vobjs p') = length (vobjs p)" using assms by (simp add: same_but_media_def)
qed

lemma texts_ok_change:
  assumes "texts_ok p" "vcfg q = vcfg p" "vids q = vids p" "vclient q = vclient p" "length (vobjs q) = length (vobjs p)"
    and "\<And>j. vc_id (call_obj j q) = vc_id (call_obj j p) \<and> vc_uri (call_obj j q) = vc_uri (call_obj j p)
      \<and> vc_local_sdp (call_obj j q) = vc_local_sdp (call_obj j p)"
  shows "texts_ok q"
  using assms by (auto simp: texts_ok_def set_conv_nth call_obj_def)

lemma same_set_obj:
  assumes "\<And>c. f c = c\<lparr>vc_media := vc_media (f c), vc_peer := vc_peer (f c)\<rparr>"
  shows "same_but_media i p (set_obj i f (p\<lparr>vtotals := t\<rparr>))"
proof -
  have c: "call_obj j (p\<lparr>vtotals := t\<rparr>) = call_obj j p" for j by (simp add: call_obj_def)
  have "f (call_obj i p) = (call_obj i p)\<lparr>vc_media := vc_media (f (call_obj i p)), vc_peer := vc_peer (f (call_obj i p))\<rparr>" by (rule assms)
  then show ?thesis by (simp add: same_but_media_def c) (simp add: set_obj_def)
qed

lemma same_refl: "same_but_media i p p"
  by (simp add: same_but_media_def)

lemma start_media_same: "same_but_media i p (start_media i p)"
  by (auto simp: start_media_def Let_def intro!: same_refl same_set_obj split: prod.split)

lemma stop_media_same: "same_but_media i p (stop_media i p)"
  by (auto simp: stop_media_def intro!: same_refl same_set_obj split: option.split)

lemma stop_media_none: "i < length (vobjs p) \<Longrightarrow> vc_media (call_obj i (stop_media i p)) = None"
  by (auto simp: stop_media_def set_obj_def call_obj_def split: option.split)

text \<open>When the answer names a port, media runs to it.\<close>

lemma start_media_runs:
  assumes "i < length (vobjs p)" "parse_remote_rtp_address (vc_remote_sdp (call_obj i p)) = (ip, port)" "port \<noteq> 0"
    "vc_remote_sdp (call_obj i p) \<noteq> []" "0 < vc_port (call_obj i p)" "vc_port (call_obj i p) \<le> 65535"
  shows "\<exists>m. vc_media (call_obj i (start_media i p)) = Some m \<and> m_active m \<and> \<not> m_held m \<and> vc_peer (call_obj i (start_media i p)) = (ip, port)"
  using assms by (auto simp: start_media_def Let_def set_obj_def call_obj_def media_start_def new_media_def split: prod.split)

section \<open>Voice calls\<close>

lemma voice_fields [simp]: "vobjs (set_voice i f p) = vobjs p" "vcalls (set_voice i f p) = vcalls p" "vobjs (drop_voice i p) = vobjs p"
    "vcalls (drop_voice i p) = vcalls p" "vobjs (indicate n d p) = vobjs p" "vcalls (indicate n d p) = vcalls p" "r_calls (indicate n d p) = r_calls p"
    "vobjs (update_call_state i st p) = vobjs p" "vcalls (update_call_state i st p) = vcalls p" "vout (update_call_state i st p) = vout p"
    "vactive (update_call_state i st p) = vactive p" "vtotal (update_call_state i st p) = vtotal p" "vout (indicate n d p) = vout p"
    "vout (set_voice i f p) = vout p" "vout (drop_voice i p) = vout p" "vtotal (set_voice i f p) = vtotal p" "vactive (set_voice i f p) = vactive p"
    "vactive (indicate n d p) = vactive p" "vtotal (indicate n d p) = vtotal p"
  by (auto simp: set_voice_def drop_voice_def indicate_def update_call_state_def)

lemma call_obj_voice [simp]: "call_obj j (set_voice i f p) = call_obj j p" "call_obj j (drop_voice i p) = call_obj j p"
    "call_obj j (indicate n d p) = call_obj j p" "call_obj j (update_call_state i st p) = call_obj j p"
  by (simp_all add: call_obj_def)

lemma active_voice [simp]: "active_calls (set_voice i f p) = active_calls p" "active_calls (indicate n d p) = active_calls p"
    "active_calls (update_call_state i st p) = active_calls p" "active_calls (drop_voice i p) = active_calls p"
  by (simp_all add: active_calls_def)

lemma find_call_voice [simp]: "find_call cid (set_voice i f p) = find_call cid p" "find_call cid (indicate n d p) = find_call cid p"
    "find_call cid (update_call_state i st p) = find_call cid p" "find_call cid (drop_voice i p) = find_call cid p"
    "find_call cid (set_obj j g p) = find_call cid p"
  by (simp_all add: find_call_def)

lemma set_voice_absent: "voice_index i p = None \<Longrightarrow> set_voice i f p = p"
proof -
  assume "voice_index i p = None"
  then have "map (\<lambda>c. if vi_index c = i then f c else c) (r_calls p) = r_calls p"
    by (intro map_idI) (auto simp: voice_index_def find_None_iff)
  then show ?thesis by (simp add: set_voice_def)
qed

lemma update_absent: "voice_index i p = None \<Longrightarrow> update_call_state i st p = p"
  by (simp add: update_call_state_def)

end
