(* ===== verification/Call_Flows.thy ===== *)
theory Call_Flows
  imports Call_Steps
begin

text \<open>
  Whole calls: dialling with every outcome of the INVITE, hanging up, and what happens when other
  tasks run while a request waits. The continuation of a waiting request is taken from the
  coroutine itself and resumed in an arbitrary later state.
\<close>

lemma find_append: "find P (xs @ ys) = (case find P xs of None \<Rightarrow> find P ys | Some x \<Rightarrow> Some x)"
  by (induction xs) auto

section \<open>The ACK\<close>

lemma send_ack_sent:
  assumes "texts_ok q" "vclient q = Some c" "i < length (vobjs q)"
  shows "\<exists>m. sip_method m = Some (ustr ''ACK'') \<and> call_id m = vc_id (call_obj i q) \<and> request_uri m = Some (vc_uri (call_obj i q))
     \<and> send_ack i q = (q\<lparr>vid_next := vid_next q + 2, vout := (if vup q then vout q @ [(pcscf q, m)] else vout q)\<rparr>, Ret ())"
proof -
  let ?m = "ack_message i (vids q (vid_next q)) (vids q (vid_next q + 1)) c q"
  have u: "unicode_text (vids q n)" "unicode_text (own_uri q)" "unicode_text (vg_transport (vcfg q))" "unicode_text (cl_ip c)" for n
    using assms(1,2) texts_route(2) [OF assms(1)] by (auto simp: texts_ok_def)
  have "message_text_ok ?m"
    using u texts_obj [OF assms(1,3)] by (simp add: ack_message_def message_text_ok_def show_opt_def Let_def empty_sip_def)
  moreover have "sip_method (with_length ?m) = Some (ustr ''ACK'')" "call_id (with_length ?m) = vc_id (call_obj i q)"
    "request_uri (with_length ?m) = Some (vc_uri (call_obj i q))"
    by (simp_all add: with_length_def ack_message_def Let_def call_id_def header_def empty_sip_def dict_get_def ustr_simps)
  ultimately show ?thesis
    using assms(2) by (intro exI [of _ "with_length ?m"]) (auto simp: send_ack_def next_id_def transmit_ok effect_run pcscf_def)
qed

section \<open>Dialling\<close>

text \<open>The state when the INVITE goes out: from the manager, and from the HAL.\<close>

definition placed :: "ustr \<Rightarrow> int \<Rightarrow> phone \<Rightarrow> phone" where
  "placed num n p = fst (place_call num n p)"

definition dialled :: "ustr \<Rightarrow> phone \<Rightarrow> phone" where
  "dialled num p = placed num (r_next p) (indicate 1001 [] (add_voice CS_DIALING False num [] p))"

lemma placed_fields: "vobjs (placed num n p) = vobjs p @ [mo_call num n (vids p (vid_next p) @ ustr ''@virtualphone'') (vport_next p) p]"
    "vcalls (placed num n p) = dict_set (vids p (vid_next p) @ ustr ''@virtualphone'') (length (vobjs p)) (vcalls p)"
    "r_calls (placed num n p) = r_calls p" "r_next (placed num n p) = r_next p" "vcfg (placed num n p) = vcfg p" "vclient (placed num n p) = vclient p"
    "vup (placed num n p) = vup p" "vstarted (placed num n p) = vstarted p" "vout (placed num n p) = vout p" "vids (placed num n p) = vids p"
    "r_manager (placed num n p) = r_manager p" "vhal (placed num n p) = vhal p" "vtotal (placed num n p) = vtotal p" "vactive (placed num n p) = vactive p"
    "r_callback (placed num n p) = r_callback p" "r_rules (placed num n p) = r_rules p"
  by (simp_all add: placed_def place_call_def allocate_rtp_port_def next_id_def add_call_def mo_call_def offer_def)

lemma dialled_fields: "vobjs (dialled num p) = vobjs p @ [mo_call num (r_next p) (vids p (vid_next p) @ ustr ''@virtualphone'') (vport_next p) p]"
    "vcalls (dialled num p) = dict_set (vids p (vid_next p) @ ustr ''@virtualphone'') (length (vobjs p)) (vcalls p)"
    "r_calls (dialled num p) = r_calls p @ [\<lparr>vi_index = r_next p, vi_state = CS_DIALING, vi_mt = False, vi_mpty = False, vi_number = num, vi_sip_id = []\<rparr>]"
    "r_next (dialled num p) = r_next p + 1" "vcfg (dialled num p) = vcfg p" "vclient (dialled num p) = vclient p"
    "vup (dialled num p) = vup p" "vstarted (dialled num p) = vstarted p" "vout (dialled num p) = vout p" "vids (dialled num p) = vids p"
    "r_manager (dialled num p) = r_manager p" "vhal (dialled num p) = vhal p" "vtotal (dialled num p) = vtotal p" "vactive (dialled num p) = vactive p"
    "r_callback (dialled num p) = r_callback p" "r_rules (dialled num p) = r_rules p"
  by (simp_all add: dialled_def placed_fields) (simp_all add: mo_call_def indicate_def add_voice_def offer_def)

lemma placed_texts: "texts_ok p \<Longrightarrow> unicode_text num \<Longrightarrow> texts_ok (placed num n p)"
  using unicode_offer [of p] unicode_drop [of num] by (auto simp: texts_ok_def placed_fields mo_call_def)

lemma added_texts: "texts_ok (indicate k d (add_voice st mt num cid p)) = texts_ok p"
  by (simp add: texts_ok_def indicate_def add_voice_def)

lemma dialled_texts: "texts_ok p \<Longrightarrow> unicode_text num \<Longrightarrow> texts_ok (dialled num p)"
  by (simp add: dialled_def placed_texts added_texts)

lemma initiate_waits:
  assumes "texts_ok p" "vstarted p" "vclient p = Some c" "unicode_text num"
  shows "\<exists>p' body. initiate_call num n p = (p', Wait (length (futures c)) (after_invite (length (vobjs p)) n))
     \<and> request_sent (invite_request (length (vobjs p)) body (placed num n p)) (placed num n p) p'"
proof -
  let ?i = "length (vobjs p)" and ?d = "placed num n p"
  have t: "texts_ok ?d" using placed_texts assms(1,4) by blast
  have i: "?i < length (vobjs ?d)" by (simp add: placed_fields)
  obtain body where b: "utf8_encode (vc_local_sdp (call_obj ?i ?d)) = Inr body"
    using texts_obj [OF t i] by (auto simp: utf8_encode_def)
  have "request_text_ok (invite_request ?i body ?d)"
    unfolding invite_request_def using texts_obj [OF t i] texts_route(2) [OF t]
    by (intro call_request_text [OF t]) (auto simp: i)
  then obtain p' where s: "send_request (invite_request ?i body ?d) ?d = (p', Wait (length (futures c)) ret)"
    and r: "request_sent (invite_request ?i body ?d) ?d p'"
    using send_request_waits [OF t, of c] assms(3) by (force simp: placed_fields)
  have place: "effect (place_call num n) p = (?d, Ret ?i)"
    by (simp add: effect_run placed_def place_call_def allocate_rtp_port_def next_id_def split: prod.split)
  have "initiate_call num n p = (p', Wait (length (futures c)) (after_invite ?i n))"
    using assms(2) s by (simp add: initiate_call_def cbind_ret [where m = "effect _", OF place] b)
  with r show ?thesis by blast
qed

lemma dial_waits:
  assumes "texts_ok p" "vstarted p" "r_manager p" "vclient p = Some c" "unicode_text num"
  shows "\<exists>p' body. dial num p = (p', Wait (length (futures c))
             (\<lambda>r. cbind (after_invite (length (vobjs p)) (r_next p) r) (after_initiate (r_next p))))
     \<and> request_sent (invite_request (length (vobjs p)) body (dialled num p)) (dialled num p) p'"
proof -
  let ?p = "indicate 1001 [] (add_voice CS_DIALING False num [] p)"
  have f: "vstarted ?p = vstarted p" "vclient ?p = vclient p" "length (vobjs ?p) = length (vobjs p)"
    by (simp_all add: indicate_def add_voice_def)
  obtain p' body where "initiate_call num (r_next p) ?p = (p', Wait (length (futures c)) (after_invite (length (vobjs p)) (r_next p)))"
    and r: "request_sent (invite_request (length (vobjs p)) body (dialled num p)) (dialled num p) p'"
    using initiate_waits [of ?p c num "r_next p"] assms f by (auto simp: added_texts dialled_def)
  moreover have "dial num p = cbind (initiate_call num (r_next p)) (after_initiate (r_next p)) ?p"
    using assms(3) by (simp add: dial_def Let_def)
  ultimately have "dial num p = (p', Wait (length (futures c)) (\<lambda>r. cbind (after_invite (length (vobjs p)) (r_next p) r) (after_initiate (r_next p))))" by simp
  with r show ?thesis by blast
qed

section \<open>The outcome of a dial\<close>

text \<open>The tables after an answer: the call's entry of the HAL, when it is still there, is active and carries the Call-ID.\<close>

definition connected :: "int \<Rightarrow> ustr \<Rightarrow> voice_call list \<Rightarrow> voice_call list" where
  "connected n cid cs = map (\<lambda>c. if vi_index c = n then c\<lparr>vi_state := CS_ACTIVE, vi_sip_id := cid\<rparr> else c) cs"

text \<open>The body of \<^verbatim>\<open>finish_initiate\<close> after the ACK, as one step.\<close>

definition answered :: "nat \<Rightarrow> int \<Rightarrow> sip_message \<Rightarrow> sip_message \<Rightarrow> phone \<Rightarrow> phone" where
  "answered i n resp ack q = (let q1 = mo_answered i resp q;
     q2 = q1\<lparr>vid_next := vid_next q + 2, vout := (if vup q then vout q @ [(pcscf q, ack)] else vout q)\<rparr>;
     q3 = call_answered i (if vhal q then update_call_state n CS_ACTIVE q2 else q2)
     in start_media i q3)"

lemma cbind_read [simp]: "cbind (read k) l s = cbind (k s) l s"
  by (simp add: cbind_def)

lemma r_calls_simps [simp]: "r_calls (set_voice n f p) = map (\<lambda>c. if vi_index c = n then f c else c) (r_calls p)"
    "r_calls (indicate k d p) = r_calls p"
    "r_calls (update_call_state n st p) = map (\<lambda>c. if vi_index c = n then c\<lparr>vi_state := st\<rparr> else c) (r_calls p)"
    "r_calls (drop_voice n p) = filter (\<lambda>c. vi_index c \<noteq> n) (r_calls p)"
proof -
  show s: "r_calls (set_voice n f p) = map (\<lambda>c. if vi_index c = n then f c else c) (r_calls p)" for f by (simp add: set_voice_def)
  show i: "r_calls (indicate k d p) = r_calls p" for p by (simp add: indicate_def)
  show "r_calls (update_call_state n st p) = map (\<lambda>c. if vi_index c = n then c\<lparr>vi_state := st\<rparr> else c) (r_calls p)"
    using set_voice_absent [of n p "\<lambda>c. c\<lparr>vi_state := st\<rparr>"] s [of "\<lambda>c. c\<lparr>vi_state := st\<rparr>"]
    by (cases "voice_index n p") (auto simp: update_call_state_def i simp del: map_eq_conv)
  show "r_calls (drop_voice n p) = filter (\<lambda>c. vi_index c \<noteq> n) (r_calls p)" by (simp add: drop_voice_def)
qed

lemma call_answered_simps [simp]: "vobjs (call_answered i p) = vobjs p" "vcalls (call_answered i p) = vcalls p"
    "r_calls (call_answered i p) = r_calls p" "vout (call_answered i p) = vout p" "vtotal (call_answered i p) = vtotal p + 1"
    "vactive (call_answered i p) = int (active_calls p)" "call_obj j (call_answered i p) = call_obj j p"
  by (simp_all add: call_answered_def count_active_def call_obj_def)

lemma answered_facts:
  assumes "i < length (vobjs q)" and q'_def: "q' = answered i n resp ack q" and sdp_def: "sdp = utf8_decode (sip_body resp)"
  shows "vc_id (call_obj i q') = vc_id (call_obj i q)" "vc_state (call_obj i q') = ACTIVE"
    "vc_codec (call_obj i q') = extract_codec_from_sdp sdp" "vcalls q' = vcalls q"
    "r_calls q' = (if vhal q then map (\<lambda>c. if vi_index c = n then c\<lparr>vi_state := CS_ACTIVE\<rparr> else c) (r_calls q) else r_calls q)"
    "vtotal q' = vtotal q + 1" "vactive q' = int (active_calls q')" "vout q' = (if vup q then vout q @ [(pcscf q, ack)] else vout q)"
proof -
  define q3 where "q3 = call_answered i (if vhal q then update_call_state n CS_ACTIVE ((mo_answered i resp q)\<lparr>vid_next := vid_next q + 2,
      vout := (if vup q then vout q @ [(pcscf q, ack)] else vout q)\<rparr>) else (mo_answered i resp q)\<lparr>vid_next := vid_next q + 2,
      vout := (if vup q then vout q @ [(pcscf q, ack)] else vout q)\<rparr>)"
  have q': "q' = start_media i q3" by (simp add: q'_def q3_def answered_def Let_def)
  have c: "call_obj i q3 = (call_obj i q)\<lparr>vc_state := ACTIVE, vc_remote_sdp := sdp, vc_codec := extract_codec_from_sdp sdp\<rparr>"
    using assms(1) call_obj_set [of i i _ q] by (simp add: q3_def sdp_def mo_answered_def call_obj_def Let_def)
  note D = same_but_mediaD [OF start_media_same [of i q3]]
  show "vc_id (call_obj i q') = vc_id (call_obj i q)" "vc_state (call_obj i q') = ACTIVE"
    "vc_codec (call_obj i q') = extract_codec_from_sdp sdp" by (simp_all add: q' D c)
  show "vcalls q' = vcalls q" "vtotal q' = vtotal q + 1" "vout q' = (if vup q then vout q @ [(pcscf q, ack)] else vout q)"
    unfolding q' D by (simp_all add: q3_def mo_answered_def)
  show "r_calls q' = (if vhal q then map (\<lambda>c. if vi_index c = n then c\<lparr>vi_state := CS_ACTIVE\<rparr> else c) (r_calls q) else r_calls q)"
    unfolding q' D by (simp add: q3_def mo_answered_def)
  have "vactive q3 = int (active_calls q3)" by (simp add: q3_def active_calls_def)
  then show "vactive q' = int (active_calls q')"
    by (simp add: q' D active_calls_cong [where q = "start_media i q3" and p = q3])
qed

text \<open>The media of the session, when the answer names a port and the session's own port is a port.\<close>

lemma answered_media:
  assumes "i < length (vobjs q)" "parse_remote_rtp_address (utf8_decode (sip_body resp)) = (ip, port)" "port \<noteq> 0"
    "0 < vc_port (call_obj i q)" "vc_port (call_obj i q) \<le> 65535"
  shows "\<exists>m. vc_media (call_obj i (answered i n resp ack q)) = Some m \<and> m_active m \<and> \<not> m_held m
     \<and> vc_peer (call_obj i (answered i n resp ack q)) = (ip, port)"
proof -
  have "parse_remote_rtp_address [] = (ustr ''0.0.0.0'', 0)" by code_simp
  then have "utf8_decode (sip_body resp) \<noteq> []" using assms(2,3) by auto
  then show ?thesis unfolding answered_def Let_def
    using assms call_obj_set [of i i _ q]
    by (intro start_media_runs) (auto simp: mo_answered_def Let_def call_obj_def split: if_splits)
qed

lemma finish_answered:
  assumes "texts_ok q" "vclient q = Some c" "i < length (vobjs q)" "status_code resp = Some 200"
  shows "\<exists>m. sip_method m = Some (ustr ''ACK'') \<and> call_id m = vc_id (call_obj i q) \<and> request_uri m = Some (vc_uri (call_obj i q))
     \<and> finish_initiate i n resp q = (answered i n resp m q, Ret (Some (vc_id (call_obj i q))))"
proof -
  let ?q = "mo_answered i resp q"
  have f: "vc_id (call_obj i ?q) = vc_id (call_obj i q)" "vc_uri (call_obj i ?q) = vc_uri (call_obj i q)" "vid_next ?q = vid_next q"
    "vup ?q = vup q" "vout ?q = vout q" "vclient ?q = vclient q" "i < length (vobjs ?q)" "vcfg ?q = vcfg q" "vids ?q = vids q"
    "vhal ?q = vhal q"
    using assms(3) by (simp_all add: mo_answered_def Let_def)
  have "texts_ok ?q" using assms(1,3)
    by (auto simp: texts_ok_def f mo_answered_def Let_def set_obj_def set_conv_nth nth_list_update)
  then obtain m where m: "sip_method m = Some (ustr ''ACK'')" "call_id m = vc_id (call_obj i q)" "request_uri m = Some (vc_uri (call_obj i q))"
      "send_ack i ?q = (?q\<lparr>vid_next := vid_next q + 2, vout := (if vup q then vout q @ [(pcscf q, m)] else vout q)\<rparr>, Ret ())"
    using send_ack_sent [of ?q c i] assms(2) f by (auto simp: pcscf_def)
  have "vc_id (call_obj i (answered i n resp m q)) = vc_id (call_obj i q)"
    using answered_facts(1) [OF assms(3) refl refl] by simp
  with m show ?thesis
    by (intro exI [of _ m]; cases "vhal q"; cases "vup q") (simp_all add: finish_initiate_def assms(4) tell_hal_def answered_def Let_def f)
qed

definition can_dial :: "ustr \<Rightarrow> phone \<Rightarrow> bool" where
  "can_dial num p \<longleftrightarrow> texts_ok p \<and> unicode_text num \<and> vstarted p \<and> vclient p \<noteq> None \<and> r_manager p \<and> vhal p"

lemma dial_continues:
  assumes "can_dial num p" "dial num p = (p', Wait f k)"
  shows "k r = cbind (after_invite (length (vobjs p)) (r_next p) r) (after_initiate (r_next p))"
    and "\<exists>body. request_sent (invite_request (length (vobjs p)) body (dialled num p)) (dialled num p) p'"
  using dial_waits [of p _ num] assms by (auto simp: can_dial_def)

lemma answer_outcome:
  assumes "texts_ok q" "vclient q \<noteq> None" "vup q" "vhal q" "i < length (vobjs q)" "vc_id (call_obj i q) \<noteq> []"
    and "status_code resp = Some 200"
  shows "\<exists>q' ack. cbind (after_invite i n (Inr resp)) (after_initiate n) q = (q', Ret (hal_ok @ [(''callIndex'', JInt n)]))
    \<and> vout q' = vout q @ [(pcscf q, ack)] \<and> sip_method ack = Some (ustr ''ACK'') \<and> call_id ack = vc_id (call_obj i q)
    \<and> vcalls q' = vcalls q \<and> vc_state (call_obj i q') = ACTIVE
    \<and> vc_codec (call_obj i q') = extract_codec_from_sdp (utf8_decode (sip_body resp))
    \<and> r_calls q' = connected n (vc_id (call_obj i q)) (r_calls q)
    \<and> vtotal q' = vtotal q + 1 \<and> vactive q' = int (active_calls q')
    \<and> (\<forall>ip port. parse_remote_rtp_address (utf8_decode (sip_body resp)) = (ip, port) \<and> port \<noteq> 0
         \<and> vc_port (call_obj i q) \<in> {1..65535} \<longrightarrow>
         vc_peer (call_obj i q') = (ip, port) \<and> (\<exists>m. vc_media (call_obj i q') = Some m \<and> m_active m \<and> \<not> m_held m))"
proof -
  obtain c where c: "vclient q = Some c" using assms(2) by blast
  obtain ack where a: "sip_method ack = Some (ustr ''ACK'')" "call_id ack = vc_id (call_obj i q)"
    "finish_initiate i n resp q = (answered i n resp ack q, Ret (Some (vc_id (call_obj i q))))"
    using finish_answered [OF assms(1) c assms(5,7), of n] by blast
  let ?q = "set_voice n (\<lambda>c. c\<lparr>vi_sip_id := vc_id (call_obj i q)\<rparr>) (answered i n resp ack q)"
  note F = answered_facts [OF assms(5) refl refl, of n resp ack]
  have "cbind (after_invite i n (Inr resp)) (after_initiate n) q = (?q, Ret (hal_ok @ [(''callIndex'', JInt n)]))"
    using a(3) assms(6) by (simp add: after_invite_def after_initiate_def)
  moreover have "r_calls ?q = connected n (vc_id (call_obj i q)) (r_calls q)"
    using assms(4) by (auto simp: F connected_def)
  ultimately show ?thesis
    using F a assms(3) answered_media [OF assms(5), of resp _ _ n ack]
    by (intro exI [of _ ?q] exI [of _ ack]) (auto simp del: r_calls_simps)
qed

text \<open>
  C8: A call is dialled and answered with 200, whatever the other tasks did in between, as long as
  the transport is up and the session's Call-ID is not empty. The answer is acknowledged to the
  P-CSCF with an ACK of that Call-ID, the session is active with the codec of the answer, the HAL's
  entry with the dialled index, if it is still there, is active and has the Call-ID, the counters
  are up to date, and media runs to the address of the answer when the answer names a port and the
  session's own port is a 16-bit number. Android gets success and the index.
\<close>

theorem dial_answered:
  assumes "can_dial num p" "dial num p = (p', Wait f k)"
    and "texts_ok q" "vclient q \<noteq> None" "vup q" "vhal q" "length (vobjs p) < length (vobjs q)" "vc_id (call_obj (length (vobjs p)) q) \<noteq> []"
    and "status_code resp = Some 200"
  shows "\<exists>q' ack. k (Inr resp) q = (q', Ret (hal_ok @ [(''callIndex'', JInt (r_next p))]))
    \<and> vout q' = vout q @ [(pcscf q, ack)] \<and> sip_method ack = Some (ustr ''ACK'') \<and> call_id ack = vc_id (call_obj (length (vobjs p)) q)
    \<and> vcalls q' = vcalls q \<and> vc_state (call_obj (length (vobjs p)) q') = ACTIVE
    \<and> vc_codec (call_obj (length (vobjs p)) q') = extract_codec_from_sdp (utf8_decode (sip_body resp))
    \<and> r_calls q' = connected (r_next p) (vc_id (call_obj (length (vobjs p)) q)) (r_calls q)
    \<and> vtotal q' = vtotal q + 1 \<and> vactive q' = int (active_calls q')
    \<and> (\<forall>ip port. parse_remote_rtp_address (utf8_decode (sip_body resp)) = (ip, port) \<and> port \<noteq> 0
         \<and> vc_port (call_obj (length (vobjs p)) q) \<in> {1..65535} \<longrightarrow>
         vc_peer (call_obj (length (vobjs p)) q') = (ip, port) \<and> (\<exists>m. vc_media (call_obj (length (vobjs p)) q') = Some m \<and> m_active m \<and> \<not> m_held m))"
  using answer_outcome [OF assms(3-9), of "r_next p"] by (simp add: dial_continues(1) [OF assms(1,2)])

text \<open>The state in which the INVITE waits is one in which it can be resumed.\<close>

lemma dial_pending:
  assumes "can_dial num p"
  shows "\<exists>p' f k m. dial num p = (p', Wait f k) \<and> texts_ok p' \<and> vclient p' \<noteq> None \<and> vup p' = vup p \<and> vhal p'
    \<and> vobjs p' = vobjs (dialled num p) \<and> vcalls p' = vcalls (dialled num p) \<and> r_calls p' = r_calls (dialled num p)
    \<and> (vup p \<longrightarrow> vout p' = vout p @ [(pcscf p, m)] \<and> sip_method m = Some (ustr ''INVITE''))"
proof -
  obtain c where c: "vclient p = Some c" using assms by (auto simp: can_dial_def)
  obtain p' body where w: "dial num p = (p', Wait (length (futures c))
             (\<lambda>r. cbind (after_invite (length (vobjs p)) (r_next p) r) (after_initiate (r_next p))))"
     and r: "request_sent (invite_request (length (vobjs p)) body (dialled num p)) (dialled num p) p'"
    using dial_waits [OF _ _ _ c, of num] assms by (auto simp: can_dial_def)
  have "texts_ok p'" using request_sent_texts [OF r] dialled_texts assms by (auto simp: can_dial_def)
  with w r show ?thesis using assms
    by (auto simp: request_sentD [OF r] dialled_fields can_dial_def request_sent_def pcscf_def invite_request_def call_request_def)
qed

text \<open>A phone with a P-CSCF, and its answer, for the concrete runs below.\<close>

definition sample_config :: volte_config where
  "sample_config = \<lparr>vg_pcscf = ustr ''10.0.0.1'', vg_port = 5060, vg_transport = ustr ''UDP'', vg_codecs = [''AMR-WB''],
     vg_impu = ustr ''sip:u@ims'', vg_home = ustr ''ims'', vg_route = [], vg_local_ip = ustr ''10.0.0.2'', vg_rtp_base = 50000\<rparr>"

definition sample_phone :: phone where
  "sample_phone = volte_start (new_phone sample_config (\<lambda>n. ustr (dec_nat n)) (\<lambda>n. int n + 1) (\<lambda>_. True))"

definition sample_answer :: "int \<Rightarrow> sip_message" where
  "sample_answer n = empty_sip\<lparr>status_code := Some n\<rparr>"

lemma sample_phone_fields: "vstarted sample_phone" "vup sample_phone" "vhal sample_phone" "r_manager sample_phone" "vclient sample_phone \<noteq> None"
    "vobjs sample_phone = []" "vcalls sample_phone = []" "r_calls sample_phone = []" "r_next sample_phone = 1" "vids sample_phone = (\<lambda>n. ustr (dec_nat n))"
    "vcfg sample_phone = sample_config" "r_rules sample_phone = None"
  by (simp_all add: sample_phone_def volte_start_def new_phone_def sample_config_def ustr_simps)

lemma sample_can_dial: "can_dial (ustr ''100'') sample_phone"
  by (simp add: can_dial_def sample_phone_fields texts_ok_def)
     (simp add: sample_phone_def volte_start_def new_phone_def sample_config_def new_client_def ustr_simps upper_def)

theorem dial_answered_witness:
  "\<exists>p' f k q'. dial (ustr ''100'') sample_phone = (p', Wait f k)
    \<and> k (Inr (sample_answer 200)) p' = (q', Ret (hal_ok @ [(''callIndex'', JInt 1)])) \<and> vc_state (call_obj 0 q') = ACTIVE"
proof -
  obtain p' f k where d: "dial (ustr ''100'') sample_phone = (p', Wait f k)" "texts_ok p'" "vclient p' \<noteq> None" "vup p'" "vhal p'"
    "vobjs p' = vobjs (dialled (ustr ''100'') sample_phone)"
    using dial_pending [OF sample_can_dial] by (auto simp: sample_phone_fields)
  have "vc_id (call_obj 0 p') \<noteq> []" by (simp add: call_obj_def d(6) dialled_fields sample_phone_fields mo_call_def ustr_simps)
  then show ?thesis
    using dial_answered [OF sample_can_dial d(1-5), of "sample_answer 200"] d
    by (fastforce simp: dialled_fields sample_phone_fields sample_answer_def)
qed

text \<open>
  A call is dialled and refused, or not answered in time. Nothing more is sent, the session
  leaves the table, and the HAL's entry goes and Android reads INVITE failed; but when the entry has
  gone already, because Android hung up while the call rang, removing it again raises ValueError.
\<close>

theorem dial_refused:
  assumes "can_dial num p" "dial num p = (p', Wait f k)"
    and "find_call (vc_id (call_obj (length (vobjs p)) q)) q \<noteq> None"
    and "r = Inl TimeoutError \<or> (\<exists>resp. r = Inr resp \<and> status_code resp \<noteq> Some 200)"
  shows "\<exists>q'. vcalls q' = dict_del (vc_id (call_obj (length (vobjs p)) q)) (vcalls q) \<and> vout q' = vout q \<and> vobjs q' = vobjs q
    \<and> r_calls q' = filter (\<lambda>c. vi_index c \<noteq> r_next p) (r_calls q)
    \<and> k r q = (q', if voice_index (r_next p) q = None then Exc ValueError else Ret (hal_error ''INVITE failed''))"
proof -
  let ?n = "r_next p" and ?i = "length (vobjs p)"
  let ?q = "pop_call (vc_id (call_obj ?i q)) q"
  have v: "voice_index n ?q = voice_index n q" for n by (simp add: voice_index_def pop_call_def)
  have "after_invite ?i ?n r q = (?q, Ret None)"
    using assms(3,4) by (auto simp: after_invite_def finish_initiate_def del_call_def)
  then have "k r q = dial_failed ?n ?q"
    by (simp add: dial_continues(1) [OF assms(1,2)] after_initiate_def)
  moreover have "r_calls q = filter (\<lambda>c. vi_index c \<noteq> ?n) (r_calls q)" if "voice_index ?n q = None"
    using that by (auto simp: voice_index_def find_None_iff intro!: filter_True [symmetric])
  moreover have "vcalls (drop_voice ?n ?q) = vcalls ?q" "r_calls ?q = r_calls q" "vobjs ?q = vobjs q" "vout ?q = vout q"
    "vcalls ?q = dict_del (vc_id (call_obj ?i q)) (vcalls q)" "vout (drop_voice ?n ?q) = vout q"
    by (simp_all add: pop_call_def drop_voice_def)
  ultimately show ?thesis
    by (cases "voice_index ?n q") (auto simp: dial_failed_def remove_voice_def v)
qed

theorem dial_refused_witness:
  "\<exists>p' f k q'. dial (ustr ''100'') sample_phone = (p', Wait f k)
    \<and> k (Inr (sample_answer 486)) p' = (q', Ret (hal_error ''INVITE failed'')) \<and> vcalls q' = [] \<and> r_calls q' = []"
proof -
  obtain p' f k where d: "dial (ustr ''100'') sample_phone = (p', Wait f k)"
    "vobjs p' = vobjs (dialled (ustr ''100'') sample_phone)" "vcalls p' = vcalls (dialled (ustr ''100'') sample_phone)"
    "r_calls p' = r_calls (dialled (ustr ''100'') sample_phone)"
    using dial_pending [OF sample_can_dial] by (auto simp: sample_phone_fields)
  show ?thesis
    using dial_refused [OF sample_can_dial d(1), of p' "Inr (sample_answer 486)"] d
    by (fastforce simp: dialled_fields sample_phone_fields sample_answer_def find_call_def call_obj_def mo_call_def voice_index_def dict_del_def)
qed

text \<open>
  Android hangs up while the call it dialled has no answer yet. The hang-up succeeds at once and
  the HAL lists the calls of before, but nothing goes out after the INVITE: neither CANCEL nor BYE.
  When the other side then answers, the call is acknowledged and active in the call manager's table
  and Android is told that the dial succeeded with its index, although no call of the HAL has it.
\<close>

theorem hangup_while_dialing:
  assumes "can_dial num p" "vup p" "\<forall>c \<in> set (r_calls p). vi_index c < r_next p" "status_code resp = Some 200"
  shows "\<exists>p1 f k q1 q2 invite ack. dial num p = (p1, Wait f k) \<and> hangup (r_next p) p1 = (q1, Ret hal_ok)
    \<and> vout q1 = vout p @ [(pcscf p, invite)] \<and> sip_method invite = Some (ustr ''INVITE'') \<and> r_calls q1 = r_calls p
    \<and> k (Inr resp) q1 = (q2, Ret (hal_ok @ [(''callIndex'', JInt (r_next p))])) \<and> vout q2 = vout q1 @ [(pcscf q1, ack)]
    \<and> sip_method ack = Some (ustr ''ACK'') \<and> r_calls q2 = r_calls p
    \<and> (\<exists>cid i. map_of (vcalls q2) cid = Some i \<and> vc_state (call_obj i q2) = ACTIVE \<and> vc_id (call_obj i q1) = cid)"
proof -
  let ?n = "r_next p" and ?i = "length (vobjs p)"
  obtain p1 f k invite where d: "dial num p = (p1, Wait f k)" "texts_ok p1" "vclient p1 \<noteq> None" "vup p1" "vhal p1"
    "vobjs p1 = vobjs (dialled num p)" "vcalls p1 = vcalls (dialled num p)" "r_calls p1 = r_calls (dialled num p)"
    "vout p1 = vout p @ [(pcscf p, invite)]" "sip_method invite = Some (ustr ''INVITE'')"
    using dial_pending [OF assms(1)] assms(2) by auto
  let ?c = "\<lparr>vi_index = ?n, vi_state = CS_DIALING, vi_mt = False, vi_mpty = False, vi_number = num, vi_sip_id = []\<rparr>"
  have old: "vi_index c \<noteq> ?n" if "c \<in> set (r_calls p)" for c using assms(3) that by force
  then have "find (\<lambda>c. vi_index c = ?n) (r_calls p) = None" by (auto simp: find_None_iff)
  then have v: "voice_index ?n p1 = Some ?c" by (simp add: voice_index_def d(8) dialled_fields find_append)
  define q where "q = indicate 1001 [] (drop_voice ?n p1)"
  have h: "hangup ?n p1 = (q, Ret hal_ok)" by (simp add: hangup_def v remove_voice_def q_def)
  have r: "r_calls q = r_calls p" using old by (simp add: d(8) dialled_fields filter_id_conv q_def)
  have qs: "texts_ok q" "vclient q \<noteq> None" "vup q" "vhal q" "?i < length (vobjs q)" "vc_id (call_obj ?i q) \<noteq> []"
    using d by (simp_all add: q_def texts_ok_def indicate_def drop_voice_def dialled_fields call_obj_def mo_call_def ustr_simps)
  have n: "connected ?n cid (r_calls p) = r_calls p" for cid using old by (auto simp: connected_def map_idI)
  have t: "map_of (vcalls q) (vc_id (call_obj ?i q)) = Some ?i"
    using d by (simp add: q_def dialled_fields indicate_def drop_voice_def call_obj_def mo_call_def)
  have vo: "vout q = vout p @ [(pcscf p, invite)]" using d(9) by (simp add: q_def indicate_def drop_voice_def)
  obtain q2 ack where "k (Inr resp) q = (q2, Ret (hal_ok @ [(''callIndex'', JInt ?n)]))" "vout q2 = vout q @ [(pcscf q, ack)]"
    "sip_method ack = Some (ustr ''ACK'')" "vcalls q2 = vcalls q" "vc_state (call_obj ?i q2) = ACTIVE" "r_calls q2 = r_calls p"
    using answer_outcome [OF qs assms(4), of ?n] by (auto simp: dial_continues(1) [OF assms(1) d(1)] r n)
  then show ?thesis
    using d(1,10) vo h r t
    by (intro exI [of _ p1] exI [of _ f] exI [of _ k] exI [of _ q] exI [of _ q2] exI [of _ invite] exI [of _ ack]) auto
qed

theorem hangup_while_dialing_witness:
  "\<exists>p1 f k q1 q2. dial (ustr ''100'') sample_phone = (p1, Wait f k) \<and> hangup 1 p1 = (q1, Ret hal_ok)
    \<and> k (Inr (sample_answer 200)) q1 = (q2, Ret (hal_ok @ [(''callIndex'', JInt 1)])) \<and> r_calls q2 = []
    \<and> (\<exists>cid i. map_of (vcalls q2) cid = Some i \<and> vc_state (call_obj i q2) = ACTIVE)"
proof -
  have "status_code (sample_answer 200) = Some 200" by (simp add: sample_answer_def)
  from hangup_while_dialing [OF sample_can_dial _ _ this] show ?thesis
    by (force simp: sample_phone_fields)
qed

section \<open>All runs\<close>

lemma sample_run: "\<exists>p ts. sys_run sample_phone (p, ts) \<and> vobjs p \<noteq> []"
proof -
  obtain p f k where d: "dial (ustr ''100'') sample_phone = (p, Wait f k)" "vobjs p = vobjs (dialled (ustr ''100'') sample_phone)"
    using dial_pending [OF sample_can_dial] by auto
  then have "\<exists>ts. sys_run sample_phone (p, ts)"
    using sys_run.request [OF sys_run.start, of sample_phone "Dial (ustr ''100'')"]
    by (auto simp: spawn_def android_def ignore_def)
  then show ?thesis using d(2) by (auto simp: dialled_fields)
qed

text \<open>
  C1: whatever is dialled, answered, held, merged, transferred and hung up, and however requests,
  messages, answers and timeouts interleave, the table has one entry per Call-ID and each entry is the session with that Call-ID; the n-th
  session has the RTP port \<open>base + 2 n\<close>, so that no two sessions share an RTP or RTCP port; and the HAL's
  calls have distinct positive indices.
\<close>

theorem call_state_invariant:
  assumes "sys_run (volte_start (new_phone g ids ss bd)) (p, ts)"
  shows "distinct (map fst (vcalls p)) \<and> (\<forall>(cid, i) \<in> set (vcalls p). i < length (vobjs p) \<and> vc_id (vobjs p ! i) = cid)
    \<and> (\<forall>i < length (vobjs p). vc_port (vobjs p ! i) = vg_rtp_base g + 2 * int i)
    \<and> (\<forall>i < length (vobjs p). \<forall>j < length (vobjs p). i \<noteq> j \<longrightarrow>
         {vc_port (vobjs p ! i), vc_port (vobjs p ! i) + 1} \<inter> {vc_port (vobjs p ! j), vc_port (vobjs p ! j) + 1} = {})
    \<and> distinct (map vi_index (r_calls p)) \<and> (\<forall>c \<in> set (r_calls p). 1 \<le> vi_index c \<and> vi_index c < r_next p)"
proof -
  have inv: "phone_inv g p" using sys_run_inv [OF assms new_phone_inv] by (simp add: loop_inv_def)
  then have port: "vc_port (vobjs p ! i) = vg_rtp_base g + 2 * int i" if "i < length (vobjs p)" for i
    using that by (auto dest: inv_obj simp: obj_ok_def)
  have "{vc_port (vobjs p ! i), vc_port (vobjs p ! i) + 1} \<inter> {vc_port (vobjs p ! j), vc_port (vobjs p ! j) + 1} = {}"
    if "i < length (vobjs p)" "j < length (vobjs p)" "i \<noteq> j" for i j
    using that port by auto
  then show ?thesis using inv port by (simp add: phone_inv_def table_ok_def voice_ok_def dict_ok_def)
qed

theorem call_state_invariant_witness:
  "\<exists>p ts. sys_run sample_phone (p, ts) \<and> vobjs p \<noteq> [] \<and> vc_port (vobjs p ! 0) = 50000"
proof -
  obtain p ts where s: "sys_run sample_phone (p, ts)" "vobjs p \<noteq> []" using sample_run by blast
  with call_state_invariant [OF s(1) [unfolded sample_phone_def]]
  have "vc_port (vobjs p ! 0) = 50000" by (auto simp: sample_config_def)
  with s show ?thesis by blast
qed

end
