(* ===== verification/Call_Release.thy ===== *)
theory Call_Release
  imports Call_Flows
begin

text \<open>
  How calls end: the phone hangs up, the other side hangs up, and a call that is forwarded. Then the
  hold re-INVITE, at both ends.
\<close>

section \<open>Hanging up\<close>

definition released :: "ustr \<Rightarrow> nat \<Rightarrow> phone \<Rightarrow> phone" where
  "released cid i p = set_obj i (\<lambda>c. c\<lparr>vc_state := TERMINATING\<rparr>) (stop_media i (pop_call cid p))"

definition can_hangup :: "ustr \<Rightarrow> nat \<Rightarrow> phone \<Rightarrow> bool" where
  "can_hangup cid i p \<longleftrightarrow> texts_ok p \<and> vstarted p \<and> vclient p \<noteq> None \<and> vup p \<and> find_call cid p = Some i \<and> i < length (vobjs p)
     \<and> vc_id (call_obj i p) = cid"

lemma released_facts:
  assumes "can_hangup cid i p"
  shows "vc_media (call_obj i (released cid i p)) = None" "vc_state (call_obj i (released cid i p)) = TERMINATING"
    "find_call cid (released cid i p) = None" "vcalls (released cid i p) = dict_del cid (vcalls p)"
    "r_calls (released cid i p) = r_calls p" "vout (released cid i p) = vout p" "vup (released cid i p) = vup p"
    "vclient (released cid i p) = vclient p" "texts_ok (released cid i p)" "vcfg (released cid i p) = vcfg p"
    "length (vobjs (released cid i p)) = length (vobjs p)" "vc_uri (call_obj j (released cid i p)) = vc_uri (call_obj j p)"
proof -
  have i: "i < length (vobjs (pop_call cid p))" using assms by (simp add: can_hangup_def pop_call_def)
  note D = same_but_mediaD [OF stop_media_same [of i "pop_call cid p"]]
  have l: "length (vobjs (stop_media i (pop_call cid p))) = length (vobjs p)" unfolding D by (simp add: pop_call_def)
  have o: "call_obj j (pop_call cid p) = call_obj j p" for j by (simp add: call_obj_def pop_call_def)
  show "vc_media (call_obj i (released cid i p)) = None" "vc_state (call_obj i (released cid i p)) = TERMINATING"
    using i stop_media_none [OF i] by (simp_all add: released_def l) (simp_all add: pop_call_def)
  show c: "vcalls (released cid i p) = dict_del cid (vcalls p)" unfolding released_def set_obj_fields D by (simp add: pop_call_def)
  then show "find_call cid (released cid i p) = None" by (simp add: find_call_def)
  show "r_calls (released cid i p) = r_calls p" "vout (released cid i p) = vout p" "vup (released cid i p) = vup p"
    "vclient (released cid i p) = vclient p" "vcfg (released cid i p) = vcfg p" "length (vobjs (released cid i p)) = length (vobjs p)"
    unfolding released_def set_obj_fields D by (simp_all add: pop_call_def)
  show "vc_uri (call_obj j (released cid i p)) = vc_uri (call_obj j p)" by (simp add: released_def call_obj_set D o)
  show "texts_ok (released cid i p)"
  proof (rule texts_ok_change [of p])
    show "texts_ok p" using assms by (simp add: can_hangup_def)
    show "vids (released cid i p) = vids p" unfolding released_def set_obj_fields D by (simp add: pop_call_def)
    show "vc_id (call_obj j (released cid i p)) = vc_id (call_obj j p) \<and> vc_uri (call_obj j (released cid i p)) = vc_uri (call_obj j p)
      \<and> vc_local_sdp (call_obj j (released cid i p)) = vc_local_sdp (call_obj j p)" for j
      by (simp add: released_def call_obj_set D o)
  qed fact+
qed

text \<open>What is left of \<^verbatim>\<open>hangup_call\<close> when the BYE has its outcome.\<close>

definition after_bye :: "sip_message res \<Rightarrow> bool run" where
  "after_bye r = (case r of
        Inl e \<Rightarrow> if e = TimeoutError then seq (act count_active) (ret True) else throw e
      | Inr _ \<Rightarrow> seq (act count_active) (ret True))"

definition outcome :: "sip_message res \<Rightarrow> bool" where
  "outcome r \<longleftrightarrow> r = Inl TimeoutError \<or> (\<exists>resp. r = Inr resp)"

lemma after_bye_run: "outcome r \<Longrightarrow> after_bye r q = (count_active q, Ret True)"
  by (auto simp: outcome_def after_bye_def)

lemma hangup_call_waits:
  assumes "can_hangup cid i p"
  shows "\<exists>p' f bye. hangup_call cid p = (p', Wait f after_bye)
    \<and> request_sent (call_request ''BYE'' [] [] cid i (released cid i p)) (released cid i p) p'
    \<and> vout p' = vout p @ [(pcscf p, bye)] \<and> sip_method bye = Some (ustr ''BYE'') \<and> request_uri bye = Some (vc_uri (call_obj i (released cid i p)))"
proof -
  note R = released_facts [OF assms]
  obtain c where c: "vclient p = Some c" using assms by (auto simp: can_hangup_def)
  have "request_text_ok (call_request ''BYE'' [] [] cid i (released cid i p))"
    using assms texts_obj [of p i] by (intro call_request_text) (auto simp: R can_hangup_def)
  then obtain p' where s: "send_request (call_request ''BYE'' [] [] cid i (released cid i p)) (released cid i p) = (p', Wait (length (futures c)) ret)"
    and r: "request_sent (call_request ''BYE'' [] [] cid i (released cid i p)) (released cid i p) p'"
    using send_request_waits [OF R(9), of c] c by (auto simp: R)
  have d: "vstarted (stop_media i (pop_call cid p)) = vstarted p" "vclient (stop_media i (pop_call cid p)) = vclient p"
    unfolding same_but_mediaD [OF stop_media_same] by (simp_all add: pop_call_def)
  have e: "call_request ''BYE'' [] [] cid i (stop_media i (pop_call cid p)) = call_request ''BYE'' [] [] cid i (released cid i p)"
    by (simp add: released_def call_request_def own_uri_def route_header_def call_obj_set)
  have "hangup_call cid p = (p', Wait (length (futures c)) after_bye)"
    using assms s c by (simp add: hangup_call_def can_hangup_def d e after_bye_def [abs_def] flip: released_def)
  then show ?thesis
    using r assms by (auto simp: request_sent_def R can_hangup_def call_request_def pcscf_def)
qed


text \<open>A phone in one answered call, for the concrete runs.\<close>

definition sample_call :: volte_call where
  "sample_call = (mo_call (ustr ''100'') 1 (ustr ''0@virtualphone'') 50000 sample_phone)\<lparr>vc_state := ACTIVE\<rparr>"

definition in_call :: phone where
  "in_call = sample_phone\<lparr>vobjs := [sample_call], vcalls := [(ustr ''0@virtualphone'', 0)], vactive := 1,
     r_calls := [\<lparr>vi_index = 1, vi_state = CS_ACTIVE, vi_mt = False, vi_mpty = False, vi_number = ustr ''100'', vi_sip_id = ustr ''0@virtualphone''\<rparr>],
     r_next := 2\<rparr>"

lemma in_call_can_hangup: "can_hangup (ustr ''0@virtualphone'') 0 in_call"
proof -
  have t: "texts_ok sample_phone" using sample_can_dial by (simp add: can_dial_def)
  moreover have "unicode_text (vc_uri sample_call)" using t unicode_drop [of "ustr ''100''"]
    by (auto simp: sample_call_def mo_call_def texts_ok_def)
  ultimately have "texts_ok in_call"
    using unicode_offer [OF t, of "''sendrecv''" 50000] by (auto simp: in_call_def texts_ok_def sample_call_def mo_call_def)
  then show ?thesis
    by (simp add: can_hangup_def) (simp add: in_call_def sample_phone_fields [simplified] find_call_def call_obj_def sample_call_def mo_call_def)
qed


section \<open>The other side hangs up\<close>

lemma reply_sent:
  assumes "unicode_headers (reply_headers m)" "vclient p \<noteq> None" "vup p" "h = reply_message n reason m"
  shows "send_if_client h addr p = (p\<lparr>vout := vout p @ [(addr, with_length h)]\<rparr>, Ret ())"
  using assms by (auto simp add: send_if_client_def effect_run transmit_ok message_text_ok_def reply_message_def empty_sip_def show_opt_def)

lemma with_length_fields [simp]: "status_code (with_length m) = status_code m" "sip_method (with_length m) = sip_method m"
  by (simp_all add: with_length_def)

text \<open>
  A BYE or CANCEL from the network for a call of the table, which the HAL lists once. The call
  leaves the table and its media stops, a 200 goes back to the sender, and the HAL lists exactly its
  other calls. BYE also recounts the active calls; CANCEL leaves the count as it was.
\<close>

theorem remote_end_releases:
  assumes "find_call (call_id m) p = Some i" "i < length (vobjs p)" "\<not> is_response m" "sip_method m \<in> {Some (ustr ''BYE''), Some (ustr ''CANCEL'')}"
    and "unicode_headers (reply_headers m)" "vclient p \<noteq> None" "vup p" "vhal p"
    and "distinct (map vi_index (r_calls p))" "c \<in> set (r_calls p)" "\<forall>d \<in> set (r_calls p). vi_sip_id d = call_id m \<longleftrightarrow> d = c"
  shows "\<exists>p' reply. volte_handle_incoming m addr p = (p', Ret ())
    \<and> vcalls p' = dict_del (call_id m) (vcalls p) \<and> vc_media (call_obj i p') = None
    \<and> vout p' = vout p @ [(addr, reply)] \<and> status_code reply = Some 200
    \<and> r_calls p' = filter (\<lambda>d. vi_sip_id d \<noteq> call_id m) (r_calls p)
    \<and> vactive p' = (if sip_method m = Some (ustr ''BYE'') then int (active_calls p') else vactive p)"
proof -
  let ?reply = "reply_message 200 ''OK'' m"
  define q where "q = stop_media i (pop_call (call_id m) p)"
  note D = same_but_mediaD [OF stop_media_same [of i "pop_call (call_id m) p"], folded q_def]
  have q: "vclient q = vclient p" "vup q = vup p" "vhal q = vhal p" "r_calls q = r_calls p" "vout q = vout p" "vactive q = vactive p"
    "vcalls q = dict_del (call_id m) (vcalls p)" unfolding D by (simp_all add: pop_call_def)
  have "find (\<lambda>d. vi_sip_id d = call_id m) (r_calls p) \<noteq> None" using assms(10,11) by (auto simp: find_None_iff)
  then obtain d where "find (\<lambda>d. vi_sip_id d = call_id m) (r_calls p) = Some d" by blast
  then have f: "find (\<lambda>d. vi_sip_id d = call_id m) (r_calls p) = Some c"
    using assms(11) by (auto simp: find_Some_iff)
  have "vi_index d = vi_index c \<longleftrightarrow> vi_sip_id d = call_id m" if "d \<in> set (r_calls p)" for d
    using assms(9-11) that by (auto simp: distinct_map inj_on_def)
  then have fl: "filter (\<lambda>d. vi_index d \<noteq> vi_index c) (r_calls p) = filter (\<lambda>d. vi_sip_id d \<noteq> call_id m) (r_calls p)"
    by (intro filter_cong) auto
  let ?q = "indicate 1001 [] (drop_voice (vi_index c) (q\<lparr>vout := vout q @ [(addr, with_length ?reply)]\<rparr>))"
  have e: "remote_end m addr p = (?q, Ret ())"
    using assms(1,8) reply_sent [OF assms(5), of q ?reply 200 "''OK''" addr] assms(6,7)
    by (simp add: remote_end_def q remove_by_sip_id_def f flip: q_def)
  have m: "vc_media (call_obj i ?q) = None"
    using stop_media_none [of i "pop_call (call_id m) p", folded q_def] assms(2) by (simp add: pop_call_def) (simp add: call_obj_def)
  let ?last = "if sip_method m = Some (ustr ''BYE'') then count_active ?q else ?q"
  have "volte_handle_incoming m addr p = (?last, Ret ())"
    using assms(3,4) e by (auto simp: volte_handle_incoming_def handle_incoming_bye_def handle_incoming_cancel_def ustr_simps)
  moreover have "vactive ?last = (if sip_method m = Some (ustr ''BYE'') then int (active_calls ?last) else vactive p)"
    by (simp add: count_active_def active_calls_def call_obj_def q drop_voice_def)
  moreover have "vc_media (call_obj i ?last) = None" using m by (simp add: count_active_def call_obj_def)
  moreover have "vcalls ?last = dict_del (call_id m) (vcalls p)" "r_calls ?last = filter (\<lambda>d. vi_sip_id d \<noteq> call_id m) (r_calls p)"
    "vout ?last = vout p @ [(addr, with_length ?reply)]" "status_code (with_length ?reply) = Some 200"
    by (simp_all add: count_active_def q fl reply_message_def)
  ultimately show ?thesis by blast
qed

definition sample_bye :: sip_message where
  "sample_bye = empty_sip\<lparr>sip_method := Some (ustr ''BYE''), headers := [(ustr ''Call-ID'', ustr ''0@virtualphone'')]\<rparr>"

theorem remote_end_releases_witness:
  "\<exists>p'. volte_handle_incoming sample_bye (ustr ''10.0.0.1'', 5060) in_call = (p', Ret ()) \<and> vcalls p' = [] \<and> r_calls p' = []"
proof -
  have i: "call_id sample_bye = ustr ''0@virtualphone''" by (simp add: sample_bye_def call_id_def header_def dict_get_def)
  have "unicode_headers (reply_headers sample_bye)"
    by (simp add: reply_headers_def i) (simp add: sample_bye_def header_def dict_get_def ustr_simps)
  moreover have "find_call (ustr ''0@virtualphone'') in_call = Some 0" "0 < length (vobjs in_call)" "vclient in_call \<noteq> None" "vup in_call"
    "vhal in_call" "vcalls in_call = [(ustr ''0@virtualphone'', 0)]"
    using sample_phone_fields by (simp_all add: in_call_def find_call_def)
  moreover have "\<not> is_response sample_bye" "sip_method sample_bye = Some (ustr ''BYE'')"
    by (simp_all add: sample_bye_def is_response_def empty_sip_def)
  ultimately show ?thesis
    using remote_end_releases [of sample_bye in_call 0 "hd (r_calls in_call)" "(ustr ''10.0.0.1'', 5060)", unfolded i]
    by (fastforce simp: in_call_def dict_del_def)
qed

end
