(* ===== verification/Call_Hold.thy ===== *)
theory Call_Hold
  imports Call_Release
begin

text \<open>
  Hold and resume at both ends: the re-INVITE of the phone that holds, what it does with the answer,
  and the phone that gets the re-INVITE.
\<close>

lemma reinvite_waits:
  assumes "texts_ok p" "vclient p = Some c" "vstarted p" "i < length (vobjs p)" "unicode_text cid"
  shows "\<exists>p' body. reinvite d cid i p = (p', Wait (length (futures c))
        (\<lambda>r. case r of Inr _ \<Rightarrow> send_ack i | Inl e \<Rightarrow> if e = TimeoutError then ret () else throw e))
     \<and> utf8_decode body = offer d (vc_port (call_obj i p)) p
     \<and> request_sent (call_request ''INVITE'' [(ustr ''Content-Type'', ustr ''application/sdp'')] body cid i p) p p'"
proof -
  obtain body where b: "utf8_encode (offer d (vc_port (call_obj i p)) p) = Inr body" "utf8_decode body = offer d (vc_port (call_obj i p)) p"
    using utf8_roundtrip [OF unicode_offer [OF assms(1)]] by blast
  have "request_text_ok (call_request ''INVITE'' [(ustr ''Content-Type'', ustr ''application/sdp'')] body cid i p)"
    by (intro call_request_text [OF assms(1) _ assms(5,4)]) simp
  then obtain p' where "send_request (call_request ''INVITE'' [(ustr ''Content-Type'', ustr ''application/sdp'')] body cid i p) p =
      (p', Wait (length (futures c)) ret)"
    "request_sent (call_request ''INVITE'' [(ustr ''Content-Type'', ustr ''application/sdp'')] body cid i p) p p'"
    using send_request_waits [OF assms(1,2)] by blast
  then show ?thesis using b assms(2,3) by (intro exI [of _ p'] exI [of _ body]) (simp add: reinvite_def)
qed

lemma texts_set_obj:
  assumes "texts_ok p" "\<And>c. vc_id (f c) = vc_id c \<and> vc_uri (f c) = vc_uri c \<and> vc_local_sdp (f c) = vc_local_sdp c"
  shows "texts_ok (set_obj i f p)"
  by (rule texts_ok_change [OF assms(1)]) (simp_all add: assms(2))

definition can_change :: "volte_state \<Rightarrow> ustr \<Rightarrow> nat \<Rightarrow> phone \<Rightarrow> bool" where
  "can_change st cid i p \<longleftrightarrow> can_hangup cid i p \<and> vc_state (call_obj i p) = st"

lemma change_hold_waits:
  assumes "can_change from cid i p" "\<And>c. vc_id (change c) = vc_id c \<and> vc_uri (change c) = vc_uri c \<and> vc_local_sdp (change c) = vc_local_sdp c
      \<and> vc_port (change c) = vc_port c \<and> vc_state (change c) = vc_state c \<and> vc_index (change c) = vc_index c"
  shows "\<exists>p' f invite. change_hold from to change d cs cid p = (p', Wait f (\<lambda>r. seq
        (case r of Inr _ \<Rightarrow> send_ack i | Inl e \<Rightarrow> if e = TimeoutError then ret () else throw e)
        (read (\<lambda>p. seq (tell_hal (vc_index (call_obj i p)) cs) (seq (act count_active) (ret True))))))
    \<and> vout p' = vout p @ [(pcscf p, invite)] \<and> sip_method invite = Some (ustr ''INVITE'')
    \<and> utf8_decode (sip_body invite) = offer d (vc_port (call_obj i p)) p
    \<and> call_obj i p' = change ((call_obj i p)\<lparr>vc_state := to\<rparr>)"
proof -
  let ?q = "set_obj i (\<lambda>c. change (c\<lparr>vc_state := to\<rparr>)) p"
  have i: "i < length (vobjs p)" and s: "find_call cid p = Some i" "vc_state (call_obj i p) = from" "vup p" "vstarted p" "texts_ok p" "vc_id (call_obj i p) = cid"
    using assms(1) by (auto simp: can_change_def can_hangup_def)
  obtain c where c: "vclient p = Some c" using assms(1) by (auto simp: can_change_def can_hangup_def)
  have t: "texts_ok ?q" by (intro texts_set_obj s) (simp add: assms(2))
  have cid: "unicode_text cid" using texts_obj [OF s(5) i] s(6) by simp
  have o: "offer d (vc_port (call_obj i ?q)) ?q = offer d (vc_port (call_obj i p)) p" by (simp add: offer_def i assms(2))
  obtain p' body where w: "reinvite d cid i ?q = (p', Wait (length (futures c))
        (\<lambda>r. case r of Inr _ \<Rightarrow> send_ack i | Inl e \<Rightarrow> if e = TimeoutError then ret () else throw e))"
     "utf8_decode body = offer d (vc_port (call_obj i p)) p"
     and r: "request_sent (call_request ''INVITE'' [(ustr ''Content-Type'', ustr ''application/sdp'')] body cid i ?q) ?q p'"
    using reinvite_waits [OF t _ _ _ cid, of c i d] c s i unfolding o by auto
  have "change_hold from to change d cs cid p = seq (reinvite d cid i)
      (read (\<lambda>p. seq (tell_hal (vc_index (call_obj i p)) cs) (seq (act count_active) (ret True)))) ?q"
    by (simp add: change_hold_def s(1,2))
  then show ?thesis
    using w r s i by (auto simp: request_sent_def call_request_def pcscf_def call_obj_cong [of p' ?q] request_sentD [OF r])
qed

text \<open>What follows the answer, whatever its status is.\<close>

lemma change_hold_answered:
  assumes "texts_ok q" "vclient q \<noteq> None" "vup q" "vhal q" "i < length (vobjs q)"
  shows "\<exists>q' ack. seq (send_ack i) (read (\<lambda>p. seq (tell_hal (vc_index (call_obj i p)) cs) (seq (act count_active) (ret True)))) q = (q', Ret True)
    \<and> vout q' = vout q @ [(pcscf q, ack)] \<and> sip_method ack = Some (ustr ''ACK'') \<and> vobjs q' = vobjs q
    \<and> r_calls q' = map (\<lambda>c. if vi_index c = vc_index (call_obj i q) then c\<lparr>vi_state := cs\<rparr> else c) (r_calls q)
    \<and> vactive q' = int (active_calls q')"
proof -
  obtain c where "vclient q = Some c" using assms(2) by blast
  from send_ack_sent [OF assms(1) this assms(5)] obtain ack where a: "sip_method ack = Some (ustr ''ACK'')"
    "send_ack i q = (q\<lparr>vid_next := vid_next q + 2, vout := vout q @ [(pcscf q, ack)]\<rparr>, Ret ())" (is "_ = (?q, _)")
    using assms(3) by auto
  have o: "call_obj i ?q = call_obj i q" by (simp add: call_obj_def)
  let ?r = "count_active (update_call_state (vc_index (call_obj i q)) cs ?q)"
  have "seq (send_ack i) (read (\<lambda>p. seq (tell_hal (vc_index (call_obj i p)) cs) (seq (act count_active) (ret True)))) q = (?r, Ret True)"
    using a(2) assms(4) by (simp add: tell_hal_def call_obj_def)
  moreover have "vactive ?r = int (active_calls ?r)" by (simp add: count_active_def active_calls_def call_obj_def)
  moreover have "vout ?r = vout q @ [(pcscf q, ack)]" "vobjs ?r = vobjs q"
    "r_calls ?r = map (\<lambda>c. if vi_index c = vc_index (call_obj i q) then c\<lparr>vi_state := cs\<rparr> else c) (r_calls q)"
    by (simp_all add: count_active_def)
  ultimately show ?thesis using a(1) by blast
qed

lemma hold_sends:
  fixes hold :: bool
  assumes "can_change (if hold then ACTIVE else HELD) cid i p"
  shows "\<exists>p' f invite. (if hold then hold_call cid else resume_call cid) p = (p', Wait f (\<lambda>r. seq
        (case r of Inr _ \<Rightarrow> send_ack i | Inl e \<Rightarrow> if e = TimeoutError then ret () else throw e)
        (read (\<lambda>p. seq (tell_hal (vc_index (call_obj i p)) (if hold then CS_HOLDING else CS_ACTIVE)) (seq (act count_active) (ret True))))))
    \<and> vout p' = vout p @ [(pcscf p, invite)] \<and> sip_method invite = Some (ustr ''INVITE'')
    \<and> utf8_decode (sip_body invite) = offer (if hold then ''sendonly'' else ''sendrecv'') (vc_port (call_obj i p)) p
    \<and> vc_state (call_obj i p') = (if hold then HELD else ACTIVE)
    \<and> vc_media (call_obj i p') = map_option (if hold then media_hold else media_resume) (vc_media (call_obj i p))"
proof -
  let ?change = "if hold then hold_media else resume_media" and ?d = "if hold then ''sendonly'' else ''sendrecv''"
    and ?cs = "if hold then CS_HOLDING else CS_ACTIVE"
  have e: "(if hold then hold_call cid else resume_call cid) =
      change_hold (if hold then ACTIVE else HELD) (if hold then HELD else ACTIVE) ?change ?d ?cs cid"
    by (simp add: hold_call_def resume_call_def)
  have ch: "vc_id (?change c) = vc_id c \<and> vc_uri (?change c) = vc_uri c \<and> vc_local_sdp (?change c) = vc_local_sdp c
      \<and> vc_port (?change c) = vc_port c \<and> vc_state (?change c) = vc_state c \<and> vc_index (?change c) = vc_index c"
    "vc_media (?change c) = map_option (if hold then media_hold else media_resume) (vc_media c)" for c
    by (simp_all add: hold_media_def resume_media_def)
  show ?thesis unfolding e
    using change_hold_waits [OF assms, of ?change "if hold then HELD else ACTIVE" ?d ?cs, OF ch(1)] by (elim exE conjE) (intro exI conjI, assumption+, simp_all add: ch del: if_split)
qed

text \<open>
  Holding an active call, and resuming a held one, with the transport up. The session and its
  media change before anything is sent; then one re-INVITE goes out that offers sendonly or sendrecv.
  Its answer is acknowledged and counted as success whatever its status is: a call whose hold was
  refused stays held here and in the HAL, without media, while the other side still talks.
\<close>

theorem hold_accepts_any_answer:
  fixes hold :: bool
  defines "before \<equiv> if hold then ACTIVE else HELD" and "after \<equiv> if hold then HELD else ACTIVE"
  assumes "can_change before cid i p"
  shows "\<exists>p' f k invite. (if hold then hold_call cid else resume_call cid) p = (p', Wait f k)
    \<and> vout p' = vout p @ [(pcscf p, invite)] \<and> sip_method invite = Some (ustr ''INVITE'')
    \<and> utf8_decode (sip_body invite) = offer (if hold then ''sendonly'' else ''sendrecv'') (vc_port (call_obj i p)) p
    \<and> vc_state (call_obj i p') = after
    \<and> vc_media (call_obj i p') = map_option (if hold then media_hold else media_resume) (vc_media (call_obj i p))
    \<and> (\<forall>q resp. texts_ok q \<and> vclient q \<noteq> None \<and> vup q \<and> vhal q \<and> i < length (vobjs q) \<longrightarrow>
        (\<exists>q' ack. k (Inr resp) q = (q', Ret True) \<and> vout q' = vout q @ [(pcscf q, ack)] \<and> sip_method ack = Some (ustr ''ACK'')
          \<and> vobjs q' = vobjs q \<and> vactive q' = int (active_calls q')
          \<and> r_calls q' = map (\<lambda>c. if vi_index c = vc_index (call_obj i q) then c\<lparr>vi_state := if hold then CS_HOLDING else CS_ACTIVE\<rparr> else c) (r_calls q)))"
proof -
  obtain p' f invite where w: "(if hold then hold_call cid else resume_call cid) p = (p', Wait f (\<lambda>r. seq
        (case r of Inr _ \<Rightarrow> send_ack i | Inl e \<Rightarrow> if e = TimeoutError then ret () else throw e)
        (read (\<lambda>p. seq (tell_hal (vc_index (call_obj i p)) (if hold then CS_HOLDING else CS_ACTIVE)) (seq (act count_active) (ret True))))))"
      (is "_ = (_, Wait _ ?k)")
    "vout p' = vout p @ [(pcscf p, invite)] \<and> sip_method invite = Some (ustr ''INVITE'')
    \<and> utf8_decode (sip_body invite) = offer (if hold then ''sendonly'' else ''sendrecv'') (vc_port (call_obj i p)) p
    \<and> vc_state (call_obj i p') = after
    \<and> vc_media (call_obj i p') = map_option (if hold then media_hold else media_resume) (vc_media (call_obj i p))"
    using hold_sends [OF assms(3) [unfolded before_def]] unfolding after_def by blast
  have "\<exists>q' ack. ?k (Inr resp) q = (q', Ret True) \<and> vout q' = vout q @ [(pcscf q, ack)] \<and> sip_method ack = Some (ustr ''ACK'')
          \<and> vobjs q' = vobjs q \<and> vactive q' = int (active_calls q')
          \<and> r_calls q' = map (\<lambda>c. if vi_index c = vc_index (call_obj i q) then c\<lparr>vi_state := if hold then CS_HOLDING else CS_ACTIVE\<rparr> else c) (r_calls q)"
    if "texts_ok q \<and> vclient q \<noteq> None \<and> vup q \<and> vhal q \<and> i < length (vobjs q)" for q resp
    using change_hold_answered [of q i "if hold then CS_HOLDING else CS_ACTIVE"] that unfolding sum.case by blast
  with w show ?thesis by (intro exI conjI) blast+
qed

theorem hold_accepts_any_answer_witness:
  "\<exists>p' f k q'. hold_call (ustr ''0@virtualphone'') in_call = (p', Wait f k) \<and> vc_state (call_obj 0 p') = HELD
    \<and> k (Inr (sample_answer 488)) in_call = (q', Ret True)"
proof -
  have "can_change ACTIVE (ustr ''0@virtualphone'') 0 in_call"
    using in_call_can_hangup by (simp add: can_change_def) (simp add: in_call_def call_obj_def sample_call_def)
  moreover have "texts_ok in_call \<and> vclient in_call \<noteq> None \<and> vup in_call \<and> vhal in_call \<and> 0 < length (vobjs in_call)"
    using in_call_can_hangup sample_phone_fields by (simp add: can_hangup_def) (simp add: in_call_def)
  ultimately show ?thesis using hold_accepts_any_answer [of True "ustr ''0@virtualphone''" 0 in_call] by fastforce
qed

section \<open>The other end\<close>

text \<open>What the phone that gets a re-INVITE does with its session and its HAL.\<close>

definition reinvited :: "bool \<Rightarrow> ustr \<Rightarrow> nat \<Rightarrow> phone \<Rightarrow> phone" where
  "reinvited hold sdp j b = update_call_state (vc_index (call_obj j b)) (if hold then CS_HOLDING else CS_ACTIVE)
     (set_obj j (\<lambda>c. (if hold then hold_media else resume_media) (c\<lparr>vc_state := if hold then HELD else ACTIVE\<rparr>))
     (set_obj j (\<lambda>c. c\<lparr>vc_remote_sdp := sdp\<rparr>) b))"

lemma reinvited_obj: "j < length (vobjs b) \<Longrightarrow> call_obj j (reinvited hold sdp j b) =
    (if hold then hold_media else resume_media) ((call_obj j b)\<lparr>vc_remote_sdp := sdp, vc_state := if hold then HELD else ACTIVE\<rparr>)"
  by (simp add: reinvited_def)

lemma reinvited_fields: "vclient (reinvited hold sdp j b) = vclient b" "vup (reinvited hold sdp j b) = vup b" "vcfg (reinvited hold sdp j b) = vcfg b"
    "vout (reinvited hold sdp j b) = vout b" "vactive (reinvited hold sdp j b) = vactive b" "vcalls (reinvited hold sdp j b) = vcalls b"
    "r_calls (reinvited hold sdp j b) = map (\<lambda>c. if vi_index c = vc_index (call_obj j b)
       then c\<lparr>vi_state := if hold then CS_HOLDING else CS_ACTIVE\<rparr> else c) (r_calls b)"
  by (simp_all add: reinvited_def) (simp_all add: update_call_state_def indicate_def set_voice_def)

lemma media_index [simp]: "vc_index (hold_media c) = vc_index c" "vc_index (resume_media c) = vc_index c"
  by (simp_all add: hold_media_def resume_media_def)

lemma reinvite_handled:
  assumes "j < length (vobjs b)" "vhal b" "texts_ok b" "vclient b \<noteq> None" "vup b" "unicode_headers (reply_headers m)"
    and "contains (ustr ''a=sendonly'') (body_text m) \<longleftrightarrow> hold" "\<not> contains (ustr ''a=inactive'') (body_text m)"
    and "contains (ustr ''a=sendrecv'') (body_text m) \<longleftrightarrow> \<not> hold"
  shows "\<exists>reply. handle_reinvite m addr j b = ((reinvited hold (body_text m) j b)\<lparr>vout := vout b @ [(addr, reply)]\<rparr>, Ret ())
    \<and> status_code reply = Some 200 \<and> utf8_decode (sip_body reply) = vc_local_sdp (call_obj j b)"
proof -
  let ?b = "reinvited hold (body_text m) j b"
  have o: "vc_local_sdp (call_obj j ?b) = vc_local_sdp (call_obj j b)"
    using reinvited_obj [OF assms(1)] by (simp add: hold_media_def resume_media_def)
  obtain body where e: "utf8_encode (vc_local_sdp (call_obj j b)) = Inr body" "utf8_decode body = vc_local_sdp (call_obj j b)"
    using utf8_roundtrip texts_obj [OF assms(3,1)] by blast
  let ?r = "sdp_reply (call_id m) body m ?b"
  have "unicode_headers (dict_set (ustr ''Call-ID'') (call_id m) (reply_headers m))"
    using assms(6) by (intro unicode_headers_set) (simp_all add: reply_headers_def)
  then have "message_text_ok ?r"
    using assms(3) by (simp add: message_text_ok_def sdp_reply_def reply_message_def empty_sip_def show_opt_def texts_ok_def reinvited_fields)
  then have s: "send_if_client ?r addr ?b = (?b\<lparr>vout := vout b @ [(addr, with_length ?r)]\<rparr>, Ret ())"
    using assms(4,5) by (auto simp: send_if_client_def effect_run transmit_ok reinvited_fields)
  have "handle_reinvite m addr j b = send_if_client ?r addr ?b"
    using assms(2,7-9) e(1) o
    by (cases hold) (simp_all add: handle_reinvite_def Let_def tell_hal_def reinvited_def assms(1))
  moreover have "status_code (with_length ?r) = Some 200" "sip_body (with_length ?r) = body"
    by (simp_all add: with_length_def sdp_reply_def reply_message_def)
  ultimately show ?thesis using s e(2) by auto
qed

text \<open>
  C29: The re-INVITE that holds or resumes a call, delivered to a phone that has a session with the
  Call-ID of the message: the session is held or active there too, its media stops or runs, its HAL
  entry follows, and a 200 goes back that carries the session's first offer unchanged, not an answer
  to the new direction. The count of active calls of the other phone is not brought up to date.
\<close>

theorem hold_reaches_peer:
  fixes hold :: bool
  assumes "can_change (if hold then ACTIVE else HELD) cid i p" "(if hold then hold_call cid else resume_call cid) p = (p', Wait f k)"
    and "vout p' = vout p @ [(pcscf p, invite)]" "ip_ok (vg_local_ip (vcfg p))" "vc_port (call_obj i p) = int port"
    and "sip_body m = sip_body invite" "sip_method m = Some (ustr ''INVITE'')" "\<not> is_response m" "find_call (call_id m) b = Some j"
    and "j < length (vobjs b)" "vhal b" "texts_ok b" "vclient b \<noteq> None" "vup b" "unicode_headers (reply_headers m)"
  shows "\<exists>b' reply. volte_handle_incoming m addr b = (b', Ret ())
    \<and> vc_state (call_obj j b') = (if hold then HELD else ACTIVE)
    \<and> vc_media (call_obj j b') = map_option (if hold then media_hold else media_resume) (vc_media (call_obj j b))
    \<and> r_calls b' = map (\<lambda>c. if vi_index c = vc_index (call_obj j b) then c\<lparr>vi_state := if hold then CS_HOLDING else CS_ACTIVE\<rparr> else c) (r_calls b)
    \<and> vout b' = vout b @ [(addr, reply)] \<and> status_code reply = Some 200 \<and> utf8_decode (sip_body reply) = vc_local_sdp (call_obj j b)
    \<and> vactive b' = vactive b"
proof -
  let ?d = "if hold then ''sendonly'' else ''sendrecv''"
  have "utf8_decode (sip_body invite) = offer ?d (vc_port (call_obj i p)) p"
    using hold_sends [OF assms(1)] assms(2,3) by auto
  then have t: "body_text m = build_sdp_offer (vg_local_ip (vcfg p)) (int port) (vg_codecs (vcfg p)) ?d"
    using assms(4-6) by (auto simp: body_text_def offer_def ip_ok_def)
  have dir: "contains (ustr (''a='' @ e)) (body_text m) \<longleftrightarrow> e = ?d" if "e \<in> {''sendrecv'', ''sendonly'', ''inactive''}" for e
    unfolding t using assms(4) that by (intro offer_direction) auto
  have dirs: "contains (ustr ''a=sendonly'') (body_text m) \<longleftrightarrow> hold" "\<not> contains (ustr ''a=inactive'') (body_text m)"
    "contains (ustr ''a=sendrecv'') (body_text m) \<longleftrightarrow> \<not> hold"
    using dir [of "''sendonly''"] dir [of "''sendrecv''"] dir [of "''inactive''"] by (cases hold; simp)+
  obtain reply where r: "handle_reinvite m addr j b = ((reinvited hold (body_text m) j b)\<lparr>vout := vout b @ [(addr, reply)]\<rparr>, Ret ())"
    "status_code reply = Some 200" "utf8_decode (sip_body reply) = vc_local_sdp (call_obj j b)"
    using reinvite_handled [OF assms(10-15) dirs] by blast
  let ?b = "(reinvited hold (body_text m) j b)\<lparr>vout := vout b @ [(addr, reply)]\<rparr>"
  have "volte_handle_incoming m addr b = (?b, Ret ())"
    using assms(7-9) r(1) by (simp add: volte_handle_incoming_def)
  moreover have "call_obj j ?b = call_obj j (reinvited hold (body_text m) j b)" by (simp add: call_obj_def)
  ultimately show ?thesis
    using r(2,3) reinvited_obj [OF assms(10), of hold "body_text m"]
    by (intro exI [of _ ?b] exI [of _ reply]) (simp add: reinvited_fields hold_media_def resume_media_def)
qed

theorem hold_reaches_peer_witness:
  "\<exists>p' f k d invite m b'. hold_call (ustr ''0@virtualphone'') in_call = (p', Wait f k) \<and> vout p' = vout in_call @ [(d, invite)]
    \<and> sip_body m = sip_body invite \<and> volte_handle_incoming m (ustr ''10.0.0.1'', 5060) in_call = (b', Ret ()) \<and> vc_state (call_obj 0 b') = HELD"
proof -
  have c: "can_change ACTIVE (ustr ''0@virtualphone'') 0 in_call"
    using in_call_can_hangup by (simp add: can_change_def) (simp add: in_call_def call_obj_def sample_call_def)
  obtain p' f k invite where h: "hold_call (ustr ''0@virtualphone'') in_call = (p', Wait f k)" "vout p' = vout in_call @ [(pcscf in_call, invite)]"
    using hold_sends [of True, simplified, OF c] by blast
  define m where "m = sample_bye\<lparr>sip_method := Some (ustr ''INVITE''), sip_body := sip_body invite\<rparr>"
  have i: "call_id m = ustr ''0@virtualphone''" by (simp add: m_def sample_bye_def call_id_def header_def dict_get_def)
  have "unicode_headers (reply_headers m)"
    by (simp add: reply_headers_def i) (simp add: m_def sample_bye_def header_def dict_get_def ustr_simps)
  moreover have "ip_ok (vg_local_ip (vcfg in_call))" "vc_port (call_obj 0 in_call) = int 50000"
    by (simp_all add: in_call_def sample_phone_fields call_obj_def sample_call_def mo_call_def sample_config_def ip_ok_def ustr_simps is_dig_def)
  moreover have "sip_method m = Some (ustr ''INVITE'')" "\<not> is_response m" "sip_body m = sip_body invite"
    by (simp_all add: m_def sample_bye_def is_response_def empty_sip_def)
  moreover have "texts_ok in_call" "vclient in_call \<noteq> None" "vup in_call" "find_call (call_id m) in_call = Some 0" "0 < length (vobjs in_call)" "vhal in_call"
    using in_call_can_hangup sample_phone_fields by (simp_all add: can_hangup_def i) (simp_all add: in_call_def)
  ultimately show ?thesis
    using hold_reaches_peer [of True "ustr ''0@virtualphone''" 0 in_call p' f k invite 50000 m in_call 0 "(ustr ''10.0.0.1'', 5060)"] h c
    by auto
qed

end
