(* ===== verification/Call_Forward.thy ===== *)
theory Call_Forward
  imports Call_Hold
begin

text \<open>
  An incoming call under unconditional forwarding, and how far the RTP ports reach.
\<close>

section \<open>Forwarding\<close>

lemma rung_fields:
  assumes "texts_ok p" "vstarted p" "vclient p \<noteq> None" "vup p" "unicode_text (call_id m)" "unicode_text (header m ''From'')"
    and q_def: "q = fst (ring_call m addr p)"
  shows "can_hangup (call_id m) (length (vobjs p)) q" "vout q = vout p" "r_calls q = r_calls p" "pcscf q = pcscf p"
    "vhal q = vhal p" "r_manager q = r_manager p" "r_rules q = r_rules p"
proof -
  have o: "vobjs q = vobjs p @ [mt_call m addr (vport_next p) p]"
    by (simp add: q_def ring_call_def allocate_rtp_port_def add_call_def mt_call_def offer_def)
  have "texts_ok q" using assms(1,5,6) unicode_offer [OF assms(1)]
    by (simp add: texts_ok_def q_def ring_call_def allocate_rtp_port_def add_call_def mt_call_def offer_def)
  then show "can_hangup (call_id m) (length (vobjs p)) q"
    using assms(2-4) o unfolding can_hangup_def
    by (simp add: call_obj_def mt_call_def) (simp add: find_call_def q_def ring_call_def allocate_rtp_port_def add_call_def mt_call_def)
  show "vout q = vout p" "r_calls q = r_calls p" "pcscf q = pcscf p" "vhal q = vhal p" "r_manager q = r_manager p" "r_rules q = r_rules p"
    by (simp_all add: q_def ring_call_def allocate_rtp_port_def add_call_def pcscf_def)
qed

lemma count_active_can: "can_dial num (count_active q) = can_dial num q"
  by (simp add: can_dial_def texts_ok_def count_active_def)

lemma forwarding_goes_on:
  assumes r: "outcome r" "can_dial num q'" "vup q'"
  shows "\<exists>q1 f' k' invite. seq (seq (ignore (after_bye r)) (ignore (initiate_call num 0))) (take_last_index i) q' = (q1, Wait f' k') \<and> vout q1 = vout q' @ [(pcscf q', invite)] \<and> sip_method invite = Some (ustr ''INVITE'')
          \<and> request_uri invite = Some (ustr ''sip:'' @ dropWhile (\<lambda>c. c = 43) num @ [64] @ vg_home (vcfg q'))
          \<and> r_calls q1 = r_calls q'
          \<and> (\<forall>resp q2. status_code resp = Some 200 \<and> texts_ok q2 \<and> vclient q2 \<noteq> None \<and> vup q2 \<and> length (vobjs q') < length (vobjs q2) \<longrightarrow>
              (\<exists>q3 ack. vout q3 = vout q2 @ [(pcscf q2, ack)] \<and> sip_method ack = Some (ustr ''ACK'')
                \<and> vc_state (call_obj (length (vobjs q')) q3) = ACTIVE
                \<and> (r_calls q2 = [] \<longrightarrow> r_calls q3 = [] \<and> k' (Inr resp) q2 = (q3, Exc IndexError))))"
proof -
  let ?q = "count_active q'" and ?j = "length (vobjs q')"
  have c: "texts_ok ?q" "vstarted ?q" "vclient ?q \<noteq> None" "unicode_text num" using r(2) count_active_can [of num q'] by (simp_all add: can_dial_def)
  have e: "length (vobjs ?q) = ?j" "vup ?q" "vout ?q = vout q'" "pcscf ?q = pcscf q'" "r_calls ?q = r_calls q'" "vcfg ?q = vcfg q'"
    using r(3) by (simp_all add: count_active_def pcscf_def)
  obtain q1 f' body where ini: "initiate_call num 0 ?q = (q1, Wait f' (after_invite ?j 0))"
    and s: "request_sent (invite_request ?j body (placed num 0 ?q)) (placed num 0 ?q) q1"
    using initiate_waits [OF c(1,2) _ c(4)] c(3) e(1) by fastforce
  have o: "vc_uri (call_obj ?j (placed num 0 ?q)) = ustr ''sip:'' @ dropWhile (\<lambda>c. c = 43) num @ [64] @ vg_home (vcfg q')"
    by (simp add: call_obj_def placed_fields nth_append e mo_call_def)
  let ?k' = "\<lambda>r. seq (ignore (after_invite ?j 0 r)) (take_last_index i)"
  have "seq (seq (ignore (after_bye r)) (ignore (initiate_call num 0))) (take_last_index i) q' = (q1, Wait f' ?k')"
    using ini by (simp add: ignore_def after_bye_run [OF r(1)])
  moreover obtain invite where "vout q1 = vout q' @ [(pcscf q', invite)]" "sip_method invite = Some (ustr ''INVITE'')"
    "request_uri invite = Some (ustr ''sip:'' @ dropWhile (\<lambda>c. c = 43) num @ [64] @ vg_home (vcfg q'))"
    using s e o by (auto simp: request_sent_def placed_fields pcscf_def invite_request_def call_request_def)
  moreover have "r_calls q1 = r_calls q'" using request_sentD(3) [OF s] e(5) by (simp add: placed_fields)
  moreover have "\<exists>q3 ack. vout q3 = vout q2 @ [(pcscf q2, ack)] \<and> sip_method ack = Some (ustr ''ACK'')
              \<and> vc_state (call_obj ?j q3) = ACTIVE \<and> (r_calls q2 = [] \<longrightarrow> r_calls q3 = [] \<and> ?k' (Inr resp) q2 = (q3, Exc IndexError))"
    if a: "status_code resp = Some 200" "texts_ok q2" "vclient q2 \<noteq> None" "vup q2" "?j < length (vobjs q2)" for resp q2
  proof -
    obtain c2 where "vclient q2 = Some c2" using a(3) by blast
    then obtain ack where k: "sip_method ack = Some (ustr ''ACK'')"
      "finish_initiate ?j 0 resp q2 = (answered ?j 0 resp ack q2, Ret (Some (vc_id (call_obj ?j q2))))"
      using finish_answered [OF a(2) _ a(5,1)] by blast
    note F = answered_facts [OF a(5) refl refl, of 0 resp ack]
    have "?k' (Inr resp) q2 = (answered ?j 0 resp ack q2, Exc IndexError)" if "r_calls q2 = []"
      using that k(2) by (simp add: after_invite_def ignore_def take_last_index_def F)
    then show ?thesis using F k(1) a(4) by (intro exI [of _ "answered ?j 0 resp ack q2"] exI [of _ ack]) auto
  qed
  ultimately show ?thesis by blast
qed

text \<open>
  An INVITE comes while a rule forwards all calls. The phone sends 180, then a BYE for the call
  nobody has answered, and when that is answered or times out it calls the forwarding number itself:
  the caller is not connected to it. When the number answers, that call is active and acknowledged;
  the handler of the INVITE then looks for the last call of the HAL, and raises IndexError when there
  is none, for no call of the HAL belongs to either session.
\<close>

theorem forwarded_call:
  assumes "sip_method m = Some (ustr ''INVITE'')" "\<not> is_response m" "find_call (call_id m) p = None"
    and "texts_ok p" "vstarted p" "vclient p \<noteq> None" "vup p" "vhal p" "r_manager p"
    and "unicode_headers (reply_headers m)"
    and "r_rules p = Some rs" "should_forward UNCONDITIONAL rs = Some num" "num \<noteq> []"
  shows "\<exists>p1 f k ringing bye. volte_handle_incoming m addr p = (p1, Wait f k)
    \<and> vout p1 = vout p @ [(addr, ringing), (pcscf p, bye)] \<and> status_code ringing = Some 180 \<and> sip_method bye = Some (ustr ''BYE'')
    \<and> r_calls p1 = r_calls p \<and> find_call (call_id m) p1 = None
    \<and> (\<forall>r q. outcome r \<and> can_dial num q \<and> vup q \<longrightarrow>
        (\<exists>q1 f' k' invite. k r q = (q1, Wait f' k') \<and> vout q1 = vout q @ [(pcscf q, invite)] \<and> sip_method invite = Some (ustr ''INVITE'')
          \<and> request_uri invite = Some (ustr ''sip:'' @ dropWhile (\<lambda>c. c = 43) num @ [64] @ vg_home (vcfg q))
          \<and> r_calls q1 = r_calls q
          \<and> (\<forall>resp q2. status_code resp = Some 200 \<and> texts_ok q2 \<and> vclient q2 \<noteq> None \<and> vup q2 \<and> length (vobjs q) < length (vobjs q2) \<longrightarrow>
              (\<exists>q3 ack. vout q3 = vout q2 @ [(pcscf q2, ack)] \<and> sip_method ack = Some (ustr ''ACK'')
                \<and> vc_state (call_obj (length (vobjs q)) q3) = ACTIVE
                \<and> (r_calls q2 = [] \<longrightarrow> r_calls q3 = [] \<and> k' (Inr resp) q2 = (q3, Exc IndexError))))))"
proof -
  let ?i = "length (vobjs p)"
  have u: "unicode_text (call_id m)" "unicode_text (header m ''From'')"
    using assms(10) by (simp_all add: reply_headers_def)
  let ?ring = "reply_message 180 ''Ringing'' m"
  let ?p = "p\<lparr>vout := vout p @ [(addr, with_length ?ring)]\<rparr>"
  have t: "texts_ok ?p" using assms(4) by (simp add: texts_ok_def)
  define q where "q = fst (ring_call m addr ?p)"
  have rung: "can_hangup (call_id m) ?i q" "vout q = vout p @ [(addr, with_length ?ring)]" "r_calls q = r_calls p" "pcscf q = pcscf p"
    "vhal q" "r_manager q" "r_rules q = Some rs"
    using rung_fields [OF t _ _ _ u q_def] assms(5-9,11) by (simp_all add: pcscf_def)
  have re: "effect (ring_call m addr) ?p = (q, Ret ?i)"
    by (simp add: effect_run q_def ring_call_def allocate_rtp_port_def)
  obtain p1 f bye where w: "hangup_call (call_id m) q = (p1, Wait f after_bye)"
    and s: "request_sent (call_request ''BYE'' [] [] (call_id m) ?i (released (call_id m) ?i q)) (released (call_id m) ?i q) p1"
    and b: "vout p1 = vout q @ [(pcscf q, bye)]" "sip_method bye = Some (ustr ''BYE'')"
    using hangup_call_waits [OF rung(1)] by blast
  note R = released_facts [OF rung(1)]
  let ?k = "\<lambda>r. seq (seq (ignore (after_bye r)) (ignore (initiate_call num 0))) (take_last_index ?i)"
  have "incoming_call (extract_number_from_uri (header m ''From'')) (call_id m) q = seq (ignore (hangup_call (call_id m))) (ignore (initiate_call num 0)) q"
    using rung(6,7) assms(12,13) by (simp add: incoming_call_def)
  then have "handle_incoming_invite m addr p = (p1, Wait f ?k)"
    using reply_sent [OF assms(10,6,7) refl, of 180 "''Ringing''" addr] w rung(5)
    by (simp add: handle_incoming_invite_def cbind_ret [where m = "effect _", OF re] ignore_def)
  then have h: "volte_handle_incoming m addr p = (p1, Wait f ?k)"
    using assms(1-3) by (simp add: volte_handle_incoming_def ustr_simps)
  have "vout p1 = vout p @ [(addr, with_length ?ring), (pcscf p, bye)]" "status_code (with_length ?ring) = Some 180"
    using b(1) rung(2,4) by (simp_all add: reply_message_def)
  moreover have "r_calls p1 = r_calls p" "find_call (call_id m) p1 = None"
    using R(3,5) rung(3) by (simp_all add: request_sentD [OF s] find_call_def)
  ultimately show ?thesis using h b(2) forwarding_goes_on [of _ num _ ?i] by blast
qed

definition forwarding_phone :: phone where
  "forwarding_phone = sample_phone\<lparr>r_rules := Some (set_rule UNCONDITIONAL (ustr ''100'') 20 [])\<rparr>"

definition sample_invite :: sip_message where
  "sample_invite = empty_sip\<lparr>sip_method := Some (ustr ''INVITE''), headers := [(ustr ''Call-ID'', ustr ''c1'')]\<rparr>"

theorem forwarded_call_witness:
  "\<exists>p1 f k q1 f' k' q2 q3. volte_handle_incoming sample_invite (ustr ''10.0.0.1'', 5060) forwarding_phone = (p1, Wait f k)
    \<and> k (Inl TimeoutError) forwarding_phone = (q1, Wait f' k') \<and> k' (Inr (sample_answer 200)) q2 = (q3, Exc IndexError)"
proof -
  have d: "can_dial (ustr ''100'') forwarding_phone"
    using sample_can_dial by (simp add: can_dial_def forwarding_phone_def texts_ok_def)
  have t: "texts_ok forwarding_phone" using d by (simp add: can_dial_def)
  have c: "unicode_headers (reply_headers sample_invite)"
    by (simp add: reply_headers_def sample_invite_def header_def call_id_def dict_get_def ustr_simps)
  have f: "find_call (call_id sample_invite) forwarding_phone = None" "vstarted forwarding_phone" "vclient forwarding_phone \<noteq> None" "vup forwarding_phone"
    "vhal forwarding_phone" "r_manager forwarding_phone" "vobjs forwarding_phone = []"
    "r_rules forwarding_phone = Some (set_rule UNCONDITIONAL (ustr ''100'') 20 [])"
    using sample_phone_fields by (simp_all add: forwarding_phone_def find_call_def)
  have m: "sip_method sample_invite = Some (ustr ''INVITE'')" "\<not> is_response sample_invite"
    by (simp_all add: sample_invite_def is_response_def empty_sip_def)
  have r: "should_forward UNCONDITIONAL (set_rule UNCONDITIONAL (ustr ''100'') 20 []) = Some (ustr ''100'')" "ustr ''100'' \<noteq> []"
    by (simp_all add: should_forward_def set_rule_def Let_def ustr_simps)
  let ?q2 = "in_call\<lparr>r_calls := []\<rparr>"
  have q: "texts_ok ?q2 \<and> vclient ?q2 \<noteq> None \<and> vup ?q2 \<and> length (vobjs forwarding_phone) < length (vobjs ?q2) \<and> r_calls ?q2 = []"
    using in_call_can_hangup f(7) by (simp add: can_hangup_def texts_ok_def)
  have o: "outcome (Inl TimeoutError)" "status_code (sample_answer 200) = Some 200" by (simp_all add: outcome_def sample_answer_def)
  obtain p1 fu k where v: "volte_handle_incoming sample_invite (ustr ''10.0.0.1'', 5060) forwarding_phone = (p1, Wait fu k)"
    and n: "outcome r \<Longrightarrow> can_dial (ustr ''100'') q \<Longrightarrow> vup q \<Longrightarrow> \<exists>q1 f' k' invite. k r q = (q1, Wait f' k')
          \<and> vout q1 = vout q @ [(pcscf q, invite)] \<and> sip_method invite = Some (ustr ''INVITE'')
          \<and> request_uri invite = Some (ustr ''sip:'' @ dropWhile (\<lambda>c. c = 43) (ustr ''100'') @ [64] @ vg_home (vcfg q))
          \<and> r_calls q1 = r_calls q
          \<and> (\<forall>resp q2. status_code resp = Some 200 \<and> texts_ok q2 \<and> vclient q2 \<noteq> None \<and> vup q2 \<and> length (vobjs q) < length (vobjs q2) \<longrightarrow>
              (\<exists>q3 ack. vout q3 = vout q2 @ [(pcscf q2, ack)] \<and> sip_method ack = Some (ustr ''ACK'')
                \<and> vc_state (call_obj (length (vobjs q)) q3) = ACTIVE
                \<and> (r_calls q2 = [] \<longrightarrow> r_calls q3 = [] \<and> k' (Inr resp) q2 = (q3, Exc IndexError))))" for r q
    using forwarded_call [OF m f(1) t f(2-6) c f(8) r, of "(ustr ''10.0.0.1'', 5060)"] by (elim exE conjE) simp
  obtain q1 f' k' where k: "k (Inl TimeoutError) forwarding_phone = (q1, Wait f' k')"
    and e: "\<exists>q3. k' (Inr (sample_answer 200)) ?q2 = (q3, Exc IndexError)"
    using n [OF o(1) d f(4)] q o(2) by (elim exE conjE) blast
  from k e v show ?thesis by blast
qed

section \<open>RTP ports\<close>

text \<open>
  C34: In every run, the next RTP port is the base plus twice the number of sessions there ever were:
  ports are never given back. A session has media only if its port is a 16-bit number, and once the
  base plus twice the session's number is above 65535 starting its media does nothing, so that after
  at most 32768 sessions no call has media any more.
\<close>

theorem rtp_port_bounds:
  assumes "sys_run (volte_start (new_phone g ids ss bd)) (p, ts)"
  shows "vport_next p = vg_rtp_base g + 2 * int (length (vobjs p))
    \<and> (\<forall>i < length (vobjs p). vc_media (call_obj i p) \<noteq> None \<longrightarrow> 0 \<le> vg_rtp_base g + 2 * int i \<and> vg_rtp_base g + 2 * int i \<le> 65535)
    \<and> (\<forall>i < length (vobjs p). 65535 < vg_rtp_base g + 2 * int i \<longrightarrow> start_media i p = p)
    \<and> (0 \<le> vg_rtp_base g \<longrightarrow> card {i. i < length (vobjs p) \<and> vc_media (call_obj i p) \<noteq> None} \<le> 32768)"
proof -
  have inv: "phone_inv g p" using sys_run_inv [OF assms new_phone_inv] by (simp add: loop_inv_def)
  then have n: "vport_next p = vg_rtp_base g + 2 * int (length (vobjs p))" by (auto simp: phone_inv_def ports_ok_def)
  have ok: "vc_port (call_obj i p) = vg_rtp_base g + 2 * int i"
    "vc_media (call_obj i p) \<noteq> None \<Longrightarrow> 0 \<le> vg_rtp_base g + 2 * int i \<and> vg_rtp_base g + 2 * int i \<le> 65535"
    if "i < length (vobjs p)" for i
    using inv_obj [OF inv that] by (auto simp: obj_ok_def call_obj_def)
  have "start_media i p = p" if "i < length (vobjs p)" "65535 < vg_rtp_base g + 2 * int i" for i
    using that ok(1) by (simp add: start_media_def Let_def split: prod.split)
  moreover have "card {i. i < length (vobjs p) \<and> vc_media (call_obj i p) \<noteq> None} \<le> 32768" if "0 \<le> vg_rtp_base g"
  proof -
    have "{i. i < length (vobjs p) \<and> vc_media (call_obj i p) \<noteq> None} \<subseteq> {..< 32768}" using ok(2) that by fastforce
    from card_mono [OF _ this] show ?thesis by simp
  qed
  ultimately show ?thesis using n ok(2) by blast
qed

theorem rtp_port_bounds_witness:
  "\<exists>p ts. sys_run sample_phone (p, ts) \<and> vobjs p \<noteq> [] \<and> vport_next p = 50000 + 2 * int (length (vobjs p))"
proof -
  obtain p ts where s: "sys_run sample_phone (p, ts)" "vobjs p \<noteq> []" using sample_run by blast
  then show ?thesis using rtp_port_bounds [OF s(1) [unfolded sample_phone_def]] by (auto simp: sample_config_def)
qed

end
