(* ===== verification/Json_Text.thy ===== *)
theory Json_Text
  imports Json Digits Utf8
begin

text \<open>
  The text form of JSON, as \<^verbatim>\<open>json.dumps\<close> writes it and \<^verbatim>\<open>json.loads\<close> reads it: what the daemons put
  on their sockets. As in \<^verbatim>\<open>Json\<close>, floats and code points above 255 are left out: \<open>json_loads\<close> gives
  ValueError on them, as it does on text that is not JSON. Nesting is not limited.
\<close>

section \<open>Writing\<close>

definition BSLASH :: char where "BSLASH = CHR 0x5C"
definition DQUOTE :: char where "DQUOTE = CHR 0x22"

lemmas json_chars = BSLASH_def DQUOTE_def

text \<open>\<^verbatim>\<open>ensure_ascii\<close>: what is not printable ASCII is escaped.\<close>

definition escape_char :: "char \<Rightarrow> string" where
  "escape_char c = (let n = of_char c :: nat in
     if n = 34 \<or> n = 92 then [BSLASH, c] else if n = 8 then [BSLASH, CHR ''b''] else if n = 12 then [BSLASH, CHR ''f'']
     else if n = 10 then [BSLASH, CHR ''n''] else if n = 13 then [BSLASH, CHR ''r''] else if n = 9 then [BSLASH, CHR ''t'']
     else if 32 \<le> n \<and> n < 127 then [c]
     else [BSLASH, CHR ''u'', CHR ''0'', CHR ''0'', hex_digit (n div 16), hex_digit (n mod 16)])"

definition dump_str :: "string \<Rightarrow> string" where
  "dump_str s = DQUOTE # concat (map escape_char s) @ [DQUOTE]"

fun json_dumps :: "json \<Rightarrow> string" where
  "json_dumps JNull = ''null''"
| "json_dumps (JBool b) = (if b then ''true'' else ''false'')"
| "json_dumps (JInt i) = dec_int i"
| "json_dumps (JStr s) = dump_str s"
| "json_dumps (JArr xs) = ''['' @ join '', '' (map json_dumps xs) @ '']''"
| "json_dumps (JObj d) = ''{'' @ join '', '' (map (\<lambda>(k, v). dump_str k @ '': '' @ json_dumps v) d) @ ''}''"

section \<open>Reading\<close>

definition json_space :: "char \<Rightarrow> bool" where
  "json_space c \<longleftrightarrow> (of_char c :: nat) \<in> {32, 9, 10, 13}"

definition skip_space :: "string \<Rightarrow> string" where
  "skip_space s = dropWhile json_space s"

definition expect :: "string \<Rightarrow> string \<Rightarrow> string option" where
  "expect w s = (if take (length w) s = w then Some (drop (length w) s) else None)"

text \<open>What follows a backslash.\<close>

definition hex4 :: "string \<Rightarrow> nat option" where
  "hex4 s = (if length s = 4 then (case rmap hex_value s of Inl _ \<Rightarrow> None
     | Inr ds \<Rightarrow> Some (foldl (\<lambda>v d. 16 * v + d) 0 ds)) else None)"

definition unescape :: "char \<Rightarrow> char option" where
  "unescape c = map_of [(DQUOTE, DQUOTE), (BSLASH, BSLASH), (CHR ''/'', CHR ''/''), (CHR ''b'', CHR 0x08),
     (CHR ''f'', CHR 0x0C), (CHR ''n'', CHR 0x0A), (CHR ''r'', CHR 0x0D), (CHR ''t'', CHR 0x09)] c"

text \<open>The characters up to the closing quote, and the text after it.\<close>

fun scan_str :: "string \<Rightarrow> (string \<times> string) option" where
  "scan_str [] = None"
| "scan_str (c # s) =
     (if c = DQUOTE then Some ([], s)
      else if c = BSLASH then
        (case s of [] \<Rightarrow> None
         | e # r \<Rightarrow>
           if e = CHR ''u'' then
             (case hex4 (take 4 r) of None \<Rightarrow> None
              | Some n \<Rightarrow> if n < 256 then map_option (apfst (Cons (char_of n))) (scan_str (drop 4 r)) else None)
           else (case unescape e of None \<Rightarrow> None | Some x \<Rightarrow> map_option (apfst (Cons x)) (scan_str r)))
      else if (of_char c :: nat) < 32 then None
      else map_option (apfst (Cons c)) (scan_str s))"

definition digits_nat :: "string \<Rightarrow> nat" where
  "digits_nat s = foldl (\<lambda>v c. 10 * v + (of_char c - 48)) 0 s"

definition scan_nat :: "string \<Rightarrow> (nat \<times> string) option" where
  "scan_nat s = (case s of [] \<Rightarrow> None
     | c # r \<Rightarrow> if c = CHR ''0'' then Some (0, r)
         else if is_digit c then Some (digits_nat (takeWhile is_digit s), dropWhile is_digit s) else None)"

text \<open>An integer; a fraction or an exponent after it would make it a float.\<close>

definition scan_int :: "string \<Rightarrow> (json \<times> string) option" where
  "scan_int s = (case (if s \<noteq> [] \<and> hd s = CHR ''-'' then map_option (apfst (\<lambda>n. - int n)) (scan_nat (tl s))
                       else map_option (apfst int) (scan_nat s)) of
       None \<Rightarrow> None
     | Some (i, r) \<Rightarrow> if r \<noteq> [] \<and> hd r \<in> {CHR ''.'', CHR ''e'', CHR ''E''} then None else Some (JInt i, r))"

text \<open>A value, the rest of an array after a comma or the bracket, and the same for an object.\<close>

fun scan_val :: "nat \<Rightarrow> string \<Rightarrow> (json \<times> string) option"
  and scan_arr :: "nat \<Rightarrow> string \<Rightarrow> (json list \<times> string) option"
  and scan_obj :: "nat \<Rightarrow> string \<Rightarrow> (dict \<times> string) option"
where
  "scan_val 0 s = None"
| "scan_val (Suc n) s = (case s of [] \<Rightarrow> None
     | c # r \<Rightarrow>
       if c = DQUOTE then map_option (apfst JStr) (scan_str r)
       else if c = CHR ''{'' then
         (case skip_space r of [] \<Rightarrow> None
          | d # r' \<Rightarrow> if d = CHR ''}'' then Some (JObj [], r')
              else map_option (apfst (\<lambda>d. JObj (dict_update [] d))) (scan_obj n (d # r')))
       else if c = CHR ''['' then
         (case skip_space r of [] \<Rightarrow> None
          | d # r' \<Rightarrow> if d = CHR '']'' then Some (JArr [], r')
              else map_option (apfst JArr) (scan_arr n (d # r')))
       else if c = CHR ''n'' then map_option (Pair JNull) (expect ''null'' s)
       else if c = CHR ''t'' then map_option (Pair (JBool True)) (expect ''true'' s)
       else if c = CHR ''f'' then map_option (Pair (JBool False)) (expect ''false'' s)
       else scan_int s)"
| "scan_arr 0 s = None"
| "scan_arr (Suc n) s = (case scan_val n s of None \<Rightarrow> None
     | Some (v, r) \<Rightarrow> (case skip_space r of [] \<Rightarrow> None
         | d # r' \<Rightarrow> if d = CHR '']'' then Some ([v], r')
             else if d = CHR '','' then map_option (apfst (Cons v)) (scan_arr n (skip_space r')) else None))"
| "scan_obj 0 s = None"
| "scan_obj (Suc n) s = (case s of [] \<Rightarrow> None
     | q # s' \<Rightarrow> if q \<noteq> DQUOTE then None else
       (case scan_str s' of None \<Rightarrow> None
        | Some (k, r) \<Rightarrow> (case skip_space r of [] \<Rightarrow> None
           | d # r1 \<Rightarrow> if d \<noteq> CHR '':'' then None else
             (case scan_val n (skip_space r1) of None \<Rightarrow> None
              | Some (v, r2) \<Rightarrow> (case skip_space r2 of [] \<Rightarrow> None
                 | e # r3 \<Rightarrow> if e = CHR ''}'' then Some ([(k, v)], r3)
                     else if e = CHR '','' then map_option (apfst (Cons (k, v))) (scan_obj n (skip_space r3)) else None)))))"

text \<open>A step consumes a character or hands the text on to \<open>scan_val\<close>, so twice the length is enough fuel.\<close>

definition json_parse :: "string \<Rightarrow> json res" where
  "json_parse s = (case scan_val (2 * length s + 1) (skip_space s) of
       Some (v, r) \<Rightarrow> if skip_space r = [] then Inr v else Inl ValueError
     | None \<Rightarrow> Inl ValueError)"

definition json_loads :: "bytes \<Rightarrow> json res" where
  "json_loads bs = (if utf8_valid bs \<and> list_all (\<lambda>c. c < 256) (utf8_decode bs)
     then json_parse (map char_of (utf8_decode bs)) else Inl ValueError)"

text \<open>\<^verbatim>\<open>json.dumps(x).encode()\<close>.\<close>

definition json_bytes :: "json \<Rightarrow> bytes" where
  "json_bytes j = utf8 (json_dumps j)"

section \<open>What is written is read back\<close>

text \<open>Python dicts have distinct keys.\<close>

fun json_ok :: "json \<Rightarrow> bool" where
  "json_ok (JArr xs) = list_all json_ok xs"
| "json_ok (JObj d) = (dict_ok d \<and> list_all (\<lambda>(k, v). json_ok v) d)"
| "json_ok _ = True"

text \<open>Text that cannot be taken for more of an integer.\<close>

definition delim :: "string \<Rightarrow> bool" where
  "delim r \<longleftrightarrow> (case r of [] \<Rightarrow> True | c # _ \<Rightarrow> c \<in> {CHR '','', CHR '']'', CHR ''}''})"

lemma delim_simps [simp]: "delim []" "delim (CHR '','' # s)" "delim (CHR '']'' # s)" "delim (CHR ''}'' # s)"
  by (simp_all add: delim_def)

lemma skip_space_simps [simp]: "skip_space [] = []" "\<not> json_space c \<Longrightarrow> skip_space (c # s) = c # s"
  "skip_space (CHR '' '' # s) = skip_space s"
  by (simp_all add: skip_space_def json_space_def)

lemma char_bound: "(of_char c :: nat) < 256"
  by (rule of_char_mod_256 [THEN subst]) simp

lemma escape_scan: "scan_str (escape_char c @ s) = map_option (apfst (Cons c)) (scan_str s)"
proof -
  have h: "of_char c div 16 < (16 :: nat)" using char_bound [of c] by linarith
  have e: "hex4 [CHR ''0'', CHR ''0'', hex_digit (of_char c div 16), hex_digit (of_char c mod 16)] = Some (of_char c)"
    using h by (simp add: hex4_def hex_value_def [of "CHR ''0''"] mult.commute)
  consider "of_char c \<in> {34, 92, 8, 12, 10, 13, 9 :: nat}" | "of_char c \<notin> {34, 92, 8, 12, 10, 13, 9 :: nat}" by blast
  then show ?thesis
  proof cases
    case 1
    then have "(of_char c :: nat) \<in> of_char ` {CHR 0x22, CHR 0x5C, CHR 0x08, CHR 0x0C, CHR 0x0A, CHR 0x0D, CHR 0x09}" by simp
    then obtain d where d: "d \<in> {CHR 0x22, CHR 0x5C, CHR 0x08, CHR 0x0C, CHR 0x0A, CHR 0x0D, CHR 0x09}"
      "(of_char c :: nat) = of_char d" by blast
    then have "c = d" by (simp only: of_char_eq_iff)
    with d(1) show ?thesis by (auto simp: escape_char_def unescape_def json_chars)
  next
    case 2
    then have q: "c \<noteq> DQUOTE" "c \<noteq> BSLASH" by (auto simp: json_chars)
    show ?thesis
    proof (cases "32 \<le> (of_char c :: nat) \<and> of_char c < (127 :: nat)")
      case True
      with 2 have "escape_char c = [c]" by (simp add: escape_char_def Let_def)
      with True q show ?thesis by simp
    next
      case False
      with 2 have x: "escape_char c = [BSLASH, CHR ''u'', CHR ''0'', CHR ''0'', hex_digit (of_char c div 16), hex_digit (of_char c mod 16)]"
        by (auto simp: escape_char_def Let_def)
      have "BSLASH \<noteq> DQUOTE" by (simp add: json_chars)
      then show ?thesis using e char_bound [of c] by (simp add: x)
    qed
  qed
qed

lemma scan_dump_str: "scan_str (concat (map escape_char s) @ DQUOTE # r) = Some (s, r)"
  by (induction s) (simp_all add: escape_scan)

lemma dec_nat_digits: "list_all is_digit (dec_nat n) \<and> digits_nat (dec_nat n) = n \<and> dec_nat n \<noteq> []
    \<and> (hd (dec_nat n) = CHR ''0'' \<longrightarrow> n = 0)"
proof (induction n rule: dec_nat.induct)
  case (1 n)
  show ?case
  proof (cases "n < 10")
    case True
    then have "(char_of (48 + n) = CHR ''0'') = (n = 0)"
      by (simp add: char_of_eq_iff take_bit_eq_mod)
    with True show ?thesis by (subst (1 2 3 4) dec_nat.simps) (auto simp: digits_nat_def digit_char_def is_digit_def)
  next
    case False
    have d: "n mod 10 < 10" by simp
    have e: "dec_nat n = dec_nat (n div 10) @ [digit_char (n mod 10)]" using False by (subst dec_nat.simps) simp
    have v: "of_char (digit_char (n mod 10)) = 48 + n mod (10 :: nat)" using d by (simp add: digit_char_def)
    have "is_digit (digit_char (n mod 10))" using d by (simp add: is_digit_def v)
    then show ?thesis using 1 [OF False] False div_greater_zero_iff [of n 10] by (auto simp: e v digits_nat_def)
  qed
qed

lemma span_delim:
  assumes "list_all is_digit s" "delim r"
  shows "takeWhile is_digit (s @ r) = s" "dropWhile is_digit (s @ r) = r"
proof -
  have "takeWhile is_digit r = []" "dropWhile is_digit r = r"
    using assms(2) by (auto simp: delim_def is_digit_def split: list.splits)
  with assms(1) show "takeWhile is_digit (s @ r) = s" "dropWhile is_digit (s @ r) = r"
    by (simp_all add: takeWhile_append2 dropWhile_append2 list_all_iff)
qed

lemma scan_nat_dec:
  assumes "delim r"
  shows "scan_nat (dec_nat n @ r) = Some (n, r)"
proof -
  obtain c s where s: "dec_nat n = c # s" using dec_nat_digits [of n] by (cases "dec_nat n") auto
  have z: "dec_nat 0 = ''0''" by (subst dec_nat.simps) (simp add: digit_char_def char_of_eq_iff)
  show ?thesis
  proof (cases "c = CHR ''0''")
    case True
    then have "n = 0" using dec_nat_digits [of n] s by simp
    then show ?thesis by (simp add: z scan_nat_def)
  next
    case False
    have d: "is_digit c" "list_all is_digit (c # s)" "digits_nat (c # s) = n" using dec_nat_digits [of n] s by auto
    from span_delim [OF d(2) assms] d False show ?thesis by (simp add: s scan_nat_def)
  qed
qed

lemma scan_int_dec:
  assumes "delim r"
  shows "scan_int (dec_int i @ r) = Some (JInt i, r)"
proof -
  obtain c s where s: "dec_nat (nat i) = c # s" "is_digit c"
    using dec_nat_digits [of "nat i"] by (cases "dec_nat (nat i)") auto
  have "c \<noteq> CHR ''-''" using s(2) by (auto simp: is_digit_def)
  moreover have "\<not> (r \<noteq> [] \<and> hd r \<in> {CHR ''.'', CHR ''e'', CHR ''E''})"
    using assms by (auto simp: delim_def split: list.splits)
  ultimately show ?thesis
    using scan_nat_dec [OF assms, of "nat i"] scan_nat_dec [OF assms, of "nat (- i)"] s(1)
    by (auto simp: scan_int_def dec_int_def)
qed

text \<open>The first character of a value.\<close>

definition value_head :: "char \<Rightarrow> bool" where
  "value_head c \<longleftrightarrow> \<not> json_space c \<and> c \<noteq> CHR '']'' \<and> c \<noteq> CHR ''}''"

definition int_head :: "char \<Rightarrow> bool" where
  "int_head c \<longleftrightarrow> is_digit c \<or> c = CHR ''-''"

lemma int_head_other: "int_head c \<Longrightarrow> c \<notin> {DQUOTE, CHR ''{'', CHR ''['', CHR ''n'', CHR ''t'', CHR ''f''} \<and> value_head c"
  by (auto simp: int_head_def value_head_def is_digit_def json_space_def json_chars)

lemma dec_int_head: obtains c s where "dec_int i = c # s" "int_head c"
  using dec_nat_digits [of "nat i"] that
  by (cases "dec_nat (nat i)"; cases "i < 0") (auto simp: dec_int_def int_head_def)

lemma dumps_head: obtains c s where "json_dumps j = c # s" "value_head c"
proof (cases j)
  case (JInt i)
  then show ?thesis using that by (rule_tac dec_int_head [of i]) (auto dest: int_head_other)
next
  case (JBool b)
  then show ?thesis using that by (cases b) (auto simp: value_head_def json_space_def)
qed (use that in \<open>auto simp: value_head_def json_space_def dump_str_def json_chars\<close>)

lemma scan_val_int: "delim r \<Longrightarrow> scan_val (Suc n) (dec_int i @ r) = Some (JInt i, r)"
  using scan_int_dec [of r i] int_head_other by (rule_tac dec_int_head [of i]) auto

text \<open>\<open>n\<close> is enough fuel for the text of \<open>j\<close>, whatever delimits it.\<close>

definition reads :: "json \<Rightarrow> bool" where
  "reads j \<longleftrightarrow> (\<forall>n r. delim r \<longrightarrow> 2 * length (json_dumps j) \<le> n \<longrightarrow> scan_val n (json_dumps j @ r) = Some (j, r))"

lemma readsD: "reads j \<Longrightarrow> delim r \<Longrightarrow> 2 * length (json_dumps j) \<le> n \<Longrightarrow> scan_val n (json_dumps j @ r) = Some (j, r)"
  by (simp add: reads_def)

lemma skip_dumps [simp]: "skip_space (json_dumps j @ r) = json_dumps j @ r"
  by (rule dumps_head [of j]) (simp add: value_head_def)

lemma join_head: "xs \<noteq> [] \<Longrightarrow> \<exists>r. join sep xs = hd xs @ r"
  by (induction sep xs rule: join.induct) auto

lemma scan_arr_join:
  assumes "\<And>x. x \<in> set xs \<Longrightarrow> reads x" "xs \<noteq> []" "2 * length (join '', '' (map json_dumps xs)) < n"
  shows "scan_arr n (join '', '' (map json_dumps xs) @ CHR '']'' # r) = Some (xs, r)"
  using assms
proof (induction xs arbitrary: n)
  case (Cons x xs)
  obtain m where n: "n = Suc m" using Cons.prems(3) by (cases n) auto
  have x: "reads x" using Cons.prems(1) by simp
  show ?case
  proof (cases xs)
    case Nil
    then show ?thesis using readsD [OF x, of "CHR '']'' # r" m] Cons.prems(3) by (simp add: n json_space_def)
  next
    case (Cons y ys)
    let ?t = "join '', '' (map json_dumps xs)"
    obtain t where "?t = json_dumps y @ t" using join_head [of "map json_dumps xs"] Cons by auto
    then have "skip_space (?t @ CHR '']'' # r) = ?t @ CHR '']'' # r" by simp
    moreover have "scan_arr m (?t @ CHR '']'' # r) = Some (xs, r)"
      using Cons.IH [of m] Cons.prems Cons by (simp add: n)
    ultimately show ?thesis
      using readsD [OF x, of "CHR '','' # CHR '' '' # ?t @ CHR '']'' # r" m] Cons.prems(3) Cons
      by (simp add: n json_space_def)
  qed
qed simp

abbreviation dump_item :: "string \<times> json \<Rightarrow> string" where
  "dump_item \<equiv> \<lambda>(k, v). dump_str k @ '': '' @ json_dumps v"

lemma scan_obj_join:
  assumes "\<And>k v. (k, v) \<in> set d \<Longrightarrow> reads v" "d \<noteq> []" "2 * length (join '', '' (map dump_item d)) < n"
  shows "scan_obj n (join '', '' (map dump_item d) @ CHR ''}'' # r) = Some (d, r)"
  using assms
proof (induction d arbitrary: n)
  case (Cons x d)
  obtain m where n: "n = Suc m" using Cons.prems(3) by (cases n) auto
  obtain k v where x: "x = (k, v)" by (cases x)
  then have v: "reads v" using Cons.prems(1) [of k v] by simp
  have c: "\<not> json_space CHR '':''" "\<not> json_space CHR ''}''" "\<not> json_space CHR '',''" by (simp_all add: json_space_def)
  show ?case
  proof (cases d)
    case Nil
    then show ?thesis using readsD [OF v, of "CHR ''}'' # r" m] Cons.prems(3)
      by (simp add: n x dump_str_def scan_dump_str c)
  next
    case (Cons y ys)
    let ?t = "join '', '' (map dump_item d)"
    obtain t where "?t = dump_item y @ t" using join_head [of "map dump_item d"] Cons by auto
    then have "skip_space (?t @ CHR ''}'' # r) = ?t @ CHR ''}'' # r"
      by (cases y) (simp add: dump_str_def json_space_def json_chars)
    moreover have "scan_obj m (?t @ CHR ''}'' # r) = Some (d, r)"
    proof (rule Cons.IH)
      show "reads w" if "(i, w) \<in> set d" for i w using Cons.prems(1) [of i w] that by simp
    qed (use Cons.prems(3) Cons in \<open>simp_all add: n x\<close>)
    ultimately show ?thesis
      using readsD [OF v, of "CHR '','' # CHR '' '' # ?t @ CHR ''}'' # r" m] Cons.prems(3) Cons
      by (simp add: n x dump_str_def scan_dump_str c)
  qed
qed simp

lemma dict_update_fresh: "dict_ok (d @ e) \<Longrightarrow> dict_update d e = d @ e"
proof (induction e arbitrary: d)
  case (Cons x e)
  obtain k v where x: "x = (k, v)" by (cases x)
  have "k \<notin> fst ` set d" using Cons.prems by (auto simp: dict_ok_def x)
  then show ?case using Cons.IH [of "d @ [x]"] Cons.prems by (simp add: dict_update_def x dict_set_new)
qed (simp add: dict_update_def)

lemma reads_json: "json_ok j \<Longrightarrow> reads j"
proof (induction j)
  case (JInt i)
  have "json_dumps (JInt i) \<noteq> []" by (rule dumps_head [of "JInt i"]) auto
  then have "n \<noteq> 0" if "2 * length (json_dumps (JInt i)) \<le> n" for n using that by (cases "dec_int i") auto
  then show ?case unfolding reads_def using scan_val_int by (metis json_dumps.simps(3) not0_implies_Suc)
next
  case (JArr xs)
  have "scan_val n (json_dumps (JArr xs) @ r) = Some (JArr xs, r)" if n: "2 * length (json_dumps (JArr xs)) \<le> n" for n r
  proof -
    obtain m where m: "n = Suc m" using n by (cases n) auto
    show ?thesis
    proof (cases xs)
      case Nil
      then show ?thesis by (simp add: m json_space_def json_chars)
    next
      case (Cons x ys)
      have "\<And>x. x \<in> set xs \<Longrightarrow> reads x" using JArr by (auto simp: list_all_iff)
      then have a: "scan_arr m (join '', '' (map json_dumps xs) @ CHR '']'' # r) = Some (xs, r)"
        using scan_arr_join [of xs m r] n Cons by (simp add: m)
      obtain t where t: "join '', '' (map json_dumps xs) = json_dumps x @ t"
        using join_head [of "map json_dumps xs"] Cons by auto
      show ?thesis
        by (rule dumps_head [of x]) (use a in \<open>auto simp: m t value_head_def json_chars\<close>)
    qed
  qed
  then show ?case by (simp add: reads_def)
next
  case (JObj d)
  have "scan_val n (json_dumps (JObj d) @ r) = Some (JObj d, r)" if n: "2 * length (json_dumps (JObj d)) \<le> n" for n r
  proof -
    obtain m where m: "n = Suc m" using n by (cases n) auto
    show ?thesis
    proof (cases d)
      case Nil
      then show ?thesis by (simp add: m json_space_def json_chars)
    next
      case (Cons x ys)
      have "\<And>k v. (k, v) \<in> set d \<Longrightarrow> reads v" using JObj by (fastforce simp: list_all_iff)
      then have a: "scan_obj m (join '', '' (map dump_item d) @ CHR ''}'' # r) = Some (d, r)"
        using scan_obj_join [of d m r] n Cons by (simp add: m)
      obtain t where t: "join '', '' (map dump_item d) = DQUOTE # t"
        using join_head [of "map dump_item d"] Cons by (cases x) (auto simp: dump_str_def)
      have "dict_update [] d = d" using dict_update_fresh [of "[]" d] JObj.prems by simp
      then show ?thesis using a t by (simp add: m json_space_def json_chars)
    qed
  qed
  then show ?case by (simp add: reads_def)
next
  case (JStr s)
  have "scan_str (concat (map escape_char s) @ DQUOTE # r) = Some (s, r)" for r by (rule scan_dump_str)
  then show ?case by (auto simp: reads_def dump_str_def Suc_le_eq elim!: less_natE)
qed (auto simp: reads_def expect_def numeral_eq_Suc json_chars Suc_le_eq elim!: less_natE)

section \<open>The fuel is enough\<close>

lemma skip_space_le: "length (skip_space s) \<le> length s"
  by (simp add: skip_space_def length_dropWhile_le)

lemma scan_str_shorter: "scan_str s = Some (x, r) \<Longrightarrow> length r < length s"
  by (induction s arbitrary: x r rule: scan_str.induct)
    (fastforce split: if_splits list.splits option.splits simp: apfst_def)+

lemma scan_int_shorter:
  assumes "scan_int s = Some (x, r)"
  shows "length r < length s"
proof -
  have n: "length q < length t" if "scan_nat t = Some (k, q)" for t k q
    using that by (auto simp: scan_nat_def length_dropWhile_le le_imp_less_Suc split: list.splits if_splits)
  show ?thesis
    using assms n [of "tl s"] n [of s]
    by (auto simp: scan_int_def apfst_def neq_Nil_conv split: option.splits if_splits)
qed

lemma skip_spaceD: "skip_space s = c # r \<Longrightarrow> length r < length s"
  using skip_space_le [of s] by simp

lemma scan_shorter:
  "(\<forall>s v r. scan_val n s = Some (v, r) \<longrightarrow> length r < length s)
   \<and> (\<forall>s v r. scan_arr n s = Some (v, r) \<longrightarrow> length r < length s)
   \<and> (\<forall>s v r. scan_obj n s = Some (v, r) \<longrightarrow> length r < length s)"
proof (induction n)
  case (Suc n)
  then have v: "scan_val n s = Some (x, r) \<Longrightarrow> length r < length s" and a: "scan_arr n s = Some (xs, r) \<Longrightarrow> length r < length s"
    and o: "scan_obj n s = Some (d, r) \<Longrightarrow> length r < length s" for s x xs d r by blast+
  have "length r < length s" if h: "scan_val (Suc n) s = Some (x, r)" for s x r
  proof (cases s)
    case (Cons c t)
    have "length r < length s" if "scan_int s = Some (x, r)" using scan_int_shorter [OF that] .
    with h Cons show ?thesis
      by (auto simp: apfst_def expect_def split: list.splits if_splits option.splits
          dest!: scan_str_shorter skip_spaceD a o)
  qed (use h in simp)
  moreover have sk: "scan_val n (skip_space s) = Some (x, r) \<Longrightarrow> length r < length s"
    "scan_arr n (skip_space s) = Some (xs, r) \<Longrightarrow> length r < length s"
    "scan_obj n (skip_space s) = Some (d, r) \<Longrightarrow> length r < length s" for s x xs d r
    using v [of "skip_space s"] a [of "skip_space s"] o [of "skip_space s"] skip_space_le [of s] by (blast intro: less_le_trans)+
  have "length r < length s" if h: "scan_arr (Suc n) s = Some (x, r)" for s x r
    using h by (auto simp: apfst_def split: list.splits if_splits option.splits dest!: skip_spaceD v sk(2))
  moreover have "length r < length s" if h: "scan_obj (Suc n) s = Some (x, r)" for s x r
    using h by (auto simp: apfst_def split: list.splits if_splits option.splits dest!: scan_str_shorter skip_spaceD sk(1,3))
  ultimately show ?case by blast
qed simp_all

text \<open>More fuel than twice the length changes nothing, not even for text that is refused.\<close>

lemma scan_fuel:
  "(\<forall>s m. 2 * length s < n \<longrightarrow> n \<le> m \<longrightarrow> scan_val m s = scan_val n s)
   \<and> (\<forall>s m. 2 * length s + 1 < n \<longrightarrow> n \<le> m \<longrightarrow> scan_arr m s = scan_arr n s)
   \<and> (\<forall>s m. 2 * length s + 1 < n \<longrightarrow> n \<le> m \<longrightarrow> scan_obj m s = scan_obj n s)"
proof (induction n)
  case (Suc n)
  have v: "scan_val m s = scan_val n s" if "2 * length s < n" "n \<le> m" for m s using Suc that by blast
  have a: "scan_arr m s = scan_arr n s" if "2 * length s + 1 < n" "n \<le> m" for m s using Suc that by blast
  have o: "scan_obj m s = scan_obj n s" if "2 * length s + 1 < n" "n \<le> m" for m s using Suc that by blast
  have "scan_val (Suc m) s = scan_val (Suc n) s" if l: "2 * length s < Suc n" "n \<le> m" for s m
  proof (cases s)
    case (Cons c r)
    have "scan_obj m (skip_space r) = scan_obj n (skip_space r)" "scan_arr m (skip_space r) = scan_arr n (skip_space r)"
      using l Cons skip_space_le [of r] by (auto intro!: a o)
    then show ?thesis using Cons by (auto split: list.split)
  qed simp
  moreover have "scan_arr (Suc m) s = scan_arr (Suc n) s" if l: "2 * length s + 1 < Suc n" "n \<le> m" for s m
  proof -
    have "scan_arr m (skip_space r') = scan_arr n (skip_space r')" if "scan_val n s = Some (x, r)" "skip_space r = d # r'" for x r d r'
    proof -
      have "length r < length s" using scan_shorter [of n] that(1) by blast
      then show ?thesis using l skip_spaceD [OF that(2)] skip_space_le [of r'] by (intro a) simp_all
    qed
    then show ?thesis using v [of s m] l by (auto split: list.split option.split)
  qed
  moreover have "scan_obj (Suc m) s = scan_obj (Suc n) s" if l: "2 * length s + 1 < Suc n" "n \<le> m" for s m
  proof (cases s)
    case (Cons q t)
    have "scan_val m (skip_space r1) = scan_val n (skip_space r1)" if "scan_str t = Some (k, r)" "skip_space r = d # r1" for k r d r1
      using that l Cons scan_str_shorter [OF that(1)] skip_spaceD [OF that(2)] skip_space_le [of r1] by (intro v) simp_all
    moreover have "scan_obj m (skip_space r3) = scan_obj n (skip_space r3)"
      if "scan_str t = Some (k, r)" "skip_space r = d # r1" "scan_val n (skip_space r1) = Some (x, r2)" "skip_space r2 = e # r3"
      for k r d r1 x r2 e r3
    proof -
      have "length r2 < length (skip_space r1)" using scan_shorter [of n] that(3) by blast
      then show ?thesis
        using that l Cons scan_str_shorter [OF that(1)] skip_spaceD [OF that(2)] skip_spaceD [OF that(4)]
          skip_space_le [of r1] skip_space_le [of r3] by (intro o) simp_all
    qed
    ultimately show ?thesis using Cons by (auto split: list.split option.split)
  qed simp
  ultimately show ?case by (metis Suc_le_D Suc_le_mono)
qed simp

lemma parse_dumps: "json_ok j \<Longrightarrow> json_parse (json_dumps j) = Inr j"
  using readsD [OF reads_json, of j "[]" "2 * length (json_dumps j) + 1"] skip_dumps [of j "[]"]
  by (simp add: json_parse_def)

text \<open>The text is ASCII, so its bytes are its characters.\<close>

definition ascii :: "string \<Rightarrow> bool" where
  "ascii s \<longleftrightarrow> list_all (\<lambda>c. (of_char c :: nat) < 128) s"

lemma ascii_simps [simp]: "ascii []" "ascii (c # s) \<longleftrightarrow> (of_char c :: nat) < 128 \<and> ascii s" "ascii (s @ t) \<longleftrightarrow> ascii s \<and> ascii t"
  by (simp_all add: ascii_def)

lemma ascii_concat: "(\<And>x. x \<in> set xs \<Longrightarrow> ascii (f x)) \<Longrightarrow> ascii (concat (map f xs))"
  by (induction xs) auto

lemma ascii_join: "ascii sep \<Longrightarrow> (\<And>x. x \<in> set xs \<Longrightarrow> ascii x) \<Longrightarrow> ascii (join sep xs)"
  by (induction sep xs rule: join.induct) auto

lemma ascii_hex: "n < 16 \<Longrightarrow> (of_char (hex_digit n) :: nat) < 128"
  by (simp add: hex_digit_def)

lemma ascii_str [simp]: "ascii (dump_str s)"
proof -
  have "ascii (escape_char c)" for c
  proof -
    have "of_char c div 16 < (16 :: nat)" using char_bound [of c] by linarith
    then show ?thesis by (simp add: escape_char_def Let_def ascii_hex json_chars)
  qed
  then show ?thesis by (simp add: dump_str_def ascii_concat json_chars)
qed

lemma ascii_int [simp]: "ascii (dec_int i)"
proof -
  have "ascii (dec_nat n)" for n
    using dec_nat_digits [of n] unfolding ascii_def by (auto simp: list_all_iff is_digit_def)
  then show ?thesis by (simp add: dec_int_def)
qed

lemma ascii_dumps: "ascii (json_dumps j)"
  by (induction j) (auto intro!: ascii_join)

lemma utf8_ascii: "ascii s \<Longrightarrow> utf8 s = concat (map utf8_of (ustr s))"
  by (induction s) (simp_all add: utf8_def utf8_char_def utf8_of_def ustr_def)

text \<open>Every value reaches the other end of a socket as it was sent.\<close>

theorem json_roundtrip:
  assumes "json_ok j"
  shows "json_loads (json_bytes j) = Inr j"
proof -
  have b: "json_bytes j = concat (map utf8_of (ustr (json_dumps j)))"
    by (simp add: json_bytes_def utf8_ascii ascii_dumps)
  have d: "utf8_decode (json_bytes j) = ustr (json_dumps j)"
    using decode_encode_append [of "ustr (json_dumps j)" "[]"] by (simp add: b)
  have "utf8_encode (ustr (json_dumps j)) = Inr (json_bytes j)" by (simp add: utf8_encode_def b)
  then have "utf8_valid (json_bytes j)" by (simp add: utf8_valid_def d)
  moreover have "map char_of (ustr (json_dumps j)) = json_dumps j" by (simp add: ustr_def)
  moreover have "list_all (\<lambda>c. c < 256) (ustr (json_dumps j))" by (simp add: ustr_def list_all_iff char_bound)
  ultimately show ?thesis using parse_dumps [OF assms] by (simp add: json_loads_def d)
qed

text \<open>Sizes: a value is not longer than the object that holds it, and escapes take at most six characters.\<close>

lemma length_json_bytes: "length (json_bytes j) = length (json_dumps j)"
proof -
  have "length (concat (map utf8_of (ustr s))) = length s" if "ascii s" for s
    using that by (induction s) (simp_all add: ustr_def utf8_of_def)
  then show ?thesis by (simp add: json_bytes_def utf8_ascii ascii_dumps)
qed

lemma length_join: "x \<in> set xs \<Longrightarrow> length x \<le> length (join sep xs)"
  by (induction sep xs rule: join.induct) auto

lemma length_member: "(k, v) \<in> set d \<Longrightarrow> length (json_dumps v) \<le> length (json_dumps (JObj d))"
  using length_join [of "dump_item (k, v)" "map dump_item d" "'', ''"] by force

lemma length_dump_str: "length s + 2 \<le> length (dump_str s)" "length (dump_str s) \<le> 6 * length s + 2"
  by (induction s) (simp_all add: dump_str_def escape_char_def Let_def)

text \<open>A bound on the length of a text that is computed at once.\<close>

fun json_weight :: "json \<Rightarrow> nat" where
  "json_weight JNull = 4"
| "json_weight (JBool b) = 5"
| "json_weight (JInt i) = nat \<bar>i\<bar> + 2"
| "json_weight (JStr s) = 6 * length s + 2"
| "json_weight (JArr xs) = sum_list (map (\<lambda>x. json_weight x + 2) xs) + 2"
| "json_weight (JObj d) = sum_list (map (\<lambda>(k, v). 6 * length k + 6 + json_weight v) d) + 2"

lemma length_join_le: "length (join sep xs) \<le> sum_list (map (\<lambda>x. length x + length sep) xs)"
  by (induction sep xs rule: join.induct) auto

lemma length_dumps: "length (json_dumps j) \<le> json_weight j"
proof (induction j)
  case (JInt i)
  have "length (dec_nat n) \<le> n + 1" for n
  proof (induction n rule: dec_nat.induct)
    case (1 n)
    then show ?case by (subst dec_nat.simps) (auto intro: le_trans)
  qed
  from this [of "nat (- i)"] this [of "nat i"] show ?case by (auto simp: dec_int_def)
next
  case (JStr s)
  then show ?case using length_dump_str(2) [of s] by simp
next
  case (JArr xs)
  have "length (join '', '' (map json_dumps xs)) \<le> sum_list (map (\<lambda>x. length (json_dumps x) + 2) xs)"
    using length_join_le [of "'', ''" "map json_dumps xs"] by (simp add: comp_def)
  also have "\<dots> \<le> sum_list (map (\<lambda>x. json_weight x + 2) xs)" by (rule sum_list_mono) (simp add: JArr.IH)
  finally show ?case by simp
next
  case (JObj d)
  have "length (join '', '' (map dump_item d)) \<le> sum_list (map (\<lambda>x. length (dump_item x) + 2) d)"
    using length_join_le [of "'', ''" "map dump_item d"] by (simp add: comp_def)
  also have "\<dots> \<le> sum_list (map (\<lambda>(k, v). 6 * length k + 6 + json_weight v) d)"
  proof (rule sum_list_mono)
    fix x assume x: "x \<in> set d"
    obtain k v where kv: "x = (k, v)" by (cases x)
    then have "length (json_dumps v) \<le> json_weight v" using JObj.IH [of x v] x by simp
    then show "length (dump_item x) + 2 \<le> (case x of (k, v) \<Rightarrow> 6 * length k + 6 + json_weight v)"
      using length_dump_str(2) [of k] by (simp add: kv)
  qed
  finally show ?case by simp
qed simp_all

end
