(* ===== verification/Wire.thy ===== *)
theory Wire
  imports Json_Text Coroutine
begin

text \<open>
  The framing that the sockets of \<^verbatim>\<open>euicc/daemon.py\<close>, \<^verbatim>\<open>hal/radio_hal.py\<close>, \<^verbatim>\<open>hal/euicc_hal.py\<close> and
  \<^verbatim>\<open>hal/ril_bridge.py\<close> share: four bytes of length, then the payload. A connection is the loop of the
  server's \<^verbatim>\<open>_handle_client\<close> over the bytes that the client sends until it closes; the interface
  \<open>frame_server\<close> is what both servers give that loop: a limit on the length, the handler of a
  payload, and the writing of its answer.
\<close>

section \<open>Frames\<close>

definition frame :: "bytes \<Rightarrow> bytes" where
  "frame b = be_bytes 4 (length b) @ b"

definition framable :: "bytes \<Rightarrow> bool" where
  "framable b \<longleftrightarrow> length b < 256 ^ 4"

text \<open>\<^verbatim>\<open>len(b).to_bytes(4, "big")\<close> and \<^verbatim>\<open>struct.pack("!I", len(b))\<close>, then the payload.\<close>

definition to_frame :: "bytes \<Rightarrow> bytes res" where
  "to_frame b = rbind (to_bytes_be 4 (int (length b))) (\<lambda>l. Inr (l @ b))"

definition pack_frame :: "bytes \<Rightarrow> bytes res" where
  "pack_frame b = rbind (pack 4 (int (length b))) (\<lambda>l. Inr (l @ b))"

lemma to_frame_ok: "framable b \<Longrightarrow> to_frame b = Inr (frame b)" "framable b \<Longrightarrow> pack_frame b = Inr (frame b)"
  by (simp_all add: to_frame_def pack_frame_def to_bytes_be_def pack_def framable_def frame_def)

text \<open>\<^verbatim>\<open>readexactly(4)\<close>, then \<^verbatim>\<open>readexactly(length)\<close>: the payload and what follows, if there is so much.\<close>

definition read_frame :: "bytes \<Rightarrow> (bytes \<times> bytes) option" where
  "read_frame s = (let n = from_be (take 4 s) in
     if length s < 4 \<or> length (drop 4 s) < n then None else Some (take n (drop 4 s), drop (4 + n) s))"

lemma read_frame [simp]: "framable b \<Longrightarrow> read_frame (frame b @ r) = Some (b, r)"
  by (simp add: read_frame_def frame_def framable_def from_be_be_bytes_id)

lemma read_frame_shorter: "read_frame s = Some (b, r) \<Longrightarrow> length r < length s"
  by (auto simp: read_frame_def Let_def split: if_splits)

section \<open>Coroutines that handle exceptions\<close>

text \<open>\<^verbatim>\<open>try\<close>: the outcome of a coroutine, for the handler.\<close>

primrec co_attempt :: "('s, 'r, 'a) co \<Rightarrow> ('s, 'r, 'a res) co" where
  "co_attempt (Ret x) = Ret (Inr x)"
| "co_attempt (Exc e) = Ret (Inl e)"
| "co_attempt (Wait f c) = Wait f (\<lambda>r s. map_prod id co_attempt (c r s))"

definition attempt :: "('s, 'r, 'a) proc \<Rightarrow> ('s, 'r, 'a res) proc" where
  "attempt m = (\<lambda>s. case m s of (s', x) \<Rightarrow> (s', co_attempt x))"

lemma attempt_run [simp]:
  "m s = (s', Ret x) \<Longrightarrow> attempt m s = (s', Ret (Inr x))" "m s = (s', Exc e) \<Longrightarrow> attempt m s = (s', Ret (Inl e))"
  "m s = (s', Wait f c) \<Longrightarrow> attempt m s = (s', Wait f (\<lambda>r. attempt (c r)))"
  by (simp_all add: attempt_def case_prod_beta map_prod_def fun_eq_iff)

lemma safe_attempt: "safe P x \<Longrightarrow> safe P (co_attempt x)"
  by (induction rule: safe.induct) auto

lemma keeps_attempt [keeping]: "keeps P m \<Longrightarrow> keeps P (attempt m)"
  by (auto simp: keeps_def attempt_def safe_attempt split: prod.split)

lemma waits_attempt: "waits n x \<Longrightarrow> waits n (co_attempt x)"
  by (induction rule: waits.induct) auto

lemma within_attempt [waiting]: "within n m \<Longrightarrow> within n (attempt m)"
  by (simp add: within_def attempt_def case_prod_beta waits_attempt)

text \<open>A handler whose arguments are read first.\<close>

definition given :: "'a res \<Rightarrow> ('a \<Rightarrow> ('s, 'r, 'b) proc) \<Rightarrow> ('s, 'r, 'b) proc" where
  "given r k = (case r of Inl e \<Rightarrow> throw e | Inr x \<Rightarrow> k x)"

lemma keeps_given [keeping]: "(\<And>x. r = Inr x \<Longrightarrow> keeps P (k x)) \<Longrightarrow> keeps P (given r k)"
  by (simp add: given_def keeps_throw split: sum.split)

lemma waits_given: "(\<And>x. r = Inr x \<Longrightarrow> waits n (snd (k x m))) \<Longrightarrow> waits n (snd (given r k m))"
  by (simp add: given_def split: sum.split)

lemma within_given [waiting]: "(\<And>x. within n (k x)) \<Longrightarrow> within n (given r k)"
  by (simp add: given_def within_base split: sum.split)

section \<open>What a coroutine can return\<close>

inductive yields :: "('a \<Rightarrow> bool) \<Rightarrow> ('s, 'r, 'a) co \<Rightarrow> bool" for Q where
  yields_Ret: "Q x \<Longrightarrow> yields Q (Ret x)"
| yields_Exc: "yields Q (Exc e)"
| yields_Wait: "(\<And>r s. yields Q (snd (c r s))) \<Longrightarrow> yields Q (Wait f c)"

inductive_simps yields_simps [simp]: "yields Q (Ret x)" "yields Q (Exc e)" "yields Q (Wait f c)"

lemma yields_bind: "(\<And>x s. yields Q (snd (k x s))) \<Longrightarrow> yields Q (snd (co_bind x k s))"
proof (induction x arbitrary: s)
  case (Wait f c)
  have "yields Q (snd (co_bind (snd (c r q)) k (fst (c r q))))" for r q
    using Wait.IH [OF rangeI [of c r] rangeI [of "c r" q], of "snd (c r q)" "fst (c r q)"] Wait.prems
    by (simp add: prod_set_defs)
  then show ?case by (simp add: case_prod_beta)
qed simp_all

lemma yields_cbind: "(\<And>x s. yields Q (snd (k x s))) \<Longrightarrow> yields Q (snd (cbind m k s))"
  by (simp add: cbind_def case_prod_beta yields_bind)

text \<open>
  What holds of the state and the result when a coroutine returns, and of the state and the
  exception when it raises, whatever the waits give and other tasks do in between.
\<close>

inductive settles :: "('s \<Rightarrow> 'a \<Rightarrow> bool) \<Rightarrow> ('s \<Rightarrow> exn \<Rightarrow> bool) \<Rightarrow> 's \<times> ('s, 'r, 'a) co \<Rightarrow> bool" for R E where
  settles_Ret: "R s x \<Longrightarrow> settles R E (s, Ret x)"
| settles_Exc: "E s e \<Longrightarrow> settles R E (s, Exc e)"
| settles_Wait: "(\<And>r s'. settles R E (c r s')) \<Longrightarrow> settles R E (s, Wait f c)"

inductive_simps settles_simps [simp]: "settles R E (s, Ret x)" "settles R E (s, Exc e)" "settles R E (s, Wait f c)"

lemma settles_bind:
  assumes "settles R E (m s)" "\<And>s x. R s x \<Longrightarrow> settles R' E' (k x s)" "\<And>s e. E s e \<Longrightarrow> E' s e"
  shows "settles R' E' (cbind m k s)"
proof -
  have "settles R' E' (co_bind (snd p) k (fst p))" if "settles R E p" for p
    using that
  proof (induction rule: settles.induct)
    case (settles_Wait c s f)
    then show ?case by (simp add: case_prod_beta)
  qed (simp_all add: assms(2,3))
  from this [OF assms(1)] show ?thesis by (simp add: cbind_def case_prod_beta)
qed

lemma settles_attempt:
  assumes "settles R E (m s)" "\<And>s x. R s x \<Longrightarrow> R' s (Inr x)" "\<And>s e. E s e \<Longrightarrow> R' s (Inl e)"
  shows "settles R' E' (attempt m s)"
proof -
  have "settles R' E' (fst p, co_attempt (snd p))" if "settles R E p" for p
    using that
  proof (induction rule: settles.induct)
    case (settles_Wait c s f)
    then show ?case by (simp add: map_prod_def case_prod_beta)
  qed (simp_all add: assms(2,3))
  from this [OF assms(1)] show ?thesis by (simp add: attempt_def case_prod_beta)
qed

text \<open>Any coroutine returns or raises in some state, or waits.\<close>

lemma settles_any:
  fixes p :: "'s \<times> ('s, 'r, 'a) co"
  shows "settles (\<lambda>_ _. True) (\<lambda>_ _. True) p"
proof -
  have "settles (\<lambda>_ _. True) (\<lambda>_ _. True) (s, x)" for x :: "('s, 'r, 'a) co" and s
  proof (induction x arbitrary: s)
    case (Wait f c)
    have "settles (\<lambda>_ _. True) (\<lambda>_ _. True) (c r q)" for r q
      using Wait [OF rangeI [of c r] rangeI [of "c r" q], of "snd (c r q)" "fst (c r q)"] by (simp add: prod_set_defs)
    then show ?case by simp
  qed simp_all
  then show ?thesis by (cases p) simp
qed

lemma settles_then: "(\<And>s x. settles R E (k x s)) \<Longrightarrow> (\<And>s e. E s e) \<Longrightarrow> settles R E (cbind m k s)"
  by (rule settles_bind [OF settles_any]) simp_all

text \<open>A coroutine that runs alone to its end, with exactly these answers to its waits, in order.\<close>

fun run_with :: "'r list \<Rightarrow> 's \<times> ('s, 'r, 'a) co \<Rightarrow> ('s \<times> 'a res) option" where
  "run_with (r # rs) (s, Wait f c) = run_with rs (c r s)"
| "run_with [] (s, Ret x) = Some (s, Inr x)"
| "run_with [] (s, Exc e) = Some (s, Inl e)"
| "run_with rs x = None"

lemma run_bind:
  "run_with rs (m s) = Some (s', r) \<Longrightarrow> run_with (rs @ rs') (cbind m k s) = (case r of
     Inl e \<Rightarrow> if rs' = [] then Some (s', Inl e) else None | Inr x \<Rightarrow> run_with rs' (k x s'))"
proof -
  have "run_with rs p = Some (s', r) \<Longrightarrow> run_with (rs @ rs') (co_bind (snd p) k (fst p)) = (case r of
     Inl e \<Rightarrow> if rs' = [] then Some (s', Inl e) else None | Inr x \<Rightarrow> run_with rs' (k x s'))" for p
  proof (induction rs p rule: run_with.induct)
    case (3 s e)
    then show ?case by (cases rs') auto
  qed (auto simp: case_prod_beta)
  then show "run_with rs (m s) = Some (s', r) \<Longrightarrow> ?thesis" by (simp add: cbind_def case_prod_beta)
qed

lemma run_then: "run_with rs (m s) = Some (s', Inr x) \<Longrightarrow> run_with (rs @ rs') (cbind m k s) = run_with rs' (k x s')"
  by (simp add: run_bind)

lemma run_attempt: "run_with rs (m s) = Some (s', r) \<Longrightarrow> run_with rs (attempt m s) = Some (s', Inr r)"
proof -
  have "run_with rs p = Some (s', r) \<Longrightarrow> run_with rs (fst p, co_attempt (snd p)) = Some (s', Inr r)" for p
    by (induction rs p rule: run_with.induct) (auto simp: case_prod_beta map_prod_def)
  then show "run_with rs (m s) = Some (s', r) \<Longrightarrow> ?thesis" by (simp add: attempt_def case_prod_beta)
qed

lemma attempt_then: "run_with rs (m s) = Some (s', r) \<Longrightarrow> run_with rs (cbind (attempt m) k s) = run_with [] (k r s')"
  using run_then [where rs' = "[]", of rs "attempt m" s s' r k] run_attempt [of rs m s s' r] by simp

lemma run_seq: "run_with rs (m s) = Some (s', Inr x) \<Longrightarrow> run_with [] (k x s') = r \<Longrightarrow> run_with rs (cbind m k s) = r"
  using run_then [where rs' = "[]", of rs m s s' x k] by simp

lemma run_catch: "run_with rs (m s) = Some (s', x) \<Longrightarrow> run_with [] (k x s') = r \<Longrightarrow> run_with rs (cbind (attempt m) k s) = r"
  using attempt_then [of rs m s s' x k] by simp

section \<open>A coroutine of a part\<close>

text \<open>
  A coroutine of an object that belongs to a larger state: between two waits it sees and sets its part.
  \<open>get\<close> reads the part that \<open>put\<close> sets, and \<open>pick\<close> is what the outcome of a wait means to the part.
\<close>

primrec part_co :: "('s \<Rightarrow> 'p) \<Rightarrow> ('p \<Rightarrow> 's \<Rightarrow> 's) \<Rightarrow> ('q \<Rightarrow> 'r) \<Rightarrow> ('p, 'r, 'a) co \<Rightarrow> ('s, 'q, 'a) co" where
  "part_co get put pick (Ret x) = Ret x"
| "part_co get put pick (Exc e) = Exc e"
| "part_co get put pick (Wait f c) =
     Wait f (\<lambda>q s. case map_prod id (part_co get put pick) (c (pick q) (get s)) of (p, y) \<Rightarrow> (put p s, y))"

definition on_part :: "('s \<Rightarrow> 'p) \<Rightarrow> ('p \<Rightarrow> 's \<Rightarrow> 's) \<Rightarrow> ('q \<Rightarrow> 'r) \<Rightarrow> ('p, 'r, 'a) proc \<Rightarrow> ('s, 'q, 'a) proc" where
  "on_part get put pick m s = (case m (get s) of (p, x) \<Rightarrow> (put p s, part_co get put pick x))"

lemma keeps_part:
  fixes m :: "('p, 'r, 'a) proc"
  assumes "\<And>p s. P s \<Longrightarrow> P (put p s)"
  shows "keeps P (on_part get put pick m)"
proof -
  have "safe P (part_co get put pick x)" for x :: "('p, 'r, 'a) co"
  proof (induction x)
    case (Wait f c)
    have "safe P (part_co get put pick (snd (c r p)))" for r p
      using Wait.IH [OF rangeI [of c r] rangeI [of "c r" p], of "snd (c r p)"] by (simp add: prod_set_defs)
    then show ?case using assms by (simp add: case_prod_beta)
  qed simp_all
  then show ?thesis using assms by (simp add: keeps_def on_part_def case_prod_beta)
qed

locale part =
  fixes get :: "'s \<Rightarrow> 'p" and put :: "'p \<Rightarrow> 's \<Rightarrow> 's" and pick :: "'q \<Rightarrow> 'r"
  assumes get_put: "get (put p s) = p" and put_put: "put p (put p' s) = put p s"
begin

lemma waits_part: "waits n x \<Longrightarrow> waits n (part_co get put pick x)"
  by (induction rule: waits.induct) (auto simp: case_prod_beta)

lemma within_part: "within n m \<Longrightarrow> within n (on_part get put pick m)"
  by (simp add: within_def on_part_def case_prod_beta waits_part)

lemma run_part: "run_with (map pick qs) (m (get s)) = Some (p, r) \<Longrightarrow> run_with qs (on_part get put pick m s) = Some (put p s, r)"
proof -
  have "run_with (map pick qs) c = Some (p, r) \<Longrightarrow> run_with qs (put (fst c) s, part_co get put pick (snd c)) = Some (put p s, r)" for c
  proof (induction qs arbitrary: c)
    case Nil
    then show ?case by (cases c; cases "snd c") auto
  next
    case (Cons q qs)
    then show ?case by (cases c; cases "snd c") (auto simp: case_prod_beta get_put put_put)
  qed
  then show "run_with (map pick qs) (m (get s)) = Some (p, r) \<Longrightarrow> ?thesis" by (simp add: on_part_def case_prod_beta)
qed

end

section \<open>The loop of a server\<close>

text \<open>
  \<open>handle\<close> answers a payload, \<open>limit\<close> is the largest length it accepts. The loop ends when the
  stream ends inside a frame, when a length exceeds the limit, and with an exception of \<open>handle\<close>.
\<close>

function serve :: "nat \<Rightarrow> (bytes \<Rightarrow> ('s, 'r, bytes) proc) \<Rightarrow> (bytes \<Rightarrow> 's \<Rightarrow> 's) \<Rightarrow> bytes \<Rightarrow> ('s, 'r, unit) proc" where
  "serve limit handle put s =
     (if length s \<ge> 4 \<and> from_be (take 4 s) > limit then ret ()
      else case read_frame s of None \<Rightarrow> ret ()
        | Some (b, r) \<Rightarrow> cbind (handle b) (\<lambda>out. seq (act (put out)) (serve limit handle put r)))"
  by pat_completeness auto
termination by (relation "measure (\<lambda>(_, _, _, s). length s)") (auto dest: read_frame_shorter)

declare serve.simps [simp del]

text \<open>The payloads that such a loop takes from a stream, and what it does with one of them.\<close>

function payloads :: "nat \<Rightarrow> bytes \<Rightarrow> bytes list" where
  "payloads limit s =
     (if length s \<ge> 4 \<and> from_be (take 4 s) > limit then []
      else case read_frame s of None \<Rightarrow> [] | Some (b, r) \<Rightarrow> b # payloads limit r)"
  by pat_completeness auto
termination by (relation "measure (\<lambda>(_, s). length s)") (auto dest: read_frame_shorter)

declare payloads.simps [simp del]

definition turn :: "(bytes \<Rightarrow> ('s, 'r, bytes) proc) \<Rightarrow> (bytes \<Rightarrow> 's \<Rightarrow> 's) \<Rightarrow> bytes \<Rightarrow> ('s, 'r, unit) proc" where
  "turn handle put b = cbind (handle b) (\<lambda>out. act (put out))"

lemma turn_then: "seq (turn handle put b) k = cbind (handle b) (\<lambda>out. seq (act (put out)) k)"
  by (simp add: turn_def cbind_assoc)

text \<open>The payloads are answered one after the other, in the order of the stream.\<close>

lemma serve_each: "serve limit handle put s = each (turn handle put) (payloads limit s)"
proof (induction limit s rule: payloads.induct)
  case (1 limit s)
  then show ?case
    by (subst serve.simps, subst payloads.simps) (auto simp: turn_then split: option.split)
qed

lemma payloads_frames:
  assumes "limit < 256 ^ 4" "\<forall>b \<in> set bs. length b \<le> limit"
  shows "payloads limit (concat (map frame bs) @ r) = bs @ payloads limit r"
  using assms(2)
proof (induction bs)
  case (Cons b bs)
  then have f: "framable b" using assms(1) by (simp add: framable_def)
  let ?s = "concat (map frame (b # bs)) @ r"
  have "from_be (take 4 ?s) = length b" using f by (simp add: frame_def framable_def from_be_be_bytes_id)
  moreover have "read_frame ?s = Some (b, concat (map frame bs) @ r)" using f by simp
  ultimately show ?case using Cons by (subst payloads.simps) simp
qed simp
lemma payloads_stop: "read_frame s = None \<or> length s \<ge> 4 \<and> from_be (take 4 s) > limit \<Longrightarrow> payloads limit s = []"
  by (subst payloads.simps) auto

lemma payloads_limit: "b \<in> set (payloads limit s) \<Longrightarrow> length b \<le> limit"
proof (induction limit s rule: payloads.induct)
  case (1 limit s)
  show ?case
  proof (cases "length s \<ge> 4 \<and> from_be (take 4 s) > limit \<or> read_frame s = None")
    case True
    then have "payloads limit s = []" by (subst payloads.simps) auto
    with 1(2) show ?thesis by simp
  next
    case False
    then obtain c r where r: "read_frame s = Some (c, r)" by auto
    then have "payloads limit s = c # payloads limit r" using False by (subst payloads.simps) auto
    moreover have "length c \<le> limit" using r False by (auto simp: read_frame_def Let_def split: if_splits)
    ultimately show ?thesis using 1(1) [of "(c, r)"] 1(2) r False by auto
  qed
qed

text \<open>A frame takes at least four bytes.\<close>

lemma payloads_count: "4 * length (payloads limit s) \<le> length s"
proof (induction limit s rule: payloads.induct)
  case (1 limit s)
  have "length r + 4 \<le> length s" if "read_frame s = Some (b, r)" for b r
    using that by (auto simp: read_frame_def Let_def split: if_splits)
  then show ?case using 1 by (subst payloads.simps) (fastforce split: option.split)
qed

lemma serve_within:
  assumes "\<And>b. within n (handle b)"
  shows "within (n * (length s div 4)) (serve limit handle put s)"
proof -
  have "within (length (payloads limit s) * n) (serve limit handle put s)"
    unfolding serve_each by (rule within_each) (simp add: turn_def within_then1 assms within_base)
  moreover have "length (payloads limit s) \<le> length s div 4" using payloads_count [of limit s] by linarith
  ultimately show ?thesis by (simp add: within_mono mult.commute mult_le_mono2)
qed

locale frame_server =
  fixes limit :: nat and handle :: "bytes \<Rightarrow> ('s, 'r, bytes) proc" and put :: "bytes \<Rightarrow> 's \<Rightarrow> 's"
    and ok :: "bytes \<Rightarrow> bool" and inv :: "'s \<Rightarrow> bool"
  assumes small: "limit < 256 ^ 4"
    and handle_keeps: "ok b \<Longrightarrow> keeps inv (handle b)"
    and put_keeps: "inv s \<Longrightarrow> inv (put out s)"
begin

lemma serve_keeps:
  assumes "\<forall>b \<in> set (payloads limit s). ok b"
  shows "keeps inv (serve limit handle put s)"
  unfolding serve_each using assms by (auto simp: turn_def intro!: keeping handle_keeps put_keeps)

lemma serve_frames:
  assumes "\<forall>b \<in> set bs. length b \<le> limit"
  shows "serve limit handle put (concat (map frame bs) @ r) = seq (each (turn handle put) bs) (serve limit handle put r)"
  unfolding serve_each payloads_frames [OF small assms] by (induction bs) (simp_all add: cbind_assoc)

end

end
