(* ===== verification/Daemon.thy ===== *)
theory Daemon
  imports Wire Apdu
begin

text \<open>
  \<^verbatim>\<open>euicc/daemon.py\<close>: the eUICC behind a socket. The daemon's state is the APDU handler with its card
  and, for one connection, the bytes written to the client; \<open>dm_uuids\<close> are the random identifiers
  that installations draw. Processing a message never waits. The client's side is
  \<^verbatim>\<open>_send_euicc_message\<close> of \<^verbatim>\<open>hal/radio_hal.py\<close>.
\<close>

record daemon =
  dm_card :: handler
  dm_uuids :: "nat \<Rightarrow> string"
  dm_next :: nat
  dm_out :: bytes

definition new_daemon :: "handler \<Rightarrow> (nat \<Rightarrow> string) \<Rightarrow> daemon" where
  "new_daemon h uuids = \<lparr>dm_card = h, dm_uuids = uuids, dm_next = 0, dm_out = []\<rparr>"

section \<open>Formatting\<close>

text \<open>\<^verbatim>\<open>f"{x:02x}"\<close> and \<^verbatim>\<open>f"{x:02X}"\<close>.\<close>

fun hex_nat :: "nat \<Rightarrow> string" where
  "hex_nat n = (if n < 16 then [hex_digit n] else hex_nat (n div 16) @ [hex_digit (n mod 16)])"

declare hex_nat.simps [simp del]

definition fmt_02x :: "int \<Rightarrow> string" where
  "fmt_02x x = (let s = (if x < 0 then CHR ''-'' # hex_nat (nat (- x)) else hex_nat (nat x))
     in replicate (2 - length s) CHR ''0'' @ s)"

definition fmt_02X :: "int \<Rightarrow> string" where
  "fmt_02X x = map upper_char (fmt_02x x)"

definition status_word :: "response \<Rightarrow> string" where
  "status_word r = fmt_02X (sw1 r) @ fmt_02X (sw2 r)"

text \<open>\<^verbatim>\<open>f"{x}"\<close> of a JSON value.\<close>

definition py_str :: "json \<Rightarrow> string" where
  "py_str j = (case j of JStr s \<Rightarrow> s | _ \<Rightarrow> py_repr j)"

definition as_dict :: "json \<Rightarrow> dict res" where
  "as_dict j = (case j of JObj d \<Rightarrow> Inr d | _ \<Rightarrow> Inl AttributeError)"

section \<open>One message\<close>

definition set_euicc :: "euicc \<Rightarrow> daemon \<Rightarrow> daemon" where
  "set_euicc e d = d\<lparr>dm_card := (dm_card d)\<lparr>h_euicc := e\<rparr>\<rparr>"

definition daemon_euicc :: "daemon \<Rightarrow> euicc" where
  "daemon_euicc d = h_euicc (dm_card d)"

definition credentials :: "isdp \<Rightarrow> dict" where
  "credentials p = (let i = get_isim_data p in dict_update (get_usim_data p)
     [(''impi'', of_opt_str (isim_impi i)), (''impu'', of_opt_str (isim_impu i)), (''home_domain'', of_opt_str (isim_domain i))])"

text \<open>An operation of the card that gives a flag.\<close>

definition flag_result :: "(euicc \<times> bool) res \<Rightarrow> daemon \<Rightarrow> daemon \<times> dict res" where
  "flag_result m d = (case m of Inl e \<Rightarrow> (d, Inl e)
     | Inr (e, ok) \<Rightarrow> (set_euicc e d, Inr [(''type'', JStr ''result''), (''success'', JBool ok)]))"

definition process_apdu_message :: "aes \<Rightarrow> dict \<Rightarrow> daemon \<Rightarrow> daemon \<times> dict res" where
  "process_apdu_message aes msg d = (case rbind (jstr msg ''data'' '''') fromhex of Inl e \<Rightarrow> (d, Inl e)
     | Inr raw \<Rightarrow> (case process_apdu aes raw (dm_card d) of (h, r) \<Rightarrow>
         (d\<lparr>dm_card := h\<rparr>, rbind (response_to_bytes r) (\<lambda>bs.
            Inr [(''type'', JStr ''apdu_response''), (''data'', JStr (hex_of bs)), (''sw'', JStr (status_word r))]))))"

definition process_install :: "dict \<Rightarrow> daemon \<Rightarrow> daemon \<times> dict res" where
  "process_install msg d = (case dict_get msg ''profile'' (JObj []) of
       JObj package \<Rightarrow> (case install_profile package (dm_uuids d (dm_next d)) (daemon_euicc d) of
           Inl e \<Rightarrow> (d, Inl e)
         | Inr (e, p) \<Rightarrow> ((set_euicc e d)\<lparr>dm_next := dm_next d + 1\<rparr>,
             Inr [(''type'', JStr ''result''), (''success'', JBool True), (''iccid'', JStr (iccid p))]))
     | _ \<Rightarrow> (d, Inl TypeError))"

definition process_credentials :: "dict \<Rightarrow> daemon \<Rightarrow> daemon \<times> dict res" where
  "process_credentials msg d = (case jstr msg ''iccid'' '''' of Inl e \<Rightarrow> (d, Inl e)
     | Inr i \<Rightarrow> (case map_of (profiles (daemon_euicc d)) i of
         None \<Rightarrow> (d, Inr [(''type'', JStr ''error''), (''message'', JStr (''Profile '' @ i @ '' not found''))])
       | Some p \<Rightarrow> (d, Inr [(''type'', JStr ''credentials''), (''data'', JObj (credentials p))])))"

definition process_message :: "aes \<Rightarrow> dict \<Rightarrow> daemon \<Rightarrow> daemon \<times> dict res" where
  "process_message aes msg d =
     (let t = dict_get msg ''type'' JNull; e = daemon_euicc d in
      if t = JStr ''apdu'' then process_apdu_message aes msg d
      else if t = JStr ''get_info'' then (d, Inr [(''type'', JStr ''info''), (''data'', JObj (get_euicc_info e))])
      else if t = JStr ''list_profiles'' then
        (d, rbind (list_profiles e) (\<lambda>ps. Inr [(''type'', JStr ''profiles''), (''data'', JArr (map JObj ps))]))
      else if t = JStr ''enable_profile'' then flag_result (rbind (jstr msg ''iccid'' '''') (\<lambda>i. enable_profile i e)) d
      else if t = JStr ''disable_profile'' then flag_result (rbind (jstr msg ''iccid'' '''') (\<lambda>i. disable_profile i e)) d
      else if t = JStr ''install_profile'' then process_install msg d
      else if t = JStr ''delete_profile'' then flag_result (rbind (jstr msg ''iccid'' '''') (\<lambda>i. delete_profile i e)) d
      else if t = JStr ''get_profile_credentials'' then process_credentials msg d
      else (d, Inr [(''type'', JStr ''error''), (''message'', JStr (''Unknown message type: '' @ py_str t))]))"

section \<open>A connection\<close>

text \<open>From the payload to the frame of the answer; a payload that is not an object is an AttributeError.\<close>

definition answer_payload :: "aes \<Rightarrow> bytes \<Rightarrow> daemon \<Rightarrow> daemon \<times> bytes res" where
  "answer_payload aes b d = (case rbind (json_loads b) as_dict of Inl e \<Rightarrow> (d, Inl e)
     | Inr msg \<Rightarrow> (case process_message aes msg d of (d', r) \<Rightarrow> (d', rbind r (\<lambda>x. to_frame (json_bytes (JObj x))))))"

definition daemon_handle :: "aes \<Rightarrow> bytes \<Rightarrow> (daemon, 'r, bytes) proc" where
  "daemon_handle aes b = effect (answer_payload aes b)"

definition daemon_put :: "bytes \<Rightarrow> daemon \<Rightarrow> daemon" where
  "daemon_put out d = d\<lparr>dm_out := dm_out d @ out\<rparr>"

text \<open>The stream of a client, served until it closes or the daemon closes it: an exception is logged.\<close>

definition handle_client :: "aes \<Rightarrow> bytes \<Rightarrow> (daemon, 'r, unit) proc" where
  "handle_client aes s = ignore (attempt (serve 65536 (daemon_handle aes) daemon_put s))"

text \<open>The state that a connection leaves; what it wrote is in \<open>dm_out\<close>.\<close>

definition connection :: "aes \<Rightarrow> bytes \<Rightarrow> daemon \<Rightarrow> daemon" where
  "connection aes s d = fst ((handle_client aes s :: (daemon, unit, unit) proc) (d\<lparr>dm_out := []\<rparr>))"

section \<open>The client\<close>

text \<open>
  One request over a connection of its own, which is gone afterwards: the code that the clients of
  the daemon share. No daemon is an OSError, and a connection that ends without a whole answer an
  EOFError. The answers of the daemon are objects.
\<close>

definition socket_exchange :: "aes \<Rightarrow> bool \<Rightarrow> dict \<Rightarrow> daemon \<Rightarrow> daemon \<times> dict res" where
  "socket_exchange aes up msg d =
     (if \<not> up then (d, Inl OSError)
      else case to_frame (json_bytes (JObj msg)) of Inl e \<Rightarrow> (d, Inl e)
      | Inr out \<Rightarrow> let d' = connection aes out d in
          (d'\<lparr>dm_out := dm_out d\<rparr>, case read_frame (dm_out d') of None \<Rightarrow> Inl EOFError
             | Some (b, _) \<Rightarrow> rbind (json_loads b) as_dict))"

text \<open>The Radio HAL's \<^verbatim>\<open>_send_euicc_message\<close>: every failure gives the empty object.\<close>

definition send_euicc_message :: "aes \<Rightarrow> bool \<Rightarrow> dict \<Rightarrow> daemon \<Rightarrow> daemon \<times> dict" where
  "send_euicc_message aes up msg d = (case socket_exchange aes up msg d of (d', r) \<Rightarrow>
     (d', case r of Inl _ \<Rightarrow> [] | Inr x \<Rightarrow> x))"

section \<open>One request over a connection\<close>

definition message_bytes :: "dict \<Rightarrow> bytes" where
  "message_bytes msg = json_bytes (JObj msg)"

definition sendable :: "dict \<Rightarrow> bool" where
  "sendable msg \<longleftrightarrow> json_ok (JObj msg) \<and> length (message_bytes msg) \<le> 65536"

definition receivable :: "dict \<Rightarrow> bool" where
  "receivable x \<longleftrightarrow> json_ok (JObj x) \<and> framable (message_bytes x)"

lemma sized_ok: "json_weight (JObj msg) \<le> 65536 \<Longrightarrow> json_ok (JObj msg) \<Longrightarrow> sendable msg \<and> receivable msg"
  using length_dumps [of "JObj msg"] by (simp add: sendable_def receivable_def framable_def message_bytes_def length_json_bytes del: json_dumps.simps json_weight.simps)

lemma loads_message: "json_ok (JObj msg) \<Longrightarrow> rbind (json_loads (message_bytes msg)) as_dict = Inr msg"
  unfolding message_bytes_def by (subst json_roundtrip) (simp_all add: as_dict_def)

lemma answer_message:
  assumes "json_ok (JObj msg)" "process_message aes msg d = (d', r)" "\<And>x. r = Inr x \<Longrightarrow> framable (message_bytes x)"
  shows "answer_payload aes (message_bytes msg) d = (d', rbind r (\<lambda>x. Inr (frame (message_bytes x))))"
  using assms(2,3) unfolding answer_payload_def loads_message [OF assms(1)]
  by (cases r) (simp_all add: to_frame_ok flip: message_bytes_def)

text \<open>The exchanges of a connection, as the requests and answers that cross it.\<close>

fun process_all :: "aes \<Rightarrow> dict list \<Rightarrow> daemon \<Rightarrow> daemon \<times> dict list" where
  "process_all aes [] d = (d, [])"
| "process_all aes (m # ms) d = (case process_message aes m d of
       (d', Inl e) \<Rightarrow> (d', [])
     | (d', Inr x) \<Rightarrow> (case process_all aes ms d' of (d2, xs) \<Rightarrow> (d2, x # xs)))"

lemma process_message_out:
  "process_message aes m (d\<lparr>dm_out := out\<rparr>) = (case process_message aes m d of (d', r) \<Rightarrow> (d'\<lparr>dm_out := out\<rparr>, r))"
proof -
  define out_of where "out_of = (\<lambda>(d' :: daemon, r :: dict res). (d' \<lparr>dm_out := out\<rparr>, r))"
  have e: "daemon_euicc (d\<lparr>dm_out := out\<rparr>) = daemon_euicc d" by (simp add: daemon_euicc_def)
  have s: "set_euicc e (d\<lparr>dm_out := out\<rparr>) = (set_euicc e d)\<lparr>dm_out := out\<rparr>" for e by (simp add: set_euicc_def)
  have a: "process_apdu_message aes m (d\<lparr>dm_out := out\<rparr>) = out_of (process_apdu_message aes m d)"
    by (simp add: process_apdu_message_def out_of_def split: sum.split prod.split)
  have f: "flag_result x (d\<lparr>dm_out := out\<rparr>) = out_of (flag_result x d)" for x
    by (simp add: flag_result_def out_of_def s split: sum.split prod.split)
  have i: "process_install m (d\<lparr>dm_out := out\<rparr>) = out_of (process_install m d)"
    by (simp add: process_install_def out_of_def s e split: sum.split prod.split json.split)
  have c: "process_credentials m (d\<lparr>dm_out := out\<rparr>) = out_of (process_credentials m d)"
    by (simp add: process_credentials_def out_of_def e split: sum.split option.split)
  have r: "(d\<lparr>dm_out := out\<rparr>, x) = out_of (d, x)" for x by (simp add: out_of_def)
  show ?thesis
    unfolding process_message_def Let_def e a f i c r by (simp add: out_of_def if_distrib [of out_of])
qed

lemma serve_all:
  assumes "\<forall>m \<in> set ms. sendable m" "process_all aes ms d = (d', xs)" "\<forall>x \<in> set xs. framable (message_bytes x)"
  shows "\<exists>co :: (daemon, 'r, unit) co. each (turn (daemon_handle aes) daemon_put) (map message_bytes ms) (d\<lparr>dm_out := out\<rparr>) =
     (d'\<lparr>dm_out := out @ concat (map (frame \<circ> message_bytes) xs)\<rparr>, co) \<and> (co = Ret () \<or> (\<exists>e. co = Exc e))"
  using assms
proof (induction ms arbitrary: d xs out)
  case (Cons m ms)
  obtain d1 r where r: "process_message aes m d = (d1, r)" by fastforce
  have j: "json_ok (JObj m)" using Cons.prems(1) by (simp add: sendable_def)
  show ?case
  proof (cases r)
    case (Inl e)
    with r have "(turn (daemon_handle aes) daemon_put (message_bytes m) :: (daemon, 'r, unit) proc) (d\<lparr>dm_out := out\<rparr>) = (d1\<lparr>dm_out := out\<rparr>, Exc e)"
      using answer_message [OF j, of aes "d\<lparr>dm_out := out\<rparr>" "d1\<lparr>dm_out := out\<rparr>" r] process_message_out [of aes m out d]
      by (simp add: turn_def daemon_handle_def effect_run)
    then have "seq (turn (daemon_handle aes) daemon_put (message_bytes m)) k (d\<lparr>dm_out := out\<rparr>) = (d1\<lparr>dm_out := out\<rparr>, Exc e)"
      for k :: "(daemon, 'r, unit) proc" by (simp add: cbind_def)
    with Cons.prems r Inl show ?thesis by auto
  next
    case (Inr x)
    obtain xs' where a: "process_all aes ms d1 = (d', xs')" "xs = x # xs'"
      using Cons.prems(2) r Inr by (auto split: prod.splits)
    have f: "framable (message_bytes x)" using Cons.prems(3) a(2) by simp
    have "answer_payload aes (message_bytes m) (d\<lparr>dm_out := out\<rparr>) = (d1\<lparr>dm_out := out\<rparr>, Inr (frame (message_bytes x)))"
      using answer_message [OF j, of aes "d\<lparr>dm_out := out\<rparr>" "d1\<lparr>dm_out := out\<rparr>" r] process_message_out [of aes m out d] f
      by (simp add: Inr r)
    then have "(turn (daemon_handle aes) daemon_put (message_bytes m) :: (daemon, 'r, unit) proc) (d\<lparr>dm_out := out\<rparr>)
        = (d1\<lparr>dm_out := out @ frame (message_bytes x)\<rparr>, Ret ())"
      by (simp add: turn_def daemon_handle_def effect_run daemon_put_def)
    with Cons.IH [OF _ a(1), of "out @ frame (message_bytes x)"] Cons.prems show ?thesis by (simp add: a(2))
  qed
qed auto

lemma connection_all:
  assumes "\<forall>m \<in> set ms. sendable m" "process_all aes ms d = (d', xs)" "\<forall>x \<in> set xs. framable (message_bytes x)"
    "payloads 65536 rest = []"
  shows "connection aes (concat (map (frame \<circ> message_bytes) ms) @ rest) d
     = d'\<lparr>dm_out := concat (map (frame \<circ> message_bytes) xs)\<rparr>"
proof -
  have "payloads 65536 (concat (map frame (map message_bytes ms)) @ rest) = map message_bytes ms @ payloads 65536 rest"
    using assms(1) by (intro payloads_frames) (auto simp: sendable_def)
  then have "payloads 65536 (concat (map (frame \<circ> message_bytes) ms) @ rest) = map message_bytes ms" using assms(4) by simp
  moreover obtain co :: "(daemon, unit, unit) co" where
    "each (turn (daemon_handle aes) daemon_put) (map message_bytes ms) (d\<lparr>dm_out := []\<rparr>) =
     (d'\<lparr>dm_out := concat (map (frame \<circ> message_bytes) xs)\<rparr>, co)" "co = Ret () \<or> (\<exists>e. co = Exc e)"
    using serve_all [OF assms(1-3), of "[]"] by auto
  ultimately show ?thesis by (auto simp: connection_def handle_client_def serve_each ignore_def)
qed

lemma exchange_result:
  assumes "sendable msg" "process_message aes msg d = (d', r)" "\<And>x. r = Inr x \<Longrightarrow> receivable x"
  shows "socket_exchange aes True msg d = (d', case r of Inl _ \<Rightarrow> Inl EOFError | Inr x \<Rightarrow> Inr x)"
proof -
  have f: "framable (message_bytes msg)" using assms(1) by (simp add: sendable_def framable_def)
  have out: "d' = d'\<lparr>dm_out := dm_out d\<rparr>"
    using process_message_out [of aes msg "dm_out d" d] assms(2) by simp
  have p: "payloads 65536 [] = []" by (rule payloads_stop) (simp add: read_frame_def)
  define xs where "xs = (case r of Inl _ \<Rightarrow> [] | Inr x \<Rightarrow> [x])"
  have "process_all aes [msg] d = (d', xs)" using assms(2) by (simp add: xs_def split: sum.split)
  then have "connection aes (frame (message_bytes msg)) d = d'\<lparr>dm_out := concat (map (frame \<circ> message_bytes) xs)\<rparr>"
    using connection_all [of "[msg]" aes d d' xs "[]"] assms(1,3) p by (simp add: xs_def receivable_def split: sum.splits)
  then have c: "socket_exchange aes True msg d = (d', case read_frame (concat (map (frame \<circ> message_bytes) xs)) of None \<Rightarrow> Inl EOFError
      | Some (b, _) \<Rightarrow> rbind (json_loads b) as_dict)"
    using f out by (simp add: socket_exchange_def to_frame_ok Let_def flip: message_bytes_def)
  show ?thesis
  proof (cases r)
    case (Inl e)
    then show ?thesis by (simp add: c xs_def read_frame_def)
  next
    case (Inr x)
    then have "receivable x" using assms(3) by simp
    then have "read_frame (frame (message_bytes x) @ []) = Some (message_bytes x, [])" "rbind (json_loads (message_bytes x)) as_dict = Inr x"
      using loads_message by (simp_all only: receivable_def read_frame)
    with Inr show ?thesis by (simp add: c xs_def)
  qed
qed

lemma exchange:
  assumes "sendable msg" "process_message aes msg d = (d', r)" "\<And>x. r = Inr x \<Longrightarrow> receivable x"
  shows "send_euicc_message aes True msg d = (d', case r of Inl _ \<Rightarrow> [] | Inr x \<Rightarrow> x)"
  using exchange_result [OF assms] by (simp add: send_euicc_message_def split: sum.split)

section \<open>The card behind the socket\<close>

lemma dispatch_card:
  assumes "dispatch_apdu aes c h = Inr (h', r)"
  shows "h_euicc h' = h_euicc h \<or> h_euicc h' = bump_active_sqn (h_euicc h)"
proof (cases "ins c = 0x88")
  case True
  then have a: "handle_authenticate aes c h = Inr (h', r)" using assms by (simp add: dispatch_apdu_def)
  then show ?thesis
    by (auto simp: handle_authenticate_def bump_active_sqn_def Let_def rbind_eq_Inr split: option.splits if_splits prod.splits)
next
  case False
  with assms have "h_euicc h' = h_euicc h"
    by (auto simp: dispatch_apdu_def handlers Let_def rbind_eq_Inr split: option.splits if_splits)
  then show ?thesis by simp
qed

lemma process_apdu_card:
  "h_euicc (fst (process_apdu aes raw h)) = h_euicc h \<or> h_euicc (fst (process_apdu aes raw h)) = bump_active_sqn (h_euicc h)"
  by (auto simp: process_apdu_def dest: dispatch_card split: sum.split prod.split)

text \<open>A message that installs a package without a name for it.\<close>

definition names_package :: "dict \<Rightarrow> bool" where
  "names_package msg \<longleftrightarrow> (case dict_get msg ''profile'' (JObj []) of
     JObj package \<Rightarrow> jreq package ''iccid'' \<noteq> Inr (JStr []) | _ \<Rightarrow> True)"

definition payload_ok :: "bytes \<Rightarrow> bool" where
  "payload_ok b \<longleftrightarrow> (case rbind (json_loads b) as_dict of Inl _ \<Rightarrow> True | Inr msg \<Rightarrow> names_package msg)"

lemma set_euicc_simps [simp]: "daemon_euicc (set_euicc e d) = e" "dm_next (set_euicc e d) = dm_next d"
  "dm_uuids (set_euicc e d) = dm_uuids d"
  by (simp_all add: daemon_euicc_def set_euicc_def)

text \<open>A message is at most one operation of the card.\<close>

definition one_operation :: "bool \<Rightarrow> euicc \<Rightarrow> euicc \<Rightarrow> bool" where
  "one_operation named e e' \<longleftrightarrow> e' = e \<or> (\<exists>op. (named \<longrightarrow> op_ok op) \<and> eu_exec op e = Inr e')"

lemma flag_result_operation:
  assumes "\<And>e' b. m = Inr (e', b) \<Longrightarrow> one_operation n (daemon_euicc d) e'"
  shows "one_operation n (daemon_euicc d) (daemon_euicc (fst (flag_result m d)))"
  using assms by (auto simp: flag_result_def one_operation_def split: sum.split)

lemma process_message_operation:
  "one_operation (names_package msg) (daemon_euicc d) (daemon_euicc (fst (process_message aes msg d)))"
proof -
  let ?one = "one_operation (names_package msg) (daemon_euicc d)"
  have en: "enable_profile i (daemon_euicc d) = Inr (e', b) \<Longrightarrow> ?one e'" "disable_profile i (daemon_euicc d) = Inr (e', b) \<Longrightarrow> ?one e'"
    "delete_profile i (daemon_euicc d) = Inr (e', b) \<Longrightarrow> ?one e'" for i e' b
    unfolding one_operation_def
    by (rule disjI2, rule exI [of _ "Enable i"], simp add: op_ok_def eu_exec_def, rule disjI2, rule exI [of _ "Disable i"], simp add: op_ok_def eu_exec_def,
        rule disjI2, rule exI [of _ "Delete i"], simp add: op_ok_def eu_exec_def)
  have same: "?one (daemon_euicc d)" by (simp add: one_operation_def)
  have au: "?one (bump_active_sqn (daemon_euicc d))"
    unfolding one_operation_def by (rule disjI2, rule exI [of _ Authenticate]) (simp add: op_ok_def eu_exec_def)
  have ap: "?one (daemon_euicc (fst (process_apdu_message aes msg d)))"
    using process_apdu_card [of aes _ "dm_card d"] same au
    by (auto simp: process_apdu_message_def daemon_euicc_def split: sum.split prod.split) (metis fst_conv)
  have ins: "?one e'" if "dict_get msg ''profile'' (JObj []) = JObj k" "install_profile k u (daemon_euicc d) = Inr (e', p)" for k u e' p
    unfolding one_operation_def using that by (intro disjI2 exI [of _ "Install k u"]) (simp add: op_ok_def eu_exec_def names_package_def)
  have "?one (daemon_euicc (fst (process_install msg d)))"
    using same ins by (auto simp: process_install_def daemon_euicc_def [of "dm_next_update _ _"] simp flip: daemon_euicc_def split: json.split sum.split)
  moreover have "fst (process_credentials msg d) = d"
    by (simp add: process_credentials_def split: sum.split option.split)
  ultimately show ?thesis
    using same ap en by (auto simp: process_message_def Let_def rbind_eq_Inr intro!: flag_result_operation)
qed

lemma process_message_reach:
  "eu_reach (daemon_euicc d) \<Longrightarrow> names_package msg \<Longrightarrow> eu_reach (daemon_euicc (fst (process_message aes msg d)))"
  using process_message_operation [of msg d aes] by (auto simp: one_operation_def intro: eu_reach.step)

text \<open>So a property of the card that its operations keep survives every payload.\<close>

lemma answer_payload_keeps:
  assumes "\<And>e op e'. P e \<Longrightarrow> ok \<longrightarrow> op_ok op \<Longrightarrow> eu_exec op e = Inr e' \<Longrightarrow> P e'" "ok \<Longrightarrow> payload_ok b" "P (daemon_euicc d)"
  shows "P (daemon_euicc (fst (answer_payload aes b d)))"
proof (cases "rbind (json_loads b) as_dict")
  case (Inl e)
  then show ?thesis using assms(3) by (simp add: answer_payload_def)
next
  case (Inr msg)
  then have "ok \<Longrightarrow> names_package msg" using assms(2) by (simp add: payload_ok_def)
  then have "P (daemon_euicc (fst (process_message aes msg d)))"
    using process_message_operation [of msg d aes] assms(1,3) by (auto simp: one_operation_def)
  then show ?thesis by (simp add: answer_payload_def Inr case_prod_beta)
qed

lemma daemon_put_card [simp]: "daemon_euicc (daemon_put out d) = daemon_euicc d" "daemon_euicc (d\<lparr>dm_out := out\<rparr>) = daemon_euicc d"
  by (simp_all add: daemon_put_def daemon_euicc_def)

interpretation daemon_server: frame_server 65536 "daemon_handle aes :: bytes \<Rightarrow> (daemon, unit, bytes) proc" daemon_put payload_ok
  "\<lambda>d. eu_reach (daemon_euicc d)" for aes
proof unfold_locales
  show "keeps (\<lambda>d. eu_reach (daemon_euicc d)) (daemon_handle aes b)" if "payload_ok b" for b
    unfolding daemon_handle_def using that
    by (intro keeps_effect answer_payload_keeps [where ok = True and P = eu_reach]) (auto intro: eu_reach.step)
qed simp_all

section \<open>What a client can rely on\<close>

text \<open>The messages that ask for the operations on the card.\<close>

definition op_message :: "eu_op \<Rightarrow> dict" where
  "op_message op = (case op of
     Install package u \<Rightarrow> [(''type'', JStr ''install_profile''), (''profile'', JObj package)]
   | Enable i \<Rightarrow> [(''type'', JStr ''enable_profile''), (''iccid'', JStr i)]
   | Disable i \<Rightarrow> [(''type'', JStr ''disable_profile''), (''iccid'', JStr i)]
   | Delete i \<Rightarrow> [(''type'', JStr ''delete_profile''), (''iccid'', JStr i)]
   | Authenticate \<Rightarrow> [(''type'', JNull)])"

definition op_answer :: "eu_op \<Rightarrow> dict" where
  "op_answer op = [(''type'', JStr ''result''), (''success'', JBool True)]
     @ (case op of Install package u \<Rightarrow> [(''iccid'', dict_get package ''iccid'' JNull)] | _ \<Rightarrow> [])"

lemma op_answer_simps:
  "op_answer (Enable i) = [(''type'', JStr ''result''), (''success'', JBool True)]"
  "op_answer (Disable i) = [(''type'', JStr ''result''), (''success'', JBool True)]"
  "op_answer (Delete i) = [(''type'', JStr ''result''), (''success'', JBool True)]"
  by (simp_all add: op_answer_def)

lemma process_op:
  assumes "op \<noteq> Authenticate" "\<forall>p u. op = Install p u \<longrightarrow> u = dm_uuids d (dm_next d)"
    and "eu_reach (daemon_euicc d)"
  shows "\<exists>d' r. process_message aes (op_message op) d = (d', r)
    \<and> (case eu_exec op (daemon_euicc d) of Inl e \<Rightarrow> d' = d \<and> r = Inl e
       | Inr e \<Rightarrow> daemon_euicc d' = e \<and> r = Inr (op_answer op))"
proof -
  have inv: "eu_inv (daemon_euicc d)" using reach_inv [OF assms(3)] by blast
  have f: "\<exists>d' r. flag_result m d = (d', r) \<and> (case rbind m (\<lambda>(e', _). Inr e') of Inl e \<Rightarrow> d' = d \<and> r = Inl e
      | Inr e \<Rightarrow> daemon_euicc d' = e \<and> r = Inr [(''type'', JStr ''result''), (''success'', JBool True)])"
    if b: "\<forall>e' b. m = Inr (e', b) \<longrightarrow> b" for m
  proof (cases m)
    case (Inr y)
    then show ?thesis using b by (cases y) (simp add: flag_result_def)
  qed (simp add: flag_result_def)
  show ?thesis
  proof (cases op)
    case (Install p u)
    have "iccid q = i" if "install_profile p u (daemon_euicc d) = Inr (e', q)" "map_of p ''iccid'' = Some (JStr i)" for e' q i
      using that(1) by (rule install_profile_success) (use that(2) in \<open>auto simp: jreq_def\<close>)
    moreover have "\<exists>i. map_of p ''iccid'' = Some (JStr i)" if "install_profile p u (daemon_euicc d) = Inr (e', q)" for e' q
      using that by (rule install_profile_success) (auto simp: jreq_def split: option.splits)
    ultimately have q: "dict_get p ''iccid'' JNull = JStr (iccid q)" if "install_profile p u (daemon_euicc d) = Inr (e', q)" for e' q
      using that by (fastforce simp: dict_get_def)
    have u: "dm_uuids d (dm_next d) = u" using assms(2) Install by simp
    have "process_message aes (op_message op) d = process_install (op_message op) d"
      by (simp add: Install op_message_def process_message_def dict_get_def)
    then have m: "process_message aes (op_message op) d = (case install_profile p u (daemon_euicc d) of Inl e \<Rightarrow> (d, Inl e)
       | Inr (e, q) \<Rightarrow> ((set_euicc e d)\<lparr>dm_next := dm_next d + 1\<rparr>,
           Inr [(''type'', JStr ''result''), (''success'', JBool True), (''iccid'', JStr (iccid q))]))"
      by (simp add: Install op_message_def process_install_def dict_get_def u)
    show ?thesis
    proof (cases "install_profile p u (daemon_euicc d)")
      case (Inr y)
      obtain e' z where y: "y = (e', z)" by (cases y)
      have "daemon_euicc ((set_euicc e' d)\<lparr>dm_next := n\<rparr>) = e'" for n by (simp add: daemon_euicc_def set_euicc_def)
      then show ?thesis using q Inr y by (simp add: m) (simp add: Install eu_exec_def op_answer_def)
    qed (simp add: m, simp add: Install eu_exec_def)
  next
    case (Enable i)
    then have m: "process_message aes (op_message op) d = flag_result (enable_profile i (daemon_euicc d)) d"
      by (simp add: op_message_def process_message_def jstr_def dict_get_def)
    have b: "b" if "enable_profile i (daemon_euicc d) = Inr (e', b)" for e' b
      using that by (rule enable_profile_success [OF inv]) simp_all
    then have "\<forall>e' b. enable_profile i (daemon_euicc d) = Inr (e', b) \<longrightarrow> b" by blast
    from f [OF this] show ?thesis unfolding m unfolding Enable op_answer_simps by (simp add: eu_exec_def)
  next
    case (Disable i)
    then have m: "process_message aes (op_message op) d = flag_result (disable_profile i (daemon_euicc d)) d"
      by (simp add: op_message_def process_message_def jstr_def dict_get_def)
    have b: "b" if "disable_profile i (daemon_euicc d) = Inr (e', b)" for e' b
      using that by (rule disable_profile_success [OF inv]) simp_all
    then have "\<forall>e' b. disable_profile i (daemon_euicc d) = Inr (e', b) \<longrightarrow> b" by blast
    from f [OF this] show ?thesis unfolding m unfolding Disable op_answer_simps by (simp add: eu_exec_def)
  next
    case (Delete i)
    then have m: "process_message aes (op_message op) d = flag_result (delete_profile i (daemon_euicc d)) d"
      by (simp add: op_message_def process_message_def jstr_def dict_get_def)
    have b: "b" if "delete_profile i (daemon_euicc d) = Inr (e', b)" for e' b
      using delete_profile_success(1) [OF that] .
    then have "\<forall>e' b. delete_profile i (daemon_euicc d) = Inr (e', b) \<longrightarrow> b" by blast
    from f [OF this] show ?thesis unfolding m unfolding Delete op_answer_simps by (simp add: eu_exec_def)
  qed (use assms(1) in simp)
qed

lemma framable_small: "length (json_dumps (JObj x)) < 256 ^ 4 \<Longrightarrow> json_ok (JObj x) \<Longrightarrow> receivable x"
  by (simp add: receivable_def framable_def message_bytes_def length_json_bytes)

lemma op_answer_receivable:
  assumes "sendable (op_message op)" "eu_exec op e = Inr e'"
  shows "receivable (op_answer op)"
proof (cases op)
  case (Install p u)
  obtain i where i: "map_of p ''iccid'' = Some (JStr i)"
    using assms(2) unfolding Install eu_exec_def
    by (auto simp: rbind_eq_Inr jreq_def split: option.splits elim!: install_profile_success)
  have "length (dump_str i) \<le> length (json_dumps (JObj p))"
    using length_member [of "''iccid''" "JStr i" p] map_of_SomeD [OF i] by simp
  also have "\<dots> \<le> length (json_dumps (JObj (op_message op)))"
    using length_member [of "''profile''" "JObj p" "op_message op"] by (simp add: op_message_def Install)
  also have "\<dots> \<le> 65536" using assms(1) by (simp add: sendable_def message_bytes_def length_json_bytes)
  finally show ?thesis using i
    by (intro framable_small) (simp_all add: op_answer_def Install dict_get_def dict_ok_def dump_str_def escape_char_def)
qed (simp_all add: op_answer_def framable_small dict_ok_def dump_str_def escape_char_def Let_def)

text \<open>
  C4: what happens to the card behind the socket is what its user sees. For every operation that can be
  sent, the client's exchange (framing, JSON in both directions, the daemon's dispatch and the
  eUICC's operation) leaves exactly the card that the operation gives and answers success, or
  leaves the eUICC untouched and gives the client the empty object.
\<close>

theorem remote_card_refines:
  assumes "eu_reach (daemon_euicc d)" "op \<noteq> Authenticate" "sendable (op_message op)"
    and "\<forall>p u. op = Install p u \<longrightarrow> u = dm_uuids d (dm_next d)"
  shows "\<exists>d' answer. send_euicc_message aes True (op_message op) d = (d', answer)
    \<and> (case card_exec op (card_view (daemon_euicc d)) of
         Inl e \<Rightarrow> d' = d \<and> answer = []
       | Inr c \<Rightarrow> card_view (daemon_euicc d') = c \<and> dict_get answer ''success'' JNull = JBool True)"
proof -
  obtain d' r where p: "process_message aes (op_message op) d = (d', r)"
    "case eu_exec op (daemon_euicc d) of Inl e \<Rightarrow> d' = d \<and> r = Inl e | Inr e \<Rightarrow> daemon_euicc d' = e \<and> r = Inr (op_answer op)"
    using process_op [OF assms(2,4,1)] by blast
  have "receivable x" if "r = Inr x" for x
    using that p(2) op_answer_receivable [OF assms(3)] by (auto split: sum.splits)
  then have s: "send_euicc_message aes True (op_message op) d = (d', case r of Inl _ \<Rightarrow> [] | Inr x \<Rightarrow> x)"
    by (rule exchange [OF assms(3) p(1)])
  have "dict_get (op_answer op) ''success'' JNull = JBool True" by (simp add: op_answer_def dict_get_def)
  then show ?thesis
    using s p(2) exec_refines_card [OF assms(1), of op, symmetric] by (cases "eu_exec op (daemon_euicc d)") auto
qed

definition small_package :: dict where
  "small_package = [(''iccid'', JStr ''8901''), (''imsi'', JStr ''001010000000001''), (''ki'', JStr ''00''), (''opc'', JStr ''11'')]"

definition sample_daemon :: daemon where
  "sample_daemon = new_daemon (new_handler (initialize (new_euicc ''89001'' []))) (\<lambda>_. ''aid'')"

lemma sample_daemon_reach: "eu_reach (daemon_euicc sample_daemon)" "dm_uuids sample_daemon = (\<lambda>_. ''aid'')"
  "daemon_euicc sample_daemon = initialize (new_euicc ''89001'' [])"
  using sample_reach by (simp_all add: sample_daemon_def new_daemon_def new_handler_def daemon_euicc_def)

theorem remote_card_refines_witness:
  "\<exists>d' answer. send_euicc_message sample_aes True (op_message (Install small_package ''aid'')) sample_daemon = (d', answer)
    \<and> inst (card_view (daemon_euicc d')) ''8901'' \<noteq> None \<and> dict_get answer ''success'' JNull = JBool True"
proof -
  have "length (json_dumps (JObj (op_message (Install small_package ''aid'')))) \<le> 65536"
    by (rule order_trans [OF length_dumps]) (simp add: op_message_def small_package_def)
  then have s: "sendable (op_message (Install small_package ''aid''))"
    by (simp add: sendable_def message_bytes_def length_json_bytes) (simp add: op_message_def small_package_def dict_ok_def)
  have "\<exists>c. card_exec (Install small_package ''aid'') (card_view (daemon_euicc sample_daemon)) = Inr c \<and> inst c ''8901'' \<noteq> None"
    by (simp add: card_exec_def card_install_def small_package_def json_access make_isdp_def sample_daemon_reach(3)
        initialize_def load_profiles_def new_euicc_def)
  then show ?thesis
    using remote_card_refines [OF sample_daemon_reach(1) _ s, of sample_aes] by (auto simp: sample_daemon_reach(2))
qed

text \<open>
  Whatever bytes a client sends, in whatever chunks, the card stays a card that the eUICC's own
  operations and restarts reach, provided no package comes with an empty ICCID: messages that are not JSON,
  not objects, of unknown type, too long or cut short change nothing else.
\<close>

theorem connection_keeps_card:
  assumes "eu_reach (daemon_euicc d)" "\<forall>b \<in> set (payloads 65536 s). payload_ok b"
  shows "eu_reach (daemon_euicc (connection aes s d))"
proof -
  have "keeps (\<lambda>d. eu_reach (daemon_euicc d)) (handle_client aes s :: (daemon, unit, unit) proc)"
    unfolding handle_client_def by (intro keeping daemon_server.serve_keeps assms(2))
  then show ?thesis using assms(1) by (simp add: keeps_def connection_def)
qed

lemma payloads_one: "length b \<le> 65536 \<Longrightarrow> payloads 65536 r = [] \<Longrightarrow> payloads 65536 (frame b @ r) = [b]"
  using payloads_frames [of 65536 "[b]" r] by simp

lemma payloads_cut: "payloads 65536 [0, 0, 0]  = []"
  by (rule payloads_stop) (simp add: read_frame_def)

lemma sample_op_sendable: "sendable (op_message (Enable ''8901''))"
proof -
  have "length (json_dumps (JObj (op_message (Enable ''8901'')))) \<le> 65536"
    by (rule order_trans [OF length_dumps]) (simp add: op_message_def)
  then show ?thesis by (simp add: sendable_def message_bytes_def length_json_bytes) (simp add: op_message_def dict_ok_def)
qed

theorem connection_keeps_card_witness:
  "eu_reach (daemon_euicc (connection sample_aes (frame (message_bytes (op_message (Enable ''8901''))) @ [0, 0, 0]) sample_daemon))"
proof (rule connection_keeps_card)
  have "payload_ok (message_bytes (op_message (Enable ''8901'')))"
    using sample_op_sendable unfolding payload_ok_def sendable_def
    by (subst loads_message) (simp_all add: names_package_def op_message_def dict_get_def jreq_def)
  then show "\<forall>b \<in> set (payloads 65536 (frame (message_bytes (op_message (Enable ''8901''))) @ [0, 0, 0])). payload_ok b"
    using sample_op_sendable by (simp add: payloads_one payloads_cut sendable_def)
qed (rule sample_daemon_reach)

text \<open>
  Requests that arrive back to back are answered one for one and in order, until the first that
  raises; the bytes written are exactly the frames of the answers, and the card is the one that
  processing the messages in this order leaves.
\<close>

theorem connection_answers_in_order:
  assumes "\<forall>m \<in> set ms. sendable m" "process_all aes ms d = (d', xs)" "\<forall>x \<in> set xs. framable (message_bytes x)"
    "payloads 65536 rest = []"
  shows "connection aes (concat (map (frame \<circ> message_bytes) ms) @ rest) d
     = d'\<lparr>dm_out := concat (map (frame \<circ> message_bytes) xs)\<rparr>"
  by (rule connection_all [OF assms])

theorem connection_answers_in_order_witness:
  "\<exists>d' xs. process_all sample_aes [[(''type'', JStr ''ping'')], op_message (Enable ''8901'')] sample_daemon = (d', xs)
     \<and> length xs = 1 \<and> connection sample_aes (concat (map (frame \<circ> message_bytes) [[(''type'', JStr ''ping'')], op_message (Enable ''8901'')]) @ [0, 0, 0])
          sample_daemon = d'\<lparr>dm_out := concat (map (frame \<circ> message_bytes) xs)\<rparr>"
proof -
  let ?ping = "[(''type'', JStr ''ping'')] :: dict"
  let ?x = "[(''type'', JStr ''error''), (''message'', JStr ''Unknown message type: ping'')] :: dict"
  have "length (json_dumps (JObj ?ping)) \<le> 65536" by (rule order_trans [OF length_dumps]) simp
  then have s: "sendable ?ping" by (simp add: sendable_def message_bytes_def length_json_bytes dict_ok_def del: json_dumps.simps)
  have p: "process_all sample_aes [?ping, op_message (Enable ''8901'')] sample_daemon = (sample_daemon, [?x])"
    by (simp add: process_message_def dict_get_def py_str_def op_message_def jstr_def flag_result_def enable_profile_def
        require_ready_def sample_daemon_reach(3) initialize_def load_profiles_def new_euicc_def)
  have "length (json_dumps (JObj ?x)) < 256 ^ 4" by (rule le_less_trans [OF length_dumps]) simp
  then have "framable (message_bytes ?x)" by (simp add: framable_def message_bytes_def length_json_bytes del: json_dumps.simps)
  then show ?thesis
    using connection_answers_in_order [of "[?ping, op_message (Enable ''8901'')]" sample_aes sample_daemon sample_daemon "[?x]", OF _ p _ payloads_cut]
      s sample_op_sendable by (intro exI [of _ sample_daemon] exI [of _ "[?x]"] conjI) (simp_all only: p, simp_all)
qed

end
