(* ===== verification/Modem.thy ===== *)
theory Modem
  imports Radio Daemon Sms_Service
begin

text \<open>
  The Radio HAL of \<^verbatim>\<open>hal/radio_hal.py\<close> as a whole: the calls of \<^verbatim>\<open>Phone\<close> and \<^verbatim>\<open>Radio\<close> together with
  the SIM, the registration, the data calls and the SMS service, over the eUICC daemon. The RIL
  clients that receive its indications are part of the state, so that an indication is delivered
  when it is sent. An exchange with the daemon and the sending of an SMS are single steps, and so
  are the writes to the clients.
\<close>

section \<open>Data\<close>

datatype radio_state = RADIO_OFF | RADIO_UNAVAILABLE | RADIO_ON

fun radio_value :: "radio_state \<Rightarrow> int" where
  "radio_value RADIO_OFF = 0" | "radio_value RADIO_UNAVAILABLE = 1" | "radio_value RADIO_ON = 10"

fun radio_name :: "radio_state \<Rightarrow> string" where
  "radio_name RADIO_OFF = ''OFF''" | "radio_name RADIO_UNAVAILABLE = ''UNAVAILABLE''" | "radio_name RADIO_ON = ''ON''"

text \<open>The registration states and radio technologies that the code sets.\<close>

datatype reg_state = NOT_REG_NOT_SEARCHING | REG_HOME | NOT_REG_SEARCHING
datatype network_type = RAT_UNKNOWN | RAT_LTE

fun reg_value :: "reg_state \<Rightarrow> int" where
  "reg_value NOT_REG_NOT_SEARCHING = 0" | "reg_value REG_HOME = 1" | "reg_value NOT_REG_SEARCHING = 2"

fun reg_name :: "reg_state \<Rightarrow> string" where
  "reg_name NOT_REG_NOT_SEARCHING = ''NOT_REG_NOT_SEARCHING''" | "reg_name REG_HOME = ''REG_HOME''"
| "reg_name NOT_REG_SEARCHING = ''NOT_REG_SEARCHING''"

fun rat_value :: "network_type \<Rightarrow> int" where
  "rat_value RAT_UNKNOWN = 0" | "rat_value RAT_LTE = 14"

fun rat_name :: "network_type \<Rightarrow> string" where
  "rat_name RAT_UNKNOWN = ''UNKNOWN''" | "rat_name RAT_LTE = ''LTE''"

record net_registration =
  nr_state :: reg_state
  nr_rat :: network_type
  nr_mcc :: json
  nr_mnc :: json
  nr_lac :: int
  nr_cid :: int

definition no_registration :: net_registration where
  "no_registration = \<lparr>nr_state = NOT_REG_NOT_SEARCHING, nr_rat = RAT_UNKNOWN, nr_mcc = JStr [], nr_mnc = JStr [], nr_lac = 0, nr_cid = 0\<rparr>"

record data_call =
  dc_cid :: int
  dc_active :: int
  dc_type :: string
  dc_ifname :: string
  dc_addresses :: "string list"
  dc_dnses :: "string list"
  dc_gateways :: "string list"

definition new_data_call :: data_call where
  "new_data_call = \<lparr>dc_cid = 1, dc_active = 2, dc_type = ''IP'', dc_ifname = ''rmnet0'', dc_addresses = [''10.45.0.2''],
     dc_dnses = [''172.28.0.50''], dc_gateways = [''10.45.0.1'']\<rparr>"

text \<open>Where \<^verbatim>\<open>_simulate_registration\<close> sleeps: before searching, before registering, before the data call.\<close>

datatype reg_phase = Before_Search | Before_Register | Before_Data

text \<open>
  \<open>md_tasks\<close> are the registration tasks that run, by number; \<open>md_task\<close> is the one the HAL
  remembers. \<open>md_clients\<close> are the connected RIL clients with what was written to each.
\<close>

record modem =
  md_phone :: phone
  md_daemon :: daemon
  md_up :: bool
  md_radio :: radio_state
  md_card_state :: int
  md_reg :: net_registration
  md_data :: "data_call list"
  md_imei :: string
  md_sms :: "sms option"
  md_task :: "nat option"
  md_tasks :: "(nat \<times> reg_phase) list"
  md_next_task :: nat
  md_clients :: "(nat \<times> bytes) list"

definition new_modem :: "phone \<Rightarrow> daemon \<Rightarrow> bool \<Rightarrow> string \<Rightarrow> sms option \<Rightarrow> modem" where
  "new_modem p d up imei s = \<lparr>md_phone = p, md_daemon = d, md_up = up, md_radio = RADIO_OFF, md_card_state = 1, md_reg = no_registration,
     md_data = [], md_imei = imei, md_sms = s, md_task = None, md_tasks = [], md_next_task = 0, md_clients = []\<rparr>"

type_synonym 'a mrun = "(modem, sip_message res, 'a) proc"

section \<open>RIL messages\<close>

record ril_message =
  rm_type :: json
  rm_serial :: json
  rm_id :: json
  rm_data :: json

definition ril_dict :: "ril_message \<Rightarrow> dict" where
  "ril_dict m = [(''type'', rm_type m), (''serial'', rm_serial m), (''id'', rm_id m), (''data'', rm_data m)]"

definition ril_serialize :: "ril_message \<Rightarrow> bytes res" where
  "ril_serialize m = pack_frame (json_bytes (JObj (ril_dict m)))"

definition ril_deserialize :: "bytes \<Rightarrow> ril_message res" where
  "ril_deserialize raw = rbind (rbind (json_loads raw) as_dict) (\<lambda>d.
     Inr \<lparr>rm_type = dict_get d ''type'' (JInt 0), rm_serial = dict_get d ''serial'' (JInt 0), rm_id = dict_get d ''id'' (JInt 0),
          rm_data = dict_get d ''data'' (JObj [])\<rparr>)"

definition unsol_message :: "int \<Rightarrow> dict \<Rightarrow> ril_message" where
  "unsol_message n d = \<lparr>rm_type = JInt 1, rm_serial = JInt 0, rm_id = JInt n, rm_data = JObj d\<rparr>"

text \<open>\<^verbatim>\<open>writer.write(...)\<close> of a client.\<close>

definition write_client :: "nat \<Rightarrow> bytes \<Rightarrow> modem \<Rightarrow> modem" where
  "write_client k out m = m\<lparr>md_clients := map (\<lambda>(j, w). (j, if j = k then w @ out else w)) (md_clients m)\<rparr>"

definition send_unsolicited :: "nat \<Rightarrow> int \<Rightarrow> dict \<Rightarrow> modem \<Rightarrow> modem \<times> unit res" where
  "send_unsolicited k n d m = (case ril_serialize (unsol_message n d) of Inl e \<Rightarrow> (m, Inl e)
     | Inr out \<Rightarrow> (write_client k out m, Inr ()))"

text \<open>Every client gets the indication; a client that cannot be written to is skipped.\<close>

definition broadcast_unsolicited :: "int \<Rightarrow> dict \<Rightarrow> modem \<Rightarrow> modem" where
  "broadcast_unsolicited n d m = fold (\<lambda>k m. fst (send_unsolicited k n d m)) (map fst (md_clients m)) m"

section \<open>The calls inside the modem\<close>

text \<open>
  An operation on the calls: its indications, which the phone collects, are broadcast at once, in
  their order. Between two waits no client comes or goes.
\<close>

definition deliver_indications :: "(int \<times> dict) list \<Rightarrow> modem \<Rightarrow> modem" where
  "deliver_indications is m = fold (\<lambda>(n, d). broadcast_unsolicited n d) is m"

definition with_phone :: "phone \<Rightarrow> modem \<Rightarrow> modem" where
  "with_phone p m = deliver_indications (drop (length (r_sent (md_phone m))) (r_sent p)) (m\<lparr>md_phone := p\<rparr>)"

primrec lift_co :: "(phone, 'r, 'a) co \<Rightarrow> (modem, 'r, 'a) co" where
  "lift_co (Ret x) = Ret x"
| "lift_co (Exc e) = Exc e"
| "lift_co (Wait f c) = Wait f (\<lambda>r m. case map_prod id lift_co (c r (md_phone m)) of (p, y) \<Rightarrow> (with_phone p m, y))"

definition on_phone :: "(phone, 'r, 'a) proc \<Rightarrow> (modem, 'r, 'a) proc" where
  "on_phone f m = (case f (md_phone m) of (p, x) \<Rightarrow> (with_phone p m, lift_co x))"

definition send_indication :: "int \<Rightarrow> dict \<Rightarrow> modem \<Rightarrow> modem" where
  "send_indication n d m = with_phone (indicate n d (md_phone m)) m"

section \<open>The SIM\<close>

definition euicc_message :: "aes \<Rightarrow> dict \<Rightarrow> modem \<Rightarrow> modem \<times> dict" where
  "euicc_message aes msg m = (case send_euicc_message aes (md_up m) msg (md_daemon m) of (d, x) \<Rightarrow> (m\<lparr>md_daemon := d\<rparr>, x))"

text \<open>The daemon's list is one of objects.\<close>

definition profile_list :: "dict \<Rightarrow> dict list" where
  "profile_list resp = (case dict_get resp ''data'' (JArr []) of
     JArr xs \<Rightarrow> concat (map (\<lambda>x. case x of JObj d \<Rightarrow> [d] | _ \<Rightarrow> []) xs) | _ \<Rightarrow> [])"

definition hal_active_profile :: "aes \<Rightarrow> modem \<Rightarrow> modem \<times> dict option" where
  "hal_active_profile aes m = (case euicc_message aes [(''type'', JStr ''list_profiles'')] m of (m', resp) \<Rightarrow>
     (m', find (\<lambda>p. dict_get p ''state'' JNull = JStr ''enabled'') (profile_list resp)))"

text \<open>\<^verbatim>\<open>_get_euicc_info\<close>: the \<open>data\<close> of the answer, an object.\<close>

definition hal_euicc_info :: "aes \<Rightarrow> modem \<Rightarrow> modem \<times> dict" where
  "hal_euicc_info aes m = (case euicc_message aes [(''type'', JStr ''get_info'')] m of (m', resp) \<Rightarrow>
     (m', case dict_get resp ''data'' (JObj []) of JObj d \<Rightarrow> d | _ \<Rightarrow> []))"

definition power_on :: "aes \<Rightarrow> modem \<Rightarrow> modem" where
  "power_on aes m = (case hal_active_profile aes (m\<lparr>md_radio := RADIO_ON\<rparr>) of
       (m1, None) \<Rightarrow> m1\<lparr>md_card_state := 0\<rparr>
     | (m1, Some p) \<Rightarrow>
         let m2 = send_indication 1019 [] (m1\<lparr>md_card_state := 1,
               md_reg := (md_reg m1)\<lparr>nr_mcc := dict_get p ''mcc'' (JStr []), nr_mnc := dict_get p ''mnc'' (JStr [])\<rparr>\<rparr>)
         in m2\<lparr>md_task := Some (md_next_task m2), md_tasks := md_tasks m2 @ [(md_next_task m2, Before_Search)],
               md_next_task := md_next_task m2 + 1\<rparr>)"

text \<open>Cancelling ends the task where it sleeps.\<close>

definition power_off :: "modem \<Rightarrow> modem" where
  "power_off m = m\<lparr>md_radio := RADIO_OFF, md_reg := no_registration, md_data := [], md_phone := (md_phone m)\<lparr>r_calls := []\<rparr>,
     md_tasks := (case md_task m of None \<Rightarrow> md_tasks m | Some t \<Rightarrow> dict_del t (md_tasks m)), md_task := None\<rparr>"

definition set_radio_power :: "aes \<Rightarrow> bool \<Rightarrow> modem \<Rightarrow> modem" where
  "set_radio_power aes on m = (if on then power_on aes m else power_off m)"

text \<open>One phase of a registration task; \<open>nitz\<close> is the time of the last one.\<close>

definition registration_phase :: "string \<Rightarrow> nat \<Rightarrow> modem \<Rightarrow> modem" where
  "registration_phase nitz t m = (case map_of (md_tasks m) t of
       None \<Rightarrow> m
     | Some Before_Search \<Rightarrow>
         send_indication 1001 [] (m\<lparr>md_reg := (md_reg m)\<lparr>nr_state := NOT_REG_SEARCHING\<rparr>, md_tasks := dict_set t Before_Register (md_tasks m)\<rparr>)
     | Some Before_Register \<Rightarrow>
         send_indication 1001 [] (m\<lparr>md_reg := (md_reg m)\<lparr>nr_state := REG_HOME, nr_rat := RAT_LTE, nr_lac := 1, nr_cid := 0x101\<rparr>,
            md_tasks := dict_set t Before_Data (md_tasks m)\<rparr>)
     | Some Before_Data \<Rightarrow>
         send_indication 1008 [(''nitz'', JStr nitz)] (m\<lparr>md_data := [new_data_call], md_tasks := dict_del t (md_tasks m)\<rparr>))"

section \<open>What Android asks\<close>

definition get_sim_status :: "aes \<Rightarrow> modem \<Rightarrow> modem \<times> dict" where
  "get_sim_status aes m = (case hal_active_profile aes m of
       (m1, None) \<Rightarrow> (m1, [(''cardState'', JInt 0), (''applications'', JArr [])])
     | (m1, Some p) \<Rightarrow> (case hal_euicc_info aes m1 of (m2, info) \<Rightarrow>
         (m2, [(''cardState'', JInt 1), (''pinState'', JInt 5),
           (''applications'', JArr [
              JObj [(''appType'', JInt 2), (''appState'', JInt 5), (''aidPtr'', JStr ''A0000000871002''), (''label'', dict_get p ''spn'' (JStr ''Virtual''))],
              JObj [(''appType'', JInt 4), (''appState'', JInt 5), (''aidPtr'', JStr ''A0000000871004''), (''label'', JStr ''ISIM'')]]),
           (''iccid'', dict_get p ''iccid'' (JStr [])), (''eid'', dict_get info ''eid'' (JStr []))])))"

definition get_imsi :: "aes \<Rightarrow> modem \<Rightarrow> modem \<times> json" where
  "get_imsi aes m = (case hal_active_profile aes m of (m', p) \<Rightarrow>
     (m', case p of None \<Rightarrow> JNull | Some d \<Rightarrow> dict_get d ''imsi'' JNull))"

definition get_operator :: "aes \<Rightarrow> modem \<Rightarrow> modem \<times> dict res" where
  "get_operator aes m = (case hal_active_profile aes m of
       (m', None) \<Rightarrow> (m', Inr [(''longName'', JStr []), (''shortName'', JStr []), (''numeric'', JStr [])])
     | (m', Some p) \<Rightarrow> (m', rbind (jstr p ''spn'' ''Virtual'') (\<lambda>short.
         Inr [(''longName'', dict_get p ''spn'' (JStr ''Virtual Operator'')), (''shortName'', JStr (take 8 short)),
              (''numeric'', JStr (py_str (dict_get p ''mcc'' (JStr ''001'')) @ py_str (dict_get p ''mnc'' (JStr ''01''))))])))"

definition registration_dict :: "dict \<Rightarrow> modem \<Rightarrow> dict" where
  "registration_dict extra m = [(''regState'', JInt (reg_value (nr_state (md_reg m)))), (''rat'', JInt (rat_value (nr_rat (md_reg m))))] @ extra
     @ [(''mcc'', nr_mcc (md_reg m)), (''mnc'', nr_mnc (md_reg m))]"

definition get_data_registration_state :: "modem \<Rightarrow> dict" where
  "get_data_registration_state = registration_dict [(''maxDataCalls'', JInt 4)]"

definition get_voice_registration_state :: "modem \<Rightarrow> dict" where
  "get_voice_registration_state = registration_dict [(''cssSupported'', JBool False)]"

definition signal_strength :: dict where
  "signal_strength = [(''lte'', JObj [(''signalStrength'', JInt 15), (''rsrp'', JInt (-95)), (''rsrq'', JInt (-10)), (''rssnr'', JInt 100),
     (''cqi'', JInt 10), (''timingAdvance'', JInt 0)])]"

text \<open>\<^verbatim>\<open>int(s, 16)\<close> of the halves of a status word; the words of the daemon are hexadecimal digits.\<close>

definition int16 :: "string \<Rightarrow> int res" where
  "int16 s = (if s = [] then Inl ValueError else rbind (rmap hex_value s) (\<lambda>ds. Inr (int (foldl (\<lambda>v d. 16 * v + d) 0 ds))))"

definition sim_result :: "string \<Rightarrow> dict \<Rightarrow> dict res" where
  "sim_result dflt resp = rbind (jstr resp ''sw'' dflt) (\<lambda>sw. rbind (int16 (take 2 sw)) (\<lambda>s1. rbind (int16 (slice sw 2 4)) (\<lambda>s2.
     Inr [(''sw1'', JInt s1), (''sw2'', JInt s2), (''simResponse'', dict_get resp ''data'' (JStr []))])))"

definition apdu_message :: "string \<Rightarrow> dict" where
  "apdu_message hex = [(''type'', JStr ''apdu''), (''data'', JStr hex)]"

definition sim_io :: "aes \<Rightarrow> int \<Rightarrow> int \<Rightarrow> int \<Rightarrow> int \<Rightarrow> string \<Rightarrow> modem \<Rightarrow> modem \<times> dict res" where
  "sim_io aes command v_p1 v_p2 v_p3 data m =
     (case euicc_message aes (apdu_message (''00'' @ fmt_02x command @ fmt_02x v_p1 @ fmt_02x v_p2
             @ (if v_p3 > 0 then fmt_02x v_p3 else []) @ data)) m of (m', resp) \<Rightarrow> (m', sim_result ''9000'' resp))"

definition sim_authentication :: "aes \<Rightarrow> int \<Rightarrow> string \<Rightarrow> modem \<Rightarrow> modem \<times> dict res" where
  "sim_authentication aes context_id auth_data m =
     (case euicc_message aes (apdu_message (''0088'' @ fmt_02x context_id @ ''00'' @ auth_data)) m of (m', resp) \<Rightarrow>
       (m', sim_result ''0000'' resp))"

text \<open>\<open>net\<close> is what the SIP request of the SMS service is answered.\<close>

definition hal_send_sms :: "(request \<Rightarrow> sip_message res) \<Rightarrow> string \<Rightarrow> modem \<Rightarrow> modem \<times> dict" where
  "hal_send_sms net pdu m = (case md_sms m of
       None \<Rightarrow> (m, [(''messageRef'', JInt 1), (''ackPdu'', JStr []), (''errorCode'', JInt 0)])
     | Some s \<Rightarrow> (case send_sms net pdu s of (s', r) \<Rightarrow> (m\<lparr>md_sms := Some s'\<rparr>,
         [(''messageRef'', JInt (res_message_ref r)), (''ackPdu'', JStr []), (''errorCode'', JInt (res_error_code r))])))"

text \<open>The message is stamped with the time \<open>scts\<close> and always in the 7-bit alphabet, the default of \<^verbatim>\<open>SMSDeliver.create\<close>.\<close>

definition deliver_incoming_sms :: "bytes \<Rightarrow> ustr \<Rightarrow> ustr \<Rightarrow> modem \<Rightarrow> modem \<times> unit res" where
  "deliver_incoming_sms scts from_number msg_text m =
     (case rbind (deliver_to_bytes (create_deliver from_number msg_text GSM_7BIT scts)) (\<lambda>(_, tpdu). build_pdu_for_ril tpdu []) of
        Inl e \<Rightarrow> (m, Inl e)
      | Inr pdu \<Rightarrow> (send_indication 1003 [(''pdu'', JStr pdu)] m, Inr ()))"

definition supply_icc_pin :: dict where
  "supply_icc_pin = [(''remainingRetries'', JInt 3), (''success'', JBool True)]"

definition data_call_dict :: "data_call \<Rightarrow> dict" where
  "data_call_dict c = [(''cid'', JInt (dc_cid c)), (''active'', JInt (dc_active c)), (''type'', JStr (dc_type c)), (''ifname'', JStr (dc_ifname c)),
     (''addresses'', JArr (map JStr (dc_addresses c))), (''dnses'', JArr (map JStr (dc_dnses c))), (''gateways'', JArr (map JStr (dc_gateways c)))]"

definition get_data_call_list :: "modem \<Rightarrow> dict" where
  "get_data_call_list m = [(''calls'', JArr (map (JObj \<circ> data_call_dict) (md_data m)))]"

definition get_radio_state :: "modem \<Rightarrow> dict" where
  "get_radio_state m = [(''radioState'', JStr (radio_name (md_radio m))), (''simPresent'', JBool (md_card_state m = 1)),
     (''registration'', JObj [(''state'', JStr (reg_name (nr_state (md_reg m)))), (''rat'', JStr (rat_name (nr_rat (md_reg m)))),
        (''mcc'', nr_mcc (md_reg m)), (''mnc'', nr_mnc (md_reg m))]),
     (''signalStrength'', JObj [(''rsrp'', JInt (-95)), (''rsrq'', JInt (-10))]), (''imei'', JStr (md_imei m)),
     (''dataCallsActive'', JInt (int (length (md_data m))))]"

end
