(* ===== verification/Call_Termination.thy ===== *)
theory Call_Termination
  imports Radio
begin

text \<open>
  No request of Android and no message of the network keeps a task waiting for ever: the number of
  waits is bounded, and each wait ends after 32 seconds at the latest.
\<close>

lemma within_request: "(\<And>r. within n (k r)) \<Longrightarrow> within (Suc n) (cbind (send_request rq) k)"
proof -
  assume k: "\<And>r. within n (k r)"
  have "within 1 (send_request rq)"
    by (auto simp: within_def send_request_def next_id_def split: option.split prod.split sum.split)
  then show ?thesis using within_bind [of 1 "send_request rq" n k] k by simp
qed

lemma within_steps [waiting]: "within n (tell_hal i st)" "within n (send_if_client m d)" "within n (remove_voice i)"
    "within n (del_call cid)" "within n (take_last_index k)"
  unfolding tell_hal_def send_if_client_def remove_voice_def del_call_def take_last_index_def
  by (intro waiting)+

lemma within_ack [waiting]: "within n (send_ack j)"
  unfolding send_ack_def by (intro within_read within_cases) (auto simp: next_id_def Let_def intro!: waiting)

lemma within_initiate: "within 1 (initiate_call num i)"
  unfolding initiate_call_def after_invite_def finish_initiate_def One_nat_def by (intro waiting within_request)

lemma within_answer_call [waiting]: "within n (answer_call cid)"
  unfolding answer_call_def by (auto intro!: waiting split: prod.split)

lemma within_change_hold: "within 1 (change_hold st st' f d cs cid)"
proof -
  have r: "within 1 (reinvite d cid i)" for i
    unfolding reinvite_def One_nat_def by (intro waiting within_request)
  show ?thesis unfolding change_hold_def
    by (intro waiting within_bind [where b = 0, simplified] r)
qed

lemma within_hold: "within 1 (hold_call cid)" "within 1 (resume_call cid)"
  unfolding hold_call_def resume_call_def by (rule within_change_hold)+

lemma within_swap: "within 2 swap_calls"
proof -
  have m: "within (1 + 1) (cbind m k)" if "within 1 m" "\<And>x. within 1 (k x)" for m and k :: "unit \<Rightarrow> bool run"
    using that by (rule within_bind)
  have "within (1 + 1) swap_calls"
    unfolding swap_calls_def Let_def
    by (intro within_read within_cases within_base m within_then_ret within_ignore within_hold)
  then show ?thesis by (simp add: numeral_2_eq_2)
qed

lemma within_conference [waiting]: "within n conference_calls"
  unfolding conference_calls_def Let_def by (intro waiting)

lemma within_transfer: "within 1 (transfer_call cid num)" "within 1 (attended_transfer a b)"
  unfolding transfer_call_def attended_transfer_def refer_accepted_def Let_def One_nat_def
  by (auto intro!: waiting within_request split: option.split)

lemma within_hangup_call: "within 1 (hangup_call cid)"
  unfolding hangup_call_def One_nat_def by (intro waiting within_request)

lemma within_remote_end [waiting]: "within n (remote_end m a)"
  unfolding remote_end_def Let_def by (intro waiting)

lemma within_dial: "within 1 (dial num)"
  unfolding dial_def after_initiate_def dial_failed_def Let_def
  by (intro waiting within_bind [where b = 0, simplified] within_initiate)

lemma within_notify: "within 1 (send_refer_notify i f st)"
  unfolding send_refer_notify_def One_nat_def by (intro waiting within_request)

lemma within_requests [waiting]: "within n answer" "within n conference"
  unfolding answer_def conference_def by (intro waiting)+

lemma within_calls: "within 1 (hangup i)" "within 1 (separate_connection i)" "within 1 explicit_call_transfer"
proof -
  have h: "within 1 (if b then ignore (hangup_call c) else ret ())" "within 1 (if b then ignore (hold_call c) else ret ())" for b c
    by (intro within_cases within_ignore within_hangup_call within_hold within_base)+
  show "within 1 (hangup i)" unfolding hangup_def
    by (intro within_read within_cases within_base; rule within_then1 [OF h(1)]; intro waiting)
  show "within 1 (separate_connection i)" unfolding separate_connection_def
    by (intro within_read within_cases within_base; rule within_bind0 [OF within_base(3)]; rule within_then1 [OF h(2)]; intro waiting)
  show "within 1 explicit_call_transfer" unfolding explicit_call_transfer_def Let_def
    by (intro within_read within_cases within_base; rule within_then1 [OF within_transfer(1)]; intro waiting)
qed

lemma waits_actives: "waits (length (r_calls p)) (snd (hold_actives p))"
proof -
  have "within (length [0..<length (r_calls p)] * 1) (each (\<lambda>k. read (\<lambda>q.
     if k < length (r_calls q) \<and> vi_state (r_calls q ! k) = CS_ACTIVE then
       (let c = r_calls q ! k in
        seq (act (set_voice (vi_index c) (\<lambda>c. c\<lparr>vi_state := CS_HOLDING\<rparr>)))
            (if r_manager q then ignore (hold_call (vi_sip_id c)) else ret ()))
     else ret ())) [0..<length (r_calls p)])"
    unfolding Let_def by (intro within_each waiting within_hold)
  then show ?thesis by (simp add: hold_actives_def within_def)
qed

lemma waits_switch: "waits (length (r_calls p) + 2) (snd (switch_calls p))"
proof -
  let ?n = "length (r_calls p) + 2"
  have "waits ?n (snd ((case find (\<lambda>c. vi_state c = CS_WAITING) (r_calls p) of
            Some w \<Rightarrow>
              seq hold_actives (
              seq (act (set_voice (vi_index w) (\<lambda>c. c\<lparr>vi_state := CS_ACTIVE\<rparr>)))
                  (if r_manager p \<and> vi_sip_id w \<noteq> [] then ignore (answer_call (vi_sip_id w)) else ret ()))
          | None \<Rightarrow> if r_manager p then ignore swap_calls else ret ()) p))"
  proof (cases "find (\<lambda>c. vi_state c = CS_WAITING) (r_calls p)")
    case None
    have "within 2 (if r_manager p then ignore swap_calls else ret ())" by (intro within_cases within_base within_ignore within_swap)
    from waits_mono [OF withinD [OF this]] None show ?thesis by simp
  next
    case (Some w)
    have "within 0 (seq (act (set_voice (vi_index w) (\<lambda>c. c\<lparr>vi_state := CS_ACTIVE\<rparr>)))
        (if r_manager p \<and> vi_sip_id w \<noteq> [] then ignore (answer_call (vi_sip_id w)) else ret ()))" by (intro waiting)
    from waits_mono [OF waits_then1 [where m = hold_actives and s = p, OF waits_actives this], of ?n] Some show ?thesis by simp
  qed
  then show ?thesis unfolding switch_calls_def read_run by (rule waits_then1) (intro waiting)
qed

lemma waits_hangup_all: "waits (length (r_calls p)) (snd (hangup_all p))"
proof -
  have "within (length (r_calls p) * 1) (each (\<lambda>c. read (\<lambda>q.
            let cid = (case voice_index (vi_index c) q of None \<Rightarrow> vi_sip_id c | Some d \<Rightarrow> vi_sip_id d) in
            if r_manager q \<and> cid \<noteq> [] then ignore (hangup_call cid) else ret ())) (r_calls p))"
    unfolding Let_def by (intro within_each waiting within_hangup_call)
  from withinD [OF this, of p] show ?thesis
    unfolding hangup_all_def read_run mult.right_neutral by (rule waits_then1) (intro waiting)
qed

lemma waits_stop: "waits (length (vcalls p)) (snd (volte_stop p))"
proof -
  have "within 1 (read (\<lambda>q. if vc_state (call_obj i q) \<in> {ACTIVE, RINGING_OUT}
                 then ignore (hangup_call (vc_id (call_obj i q))) else ret ()))" for i
    by (intro waiting within_hangup_call)
  then have "within (length (vcalls p) * 1) (each (\<lambda>(_, i). read (\<lambda>q. if vc_state (call_obj i q) \<in> {ACTIVE, RINGING_OUT}
                 then ignore (hangup_call (vc_id (call_obj i q))) else ret ())) (vcalls p))"
    by (intro within_each) (simp only: split_beta)
  from withinD [OF this, of p] show ?thesis
    unfolding volte_stop_def read_run mult.right_neutral by (rule waits_then1) (intro waiting)
qed

lemma within_invite: "within 2 (handle_incoming_invite m a)"
proof -
  have "within (1 + 1) (incoming_call n cid)" for n cid
    unfolding incoming_call_def Let_def
    by (intro within_read within_cases within_base) (rule within_bind; intro within_ignore within_hangup_call within_initiate)
  then have i: "within 2 (incoming_call n cid)" for n cid by (simp add: numeral_2_eq_2)
  show ?thesis unfolding handle_incoming_invite_def
    by (intro within_bind0 within_read within_cases within_base within_steps within_then [where a = 2 and b = 0] i) simp_all
qed

lemma within_refer: "within 4 (handle_incoming_refer m a)"
  unfolding handle_incoming_refer_def Let_def
  by (intro within_bind0 within_read within_cases within_base within_steps within_then [where a = 1 and b = 3] within_notify
      within_then [where a = 1 and b = 2] within_ignore within_hangup_call within_then [where a = 1 and b = 1] within_dial) simp_all

lemma within_message: "within 4 (volte_handle_incoming m a)"
proof -
  have "within 0 (handle_response m)" "within 0 (handle_reinvite m a i)" "within 0 (handle_incoming_bye m a)" "within 0 (handle_incoming_cancel m a)" for i
    unfolding handle_response_def handle_reinvite_def handle_incoming_bye_def handle_incoming_cancel_def Let_def by (intro waiting)+
  moreover have "within 1 (handle_incoming_notify m a)"
    unfolding handle_incoming_notify_def Let_def by (intro waiting within_hangup_call)
  moreover note within_invite [of m a] within_refer [of m a]
  ultimately have "within 4 (handle_response m)" "within 4 (handle_reinvite m a i)" "within 4 (handle_incoming_invite m a)"
    "within 4 (handle_incoming_bye m a)" "within 4 (handle_incoming_cancel m a)" "within 4 (handle_incoming_notify m a)" for i
    by (auto intro: within_mono)
  then show ?thesis
    unfolding volte_handle_incoming_def by (intro within_cases within_read within_base within_refer)
qed

definition request_waits :: "request_of_android \<Rightarrow> phone \<Rightarrow> nat" where
  "request_waits rq p = (case rq of Switch \<Rightarrow> length (r_calls p) + 2 | Hangup_All \<Rightarrow> length (r_calls p) | Stop \<Rightarrow> length (vcalls p)
     | Dial _ \<Rightarrow> 1 | Hangup _ \<Rightarrow> 1 | Separate _ \<Rightarrow> 1 | Transfer \<Rightarrow> 1 | Attended _ _ \<Rightarrow> 1 | _ \<Rightarrow> 0)"


end
