(* ===== verification/Ril.thy ===== *)
theory Ril
  imports Modem Call_Invariant Call_Termination
begin

text \<open>
  \<^verbatim>\<open>hal/ril_bridge.py\<close>: the requests of Android's RIL shim, their dispatch to the Radio HAL and the
  connection loop. Arguments of another JSON type than the HAL's annotation are a TypeError, as in
  \<^verbatim>\<open>Json\<close>; AES and the answer to the SIP request of the SMS service are parameters.
\<close>

section \<open>Requests\<close>

datatype ril_request = RIL_GET_SIM_STATUS | RIL_ENTER_SIM_PIN | RIL_GET_CURRENT_CALLS | RIL_DIAL | RIL_GET_IMSI | RIL_HANGUP
  | RIL_SWITCH_WAITING_OR_HOLDING_AND_ACTIVE | RIL_CONFERENCE | RIL_SIGNAL_STRENGTH | RIL_VOICE_REG_STATE | RIL_DATA_REG_STATE
  | RIL_OPERATOR | RIL_RADIO_POWER | RIL_SEND_SMS | RIL_SEND_SMS_EXPECT_MORE | RIL_SIM_IO | RIL_SEND_USSD | RIL_CANCEL_USSD
  | RIL_QUERY_CALL_FORWARD_STATUS | RIL_SET_CALL_FORWARD | RIL_GET_IMEI | RIL_ANSWER | RIL_SEPARATE_CONNECTION | RIL_SET_MUTE
  | RIL_GET_MUTE | RIL_DATA_CALL_LIST | RIL_EXPLICIT_CALL_TRANSFER | RIL_SET_INITIAL_ATTACH_APN | RIL_SIM_AUTHENTICATION
  | RIL_SET_DATA_PROFILE

definition ril_ids :: "(int \<times> ril_request) list" where
  "ril_ids = [(1, RIL_GET_SIM_STATUS), (2, RIL_ENTER_SIM_PIN), (9, RIL_GET_CURRENT_CALLS), (10, RIL_DIAL), (11, RIL_GET_IMSI),
     (12, RIL_HANGUP), (15, RIL_SWITCH_WAITING_OR_HOLDING_AND_ACTIVE), (16, RIL_CONFERENCE), (19, RIL_SIGNAL_STRENGTH),
     (20, RIL_VOICE_REG_STATE), (21, RIL_DATA_REG_STATE), (22, RIL_OPERATOR), (23, RIL_RADIO_POWER), (25, RIL_SEND_SMS),
     (26, RIL_SEND_SMS_EXPECT_MORE), (28, RIL_SIM_IO), (29, RIL_SEND_USSD), (30, RIL_CANCEL_USSD), (33, RIL_QUERY_CALL_FORWARD_STATUS),
     (34, RIL_SET_CALL_FORWARD), (38, RIL_GET_IMEI), (40, RIL_ANSWER), (52, RIL_SEPARATE_CONNECTION), (53, RIL_SET_MUTE),
     (54, RIL_GET_MUTE), (57, RIL_DATA_CALL_LIST), (72, RIL_EXPLICIT_CALL_TRANSFER), (111, RIL_SET_INITIAL_ATTACH_APN),
     (125, RIL_SIM_AUTHENTICATION), (128, RIL_SET_DATA_PROFILE)]"

text \<open>
  \<^verbatim>\<open>handlers.get(request_id)\<close>: the keys are IntEnum members, which equal integers and also
  \<^verbatim>\<open>True\<close>; a list or a dict is not hashable.
\<close>

definition request_of :: "json \<Rightarrow> ril_request option res" where
  "request_of j = (case j of JInt i \<Rightarrow> Inr (map_of ril_ids i) | JBool b \<Rightarrow> Inr (map_of ril_ids (if b then 1 else 0))
     | JArr _ \<Rightarrow> Inl TypeError | JObj _ \<Rightarrow> Inl TypeError | _ \<Rightarrow> Inr None)"

section \<open>Arguments\<close>

definition jbool :: "dict \<Rightarrow> string \<Rightarrow> bool \<Rightarrow> bool res" where
  "jbool d k dflt = (case dict_get d k (JBool dflt) of JBool b \<Rightarrow> Inr b | _ \<Rightarrow> Inl TypeError)"

definition jtext :: "dict \<Rightarrow> string \<Rightarrow> ustr res" where
  "jtext d k = rbind (jstr d k []) (\<lambda>s. Inr (ustr s))"

text \<open>\<^verbatim>\<open>data.get("callIndex", data.get("gsmIndex", 1))\<close>.\<close>

definition call_index :: "dict \<Rightarrow> int res" where
  "call_index d = as_int (dict_get d ''callIndex'' (dict_get d ''gsmIndex'' (JInt 1)))"

definition query :: "(modem \<Rightarrow> 'a) \<Rightarrow> 'a mrun" where
  "query f = read (\<lambda>m. ret (f m))"

definition update :: "(modem \<Rightarrow> modem \<times> 'a) \<Rightarrow> 'a mrun" where
  "update f = effect (\<lambda>m. case f m of (m', x) \<Rightarrow> (m', Inr x))"

definition phone_update :: "(phone \<Rightarrow> phone \<times> 'a) \<Rightarrow> 'a mrun" where
  "phone_update f = on_phone (effect (\<lambda>p. case f p of (p', x) \<Rightarrow> (p', Inr x)))"

definition rule_json :: "int \<times> int \<times> int \<times> ustr \<times> int \<Rightarrow> json" where
  "rule_json = (\<lambda>(status, reason, class, num, seconds). JObj [(''status'', JInt status), (''reason'', JInt reason), (''serviceClass'', JInt class),
     (''number'', JStr (map char_of num)), (''timeSeconds'', JInt seconds)])"

section \<open>The handlers\<close>

definition handle_radio_power :: "aes \<Rightarrow> dict \<Rightarrow> dict mrun" where
  "handle_radio_power aes d = seq (Coroutine.act (set_radio_power aes (json_true (dict_get d ''on'' (JBool True))))) (ret [(''success'', JBool True)])"

definition handle_sim_io :: "aes \<Rightarrow> dict \<Rightarrow> dict mrun" where
  "handle_sim_io aes d =
     given (rbind (jint d ''command'' 0) (\<lambda>c. rbind (jint d ''p1'' 0) (\<lambda>a. rbind (jint d ''p2'' 0) (\<lambda>b. rbind (jint d ''p3'' 0) (\<lambda>l.
       rbind (jstr d ''data'' []) (\<lambda>x. Inr (c, a, b, l, x))))))) (\<lambda>(c, a, b, l, x). effect (sim_io aes c a b l x))"

definition handle_sim_auth :: "aes \<Rightarrow> dict \<Rightarrow> dict mrun" where
  "handle_sim_auth aes d = given (rbind (jint d ''authContext'' 0) (\<lambda>c. rbind (jstr d ''authData'' []) (\<lambda>x. Inr (c, x))))
     (\<lambda>(c, x). effect (sim_authentication aes c x))"

definition handle_dial :: "dict \<Rightarrow> dict mrun" where
  "handle_dial d = given (jtext d ''address'') (\<lambda>num. on_phone (dial num))"

definition handle_set_cf :: "dict \<Rightarrow> dict mrun" where
  "handle_set_cf d = given (rbind (jint d ''action'' 0) (\<lambda>a. rbind (jint d ''reason'' 0) (\<lambda>r. rbind (jtext d ''number'') (\<lambda>n.
     rbind (jint d ''timeSeconds'' 20) (\<lambda>t. Inr (a, r, n, t)))))) (\<lambda>(a, r, n, t). phone_update (set_call_forward a r n t))"

text \<open>\<open>data\<close> as the handlers that read it need it: an object.\<close>

definition ril_handler :: "aes \<Rightarrow> (request \<Rightarrow> sip_message res) \<Rightarrow> ril_request \<Rightarrow> json \<Rightarrow> dict mrun" where
  "ril_handler aes net rq data = (case rq of
     RIL_GET_SIM_STATUS \<Rightarrow> update (get_sim_status aes)
   | RIL_ENTER_SIM_PIN \<Rightarrow> given (as_dict data) (\<lambda>_. ret supply_icc_pin)
   | RIL_GET_CURRENT_CALLS \<Rightarrow> query (get_current_calls \<circ> md_phone)
   | RIL_DIAL \<Rightarrow> given (as_dict data) handle_dial
   | RIL_GET_IMSI \<Rightarrow> update (\<lambda>m. case get_imsi aes m of (m', v) \<Rightarrow> (m', [(''imsi'', v)]))
   | RIL_HANGUP \<Rightarrow> given (rbind (as_dict data) call_index) (\<lambda>i. on_phone (hangup i))
   | RIL_SWITCH_WAITING_OR_HOLDING_AND_ACTIVE \<Rightarrow> on_phone switch_calls
   | RIL_CONFERENCE \<Rightarrow> on_phone conference
   | RIL_SIGNAL_STRENGTH \<Rightarrow> ret signal_strength
   | RIL_VOICE_REG_STATE \<Rightarrow> query get_voice_registration_state
   | RIL_DATA_REG_STATE \<Rightarrow> query get_data_registration_state
   | RIL_OPERATOR \<Rightarrow> effect (get_operator aes)
   | RIL_RADIO_POWER \<Rightarrow> given (as_dict data) (handle_radio_power aes)
   | RIL_SEND_SMS \<Rightarrow> given (rbind (as_dict data) (\<lambda>d. jstr d ''pdu'' [])) (\<lambda>pdu. update (hal_send_sms net pdu))
   | RIL_SEND_SMS_EXPECT_MORE \<Rightarrow> given (rbind (as_dict data) (\<lambda>d. jstr d ''pdu'' [])) (\<lambda>pdu. update (hal_send_sms net pdu))
   | RIL_SIM_IO \<Rightarrow> given (as_dict data) (handle_sim_io aes)
   | RIL_SEND_USSD \<Rightarrow> given (rbind (as_dict data) (\<lambda>d. jtext d ''ussd'')) (\<lambda>s. phone_update (hal_send_ussd s))
   | RIL_CANCEL_USSD \<Rightarrow> phone_update hal_cancel_ussd
   | RIL_QUERY_CALL_FORWARD_STATUS \<Rightarrow> given (rbind (as_dict data) (\<lambda>d. jint d ''reason'' 0)) (\<lambda>r.
       query (\<lambda>m. [(''rules'', JArr (map rule_json (query_call_forward r (md_phone m))))]))
   | RIL_SET_CALL_FORWARD \<Rightarrow> given (as_dict data) handle_set_cf
   | RIL_GET_IMEI \<Rightarrow> query (\<lambda>m. [(''imei'', JStr (md_imei m))])
   | RIL_ANSWER \<Rightarrow> on_phone answer
   | RIL_SEPARATE_CONNECTION \<Rightarrow> given (rbind (as_dict data) call_index) (\<lambda>i. on_phone (separate_connection i))
   | RIL_SET_MUTE \<Rightarrow> given (rbind (as_dict data) (\<lambda>d. jbool d ''mute'' False)) (\<lambda>b. phone_update (set_mute b))
   | RIL_GET_MUTE \<Rightarrow> query (get_mute \<circ> md_phone)
   | RIL_DATA_CALL_LIST \<Rightarrow> query get_data_call_list
   | RIL_EXPLICIT_CALL_TRANSFER \<Rightarrow> on_phone explicit_call_transfer
   | RIL_SET_INITIAL_ATTACH_APN \<Rightarrow> given (as_dict data) (\<lambda>_. ret hal_ok)
   | RIL_SIM_AUTHENTICATION \<Rightarrow> given (as_dict data) (handle_sim_auth aes)
   | RIL_SET_DATA_PROFILE \<Rightarrow> ret hal_ok)"

section \<open>A request and a connection\<close>

definition ril_reply :: "ril_message \<Rightarrow> dict \<Rightarrow> ril_message" where
  "ril_reply m d = \<lparr>rm_type = JInt 0, rm_serial = rm_serial m, rm_id = rm_id m, rm_data = JObj d\<rparr>"

definition process_request :: "aes \<Rightarrow> (request \<Rightarrow> sip_message res) \<Rightarrow> ril_message \<Rightarrow> ril_message mrun" where
  "process_request aes net m = given (request_of (rm_id m)) (\<lambda>rq.
     cbind (case rq of Some r \<Rightarrow> ril_handler aes net r (rm_data m) | None \<Rightarrow> ret [(''error'', JStr ''REQUEST_NOT_SUPPORTED'')])
           (\<lambda>d. ret (ril_reply m d)))"

definition ril_handle :: "aes \<Rightarrow> (request \<Rightarrow> sip_message res) \<Rightarrow> bytes \<Rightarrow> bytes mrun" where
  "ril_handle aes net raw = given (ril_deserialize raw) (\<lambda>m. cbind (process_request aes net m) (\<lambda>r. given (ril_serialize r) ret))"

text \<open>
  A client is connected from its first indication until its stream ends, the bridge refuses it, or
  a request raises; then it is removed, whatever happened. \<open>k\<close> tells the clients apart.
\<close>

definition ril_client :: "aes \<Rightarrow> (request \<Rightarrow> sip_message res) \<Rightarrow> nat \<Rightarrow> bytes \<Rightarrow> unit mrun" where
  "ril_client aes net k s =
     seq (Coroutine.act (\<lambda>m. m\<lparr>md_clients := md_clients m @ [(k, [])]\<rparr>))
     (seq (effect (\<lambda>m. send_unsolicited k 1000 [(''radioState'', JInt (radio_value (md_radio m)))] m))
     (seq (ignore (attempt (serve (1024 * 1024) (ril_handle aes net) (write_client k) s)))
          (Coroutine.act (\<lambda>m. m\<lparr>md_clients := filter (\<lambda>(j, _). j \<noteq> k) (md_clients m)\<rparr>))))"

text \<open>\<^verbatim>\<open>start\<close> and \<^verbatim>\<open>stop\<close> of the bridge.\<close>

definition ril_start :: "aes \<Rightarrow> modem \<Rightarrow> modem" where
  "ril_start aes m = power_on aes (m\<lparr>md_phone := (md_phone m)\<lparr>r_callback := True\<rparr>\<rparr>)"

definition ril_stop :: "modem \<Rightarrow> modem" where
  "ril_stop m = power_off m"

section \<open>The phone's laws in the modem\<close>

lemma fold_phone: "(\<And>x m. md_phone (f x m) = md_phone m) \<Longrightarrow> md_phone (fold f xs m) = md_phone m"
  by (induction xs arbitrary: m) auto

lemma md_phone_write [simp]: "md_phone (write_client k out m) = md_phone m"
  by (simp add: write_client_def)

lemma md_phone_broadcast [simp]: "md_phone (broadcast_unsolicited n d m) = md_phone m"
  unfolding broadcast_unsolicited_def by (rule fold_phone) (simp add: send_unsolicited_def split: sum.split)

lemma md_phone_with [simp]: "md_phone (with_phone p m) = p"
  unfolding with_phone_def deliver_indications_def by (subst fold_phone) auto

lemma lift_safe: "safe P x \<Longrightarrow> safe (\<lambda>m. P (md_phone m)) (lift_co x)"
proof (induction rule: safe.induct)
  case (safe_Wait c f)
  then show ?case by (auto simp: case_prod_beta)
qed auto

lemma keeps_on_phone [keeping]: "keeps P f \<Longrightarrow> keeps (\<lambda>m. P (md_phone m)) (on_phone f)"
  by (auto simp: keeps_def on_phone_def case_prod_beta intro: lift_safe)

lemma waits_lift: "waits n x \<Longrightarrow> waits n (lift_co x)"
  by (induction rule: waits.induct) (auto simp: case_prod_beta)

lemma waits_on_phone: "waits n (snd (f (md_phone m))) \<Longrightarrow> waits n (snd (on_phone f m))"
  by (simp add: on_phone_def case_prod_beta waits_lift)

lemma within_on_phone: "within n f \<Longrightarrow> within n (on_phone f)"
  by (simp add: within_def waits_on_phone)

abbreviation calls_inv :: "volte_config \<Rightarrow> modem \<Rightarrow> bool" where
  "calls_inv g m \<equiv> phone_inv g (md_phone m)"

lemma keeps_query [keeping]: "keeps P (query f)"
  unfolding query_def by (intro keeping)

lemma keeps_update: "(\<And>m. P m \<Longrightarrow> P (fst (f m))) \<Longrightarrow> keeps P (update f)"
  unfolding update_def by (rule keeps_effect) (simp add: case_prod_beta)

lemma keeps_phone_update: "(\<And>p. P p \<Longrightarrow> P (fst (f p))) \<Longrightarrow> keeps (\<lambda>m. P (md_phone m)) (phone_update f)"
  unfolding phone_update_def by (intro keeps_on_phone keeps_effect) (simp add: case_prod_beta)

lemma inv_send_indication [inv_steps]: "calls_inv g m \<Longrightarrow> phone_inv g (md_phone (send_indication n d m))"
  by (simp add: send_indication_def inv_indicate)

lemma md_phone_euicc [simp]: "md_phone (fst (euicc_message aes msg m)) = md_phone m"
  "md_phone (fst (hal_active_profile aes m)) = md_phone m" "md_phone (fst (hal_euicc_info aes m)) = md_phone m"
  by (simp_all add: euicc_message_def hal_active_profile_def hal_euicc_info_def case_prod_beta)

lemma md_phone_queries [simp]: "md_phone (fst (get_sim_status aes m)) = md_phone m" "md_phone (fst (get_imsi aes m)) = md_phone m"
  "md_phone (fst (get_operator aes m)) = md_phone m" "md_phone (fst (sim_io aes c a b l x m)) = md_phone m"
  "md_phone (fst (sim_authentication aes c x m)) = md_phone m" "md_phone (fst (hal_send_sms net pdu m)) = md_phone m"
  by (auto simp: get_sim_status_def get_imsi_def get_operator_def sim_io_def sim_authentication_def hal_send_sms_def case_prod_beta
      split: option.split prod.split)

lemma inv_power [inv_steps]: "calls_inv g m \<Longrightarrow> phone_inv g (md_phone (set_radio_power aes on m))"
proof -
  assume i: "calls_inv g m"
  obtain m1 p where a: "hal_active_profile aes (m\<lparr>md_radio := RADIO_ON\<rparr>) = (m1, p)" by fastforce
  then have "md_phone m1 = md_phone m" using md_phone_euicc(2) [of aes "m\<lparr>md_radio := RADIO_ON\<rparr>"] by simp
  then have "phone_inv g (md_phone (power_on aes m))"
    using i by (cases p) (simp_all add: power_on_def a Let_def inv_send_indication)
  then show ?thesis using i by (simp add: set_radio_power_def power_off_def inv_no_calls)
qed

lemma keeps_handler: "keeps (\<lambda>m. phone_inv g (md_phone m)) (ril_handler aes net rq data)"
proof -
  have "keeps (\<lambda>m. phone_inv g (md_phone m)) (handle_radio_power aes d)" "keeps (\<lambda>m. phone_inv g (md_phone m)) (handle_sim_io aes d)"
    "keeps (\<lambda>m. phone_inv g (md_phone m)) (handle_sim_auth aes d)" "keeps (\<lambda>m. phone_inv g (md_phone m)) (handle_dial d)"
    "keeps (\<lambda>m. phone_inv g (md_phone m)) (handle_set_cf d)" for d
    unfolding handle_radio_power_def handle_sim_io_def handle_sim_auth_def handle_dial_def handle_set_cf_def
    by (auto intro!: keeping keeps_effect keeps_phone_update inv_steps inv_services split: prod.split)
  then show ?thesis
    by (cases rq) (auto simp: ril_handler_def case_prod_beta intro!: keeping keeps_update keeps_effect keeps_phone_update inv_services)
qed

lemma keeps_ril: "keeps (\<lambda>m. phone_inv g (md_phone m)) (ril_handle aes net raw)"
  unfolding ril_handle_def process_request_def by (intro keeping keeps_handler)

interpretation ril_server: frame_server "1024 * 1024" "ril_handle aes net" "write_client k" "\<lambda>_. True" "\<lambda>m. phone_inv g (md_phone m)"
  for aes net k g
  by unfold_locales (simp_all add: keeps_ril)

text \<open>
  C22: whatever bytes a RIL client sends, in whatever order the waits of its requests end and whatever
  the other tasks do meanwhile within the same contract, the call table, the RTP ports and the call
  list of Android stay consistent from its connection to its end.
\<close>

theorem ril_client_keeps_calls: "keeps (\<lambda>m. phone_inv g (md_phone m)) (ril_client aes net k s)"
proof -
  have "md_phone (fst (send_unsolicited k n d m)) = md_phone m" for n d m
    by (simp add: send_unsolicited_def split: sum.split)
  then show ?thesis
    unfolding ril_client_def by (intro keeping keeps_effect ril_server.serve_keeps) simp_all
qed

lemma within_query [waiting]: "within n (query f)" "within n (update u)" "within n (phone_update v)"
  unfolding query_def update_def phone_update_def by (auto intro!: waiting within_on_phone)

lemma within_handler: "rq \<noteq> RIL_SWITCH_WAITING_OR_HOLDING_AND_ACTIVE \<Longrightarrow> within 1 (ril_handler aes net rq data)"
proof -
  have "within 1 (handle_radio_power aes d)" "within 1 (handle_sim_io aes d)" "within 1 (handle_sim_auth aes d)"
    "within 1 (handle_dial d)" "within 1 (handle_set_cf d)" for d
    unfolding handle_radio_power_def handle_sim_io_def handle_sim_auth_def handle_dial_def handle_set_cf_def
    by (auto intro!: waiting within_on_phone within_dial split: prod.split simp del: One_nat_def)
  then show "rq \<noteq> RIL_SWITCH_WAITING_OR_HOLDING_AND_ACTIVE \<Longrightarrow> ?thesis"
    by (cases rq) (auto simp: ril_handler_def intro!: waiting within_on_phone within_calls simp del: One_nat_def)
qed

lemma waits_handler: "waits (length (r_calls (md_phone m)) + 2) (snd (ril_handler aes net rq data m))"
proof (cases "rq = RIL_SWITCH_WAITING_OR_HOLDING_AND_ACTIVE")
  case True
  then show ?thesis using waits_on_phone [OF waits_switch] by (simp add: ril_handler_def)
next
  case False
  show ?thesis by (rule waits_mono [OF withinD [OF within_handler [OF False]]]) simp
qed

text \<open>
  Every RIL request is answered: after a number of waits known when it starts, with a response of
  the request's own serial number and identifier, or with the exception that closes the connection.
\<close>

theorem ril_request_answered:
  "waits (length (r_calls (md_phone m)) + 2) (snd (process_request aes net msg m))
   \<and> yields (\<lambda>r. rm_type r = JInt 0 \<and> rm_serial r = rm_serial msg \<and> rm_id r = rm_id msg) (snd (process_request aes net msg m))"
proof
  show "waits (length (r_calls (md_phone m)) + 2) (snd (process_request aes net msg m))"
    unfolding process_request_def
    by (intro waits_given waits_then1) (auto intro: waits_handler within_base split: option.split simp del: add_2_eq_Suc')
  show "yields (\<lambda>r. rm_type r = JInt 0 \<and> rm_serial r = rm_serial msg \<and> rm_id r = rm_id msg) (snd (process_request aes net msg m))"
    by (auto simp: process_request_def given_def ril_reply_def intro!: yields_cbind split: sum.split)
qed

end
