(* ===== verification/Ril_Sim.thy ===== *)
theory Ril_Sim
  imports Ril
begin

text \<open>
  The SIM behind the RIL: a request of Android goes through the bridge, the Radio HAL, the socket of
  the eUICC daemon and the APDU handler to the active profile and back.
\<close>

section \<open>An APDU over the socket\<close>

definition apdu_answer :: "response \<Rightarrow> dict" where
  "apdu_answer r = [(''type'', JStr ''apdu_response''), (''data'', JStr (hex_of (rdata r @ [word_of_int (sw1 r), word_of_int (sw2 r)]))),
     (''sw'', JStr (status_word r))]"

definition sw_ok :: "response \<Rightarrow> bool" where
  "sw_ok r \<longleftrightarrow> 0 \<le> sw1 r \<and> sw1 r < 256 \<and> 0 \<le> sw2 r \<and> sw2 r < 256"

lemma hex_nat_byte: "n < 256 \<Longrightarrow> hex_nat n = (if n < 16 then [hex_digit n] else [hex_digit (n div 16), hex_digit (n mod 16)])"
  by (subst hex_nat.simps, subst hex_nat.simps) (auto simp: div_less_dividend less_mult_imp_div_less)

lemma fmt_byte: "0 \<le> x \<Longrightarrow> x < 256 \<Longrightarrow> fmt_02x x = hex_byte (word_of_int x)"
proof -
  assume x: "0 \<le> x" "x < 256"
  then have u: "unat (word_of_int x :: byte) = nat x" by (simp add: uint_word_of_int flip: nat_uint_eq)
  have z: "hex_digit 0 = CHR ''0''" by (simp add: hex_digit_def char_of_eq_iff)
  show ?thesis using x by (simp add: fmt_02x_def hex_nat_byte hex_byte_def u z nat_less_iff Let_def)
qed

lemma int16_byte: "0 \<le> x \<Longrightarrow> x < 256 \<Longrightarrow> int16 (fmt_02X x) = Inr x \<and> length (fmt_02X x) = 2"
proof -
  assume x: "0 \<le> x" "x < 256"
  then have u: "unat (word_of_int x :: byte) = nat x" by (simp add: uint_word_of_int flip: nat_uint_eq)
  have d: "nat x div 16 < 16" using x by linarith
  have "int (16 * (nat x div 16) + nat x mod 16) = x" using x by (simp only: mult_div_mod_eq)
  then show ?thesis using x d by (simp add: fmt_02X_def fmt_byte hex_byte_def u int16_def upper_hex_digit)
qed

lemma sim_result_answer: "sw_ok r \<Longrightarrow> sim_result dflt (apdu_answer r) =
    Inr [(''sw1'', JInt (sw1 r)), (''sw2'', JInt (sw2 r)), (''simResponse'', JStr (hex_of (rdata r @ [word_of_int (sw1 r), word_of_int (sw2 r)])))]"
  using int16_byte [of "sw1 r"] int16_byte [of "sw2 r"]
  by (simp add: sim_result_def apdu_answer_def jstr_def dict_get_def status_word_def sw_ok_def slice_def)

lemma hal_apdu:
  assumes "md_up m" "fromhex hex = Inr raw" "process_apdu aes raw (dm_card (md_daemon m)) = (h, r)" "sw_ok r"
    and "length hex \<le> 4000" "length (rdata r) \<le> 4000"
  shows "euicc_message aes (apdu_message hex) m = (m\<lparr>md_daemon := (md_daemon m)\<lparr>dm_card := h\<rparr>\<rparr>, apdu_answer r)"
proof -
  have s: "sendable (apdu_message hex)"
    using assms(5) by (intro conjunct1 [OF sized_ok]) (simp_all add: apdu_message_def dict_ok_def)
  have q: "length (status_word r) = 4"
    using assms(4) int16_byte [of "sw1 r"] int16_byte [of "sw2 r"] by (simp add: status_word_def sw_ok_def)
  have a: "receivable (apdu_answer r)"
    using assms(6) q by (intro conjunct2 [OF sized_ok]) (simp_all add: apdu_answer_def dict_ok_def)
  have b: "response_to_bytes r = Inr (rdata r @ [word_of_int (sw1 r), word_of_int (sw2 r)])"
    using assms(4) by (simp add: response_to_bytes_def sw_ok_def mk_byte_def)
  have p: "process_message aes (apdu_message hex) (md_daemon m) = ((md_daemon m)\<lparr>dm_card := h\<rparr>, Inr (apdu_answer r))"
    using assms(2,3) b by (simp add: process_message_def apdu_message_def process_apdu_message_def jstr_def dict_get_def apdu_answer_def)
  show ?thesis using exchange [OF s p] a assms(1) by (simp add: euicc_message_def)
qed

section \<open>Authentication\<close>

lemma hex_of_append: "hex_of (a @ b) = hex_of a @ hex_of b"
  by (simp add: hex_of_def)

lemma hex_consts: "hex_of [0] = ''00''" "hex_of [0, 0x88] = ''0088''"
  by (simp_all add: hex_of_def hex_byte_def hex_digit_def char_of_eq_iff take_bit_eq_mod)

text \<open>The challenge as the card's command wants it after P2: with its length, the tag and both values.\<close>

definition auth_data :: "bytes \<Rightarrow> bytes \<Rightarrow> string" where
  "auth_data rand autn = hex_of ([35, 0x80, 16] @ rand @ [16] @ autn)"

definition auth_request :: "json \<Rightarrow> int \<Rightarrow> string \<Rightarrow> ril_message" where
  "auth_request serial ctx challenge = \<lparr>rm_type = JInt 0, rm_serial = serial, rm_id = JInt 125,
     rm_data = JObj [(''authContext'', JInt ctx), (''authData'', JStr challenge)]\<rparr>"

definition sim_reply :: "response \<Rightarrow> dict" where
  "sim_reply r = [(''sw1'', JInt (sw1 r)), (''sw2'', JInt (sw2 r)), (''simResponse'', JStr (hex_of (rdata r @ [word_of_int (sw1 r), word_of_int (sw2 r)])))]"

lemma auth_hex:
  assumes "0 \<le> ctx" "ctx < 256" "length rand = 16" "length autn = 16"
  shows "fromhex (''0088'' @ fmt_02x ctx @ ''00'' @ auth_data rand autn) = Inr ([0, 0x88, word_of_int ctx, 0] @ [35, 0x80, 16] @ rand @ [16] @ autn)"
    and "length (''0088'' @ fmt_02x ctx @ ''00'' @ auth_data rand autn) \<le> 4000"
proof -
  have "''0088'' @ fmt_02x ctx @ ''00'' @ auth_data rand autn = hex_of ([0, 0x88, word_of_int ctx, 0] @ [35, 0x80, 16] @ rand @ [16] @ autn)"
    using assms hex_of_append [of "[0, 0x88]"] hex_of_append [of "[0]"]
    by (simp add: auth_data_def fmt_byte hex_consts) (simp add: hex_of_def)
  then show "fromhex (''0088'' @ fmt_02x ctx @ ''00'' @ auth_data rand autn) = Inr ([0, 0x88, word_of_int ctx, 0] @ [35, 0x80, 16] @ rand @ [16] @ autn)"
    "length (''0088'' @ fmt_02x ctx @ ''00'' @ auth_data rand autn) \<le> 4000"
    using assms by simp_all
qed

lemma ril_sim_auth:
  assumes "md_up m" "fromhex (''0088'' @ fmt_02x ctx @ ''00'' @ challenge) = Inr raw"
    "length (''0088'' @ fmt_02x ctx @ ''00'' @ challenge) \<le> 4000"
    and "process_apdu aes raw (dm_card (md_daemon m)) = (h, r)" "sw_ok r" "length (rdata r) \<le> 4000"
  shows "process_request aes net (auth_request serial ctx challenge) m =
    (m\<lparr>md_daemon := (md_daemon m)\<lparr>dm_card := h\<rparr>\<rparr>, Ret (ril_reply (auth_request serial ctx challenge) (sim_reply r)))"
proof -
  have "sim_authentication aes ctx challenge m = (m\<lparr>md_daemon := (md_daemon m)\<lparr>dm_card := h\<rparr>\<rparr>, Inr (sim_reply r))"
    using hal_apdu [OF assms(1,2,4,5,3,6)] sim_result_answer [OF assms(5), of "''0000''"]
    by (simp add: sim_authentication_def sim_reply_def)
  then show ?thesis
    by (simp add: process_request_def auth_request_def request_of_def ril_ids_def given_def ril_handler_def as_dict_def handle_sim_auth_def
        jint_def jstr_def dict_get_def effect_run cbind_def)
qed

lemma auth_responses_ok: "sw_ok (db_response keys)" "sw_ok (dc_response auts)" "length (rdata (db_response (res, ck, ik))) = 4 + length res + length ck + length ik"
  "length (rdata (dc_response auts)) = 2 + length auts"
  by (simp_all add: sw_ok_def db_response_def dc_response_def SW_OK_def split: prod.split)

text \<open>
  C3: SIM authentication from end to end. A challenge of a network that knows the keys of the active
  profile, passed by Android through the RIL in the form of the card's command, comes back with the
  network's RES, CK and IK and advances the card's sequence number by one if the challenge is fresh, and with AUTS
  and no change otherwise; the answer carries the request's serial number, status 9000, and the
  status word once more at the end of the response.
\<close>

theorem ril_sim_authentication:
  assumes "aes_ok aes" "mil_ok k" "length rand = 16" "sqn_ok s" "length amf = 2" "aka_vector aes k rand s amf = Inr (autn, keys)"
    and "md_up m" "get_active_profile (daemon_euicc (md_daemon m)) = Some p" "holds_keys p k" "sqn_ok (sqn p)" "0 \<le> ctx" "ctx < 256"
  shows "\<exists>m' r. process_request aes net (auth_request serial ctx (auth_data rand autn)) m =
      (m', Ret (ril_reply (auth_request serial ctx (auth_data rand autn))
         [(''sw1'', JInt 0x90), (''sw2'', JInt 0), (''simResponse'', JStr (hex_of (rdata r @ [0x90, 0])))]))
    \<and> (if sqn p \<le> s then r = db_response keys \<and> get_active_profile (daemon_euicc (md_daemon m')) = Some (increment_sqn p)
       else m' = m \<and> (\<exists>auts. generate_auts aes k rand (sqn p) = Inr auts \<and> r = dc_response auts))"
proof -
  have us: "usim_ok (aes, k)" "rand_ok rand" using assms(1-3) by (simp_all add: usim_ok_def rand_ok_def)
  have v: "usim_vector (aes, k) rand s amf = Inr (autn, keys)" using assms(6) by (simp add: usim_vector_def)
  obtain res ck ik where keys: "keys = (res, ck, ik)" "length autn = 16" "length res = 8" "length ck = 16" "length ik = 16"
    using mil_aka.vector_total [OF us assms(4,5)] v by auto
  define h where "h = dm_card (md_daemon m)"
  have p: "get_active_profile (h_euicc h) = Some p" using assms(8) by (simp add: daemon_euicc_def h_def)
  note a = assms(1-6) p assms(9)
  have x: "process_apdu aes ([0, 0x88, word_of_int ctx, 0] @ [35, 0x80, 16] @ rand @ [16] @ autn) h = process_apdu aes (auth_apdu rand autn) h"
    using auth_parameters [of aes "word_of_int ctx" 0 35 "[0x80, 16] @ rand @ [16] @ autn" h] by (simp add: auth_apdu_def)
  define m' where "m' = (\<lambda>h. m\<lparr>md_daemon := (md_daemon m)\<lparr>dm_card := h\<rparr>\<rparr>)"
  have r9: "[(''sw1'', JInt 0x90), (''sw2'', JInt 0), (''simResponse'', JStr (hex_of (rdata (db_response keys) @ [0x90, 0])))]
      = sim_reply (db_response keys)"
    "[(''sw1'', JInt 0x90), (''sw2'', JInt 0), (''simResponse'', JStr (hex_of (rdata (dc_response auts) @ [0x90, 0])))]
      = sim_reply (dc_response auts)" for auts
    by (simp_all add: sim_reply_def db_response_def dc_response_def SW_OK_def split: prod.split)
  note step = ril_sim_auth [OF assms(7) auth_hex [OF assms(11,12,3) keys(2)], where aes = aes, folded h_def, unfolded x]
  show ?thesis
  proof (cases "sqn p \<le> s")
    case True
    let ?h = "h\<lparr>h_euicc := set_active_profile (increment_sqn p) (h_euicc h)\<rparr>"
    have l: "length (rdata (db_response keys)) \<le> 4000" by (simp add: keys auth_responses_ok)
    have "get_active_profile (h_euicc ?h) = Some (increment_sqn p)" using active_after_bump [OF p] by simp
    then have "get_active_profile (daemon_euicc (md_daemon (m' ?h))) = Some (increment_sqn p)" by (simp add: m'_def daemon_euicc_def)
    then show ?thesis
      using step [OF process_auth_vector(1) [OF a True] auth_responses_ok(1) l, of net serial] True
      by (intro exI [of _ "m' ?h"] exI [of _ "db_response keys"]) (simp only: r9 m'_def if_True simp_thms)
  next
    case False
    then obtain auts where g: "generate_auts aes k rand (sqn p) = Inr auts"
        "process_apdu aes (auth_apdu rand autn) h = (h, dc_response auts)"
      using process_auth_vector(2) [OF a _ assms(10)] by auto
    have "length auts = 14" using auts_shape [OF assms(1-3,10)] g(1) by auto
    then have l: "length (rdata (dc_response auts)) \<le> 4000" by (simp add: auth_responses_ok)
    have "m\<lparr>md_daemon := (md_daemon m)\<lparr>dm_card := h\<rparr>\<rparr> = m" by (simp add: h_def)
    then show ?thesis
      using step [OF g(2) auth_responses_ok(2) l, of net serial] False g(1)
      by (intro exI [of _ m] exI [of _ "dc_response auts"]) (simp only: r9 if_False simp_thms ex_simps, blast)
  qed
qed

definition sample_modem :: modem where
  "sample_modem = new_modem (new_phone \<lparr>vg_pcscf = [], vg_port = 5060, vg_transport = [], vg_codecs = [], vg_impu = [], vg_home = [],
     vg_route = [], vg_local_ip = [], vg_rtp_base = 20000\<rparr> (\<lambda>_. []) (\<lambda>_. 1) (\<lambda>_. True))
     (new_daemon sample_handler (\<lambda>_. ''aid'')) True ''358240051111110'' None"

lemma sample_modem_simps [simp]: "md_up sample_modem" "daemon_euicc (md_daemon sample_modem) = h_euicc sample_handler"
  "dm_card (md_daemon sample_modem) = sample_handler" "md_clients sample_modem = []"
  by (simp_all add: sample_modem_def new_modem_def new_daemon_def daemon_euicc_def)

theorem ril_sim_authentication_witness:
  "\<exists>autn keys m'. aka_vector sample_aes sample_mil sample_rand 32 [128, 0] = Inr (autn, keys)
     \<and> process_request sample_aes (\<lambda>_. Inl TimeoutError) (auth_request (JInt 7) 0 (auth_data sample_rand autn)) sample_modem =
       (m', Ret (ril_reply (auth_request (JInt 7) 0 (auth_data sample_rand autn))
          [(''sw1'', JInt 0x90), (''sw2'', JInt 0), (''simResponse'', JStr (hex_of (rdata (db_response keys) @ [0x90, 0])))]))"
proof -
  obtain autn keys where v: "aka_vector sample_aes sample_mil sample_rand 32 [128, 0] = Inr (autn, keys)"
    using sample_vector by blast
  have p: "get_active_profile (daemon_euicc (md_daemon sample_modem)) = Some sample_isdp" using sample_handler_active(1) by simp
  have "sqn_ok (sqn sample_isdp)" "sqn sample_isdp \<le> 32" by (simp_all add: sample_handler_active(3) sqn_ok_def)
  then show ?thesis
    using ril_sim_authentication [OF sample_ok v sample_modem_simps(1) p sample_handler_active(2), of 0 "\<lambda>_. Inl TimeoutError" "JInt 7"] v by auto
qed

end
