(* ===== verification/Ril_Radio.thy ===== *)
theory Ril_Radio
  imports Ril_Sim
begin

text \<open>
  Power and registration: what Android sees of the network as the radio is switched on and off
  while the tasks that simulate the registration run, and messages that arrive for it.
\<close>

section \<open>What an indication and a query leave alone\<close>

lemma broadcast_clients: "\<exists>c. broadcast_unsolicited n d m = m\<lparr>md_clients := c\<rparr>"
proof -
  have "\<exists>c. fold (\<lambda>k m. fst (send_unsolicited k n d m)) ks m = m\<lparr>md_clients := c\<rparr>" for ks
  proof (induction ks arbitrary: m)
    case Nil
    show ?case by (rule exI [of _ "md_clients m"]) simp
  next
    case (Cons k ks)
    have "\<exists>c. fst (send_unsolicited k n d m) = m\<lparr>md_clients := c\<rparr>"
      by (auto simp: send_unsolicited_def write_client_def intro: exI [of _ "md_clients m"] split: sum.split)
    with Cons.IH [of "fst (send_unsolicited k n d m)"] show ?case by fastforce
  qed
  then show ?thesis by (simp add: broadcast_unsolicited_def)
qed

lemma with_phone_clients: "\<exists>c. with_phone p m = m\<lparr>md_phone := p, md_clients := c\<rparr>"
proof -
  have "\<exists>c. deliver_indications is m = m\<lparr>md_clients := c\<rparr>" for "is" m
  proof (induction "is" arbitrary: m)
    case Nil
    show ?case by (rule exI [of _ "md_clients m"]) (simp add: deliver_indications_def)
  next
    case (Cons x xs)
    obtain c where "broadcast_unsolicited (fst x) (snd x) m = m\<lparr>md_clients := c\<rparr>" using broadcast_clients by blast
    with Cons.IH [of "m\<lparr>md_clients := c\<rparr>"] show ?case by (auto simp: deliver_indications_def case_prod_beta)
  qed
  then show ?thesis by (simp add: with_phone_def)
qed

lemma with_phone_simps [simp]:
  "md_daemon (with_phone p m) = md_daemon m" "md_up (with_phone p m) = md_up m" "md_radio (with_phone p m) = md_radio m"
  "md_card_state (with_phone p m) = md_card_state m" "md_reg (with_phone p m) = md_reg m" "md_data (with_phone p m) = md_data m"
  "md_task (with_phone p m) = md_task m" "md_tasks (with_phone p m) = md_tasks m" "md_next_task (with_phone p m) = md_next_task m"
  using with_phone_clients [of p m] by auto

lemma send_indication_simps [simp]:
  "md_daemon (send_indication n d m) = md_daemon m" "md_up (send_indication n d m) = md_up m" "md_radio (send_indication n d m) = md_radio m"
  "md_card_state (send_indication n d m) = md_card_state m" "md_reg (send_indication n d m) = md_reg m"
  "md_data (send_indication n d m) = md_data m" "md_task (send_indication n d m) = md_task m"
  "md_tasks (send_indication n d m) = md_tasks m" "md_next_task (send_indication n d m) = md_next_task m"
  by (simp_all add: send_indication_def)

text \<open>A message that the daemon processes without a change leaves it unchanged, whatever the answer.\<close>

lemma exchange_same:
  assumes "sendable msg" "process_message aes msg d = (d, r)"
  shows "fst (send_euicc_message aes up msg d) = d"
proof -
  have f: "framable (message_bytes msg)" using assms(1) by (simp add: sendable_def framable_def)
  have p: "payloads 65536 (frame (message_bytes msg)) = [message_bytes msg]"
    using assms(1) payloads_one [of "message_bytes msg" "[]"] payloads_stop [of "[]" 65536] by (simp add: sendable_def read_frame_def)
  have j: "json_ok (JObj msg)" using assms(1) by (simp add: sendable_def)
  obtain x where a: "answer_payload aes (message_bytes msg) (d\<lparr>dm_out := []\<rparr>) = (d\<lparr>dm_out := []\<rparr>, x)"
    using assms(2) process_message_out [of aes msg "[]" d] by (simp add: answer_payload_def loads_message [OF j])
  have "\<exists>out. connection aes (frame (message_bytes msg)) d = d\<lparr>dm_out := out\<rparr>"
    by (cases x) (simp_all add: connection_def handle_client_def serve_each p ignore_def turn_def daemon_handle_def effect_run a
        cbind_def attempt_def daemon_put_def act_def ret_def, (rule exI, rule refl)+)
  then show ?thesis
    using f by (auto simp: send_euicc_message_def socket_exchange_def to_frame_ok Let_def simp flip: message_bytes_def)
qed

definition LIST :: dict where "LIST = [(''type'', JStr ''list_profiles'')]"

lemma list_exchange: "fst (send_euicc_message aes up LIST d) = d"
proof (rule exchange_same)
  show "sendable LIST" by (intro conjunct1 [OF sized_ok]) (simp_all add: LIST_def dict_ok_def)
  show "process_message aes LIST d = (d, rbind (list_profiles (daemon_euicc d)) (\<lambda>ps. Inr [(''type'', JStr ''profiles''), (''data'', JArr (map JObj ps))]))"
    by (simp add: process_message_def LIST_def dict_get_def)
qed

lemma active_pure: "hal_active_profile aes m = (m, snd (hal_active_profile aes m))"
  using list_exchange [of aes "md_up m" "md_daemon m"]
  by (auto simp: hal_active_profile_def euicc_message_def LIST_def split: prod.split)

lemma active_same: "md_daemon m' = md_daemon m \<Longrightarrow> md_up m' = md_up m \<Longrightarrow> snd (hal_active_profile aes m') = snd (hal_active_profile aes m)"
  by (simp add: hal_active_profile_def euicc_message_def split: prod.split)

lemma power_on_active:
  assumes "snd (hal_active_profile aes m) = Some p"
  shows "md_radio (power_on aes m) = RADIO_ON" "md_card_state (power_on aes m) = 1" "md_data (power_on aes m) = md_data m"
    "md_reg (power_on aes m) = (md_reg m)\<lparr>nr_mcc := dict_get p ''mcc'' (JStr []), nr_mnc := dict_get p ''mnc'' (JStr [])\<rparr>"
    "md_task (power_on aes m) = Some (md_next_task m)" "md_tasks (power_on aes m) = md_tasks m @ [(md_next_task m, Before_Search)]"
    "md_next_task (power_on aes m) = md_next_task m + 1" "md_daemon (power_on aes m) = md_daemon m" "md_up (power_on aes m) = md_up m"
proof -
  have "hal_active_profile aes (m\<lparr>md_radio := RADIO_ON\<rparr>) = (m\<lparr>md_radio := RADIO_ON\<rparr>, Some p)"
    using active_pure [of aes "m\<lparr>md_radio := RADIO_ON\<rparr>"] active_same [of "m\<lparr>md_radio := RADIO_ON\<rparr>" m aes] assms by simp
  then show "md_radio (power_on aes m) = RADIO_ON" "md_card_state (power_on aes m) = 1" "md_data (power_on aes m) = md_data m"
    "md_reg (power_on aes m) = (md_reg m)\<lparr>nr_mcc := dict_get p ''mcc'' (JStr []), nr_mnc := dict_get p ''mnc'' (JStr [])\<rparr>"
    "md_task (power_on aes m) = Some (md_next_task m)" "md_tasks (power_on aes m) = md_tasks m @ [(md_next_task m, Before_Search)]"
    "md_next_task (power_on aes m) = md_next_task m + 1" "md_daemon (power_on aes m) = md_daemon m" "md_up (power_on aes m) = md_up m"
    by (simp_all add: power_on_def Let_def)
qed

lemma power_on_absent:
  assumes "snd (hal_active_profile aes m) = None"
  shows "power_on aes m = m\<lparr>md_radio := RADIO_ON, md_card_state := 0\<rparr>"
  using active_pure [of aes "m\<lparr>md_radio := RADIO_ON\<rparr>"] active_same [of "m\<lparr>md_radio := RADIO_ON\<rparr>" m aes] assms
  by (simp add: power_on_def)

section \<open>Power and registration\<close>

text \<open>
  The radio switched on only when it is off, switched off at any time, the registration tasks
  advancing at any time, and everything else in between.
\<close>

definition same_radio :: "modem \<Rightarrow> modem \<Rightarrow> bool" where
  "same_radio m m' \<longleftrightarrow> md_radio m' = md_radio m \<and> md_reg m' = md_reg m \<and> md_data m' = md_data m \<and> md_task m' = md_task m
     \<and> md_tasks m' = md_tasks m \<and> md_next_task m' = md_next_task m"

inductive radio_run :: "aes \<Rightarrow> modem \<Rightarrow> modem \<Rightarrow> bool" for aes m0 where
  start: "radio_run aes m0 m0"
| on: "radio_run aes m0 m \<Longrightarrow> md_radio m \<noteq> RADIO_ON \<Longrightarrow> radio_run aes m0 (set_radio_power aes True m)"
| off: "radio_run aes m0 m \<Longrightarrow> radio_run aes m0 (set_radio_power aes False m)"
| phase: "radio_run aes m0 m \<Longrightarrow> radio_run aes m0 (registration_phase nitz t m)"
| other: "radio_run aes m0 m \<Longrightarrow> same_radio m m' \<Longrightarrow> radio_run aes m0 m'"

fun phase_state :: "reg_phase \<Rightarrow> reg_state" where
  "phase_state Before_Search = NOT_REG_NOT_SEARCHING" | "phase_state Before_Register = NOT_REG_SEARCHING" | "phase_state Before_Data = REG_HOME"

definition radio_idle :: "modem \<Rightarrow> bool" where
  "radio_idle m \<longleftrightarrow> md_tasks m = [] \<and> md_reg m = no_registration \<and> md_data m = []"

definition radio_inv :: "modem \<Rightarrow> bool" where
  "radio_inv m \<longleftrightarrow> (md_radio m \<noteq> RADIO_ON \<longrightarrow> radio_idle m) \<and> (md_data m \<noteq> [] \<longrightarrow> nr_state (md_reg m) = REG_HOME)
     \<and> (md_tasks m \<noteq> [] \<longrightarrow> md_data m = []
          \<and> (\<exists>t ph. md_task m = Some t \<and> md_tasks m = [(t, ph)] \<and> nr_state (md_reg m) = phase_state ph))"

lemma radio_inv_on: "radio_inv m \<Longrightarrow> md_radio m \<noteq> RADIO_ON \<Longrightarrow> radio_inv (power_on aes m)"
  by (cases "snd (hal_active_profile aes m)")
    (auto simp: radio_inv_def radio_idle_def power_on_absent power_on_active no_registration_def)

lemma radio_inv_off: "radio_inv m \<Longrightarrow> radio_inv (power_off m) \<and> radio_idle (power_off m)"
  by (cases "md_tasks m = []") (auto simp: radio_inv_def radio_idle_def power_off_def dict_del_def split: option.split)

lemma radio_inv_phase:
  assumes "radio_inv m"
  shows "radio_inv (registration_phase nitz t m)"
proof (cases "map_of (md_tasks m) t")
  case None
  with assms show ?thesis by (simp add: registration_phase_def)
next
  case (Some ph)
  then have i: "md_radio m = RADIO_ON" "md_data m = []" "md_task m = Some t" "md_tasks m = [(t, ph)]" "nr_state (md_reg m) = phase_state ph"
    using assms by (auto simp: radio_inv_def radio_idle_def split: if_splits)
  show ?thesis
    by (cases ph) (auto simp: registration_phase_def radio_inv_def i dict_del_def)
qed

lemma radio_run_inv: "radio_run aes m0 m \<Longrightarrow> radio_idle m0 \<Longrightarrow> radio_inv m"
proof (induction rule: radio_run.induct)
  case (other m m')
  then show ?case by (auto simp: radio_inv_def radio_idle_def same_radio_def)
qed (auto simp: set_radio_power_def radio_inv_phase radio_inv_on radio_inv_off, auto simp: radio_inv_def radio_idle_def)


text \<open>
  And when it is switched on with an enabled profile on the card, three phases of its task bring it to the home
  network of that profile on LTE with one data call; without a profile the card is reported absent
  and nothing is started.
\<close>

theorem registration_completes:
  assumes "radio_idle m"
  shows "case snd (hal_active_profile aes m) of
      None \<Rightarrow> power_on aes m = m\<lparr>md_radio := RADIO_ON, md_card_state := 0\<rparr>
    | Some p \<Rightarrow> (let t = md_next_task m; m' = registration_phase nitz t (registration_phase nitz t (registration_phase nitz t (power_on aes m)))
        in md_radio m' = RADIO_ON \<and> md_card_state m' = 1 \<and> md_data m' = [new_data_call] \<and> md_tasks m' = []
         \<and> md_reg m' = \<lparr>nr_state = REG_HOME, nr_rat = RAT_LTE, nr_mcc = dict_get p ''mcc'' (JStr []), nr_mnc = dict_get p ''mnc'' (JStr []),
              nr_lac = 1, nr_cid = 0x101\<rparr>)"
proof (cases "snd (hal_active_profile aes m)")
  case None
  then show ?thesis by (simp add: power_on_absent)
next
  case (Some p)
  note on = power_on_active [OF Some]
  show ?thesis using assms
    by (simp add: Some Let_def registration_phase_def on radio_idle_def no_registration_def dict_del_def)
qed

text \<open>
  What the discipline is needed for. The bridge switches the radio on when it starts; when
  Android switches it on again and then off, only the second registration task is cancelled: the first goes on,
  and a radio that is off ends up registered in the home network with a data call.
\<close>

theorem power_off_leaves_registration:
  assumes "radio_idle m" "snd (hal_active_profile aes m) = Some p"
  shows "let t = md_next_task m; off = set_radio_power aes False (set_radio_power aes True (power_on aes m));
      m' = registration_phase nitz t (registration_phase nitz t (registration_phase nitz t off))
    in md_radio m' = RADIO_OFF \<and> nr_state (md_reg m') = REG_HOME \<and> md_data m' = [new_data_call]"
proof -
  have "snd (hal_active_profile aes (power_on aes m)) = Some p"
    using active_same [of "power_on aes m" m aes] power_on_active(8,9) [OF assms(2)] assms(2) by simp
  note on = power_on_active [OF assms(2)] power_on_active [OF this]
  show ?thesis using assms(1)
    by (simp add: set_radio_power_def power_off_def Let_def registration_phase_def on radio_idle_def dict_del_def)
qed

section \<open>Sample runs\<close>

lemma sample_active: "snd (hal_active_profile sample_aes sample_modem) = Some (to_summary sample_isdp)"
proof -
  let ?x = "[(''type'', JStr ''profiles''), (''data'', JArr [JObj (to_summary sample_isdp)])] :: dict"
  have l: "sendable LIST" by (intro conjunct1 [OF sized_ok]) (simp_all add: LIST_def dict_ok_def)
  have x: "receivable ?x"
    by (intro conjunct2 [OF sized_ok]) (simp_all add: dict_ok_def to_summary_def sample_isdp_def)
  have p: "process_message sample_aes LIST (md_daemon sample_modem) = (md_daemon sample_modem, Inr ?x)"
    by (simp add: process_message_def LIST_def dict_get_def list_profiles_def require_ready_def)
      (simp add: sample_handler_def new_handler_def)
  have "send_euicc_message sample_aes True LIST (md_daemon sample_modem) = (md_daemon sample_modem, ?x)"
    using exchange [OF l p] x by simp
  then show ?thesis
    by (simp add: hal_active_profile_def euicc_message_def flip: LIST_def)
      (simp add: profile_list_def dict_get_def, simp add: to_summary_def sample_isdp_def)
qed

lemma sample_idle: "radio_idle sample_modem" "md_radio sample_modem \<noteq> RADIO_ON" "md_next_task sample_modem = 0"
  by (simp_all add: radio_idle_def sample_modem_def new_modem_def)


theorem registration_completes_witness:
  "md_data (registration_phase ''t'' 0 (registration_phase ''t'' 0 (registration_phase ''t'' 0 (power_on sample_aes sample_modem)))) = [new_data_call]"
  using registration_completes [OF sample_idle(1), of sample_aes "''t''"] by (simp add: sample_active sample_idle(3) Let_def)

theorem power_off_leaves_registration_witness:
  "md_radio (registration_phase ''t'' 0 (registration_phase ''t'' 0 (registration_phase ''t'' 0
     (set_radio_power sample_aes False (set_radio_power sample_aes True (power_on sample_aes sample_modem)))))) = RADIO_OFF"
  using power_off_leaves_registration [OF sample_idle(1) sample_active, of "''t''"] by (simp add: sample_idle(3) Let_def)

end
