(* ===== verification/Ril_Messages.thy ===== *)
theory Ril_Messages
  imports Ril_Radio
begin

text \<open>
  What reaches Android unasked: indications at every connected client, and the SMS messages among
  them. And the files of the SIM, which Android reads with SIM_IO.
\<close>

section \<open>Indications\<close>

definition unsol_frame :: "int \<Rightarrow> dict \<Rightarrow> bytes" where
  "unsol_frame n d = frame (message_bytes (ril_dict (unsol_message n d)))"

lemma fold_write:
  assumes "distinct ks"
  shows "md_clients (fold (\<lambda>k m. write_client k out m) ks m) = map (\<lambda>(j, w). (j, if j \<in> set ks then w @ out else w)) (md_clients m)"
  using assms
proof (induction ks arbitrary: m)
  case (Cons k ks)
  show ?case using Cons.prems
    by (simp add: Cons.IH) (auto simp: write_client_def)
qed simp

lemma broadcast_frames:
  assumes "dict_ok (md_clients m)" "framable (message_bytes (ril_dict (unsol_message n d)))"
  shows "md_clients (broadcast_unsolicited n d m) = map (\<lambda>(k, w). (k, w @ unsol_frame n d)) (md_clients m)"
proof -
  have s: "ril_serialize (unsol_message n d) = Inr (unsol_frame n d)"
    using assms(2) by (simp add: ril_serialize_def unsol_frame_def to_frame_ok flip: message_bytes_def)
  have "broadcast_unsolicited n d m = fold (\<lambda>k m. write_client k (unsol_frame n d) m) (map fst (md_clients m)) m"
    by (simp add: broadcast_unsolicited_def send_unsolicited_def s)
  then show ?thesis
    using assms(1) by (simp add: fold_write dict_ok_def) (force intro!: map_cong)
qed

lemma indication_frames:
  assumes "r_callback (md_phone m)" "dict_ok (md_clients m)" "framable (message_bytes (ril_dict (unsol_message n d)))"
  shows "md_clients (send_indication n d m) = map (\<lambda>(k, w). (k, w @ unsol_frame n d)) (md_clients m)"
  using broadcast_frames [OF _ assms(3), of "m\<lparr>md_phone := indicate n d (md_phone m)\<rparr>"] assms(1,2)
  by (simp add: send_indication_def with_phone_def indicate_def deliver_indications_def)

section \<open>An SMS for Android\<close>

lemma gsm7_code_subst: "gsm7_code (gsm7_subst c) = gsm7_code c"
proof (cases "c \<noteq> 27 \<and> c \<in> set GSM7_BASIC")
  case False
  have "gsm7_subst 63 = 63" by (simp add: gsm7_subst_def)
  then have "GSM7_BASIC ! gsm7_code 63 = GSM7_BASIC ! gsm7_code c"
    using gsm7_code_lookup [of 63] gsm7_code_lookup [of c] False by (simp add: gsm7_subst_def)
  moreover have "distinct GSM7_BASIC" "length GSM7_BASIC = 128" by (simp_all add: GSM7_BASIC_def)
  ultimately have "gsm7_code 63 = gsm7_code c"
    using nth_eq_iff_index_eq [of GSM7_BASIC "gsm7_code 63" "gsm7_code c"] gsm7_code_lookup [of 63] gsm7_code_lookup [of c] by metis
  with False show ?thesis by (auto simp: gsm7_subst_def)
qed (simp add: gsm7_subst_def)

lemma encode_subst: "encode_gsm7 (map gsm7_subst t) = encode_gsm7 t"
  by (simp add: encode_gsm7_def gsm7_code_subst comp_def)

lemma subst_text: "gsm7_text (map gsm7_subst t)"
proof -
  have "63 \<in> set GSM7_BASIC" by (simp add: GSM7_BASIC_def)
  then show ?thesis by (auto simp: gsm7_text_def gsm7_subst_def list_all_iff)
qed

lemma create_parsed:
  assumes "phone_ok from" "length t < 256" "length scts = 7"
  obtains tpdu d d' where "deliver_to_bytes (create_deliver from t GSM_7BIT scts) = Inr (d', tpdu)" "deliver_from_bytes tpdu = Inr d"
    "originator d = address_international from" "timestamp d = scts" "del_text d = map gsm7_subst t" "length tpdu < 1000"
proof -
  let ?s = "map gsm7_subst t"
  let ?d = "(create_deliver from ?s GSM_7BIT scts)\<lparr>del_ud := encode_gsm7 ?s\<rparr>"
  have ok: "deliver_ok ?d"
    using assms international_ok [OF assms(1)] subst_text [of t]
    by (simp add: deliver_ok_def create_deliver_def new_deliver_def user_data_ok_def)
  have e: "?d\<lparr>del_ud := []\<rparr> = create_deliver from ?s GSM_7BIT scts" by (simp add: create_deliver_def new_deliver_def)
  obtain bs where b: "deliver_to_bytes (create_deliver from ?s GSM_7BIT scts) = Inr (?d, bs)" "deliver_from_bytes bs = Inr ?d"
    using deliver_roundtrip_filled [OF ok, of "[]"] e by (auto simp: create_deliver_def new_deliver_def)
  have w: "write_user_data GSM_7BIT t [] = write_user_data GSM_7BIT ?s []"
    by (cases "t = []") (simp_all add: write_user_data_def fill_user_data_def user_data_length_def encode_subst)
  have "\<exists>d'. deliver_to_bytes (create_deliver from t GSM_7BIT scts) = Inr (d', bs)"
    using b(1) w by (auto simp: deliver_to_bytes_def create_deliver_def new_deliver_def rbind_eq_Inr deliver_flags_def Let_def)
  moreover have "length bs < 1000"
  proof -
    obtain oa ud tl where p: "bs = [word_of_int (deliver_flags (create_deliver from ?s GSM_7BIT scts))] @ oa @ [0, 0] @ scts @ tl"
        "address_to_bytes (address_international from) = Inr oa" "write_user_data GSM_7BIT ?s [] = Inr (ud, tl)"
      using b(1) assms(3) by (auto simp: deliver_to_bytes_def create_deliver_def new_deliver_def rbind_eq_Inr Let_def mk_byte_def split: if_splits)
    have "length (filter (\<lambda>c. c \<noteq> 43) (dropWhile (\<lambda>c. c = 43) from)) \<le> length from"
      using length_filter_le [of _ "dropWhile (\<lambda>c. c = 43) from"] length_dropWhile_le [of "\<lambda>c. c = 43" "from"] le_trans by blast
    moreover have "\<exists>x. sms_encode_bcd (filter (\<lambda>c. c \<noteq> 43) (dropWhile (\<lambda>c. c = 43) from)) = Inr x
        \<and> length x = (length (filter (\<lambda>c. c \<noteq> 43) (dropWhile (\<lambda>c. c = 43) from)) + 1) div 2"
      using assms(1) sms_bcd_roundtrip [of "filter (\<lambda>c. c \<noteq> 43) (dropWhile (\<lambda>c. c = 43) from)"]
      by (auto simp: phone_ok_def digit_text_def list_all_iff)
    ultimately have "length oa < 300"
      using p(2) assms(1) by (auto simp: address_to_bytes_def address_international_def rbind_eq_Inr phone_ok_def Let_def)
    moreover have "length tl < 300"
      using p(3) assms(2) length_encode_gsm7 [of t]
      by (auto simp: write_user_data_def fill_user_data_def rbind_eq_Inr encode_subst split: if_splits)
    ultimately show ?thesis using assms(3) by (simp add: p(1))
  qed
  ultimately show thesis using that b(2) by (auto simp: create_deliver_def new_deliver_def)
qed

lemma sms_indicated:
  assumes "phone_ok from" "length t < 256" "length scts = 7" "r_callback (md_phone m)" "dict_ok (md_clients m)"
  obtains pdu tpdu d where "parse_pdu_from_ril pdu = Inr ([], tpdu)" "deliver_from_bytes tpdu = Inr d"
    "originator d = address_international from" "timestamp d = scts" "del_text d = map gsm7_subst t"
    "deliver_incoming_sms scts from t m = (send_indication 1003 [(''pdu'', JStr pdu)] m, Inr ())"
    "md_clients (send_indication 1003 [(''pdu'', JStr pdu)] m) = map (\<lambda>(k, w). (k, w @ unsol_frame 1003 [(''pdu'', JStr pdu)])) (md_clients m)"
proof -
  obtain tpdu d d' where c: "deliver_to_bytes (create_deliver from t GSM_7BIT scts) = Inr (d', tpdu)" "deliver_from_bytes tpdu = Inr d"
      "originator d = address_international from" "timestamp d = scts" "del_text d = map gsm7_subst t" "length tpdu < 1000"
    using create_parsed [OF assms(1-3)] by blast
  obtain pdu where b: "build_pdu_for_ril tpdu [] = Inr pdu" "length pdu \<le> 2100"
    using c(6) by (simp add: build_pdu_for_ril_def)
  have "framable (message_bytes (ril_dict (unsol_message 1003 [(''pdu'', JStr pdu)])))"
    using b(2) sized_ok [of "ril_dict (unsol_message 1003 [(''pdu'', JStr pdu)])"]
    by (simp add: ril_dict_def unsol_message_def receivable_def framable_def dict_ok_def)
  note fr = indication_frames [OF assms(4,5) this]
  have "deliver_incoming_sms scts from t m = (send_indication 1003 [(''pdu'', JStr pdu)] m, Inr ())"
    by (simp add: deliver_incoming_sms_def c(1) b(1))
  then show thesis using that [OF ril_pdu_parsed [OF _ b(1)] c(2-5) _ fr] by simp
qed

text \<open>
  C24: an SMS text reaches Android. Every connected client gets exactly one more frame, the indication
  of a new SMS, whose PDU Android's reading parses to the sender in international form, the time
  stamp, and the text with each character that is not of the GSM 7-bit alphabet replaced by a
  question mark.
\<close>

theorem sms_to_android:
  assumes "phone_ok from" "length t < 256" "length scts = 7" "r_callback (md_phone m)" "dict_ok (md_clients m)"
  shows "\<exists>m' pdu tpdu d. deliver_incoming_sms scts from t m = (m', Inr ())
    \<and> md_clients m' = map (\<lambda>(k, w). (k, w @ unsol_frame 1003 [(''pdu'', JStr pdu)])) (md_clients m)
    \<and> parse_pdu_from_ril pdu = Inr ([], tpdu) \<and> deliver_from_bytes tpdu = Inr d
    \<and> originator d = address_international from \<and> timestamp d = scts \<and> del_text d = map gsm7_subst t"
  using sms_indicated [OF assms] by metis

theorem sms_to_android_witness:
  "\<exists>m' pdu. deliver_incoming_sms [0, 0, 0, 0, 0, 0, 0] [49, 50] [72, 105, 0x4F60]
       (sample_modem\<lparr>md_phone := (md_phone sample_modem)\<lparr>r_callback := True\<rparr>, md_clients := [(0, [1])]\<rparr>) = (m', Inr ())
     \<and> md_clients m' = [(0, 1 # unsol_frame 1003 [(''pdu'', JStr pdu)])]"
proof -
  let ?m = "sample_modem\<lparr>md_phone := (md_phone sample_modem)\<lparr>r_callback := True\<rparr>, md_clients := [(0, [1 :: byte])]\<rparr>"
  have "phone_ok [49, 50]" by (simp add: phone_ok_def digit_text_def)
  then show ?thesis
    using sms_to_android [of "[49, 50]" "[72, 105, 0x4F60]" "[0, 0, 0, 0, 0, 0, 0]" ?m] by (auto simp: dict_ok_def)
qed

section \<open>The files of the SIM\<close>

text \<open>A SIM_IO request as Android makes it; \<open>file_id\<close> is any JSON value.\<close>

definition io_request :: "json \<Rightarrow> json \<Rightarrow> int \<Rightarrow> int \<Rightarrow> int \<Rightarrow> int \<Rightarrow> string \<Rightarrow> ril_message" where
  "io_request serial file_id command a b l data = \<lparr>rm_type = JInt 0, rm_serial = serial, rm_id = JInt 28,
     rm_data = JObj [(''fileId'', file_id), (''command'', JInt command), (''p1'', JInt a), (''p2'', JInt b), (''p3'', JInt l), (''data'', JStr data)]\<rparr>"

definition io_bytes :: "int \<Rightarrow> int \<Rightarrow> int \<Rightarrow> int \<Rightarrow> bytes \<Rightarrow> bytes" where
  "io_bytes command a b l data = [0, word_of_int command, word_of_int a, word_of_int b] @ (if l > 0 then [word_of_int l] else []) @ data"

lemma io_hex:
  assumes "0 \<le> c" "c < 256" "0 \<le> a" "a < 256" "0 \<le> b" "b < 256" "0 \<le> l" "l < 256"
  shows "''00'' @ fmt_02x c @ fmt_02x a @ fmt_02x b @ (if l > 0 then fmt_02x l else []) @ hex_of data = hex_of (io_bytes c a b l data)"
  using assms hex_of_append [of "[0]"] by (simp add: fmt_byte hex_consts io_bytes_def) (simp add: hex_of_def)

lemma io_step:
  assumes "0 \<le> c" "c < 256" "0 \<le> a" "a < 256" "0 \<le> b" "b < 256" "0 \<le> l" "l < 256" "length data \<le> 1000"
    and "md_up m" "process_apdu aes (io_bytes c a b l data) (dm_card (md_daemon m)) = (h, r)" "sw_ok r" "length (rdata r) \<le> 4000"
  shows "process_request aes net (io_request serial file_id c a b l (hex_of data)) m =
    (m\<lparr>md_daemon := (md_daemon m)\<lparr>dm_card := h\<rparr>\<rparr>, Ret (ril_reply (io_request serial file_id c a b l (hex_of data)) (sim_reply r)))"
proof -
  have "length (hex_of (io_bytes c a b l data)) \<le> 4000" using assms(9) by (simp add: io_bytes_def)
  then have "sim_io aes c a b l (hex_of data) m = (m\<lparr>md_daemon := (md_daemon m)\<lparr>dm_card := h\<rparr>\<rparr>, Inr (sim_reply r))"
    using hal_apdu [OF assms(10) _ assms(11,12) _ assms(13)] sim_result_answer [OF assms(12), of "''9000''"]
    by (simp add: sim_io_def io_hex [OF assms(1-8)] sim_reply_def del: append_Cons)
  then show ?thesis
    by (simp add: process_request_def io_request_def request_of_def ril_ids_def given_def ril_handler_def as_dict_def handle_sim_io_def
        jint_def jstr_def dict_get_def effect_run cbind_def)
qed

lemma read_selected:
  assumes "selected_ef h = f" "get_active_profile (h_euicc h) = Some p" "0 < n" "n < 256"
  shows "process_apdu aes (io_bytes 0xB0 0 0 n []) h = (h, case f of None \<Rightarrow> respond [] SW_CONDITIONS_NOT_SATISFIED
    | Some ef \<Rightarrow> (case read_ef ef p of Inl _ \<Rightarrow> respond [] SW_INTERNAL_ERROR
      | Inr None \<Rightarrow> respond [] SW_NOT_FOUND | Inr (Some d) \<Rightarrow> respond (take (nat n) d) SW_OK))"
proof -
  have u: "uint (word_of_int n :: byte) = n" using assms(3,4) by (simp add: uint_word_of_int)
  then have le: "le_of (word_of_int n) = n" using assms(3) by (simp add: le_of_def)
  show ?thesis using assms
    by (cases f; cases "case f of Some ef \<Rightarrow> read_ef ef p | None \<Rightarrow> Inr None")
      (auto simp: io_bytes_def process_apdu_def apdu_from_bytes_def le dispatch_apdu_def handle_read_binary_def Let_def split: option.split)
qed

text \<open>
  Reading a file of the SIM. After a SELECT of EF_IMSI through the RIL, a READ BINARY of \<open>n\<close> bytes
  returns the first \<open>n\<close> bytes of the encoded IMSI of the active profile and status 9000, whatever file the request itself names: the
  bridge does not pass the file's number on. For the same reason a READ BINARY on a card on which
  nothing is selected is refused with 6985, which is what Android's own requests get.
\<close>

theorem sim_io_reads_selected:
  assumes "md_up m" "get_active_profile (daemon_euicc (md_daemon m)) = Some p" "isdp_ok p" "0 < n" "n < 256"
  shows "\<exists>bs m'. decode_imsi bs = imsi p
    \<and> process_request aes net (io_request s file_id 0xA4 0 4 2 ''6f07'') m =
        (m', Ret (ril_reply (io_request s file_id 0xA4 0 4 2 ''6f07'') (sim_reply (respond [] SW_OK))))
    \<and> process_request aes net (io_request s' file_id' 0xB0 0 0 n []) m' =
        (m', Ret (ril_reply (io_request s' file_id' 0xB0 0 0 n []) (sim_reply (respond (take (nat n) bs) SW_OK))))
    \<and> (selected_ef (dm_card (md_daemon m)) = None \<longrightarrow>
        process_request aes net (io_request s' file_id' 0xB0 0 0 n []) m =
        (m, Ret (ril_reply (io_request s' file_id' 0xB0 0 0 n []) (sim_reply (respond [] SW_CONDITIONS_NOT_SATISFIED)))))"
proof -
  obtain t bs where t: "ef_table p = Inr t" "map_of t EF_IMSI = Some bs" "decode_imsi bs = imsi p"
    using ef_table_total [OF assms(3)] by metis
  then have r: "read_ef EF_IMSI p = Inr (Some bs)" by (simp add: read_ef_def)
  let ?h = "dm_card (md_daemon m)"
  have p: "get_active_profile (h_euicc ?h) = Some p" using assms(2) by (simp add: daemon_euicc_def)
  define h' where "h' = ?h\<lparr>selected_ef := Some EF_IMSI\<rparr>"
  define m' where "m' = m\<lparr>md_daemon := (md_daemon m)\<lparr>dm_card := h'\<rparr>\<rparr>"
  have "hex_of [0x6F, 0x07] = ''6f07''" "hex_of [] = []"
    by (simp_all add: hex_of_def hex_byte_def hex_digit_def char_of_eq_iff take_bit_eq_mod)
  note x = this [symmetric]
  have ok: "sw_ok (respond d SW_OK)" "sw_ok (respond d SW_CONDITIONS_NOT_SATISFIED)" for d
    by (simp_all add: sw_ok_def SW_OK_def SW_CONDITIONS_NOT_SATISFIED_def)
  have sel: "process_apdu aes (io_bytes 0xA4 0 4 2 [0x6F, 0x07]) ?h = (h', respond [] SW_OK)"
    by (simp add: io_bytes_def process_apdu_def apdu_from_bytes_def Let_def slice_def dispatch_apdu_def handle_select_def h'_def EF_IMSI_def)
  have one: "process_request aes net (io_request s file_id 0xA4 0 4 2 ''6f07'') m =
        (m', Ret (ril_reply (io_request s file_id 0xA4 0 4 2 ''6f07'') (sim_reply (respond [] SW_OK))))"
    unfolding x(1) m'_def by (rule io_step [OF _ _ _ _ _ _ _ _ _ assms(1) sel ok(1)]) simp_all
  have up: "md_up m'" using assms(1) by (simp add: m'_def)
  have "process_apdu aes (io_bytes 0xB0 0 0 n []) (dm_card (md_daemon m')) = (h', respond (take (nat n) bs) SW_OK)"
    using read_selected [of h' "Some EF_IMSI" p n aes] p r assms(4,5) by (simp add: m'_def h'_def)
  note io_step [OF _ _ _ _ _ _ _ _ _ up this ok(1)]
  from this [of net s' file_id'] have two: "process_request aes net (io_request s' file_id' 0xB0 0 0 n []) m' =
        (m', Ret (ril_reply (io_request s' file_id' 0xB0 0 0 n []) (sim_reply (respond (take (nat n) bs) SW_OK))))"
    using assms(4,5) by (simp add: m'_def flip: x(2))
  have "process_request aes net (io_request s' file_id' 0xB0 0 0 n []) m =
        (m, Ret (ril_reply (io_request s' file_id' 0xB0 0 0 n []) (sim_reply (respond [] SW_CONDITIONS_NOT_SATISFIED))))"
    if "selected_ef ?h = None"
    using io_step [OF _ _ _ _ _ _ _ _ _ assms(1), where data = "[]" and r = "respond [] SW_CONDITIONS_NOT_SATISFIED"] that
      read_selected [OF that p assms(4,5), of aes] ok(2) assms(4,5) by (simp flip: x(2))
  with one two t(3) show ?thesis by (intro exI [of _ bs] exI [of _ m'] conjI impI)
qed

theorem sim_io_reads_selected_witness:
  "\<exists>bs m'. decode_imsi bs = ''001010000000001''
     \<and> process_request sample_aes (\<lambda>_. Inl TimeoutError) (io_request (JInt 2) (JInt EF_ICCID) 0xB0 0 0 9 []) m' =
        (m', Ret (ril_reply (io_request (JInt 2) (JInt EF_ICCID) 0xB0 0 0 9 []) (sim_reply (respond (take 9 bs) SW_OK))))"
proof -
  have "isdp_ok sample_isdp" by (simp add: isdp_ok_def sample_isdp_def is_digit_def lstrip_plus_def)
  moreover have "imsi sample_isdp = ''001010000000001''" by (simp add: sample_isdp_def)
  moreover have "get_active_profile (daemon_euicc (md_daemon sample_modem)) = Some sample_isdp" using sample_handler_active(1) by simp
  ultimately show ?thesis
    using sim_io_reads_selected [OF sample_modem_simps(1), of sample_isdp 9 sample_aes "\<lambda>_. Inl TimeoutError" "JInt 1" "JInt 0" "JInt 2" "JInt EF_ICCID"]
    by auto
qed

end
