(* ===== verification/Base64.thy ===== *)
theory Base64
  imports Json_Text
begin

text \<open>
  \<^verbatim>\<open>base64.b64encode(b).decode()\<close> and \<^verbatim>\<open>base64.b64decode(s)\<close> of Python's library, for the fields of
  the provisioning messages. The decoder is the lenient one: characters outside the alphabet are
  skipped, and what follows a complete padding is not looked at.
\<close>

definition b64_alphabet :: string where
  "b64_alphabet = ''ABCDEFGHIJKLMNOPQRSTUVWXYZabcdefghijklmnopqrstuvwxyz0123456789+/''"

definition b64_char :: "nat \<Rightarrow> char" where
  "b64_char n = b64_alphabet ! n"

fun index_from :: "nat \<Rightarrow> 'a \<Rightarrow> 'a list \<Rightarrow> nat option" where
  "index_from n x [] = None"
| "index_from n x (y # ys) = (if x = y then Some n else index_from (n + 1) x ys)"

definition b64_value :: "char \<Rightarrow> nat option" where
  "b64_value c = index_from 0 c b64_alphabet"

fun b64encode :: "bytes \<Rightarrow> string" where
  "b64encode [] = []"
| "b64encode [a] = (let x = unat a in [b64_char (x div 4), b64_char (x mod 4 * 16), CHR ''='', CHR ''=''])"
| "b64encode [a, b] = (let x = unat a; y = unat b in
     [b64_char (x div 4), b64_char (x mod 4 * 16 + y div 16), b64_char (y mod 16 * 4), CHR ''=''])"
| "b64encode (a # b # c # r) = (let x = unat a; y = unat b; z = unat c in
     [b64_char (x div 4), b64_char (x mod 4 * 16 + y div 16), b64_char (y mod 16 * 4 + z div 64), b64_char (z mod 64)] @ b64encode r)"

text \<open>
  \<open>q\<close> characters of a group of four have been read, \<open>left\<close> are the bits of the last one that are
  not in a byte yet, and \<open>pads\<close> counts the padding characters since.
\<close>

fun a2b :: "string \<Rightarrow> nat \<Rightarrow> nat \<Rightarrow> nat \<Rightarrow> bytes res" where
  "a2b [] q pads left = (if q = 0 then Inr [] else Inl ValueError)"
| "a2b (c # s) q pads left =
     (if c = CHR ''='' then if q \<ge> 2 \<and> q + pads + 1 \<ge> 4 then Inr [] else a2b s q (if q \<ge> 2 then pads + 1 else pads) left
      else case b64_value c of
        None \<Rightarrow> a2b s q pads left
      | Some v \<Rightarrow>
          if q = 0 then a2b s 1 0 v
          else if q = 1 then rbind (a2b s 2 0 (v mod 16)) (\<lambda>bs. Inr (word_of_nat (left * 4 + v div 16) # bs))
          else if q = 2 then rbind (a2b s 3 0 (v mod 4)) (\<lambda>bs. Inr (word_of_nat (left * 16 + v div 4) # bs))
          else rbind (a2b s 0 0 0) (\<lambda>bs. Inr (word_of_nat (left * 64 + v) # bs)))"

definition b64decode :: "string \<Rightarrow> bytes res" where
  "b64decode s = (if list_all (\<lambda>c. of_char c < (128 :: nat)) s then a2b s 0 0 0 else Inl ValueError)"

lemma b64_table: "list_all (\<lambda>n. b64_value (b64_char n) = Some n \<and> b64_char n \<noteq> CHR ''='' \<and> of_char (b64_char n) < (128 :: nat)) [0..<64]"
  by code_simp

lemma b64_char [simp]: "n < 64 \<Longrightarrow> b64_value (b64_char n) = Some n" "n < 64 \<Longrightarrow> b64_char n \<noteq> CHR ''=''"
  "n < 64 \<Longrightarrow> of_char (b64_char n) < (128 :: nat)"
  using b64_table by (simp_all add: list_all_iff)

lemma b64_parts [simp]: "unat (b :: byte) div 4 < 64" "unat (b :: byte) div 16 < 16" "unat (b :: byte) div 64 < 4"
  using unsigned_less [of b] by (simp_all add: less_mult_imp_div_less)

lemma b64_sums [simp]: "x < 4 \<Longrightarrow> y < 16 \<Longrightarrow> x * 16 + y < (64 :: nat)" "x < 16 \<Longrightarrow> y < 4 \<Longrightarrow> x * 4 + y < (64 :: nat)"
  by simp_all

lemma byte_split [simp]:
  "word_of_nat (unat (b :: byte) div 4 * 4 + unat b mod 4) = b" "word_of_nat (unat (b :: byte) div 16 * 16 + unat b mod 16) = b"
  "word_of_nat (unat (b :: byte) div 64 * 64 + unat b mod 64) = b"
  by (simp_all only: div_mult_mod_eq of_nat_unat unsigned_ucast_eq ucast_id)

lemma a2b_encode: "a2b (b64encode bs) 0 0 0 = Inr bs"
proof (induction bs rule: b64encode.induct)
  case (4 a b c r)
  have "(unat a mod 4 * 16 + unat b div 16) div 16 = unat a mod 4" "(unat a mod 4 * 16 + unat b div 16) mod 16 = unat b div 16"
    "(unat b mod 16 * 4 + unat c div 64) div 4 = unat b mod 16" "(unat b mod 16 * 4 + unat c div 64) mod 4 = unat c div 64"
    by simp_all
  with 4 show ?case by (simp add: Let_def)
next
  case (3 a b)
  have "(unat a mod 4 * 16 + unat b div 16) div 16 = unat a mod 4" "(unat a mod 4 * 16 + unat b div 16) mod 16 = unat b div 16" by simp_all
  then show ?case by (simp add: Let_def)
qed (simp_all add: Let_def)

lemma ascii_encode: "list_all (\<lambda>c. of_char c < (128 :: nat)) (b64encode bs)"
  by (induction bs rule: b64encode.induct) (simp_all add: Let_def)

text \<open>What is sent in a field arrives as it was.\<close>

lemma b64decode_encode [simp]: "b64decode (b64encode bs) = Inr bs"
  by (simp add: b64decode_def a2b_encode ascii_encode)

end
