(* ===== verification/Rsp.thy ===== *)
theory Rsp
  imports Daemon Base64 Pystr
begin

text \<open>
  Remote SIM provisioning: the data of \<^verbatim>\<open>rsp/asn1/rsp_definitions.py\<close>, the requests to an SM-DP+ of
  \<^verbatim>\<open>rsp/es9plus.py\<close> and the requests to the card of \<^verbatim>\<open>rsp/es10.py\<close>. A request to the SM-DP+ is a wait:
  its outcome is the exception of the HTTP client or of \<^verbatim>\<open>raise_for_status\<close>, or an accepted
  response with what its \<^verbatim>\<open>json()\<close> gives. An exchange with the eUICC daemon is a single step.
\<close>

section \<open>Data\<close>

datatype result_code = OK | SUBJECT_UNKNOWN | INSUFFICIENT_MEMORY | ALREADY_INSTALLED | NOT_FOUND | REFUSED
  | CONFIRMATION_CODE_REQUIRED | WRONG_CONFIRMATION_CODE | INSTALL_FAILED | INTERNAL_ERROR

fun code_number :: "result_code \<Rightarrow> int" where
  "code_number OK = 0" | "code_number SUBJECT_UNKNOWN = 1" | "code_number INSUFFICIENT_MEMORY = 2" | "code_number ALREADY_INSTALLED = 3"
| "code_number NOT_FOUND = 4" | "code_number REFUSED = 5" | "code_number CONFIRMATION_CODE_REQUIRED = 6"
| "code_number WRONG_CONFIRMATION_CODE = 7" | "code_number INSTALL_FAILED = 8" | "code_number INTERNAL_ERROR = 127"

text \<open>Identifiers that come out of an answer are not checked: they are JSON values.\<close>

record server_signed1 =
  ss_transaction :: json
  ss_challenge :: bytes
  ss_address :: string
  ss_server_challenge :: bytes

record server_response =
  sr_transaction :: json
  sr_signed1 :: server_signed1
  sr_signature1 :: bytes
  sr_ci_pk_id :: bytes
  sr_certificate :: bytes

record prepare_response =
  pd_transaction :: json
  pd_hash_cc :: "bytes option"
  pd_signed2 :: bytes
  pd_signature2 :: bytes

record profile_package =
  bp_secure_channel :: bytes
  bp_first_87 :: bytes
  bp_sequence_88 :: bytes
  bp_metadata :: json

definition new_package :: "json \<Rightarrow> profile_package" where
  "new_package metadata = \<lparr>bp_secure_channel = [], bp_first_87 = [], bp_sequence_88 = [], bp_metadata = metadata\<rparr>"

record install_result =
  ir_transaction :: json
  ir_iccid :: json
  ir_code :: result_code
  ir_reason :: json

text \<open>The EID as decimal digits, the first of a pair in the high nibble.\<close>

fun encode_eid :: "string \<Rightarrow> bytes res" where
  "encode_eid [] = Inr []"
| "encode_eid [a] = rbind (int_char a) (\<lambda>d1. Inr [semi_octet 15 d1])"
| "encode_eid (a # b # r) = rbind (int_char a) (\<lambda>d1. rbind (int_char b) (\<lambda>d2. rbind (encode_eid r) (\<lambda>bs. Inr (semi_octet d2 d1 # bs))))"

fun decode_eid :: "bytes \<Rightarrow> string" where
  "decode_eid [] = []"
| "decode_eid (b # bs) = dec_nat (unat b div 16) @ (if unat b mod 16 \<noteq> 15 then dec_nat (unat b mod 16) else []) @ decode_eid bs"

lemma eid_roundtrip: "all_digits s \<Longrightarrow> \<exists>bs. encode_eid s = Inr bs \<and> decode_eid bs = s"
proof (induction s rule: encode_eid.induct)
  case (3 a b r)
  then obtain bs where "encode_eid r = Inr bs" "decode_eid bs = r" by (auto simp: int_char_digit)
  with 3 show ?case using is_digit_bound [of a] is_digit_bound [of b]
    by (simp add: int_char_digit dec_nat.simps digit_char_of)
next
  case (2 a)
  then show ?case using is_digit_bound [of a] by (simp add: int_char_digit dec_nat.simps digit_char_of)
qed simp

section \<open>The state\<close>

datatype lpa_state = IDLE | AUTHENTICATING | DOWNLOADING | INSTALLING | ERROR

text \<open>
  The LPA, the daemon it talks to, and the world: \<open>rs_http\<close> are the HTTP clients with the address
  each is for and whether it is open, \<open>rs_posts\<close> what was posted, \<open>rs_random\<close> the challenges that
  \<^verbatim>\<open>os.urandom\<close> draws, \<open>rs_out\<close> what was written to the clients of the service.
\<close>

record rsp =
  rs_state :: lpa_state
  rs_transaction :: "json option"
  rs_daemon :: daemon
  rs_up :: bool
  rs_http :: "(string \<times> bool) list"
  rs_posts :: "(string \<times> dict) list"
  rs_random :: "nat \<Rightarrow> bytes"
  rs_draws :: nat
  rs_out :: "nat \<Rightarrow> bytes"

definition new_rsp :: "daemon \<Rightarrow> bool \<Rightarrow> (nat \<Rightarrow> bytes) \<Rightarrow> rsp" where
  "new_rsp d up random = \<lparr>rs_state = IDLE, rs_transaction = None, rs_daemon = d, rs_up = up, rs_http = [], rs_posts = [],
     rs_random = random, rs_draws = 0, rs_out = (\<lambda>_. [])\<rparr>"

type_synonym http_answer = "json res res"
type_synonym 'a lrun = "(rsp, http_answer, 'a) proc"

section \<open>ES9+\<close>

definition EP_INITIATE_AUTH :: string where "EP_INITIATE_AUTH = ''/gsma/rsp2/es9plus/initiateAuthentication''"
definition EP_AUTH_CLIENT :: string where "EP_AUTH_CLIENT = ''/gsma/rsp2/es9plus/authenticateClient''"
definition EP_GET_BPP :: string where "EP_GET_BPP = ''/gsma/rsp2/es9plus/getBoundProfilePackage''"
definition EP_HANDLE_NOTIFICATION :: string where "EP_HANDLE_NOTIFICATION = ''/gsma/rsp2/es9plus/handleNotification''"
definition EP_CANCEL_SESSION :: string where "EP_CANCEL_SESSION = ''/gsma/rsp2/es9plus/cancelSession''"

text \<open>An \<^verbatim>\<open>ES9PlusClient\<close>; its HTTP client is opened by the first request.\<close>

definition new_es9 :: "string \<Rightarrow> nat lrun" where
  "new_es9 address = read (\<lambda>s. seq (Coroutine.act (\<lambda>s. s\<lparr>rs_http := rs_http s @ [(address, False)]\<rparr>)) (ret (length (rs_http s))))"

definition set_open :: "nat \<Rightarrow> bool \<Rightarrow> rsp \<Rightarrow> rsp" where
  "set_open i b s = s\<lparr>rs_http := (rs_http s)[i := (fst (rs_http s ! i), b)]\<rparr>"

definition es9_close :: "nat \<Rightarrow> unit lrun" where
  "es9_close i = Coroutine.act (set_open i False)"

text \<open>\<^verbatim>\<open>smdp_address or self.config.smdp_address\<close>.\<close>

definition es9_address :: "nat \<Rightarrow> string \<Rightarrow> rsp \<Rightarrow> string" where
  "es9_address i address s = (if address \<noteq> [] then address else fst (rs_http s ! i))"

definition http_post :: "nat \<Rightarrow> string \<Rightarrow> dict \<Rightarrow> json res lrun" where
  "http_post i url payload s =
     ((set_open i True s)\<lparr>rs_posts := rs_posts s @ [(url, payload)]\<rparr>, Wait (length (rs_posts s)) (\<lambda>r. given r ret))"

definition post_json :: "nat \<Rightarrow> string \<Rightarrow> dict \<Rightarrow> json lrun" where
  "post_json i url payload = cbind (http_post i url payload) (\<lambda>body. given body ret)"

definition opt_b64 :: "json \<Rightarrow> bytes res" where
  "opt_b64 j = (if json_true j then rbind (as_str j) b64decode else Inr [])"

definition b64_field :: "dict \<Rightarrow> string \<Rightarrow> bytes res" where
  "b64_field d k = rbind (jstr d k []) b64decode"

definition parse_initiate :: "bytes \<Rightarrow> string \<Rightarrow> json \<Rightarrow> server_response res" where
  "parse_initiate challenge address j =
     rbind (as_dict j) (\<lambda>d.
     rbind (as_dict (dict_get d ''header'' (JObj []))) (\<lambda>h.
     rbind (as_dict (dict_get h ''functionExecutionStatus'' (JObj []))) (\<lambda>f.
     rbind (as_dict (dict_get f ''status'' (JObj []))) (\<lambda>_.
     rbind (b64_field d ''serverChallenge'') (\<lambda>server_challenge.
     rbind (opt_b64 (dict_get d ''serverSignature1'' (JStr []))) (\<lambda>signature.
     rbind (opt_b64 (dict_get d ''euiccCiPKIdToBeUsed'' JNull)) (\<lambda>ci.
     rbind (opt_b64 (dict_get d ''serverCertificate'' (JStr []))) (\<lambda>certificate.
     let txn = dict_get d ''transactionId'' (JStr []) in
     Inr \<lparr>sr_transaction = txn, sr_signed1 = \<lparr>ss_transaction = txn, ss_challenge = challenge, ss_address = address,
            ss_server_challenge = server_challenge\<rparr>, sr_signature1 = signature, sr_ci_pk_id = ci, sr_certificate = certificate\<rparr>))))))))"

definition initiate_authentication :: "nat \<Rightarrow> bytes \<Rightarrow> bytes \<Rightarrow> string \<Rightarrow> server_response lrun" where
  "initiate_authentication i challenge svn smdp = read (\<lambda>s. let address = es9_address i smdp s in
     if address = [] then throw ValueError
     else cbind (post_json i (''https://'' @ address @ EP_INITIATE_AUTH)
         [(''euiccChallenge'', JStr (b64encode challenge)), (''euiccInfo1'', JObj [(''svn'', JStr (b64encode svn))]), (''smdpAddress'', JStr address)])
       (\<lambda>j. given (parse_initiate challenge address j) ret))"

definition authenticate_client :: "nat \<Rightarrow> json \<Rightarrow> bytes \<Rightarrow> string \<Rightarrow> json lrun" where
  "authenticate_client i txn response smdp = read (\<lambda>s.
     post_json i (''https://'' @ es9_address i smdp s @ EP_AUTH_CLIENT)
       [(''transactionId'', txn), (''authenticateServerResponse'', JStr (b64encode response))])"

definition parse_package :: "json \<Rightarrow> profile_package res" where
  "parse_package j =
     rbind (as_dict j) (\<lambda>d.
     rbind (b64_field d ''initialiseSecureChannelRequest'') (\<lambda>channel.
     rbind (b64_field d ''firstSequenceOf87'') (\<lambda>first.
     rbind (b64_field d ''sequenceOf88'') (\<lambda>sequence.
     Inr \<lparr>bp_secure_channel = channel, bp_first_87 = first, bp_sequence_88 = sequence, bp_metadata = dict_get d ''profileMetadata'' JNull\<rparr>))))"

definition get_bound_profile_package :: "nat \<Rightarrow> json \<Rightarrow> bytes \<Rightarrow> string \<Rightarrow> profile_package lrun" where
  "get_bound_profile_package i txn response smdp = read (\<lambda>s.
     cbind (post_json i (''https://'' @ es9_address i smdp s @ EP_GET_BPP)
         [(''transactionId'', txn), (''prepareDownloadResponse'', JStr (b64encode response))])
       (\<lambda>j. given (parse_package j) ret))"

definition handle_notification :: "nat \<Rightarrow> bytes \<Rightarrow> string \<Rightarrow> unit lrun" where
  "handle_notification i notification smdp = read (\<lambda>s.
     ignore (http_post i (''https://'' @ es9_address i smdp s @ EP_HANDLE_NOTIFICATION) [(''pendingNotification'', JStr (b64encode notification))]))"

definition cancel_session :: "nat \<Rightarrow> json \<Rightarrow> int \<Rightarrow> string \<Rightarrow> unit lrun" where
  "cancel_session i txn reason smdp = read (\<lambda>s.
     ignore (http_post i (''https://'' @ es9_address i smdp s @ EP_CANCEL_SESSION)
       [(''transactionId'', txn), (''cancelSessionResponse'', JObj [(''transactionId'', txn), (''cancelSessionReason'', JInt reason)])]))"

section \<open>ES10\<close>

definition es10_send :: "aes \<Rightarrow> dict \<Rightarrow> dict lrun" where
  "es10_send aes msg = effect (\<lambda>s. case socket_exchange aes (rs_up s) msg (rs_daemon s) of (d, r) \<Rightarrow> (s\<lparr>rs_daemon := d\<rparr>, r))"

definition es10_field :: "aes \<Rightarrow> dict \<Rightarrow> string \<Rightarrow> json \<Rightarrow> json lrun" where
  "es10_field aes msg k dflt = cbind (es10_send aes msg) (\<lambda>resp. ret (dict_get resp k dflt))"

definition get_euicc_info1 :: "aes \<Rightarrow> bytes lrun" where
  "get_euicc_info1 aes = seq (es10_field aes [(''type'', JStr ''get_info'')] ''data'' (JObj [])) (ret [2, 5, 0])"

definition get_euicc_info2 :: "aes \<Rightarrow> json lrun" where
  "get_euicc_info2 aes = es10_field aes [(''type'', JStr ''get_info'')] ''data'' (JObj [])"

definition es10_get_eid :: "aes \<Rightarrow> json lrun" where
  "es10_get_eid aes = cbind (get_euicc_info2 aes) (\<lambda>j. given (as_dict j) (\<lambda>d. ret (dict_get d ''eid'' (JStr []))))"

definition prepare_download :: "aes \<Rightarrow> json \<Rightarrow> bytes option \<Rightarrow> bytes \<Rightarrow> bytes \<Rightarrow> prepare_response lrun" where
  "prepare_download aes txn hash_cc signed2 signature2 =
     seq (es10_send aes [(''type'', JStr ''apdu''), (''data'', JStr ''00E2000000'')])
       (ret \<lparr>pd_transaction = txn, pd_hash_cc = hash_cc, pd_signed2 = signed2, pd_signature2 = signature2\<rparr>)"

definition load_bound_profile_package :: "aes \<Rightarrow> profile_package \<Rightarrow> install_result lrun" where
  "load_bound_profile_package aes bpp =
     (if json_true (bp_metadata bpp) then
        cbind (es10_send aes [(''type'', JStr ''install_profile''), (''profile'', bp_metadata bpp)]) (\<lambda>resp.
          if json_true (dict_get resp ''success'' JNull) then
            given (as_dict (bp_metadata bpp)) (\<lambda>m. ret \<lparr>ir_transaction = dict_get m ''transaction_id'' (JStr []),
              ir_iccid = dict_get resp ''iccid'' JNull, ir_code = OK, ir_reason = JNull\<rparr>)
          else ret \<lparr>ir_transaction = JStr [], ir_iccid = JNull, ir_code = INSTALL_FAILED, ir_reason = dict_get resp ''error'' (JStr ''Unknown error'')\<rparr>)
      else ret \<lparr>ir_transaction = JStr [], ir_iccid = JNull, ir_code = INTERNAL_ERROR, ir_reason = JStr ''No profile metadata in BPP''\<rparr>)"

definition get_profiles_info :: "aes \<Rightarrow> json lrun" where
  "get_profiles_info aes = es10_field aes [(''type'', JStr ''list_profiles'')] ''data'' (JArr [])"

definition profile_command :: "string \<Rightarrow> aes \<Rightarrow> json \<Rightarrow> json lrun" where
  "profile_command t aes i = es10_field aes [(''type'', JStr t), (''iccid'', i)] ''success'' (JBool False)"

definition es10_enable_profile :: "aes \<Rightarrow> json \<Rightarrow> json lrun" where "es10_enable_profile = profile_command ''enable_profile''"
definition es10_disable_profile :: "aes \<Rightarrow> json \<Rightarrow> json lrun" where "es10_disable_profile = profile_command ''disable_profile''"
definition es10_delete_profile :: "aes \<Rightarrow> json \<Rightarrow> json lrun" where "es10_delete_profile = profile_command ''delete_profile''"

definition get_euicc_challenge :: "bytes lrun" where
  "get_euicc_challenge = read (\<lambda>s. seq (Coroutine.act (\<lambda>s. s\<lparr>rs_draws := rs_draws s + 1\<rparr>)) (ret (rs_random s (rs_draws s))))"

definition send_apdu :: "aes \<Rightarrow> string \<Rightarrow> dict lrun" where
  "send_apdu aes hex = es10_send aes [(''type'', JStr ''apdu''), (''data'', JStr hex)]"

end
