(* ===== verification/Lpa.thy ===== *)
theory Lpa
  imports Rsp
begin

text \<open>
  \<^verbatim>\<open>rsp/lpa.py\<close>: the Local Profile Assistant. A download goes through four requests to the SM-DP+ of
  the activation code, with the card's part between them; other clients of the service run during
  each of the four waits.
\<close>

section \<open>Activation codes\<close>

record activation_code =
  ac_smdp :: string
  ac_matching :: string
  ac_oid :: string

definition text_of :: "ustr \<Rightarrow> string" where
  "text_of = map char_of"

definition part :: "nat \<Rightarrow> ustr list \<Rightarrow> string" where
  "part i parts = (if length parts > i then text_of (parts ! i) else [])"

text \<open>\<^verbatim>\<open>code.strip()\<close> of a value that is not a text is an AttributeError.\<close>

definition parse_activation_code :: "json \<Rightarrow> activation_code res" where
  "parse_activation_code code = (case code of
     JStr s \<Rightarrow> let parts = split_on [36] (strip (ustr s)) in
       if length parts < 2 \<or> parts ! 0 \<noteq> [49] then Inl ValueError
       else Inr \<lparr>ac_smdp = part 1 parts, ac_matching = part 2 parts, ac_oid = part 3 parts\<rparr>
   | _ \<Rightarrow> Inl AttributeError)"

lemma text_of_ustr [simp]: "text_of (ustr s) = s"
  by (induction s) (simp_all add: text_of_def ustr_simps)

text \<open>An activation code is taken apart as it was put together.\<close>

lemma activation_code_read:
  assumes "CHR ''$'' \<notin> set a" "CHR ''$'' \<notin> set i" "i = [] \<or> \<not> is_white (of_char (last i))"
  shows "parse_activation_code (JStr (''1$'' @ a @ ''$'' @ i)) = Inr \<lparr>ac_smdp = a, ac_matching = i, ac_oid = []\<rparr>"
proof -
  let ?s = "[49] @ [36] @ ustr a @ [36] @ ustr i"
  have u: "ustr (''1$'' @ a @ ''$'' @ i) = ?s" by (simp add: ustr_append ustr_simps)
  have free: "\<not> contains [36] (ustr x)" if "CHR ''$'' \<notin> set x" for x
  proof -
    have "(36 :: nat) \<noteq> of_char c" if "c \<in> set x" for c
    proof
      assume "(36 :: nat) = of_char c"
      then have "CHR ''$'' = c" by (intro of_char_eqI [where 'a = nat]) simp
      with that \<open>CHR ''$'' \<notin> set x\<close> show False by simp
    qed
    then have "(36 :: nat) \<notin> of_char ` set x" by blast
    then show ?thesis by (simp only: contains_char ustr_def set_map not_False_eq_True)
  qed
  have one: "\<not> contains [36] [49]" by (simp add: contains_char)
  have "split_on [36] ?s = [[49], ustr a, ustr i]"
    using separator_head [of 36 "[]"]
    by (simp only: separator.split_front [OF _ one] separator.split_front [OF _ free [OF assms(1)]] separator.split_free [OF _ free [OF assms(2)]] list.set empty_iff not_False_eq_True)
  moreover have "stripped is_white ?s"
    using assms(3) by (cases "i = []") (auto simp: stripped_def is_white_def ustr_def last_map)
  ultimately show ?thesis
    by (simp add: parse_activation_code_def u strip_def strip_of_id part_def del: append_Cons append_Nil)
qed

section \<open>The download\<close>

definition set_lpa_state :: "lpa_state \<Rightarrow> unit lrun" where
  "set_lpa_state x = Coroutine.act (\<lambda>s. s\<lparr>rs_state := x\<rparr>)"

definition set_transaction :: "json option \<Rightarrow> unit lrun" where
  "set_transaction t = Coroutine.act (\<lambda>s. s\<lparr>rs_transaction := t\<rparr>)"

definition notification_bytes :: "json \<Rightarrow> install_result \<Rightarrow> bytes" where
  "notification_bytes txn r = json_bytes (JObj [(''transaction_id'', txn), (''result'', JInt (code_number (ir_code r))), (''iccid'', ir_iccid r)])"

definition install_dict :: "install_result \<Rightarrow> dict" where
  "install_dict r = [(''success'', JBool (code_number (ir_code r) = 0)), (''iccid'', ir_iccid r), (''result_code'', JInt (code_number (ir_code r)))]"

text \<open>After the card's part: the result is reported to the SM-DP+, and only then counts.\<close>

definition finish_download :: "nat \<Rightarrow> string \<Rightarrow> json \<Rightarrow> install_result \<Rightarrow> dict lrun" where
  "finish_download i address txn r =
     seq (handle_notification i (notification_bytes txn r) address)
     (seq (set_lpa_state IDLE) (seq (set_transaction None) (ret (install_dict r))))"

definition install_package :: "aes \<Rightarrow> nat \<Rightarrow> string \<Rightarrow> json \<Rightarrow> dict lrun" where
  "install_package aes i address txn =
     seq (prepare_download aes txn None [] [])
     (cbind (get_bound_profile_package i txn [] address) (\<lambda>bpp.
     seq (set_lpa_state INSTALLING)
     (cbind (load_bound_profile_package aes bpp) (finish_download i address txn))))"

definition download_session :: "aes \<Rightarrow> nat \<Rightarrow> string \<Rightarrow> dict lrun" where
  "download_session aes i address =
     cbind get_euicc_challenge (\<lambda>challenge.
     cbind (get_euicc_info1 aes) (\<lambda>svn.
     cbind (initiate_authentication i challenge svn address) (\<lambda>auth.
     seq (set_transaction (Some (sr_transaction auth)))
     (seq (set_lpa_state DOWNLOADING)
     (seq (authenticate_client i (sr_transaction auth) challenge address)
     (install_package aes i address (sr_transaction auth)))))))"

text \<open>\<^verbatim>\<open>try ... finally: await es9.close()\<close>.\<close>

definition with_es9 :: "string \<Rightarrow> (nat \<Rightarrow> 'a lrun) \<Rightarrow> 'a lrun" where
  "with_es9 address body = cbind (new_es9 address) (\<lambda>i. cbind (attempt (body i)) (\<lambda>r. seq (es9_close i) (given r ret)))"

text \<open>\<open>etext\<close> is the text of an exception. The confirmation code is accepted and not used.\<close>

definition download_profile :: "(exn \<Rightarrow> string) \<Rightarrow> aes \<Rightarrow> json \<Rightarrow> json \<Rightarrow> dict lrun" where
  "download_profile etext aes code confirmation =
     cbind (attempt (seq (set_lpa_state AUTHENTICATING) (given (parse_activation_code code) (\<lambda>ac.
         with_es9 (ac_smdp ac) (\<lambda>i. download_session aes i (ac_smdp ac))))))
       (\<lambda>r. case r of Inr d \<Rightarrow> ret d
         | Inl e \<Rightarrow> seq (set_lpa_state ERROR) (ret [(''success'', JBool False), (''error'', JStr (etext e))]))"

definition lpa_install_direct :: "aes \<Rightarrow> json \<Rightarrow> dict lrun" where
  "lpa_install_direct aes profile = given (as_dict profile) (\<lambda>_.
     cbind (load_bound_profile_package aes (new_package profile)) (\<lambda>r. ret (install_dict r)))"

text \<open>\<^verbatim>\<open>initialize\<close>: the card's data, an object for the log line.\<close>

definition lpa_initialize :: "aes \<Rightarrow> dict lrun" where
  "lpa_initialize aes = cbind (get_euicc_info2 aes) (\<lambda>j. given (as_dict j) ret)"

section \<open>Every run of a download\<close>

definition reported :: "dict \<Rightarrow> rsp \<Rightarrow> bool" where
  "reported d s \<longleftrightarrow> (\<exists>r. d = install_dict r) \<and> rs_state s = IDLE \<and> rs_transaction s = None"

definition http_closed :: "nat \<Rightarrow> rsp \<Rightarrow> bool" where
  "http_closed n s \<longleftrightarrow> (n < length (rs_http s) \<longrightarrow> \<not> snd (rs_http s ! n))"

lemma http_closed_set [simp]: "http_closed n (set_open n False s)" "reported d (set_open n b s) = reported d s"
  by (simp_all add: http_closed_def reported_def set_open_def)

lemma http_closed_state [simp]: "http_closed n (s\<lparr>rs_state := x\<rparr>) = http_closed n s"
  by (simp add: http_closed_def)

lemma session_settles: "settles (\<lambda>s d. reported d s) (\<lambda>_ _. True) (download_session aes i address s)"
proof -
  have "settles (\<lambda>s d. reported d s) (\<lambda>_ _. True) (finish_download i a txn r s)" for a txn r s
    unfolding finish_download_def
    by (rule settles_then) (auto simp: set_lpa_state_def set_transaction_def reported_def)
  then show ?thesis unfolding download_session_def install_package_def by (intro settles_then) simp_all
qed

lemma with_es9_settles:
  assumes "\<And>i s. settles (\<lambda>s d. reported d s) (\<lambda>_ _. True) (body i s)"
  shows "settles (\<lambda>s d. reported d s \<and> http_closed (length (rs_http s0)) s) (\<lambda>s _. http_closed (length (rs_http s0)) s) (with_es9 address body s0)"
proof -
  let ?n = "length (rs_http s0)"
  have "settles (\<lambda>s d. reported d s \<and> http_closed ?n s) (\<lambda>s _. http_closed ?n s)
      (cbind (attempt (body ?n)) (\<lambda>r. seq (es9_close ?n) (given r ret)) s)" for s
    by (rule settles_bind [OF settles_attempt [OF assms, where R' = "\<lambda>s r. case r of Inl _ \<Rightarrow> True | Inr d \<Rightarrow> reported d s"]])
      (auto simp: es9_close_def given_def split: sum.split)
  then show ?thesis by (simp add: with_es9_def new_es9_def cbind_assoc cbind_def [of "read _"])
qed

lemma download_within: "within 4 (download_profile etext aes code confirmation)"
proof -
  have post: "within 1 (http_post i url d)" for i url d
    by (simp add: within_def http_post_def given_def split: sum.split)
  then have pj: "within 1 (post_json i url d)" for i url d
    unfolding post_json_def by (intro within_then1 within_given within_base)
  have base: "within 0 (es10_send aes msg)" "within 0 (set_lpa_state x)" "within 0 (set_transaction t)" "within 0 get_euicc_challenge"
    "within 0 (new_es9 a)" "within 0 (es9_close i)" for msg x t a i
    by (auto simp: es10_send_def set_lpa_state_def set_transaction_def get_euicc_challenge_def new_es9_def es9_close_def intro!: waiting)
  have zero: "within 0 (get_euicc_info1 aes)" "within 0 (prepare_download aes txn h x y)" "within 0 (load_bound_profile_package aes bpp)" for txn h x y bpp
    by (auto simp: get_euicc_info1_def es10_field_def prepare_download_def load_bound_profile_package_def intro!: waiting base)
  have fin: "within 1 (finish_download i a txn r)" for i a txn r
    unfolding finish_download_def handle_notification_def
    by (rule within_then [of 1 _ 0]) (auto intro!: waiting post base simp del: One_nat_def)
  have pkg: "within 2 (install_package aes i a txn)" for i a txn
  proof -
    have "within 1 (get_bound_profile_package i txn [] a)"
      unfolding get_bound_profile_package_def by (intro waiting within_then1 pj)
    moreover have "within 1 (seq (set_lpa_state INSTALLING) (cbind (load_bound_profile_package aes bpp) (finish_download i a txn)))" for bpp
      by (intro within_bind0 base zero fin)
    ultimately show ?thesis unfolding install_package_def by (intro within_bind0 [OF zero(2)] within_then [of 1 _ 1 _ 2]) simp_all
  qed
  have ses: "within 4 (download_session aes i a)" for i a
  proof -
    have "within 1 (initiate_authentication i c v a)" "within 1 (authenticate_client i txn c a)" for c v txn
      unfolding initiate_authentication_def authenticate_client_def Let_def
      by (auto intro!: waiting within_then1 pj simp del: One_nat_def)
    then show ?thesis unfolding download_session_def
      by (intro within_bind0 base zero within_then [of 1 _ 3 _ 4] within_then [of 1 _ 2 _ 3] pkg) simp_all
  qed
  have w: "within 4 (with_es9 a body)" if "\<And>i. within 4 (body i)" for a and body :: "nat \<Rightarrow> dict lrun"
    unfolding with_es9_def
    by (rule within_bind0 [OF base(5)], rule within_then1, rule within_attempt, rule that)
      (auto intro!: waiting base)
  have p: "within 4 (seq (set_lpa_state AUTHENTICATING) (given (parse_activation_code code) (\<lambda>ac. with_es9 (ac_smdp ac) (\<lambda>i. download_session aes i (ac_smdp ac)))))"
    by (intro within_bind0 base within_given w ses)
  show ?thesis
    unfolding download_profile_def
  proof (rule within_then1 [OF within_attempt [OF p]])
    fix x :: "dict res"
    show "within 0 (case x of Inr d \<Rightarrow> ret d | Inl e \<Rightarrow> seq (set_lpa_state ERROR) (ret [(''success'', JBool False), (''error'', JStr (etext e))]))"
      by (cases x) (auto intro!: waiting base)
  qed
qed

text \<open>
  A download always comes to an end, after at most four waits for the SM-DP+, and never raises,
  whatever the activation code is, whatever the server answers or fails to, and whatever other clients do
  to the LPA and the card meanwhile. It leaves the LPA idle without a transaction and reports the card's
  result, or it leaves it in the error state and reports the error; and its HTTP client is closed.
\<close>

theorem download_ends:
  "within 4 (download_profile etext aes code confirmation)
   \<and> settles (\<lambda>s d. (reported d s \<or> rs_state s = ERROR \<and> (\<exists>e. d = [(''success'', JBool False), (''error'', JStr (etext e))]))
        \<and> http_closed (length (rs_http s0)) s) (\<lambda>_ _. False) (download_profile etext aes code confirmation s0)"
proof
  show "within 4 (download_profile etext aes code confirmation)" by (rule download_within)
  let ?n = "length (rs_http s0)"
  have a: "settles (\<lambda>s d. reported d s \<and> http_closed ?n s) (\<lambda>s _. http_closed ?n s)
      (seq (set_lpa_state AUTHENTICATING) (given (parse_activation_code code) (\<lambda>ac. with_es9 (ac_smdp ac) (\<lambda>i. download_session aes i (ac_smdp ac)))) s0)"
  proof (cases "parse_activation_code code")
    case (Inl e)
    then show ?thesis by (simp add: set_lpa_state_def given_def http_closed_def)
  next
    case (Inr ac)
    then show ?thesis
      using with_es9_settles [of "\<lambda>i. download_session aes i (ac_smdp ac)" "s0\<lparr>rs_state := AUTHENTICATING\<rparr>" "ac_smdp ac", OF session_settles]
      by (simp add: set_lpa_state_def given_def)
  qed
  show "settles (\<lambda>s d. (reported d s \<or> rs_state s = ERROR \<and> (\<exists>e. d = [(''success'', JBool False), (''error'', JStr (etext e))]))
        \<and> http_closed ?n s) (\<lambda>_ _. False) (download_profile etext aes code confirmation s0)"
    unfolding download_profile_def
    by (rule settles_bind, rule settles_attempt [where R' = "\<lambda>s r. http_closed ?n s \<and> (case r of Inl _ \<Rightarrow> True | Inr d \<Rightarrow> reported d s)"], rule a)
      (auto simp: set_lpa_state_def split: sum.splits)
qed

end
