(* ===== verification/Lpa_Download.thy ===== *)
theory Lpa_Download
  imports Lpa
begin

text \<open>
  A profile download that runs alone: what reaches the SM-DP+, what happens to the card and what is
  reported, for every outcome of the last step.
\<close>

section \<open>The steps\<close>

lemma es10_result:
  assumes "rs_up s" "sendable msg" "process_message aes msg (rs_daemon s) = (d', r)" "\<And>x. r = Inr x \<Longrightarrow> receivable x"
  shows "es10_send aes msg s = (s\<lparr>rs_daemon := d'\<rparr>, case r of Inl _ \<Rightarrow> Exc EOFError | Inr x \<Rightarrow> Ret x)"
  using exchange_result [OF assms(2,3,4)] assms(1) by (simp add: es10_send_def effect_run split: sum.split)

lemma es10_ok:
  assumes "rs_up s" "sendable msg" "process_message aes msg (rs_daemon s) = (d', Inr x)" "receivable x"
  shows "es10_send aes msg s = (s\<lparr>rs_daemon := d'\<rparr>, Ret x)"
  using es10_result [OF assms(1-3)] assms(4) by simp

definition INFO :: dict where "INFO = [(''type'', JStr ''get_info'')]"

definition info_answer :: "daemon \<Rightarrow> dict" where
  "info_answer d = [(''type'', JStr ''info''), (''data'', JObj (get_euicc_info (daemon_euicc d)))]"

lemma info_message: "sendable INFO" "process_message aes INFO d = (d, Inr (info_answer d))"
proof -
  show "sendable INFO" by (intro conjunct1 [OF sized_ok]) (simp_all add: INFO_def dict_ok_def)
qed (simp add: process_message_def INFO_def info_answer_def dict_get_def)

definition STORE :: dict where "STORE = [(''type'', JStr ''apdu''), (''data'', JStr ''00E2000000'')]"

definition store_answer :: dict where
  "store_answer = [(''type'', JStr ''apdu_response''), (''data'', JStr ''9000''), (''sw'', JStr ''9000'')]"

lemma store_message: "sendable STORE" "process_message aes STORE d = (d, Inr store_answer)" "receivable store_answer"
proof -
  have f: "fromhex ''00E2000000'' = Inr [0, 0xE2, 0, 0, 0]" by (simp add: is_space_def hex_value_def Let_def)
  have p: "process_apdu aes [0, 0xE2, 0, 0, 0] h = (h, respond [] SW_OK)" for h
    by (simp add: process_apdu_def apdu_from_bytes_def dispatch_apdu_def handle_store_data_def)
  have b: "response_to_bytes (respond [] SW_OK) = Inr [0x90, 0]" "status_word (respond [] SW_OK) = ''9000''"
    by (simp_all add: response_to_bytes_def SW_OK_def mk_byte_def status_word_def fmt_02X_def fmt_02x_def hex_nat.simps hex_digit_def upper_char_def
        char_of_eq_iff Let_def)
  have x: "hex_of [0x90, 0] = ''9000''"
    by (simp add: hex_of_def hex_byte_def hex_digit_def char_of_eq_iff take_bit_eq_mod)
  show "process_message aes STORE d = (d, Inr store_answer)"
    by (simp add: process_message_def STORE_def process_apdu_message_def jstr_def dict_get_def f p b x store_answer_def del: fromhex.simps)
  show "sendable STORE" by (intro conjunct1 [OF sized_ok]) (simp_all add: STORE_def dict_ok_def)
  show "receivable store_answer" by (intro conjunct2 [OF sized_ok]) (simp_all add: store_answer_def dict_ok_def)
qed

lemma read_then: "cbind (read m) k s = cbind (m s) k s"
  by (simp add: cbind_def)

text \<open>What a request leaves: the HTTP client open, and the request among the posts.\<close>

definition posted :: "nat \<Rightarrow> string \<Rightarrow> dict \<Rightarrow> rsp \<Rightarrow> rsp" where
  "posted i url d s = (set_open i True s)\<lparr>rs_posts := rs_posts s @ [(url, d)]\<rparr>"

lemma post_then: "run_with (Inr b # rs) (cbind (http_post i url d) k s) = run_with rs (k b (posted i url d s))"
  "run_with [Inl e] (cbind (http_post i url d) k s) = Some (posted i url d s, Inl e)"
  by (simp_all add: http_post_def posted_def given_def cbind_def)

lemma post_json_then: "run_with (Inr (Inr j) # rs) (cbind (post_json i url d) k s) = run_with rs (k j (posted i url d s))"
  by (simp add: post_json_def cbind_assoc post_then) (simp add: given_def)

lemma post_json_run: "run_with [Inr (Inr j)] (post_json i url d s) = Some (posted i url d s, Inr j)"
  by (simp add: post_json_def post_then) (simp add: given_def)

definition auth_payload :: "bytes \<Rightarrow> string \<Rightarrow> dict" where
  "auth_payload challenge address = [(''euiccChallenge'', JStr (b64encode challenge)),
     (''euiccInfo1'', JObj [(''svn'', JStr (b64encode [2, 5, 0]))]), (''smdpAddress'', JStr address)]"

lemma steps:
  assumes "address \<noteq> []"
  shows "parse_initiate challenge address j = Inr auth \<Longrightarrow> run_with (Inr (Inr j) # rs) (cbind (initiate_authentication i challenge [2, 5, 0] address) k s)
      = run_with rs (k auth (posted i (''https://'' @ address @ EP_INITIATE_AUTH) (auth_payload challenge address) s))"
    and "run_with (Inr (Inr j) # rs) (cbind (authenticate_client i txn response address) l s)
      = run_with rs (l j (posted i (''https://'' @ address @ EP_AUTH_CLIENT) [(''transactionId'', txn), (''authenticateServerResponse'', JStr (b64encode response))] s))"
    and "parse_package j = Inr bpp \<Longrightarrow> run_with (Inr (Inr j) # rs) (cbind (get_bound_profile_package i txn [] address) n s)
      = run_with rs (n bpp (posted i (''https://'' @ address @ EP_GET_BPP) [(''transactionId'', txn), (''prepareDownloadResponse'', JStr [])] s))"
  using assms
  by (simp_all add: read_then cbind_assoc post_json_then initiate_authentication_def authenticate_client_def get_bound_profile_package_def es9_address_def auth_payload_def
      Let_def given_def)

text \<open>What the SM-DP+ is told at the end.\<close>

definition notified :: "nat \<Rightarrow> string \<Rightarrow> json \<Rightarrow> install_result \<Rightarrow> rsp \<Rightarrow> rsp" where
  "notified i address txn r = posted i (''https://'' @ address @ EP_HANDLE_NOTIFICATION)
     [(''pendingNotification'', JStr (b64encode (notification_bytes txn r)))]"

lemma finish_run:
  assumes "address \<noteq> []"
  shows "run_with [Inr b] (finish_download i address txn r s) =
      Some ((notified i address txn r s)\<lparr>rs_state := IDLE, rs_transaction := None\<rparr>, Inr (install_dict r))"
    and "run_with [Inl e] (finish_download i address txn r s) = Some (notified i address txn r s, Inl e)"
  using assms
  by (simp_all add: finish_download_def handle_notification_def es9_address_def ignore_def notified_def post_then read_then cbind_assoc
      set_lpa_state_def set_transaction_def)

section \<open>The whole download\<close>

definition installed :: "dict \<Rightarrow> install_result" where
  "installed package = \<lparr>ir_transaction = dict_get package ''transaction_id'' (JStr []), ir_iccid = dict_get package ''iccid'' JNull,
     ir_code = OK, ir_reason = JNull\<rparr>"

definition download_urls :: "string \<Rightarrow> string list" where
  "download_urls address = map (\<lambda>e. ''https://'' @ address @ e) [EP_INITIATE_AUTH, EP_AUTH_CLIENT, EP_GET_BPP, EP_HANDLE_NOTIFICATION]"

lemma posted_simps [simp]: "rs_up (posted i url d s) = rs_up s" "rs_daemon (posted i url d s) = rs_daemon s"
  "rs_state (posted i url d s) = rs_state s" "rs_transaction (posted i url d s) = rs_transaction s"
  "rs_posts (posted i url d s) = rs_posts s @ [(url, d)]" "rs_random (posted i url d s) = rs_random s" "rs_out (posted i url d s) = rs_out s"
  by (simp_all add: posted_def set_open_def)

lemma load_package:
  assumes "rs_up s" "eu_reach (daemon_euicc (rs_daemon s))" "bp_metadata bpp = JObj package" "package \<noteq> []"
    and "sendable (op_message (Install package (dm_uuids (rs_daemon s) (dm_next (rs_daemon s)))))"
    and "eu_exec (Install package (dm_uuids (rs_daemon s) (dm_next (rs_daemon s)))) (daemon_euicc (rs_daemon s)) = Inr e"
  shows "\<exists>d. load_bound_profile_package aes bpp s = (s\<lparr>rs_daemon := d\<rparr>, Ret (installed package)) \<and> daemon_euicc d = e"
proof -
  let ?op = "Install package (dm_uuids (rs_daemon s) (dm_next (rs_daemon s)))"
  obtain d where d: "process_message aes (op_message ?op) (rs_daemon s) = (d, Inr (op_answer ?op))" "daemon_euicc d = e"
    using process_op [of ?op "rs_daemon s" aes] assms(2,6) by fastforce
  have "es10_send aes [(''type'', JStr ''install_profile''), (''profile'', JObj package)] s = (s\<lparr>rs_daemon := d\<rparr>, Ret (op_answer ?op))"
    using es10_ok [OF assms(1,5) d(1) op_answer_receivable [OF assms(5,6)]] by (simp add: op_message_def)
  then show ?thesis using assms(3,4) d(2)
    by (intro exI [of _ d]) (simp add: load_bound_profile_package_def json_true_def op_answer_def dict_get_def given_def as_dict_def installed_def)
qed

lemma session_run:
  assumes "rs_up s" "receivable (info_answer (rs_daemon s))" "address \<noteq> []" "eu_reach (daemon_euicc (rs_daemon s))"
    and "parse_initiate (rs_random s (rs_draws s)) address j1 = Inr auth" "parse_package j3 = Inr bpp"
    and "bp_metadata bpp = JObj package" "package \<noteq> []"
    and "sendable (op_message (Install package (dm_uuids (rs_daemon s) (dm_next (rs_daemon s)))))"
    and "eu_exec (Install package (dm_uuids (rs_daemon s) (dm_next (rs_daemon s)))) (daemon_euicc (rs_daemon s)) = Inr e"
  shows "\<exists>s'. run_with [Inr (Inr j1), Inr (Inr j2), Inr (Inr j3), a] (download_session aes i address s) =
      Some (s', case a of Inl x \<Rightarrow> Inl x | Inr _ \<Rightarrow> Inr (install_dict (installed package)))
    \<and> daemon_euicc (rs_daemon s') = e \<and> map fst (rs_posts s') = map fst (rs_posts s) @ download_urls address
    \<and> (\<forall>b. a = Inr b \<longrightarrow> rs_state s' = IDLE \<and> rs_transaction s' = None) \<and> rs_up s' \<and> rs_out s' = rs_out s"
proof -
  let ?ch = "rs_random s (rs_draws s)" and ?t = "sr_transaction auth"
  define s1 where "s1 = s\<lparr>rs_draws := Suc (rs_draws s)\<rparr>"
  define s2 where "s2 = (posted i (''https://'' @ address @ EP_INITIATE_AUTH) (auth_payload ?ch address) s1)\<lparr>rs_transaction := Some ?t, rs_state := DOWNLOADING\<rparr>"
  define s3 where "s3 = posted i (''https://'' @ address @ EP_AUTH_CLIENT) [(''transactionId'', ?t), (''authenticateServerResponse'', JStr (b64encode ?ch))] s2"
  define s4 where "s4 = (posted i (''https://'' @ address @ EP_GET_BPP) [(''transactionId'', ?t), (''prepareDownloadResponse'', JStr [])] s3)\<lparr>rs_state := INSTALLING\<rparr>"
  have same: "rs_daemon s1 = rs_daemon s" "rs_up s1" "rs_daemon s2 = rs_daemon s" "rs_up s2" "rs_daemon s3 = rs_daemon s" "rs_up s3"
    "rs_daemon s4 = rs_daemon s" "rs_up s4"
    using assms(1) by (simp_all add: s1_def s2_def s3_def s4_def)
  have info: "get_euicc_info1 aes s1 = (s1, Ret [2, 5, 0])"
    using es10_ok [OF same(2) info_message(1) info_message(2)] assms(2) by (simp add: get_euicc_info1_def es10_field_def same flip: INFO_def)
  have prep: "prepare_download aes ?t None [] [] s3 = (s3, Ret \<lparr>pd_transaction = ?t, pd_hash_cc = None, pd_signed2 = [], pd_signature2 = []\<rparr>)"
    using es10_ok [OF same(6) store_message(1) store_message(2) store_message(3)] by (simp add: prepare_download_def same flip: STORE_def)
  obtain d where d: "load_bound_profile_package aes bpp s4 = (s4\<lparr>rs_daemon := d\<rparr>, Ret (installed package))" "daemon_euicc d = e"
    using load_package [of s4 bpp package e aes] assms same by auto
  have "run_with [Inr (Inr j1), Inr (Inr j2), Inr (Inr j3), a] (download_session aes i address s) =
      run_with [Inr (Inr j2), Inr (Inr j3), a] (seq (authenticate_client i ?t ?ch address) (install_package aes i address ?t) s2)"
    by (simp add: download_session_def get_euicc_challenge_def read_then cbind_assoc info steps(1) [OF assms(3,5)] set_transaction_def set_lpa_state_def flip: s1_def)
      (simp add: s2_def)
  also have "\<dots> = run_with [Inr (Inr j3), a] (install_package aes i address ?t s3)"
    by (simp add: steps(2) [OF assms(3)] s3_def)
  also have "\<dots> = run_with [a] (finish_download i address ?t (installed package) (s4\<lparr>rs_daemon := d\<rparr>))"
    using d(1) by (simp add: install_package_def prep steps(3) [OF assms(3,6)] set_lpa_state_def s4_def)
  finally have run: "run_with [Inr (Inr j1), Inr (Inr j2), Inr (Inr j3), a] (download_session aes i address s) = \<dots>" .
  have urls: "map fst (rs_posts (notified i address ?t (installed package) (s4\<lparr>rs_daemon := d\<rparr>))) = map fst (rs_posts s) @ download_urls address"
    by (simp add: notified_def s4_def s3_def s2_def s1_def download_urls_def)
  have card: "rs_daemon (notified i address ?t (installed package) (s4\<lparr>rs_daemon := d\<rparr>)) = d"
    "rs_up (notified i address ?t (installed package) (s4\<lparr>rs_daemon := d\<rparr>))"
    "rs_out (notified i address ?t (installed package) (s4\<lparr>rs_daemon := d\<rparr>)) = rs_out s"
    using same(8) by (simp_all add: notified_def s4_def s3_def s2_def s1_def)
  show ?thesis
  proof (cases a)
    case (Inl x)
    with run urls card d(2) show ?thesis by (simp add: finish_run [OF assms(3)])
  next
    case (Inr b)
    with run urls card d(2) show ?thesis by (simp add: finish_run [OF assms(3)])
  qed
qed

lemma download_run:
  assumes "rs_up s" "receivable (info_answer (rs_daemon s))" "eu_reach (daemon_euicc (rs_daemon s))"
    and "parse_activation_code code = Inr ac" "ac_smdp ac \<noteq> []"
    and "parse_initiate (rs_random s (rs_draws s)) (ac_smdp ac) j1 = Inr auth" "parse_package j3 = Inr bpp"
    and "bp_metadata bpp = JObj package" "package \<noteq> []" "u = dm_uuids (rs_daemon s) (dm_next (rs_daemon s))"
    and "sendable (op_message (Install package u))" "card_exec (Install package u) (card_view (daemon_euicc (rs_daemon s))) = Inr c"
  shows "\<exists>s'. run_with [Inr (Inr j1), Inr (Inr j2), Inr (Inr j3), a] (download_profile etext aes code confirmation s) =
      Some (s', Inr (case a of Inr _ \<Rightarrow> [(''success'', JBool True), (''iccid'', dict_get package ''iccid'' JNull), (''result_code'', JInt 0)]
        | Inl e \<Rightarrow> [(''success'', JBool False), (''error'', JStr (etext e))]))
    \<and> card_view (daemon_euicc (rs_daemon s')) = c \<and> map fst (rs_posts s') = map fst (rs_posts s) @ download_urls (ac_smdp ac)
    \<and> rs_state s' = (case a of Inr _ \<Rightarrow> IDLE | Inl _ \<Rightarrow> ERROR) \<and> rs_up s' \<and> rs_out s' = rs_out s
    \<and> eu_exec (Install package u) (daemon_euicc (rs_daemon s)) = Inr (daemon_euicc (rs_daemon s'))"
proof -
  let ?rs = "[Inr (Inr j1), Inr (Inr j2), Inr (Inr j3), a]" and ?n = "length (rs_http s)"
  define s1 where "s1 = s\<lparr>rs_state := AUTHENTICATING, rs_http := rs_http s @ [(ac_smdp ac, False)]\<rparr>"
  obtain e where e: "eu_exec (Install package u) (daemon_euicc (rs_daemon s)) = Inr e" "card_view e = c"
    using exec_refines_card [OF assms(3), of "Install package u"] assms(12)
    by (cases "eu_exec (Install package u) (daemon_euicc (rs_daemon s))") auto
  have s1: "rs_up s1" "rs_daemon s1 = rs_daemon s" "rs_random s1 = rs_random s" "rs_draws s1 = rs_draws s" "rs_posts s1 = rs_posts s" "rs_out s1 = rs_out s"
    using assms(1) by (simp_all add: s1_def)
  obtain s2 where s2: "run_with ?rs (download_session aes ?n (ac_smdp ac) s1) = Some (s2, case a of Inl x \<Rightarrow> Inl x | Inr _ \<Rightarrow> Inr (install_dict (installed package)))"
    "daemon_euicc (rs_daemon s2) = e" "map fst (rs_posts s2) = map fst (rs_posts s) @ download_urls (ac_smdp ac)"
    "\<forall>b. a = Inr b \<longrightarrow> rs_state s2 = IDLE \<and> rs_transaction s2 = None" "rs_up s2" "rs_out s2 = rs_out s"
    using session_run [of s1 "ac_smdp ac" j1 auth j3 bpp package e j2 a aes ?n] assms e s1 by (auto simp: assms(10))
  define r where "r = (case a of Inl x \<Rightarrow> Inl x | Inr _ \<Rightarrow> Inr (install_dict (installed package)))"
  have "run_with ?rs (with_es9 (ac_smdp ac) (\<lambda>i. download_session aes i (ac_smdp ac)) (s\<lparr>rs_state := AUTHENTICATING\<rparr>)) = Some (set_open ?n False s2, r)"
    using attempt_then [where m = "download_session aes ?n (ac_smdp ac)" and s = s1 and k = "\<lambda>r. seq (es9_close ?n) (given r ret)", OF s2(1)]
    by (simp add: with_es9_def new_es9_def read_then cbind_assoc flip: s1_def r_def)
      (simp add: s1_def es9_close_def given_def split: sum.split)
  then have "run_with ?rs (seq (set_lpa_state AUTHENTICATING) (given (parse_activation_code code) (\<lambda>ac. with_es9 (ac_smdp ac) (\<lambda>i. download_session aes i (ac_smdp ac)))) s)
      = Some (set_open ?n False s2, r)"
    by (simp add: set_lpa_state_def assms(4) given_def)
  note final = attempt_then [where m = "seq (set_lpa_state AUTHENTICATING) (given (parse_activation_code code) (\<lambda>ac. with_es9 (ac_smdp ac) (\<lambda>i. download_session aes i (ac_smdp ac))))"
      and s = s and k = "\<lambda>r. case r of Inr d \<Rightarrow> ret d
      | Inl e \<Rightarrow> seq (set_lpa_state ERROR) (ret [(''success'', JBool False), (''error'', JStr (etext e))])", OF this]
  show ?thesis
    using final s2(2-6) e
    by (cases a) (simp_all add: download_profile_def r_def set_lpa_state_def set_open_def install_dict_def installed_def)
qed

text \<open>
  C20: a download from an SM-DP+ that answers, whatever it signed: nothing of its signatures, its
  certificate, its challenge or of the confirmation code plays a part. The four requests go to the
  address of the activation code in their order, and the card ends exactly as after the installation
  of the package's metadata. If the SM-DP+ takes the notification, the download reports success and the
  package's ICCID; if the notification fails, the same installed profile is reported as a failed
  download and the LPA is left in its error state.
\<close>

theorem download_installs:
  assumes "rs_up s" "receivable (info_answer (rs_daemon s))" "eu_reach (daemon_euicc (rs_daemon s))"
    and "parse_activation_code code = Inr ac" "ac_smdp ac \<noteq> []"
    and "parse_initiate (rs_random s (rs_draws s)) (ac_smdp ac) j1 = Inr auth" "parse_package j3 = Inr bpp"
    and "bp_metadata bpp = JObj package" "package \<noteq> []" "u = dm_uuids (rs_daemon s) (dm_next (rs_daemon s))"
    and "sendable (op_message (Install package u))" "card_exec (Install package u) (card_view (daemon_euicc (rs_daemon s))) = Inr c"
  shows "\<exists>s'. run_with [Inr (Inr j1), Inr (Inr j2), Inr (Inr j3), a] (download_profile etext aes code confirmation s) =
      Some (s', Inr (case a of Inr _ \<Rightarrow> [(''success'', JBool True), (''iccid'', dict_get package ''iccid'' JNull), (''result_code'', JInt 0)]
        | Inl e \<Rightarrow> [(''success'', JBool False), (''error'', JStr (etext e))]))
    \<and> card_view (daemon_euicc (rs_daemon s')) = c \<and> map fst (rs_posts s') = map fst (rs_posts s) @ download_urls (ac_smdp ac)
    \<and> rs_state s' = (case a of Inr _ \<Rightarrow> IDLE | Inl _ \<Rightarrow> ERROR)"
  using download_run [OF assms] by blast

definition sample_rsp :: rsp where
  "sample_rsp = new_rsp sample_daemon True (\<lambda>_. replicate 16 7)"

definition sample_offer :: json where
  "sample_offer = JObj [(''profileMetadata'', JObj small_package)]"

lemma sample_rsp_fields: "rs_up sample_rsp" "rs_daemon sample_rsp = sample_daemon" "rs_posts sample_rsp = []"
  by (simp_all add: sample_rsp_def new_rsp_def)

lemma offer_install: "sendable (op_message (Install small_package ''aid''))"
  "\<exists>c. card_exec (Install small_package ''aid'') (card_view (daemon_euicc sample_daemon)) = Inr c \<and> inst c ''8901'' \<noteq> None"
proof -
  show "sendable (op_message (Install small_package ''aid''))"
    by (intro conjunct1 [OF sized_ok]) (simp_all add: op_message_def small_package_def dict_ok_def)
  show "\<exists>c. card_exec (Install small_package ''aid'') (card_view (daemon_euicc sample_daemon)) = Inr c \<and> inst c ''8901'' \<noteq> None"
    by (simp add: card_exec_def card_install_def small_package_def json_access make_isdp_def sample_daemon_reach(3)
        initialize_def load_profiles_def new_euicc_def)
qed

lemma sample_info: "receivable (info_answer sample_daemon)"
proof (rule framable_small)
  show "length (json_dumps (JObj (info_answer sample_daemon))) < 256 ^ 4"
    by (rule le_less_trans [OF length_dumps]) (simp add: info_answer_def get_euicc_info_def sample_daemon_reach(3) initialize_def load_profiles_def new_euicc_def)
  show "json_ok (JObj (info_answer sample_daemon))"
    by (simp add: info_answer_def get_euicc_info_def sample_daemon_reach(3) initialize_def load_profiles_def new_euicc_def dict_ok_def)
qed

lemma sample_code: "parse_activation_code (JStr ''1$smdp.test$ID'') = Inr \<lparr>ac_smdp = ''smdp.test'', ac_matching = ''ID'', ac_oid = []\<rparr>"
  using activation_code_read [of "''smdp.test''" "''ID''"] by (simp add: is_white_def)

theorem download_installs_witness:
  "\<exists>s'. run_with [Inr (Inr (JObj [])), Inr (Inr JNull), Inr (Inr sample_offer), Inl TimeoutError]
      (download_profile (\<lambda>_. ''timeout'') sample_aes (JStr ''1$smdp.test$ID'') JNull sample_rsp) =
      Some (s', Inr [(''success'', JBool False), (''error'', JStr ''timeout'')])
    \<and> inst (card_view (daemon_euicc (rs_daemon s'))) ''8901'' \<noteq> None"
proof -
  obtain c where c: "card_exec (Install small_package ''aid'') (card_view (daemon_euicc (rs_daemon sample_rsp))) = Inr c" "inst c ''8901'' \<noteq> None"
    using offer_install(2) by (auto simp: sample_rsp_fields)
  obtain auth where i: "parse_initiate (rs_random sample_rsp (rs_draws sample_rsp)) ''smdp.test'' (JObj []) = Inr auth"
    by (simp add: parse_initiate_def as_dict_def dict_get_def b64_field_def jstr_def opt_b64_def json_true_def b64decode_def Let_def)
  have o: "parse_package sample_offer = Inr (new_package (JObj small_package))"
    by (simp add: parse_package_def sample_offer_def new_package_def as_dict_def dict_get_def b64_field_def jstr_def b64decode_def)
  have "small_package \<noteq> []" "bp_metadata (new_package (JObj small_package)) = JObj small_package" "''aid'' = dm_uuids (rs_daemon sample_rsp) (dm_next (rs_daemon sample_rsp))"
    by (simp_all add: small_package_def new_package_def sample_rsp_fields sample_daemon_reach(2))
  from download_installs [OF _ _ _ sample_code _ _ o this(2,1,3), of "JObj []" auth c "JNull" "Inl TimeoutError" "\<lambda>_. ''timeout''" sample_aes JNull] c i
  show ?thesis by (auto simp: sample_rsp_fields sample_info sample_daemon_reach(1) offer_install(1))
qed

end
