(* ===== verification/Rsp_Service.thy ===== *)
theory Rsp_Service
  imports Lpa_Download
begin

text \<open>
  \<^verbatim>\<open>rsp/service.py\<close>: the LPA behind a socket of its own, with the framing and the loop of \<^verbatim>\<open>Wire\<close> but
  no limit on the length of a message. What its clients can do to the card, whatever they send and
  whatever SM-DP+ answers.
\<close>

section \<open>Commands\<close>

definition lpa_list_profiles :: "aes \<Rightarrow> json lrun" where "lpa_list_profiles = get_profiles_info"
definition lpa_enable_profile :: "aes \<Rightarrow> json \<Rightarrow> json lrun" where "lpa_enable_profile = es10_enable_profile"
definition lpa_disable_profile :: "aes \<Rightarrow> json \<Rightarrow> json lrun" where "lpa_disable_profile = es10_disable_profile"
definition lpa_delete_profile :: "aes \<Rightarrow> json \<Rightarrow> json lrun" where "lpa_delete_profile = es10_delete_profile"
definition lpa_get_eid :: "aes \<Rightarrow> json lrun" where "lpa_get_eid = es10_get_eid"
definition lpa_get_euicc_info :: "aes \<Rightarrow> json lrun" where "lpa_get_euicc_info = get_euicc_info2"

definition answer_with :: "string \<Rightarrow> json lrun \<Rightarrow> json lrun" where
  "answer_with k m = cbind m (\<lambda>j. ret (JObj [(k, j)]))"

definition process_command :: "(exn \<Rightarrow> string) \<Rightarrow> aes \<Rightarrow> dict \<Rightarrow> json lrun" where
  "process_command etext aes msg =
     (let cmd = dict_get msg ''command'' JNull; i = dict_get msg ''iccid'' (JStr []) in
      if cmd = JStr ''download'' then
        cbind (download_profile etext aes (dict_get msg ''activation_code'' (JStr [])) (dict_get msg ''confirmation_code'' JNull)) (\<lambda>d. ret (JObj d))
      else if cmd = JStr ''install_direct'' then cbind (lpa_install_direct aes (dict_get msg ''profile'' (JObj []))) (\<lambda>d. ret (JObj d))
      else if cmd = JStr ''list'' then answer_with ''profiles'' (lpa_list_profiles aes)
      else if cmd = JStr ''enable'' then answer_with ''success'' (lpa_enable_profile aes i)
      else if cmd = JStr ''disable'' then answer_with ''success'' (lpa_disable_profile aes i)
      else if cmd = JStr ''delete'' then answer_with ''success'' (lpa_delete_profile aes i)
      else if cmd = JStr ''info'' then lpa_get_euicc_info aes
      else if cmd = JStr ''eid'' then answer_with ''eid'' (lpa_get_eid aes)
      else ret (JObj [(''error'', JStr (''Unknown command: '' @ py_str cmd))]))"

definition rsp_handle :: "(exn \<Rightarrow> string) \<Rightarrow> aes \<Rightarrow> bytes \<Rightarrow> bytes lrun" where
  "rsp_handle etext aes b = given (rbind (json_loads b) as_dict) (\<lambda>msg.
     cbind (process_command etext aes msg) (\<lambda>j. given (to_frame (json_bytes j)) ret))"

definition rsp_put :: "nat \<Rightarrow> bytes \<Rightarrow> rsp \<Rightarrow> rsp" where
  "rsp_put k out s = s\<lparr>rs_out := (rs_out s)(k := rs_out s k @ out)\<rparr>"

text \<open>The connection of client \<open>k\<close>; every length is accepted, and an exception closes it.\<close>

definition rsp_client :: "(exn \<Rightarrow> string) \<Rightarrow> aes \<Rightarrow> nat \<Rightarrow> bytes \<Rightarrow> unit lrun" where
  "rsp_client etext aes k stream = ignore (attempt (serve 4294967295 (rsp_handle etext aes) (rsp_put k) stream))"

text \<open>The start of \<^verbatim>\<open>main\<close>: the daemon is asked up to \<open>n\<close> times, with a sleep in between.\<close>

primrec reach_euicc :: "nat \<Rightarrow> aes \<Rightarrow> bool lrun" where
  "reach_euicc 0 aes = ret False"
| "reach_euicc (Suc n) aes = cbind (attempt (lpa_initialize aes)) (\<lambda>r. case r of
     Inr _ \<Rightarrow> ret True
   | Inl _ \<Rightarrow> if n = 0 then ret False else (\<lambda>s. (s, Wait 0 (\<lambda>_. reach_euicc n aes))))"

section \<open>A card with one profile per ICCID\<close>

text \<open>
  What every message keeps, packages without a name included: the card is ready, and each profile
  stands once, under its own ICCID.
\<close>

definition card_keyed :: "euicc \<Rightarrow> bool" where
  "card_keyed e \<longleftrightarrow> eu_state e = READY \<and> dict_ok (profiles e) \<and> (\<forall>k p. map_of (profiles e) k = Some p \<longrightarrow> iccid p = k)"

lemma keyed_set: "card_keyed e \<Longrightarrow> iccid p = k \<Longrightarrow> eu_state e' = READY \<Longrightarrow> profiles e' = dict_set k p (profiles e) \<Longrightarrow> card_keyed e'"
  by (auto simp: card_keyed_def split: if_splits)

lemma keyed_del: "card_keyed e \<Longrightarrow> eu_state e' = READY \<Longrightarrow> profiles e' = dict_del k (profiles e) \<Longrightarrow> card_keyed e'"
  by (auto simp: card_keyed_def split: if_splits)

lemma keyed_same: "card_keyed e \<Longrightarrow> eu_state e' = eu_state e \<Longrightarrow> profiles e' = profiles e \<Longrightarrow> card_keyed e'"
  by (simp add: card_keyed_def)

lemma save_profile_fields: "eu_state (save_profile p e) = eu_state e" "profiles (save_profile p e) = profiles e"
  "eu_state (delete_profile_file k e) = eu_state e" "profiles (delete_profile_file k e) = profiles e"
  by (simp_all add: save_profile_def delete_profile_file_def)

lemma keyed_disable_active: "card_keyed e \<Longrightarrow> card_keyed (disable_active e)"
  by (auto simp: disable_active_def Let_def save_profile_fields card_keyed_def split: option.split if_splits)

lemma keyed_exec: "card_keyed e \<Longrightarrow> eu_exec op e = Inr e' \<Longrightarrow> card_keyed e'"
proof (cases op)
  case (Install package u)
  assume k: "card_keyed e" and x: "eu_exec op e = Inr e'"
  then obtain p where "install_profile package u e = Inr (e', p)" by (auto simp: eu_exec_def Install rbind_eq_Inr)
  then show ?thesis using k
    by (auto simp: install_profile_def rbind_eq_Inr make_isdp_def save_profile_fields card_keyed_def split: if_splits)
next
  case (Enable i)
  assume k: "card_keyed e" and x: "eu_exec op e = Inr e'"
  then show ?thesis using keyed_disable_active [OF k]
    by (auto simp: eu_exec_def Enable rbind_eq_Inr enable_profile_def Let_def save_profile_fields card_keyed_def split: option.splits if_splits)
next
  case (Disable i)
  assume "card_keyed e" and "eu_exec op e = Inr e'"
  then show ?thesis
    by (auto simp: eu_exec_def Disable rbind_eq_Inr disable_profile_def Let_def save_profile_fields card_keyed_def split: option.splits if_splits)
next
  case (Delete i)
  assume "card_keyed e" and "eu_exec op e = Inr e'"
  then show ?thesis
    by (auto simp: eu_exec_def Delete rbind_eq_Inr delete_profile_def Let_def save_profile_fields card_keyed_def split: if_splits)
next
  case Authenticate
  assume "card_keyed e" and "eu_exec op e = Inr e'"
  then show ?thesis
    by (auto simp: eu_exec_def Authenticate bump_active_sqn_def get_active_profile_def set_active_profile_def card_keyed_def split: option.splits if_splits)
qed

interpretation keyed_daemon: frame_server 65536 "daemon_handle aes :: bytes \<Rightarrow> (daemon, unit, bytes) proc" daemon_put "\<lambda>_. True"
  "\<lambda>d. card_keyed (daemon_euicc d)" for aes
proof unfold_locales
  show "keeps (\<lambda>d. card_keyed (daemon_euicc d)) (daemon_handle aes b)" for b
    unfolding daemon_handle_def
    by (intro keeps_effect answer_payload_keeps [where ok = False and P = card_keyed]) (auto intro: keyed_exec)
qed simp_all

lemma connection_keyed: "card_keyed (daemon_euicc d) \<Longrightarrow> card_keyed (daemon_euicc (connection aes s d))"
proof -
  have "keeps (\<lambda>d. card_keyed (daemon_euicc d)) (handle_client aes s :: (daemon, unit, unit) proc)"
    unfolding handle_client_def by (intro keeping keyed_daemon.serve_keeps) simp
  then show "card_keyed (daemon_euicc d) \<Longrightarrow> ?thesis" by (simp add: keeps_def connection_def)
qed

lemma exchange_keyed: "card_keyed (daemon_euicc d) \<Longrightarrow> card_keyed (daemon_euicc (fst (socket_exchange aes up msg d)))"
  using connection_keyed by (auto simp: socket_exchange_def Let_def split: sum.split)

section \<open>The service keeps such a card\<close>

abbreviation rsp_keyed :: "rsp \<Rightarrow> bool" where
  "rsp_keyed s \<equiv> card_keyed (daemon_euicc (rs_daemon s))"

lemma keeps_es10 [keeping]: "keeps rsp_keyed (es10_send aes msg)"
  unfolding es10_send_def by (rule keeps_effect) (use exchange_keyed in \<open>simp add: case_prod_beta\<close>)

lemma keeps_acts [keeping]: "keeps rsp_keyed (set_lpa_state x)" "keeps rsp_keyed (set_transaction t)" "keeps rsp_keyed (new_es9 a)"
  "keeps rsp_keyed (es9_close i)" "keeps rsp_keyed get_euicc_challenge"
  by (auto simp: set_lpa_state_def set_transaction_def new_es9_def es9_close_def get_euicc_challenge_def set_open_def intro!: keeping)

lemma keeps_post [keeping]: "keeps rsp_keyed (http_post i url d)"
  by (simp add: keeps_def http_post_def set_open_def given_def split: sum.split)

lemma keeps_es9 [keeping]: "keeps rsp_keyed (initiate_authentication i c v a)" "keeps rsp_keyed (authenticate_client i txn r a)"
  "keeps rsp_keyed (get_bound_profile_package i txn r a)" "keeps rsp_keyed (handle_notification i n a)"
  unfolding initiate_authentication_def authenticate_client_def get_bound_profile_package_def handle_notification_def post_json_def Let_def
  by (intro keeping)+

lemma keeps_es10_all [keeping]: "keeps rsp_keyed (es10_field aes msg k dflt)" "keeps rsp_keyed (get_euicc_info1 aes)"
  "keeps rsp_keyed (prepare_download aes txn h x y)" "keeps rsp_keyed (load_bound_profile_package aes bpp)"
  unfolding es10_field_def get_euicc_info1_def prepare_download_def load_bound_profile_package_def by (intro keeping)+

lemma keeps_download [keeping]: "keeps rsp_keyed (download_profile etext aes code confirmation)"
  unfolding download_profile_def with_es9_def download_session_def install_package_def finish_download_def by (intro keeping)

lemma keeps_command [keeping]: "keeps rsp_keyed (process_command etext aes msg)"
  unfolding process_command_def Let_def answer_with_def lpa_install_direct_def lpa_list_profiles_def lpa_enable_profile_def lpa_disable_profile_def
    lpa_delete_profile_def lpa_get_eid_def lpa_get_euicc_info_def get_profiles_info_def es10_enable_profile_def es10_disable_profile_def
    es10_delete_profile_def profile_command_def es10_get_eid_def get_euicc_info2_def
  by (intro keeping)

interpretation rsp_server: frame_server 4294967295 "rsp_handle etext aes" "rsp_put k" "\<lambda>_. True" rsp_keyed for etext aes k
  by unfold_locales (auto simp: rsp_handle_def rsp_put_def intro!: keeping)

text \<open>
  C19: whatever bytes a client of the provisioning service sends, whatever the SM-DP+ answers and in whatever
  order the waits of the clients end, as long as the other tasks do the same the card stays ready with
  each profile once and under its own ICCID; packages of an SM-DP+ may name any ICCID, the empty
  one included.
\<close>

theorem rsp_client_keeps_card: "keeps rsp_keyed (rsp_client etext aes k stream)"
  unfolding rsp_client_def by (intro keeping rsp_server.serve_keeps) simp

section \<open>The commands implement the card\<close>

text \<open>The commands that ask for the operations on the card.\<close>

definition op_command :: "eu_op \<Rightarrow> dict" where
  "op_command op = (case op of
     Install package u \<Rightarrow> [(''command'', JStr ''install_direct''), (''profile'', JObj package)]
   | Enable i \<Rightarrow> [(''command'', JStr ''enable''), (''iccid'', JStr i)]
   | Disable i \<Rightarrow> [(''command'', JStr ''disable''), (''iccid'', JStr i)]
   | Delete i \<Rightarrow> [(''command'', JStr ''delete''), (''iccid'', JStr i)]
   | Authenticate \<Rightarrow> [])"

lemma es10_op:
  assumes "rs_up s" "eu_reach (daemon_euicc (rs_daemon s))" "op \<noteq> Authenticate" "sendable (op_message op)"
    and "\<forall>p u. op = Install p u \<longrightarrow> u = dm_uuids (rs_daemon s) (dm_next (rs_daemon s))"
  shows "\<exists>d. es10_send aes (op_message op) s = (s\<lparr>rs_daemon := d\<rparr>, case card_exec op (card_view (daemon_euicc (rs_daemon s))) of
      Inl _ \<Rightarrow> Exc EOFError | Inr _ \<Rightarrow> Ret (op_answer op))
    \<and> (case card_exec op (card_view (daemon_euicc (rs_daemon s))) of Inl _ \<Rightarrow> d = rs_daemon s | Inr c \<Rightarrow> card_view (daemon_euicc d) = c)"
proof -
  let ?e = "daemon_euicc (rs_daemon s)"
  obtain d r where p: "process_message aes (op_message op) (rs_daemon s) = (d, r)"
    "case eu_exec op ?e of Inl e \<Rightarrow> d = rs_daemon s \<and> r = Inl e | Inr e \<Rightarrow> daemon_euicc d = e \<and> r = Inr (op_answer op)"
    using process_op [OF assms(3,5,2)] by blast
  have "receivable x" if "r = Inr x" for x
    using that p(2) op_answer_receivable [OF assms(4)] by (auto split: sum.splits)
  then have "es10_send aes (op_message op) s = (s\<lparr>rs_daemon := d\<rparr>, case r of Inl _ \<Rightarrow> Exc EOFError | Inr x \<Rightarrow> Ret x)"
    by (rule es10_result [OF assms(1,4) p(1)])
  then show ?thesis
    using p(2) exec_refines_card [OF assms(2), of op, symmetric] by (cases "eu_exec op ?e") (auto intro!: exI [of _ d])
qed

text \<open>
  C10: a command to the provisioning service is the operation of the abstract card: through the service's
  dispatch, the LPA, the daemon's socket and the eUICC it does exactly what the card would do and
  answers success, or it changes nothing and raises, which closes the client's connection.
\<close>

theorem rsp_command_refines:
  assumes "rs_up s" "eu_reach (daemon_euicc (rs_daemon s))" "op \<noteq> Authenticate" "sendable (op_message op)"
    and "\<forall>p u. op = Install p u \<longrightarrow> u = dm_uuids (rs_daemon s) (dm_next (rs_daemon s)) \<and> p \<noteq> []"
  shows "case card_exec op (card_view (daemon_euicc (rs_daemon s))) of
      Inl _ \<Rightarrow> process_command etext aes (op_command op) s = (s, Exc EOFError)
    | Inr c \<Rightarrow> \<exists>s' d. process_command etext aes (op_command op) s = (s', Ret (JObj d)) \<and> dict_get d ''success'' JNull = JBool True
        \<and> card_view (daemon_euicc (rs_daemon s')) = c \<and> s' = s\<lparr>rs_daemon := rs_daemon s'\<rparr>"
proof -
  let ?x = "card_exec op (card_view (daemon_euicc (rs_daemon s)))"
  obtain d where d: "es10_send aes (op_message op) s = (s\<lparr>rs_daemon := d\<rparr>, case ?x of Inl _ \<Rightarrow> Exc EOFError | Inr _ \<Rightarrow> Ret (op_answer op))"
    "case ?x of Inl _ \<Rightarrow> d = rs_daemon s | Inr c \<Rightarrow> card_view (daemon_euicc d) = c"
    using es10_op [OF assms(1-4)] assms(5) by blast
  have c: "process_command etext aes (op_command op) = answer_with ''success'' (es10_field aes (op_message op) ''success'' (JBool False))"
    if "\<forall>p u. op \<noteq> Install p u"
    using that assms(3) by (cases op)
      (simp_all add: process_command_def op_command_def dict_get_def Let_def lpa_enable_profile_def lpa_disable_profile_def lpa_delete_profile_def
        es10_enable_profile_def es10_disable_profile_def es10_delete_profile_def profile_command_def op_message_def)
  have i: "process_command etext aes (op_command op) s = (case ?x of Inl _ \<Rightarrow> (s\<lparr>rs_daemon := d\<rparr>, Exc EOFError)
      | Inr _ \<Rightarrow> (s\<lparr>rs_daemon := d\<rparr>, Ret (JObj (install_dict (installed p)))))" if op: "op = Install p u" for p u
  proof -
    have "load_bound_profile_package aes (new_package (JObj p)) s = (case ?x of Inl _ \<Rightarrow> (s\<lparr>rs_daemon := d\<rparr>, Exc EOFError)
      | Inr _ \<Rightarrow> (s\<lparr>rs_daemon := d\<rparr>, Ret (installed p)))"
      using d(1) assms(5) op by (cases ?x)
        (simp_all add: load_bound_profile_package_def new_package_def json_true_def op_message_def op_answer_def dict_get_def given_def as_dict_def installed_def)
    then show ?thesis
      by (cases ?x) (simp_all add: process_command_def op_command_def op dict_get_def Let_def lpa_install_direct_def as_dict_def given_def)
  qed
  show ?thesis
  proof (cases "\<exists>p u. op = Install p u")
    case True
    then obtain p u where "op = Install p u" by blast
    from i [OF this] d(2) show ?thesis
      by (cases ?x) (auto simp: install_dict_def installed_def dict_get_def)
  next
    case False
    have "dict_get (op_answer op) ''success'' (JBool False) = JBool True" by (simp add: op_answer_def dict_get_def)
    with c d False show ?thesis
      by (cases ?x) (auto simp: answer_with_def es10_field_def dict_get_def)
  qed
qed

theorem rsp_command_refines_witness:
  "\<exists>s' d. process_command (\<lambda>_. []) sample_aes (op_command (Install small_package ''aid'')) sample_rsp = (s', Ret (JObj d))
     \<and> inst (card_view (daemon_euicc (rs_daemon s'))) ''8901'' \<noteq> None"
proof -
  obtain c where c: "card_exec (Install small_package ''aid'') (card_view (daemon_euicc (rs_daemon sample_rsp))) = Inr c" "inst c ''8901'' \<noteq> None"
    using offer_install(2) by (auto simp: sample_rsp_fields)
  have "rs_up sample_rsp" "eu_reach (daemon_euicc (rs_daemon sample_rsp))" by (simp_all add: sample_rsp_fields sample_daemon_reach(1))
  from rsp_command_refines [OF this, of "Install small_package ''aid''" "\<lambda>_. []" sample_aes] c show ?thesis
    by (auto simp: sample_rsp_fields sample_daemon_reach(2) offer_install(1) small_package_def [THEN arg_cong, of "\<lambda>x. x = []"])
qed

end
