(* ===== verification/Euicc_Hal.thy ===== *)
theory Euicc_Hal
  imports Rsp_Service
begin

text \<open>
  \<^verbatim>\<open>hal/euicc_hal.py\<close>: what Android's EuiccManager asks for. Requests about the card go straight to
  the daemon, downloads to the provisioning service; both sockets report a failure as an object
  with the text of the exception. What the HAL's user gets is proved through all the layers below.
\<close>

section \<open>The sockets\<close>

definition error_dict :: "(exn \<Rightarrow> string) \<Rightarrow> exn \<Rightarrow> dict" where
  "error_dict etext e = [(''error'', JStr (etext e))]"

definition euicc_command :: "(exn \<Rightarrow> string) \<Rightarrow> aes \<Rightarrow> dict \<Rightarrow> dict lrun" where
  "euicc_command etext aes msg = cbind (attempt (es10_send aes msg)) (\<lambda>r. ret (case r of Inl e \<Rightarrow> error_dict etext e | Inr x \<Rightarrow> x))"

text \<open>Client \<open>k\<close> of the provisioning service, which is reachable or not, for one request.\<close>

definition rsp_exchange :: "(exn \<Rightarrow> string) \<Rightarrow> aes \<Rightarrow> bool \<Rightarrow> nat \<Rightarrow> dict \<Rightarrow> json lrun" where
  "rsp_exchange etext aes up k msg =
     (if \<not> up then throw OSError
      else given (to_frame (json_bytes (JObj msg))) (\<lambda>out.
        seq (Coroutine.act (\<lambda>s. s\<lparr>rs_out := (rs_out s)(k := [])\<rparr>))
        (seq (rsp_client etext aes k out)
        (read (\<lambda>s. case read_frame (rs_out s k) of None \<Rightarrow> throw EOFError | Some (b, _) \<Rightarrow> given (json_loads b) ret)))))"

definition hal_rsp_command :: "(exn \<Rightarrow> string) \<Rightarrow> aes \<Rightarrow> bool \<Rightarrow> nat \<Rightarrow> dict \<Rightarrow> json lrun" where
  "hal_rsp_command etext aes up k msg =
     cbind (attempt (rsp_exchange etext aes up k msg)) (\<lambda>r. ret (case r of Inl e \<Rightarrow> JObj (error_dict etext e) | Inr j \<Rightarrow> j))"

section \<open>The operations\<close>

definition hal_euicc_data :: "(exn \<Rightarrow> string) \<Rightarrow> aes \<Rightarrow> json lrun" where
  "hal_euicc_data etext aes = cbind (euicc_command etext aes [(''type'', JStr ''get_info'')]) (\<lambda>resp. ret (dict_get resp ''data'' (JObj [])))"

definition hal_get_eid :: "(exn \<Rightarrow> string) \<Rightarrow> aes \<Rightarrow> json lrun" where
  "hal_get_eid etext aes = cbind (hal_euicc_data etext aes) (\<lambda>j. given (as_dict j) (\<lambda>d. ret (dict_get d ''eid'' (JStr []))))"

definition android_profile :: "dict \<Rightarrow> dict" where
  "android_profile p =
     [(''iccid'', dict_get p ''iccid'' (JStr [])), (''accessRules'', JArr []), (''nickname'', dict_get p ''spn'' (JStr [])),
      (''serviceProviderName'', dict_get p ''spn'' (JStr [])),
      (''profileName'', JStr (py_str (dict_get p ''spn'' (JStr ''Profile'')) @ '' ('' @ py_str (dict_get p ''mcc'' (JStr [])) @ py_str (dict_get p ''mnc'' (JStr [])) @ '')'')),
      (''state'', JInt (if dict_get p ''state'' JNull = JStr ''enabled'' then 1 else 0)),
      (''carrierIdentifier'', JObj [(''mcc'', dict_get p ''mcc'' (JStr [])), (''mnc'', dict_get p ''mnc'' (JStr []))]),
      (''profileClass'', JInt 2)]"

text \<open>The list comprehension over the answer's \<open>data\<close>, a list of objects.\<close>

definition hal_profiles :: "json \<Rightarrow> dict list res" where
  "hal_profiles j = (case j of JArr ps \<Rightarrow> rmap (\<lambda>p. rbind (as_dict p) (\<lambda>d. Inr (android_profile d))) ps | _ \<Rightarrow> Inl TypeError)"

definition get_profile_list :: "(exn \<Rightarrow> string) \<Rightarrow> aes \<Rightarrow> dict list lrun" where
  "get_profile_list etext aes = cbind (euicc_command etext aes [(''type'', JStr ''list_profiles'')]) (\<lambda>resp.
     given (hal_profiles (dict_get resp ''data'' (JArr []))) ret)"

definition switch_to_subscription :: "(exn \<Rightarrow> string) \<Rightarrow> aes \<Rightarrow> json \<Rightarrow> json lrun" where
  "switch_to_subscription etext aes i = cbind (euicc_command etext aes [(''type'', JStr ''enable_profile''), (''iccid'', i)]) (\<lambda>resp.
     ret (dict_get resp ''success'' (JBool False)))"

definition delete_subscription :: "(exn \<Rightarrow> string) \<Rightarrow> aes \<Rightarrow> json \<Rightarrow> json lrun" where
  "delete_subscription etext aes i = cbind (euicc_command etext aes [(''type'', JStr ''delete_profile''), (''iccid'', i)]) (\<lambda>resp.
     ret (dict_get resp ''success'' (JBool False)))"

definition download_message :: "string \<Rightarrow> string option \<Rightarrow> dict" where
  "download_message code confirmation =
     [(''command'', JStr ''download''), (''activation_code'', JStr code), (''confirmation_code'', of_opt_str confirmation)]"

definition download_subscription :: "(exn \<Rightarrow> string) \<Rightarrow> aes \<Rightarrow> bool \<Rightarrow> nat \<Rightarrow> string \<Rightarrow> string option \<Rightarrow> bool \<Rightarrow> json lrun" where
  "download_subscription etext aes up k code confirmation switch =
     cbind (hal_rsp_command etext aes up k (download_message code confirmation)) (\<lambda>result.
     given (as_dict result) (\<lambda>d.
       if json_true (dict_get d ''success'' JNull) \<and> switch then
         (let i = dict_get d ''iccid'' (JStr []) in
          if json_true i then seq (switch_to_subscription etext aes i) (ret result) else ret result)
       else ret result))"

definition install_profile_direct :: "(exn \<Rightarrow> string) \<Rightarrow> aes \<Rightarrow> bool \<Rightarrow> nat \<Rightarrow> dict \<Rightarrow> json lrun" where
  "install_profile_direct etext aes up k profile =
     hal_rsp_command etext aes up k [(''command'', JStr ''install_direct''), (''profile'', JObj profile)]"

section \<open>A request through the provisioning service\<close>

lemma payloads_single: "framable b \<Longrightarrow> payloads 4294967295 (frame b) = [b]"
proof -
  assume "framable b"
  then have "length b \<le> 4294967295" by (simp add: framable_def)
  moreover have "payloads 4294967295 [] = []" by (rule payloads_stop) (simp add: read_frame_def)
  ultimately show "payloads 4294967295 (frame b) = [b]" using payloads_frames [of 4294967295 "[b]" "[]"] by simp
qed

lemma rsp_exchange_run:
  assumes "receivable msg" "receivable answer"
    and "run_with rs (process_command etext aes msg (s\<lparr>rs_out := (rs_out s)(k := [])\<rparr>)) = Some (s', Inr (JObj answer))" "rs_out s' k = []"
  shows "run_with rs (hal_rsp_command etext aes True k msg s) = Some (rsp_put k (frame (message_bytes answer)) s', Inr (JObj answer))"
proof -
  let ?s = "s\<lparr>rs_out := (rs_out s)(k := [])\<rparr>" and ?b = "message_bytes msg"
  have f: "to_frame (json_bytes (JObj msg)) = Inr (frame ?b)" "json_ok (JObj msg)" "payloads 4294967295 (frame ?b) = [?b]"
    using assms(1) by (simp_all add: receivable_def to_frame_ok payloads_single flip: message_bytes_def)
  have a: "to_frame (json_bytes (JObj answer)) = Inr (frame (message_bytes answer))" "json_ok (JObj answer)"
    "json_loads (message_bytes answer) = Inr (JObj answer)" "read_frame (frame (message_bytes answer)) = Some (message_bytes answer, [])"
    using assms(2) read_frame [of "message_bytes answer" "[]"] by (simp_all add: receivable_def to_frame_ok json_roundtrip flip: message_bytes_def) (simp add: message_bytes_def json_roundtrip)
  have h: "run_with rs (rsp_handle etext aes ?b ?s) = Some (s', Inr (frame (message_bytes answer)))"
    unfolding rsp_handle_def loads_message [OF f(2)] given_def sum.case
    by (rule run_seq, rule assms(3)) (simp add: a(1))
  have t: "run_with rs (serve 4294967295 (rsp_handle etext aes) (rsp_put k) (frame ?b) ?s) = Some (rsp_put k (frame (message_bytes answer)) s', Inr ())"
    unfolding serve_each f(3) each.simps turn_def cbind_assoc
    by (rule run_seq, rule h) simp
  have c: "run_with rs (rsp_client etext aes k (frame ?b) ?s) = Some (rsp_put k (frame (message_bytes answer)) s', Inr ())"
    unfolding rsp_client_def ignore_def by (rule run_catch, rule t) simp
  have "run_with rs (rsp_exchange etext aes True k msg s) = Some (rsp_put k (frame (message_bytes answer)) s', Inr (JObj answer))"
    unfolding rsp_exchange_def f(1) given_def simp_thms if_False sum.case
    by (simp, rule run_seq, rule c) (simp add: a(3,4) assms(4) rsp_put_def)
  then show ?thesis
    unfolding hal_rsp_command_def by (rule run_catch) simp
qed

lemma euicc_command_op:
  assumes "rs_up s" "eu_reach (daemon_euicc (rs_daemon s))" "op \<noteq> Authenticate" "sendable (op_message op)"
    and "\<forall>p u. op = Install p u \<longrightarrow> u = dm_uuids (rs_daemon s) (dm_next (rs_daemon s))"
  shows "\<exists>d. euicc_command etext aes (op_message op) s = (s\<lparr>rs_daemon := d\<rparr>, Ret (case card_exec op (card_view (daemon_euicc (rs_daemon s))) of
      Inl _ \<Rightarrow> error_dict etext EOFError | Inr _ \<Rightarrow> op_answer op))
    \<and> (case card_exec op (card_view (daemon_euicc (rs_daemon s))) of Inl _ \<Rightarrow> d = rs_daemon s | Inr c \<Rightarrow> card_view (daemon_euicc d) = c)"
proof -
  let ?x = "card_exec op (card_view (daemon_euicc (rs_daemon s)))"
  obtain d where d: "es10_send aes (op_message op) s = (s\<lparr>rs_daemon := d\<rparr>, case ?x of Inl _ \<Rightarrow> Exc EOFError | Inr _ \<Rightarrow> Ret (op_answer op))"
    "case ?x of Inl _ \<Rightarrow> d = rs_daemon s | Inr c \<Rightarrow> card_view (daemon_euicc d) = c"
    using es10_op [OF assms] by blast
  then show ?thesis
    by (intro exI [of _ d]) (cases ?x; simp add: euicc_command_def)
qed

text \<open>Switching and deleting as the abstract card does them, false when the card refuses.\<close>

lemma subscription_run:
  assumes "rs_up s" "eu_reach (daemon_euicc (rs_daemon s))" "op = Enable i \<and> m = switch_to_subscription etext aes (JStr i)
      \<or> op = Delete i \<and> m = delete_subscription etext aes (JStr i)" "sendable (op_message op)"
  shows "\<exists>s'. m s = (s', Ret (JBool (\<not> raises (card_exec op (card_view (daemon_euicc (rs_daemon s)))))))
    \<and> (case card_exec op (card_view (daemon_euicc (rs_daemon s))) of Inl _ \<Rightarrow> s' = s | Inr c \<Rightarrow> card_view (daemon_euicc (rs_daemon s')) = c)
    \<and> rs_out s' = rs_out s"
proof -
  let ?x = "card_exec op (card_view (daemon_euicc (rs_daemon s)))"
  have op: "op \<noteq> Authenticate" "\<forall>p u. op \<noteq> Install p u" using assms(3) by auto
  obtain d where d: "euicc_command etext aes (op_message op) s = (s\<lparr>rs_daemon := d\<rparr>, Ret (case ?x of Inl _ \<Rightarrow> error_dict etext EOFError | Inr _ \<Rightarrow> op_answer op))"
      "case ?x of Inl _ \<Rightarrow> d = rs_daemon s | Inr c \<Rightarrow> card_view (daemon_euicc d) = c"
    using euicc_command_op [OF assms(1,2) op(1) assms(4)] op(2) by blast
  have "m = cbind (euicc_command etext aes (op_message op)) (\<lambda>resp. ret (dict_get resp ''success'' (JBool False)))"
    using assms(3) by (auto simp: switch_to_subscription_def delete_subscription_def op_message_def)
  then show ?thesis using d
    by (cases ?x) (auto simp: error_dict_def op_answer_def dict_get_def)
qed

section \<open>A download for Android\<close>

text \<open>
  C5: a subscription that Android downloads is the active one afterwards. The activation code goes through
  the HAL, the provisioning service and the LPA to the SM-DP+; when that answers and takes the notification, the
  card has exactly the profile of the package more, and it is the enabled one, the profile
  that was enabled before being disabled; Android reads success and the ICCID.
\<close>

theorem hal_download_enables:
  assumes "rs_up s" "receivable (info_answer (rs_daemon s))" "eu_reach (daemon_euicc (rs_daemon s))"
    and "parse_activation_code (JStr code) = Inr ac" "ac_smdp ac \<noteq> []" "receivable (download_message code confirmation)"
    and "parse_initiate (rs_random s (rs_draws s)) (ac_smdp ac) j1 = Inr auth" "parse_package j3 = Inr bpp"
    and "bp_metadata bpp = JObj package" "dict_get package ''iccid'' JNull = JStr i" "i \<noteq> []" "u = dm_uuids (rs_daemon s) (dm_next (rs_daemon s))"
    and "sendable (op_message (Install package u))" "sendable (op_message (Enable i))"
    and "card_exec (Install package u) (card_view (daemon_euicc (rs_daemon s))) = Inr c"
  shows "\<exists>s'. run_with [Inr (Inr j1), Inr (Inr j2), Inr (Inr j3), Inr b] (download_subscription etext aes True k code confirmation True s) =
      Some (s', Inr (JObj [(''success'', JBool True), (''iccid'', JStr i), (''result_code'', JInt 0)]))
    \<and> card_view (daemon_euicc (rs_daemon s')) = c\<lparr>Euicc.act := Some i\<rparr> \<and> inst c i \<noteq> None"
proof -
  let ?rs = "[Inr (Inr j1), Inr (Inr j2), Inr (Inr j3), Inr b]" and ?s = "s\<lparr>rs_out := (rs_out s)(k := [])\<rparr>"
  let ?answer = "[(''success'', JBool True), (''iccid'', JStr i), (''result_code'', JInt 0)] :: dict"
  have p: "package \<noteq> []" "map_of package ''iccid'' = Some (JStr i)" using assms(10) by (auto simp: dict_get_def split: option.splits)
  obtain s1 where s1: "run_with ?rs (download_profile etext aes (JStr code) (of_opt_str confirmation) ?s) = Some (s1, Inr ?answer)"
      "card_view (daemon_euicc (rs_daemon s1)) = c" "rs_up s1" "rs_out s1 = rs_out ?s"
      "eu_exec (Install package u) (daemon_euicc (rs_daemon s)) = Inr (daemon_euicc (rs_daemon s1))"
    using download_run [of ?s "JStr code" ac j1 auth j3 bpp package u c j2 "Inr b" etext aes "of_opt_str confirmation"] assms p by auto
  have reach: "eu_reach (daemon_euicc (rs_daemon s1))"
    by (rule eu_reach.step [OF assms(3) _ s1(5)]) (use p(2) assms(11) in \<open>simp add: op_ok_def jreq_def\<close>)
  have cmd: "run_with ?rs (process_command etext aes (download_message code confirmation) ?s) = Some (s1, Inr (JObj ?answer))"
    by (simp add: process_command_def download_message_def dict_get_def Let_def, rule run_seq, rule s1(1)) simp
  have a: "receivable ?answer"
  proof (rule framable_small)
    have "length i \<le> length (dump_str i)" using length_dump_str(1) [of i] by simp
    also have "\<dots> \<le> length (json_dumps (JObj (op_message (Enable i))))"
      using length_member [of "''iccid''" "JStr i" "op_message (Enable i)"] by (simp add: op_message_def)
    also have "\<dots> \<le> 65536" using assms(14) by (simp add: sendable_def message_bytes_def length_json_bytes)
    finally have "json_weight (JObj ?answer) < 256 ^ 4" by simp
    then show "length (json_dumps (JObj ?answer)) < 256 ^ 4" by (rule le_less_trans [OF length_dumps])
  qed (simp add: dict_ok_def)
  define s2 where "s2 = rsp_put k (frame (message_bytes ?answer)) s1"
  have hal: "run_with ?rs (hal_rsp_command etext aes True k (download_message code confirmation) s) = Some (s2, Inr (JObj ?answer))"
    unfolding s2_def using s1(4) by (intro rsp_exchange_run [OF assms(6) a cmd]) simp
  have s2: "rs_up s2" "rs_daemon s2 = rs_daemon s1" by (simp_all add: s2_def rsp_put_def s1(3))
  have i: "inst c i \<noteq> None" "card_exec (Enable i) c = Inr (c\<lparr>Euicc.act := Some i\<rparr>)"
    using assms(15) p(2) by (auto simp: card_exec_def card_install_def rbind_eq_Inr jreq_def split: if_splits)
  obtain s3 where s3: "switch_to_subscription etext aes (JStr i) s2 = (s3, Ret (JBool True))" "card_view (daemon_euicc (rs_daemon s3)) = c\<lparr>Euicc.act := Some i\<rparr>"
    using subscription_run [OF s2(1) _ _ assms(14), of i "switch_to_subscription etext aes (JStr i)" etext aes] reach
    by (auto simp: s2(2) s1(2) i(2))
  have "run_with ?rs (download_subscription etext aes True k code confirmation True s) = Some (s3, Inr (JObj ?answer))"
    unfolding download_subscription_def
    by (rule run_seq, rule hal) (simp add: given_def as_dict_def dict_get_def json_true_def assms(11) s3(1) Let_def)
  with s3(2) i(1) show ?thesis by blast
qed

theorem hal_download_enables_witness:
  "\<exists>s' c. run_with [Inr (Inr (JObj [])), Inr (Inr JNull), Inr (Inr sample_offer), Inr (Inr JNull)]
      (download_subscription (\<lambda>_. []) sample_aes True 0 ''1$smdp.test$ID'' None True sample_rsp) =
      Some (s', Inr (JObj [(''success'', JBool True), (''iccid'', JStr ''8901''), (''result_code'', JInt 0)]))
    \<and> card_view (daemon_euicc (rs_daemon s')) = c\<lparr>Euicc.act := Some ''8901''\<rparr>"
proof -
  obtain c where c: "card_exec (Install small_package ''aid'') (card_view (daemon_euicc (rs_daemon sample_rsp))) = Inr c"
    using offer_install(2) by (auto simp: sample_rsp_fields)
  obtain auth where i: "parse_initiate (rs_random sample_rsp (rs_draws sample_rsp)) ''smdp.test'' (JObj []) = Inr auth"
    by (simp add: parse_initiate_def as_dict_def dict_get_def b64_field_def jstr_def opt_b64_def json_true_def b64decode_def Let_def)
  have o: "parse_package sample_offer = Inr (new_package (JObj small_package))"
    by (simp add: parse_package_def sample_offer_def new_package_def as_dict_def dict_get_def b64_field_def jstr_def b64decode_def)
  have p: "bp_metadata (new_package (JObj small_package)) = JObj small_package" "dict_get small_package ''iccid'' JNull = JStr ''8901''"
    "''aid'' = dm_uuids (rs_daemon sample_rsp) (dm_next (rs_daemon sample_rsp))"
    by (simp_all add: small_package_def new_package_def sample_rsp_fields sample_daemon_reach(2) dict_get_def)
  have m: "receivable (download_message ''1$smdp.test$ID'' None)"
    by (intro conjunct2 [OF sized_ok]) (simp_all add: download_message_def dict_ok_def)
  from hal_download_enables [OF _ _ _ sample_code _ m _ o p(1,2) _ p(3) _ sample_op_sendable c, of "JObj []" auth JNull "Inr JNull" "\<lambda>_. []" sample_aes 0] i
  show ?thesis by (auto simp: sample_rsp_fields sample_info sample_daemon_reach(1) offer_install(1))
qed

end
