(* ===== verification/Scp03.thy ===== *)
theory Scp03
  imports Prelude
begin

text \<open>
  \<^verbatim>\<open>euicc/crypto/scp03.py\<close>: the secure channel of a profile download. The ciphers come from
  PyCryptodome and are parameters: AES on one block, AES-CBC in both directions, and AES-CMAC;
  \<open>cipher_ok\<close> states their documented behaviour for 16-byte keys. The other end of the channel is not
  in the code; it is specified here as the GlobalPlatform peer with the same session.
\<close>

section \<open>Ciphers\<close>

record cipher =
  ci_block :: "bytes \<Rightarrow> bytes \<Rightarrow> bytes res"
  ci_encrypt :: "bytes \<Rightarrow> bytes \<Rightarrow> bytes \<Rightarrow> bytes res"
  ci_decrypt :: "bytes \<Rightarrow> bytes \<Rightarrow> bytes \<Rightarrow> bytes res"
  ci_cmac :: "bytes \<Rightarrow> bytes \<Rightarrow> bytes res"

definition cipher_ok :: "cipher \<Rightarrow> bool" where
  "cipher_ok c \<longleftrightarrow>
     (\<forall>k b. length k = 16 \<longrightarrow> length b = 16 \<longrightarrow> (\<exists>x. ci_block c k b = Inr x \<and> length x = 16))
   \<and> (\<forall>k iv d. length k = 16 \<longrightarrow> length iv = 16 \<longrightarrow> length d mod 16 = 0 \<longrightarrow>
        (\<exists>x. ci_encrypt c k iv d = Inr x \<and> length x = length d \<and> ci_decrypt c k iv x = Inr d))
   \<and> (\<forall>k d. length k = 16 \<longrightarrow> (\<exists>m. ci_cmac c k d = Inr m \<and> length m = 16))"

lemma cipher_okD:
  assumes "cipher_ok c" "length k = 16"
  shows "length b = 16 \<Longrightarrow> \<exists>x. ci_block c k b = Inr x \<and> length x = 16"
    and "length iv = 16 \<Longrightarrow> length d mod 16 = 0 \<Longrightarrow> \<exists>x. ci_encrypt c k iv d = Inr x \<and> length x = length d \<and> ci_decrypt c k iv x = Inr d"
    and "\<exists>m. ci_cmac c k d = Inr m \<and> length m = 16"
  using assms by (simp_all add: cipher_ok_def)

section \<open>Helpers\<close>

definition DERIVE_S_ENC :: byte where "DERIVE_S_ENC = 4"
definition DERIVE_S_MAC :: byte where "DERIVE_S_MAC = 6"
definition DERIVE_S_RMAC :: byte where "DERIVE_S_RMAC = 7"
definition DERIVE_CARD_CRYPTO :: byte where "DERIVE_CARD_CRYPTO = 0"
definition DERIVE_HOST_CRYPTO :: byte where "DERIVE_HOST_CRYPTO = 1"

text \<open>\<^verbatim>\<open>while len(padded) % 16: padded += b"\x00"\<close>.\<close>

function pad_zeros :: "bytes \<Rightarrow> bytes" where
  "pad_zeros p = (if length p mod 16 \<noteq> 0 then pad_zeros (p @ [0]) else p)"
  by pat_completeness auto
termination
  by (relation "measure (\<lambda>p. (16 - length p mod 16) mod 16)") (auto simp: mod_Suc)

declare pad_zeros.simps [simp del]

definition scp_pad :: "bytes \<Rightarrow> bytes" where
  "scp_pad d = pad_zeros (d @ [0x80])"

text \<open>The loop from the end over the zero bytes.\<close>

definition scp_unpad :: "bytes \<Rightarrow> bytes" where
  "scp_unpad d = (case dropWhile (\<lambda>b. b = 0) (rev d) of [] \<Rightarrow> d | b # r \<Rightarrow> if b = 0x80 then rev r else d)"

definition constant_time_compare :: "bytes \<Rightarrow> bytes \<Rightarrow> bool" where
  "constant_time_compare a b \<longleftrightarrow> length a = length b \<and> foldl (OR) 0 (xor_bytes a b) = 0"

definition scp_kdf :: "cipher \<Rightarrow> bytes \<Rightarrow> byte \<Rightarrow> bytes \<Rightarrow> bytes res" where
  "scp_kdf c key constant ctx = rbind (to_bytes_be 2 (int (length key) * 8)) (\<lambda>bits.
     ci_cmac c key (replicate 11 0 @ [constant] @ [0] @ bits @ [1] @ ctx))"

definition compute_cryptogram :: "cipher \<Rightarrow> byte \<Rightarrow> bytes \<Rightarrow> bytes \<Rightarrow> bytes res" where
  "compute_cryptogram c constant ctx key = rbind (scp_kdf c key constant ctx) (\<lambda>derived. Inr (take 8 derived))"

section \<open>The session\<close>

record scp_session =
  s_enc :: bytes
  s_mac :: bytes
  s_rmac :: bytes
  mac_chaining :: bytes
  s_counter :: int

definition fresh_session :: "bytes \<Rightarrow> bytes \<Rightarrow> bytes \<Rightarrow> scp_session" where
  "fresh_session enc mac rmac = \<lparr>s_enc = enc, s_mac = mac, s_rmac = rmac, mac_chaining = replicate 16 0, s_counter = 1\<rparr>"

record scp03 =
  enc_key :: bytes
  mac_key :: bytes
  dek_key :: bytes
  scp_sess :: "scp_session option"

definition new_scp03 :: "bytes \<Rightarrow> bytes \<Rightarrow> bytes \<Rightarrow> scp03" where
  "new_scp03 enc mac dek = \<lparr>enc_key = enc, mac_key = mac, dek_key = dek, scp_sess = None\<rparr>"

text \<open>\<open>challenge\<close> is what \<^verbatim>\<open>os.urandom(8)\<close> gives.\<close>

definition initialize_update :: "cipher \<Rightarrow> bytes \<Rightarrow> bytes \<Rightarrow> scp03 \<Rightarrow> scp03 \<times> (bytes \<times> bytes) res" where
  "initialize_update c challenge host_challenge s =
     (let ctx = host_challenge @ challenge in
      case rbind (scp_kdf c (enc_key s) DERIVE_S_ENC ctx) (\<lambda>enc. rbind (scp_kdf c (mac_key s) DERIVE_S_MAC ctx) (\<lambda>mac.
           rbind (scp_kdf c (mac_key s) DERIVE_S_RMAC ctx) (\<lambda>rmac. Inr (enc, mac, rmac)))) of
        Inl e \<Rightarrow> (s, Inl e)
      | Inr (enc, mac, rmac) \<Rightarrow> (s\<lparr>scp_sess := Some (fresh_session enc mac rmac)\<rparr>,
          rbind (compute_cryptogram c DERIVE_CARD_CRYPTO ctx mac) (\<lambda>crypto. Inr (challenge, crypto))))"

definition external_authenticate :: "cipher \<Rightarrow> bytes \<Rightarrow> bytes \<Rightarrow> bytes \<Rightarrow> scp03 \<Rightarrow> scp03 \<times> bool res" where
  "external_authenticate c host_cryptogram host_challenge card_challenge s =
     (case scp_sess s of
        None \<Rightarrow> (s, Inl RuntimeError)
      | Some x \<Rightarrow> (case compute_cryptogram c DERIVE_HOST_CRYPTO (host_challenge @ card_challenge) (s_mac x) of
          Inl e \<Rightarrow> (s, Inl e)
        | Inr expected \<Rightarrow>
            if \<not> constant_time_compare host_cryptogram expected then (s\<lparr>scp_sess := None\<rparr>, Inr False) else (s, Inr True)))"

definition generate_icv :: "cipher \<Rightarrow> scp_session \<Rightarrow> bytes res" where
  "generate_icv c x = rbind (to_bytes_be 16 (s_counter x)) (\<lambda>block. ci_block c (s_enc x) block)"

definition encrypt_data :: "cipher \<Rightarrow> scp_session \<Rightarrow> bytes \<Rightarrow> bytes res" where
  "encrypt_data c x d = (if d = [] then Inr [] else rbind (generate_icv c x) (\<lambda>iv. ci_encrypt c (s_enc x) iv (scp_pad d)))"

definition wrap_command :: "cipher \<Rightarrow> bytes \<Rightarrow> scp03 \<Rightarrow> scp03 \<times> bytes res" where
  "wrap_command c apdu s =
     (case scp_sess s of
        None \<Rightarrow> (s, Inl RuntimeError)
      | Some x \<Rightarrow> (case rbind (encrypt_data c x (drop 4 apdu)) (\<lambda>encrypted.
            rbind (ci_cmac c (s_mac x) (mac_chaining x @ take 4 apdu @ encrypted)) (\<lambda>mac. Inr (encrypted, mac))) of
          Inl e \<Rightarrow> (s, Inl e)
        | Inr (encrypted, mac) \<Rightarrow>
            (s\<lparr>scp_sess := Some (x\<lparr>mac_chaining := mac, s_counter := s_counter x + 1\<rparr>)\<rparr>, Inr (take 4 apdu @ encrypted @ take 8 mac))))"

text \<open>\<^verbatim>\<open>response[:-10]\<close>, \<^verbatim>\<open>response[-10:-2]\<close> and \<^verbatim>\<open>response[-2:]\<close> of a response of at least ten bytes.\<close>

definition unwrap_response :: "cipher \<Rightarrow> bytes \<Rightarrow> scp03 \<Rightarrow> bytes res" where
  "unwrap_response c response s =
     (case scp_sess s of
        None \<Rightarrow> Inl RuntimeError
      | Some x \<Rightarrow>
          if length response < 10 then Inr response
          else let n = length response; d = take (n - 10) response; r_mac = slice response (n - 10) (n - 2); sw = drop (n - 2) response in
            rbind (ci_cmac c (s_rmac x) (mac_chaining x @ d @ sw)) (\<lambda>expected.
            if \<not> constant_time_compare r_mac (take 8 expected) then Inl SecurityError
            else if d \<noteq> [] then rbind (generate_icv c x) (\<lambda>iv. rbind (ci_decrypt c (s_enc x) iv d) (\<lambda>plain. Inr (scp_unpad plain @ sw)))
            else Inr sw))"

section \<open>Padding and comparison\<close>

lemma pad_zeros_eq: "pad_zeros p = p @ replicate ((16 - length p mod 16) mod 16) 0"
proof (induction p rule: pad_zeros.induct)
  case (1 p)
  show ?case
  proof (cases "length p mod 16 = 0")
    case True
    then show ?thesis by (subst pad_zeros.simps) simp
  next
    case False
    have "(16 - length p mod 16) mod 16 = Suc ((16 - length (p @ [0 :: byte]) mod 16) mod 16)"
      using False by (cases "length p mod 16 = 15") (auto simp: mod_Suc)
    with False 1 show ?thesis by (subst pad_zeros.simps) (simp only: if_True append.assoc replicate_Suc, simp)
  qed
qed

lemma length_pad: "length (scp_pad d) mod 16 = 0" "length d < length (scp_pad d)" "length (scp_pad d) \<le> length d + 16"
proof -
  have "length (pad_zeros p) mod 16 = 0" for p
  proof (induction p rule: pad_zeros.induct)
    case (1 p)
    then show ?case by (subst pad_zeros.simps) simp
  qed
  then show "length (scp_pad d) mod 16 = 0" by (simp add: scp_pad_def)
  have "(16 - Suc (length d) mod 16) mod 16 < 16" by simp
  then show "length d < length (scp_pad d)" "length (scp_pad d) \<le> length d + 16"
    by (simp_all add: scp_pad_def pad_zeros_eq)
qed

lemma unpad_pad [simp]: "scp_unpad (scp_pad d) = d"
proof -
  have "dropWhile (\<lambda>b. b = 0) (replicate n 0 @ 0x80 # r) = 0x80 # r" for n and r :: bytes
    by (induction n) simp_all
  then show ?thesis by (simp add: scp_unpad_def scp_pad_def pad_zeros_eq)
qed

lemma unpad_Nil [simp]: "scp_unpad [] = []"
  by (simp add: scp_unpad_def)

lemma foldl_or_0: "foldl (OR) (a :: byte) xs = 0 \<longleftrightarrow> a = 0 \<and> (\<forall>x \<in> set xs. x = 0)"
proof (induction xs arbitrary: a)
  case (Cons x xs)
  have "a OR x = 0 \<longleftrightarrow> a = 0 \<and> x = 0"
    by (auto simp: bit_eq_iff bit_or_iff)
  with Cons show ?case by auto
qed simp

lemma compare_eq [simp]: "constant_time_compare a b \<longleftrightarrow> a = b"
proof
  assume "constant_time_compare a b"
  then have l: "length a = length b" and z: "\<forall>x \<in> set (xor_bytes a b). x = 0"
    by (simp_all add: constant_time_compare_def foldl_or_0)
  show "a = b"
  proof (rule nth_equalityI [OF l])
    fix i assume i: "i < length a"
    with l have "xor_bytes a b ! i \<in> set (xor_bytes a b)" by (intro nth_mem) simp
    with z have "xor_bytes a b ! i = 0" by blast
    with i l have "a ! i XOR b ! i = 0" by simp
    then have "(a ! i XOR b ! i) XOR b ! i = b ! i" by simp
    then show "a ! i = b ! i" by (simp only: xor.assoc xor_self_eq xor.right_neutral)
  qed
next
  assume "a = b"
  then show "constant_time_compare a b"
    by (auto simp: constant_time_compare_def foldl_or_0 xor_bytes_def set_zip)
qed

section \<open>Mutual authentication\<close>

text \<open>What a host with the same static keys derives from the two challenges.\<close>

definition host_keys :: "cipher \<Rightarrow> bytes \<Rightarrow> bytes \<Rightarrow> bytes \<Rightarrow> bytes \<Rightarrow> (scp_session \<times> bytes \<times> bytes) res" where
  "host_keys c enc mac host_challenge card_challenge =
     (let ctx = host_challenge @ card_challenge in
      rbind (scp_kdf c enc 4 ctx) (\<lambda>se. rbind (scp_kdf c mac 6 ctx) (\<lambda>sm. rbind (scp_kdf c mac 7 ctx) (\<lambda>sr.
      rbind (scp_kdf c sm 0 ctx) (\<lambda>kc. rbind (scp_kdf c sm 1 ctx) (\<lambda>kh. Inr (fresh_session se sm sr, take 8 kc, take 8 kh)))))))"

lemma kdf_ok:
  assumes "cipher_ok c" "length k = 16"
  obtains d where "scp_kdf c k n ctx = Inr d" "length d = 16"
proof -
  obtain d where "ci_cmac c k (replicate 11 0 @ [n] @ [0] @ be_bytes 2 128 @ [1] @ ctx) = Inr d" "length d = 16"
    using cipher_okD(3) [OF assms] by blast
  then show ?thesis using that assms(2) by (simp add: scp_kdf_def to_bytes_be_def)
qed

definition session_ok :: "scp_session \<Rightarrow> bool" where
  "session_ok x \<longleftrightarrow> length (s_enc x) = 16 \<and> length (s_mac x) = 16 \<and> length (s_rmac x) = 16 \<and> length (mac_chaining x) = 16 \<and> 0 < s_counter x"

text \<open>A cipher with the properties of one, for the examples: no encryption, and the length as MAC.\<close>

definition sample_cipher :: cipher where
  "sample_cipher =
     \<lparr>ci_block = (\<lambda>k b. if length k = 16 \<and> length b = 16 then Inr b else Inl ValueError),
      ci_encrypt = (\<lambda>k iv d. if length k = 16 \<and> length iv = 16 \<and> length d mod 16 = 0 then Inr d else Inl ValueError),
      ci_decrypt = (\<lambda>k iv d. if length k = 16 \<and> length iv = 16 \<and> length d mod 16 = 0 then Inr d else Inl ValueError),
      ci_cmac = (\<lambda>k d. if length k = 16 then Inr (replicate 16 (of_nat (length d) + k ! 0)) else Inl ValueError)\<rparr>"

lemma sample_cipher_ok: "cipher_ok sample_cipher"
  by (simp add: cipher_ok_def sample_cipher_def)

definition sample_session :: scp_session where
  "sample_session = fresh_session (replicate 16 1) (replicate 16 2) (replicate 16 3)"

lemma sample_session_ok: "session_ok sample_session" "s_counter sample_session = 1"
  by (simp_all add: sample_session_def session_ok_def fresh_session_def)

lemma host_keys_ok:
  assumes "cipher_ok c" "length enc = 16" "length mac = 16"
  obtains x kc kh where "host_keys c enc mac h r = Inr (x, kc, kh)" "session_ok x" "length kc = 8" "length kh = 8"
proof -
  obtain se where se: "scp_kdf c enc 4 (h @ r) = Inr se" "length se = 16" by (rule kdf_ok [OF assms(1,2)])
  obtain sm where sm: "scp_kdf c mac 6 (h @ r) = Inr sm" "length sm = 16" by (rule kdf_ok [OF assms(1,3)])
  obtain sr where sr: "scp_kdf c mac 7 (h @ r) = Inr sr" "length sr = 16" by (rule kdf_ok [OF assms(1,3)])
  obtain kc where kc: "scp_kdf c sm 0 (h @ r) = Inr kc" "length kc = 16" by (rule kdf_ok [OF assms(1) sm(2)])
  obtain kh where kh: "scp_kdf c sm 1 (h @ r) = Inr kh" "length kh = 16" by (rule kdf_ok [OF assms(1) sm(2)])
  show ?thesis
    by (rule that [of "fresh_session se sm sr" "take 8 kc" "take 8 kh"])
      (simp_all add: host_keys_def se sm sr kc kh session_ok_def fresh_session_def)
qed

lemma initialize_update_ok:
  assumes "host_keys c (enc_key s) (mac_key s) h r = Inr (x, kc, kh)"
  shows "initialize_update c r h s = (s\<lparr>scp_sess := Some x\<rparr>, Inr (r, kc))"
    and "external_authenticate c y h r (s\<lparr>scp_sess := Some x\<rparr>) = (if y = kh then (s\<lparr>scp_sess := Some x\<rparr>, Inr True) else (s\<lparr>scp_sess := None\<rparr>, Inr False))"
  using assms
  by (auto simp: host_keys_def initialize_update_def external_authenticate_def compute_cryptogram_def Let_def rbind_eq_Inr fresh_session_def
    DERIVE_S_ENC_def DERIVE_S_MAC_def DERIVE_S_RMAC_def DERIVE_CARD_CRYPTO_def DERIVE_HOST_CRYPTO_def)

text \<open>
  C37: mutual authentication. For every challenge the card draws, a host with the same static keys derives the
  card's session keys and its cryptogram; the card accepts that host's cryptogram and keeps the
  session, and it refuses every other byte string and drops the session, after which commands and
  responses raise until the next INITIALIZE UPDATE.
\<close>

theorem scp_authentication:
  assumes "cipher_ok c" "length (enc_key s) = 16" "length (mac_key s) = 16"
  shows "\<exists>x kc kh. host_keys c (enc_key s) (mac_key s) h r = Inr (x, kc, kh) \<and> session_ok x \<and> length kh = 8
    \<and> initialize_update c r h s = (s\<lparr>scp_sess := Some x\<rparr>, Inr (r, kc))
    \<and> (\<forall>y. external_authenticate c y h r (s\<lparr>scp_sess := Some x\<rparr>) =
        (if y = kh then (s\<lparr>scp_sess := Some x\<rparr>, Inr True) else (s\<lparr>scp_sess := None\<rparr>, Inr False)))
    \<and> wrap_command c apdu (s\<lparr>scp_sess := None\<rparr>) = (s\<lparr>scp_sess := None\<rparr>, Inl RuntimeError)
    \<and> unwrap_response c response (s\<lparr>scp_sess := None\<rparr>) = Inl RuntimeError"
proof -
  obtain x kc kh where k: "host_keys c (enc_key s) (mac_key s) h r = Inr (x, kc, kh)" "session_ok x" "length kh = 8"
    using assms by (rule host_keys_ok)
  show ?thesis
    by (rule exI [of _ x], rule exI [of _ kc], rule exI [of _ kh])
      (simp add: k initialize_update_ok [OF k(1)] wrap_command_def unwrap_response_def)
qed

theorem scp_authentication_witness:
  "\<exists>x kh s. external_authenticate sample_cipher (map (\<lambda>b. b + 1) kh) (replicate 8 1) (replicate 8 2)
     (s\<lparr>scp_sess := Some x\<rparr>) = (s\<lparr>scp_sess := None\<rparr>, Inr False) \<and> session_ok x \<and> length kh = 8"
proof -
  let ?s = "new_scp03 (replicate 16 1) (replicate 16 2) (replicate 16 3)"
  obtain x kh where *: "session_ok x" "length kh = 8"
      "\<forall>y. external_authenticate sample_cipher y (replicate 8 1) (replicate 8 2) (?s\<lparr>scp_sess := Some x\<rparr>) =
        (if y = kh then (?s\<lparr>scp_sess := Some x\<rparr>, Inr True) else (?s\<lparr>scp_sess := None\<rparr>, Inr False))"
    using scp_authentication [OF sample_cipher_ok, of ?s "replicate 8 1" "replicate 8 2" "[]" "[]"] by (auto simp: new_scp03_def)
  have "map (\<lambda>b. b + 1) kh \<noteq> kh" using *(2) by (cases kh) auto
  with *(3) have "external_authenticate sample_cipher (map (\<lambda>b. b + 1) kh) (replicate 8 1) (replicate 8 2) (?s\<lparr>scp_sess := Some x\<rparr>)
      = (?s\<lparr>scp_sess := None\<rparr>, Inr False)" by simp
  with *(1,2) show ?thesis by blast
qed

section \<open>The channel\<close>

text \<open>The peer: it checks the MAC of a command over the chaining value, and deciphers its body.\<close>

definition open_command :: "cipher \<Rightarrow> bytes \<Rightarrow> scp_session \<Rightarrow> (scp_session \<times> bytes) option" where
  "open_command c w x =
     (let n = length w; body = slice w 4 (n - 8) in
      if n < 12 then None
      else case ci_cmac c (s_mac x) (mac_chaining x @ take (n - 8) w) of
        Inl _ \<Rightarrow> None
      | Inr mac \<Rightarrow>
          if drop (n - 8) w \<noteq> take 8 mac then None
          else case (if body = [] then Inr [] else rbind (generate_icv c x) (\<lambda>iv. ci_decrypt c (s_enc x) iv body)) of
            Inl _ \<Rightarrow> None
          | Inr plain \<Rightarrow> Some (x\<lparr>mac_chaining := mac, s_counter := s_counter x + 1\<rparr>, take 4 w @ scp_unpad plain))"

fun wrap_all :: "cipher \<Rightarrow> bytes list \<Rightarrow> scp03 \<Rightarrow> scp03 \<times> bytes list res" where
  "wrap_all c [] s = (s, Inr [])"
| "wrap_all c (a # as) s = (case wrap_command c a s of
     (s', Inl e) \<Rightarrow> (s', Inl e)
   | (s', Inr w) \<Rightarrow> (case wrap_all c as s' of (s'', r) \<Rightarrow> (s'', rbind r (\<lambda>ws. Inr (w # ws)))))"

fun open_all :: "cipher \<Rightarrow> bytes list \<Rightarrow> scp_session \<Rightarrow> (scp_session \<times> bytes list) option" where
  "open_all c [] x = Some (x, [])"
| "open_all c (w # ws) x = (case open_command c w x of None \<Rightarrow> None
   | Some (x', a) \<Rightarrow> (case open_all c ws x' of None \<Rightarrow> None | Some (x'', as) \<Rightarrow> Some (x'', a # as)))"

lemma icv_ok:
  assumes "cipher_ok c" "session_ok x" "s_counter x < 2 ^ 128"
  obtains iv where "generate_icv c x = Inr iv" "length iv = 16"
proof -
  have "to_bytes_be 16 (s_counter x) = Inr (be_bytes 16 (nat (s_counter x)))"
    using assms(2,3) by (simp add: to_bytes_be_def session_ok_def)
  moreover obtain iv where "ci_block c (s_enc x) (be_bytes 16 (nat (s_counter x))) = Inr iv" "length iv = 16"
    using cipher_okD(1) [OF assms(1), of "s_enc x" "be_bytes 16 (nat (s_counter x))"] assms(2) by (auto simp: session_ok_def)
  ultimately show ?thesis using that by (simp add: generate_icv_def)
qed

lemma encrypt_ok:
  assumes "cipher_ok c" "session_ok x" "s_counter x < 2 ^ 128"
  obtains b where "encrypt_data c x d = Inr b" "b = [] \<longleftrightarrow> d = []"
    "(if b = [] then Inr [] else rbind (generate_icv c x) (\<lambda>iv. ci_decrypt c (s_enc x) iv b)) = Inr (if d = [] then [] else scp_pad d)"
proof (cases "d = []")
  case True
  then show ?thesis using that by (simp add: encrypt_data_def)
next
  case False
  obtain iv where iv: "generate_icv c x = Inr iv" "length iv = 16" by (rule icv_ok [OF assms])
  obtain b where b: "ci_encrypt c (s_enc x) iv (scp_pad d) = Inr b" "length b = length (scp_pad d)" "ci_decrypt c (s_enc x) iv b = Inr (scp_pad d)"
    using cipher_okD(2) [OF assms(1) _ iv(2) length_pad(1), of "s_enc x" d] assms(2) by (auto simp: session_ok_def)
  have "b \<noteq> []" using b(2) length_pad(2) [of d] by auto
  with False iv b show ?thesis by (intro that [of b]) (simp_all add: encrypt_data_def)
qed

lemma wrap_open:
  assumes "cipher_ok c" "session_ok x" "s_counter x < 2 ^ 128" "scp_sess s = Some x" "4 \<le> length a"
  obtains w x' where "wrap_command c a s = (s\<lparr>scp_sess := Some x'\<rparr>, Inr w)" "open_command c w x = Some (x', a)"
    "session_ok x'" "s_counter x' = s_counter x + 1"
proof -
  obtain b where b: "encrypt_data c x (drop 4 a) = Inr b" "b = [] \<longleftrightarrow> drop 4 a = []"
    "(if b = [] then Inr [] else rbind (generate_icv c x) (\<lambda>iv. ci_decrypt c (s_enc x) iv b)) = Inr (if drop 4 a = [] then [] else scp_pad (drop 4 a))"
    by (rule encrypt_ok [OF assms(1-3)])
  obtain mac where mac: "ci_cmac c (s_mac x) (mac_chaining x @ take 4 a @ b) = Inr mac" "length mac = 16"
    using cipher_okD(3) [OF assms(1), of "s_mac x"] assms(2) by (auto simp: session_ok_def)
  let ?w = "take 4 a @ b @ take 8 mac" and ?x = "x\<lparr>mac_chaining := mac, s_counter := s_counter x + 1\<rparr>"
  have n: "length ?w = 4 + length b + 8" using mac(2) assms(5) by simp
  have parts: "take (length ?w - 8) ?w = take 4 a @ b" "drop (length ?w - 8) ?w = take 8 mac" "slice ?w 4 (length ?w - 8) = b" "take 4 ?w = take 4 a"
    using assms(5) mac(2) by (simp_all add: slice_def)
  have "scp_unpad (if drop 4 a = [] then [] else scp_pad (drop 4 a)) = drop 4 a" by simp
  then have "open_command c ?w x = Some (?x, take 4 a @ drop 4 a)"
    unfolding open_command_def Let_def parts b(3) using assms(5) by (simp add: mac)
  then have "open_command c ?w x = Some (?x, a)" by simp
  moreover have "wrap_command c a s = (s\<lparr>scp_sess := Some ?x\<rparr>, Inr ?w)"
    using mac b(1) assms(4) by (simp add: wrap_command_def)
  moreover have "session_ok ?x" using assms(2) mac(2) by (simp add: session_ok_def)
  ultimately show ?thesis using that by simp
qed



section \<open>Responses\<close>

text \<open>A response as the peer protects it, with the session that follows the command.\<close>

definition protect_response :: "cipher \<Rightarrow> scp_session \<Rightarrow> bytes \<Rightarrow> bytes \<Rightarrow> bytes res" where
  "protect_response c x d sw = rbind (encrypt_data c x d) (\<lambda>b.
     rbind (ci_cmac c (s_rmac x) (mac_chaining x @ b @ sw)) (\<lambda>mac. Inr (b @ take 8 mac @ sw)))"

lemma unwrap_parts:
  assumes "scp_sess s = Some x" "length m = 8" "length sw = 2"
  shows "unwrap_response c (b @ m @ sw) s = rbind (ci_cmac c (s_rmac x) (mac_chaining x @ b @ sw)) (\<lambda>mac.
     if m \<noteq> take 8 mac then Inl SecurityError
     else if b = [] then Inr sw else rbind (generate_icv c x) (\<lambda>iv. rbind (ci_decrypt c (s_enc x) iv b) (\<lambda>plain. Inr (scp_unpad plain @ sw))))"
proof -
  have "length (b @ m @ sw) = length b + 10" using assms by simp
  then have "take (length (b @ m @ sw) - 10) (b @ m @ sw) = b" "drop (length (b @ m @ sw) - 2) (b @ m @ sw) = sw"
    "slice (b @ m @ sw) (length (b @ m @ sw) - 10) (length (b @ m @ sw) - 2) = m" "\<not> length (b @ m @ sw) < 10"
    using assms(2,3) by (simp_all add: slice_def)
  then show ?thesis using assms(1) by (simp only: unwrap_response_def Let_def option.case if_False compare_eq if_not_P) (simp cong: if_cong)
qed

text \<open>
  What \<^verbatim>\<open>unwrap_response\<close> checks and what it does not. The response of a peer with the same session
  gives the data and the status word. A response of ten bytes or more with any other MAC raises; but
  shorter ones are passed on unchecked, so every bare status word of an attacker is believed. The
  session is not changed by a response: the same response can be unwrapped any number of times.
\<close>

theorem scp_responses:
  assumes "cipher_ok c" "session_ok x" "s_counter x < 2 ^ 128" "scp_sess s = Some x" "length sw = 2"
  shows "rbind (protect_response c x d sw) (\<lambda>w. unwrap_response c w s) = Inr (d @ sw)
    \<and> (\<forall>b m. length m = 8 \<longrightarrow> Inr m \<noteq> rbind (ci_cmac c (s_rmac x) (mac_chaining x @ b @ sw)) (\<lambda>mac. Inr (take 8 mac)) \<longrightarrow>
      unwrap_response c (b @ m @ sw) s = Inl SecurityError)
    \<and> (\<forall>forged. length forged < 10 \<longrightarrow> unwrap_response c forged s = Inr forged)"
proof (intro conjI)
  obtain b where b: "encrypt_data c x d = Inr b" "b = [] \<longleftrightarrow> d = []"
    "(if b = [] then Inr [] else rbind (generate_icv c x) (\<lambda>iv. ci_decrypt c (s_enc x) iv b)) = Inr (if d = [] then [] else scp_pad d)"
    by (rule encrypt_ok [OF assms(1-3)])
  have cm: "\<exists>mac. ci_cmac c (s_rmac x) y = Inr mac \<and> length mac = 16" for y
    using cipher_okD(3) [OF assms(1), of "s_rmac x"] assms(2) by (auto simp: session_ok_def)
  then obtain mac where mac: "ci_cmac c (s_rmac x) (mac_chaining x @ b @ sw) = Inr mac" "length mac = 16" by blast
  show "rbind (protect_response c x d sw) (\<lambda>w. unwrap_response c w s) = Inr (d @ sw)"
    using b mac by (auto simp: protect_response_def unwrap_parts [OF assms(4)] assms(5) rbind_eq_Inr split: if_splits)
  show "\<forall>b m. length m = 8 \<longrightarrow> Inr m \<noteq> rbind (ci_cmac c (s_rmac x) (mac_chaining x @ b @ sw)) (\<lambda>mac. Inr (take 8 mac)) \<longrightarrow>
      unwrap_response c (b @ m @ sw) s = Inl SecurityError"
  proof (intro allI impI)
    fix b m assume m: "length (m :: bytes) = 8" "Inr m \<noteq> rbind (ci_cmac c (s_rmac x) (mac_chaining x @ b @ sw)) (\<lambda>mac. Inr (take 8 mac))"
    obtain mac where "ci_cmac c (s_rmac x) (mac_chaining x @ b @ sw) = Inr mac" using cm by blast
    with m show "unwrap_response c (b @ m @ sw) s = Inl SecurityError" by (simp add: unwrap_parts [OF assms(4) m(1) assms(5)])
  qed
qed (simp add: unwrap_response_def assms(4))

theorem scp_responses_witness:
  "rbind (protect_response sample_cipher sample_session [1, 2, 3] [0x90, 0]) (\<lambda>w.
      unwrap_response sample_cipher w ((new_scp03 [] [] [])\<lparr>scp_sess := Some sample_session\<rparr>)) = Inr [1, 2, 3, 0x90, 0]
    \<and> unwrap_response sample_cipher [0x6A, 0x82] ((new_scp03 [] [] [])\<lparr>scp_sess := Some sample_session\<rparr>) = Inr [0x6A, 0x82]"
  using scp_responses [OF sample_cipher_ok sample_session_ok(1), of "(new_scp03 [] [] [])\<lparr>scp_sess := Some sample_session\<rparr>" "[0x90, 0]" "[1, 2, 3]"]
  by (simp add: sample_session_ok)

end
