(* ===== verification/Isdr.thy ===== *)
theory Isdr
  imports Scp03 Json
begin

text \<open>
  \<^verbatim>\<open>euicc/isdr.py\<close>: the root security domain. The elliptic-curve keys and their PEM files come from
  the \<^verbatim>\<open>cryptography\<close> package and SHA-256 from \<^verbatim>\<open>hashlib\<close>: they are parameters, with the documented
  behaviour in \<open>key_library_ok\<close>. The key directory is the map from file names to contents; writing to
  it succeeds.
\<close>

section \<open>The libraries\<close>

record ('sk, 'pk) key_library =
  kl_public :: "'sk \<Rightarrow> 'pk"
  kl_private_pem :: "'sk \<Rightarrow> bytes"
  kl_load_pem :: "bytes \<Rightarrow> 'sk res"
  kl_public_pem :: "'pk \<Rightarrow> bytes"
  kl_point :: "'pk \<Rightarrow> bytes"
  kl_sign :: "'sk \<Rightarrow> bytes \<Rightarrow> bytes"
  kl_verify :: "'pk \<Rightarrow> bytes \<Rightarrow> bytes \<Rightarrow> unit res"
  kl_sha256 :: "bytes \<Rightarrow> bytes"

definition key_library_ok :: "('sk, 'pk) key_library \<Rightarrow> bool" where
  "key_library_ok l \<longleftrightarrow> (\<forall>k. kl_load_pem l (kl_private_pem l k) = Inr k)
     \<and> (\<forall>k d. kl_verify l (kl_public l k) (kl_sign l k d) d = Inr ()) \<and> (\<forall>d. length (kl_sha256 l d) = 32)"

section \<open>The state\<close>

record keyset =
  ks_enc :: bytes
  ks_mac :: bytes
  ks_dek :: bytes

record ('sk, 'pk) isdr =
  ir_eid :: string
  ir_private :: "'sk option"
  ir_public :: "'pk option"
  ir_certificate :: "bytes option"
  ir_key_sets :: "(int \<times> keyset) list"
  ir_initialized :: bool

definition ISDR_AID :: bytes where
  "ISDR_AID = [0xA0, 0, 0, 0x05, 0x59, 0x10, 0x10, 0xFF, 0xFF, 0xFF, 0xFF, 0x89, 0, 0, 0x01, 0]"

definition new_isdr :: "string \<Rightarrow> ('sk, 'pk) isdr" where
  "new_isdr eid = \<lparr>ir_eid = eid, ir_private = None, ir_public = None, ir_certificate = None, ir_key_sets = [], ir_initialized = False\<rparr>"

type_synonym key_dir = "string \<rightharpoonup> bytes"

section \<open>Operations\<close>

text \<open>\<^verbatim>\<open>_load_keys\<close>; \<open>fresh\<close> is the key that \<^verbatim>\<open>generate_private_key\<close> would draw.\<close>

definition load_keys :: "('sk, 'pk) key_library \<Rightarrow> 'sk \<Rightarrow> key_dir \<Rightarrow> ('sk, 'pk) isdr \<Rightarrow> key_dir \<times> ('sk, 'pk) isdr res" where
  "load_keys l fresh fs s =
     (case fs ''euicc_sk.pem'' of
        Some pem \<Rightarrow> (fs, rbind (kl_load_pem l pem) (\<lambda>k.
          Inr (s\<lparr>ir_private := Some k, ir_public := Some (kl_public l k),
            ir_certificate := (case fs ''euicc_cert.pem'' of None \<Rightarrow> ir_certificate s | c \<Rightarrow> c)\<rparr>)))
      | None \<Rightarrow> (fs(''euicc_sk.pem'' \<mapsto> kl_private_pem l fresh, ''euicc_pk.pem'' \<mapsto> kl_public_pem l (kl_public l fresh)),
          Inr (s\<lparr>ir_private := Some fresh, ir_public := Some (kl_public l fresh),
            ir_certificate := (case fs ''euicc_cert.pem'' of None \<Rightarrow> ir_certificate s | c \<Rightarrow> c)\<rparr>)))"

definition default_keyset :: "('sk, 'pk) key_library \<Rightarrow> string \<Rightarrow> keyset" where
  "default_keyset l eid =
     (let base = kl_sha256 l (utf8 (eid @ ''SCP03_DEFAULT'')) in
      \<lparr>ks_enc = take 16 base, ks_mac = take 16 (kl_sha256 l (base @ utf8 ''MAC'')),
       ks_dek = take 16 (kl_sha256 l (base @ utf8 ''DEK''))\<rparr>)"

definition init_default_keyset :: "('sk, 'pk) key_library \<Rightarrow> ('sk, 'pk) isdr \<Rightarrow> ('sk, 'pk) isdr" where
  "init_default_keyset l s = s\<lparr>ir_key_sets := dict_set 1 (default_keyset l (ir_eid s)) (ir_key_sets s)\<rparr>"

text \<open>When loading the key raises nothing of the object has changed.\<close>

definition isdr_initialize :: "('sk, 'pk) key_library \<Rightarrow> 'sk \<Rightarrow> key_dir \<Rightarrow> ('sk, 'pk) isdr \<Rightarrow> key_dir \<times> ('sk, 'pk) isdr res" where
  "isdr_initialize l fresh fs s = (case load_keys l fresh fs s of (fs', r) \<Rightarrow>
     (fs', rbind r (\<lambda>s'. Inr ((init_default_keyset l s')\<lparr>ir_initialized := True\<rparr>))))"

definition get_public_key_bytes :: "('sk, 'pk) key_library \<Rightarrow> ('sk, 'pk) isdr \<Rightarrow> bytes res" where
  "get_public_key_bytes l s = (case ir_public s of None \<Rightarrow> Inl RuntimeError | Some k \<Rightarrow> Inr (kl_point l k))"

definition isdr_sign :: "('sk, 'pk) key_library \<Rightarrow> bytes \<Rightarrow> ('sk, 'pk) isdr \<Rightarrow> bytes res" where
  "isdr_sign l d s = (case ir_private s of None \<Rightarrow> Inl RuntimeError | Some k \<Rightarrow> Inr (kl_sign l k d))"

definition isdr_verify :: "('sk, 'pk) key_library \<Rightarrow> bytes \<Rightarrow> bytes \<Rightarrow> 'pk \<Rightarrow> bool" where
  "isdr_verify l d signature key \<longleftrightarrow> \<not> raises (kl_verify l key signature d)"

definition get_keyset :: "int \<Rightarrow> ('sk, 'pk) isdr \<Rightarrow> keyset res" where
  "get_keyset version s = (case map_of (ir_key_sets s) version of None \<Rightarrow> Inl KeyError | Some k \<Rightarrow> Inr k)"

definition isdr_get_eid :: "('sk, 'pk) isdr \<Rightarrow> string" where "isdr_get_eid s = ir_eid s"
definition get_certificate :: "('sk, 'pk) isdr \<Rightarrow> bytes option" where "get_certificate s = ir_certificate s"
definition is_initialized :: "('sk, 'pk) isdr \<Rightarrow> bool" where "is_initialized s = ir_initialized s"

definition keyset_scp03 :: "keyset \<Rightarrow> scp03" where
  "keyset_scp03 k = new_scp03 (ks_enc k) (ks_mac k) (ks_dek k)"

section \<open>Restarts and keys\<close>

text \<open>What every start of the root domain gives, on whatever key directory.\<close>

lemma initialize_result:
  assumes "isdr_initialize l fresh fs (new_isdr eid) = (fs', Inr s)" "key_library_ok l"
  obtains k where "ir_private s = Some k" "ir_public s = Some (kl_public l k)" "ir_key_sets s = [(1, default_keyset l eid)]"
    "ir_initialized s" "\<exists>pem. fs' ''euicc_sk.pem'' = Some pem \<and> kl_load_pem l pem = Inr k" "fs ''euicc_sk.pem'' \<noteq> None \<Longrightarrow> fs' = fs"
proof (cases "fs ''euicc_sk.pem''")
  case None
  then show ?thesis using assms that [of fresh]
    by (auto simp: isdr_initialize_def load_keys_def init_default_keyset_def new_isdr_def key_library_ok_def)
next
  case (Some pem)
  then obtain k where "kl_load_pem l pem = Inr k" using assms(1)
    by (auto simp: isdr_initialize_def load_keys_def rbind_eq_Inr)
  with Some assms(1) show ?thesis using that [of k]
    by (auto simp: isdr_initialize_def load_keys_def init_default_keyset_def new_isdr_def)
qed

text \<open>
  The root domain keeps its identity over restarts. Whatever the key directory held, after one start
  every later one, whatever key it would draw, writes nothing and has the same key pair: what the
  first signed is verified with the public key of the second.
\<close>

theorem isdr_restart:
  assumes "key_library_ok l" "isdr_initialize l fresh fs (new_isdr eid) = (fs', Inr s)"
  shows "\<exists>t. isdr_initialize l fresh' fs' (new_isdr eid) = (fs', Inr t) \<and> ir_private t = ir_private s
    \<and> get_public_key_bytes l t = get_public_key_bytes l s \<and> get_keyset 1 t = get_keyset 1 s
    \<and> (\<exists>sg key. isdr_sign l d s = Inr sg \<and> ir_public t = Some key \<and> isdr_verify l d sg key)"
proof -
  obtain k where k: "ir_private s = Some k" "ir_public s = Some (kl_public l k)" "ir_key_sets s = [(1, default_keyset l eid)]"
    "\<exists>pem. fs' ''euicc_sk.pem'' = Some pem \<and> kl_load_pem l pem = Inr k"
    using initialize_result [OF assms(2,1)] by metis
  then obtain t where t: "isdr_initialize l fresh' fs' (new_isdr eid) = (fs', Inr t)"
    by (auto simp: isdr_initialize_def load_keys_def)
  obtain k' where k': "ir_private t = Some k'" "ir_public t = Some (kl_public l k')" "ir_key_sets t = [(1, default_keyset l eid)]"
    "\<exists>pem. fs' ''euicc_sk.pem'' = Some pem \<and> kl_load_pem l pem = Inr k'"
    using initialize_result [OF t assms(1)] by metis
  have "k' = k" using k(4) k'(4) by auto
  moreover have "isdr_verify l d (kl_sign l k d) (kl_public l k)" using assms(1) by (simp add: isdr_verify_def key_library_ok_def)
  ultimately show ?thesis using t k k' by (simp add: get_public_key_bytes_def get_keyset_def isdr_sign_def)
qed

definition sample_library :: "(bytes, bytes) key_library" where
  "sample_library = \<lparr>kl_public = (\<lambda>k. k), kl_private_pem = (\<lambda>k. k), kl_load_pem = Inr, kl_public_pem = (\<lambda>k. k), kl_point = (\<lambda>k. 4 # k),
     kl_sign = (@), kl_verify = (\<lambda>k sg d. if sg = k @ d then Inr () else Inl SecurityError), kl_sha256 = (\<lambda>d. take 32 (d @ replicate 32 0))\<rparr>"

lemma sample_library_ok: "key_library_ok sample_library"
  by (auto simp: key_library_ok_def sample_library_def min_def)

text \<open>A first start on an empty key directory.\<close>

lemma sample_start: "\<exists>fs s. isdr_initialize sample_library [7] Map.empty (new_isdr ''89001'') = (fs, Inr s) \<and> ir_private s = Some [7]"
  by (simp add: isdr_initialize_def load_keys_def new_isdr_def init_default_keyset_def)

theorem isdr_restart_witness:
  "\<exists>fs t. isdr_initialize sample_library [8] fs (new_isdr ''89001'') = (fs, Inr t) \<and> ir_private t = Some [7]
    \<and> (\<exists>sg key. ir_public t = Some key \<and> isdr_verify sample_library [1, 2] sg key)"
proof -
  obtain fs s where "isdr_initialize sample_library [7] Map.empty (new_isdr ''89001'') = (fs, Inr s)" "ir_private s = Some [7]"
    using sample_start by blast
  with isdr_restart [OF sample_library_ok this(1), of "[8]" "[1, 2]"] show ?thesis by auto
qed

text \<open>The default keys have the length SCP03 needs.\<close>

lemma default_keyset_length: "key_library_ok l \<Longrightarrow> length (ks_enc (default_keyset l eid)) = 16 \<and> length (ks_mac (default_keyset l eid)) = 16"
  by (simp add: key_library_ok_def default_keyset_def Let_def)



end
