(* ===== verification/Epdg.thy ===== *)
theory Epdg
  imports Auth_Helper
begin

text \<open>
  \<^verbatim>\<open>scripts/provision_epdg.py\<close>: the AKA quintuplets of the ePDG. The subscriber documents are what
  MongoDB answers, empty when it cannot be reached; \<open>rands\<close> are the draws of \<^verbatim>\<open>os.urandom(16)\<close>; the
  SQLite database is its table of rows with the next automatic id.
\<close>

section \<open>Quintuplets\<close>

record quintuplet =
  q_permanent :: string
  q_rand :: bytes
  q_autn :: bytes
  q_ik :: bytes
  q_ck :: bytes
  q_res :: bytes

definition epdg_nai :: "string \<Rightarrow> string" where
  "epdg_nai imsi = ''0'' @ imsi @ ''@nai.epc.mnc'' @ zfill 3 (slice imsi 3 5) @ ''.mcc'' @ take 3 imsi @ ''.3gppnetwork.org''"

definition epdg_amf :: bytes where "epdg_amf = [0x80, 0]"

text \<open>The loop; its sequence number goes up in steps of 32.\<close>

fun quintuplets_from :: "aes \<Rightarrow> milenage \<Rightarrow> string \<Rightarrow> (nat \<Rightarrow> bytes) \<Rightarrow> nat \<Rightarrow> int \<Rightarrow> nat \<Rightarrow> quintuplet list res" where
  "quintuplets_from aes mil permanent rands i sqn 0 = Inr []"
| "quintuplets_from aes mil permanent rands i sqn (Suc n) =
     rbind (aka_vector aes mil (rands i) sqn epdg_amf) (\<lambda>(autn, res, ck, ik).
     rbind (quintuplets_from aes mil permanent rands (Suc i) (sqn + 32) n) (\<lambda>qs.
     Inr (\<lparr>q_permanent = permanent, q_rand = rands i, q_autn = autn, q_ik = ik, q_ck = ck, q_res = res\<rparr> # qs)))"

text \<open>The IMSI and the sequence number come out of the document unchecked.\<close>

definition generate_quintuplets :: "aes \<Rightarrow> (nat \<Rightarrow> bytes) \<Rightarrow> nat \<Rightarrow> bytes \<Rightarrow> bytes \<Rightarrow> json \<Rightarrow> int \<Rightarrow> json \<Rightarrow> quintuplet list res" where
  "generate_quintuplets aes rands i ki opc imsi count sqn_start =
     rbind (mil_init ki opc) (\<lambda>mil. rbind (as_str imsi) (\<lambda>imsi. rbind (if 0 < count then as_int sqn_start else Inr 0) (\<lambda>sqn.
     quintuplets_from aes mil (epdg_nai imsi) rands i sqn (nat count))))"

section \<open>The database\<close>

record epdg_db =
  db_next :: nat
  db_rows :: "(nat \<times> quintuplet \<times> bool) list"

definition empty_db :: epdg_db where
  "empty_db = \<lparr>db_next = 1, db_rows = []\<rparr>"

text \<open>
  A path without a directory makes \<^verbatim>\<open>makedirs\<close> raise. Deleting the rows does not reset the automatic ids;
  every new row is unused.
\<close>

definition create_database :: "string \<Rightarrow> quintuplet list \<Rightarrow> epdg_db \<Rightarrow> epdg_db res" where
  "create_database path qs db =
     (if CHR ''/'' \<notin> set path then Inl OSError
      else Inr \<lparr>db_next = db_next db + length qs, db_rows = zip [db_next db..<db_next db + length qs] (map (\<lambda>q. (q, False)) qs)\<rparr>)"

definition count_rows :: "string \<Rightarrow> epdg_db \<Rightarrow> nat" where
  "count_rows permanent db = length (filter (\<lambda>(_, q, _). q_permanent q = permanent) (db_rows db))"

section \<open>The script\<close>

text \<open>One document: skipped when a credential is missing, an exception when it is not well-formed.\<close>

definition provision_subscriber :: "aes \<Rightarrow> (nat \<Rightarrow> bytes) \<Rightarrow> nat \<Rightarrow> int \<Rightarrow> dict \<Rightarrow> quintuplet list res" where
  "provision_subscriber aes rands i count sub =
     (let imsi = dict_get sub ''imsi'' (JStr []) in
      rbind (as_obj (dict_get sub ''security'' (JObj []))) (\<lambda>security.
      let ki_hex = dict_get security ''k'' (JStr []); op_hex = dict_get security ''op_value'' (JStr []);
          op_type = dict_get security ''op_type'' (JInt 0); sqn = dict_get security ''sqn'' (JInt 32) in
      if \<not> json_true imsi \<or> \<not> json_true ki_hex \<or> \<not> json_true op_hex then Inr []
      else rbind (rbind (as_str ki_hex) fromhex) (\<lambda>ki.
        rbind (if op_type = JInt 0 \<or> op_type = JBool False
               then rbind (mil_init ki (replicate 16 0)) (\<lambda>_. rbind (rbind (as_str op_hex) fromhex) (compute_opc aes ki))
               else rbind (as_str op_hex) fromhex) (\<lambda>opc.
        generate_quintuplets aes rands i ki opc imsi count sqn))))"

fun provision_all :: "aes \<Rightarrow> (nat \<Rightarrow> bytes) \<Rightarrow> nat \<Rightarrow> int \<Rightarrow> dict list \<Rightarrow> quintuplet list res" where
  "provision_all aes rands i count [] = Inr []"
| "provision_all aes rands i count (sub # subs) =
     rbind (provision_subscriber aes rands i count sub) (\<lambda>qs.
     rbind (provision_all aes rands (i + length qs) count subs) (\<lambda>rest. Inr (qs @ rest)))"

text \<open>\<open>mongo n\<close> is what the \<open>n\<close>th query gives. Sixty empty answers and the script exits.\<close>

primrec wait_mongo :: "(nat \<Rightarrow> dict list) \<Rightarrow> nat \<Rightarrow> nat \<Rightarrow> nat option" where
  "wait_mongo mongo 0 i = None"
| "wait_mongo mongo (Suc n) i = (if mongo i \<noteq> [] then Some (Suc i) else wait_mongo mongo n (Suc i))"

text \<open>None is the exit with status 1.\<close>

definition provision_main :: "aes \<Rightarrow> (nat \<Rightarrow> bytes) \<Rightarrow> (nat \<Rightarrow> dict list) \<Rightarrow> bool \<Rightarrow> int \<Rightarrow> string \<Rightarrow> epdg_db \<Rightarrow> epdg_db option res" where
  "provision_main aes rands mongo wait count path db =
     (case (if wait then wait_mongo mongo 60 0 else Some 0) of
        None \<Rightarrow> Inr None
      | Some i \<Rightarrow> rbind (if mongo i = [] then create_database path [] db
                         else rbind (provision_all aes rands 0 count (mongo i)) (\<lambda>qs. create_database path qs db)) (\<lambda>db. Inr (Some db)))"

section \<open>Rows for the subscribers\<close>

record subscriber =
  su_imsi :: string
  su_keys :: milenage
  su_sqn :: int

text \<open>A document as Open5GS keeps it, with OPc.\<close>

definition subscriber_doc :: "subscriber \<Rightarrow> dict" where
  "subscriber_doc u = [(''imsi'', JStr (su_imsi u)), (''security'', JObj [(''k'', JStr (hex_of (mil_ki (su_keys u)))), (''op_type'', JInt 2),
     (''op_value'', JStr (hex_of (mil_opc (su_keys u)))), (''sqn'', JInt (su_sqn u))])]"

definition subscriber_ok :: "nat \<Rightarrow> subscriber \<Rightarrow> bool" where
  "subscriber_ok n u \<longleftrightarrow> su_imsi u \<noteq> [] \<and> mil_ok (su_keys u) \<and> 0 \<le> su_sqn u \<and> su_sqn u + 32 * int n < 2 ^ 48"

text \<open>A row of the subscriber: a vector of the network for one of its sequence numbers.\<close>

definition row_of :: "aes \<Rightarrow> (nat \<Rightarrow> bytes) \<Rightarrow> subscriber \<Rightarrow> nat \<Rightarrow> nat \<Rightarrow> quintuplet \<Rightarrow> bool" where
  "row_of aes rands u i j q \<longleftrightarrow> q_permanent q = epdg_nai (su_imsi u) \<and> q_rand q = rands i
     \<and> aka_vector aes (su_keys u) (q_rand q) (su_sqn u + 32 * int j) epdg_amf = Inr (q_autn q, q_res q, q_ck q, q_ik q)"

lemma quintuplets_rows:
  assumes "aes_ok aes" "mil_ok (su_keys u)" "\<forall>i. length (rands i) = 16" "0 \<le> su_sqn u" "su_sqn u + 32 * int (j + n) < 2 ^ 48"
  shows "\<exists>qs. quintuplets_from aes (su_keys u) (epdg_nai (su_imsi u)) rands i (su_sqn u + 32 * int j) n = Inr qs
    \<and> length qs = n \<and> (\<forall>m < n. row_of aes rands u (i + m) (j + m) (qs ! m))"
  using assms(5)
proof (induction n arbitrary: i j)
  case (Suc n)
  have "sqn_ok (su_sqn u + 32 * int j)" using assms(4) Suc.prems by (simp add: sqn_ok_def)
  then obtain autn res ck ik where v: "aka_vector aes (su_keys u) (rands i) (su_sqn u + 32 * int j) epdg_amf = Inr (autn, res, ck, ik)"
    using aka_vector_total [OF assms(1,2) assms(3) [rule_format]] by (metis epdg_amf_def length_Cons list.size(3) numeral_2_eq_2)
  from Suc.IH [of "Suc j" "Suc i"] Suc.prems
  obtain qs where qs: "quintuplets_from aes (su_keys u) (epdg_nai (su_imsi u)) rands (Suc i) (su_sqn u + 32 * int j + 32) n = Inr qs"
      "length qs = n" "\<forall>m < n. row_of aes rands u (Suc i + m) (Suc j + m) (qs ! m)"
    by (auto simp: algebra_simps)
  let ?q = "\<lparr>q_permanent = epdg_nai (su_imsi u), q_rand = rands i, q_autn = autn, q_ik = ik, q_ck = ck, q_res = res\<rparr>"
  have "row_of aes rands u i j ?q" using v by (simp add: row_of_def)
  then have "\<forall>m < Suc n. row_of aes rands u (i + m) (j + m) ((?q # qs) ! m)" using qs(3) by (auto simp: less_Suc_eq_0_disj)
  with v qs(1,2) show ?case by (intro exI [of _ "?q # qs"]) simp
qed simp

lemma subscriber_rows:
  assumes "aes_ok aes" "\<forall>i. length (rands i) = 16" "subscriber_ok n u"
  shows "\<exists>qs. provision_subscriber aes rands i (int n) (subscriber_doc u) = Inr qs
    \<and> length qs = n \<and> (\<forall>m < n. row_of aes rands u (i + m) m (qs ! m))"
proof -
  have u: "su_imsi u \<noteq> []" "mil_ok (su_keys u)" "0 \<le> su_sqn u" "su_sqn u + 32 * int (0 + n) < 2 ^ 48"
    using assms(3) by (simp_all add: subscriber_ok_def)
  then have h: "hex_of (mil_ki (su_keys u)) \<noteq> []" "hex_of (mil_opc (su_keys u)) \<noteq> []"
    by (metis length_hex_of list.size(3) mil_ok_def mult_is_0 zero_neq_numeral)+
  have "provision_subscriber aes rands i (int n) (subscriber_doc u) =
      quintuplets_from aes (su_keys u) (epdg_nai (su_imsi u)) rands i (if n = 0 then 0 else su_sqn u) n"
    using u h by (cases "su_keys u") (simp add: provision_subscriber_def subscriber_doc_def dict_get_def json_true_def generate_quintuplets_def mil_init_def mil_ok_def)
  then show ?thesis
    using quintuplets_rows [OF assms(1) u(2) assms(2) u(3,4), of i] by (cases "n = 0") auto
qed

lemma all_rows:
  assumes "aes_ok aes" "\<forall>i. length (rands i) = 16" "list_all (subscriber_ok n) us"
  shows "\<exists>qs. provision_all aes rands i (int n) (map subscriber_doc us) = Inr qs
    \<and> length qs = length us * n \<and> (\<forall>k < length us. \<forall>m < n. row_of aes rands (us ! k) (i + k * n + m) m (qs ! (k * n + m)))"
  using assms(3)
proof (induction us arbitrary: i)
  case (Cons u us)
  obtain qs where qs: "provision_subscriber aes rands i (int n) (subscriber_doc u) = Inr qs" "length qs = n"
      "\<forall>m < n. row_of aes rands u (i + m) m (qs ! m)"
    using subscriber_rows [OF assms(1,2), of n u i] Cons.prems by auto
  obtain rest where rest: "provision_all aes rands (i + n) (int n) (map subscriber_doc us) = Inr rest" "length rest = length us * n"
      "\<forall>k < length us. \<forall>m < n. row_of aes rands (us ! k) (i + n + k * n + m) m (rest ! (k * n + m))"
    using Cons.IH [of "i + n"] Cons.prems by auto
  have "row_of aes rands ((u # us) ! k) (i + k * n + m) m ((qs @ rest) ! (k * n + m))" if "k < Suc (length us)" "m < n" for k m
  proof (cases k)
    case 0
    then show ?thesis using that qs(2,3) by (simp add: nth_append)
  next
    case (Suc k')
    then have "row_of aes rands (us ! k') (i + n + k' * n + m) m (rest ! (k' * n + m))" using that rest(3) by simp
    moreover have "(qs @ rest) ! (k * n + m) = rest ! (k' * n + m)" using Suc qs(2) by (simp add: nth_append)
    moreover have "i + n + k' * n + m = i + k * n + m" using Suc by simp
    ultimately show ?thesis using Suc by simp
  qed
  with qs(1,2) rest(1,2) show ?case by (intro exI [of _ "qs @ rest"]) simp
qed simp


text \<open>
  C39: what the script provisions is what the subscribers' cards accept. For documents as Open5GS keeps them
  the old rows are gone and each subscriber has as many unused rows as were asked for, in order, under
  its identity and with sequence numbers in steps of 32; a card with the subscriber's keys answers every
  row with the row's RES, CK and IK, as long as its own number has not passed that of the row.
\<close>

theorem epdg_rows_authenticate:
  assumes "aes_ok aes" "\<forall>i. length (rands i) = 16" "list_all (subscriber_ok n) us" "us \<noteq> []" "CHR ''/'' \<in> set path"
  shows "\<exists>db'. provision_main aes rands (\<lambda>_. map subscriber_doc us) False (int n) path db = Inr (Some db')
    \<and> length (db_rows db') = length us * n
    \<and> (\<forall>k < length us. \<forall>m < n. \<exists>q. db_rows db' ! (k * n + m) = (db_next db + k * n + m, q, False)
        \<and> q_permanent q = epdg_nai (su_imsi (us ! k))
        \<and> (\<forall>stored. authenticate aes (su_keys (us ! k)) (q_rand q) (q_autn q) stored =
             Inr (if su_sqn (us ! k) + 32 * int m < stored then None else Some (q_res q, q_ck q, q_ik q))))"
proof -
  obtain qs where qs: "provision_all aes rands 0 (int n) (map subscriber_doc us) = Inr qs" "length qs = length us * n"
      "\<forall>k < length us. \<forall>m < n. row_of aes rands (us ! k) (0 + k * n + m) m (qs ! (k * n + m))"
    using all_rows [OF assms(1-3), of 0] by blast
  define db' where "db' = \<lparr>db_next = db_next db + length qs, db_rows = zip [db_next db..<db_next db + length qs] (map (\<lambda>q. (q, False)) qs)\<rparr>"
  have main: "provision_main aes rands (\<lambda>_. map subscriber_doc us) False (int n) path db = Inr (Some db')"
    using qs(1) assms(4,5) by (simp add: provision_main_def create_database_def db'_def)
  have "\<exists>q. db_rows db' ! (k * n + m) = (db_next db + k * n + m, q, False) \<and> q_permanent q = epdg_nai (su_imsi (us ! k))
        \<and> (\<forall>stored. authenticate aes (su_keys (us ! k)) (q_rand q) (q_autn q) stored =
             Inr (if su_sqn (us ! k) + 32 * int m < stored then None else Some (q_res q, q_ck q, q_ik q)))"
    if "k < length us" "m < n" for k m
  proof -
    let ?q = "qs ! (k * n + m)" and ?u = "us ! k"
    have "k * n + m < length us * n"
      using that mult_le_mono1 [of "Suc k" "length us" n] by simp
    then have row: "db_rows db' ! (k * n + m) = (db_next db + k * n + m, ?q, False)" using qs(2) by (simp add: db'_def)
    have r: "row_of aes rands ?u (k * n + m) m ?q" using qs(3) that by simp
    have u: "subscriber_ok n ?u" using assms(3) that(1) by (simp add: list_all_length)
    then have sqn: "sqn_ok (su_sqn ?u + 32 * int m)" using that(2) by (simp add: subscriber_ok_def sqn_ok_def)
    have rand: "rand_ok (q_rand ?q)" using r assms(2) by (simp add: row_of_def rand_ok_def)
    have usim: "usim_ok (aes, su_keys ?u)" using u assms(1) by (simp add: usim_ok_def subscriber_ok_def)
    have v: "usim_vector (aes, su_keys ?u) (q_rand ?q) (su_sqn ?u + 32 * int m) epdg_amf = Inr (q_autn ?q, q_res ?q, q_ck ?q, q_ik ?q)"
      using r unfolding row_of_def usim_vector_def fst_conv snd_conv by (elim conjE)
    have "authenticate aes (su_keys ?u) (q_rand ?q) (q_autn ?q) stored =
        Inr (if su_sqn ?u + 32 * int m < stored then None else Some (q_res ?q, q_ck ?q, q_ik ?q))" for stored
      using mil_aka.auth_vector [OF usim rand sqn _ v, of stored] by (simp add: usim_auth_def epdg_amf_def)
    then show ?thesis using row r by (auto simp: row_of_def)
  qed
  with main qs(2) show ?thesis by (intro exI [of _ db']) (simp add: db'_def)
qed

definition sample_subscriber :: subscriber where
  "sample_subscriber = \<lparr>su_imsi = ''001010000000001'', su_keys = sample_mil, su_sqn = 32\<rparr>"

lemma sample_subscriber_ok: "subscriber_ok 2 sample_subscriber"
  using sample_ok(2) by (simp add: subscriber_ok_def sample_subscriber_def)

theorem epdg_rows_authenticate_witness:
  "\<exists>db' q. provision_main sample_aes (\<lambda>_. sample_rand) (\<lambda>_. [subscriber_doc sample_subscriber]) False 2 ''/var/db'' empty_db = Inr (Some db')
     \<and> db_rows db' ! 1 = (2, q, False)
     \<and> authenticate sample_aes sample_mil (q_rand q) (q_autn q) 64 = Inr (Some (q_res q, q_ck q, q_ik q))
     \<and> authenticate sample_aes sample_mil (q_rand q) (q_autn q) 65 = Inr None"
proof -
  obtain db' where "provision_main sample_aes (\<lambda>_. sample_rand) (\<lambda>_. map subscriber_doc [sample_subscriber]) False (int 2) ''/var/db'' empty_db = Inr (Some db')"
    and rows: "\<forall>k < length [sample_subscriber]. \<forall>m < 2. \<exists>q. db_rows db' ! (k * 2 + m) = (db_next empty_db + k * 2 + m, q, False)
        \<and> q_permanent q = epdg_nai (su_imsi ([sample_subscriber] ! k))
        \<and> (\<forall>stored. authenticate sample_aes (su_keys ([sample_subscriber] ! k)) (q_rand q) (q_autn q) stored =
             Inr (if su_sqn ([sample_subscriber] ! k) + 32 * int m < stored then None else Some (q_res q, q_ck q, q_ik q)))"
    using epdg_rows_authenticate [OF sample_ok(1), of "\<lambda>_. sample_rand" 2 "[sample_subscriber]" "''/var/db''" empty_db] sample_ok(3) sample_subscriber_ok
    by auto
  moreover obtain q where "db_rows db' ! 1 = (2, q, False)"
      "\<forall>stored. authenticate sample_aes sample_mil (q_rand q) (q_autn q) stored = Inr (if 64 < stored then None else Some (q_res q, q_ck q, q_ik q))"
    using rows [rule_format, of 0 1] by (auto simp: sample_subscriber_def empty_db_def)
  ultimately show ?thesis by simp
qed

end
