(* ===== verification/Vowifi.thy ===== *)
theory Vowifi
  imports Epdg Sdp Wire
begin

text \<open>
  \<^verbatim>\<open>ims/vowifi.py\<close>: the tunnel to the ePDG. strongSwan is a separate program: a run of \<^verbatim>\<open>swanctl\<close> or
  \<^verbatim>\<open>ip\<close> is a wait whose outcome is an exception, or the exit code with the two outputs; between waits
  other tasks can change the tunnel. Files are a map from paths to texts. A monitor task is its number
  in \<open>vw_monitors\<close>, which \<^verbatim>\<open>disconnect\<close> cancels; \<open>dpd_round\<close> is one turn of its loop.
\<close>

section \<open>The state\<close>

datatype vowifi_state = DISCONNECTED | CONNECTING | AUTHENTICATING | CONNECTED | FAILED

record vowifi_config =
  vc_epdg :: string
  vc_mcc :: string
  vc_mnc :: string
  vc_imsi :: string
  vc_ki :: bytes
  vc_opc :: bytes
  vc_local_ts :: string
  vc_remote_ts :: string
  vc_ike :: string
  vc_esp :: string
  vc_rekey :: int
  vc_dpd_delay :: int
  vc_ca_cert :: string
  vc_db :: string

text \<open>The module's dictionary for the management interface.\<close>

record vowifi_status =
  vs_state :: vowifi_state
  vs_up :: bool
  vs_epdg :: string
  vs_ip :: "ustr option"
  vs_pcscf :: "ustr list"
  vs_dns :: "ustr list"
  vs_dpd_ok :: bool

text \<open>
  \<open>vw_proxy\<close> is the environment's \<^verbatim>\<open>VPHONE_IMS_PROXY\<close>, \<open>vw_db\<close> the quintuplet database, \<open>vw_counted\<close>
  the number of rows that was last logged, \<open>vw_conf_dir\<close> whether the directory \<^verbatim>\<open>/etc/strongswan.d\<close> exists,
  \<open>vw_writable\<close> whether files can be written.
\<close>

record vowifi =
  vw_config :: vowifi_config
  vw_state :: vowifi_state
  vw_ip :: "ustr option"
  vw_dns :: "ustr list"
  vw_pcscf :: "ustr list"
  vw_dpd :: "nat option"
  vw_monitors :: "nat list"
  vw_next :: nat
  vw_status :: vowifi_status
  vw_files :: "string \<rightharpoonup> string"
  vw_conf_dir :: bool
  vw_writable :: bool
  vw_db :: "epdg_db option"
  vw_counted :: "nat option"
  vw_proxy :: ustr

definition initial_status :: vowifi_status where
  "initial_status = \<lparr>vs_state = DISCONNECTED, vs_up = False, vs_epdg = [], vs_ip = None, vs_pcscf = [], vs_dns = [], vs_dpd_ok = True\<rparr>"

definition new_vowifi :: "vowifi_config \<Rightarrow> epdg_db option \<Rightarrow> ustr \<Rightarrow> vowifi" where
  "new_vowifi c db proxy = \<lparr>vw_config = c, vw_state = DISCONNECTED, vw_ip = None, vw_dns = [], vw_pcscf = [], vw_dpd = None,
     vw_monitors = [], vw_next = 0, vw_status = initial_status, vw_files = Map.empty, vw_conf_dir = True, vw_writable = True,
     vw_db = db, vw_counted = None, vw_proxy = proxy\<rparr>"

definition get_vowifi_state :: "vowifi \<Rightarrow> vowifi_status" where
  "get_vowifi_state s = vw_status s"

definition get_tunnel_info :: "vowifi \<Rightarrow> vowifi_state \<times> string \<times> ustr option \<times> ustr list \<times> ustr list" where
  "get_tunnel_info s = (vw_state s, vc_epdg (vw_config s), vw_ip s, vw_pcscf s, vw_dns s)"

definition pcscf_address :: "vowifi \<Rightarrow> ustr option" where
  "pcscf_address s = (case vw_pcscf s of [] \<Rightarrow> None | x # _ \<Rightarrow> Some x)"

definition tunnel_ip :: "vowifi \<Rightarrow> ustr option" where
  "tunnel_ip s = vw_ip s"

section \<open>Identity\<close>

definition build_nai :: "string \<Rightarrow> string \<Rightarrow> string \<Rightarrow> string" where
  "build_nai imsi mcc mnc = ''0'' @ imsi @ ''@nai.epc.mnc'' @ zfill 3 mnc @ ''.mcc'' @ zfill 3 mcc @ ''.3gppnetwork.org''"

definition config_nai :: "vowifi_config \<Rightarrow> string" where
  "config_nai c = build_nai (vc_imsi c) (vc_mcc c) (vc_mnc c)"

text \<open>It only logs.\<close>

definition verify_client_quintuplets :: "vowifi \<Rightarrow> vowifi" where
  "verify_client_quintuplets s = (case vw_db s of None \<Rightarrow> s
     | Some db \<Rightarrow> s\<lparr>vw_counted := Some (count_rows (config_nai (vw_config s)) db)\<rparr>)"

section \<open>Configuration files\<close>

definition basename :: "string \<Rightarrow> string" where
  "basename p = rev (takeWhile (\<lambda>c. c \<noteq> CHR ''/'') (rev p))"

definition unlines :: "string list \<Rightarrow> string" where
  "unlines ls = concat (map (\<lambda>l. l @ [CHR 0x0A]) ls)"

definition swanctl_config :: "bool \<Rightarrow> vowifi_config \<Rightarrow> string \<Rightarrow> string" where
  "swanctl_config ca c nai = unlines
    [''# VoWiFi client connection (auto-generated)'',
     ''connections {'',
     ''    vowifi {'',
     ''        # ePDG server'',
     ''        remote_addrs = '' @ vc_epdg c,
     ''        version = 2'',
     [],
     ''        # IKEv2 proposals'',
     ''        proposals = '' @ vc_ike c,
     ''        rekey_time = '' @ dec_int (vc_rekey c),
     [],
     ''        # Dead Peer Detection'',
     ''        dpd_delay = '' @ dec_int (vc_dpd_delay c) @ ''s'',
     [],
     ''        # UE authenticates with EAP-AKA'',
     ''        local {'',
     ''            auth = eap-aka'',
     ''            eap_id = '' @ nai,
     ''            id = '' @ nai,
     ''        }'',
     [],
     ''        # ePDG authenticates with certificate'',
     ''        remote {'',
     ''            auth = pubkey'',
     (if ca then ''            cacerts = '' @ basename (vc_ca_cert c) else ''            id = %any''),
     ''        }'',
     [],
     ''        children {'',
     ''            vowifi-child {'',
     ''                # ESP proposals'',
     ''                esp_proposals = '' @ vc_esp c,
     ''                local_ts = '' @ vc_local_ts c,
     ''                remote_ts = '' @ vc_remote_ts c,
     ''                dpd_action = restart'',
     ''                rekey_time = '' @ dec_int (vc_rekey c) @ ''s'',
     ''            }'',
     ''        }'',
     [],
     ''        # Request virtual IP and configuration from ePDG'',
     ''        vips = 0.0.0.0'',
     ''        send_cert = never'',
     ''    }'',
     ''}'']"

definition strongswan_config :: "vowifi_config \<Rightarrow> string" where
  "strongswan_config c = unlines
    [''# VoWiFi client strongSwan config (auto-generated)'',
     ''charon {'',
     ''    load_modular = yes'',
     ''    plugins {'',
     ''        eap-aka {'',
     ''        }'',
     ''        eap-simaka-sql {'',
     ''            database = sqlite://'' @ vc_db c,
     ''        }'',
     ''    }'',
     ''}'']"

definition write_file :: "string \<Rightarrow> string \<Rightarrow> vowifi \<Rightarrow> vowifi \<times> unit res" where
  "write_file path content s = (if vw_writable s then (s\<lparr>vw_files := (vw_files s)(path \<mapsto> content)\<rparr>, Inr ()) else (s, Inl OSError))"

definition SWANCTL_CONF :: string where "SWANCTL_CONF = ''/etc/swanctl/conf.d/vowifi.conf''"

definition write_swanctl_config :: "string \<Rightarrow> vowifi \<Rightarrow> vowifi \<times> unit res" where
  "write_swanctl_config nai s = write_file SWANCTL_CONF
     (swanctl_config (vw_files s (vc_ca_cert (vw_config s)) \<noteq> None) (vw_config s) nai) s"

definition write_strongswan_conf :: "vowifi \<Rightarrow> vowifi \<times> unit res" where
  "write_strongswan_conf s = (let config = strongswan_config (vw_config s) in
     if vw_conf_dir s then write_file ''/etc/strongswan.d/vowifi.conf'' config s
     else case vw_files s ''/etc/strongswan.conf'' of None \<Rightarrow> (s, Inr ())
       | Some existing \<Rightarrow> if contains (ustr ''eap-simaka-sql'') (ustr existing) then (s, Inr ())
                        else write_file ''/etc/strongswan.conf'' (existing @ [CHR 0x0A] @ config) s)"

section \<open>What strongSwan says\<close>

definition decode_strict :: "bytes \<Rightarrow> ustr res" where
  "decode_strict bs = (if utf8_valid bs then Inr (utf8_decode bs) else Inl UnicodeError)"

text \<open>\<^verbatim>\<open>name\s*=\s*\{([^}]+)\}\<close> and \<^verbatim>\<open>virtual-ip\s*[=:]\s*([\d.]+)\<close> at a position.\<close>

definition braced :: "ustr \<Rightarrow> ustr \<Rightarrow> ustr option" where
  "braced name s = Option.bind (lit name s) (\<lambda>t. Option.bind (lit [61] (dropWhile is_white t)) (\<lambda>t.
     Option.bind (lit [123] (dropWhile is_white t)) (\<lambda>t. Option.bind (span1 (\<lambda>c. c \<noteq> 125) t) (\<lambda>(x, r). if r = [] then None else Some x))))"

definition virtual_ip :: "ustr \<Rightarrow> ustr option" where
  "virtual_ip s = Option.bind (lit (ustr ''virtual-ip'') s) (\<lambda>t. case dropWhile is_white t of [] \<Rightarrow> None
     | c # r \<Rightarrow> if c = 61 \<or> c = 58 then map_option fst (span1 (\<lambda>c. is_dig c \<or> c = 46) (dropWhile is_white r)) else None)"

text \<open>Numbers with dots between them: \<open>dotted 3\<close> is \<^verbatim>\<open>\d+\.\d+\.\d+\.\d+\<close>.\<close>

primrec dotted :: "nat \<Rightarrow> ustr \<Rightarrow> (ustr \<times> ustr) option" where
  "dotted 0 s = span1 is_dig s"
| "dotted (Suc n) s = Option.bind (span1 is_dig s) (\<lambda>(d, r). Option.bind (lit [46] r) (\<lambda>r.
     map_option (\<lambda>(x, r). (d @ [46] @ x, r)) (dotted n r)))"

lemma span1_shorter: "span1 P s = Some (d, r) \<Longrightarrow> length r < length s"
  by (cases s) (auto simp: span1_def le_imp_less_Suc length_dropWhile_le split: if_splits)

lemma lit_shorter: "lit p s = Some r \<Longrightarrow> length r \<le> length s"
  by (auto simp: lit_def split: if_splits)

lemma dotted_shorter: "dotted n s = Some (x, r) \<Longrightarrow> length r < length s"
proof (induction n arbitrary: s x r)
  case 0
  then show ?case by (simp add: span1_shorter)
next
  case (Suc n)
  then obtain d r1 r2 x1 where "span1 is_dig s = Some (d, r1)" "lit [46] r1 = Some r2" "dotted n r2 = Some (x1, r)"
    by (auto simp: bind_eq_Some_conv)
  with Suc.IH [OF this(3)] span1_shorter lit_shorter show ?case by fastforce
qed

text \<open>\<^verbatim>\<open>re.findall\<close> of the addresses in a text.\<close>

function find_ips :: "ustr \<Rightarrow> ustr list" where
  "find_ips s = (case dotted 3 s of Some (x, r) \<Rightarrow> x # find_ips r | None \<Rightarrow> (case s of [] \<Rightarrow> [] | _ # t \<Rightarrow> find_ips t))"
  by pat_completeness auto
termination
  by (relation "measure length") (auto dest: dotted_shorter)

declare find_ips.simps [simp del]

definition interface_ip :: "ustr \<Rightarrow> ustr option" where
  "interface_ip s = Option.bind (lit (ustr ''inet'') s) (\<lambda>t. Option.bind (span1 is_white t) (\<lambda>(_, t).
     Option.bind (lit (ustr ''10.47.'') t) (\<lambda>t. map_option (\<lambda>(x, _). ustr ''10.47.'' @ x) (dotted 1 t))))"

definition sas_ip :: "ustr \<Rightarrow> ustr option" where
  "sas_ip out = (case (case search (braced (ustr ''local-vips'')) out of Some t \<Rightarrow> Some t | None \<Rightarrow> search virtual_ip out) of
     None \<Rightarrow> None | Some t \<Rightarrow> (case find_ips t of [] \<Rightarrow> None | x # _ \<Rightarrow> Some x))"

text \<open>What the list of security associations says replaces what was known; what it leaves out stays.\<close>

definition read_sas :: "ustr \<Rightarrow> vowifi \<Rightarrow> vowifi" where
  "read_sas out s =
     (let ip = (case sas_ip out of None \<Rightarrow> vw_ip s | x \<Rightarrow> x);
          dns = (case search (braced (ustr ''dns'')) out of None \<Rightarrow> vw_dns s | Some t \<Rightarrow> find_ips t);
          pcscf = (case search (braced (ustr ''16384-10415'')) out of None \<Rightarrow> vw_pcscf s | Some t \<Rightarrow> find_ips t)
      in s\<lparr>vw_ip := ip, vw_dns := dns, vw_pcscf := (if pcscf = [] \<and> vw_proxy s \<noteq> [] then [vw_proxy s] else pcscf)\<rparr>)"

section \<open>Control\<close>

type_synonym process_end = "(int \<times> bytes \<times> bytes) res"
type_synonym 'a vrun = "(vowifi, process_end, 'a) proc"

definition run_process :: "(int \<times> bytes \<times> bytes \<Rightarrow> 'a vrun) \<Rightarrow> 'a vrun" where
  "run_process k = (\<lambda>s. (s, Wait 0 (\<lambda>r. given r k)))"

definition vs_update :: "vowifi_state \<Rightarrow> bool \<Rightarrow> vowifi \<Rightarrow> vowifi" where
  "vs_update x up s = s\<lparr>vw_status := (vw_status s)\<lparr>vs_state := x, vs_up := up\<rparr>\<rparr>"

definition set_failed :: "vowifi \<Rightarrow> vowifi" where
  "set_failed s = vs_update FAILED False (s\<lparr>vw_state := FAILED\<rparr>)"

definition load_swanctl_config :: "unit vrun" where
  "load_swanctl_config = run_process (\<lambda>(code, out, err).
     if code \<noteq> 0 then given (decode_strict err) (\<lambda>_. throw RuntimeError) else given (decode_strict out) (\<lambda>_. ret ()))"

definition initiate_connection :: "bool vrun" where
  "initiate_connection = run_process (\<lambda>(code, out, err).
     if code = 0 then given (decode_strict out) (\<lambda>_. ret True) else given (decode_strict err) (\<lambda>_. ret False))"

definition extract_ip_from_interface :: "unit vrun" where
  "extract_ip_from_interface = run_process (\<lambda>(code, out, err). given (decode_strict out) (\<lambda>o1.
     Coroutine.act (\<lambda>s. case search interface_ip o1 of None \<Rightarrow> s | ip \<Rightarrow> s\<lparr>vw_ip := ip\<rparr>)))"

definition sas_listed :: "int \<times> bytes \<times> bytes \<Rightarrow> unit vrun" where
  "sas_listed = (\<lambda>(code, out, err). given (decode_strict out) (\<lambda>o1.
     if strip o1 = [] then ret ()
     else seq (Coroutine.act (read_sas o1)) (read (\<lambda>s. case vw_ip s of
       None \<Rightarrow> extract_ip_from_interface | Some ip \<Rightarrow> if ip = [] then extract_ip_from_interface else ret ()))))"

definition extract_tunnel_info :: "unit vrun" where
  "extract_tunnel_info = run_process sas_listed"

definition publish_tunnel :: "vowifi \<Rightarrow> vowifi" where
  "publish_tunnel s = s\<lparr>vw_status := (vw_status s)\<lparr>vs_state := vw_state s, vs_up := True, vs_ip := vw_ip s,
     vs_pcscf := vw_pcscf s, vs_dns := vw_dns s\<rparr>\<rparr>"

definition start_monitor :: "vowifi \<Rightarrow> vowifi" where
  "start_monitor s = s\<lparr>vw_dpd := Some (vw_next s), vw_monitors := vw_monitors s @ [vw_next s], vw_next := vw_next s + 1\<rparr>"

text \<open>The body of the \<^verbatim>\<open>try\<close> of \<^verbatim>\<open>connect\<close>, from its end.\<close>

definition tunnel_opened :: "bool \<Rightarrow> bool vrun" where
  "tunnel_opened ok =
     (if ok then
        seq (Coroutine.act (\<lambda>s. s\<lparr>vw_state := CONNECTED\<rparr>))
        (seq extract_tunnel_info (seq (Coroutine.act (start_monitor \<circ> publish_tunnel)) (ret True)))
      else seq (Coroutine.act set_failed) (ret False))"

definition open_tunnel :: "bool vrun" where
  "open_tunnel =
     seq load_swanctl_config
     (seq (Coroutine.act (\<lambda>s. s\<lparr>vw_state := AUTHENTICATING, vw_status := (vw_status s)\<lparr>vs_state := AUTHENTICATING\<rparr>\<rparr>))
     (cbind initiate_connection tunnel_opened))"

definition establish :: "bool vrun" where
  "establish =
     seq (Coroutine.act (\<lambda>s. if vc_ki (vw_config s) \<noteq> [] \<and> vc_opc (vw_config s) \<noteq> [] then verify_client_quintuplets s else s))
     (seq (effect (\<lambda>s. write_swanctl_config (config_nai (vw_config s)) s))
     (seq (effect write_strongswan_conf) open_tunnel))"

definition vowifi_connect :: "bool vrun" where
  "vowifi_connect = read (\<lambda>s.
     if vc_epdg (vw_config s) = [] then seq (Coroutine.act set_failed) (ret False)
     else seq (Coroutine.act (\<lambda>s. s\<lparr>vw_state := CONNECTING,
            vw_status := (vw_status s)\<lparr>vs_state := CONNECTING, vs_epdg := vc_epdg (vw_config s)\<rparr>\<rparr>))
       (cbind (attempt establish) (\<lambda>r. case r of Inr b \<Rightarrow> ret b | Inl _ \<Rightarrow> seq (Coroutine.act set_failed) (ret False))))"

definition cancel_monitor :: "vowifi \<Rightarrow> vowifi" where
  "cancel_monitor s = (case vw_dpd s of None \<Rightarrow> s | Some t \<Rightarrow> s\<lparr>vw_monitors := filter (\<lambda>x. x \<noteq> t) (vw_monitors s), vw_dpd := None\<rparr>)"

definition reset_tunnel :: "vowifi \<Rightarrow> vowifi" where
  "reset_tunnel s = s\<lparr>vw_state := DISCONNECTED, vw_ip := None, vw_pcscf := [], vw_dns := [],
     vw_status := (vw_status s)\<lparr>vs_state := DISCONNECTED, vs_up := False, vs_ip := None, vs_pcscf := [], vs_dns := []\<rparr>\<rparr>"

definition vowifi_disconnect :: "unit vrun" where
  "vowifi_disconnect = seq (Coroutine.act cancel_monitor)
     (seq (ignore (attempt (run_process (\<lambda>_. ret ())))) (Coroutine.act reset_tunnel))"

text \<open>One turn of the monitor: the sleep, the check, and a reconnection.\<close>

definition reconnect :: "unit vrun" where
  "reconnect = seq (Coroutine.act (\<lambda>s. vs_update CONNECTING False (s\<lparr>vw_state := CONNECTING\<rparr>)))
     (cbind initiate_connection (\<lambda>ok.
       if ok then seq (Coroutine.act (\<lambda>s. s\<lparr>vw_state := CONNECTED\<rparr>)) (seq extract_tunnel_info
         (Coroutine.act (\<lambda>s. s\<lparr>vw_status := (vw_status s)\<lparr>vs_state := vw_state s, vs_up := True, vs_ip := vw_ip s\<rparr>\<rparr>)))
       else Coroutine.act set_failed))"

definition monitor_check :: "unit vrun" where
  "monitor_check = run_process (\<lambda>(code, out, err). given (decode_strict out) (\<lambda>o1.
     if contains (ustr ''vowifi'') o1 \<and> contains (ustr ''ESTABLISHED'') o1
     then Coroutine.act (\<lambda>s. s\<lparr>vw_status := (vw_status s)\<lparr>vs_dpd_ok := True\<rparr>\<rparr>)
     else seq (Coroutine.act (\<lambda>s. s\<lparr>vw_status := (vw_status s)\<lparr>vs_dpd_ok := False\<rparr>\<rparr>))
       (read (\<lambda>s. if vw_state s = CONNECTED then reconnect else ret ()))))"

definition dpd_round :: "unit vrun" where
  "dpd_round s = (s, Wait 0 (\<lambda>_. ignore (attempt monitor_check)))"

end
