(* ===== verification/Vowifi_Flows.thy ===== *)
theory Vowifi_Flows
  imports Vowifi
begin

text \<open>
  What the tunnel of \<^verbatim>\<open>ims/vowifi.py\<close> guarantees: that its tasks end, what a connection publishes, which
  quintuplets of the provisioning script it finds, and what a disconnection during a connection leaves.
\<close>

section \<open>Every run\<close>

lemma within_process: "(\<And>x. within n (k x)) \<Longrightarrow> within (Suc n) (run_process k)"
  by (auto simp: within_def run_process_def given_def split: sum.split)

lemma within_act: "within 0 (Coroutine.act f)"
  by (rule waiting)

lemma process_waits:
  "within 1 load_swanctl_config" "within 1 initiate_connection" "within 2 extract_tunnel_info"
proof -
  show "within 1 load_swanctl_config" "within 1 initiate_connection"
    unfolding load_swanctl_config_def initiate_connection_def One_nat_def
    by (rule within_process, auto intro!: waiting)+
  have "within 1 extract_ip_from_interface"
    unfolding extract_ip_from_interface_def One_nat_def by (rule within_process) (auto intro!: waiting)
  then show "within 2 extract_tunnel_info"
    unfolding extract_tunnel_info_def sas_listed_def numeral_2_eq_2
    by (intro within_process) (auto intro!: waiting simp del: One_nat_def simp: One_nat_def [symmetric])
qed

lemma connect_within: "within 4 vowifi_connect"
proof -
  have ext: "within 2 (seq (Coroutine.act f) (seq extract_tunnel_info (seq (Coroutine.act g) (ret True))))" for f g
    by (intro within_bind0 [OF within_act] within_then1 [OF process_waits(3)] waiting)
  have "within 4 establish"
    unfolding establish_def open_tunnel_def tunnel_opened_def
    by (intro within_bind0 within_base(3,4) within_act within_then [OF process_waits(1), of 3] within_then [OF process_waits(2), of 2] within_cases(1) ext)
      (auto intro!: waiting)
  then show ?thesis
    unfolding vowifi_connect_def
    by (intro within_read within_cases(1) within_bind0 [OF within_act] within_then1 [OF within_attempt]) (auto intro!: waiting split: sum.split)
qed

lemma monitor_within: "within 4 monitor_check"
proof -
  have r: "within 3 reconnect"
    unfolding reconnect_def
    by (intro within_bind0 [OF within_act] within_then [OF process_waits(2), of 2] within_cases(1) within_then1 [OF process_waits(3)])
      (auto intro!: waiting)
  then show ?thesis
    unfolding monitor_check_def
    using within_process [of 3]
    by (auto intro!: within_process [of 3, simplified] within_given within_cases(1) within_mono [OF within_act] within_bind0 within_read
      split: prod.split)
      (auto intro: waiting)
qed

lemma settles_process: "(\<And>x s. settles R E (k x s)) \<Longrightarrow> (\<And>s e. E s e) \<Longrightarrow> settles R E (run_process k s)"
  by (simp add: run_process_def given_def split: sum.split)

text \<open>
  C40: whatever strongSwan does and other tasks do meanwhile, connecting ends after at most four program runs,
  disconnecting after one and a turn of the monitor after five waits, and none of them raises.
  A connection that reports success has just published a tunnel that is up and started a monitor; one that
  reports failure leaves the failed state and no tunnel. After a disconnection nothing of the tunnel is left.
\<close>

theorem vowifi_ends:
  "within 4 vowifi_connect \<and> within 1 vowifi_disconnect \<and> within 5 dpd_round
   \<and> settles (\<lambda>s ok. if ok then vs_up (vw_status s) \<and> (\<exists>t \<in> set (vw_monitors s). vw_dpd s = Some t)
       else vw_state s = FAILED \<and> vs_state (vw_status s) = FAILED \<and> \<not> vs_up (vw_status s)) (\<lambda>_ _. False) (vowifi_connect s)
   \<and> settles (\<lambda>s _. vw_state s = DISCONNECTED \<and> vw_ip s = None \<and> vw_pcscf s = [] \<and> \<not> vs_up (vw_status s))
       (\<lambda>_ _. False) (vowifi_disconnect s)
   \<and> settles (\<lambda>_ _. True) (\<lambda>_ _. False) (dpd_round s)"
proof (intro conjI)
  show "within 1 vowifi_disconnect"
    unfolding vowifi_disconnect_def One_nat_def
    by (intro within_bind0 [OF within_act] within_then1 within_ignore within_attempt within_process within_base within_act)
  have "waits 5 (snd (dpd_round s))" for s
    using withinD [OF within_ignore [OF within_attempt [OF monitor_within]]] by (simp add: dpd_round_def numeral_eq_Suc)
  then show "within 5 dpd_round" by (simp add: within_def)
  let ?R = "\<lambda>s ok. if ok then vs_up (vw_status s) \<and> (\<exists>t \<in> set (vw_monitors s). vw_dpd s = Some t)
       else vw_state s = FAILED \<and> vs_state (vw_status s) = FAILED \<and> \<not> vs_up (vw_status s)"
  have f: "settles ?R E (seq (Coroutine.act set_failed) (ret False) s)" for s E
    by (simp add: set_failed_def vs_update_def)
  have e: "settles ?R (\<lambda>_ _. True) (establish s)" for s
    unfolding establish_def open_tunnel_def
  proof (intro settles_then)
    fix s ok
    have "settles ?R (\<lambda>_ _. True) (seq (Coroutine.act (start_monitor \<circ> publish_tunnel)) (ret True) s)" for s
      by (simp add: start_monitor_def publish_tunnel_def)
    then show "settles ?R (\<lambda>_ _. True) (tunnel_opened ok s)"
      using f by (auto simp: tunnel_opened_def intro: settles_then)
  qed simp_all
  have "settles ?R (\<lambda>_ _. False) (cbind (attempt establish) (\<lambda>r. case r of Inr b \<Rightarrow> ret b | Inl _ \<Rightarrow> seq (Coroutine.act set_failed) (ret False)) s)" for s
    by (rule settles_bind [OF settles_attempt [OF e, where R' = "\<lambda>s r. case r of Inl _ \<Rightarrow> True | Inr b \<Rightarrow> ?R s b"]])
      (use f in \<open>auto split: sum.splits\<close>)
  then show "settles ?R (\<lambda>_ _. False) (vowifi_connect s)" using f by (simp add: vowifi_connect_def)
  show "settles (\<lambda>s _. vw_state s = DISCONNECTED \<and> vw_ip s = None \<and> vw_pcscf s = [] \<and> \<not> vs_up (vw_status s)) (\<lambda>_ _. False) (vowifi_disconnect s)"
    by (simp add: vowifi_disconnect_def run_process_def ignore_def given_def reset_tunnel_def split: sum.split)
  have "settles (\<lambda>_ _. True) (\<lambda>_ _. False) (ignore (attempt monitor_check) s)" for s
    unfolding ignore_def by (rule settles_bind [OF settles_attempt [OF settles_any]]) simp_all
  then show "settles (\<lambda>_ _. True) (\<lambda>_ _. False) (dpd_round s)" by (simp add: dpd_round_def)
qed (rule connect_within)

section \<open>Reading the associations\<close>

lemma braced_begins: "lower name = name \<Longrightarrow> begins name (braced name)"
  using lit_begins [of name] unfolding begins_def braced_def by (fastforce simp: bind_eq_Some_conv)

lemma braced_read:
  assumes "lower name = name" "clean name (lower pre)" "x \<noteq> []" "125 \<notin> set x"
  shows "search (braced name) (pre @ name @ [61, 123] @ x @ 125 # post) = Some x"
proof -
  have "span1 (\<lambda>c. c \<noteq> 125) (x @ 125 # post) = Some (x, 125 # post)"
    using assms(3,4) by (intro span1_front) (auto simp: list_all_iff)
  then have "braced name (name @ [61, 123] @ x @ 125 # post) = Some x"
    by (simp add: braced_def is_white_def lit_def)
  then show ?thesis using search_clean [OF braced_begins [OF assms(1)] assms(2)] by (simp add: search_found)
qed

definition quad :: "nat \<Rightarrow> nat \<Rightarrow> nat \<Rightarrow> nat \<Rightarrow> ustr" where
  "quad a b c d = ustr (dec_nat a) @ 46 # ustr (dec_nat b) @ 46 # ustr (dec_nat c) @ 46 # ustr (dec_nat d)"

lemma span_dec: "s = [] \<or> \<not> is_dig (hd s) \<Longrightarrow> span1 is_dig (ustr (dec_nat n) @ s) = Some (ustr (dec_nat n), s)"
  by (rule span1_front) (use dec_digits [of n] in auto)

lemma quad_ips: "find_ips (quad a b c d) = [quad a b c d]"
proof -
  have "\<not> is_dig 46" by (simp add: is_dig_def)
  then have "dotted 3 (quad a b c d) = Some (quad a b c d, [])"
    using span_dec [of "[]" d] by (simp add: numeral_3_eq_3 quad_def span_dec lit_def)
  moreover have "find_ips [] = []" by (subst find_ips.simps) (simp add: numeral_3_eq_3 span1_def)
  ultimately show ?thesis by (subst find_ips.simps) simp
qed

lemma quad_plain: "quad a b c d \<noteq> []" "125 \<notin> set (quad a b c d)"
  using dec_digits(1) [of a] dec_digits(1) [of b] dec_digits(1) [of c] dec_digits(1) [of d]
  by (auto simp: quad_def list_all_iff is_dig_def)

definition vips_line :: "ustr \<Rightarrow> ustr \<Rightarrow> ustr \<Rightarrow> ustr" where
  "vips_line pre ip post = pre @ ustr ''local-vips'' @ [61, 123] @ ip @ 125 # post"

lemma vips_ip: "clean (ustr ''local-vips'') (lower pre) \<Longrightarrow> sas_ip (vips_line pre (quad a b c d) post) = Some (quad a b c d)"
  unfolding vips_line_def sas_ip_def
  by (subst braced_read) (simp_all add: quad_ips quad_plain lower_def ustr_simps)

lemma strip_empty: "strip s = [] \<Longrightarrow> c \<in> set s \<Longrightarrow> is_white c"
proof -
  assume "strip s = []" "c \<in> set s"
  then have "\<forall>x \<in> set (dropWhile is_white s). is_white x" by (simp add: strip_def strip_of_def dropWhile_eq_Nil_conv)
  then have "dropWhile is_white s = []" by (metis hd_dropWhile hd_in_set)
  with \<open>c \<in> set s\<close> show ?thesis by (auto simp: dropWhile_eq_Nil_conv)
qed

lemma vips_seen: "strip (vips_line pre ip post) \<noteq> []"
proof
  assume "strip (vips_line pre ip post) = []"
  from strip_empty [OF this, of 123] show False by (simp add: vips_line_def is_white_def)
qed

section \<open>Connecting\<close>

text \<open>The coroutine after these outcomes of its waits.\<close>

fun resumed :: "'r list \<Rightarrow> 's \<times> ('s, 'r, 'a) co \<Rightarrow> 's \<times> ('s, 'r, 'a) co" where
  "resumed (r # rs) (s, Wait f c) = resumed rs (c r s)"
| "resumed rs x = x"

definition written :: "vowifi \<Rightarrow> vowifi" where
  "written s =
     (let s1 = s\<lparr>vw_state := CONNECTING, vw_status := (vw_status s)\<lparr>vs_state := CONNECTING, vs_epdg := vc_epdg (vw_config s)\<rparr>\<rparr>;
          s2 = (if vc_ki (vw_config s) \<noteq> [] \<and> vc_opc (vw_config s) \<noteq> [] then verify_client_quintuplets s1 else s1);
          s3 = fst (write_swanctl_config (config_nai (vw_config s)) s2)
      in fst (write_strongswan_conf s3))"

lemma verify_fields: "vw_config (verify_client_quintuplets s) = vw_config s" "vw_writable (verify_client_quintuplets s) = vw_writable s"
  "vw_conf_dir (verify_client_quintuplets s) = vw_conf_dir s" "vw_ip (verify_client_quintuplets s) = vw_ip s"
  "vw_status (verify_client_quintuplets s) = vw_status s" "vw_files (verify_client_quintuplets s) = vw_files s"
  "vw_monitors (verify_client_quintuplets s) = vw_monitors s"
  by (simp_all add: verify_client_quintuplets_def split: option.split)

lemma written_fields:
  assumes "vw_writable s" "vw_conf_dir s"
  shows "vw_config (written s) = vw_config s" "vw_ip (written s) = vw_ip s" "vs_epdg (vw_status (written s)) = vc_epdg (vw_config s)"
    "vw_files (written s) SWANCTL_CONF = Some (swanctl_config (vw_files s (vc_ca_cert (vw_config s)) \<noteq> None) (vw_config s) (config_nai (vw_config s)))"
  using assms by (simp_all add: written_def Let_def verify_fields write_swanctl_config_def write_strongswan_conf_def write_file_def SWANCTL_CONF_def)

lemma cbind_effect: "f s = (s', Inr x) \<Longrightarrow> cbind (effect f) k s = k x s'"
  by (simp add: effect_def)

definition connect_end :: "bool res \<Rightarrow> bool vrun" where
  "connect_end r = (case r of Inr b \<Rightarrow> ret b | Inl _ \<Rightarrow> seq (Coroutine.act set_failed) (ret False))"

lemma connect_written:
  assumes "vc_epdg (vw_config s) \<noteq> []" "vw_writable s" "vw_conf_dir s"
  shows "vowifi_connect s = cbind (attempt open_tunnel) connect_end (written s)"
proof -
  define s1 where "s1 = s\<lparr>vw_state := CONNECTING, vw_status := (vw_status s)\<lparr>vs_state := CONNECTING, vs_epdg := vc_epdg (vw_config s)\<rparr>\<rparr>"
  define s2 where "s2 = (if vc_ki (vw_config s1) \<noteq> [] \<and> vc_opc (vw_config s1) \<noteq> [] then verify_client_quintuplets s1 else s1)"
  have s2: "vw_writable s2" "vw_conf_dir s2" "vw_config s2 = vw_config s" using assms by (simp_all add: s2_def s1_def verify_fields)
  define s3 where "s3 = fst (write_swanctl_config (config_nai (vw_config s2)) s2)"
  have w1: "write_swanctl_config (config_nai (vw_config s2)) s2 = (s3, Inr ())" "vw_writable s3" "vw_conf_dir s3"
    using s2 by (simp_all add: s3_def write_swanctl_config_def write_file_def)
  have w2: "write_strongswan_conf s3 = (fst (write_strongswan_conf s3), Inr ())"
    using w1(2,3) by (simp add: write_strongswan_conf_def write_file_def Let_def)
  have w: "written s = fst (write_strongswan_conf s3)"
    using s2(3) by (simp add: written_def s3_def s2_def s1_def Let_def)
  have "establish s1 = open_tunnel (written s)"
    unfolding establish_def cbind_act s2_def [symmetric]
    by (subst cbind_effect, rule w1(1), subst cbind_effect, rule w2, simp add: w)
  then have "cbind (attempt establish) connect_end s1 = cbind (attempt open_tunnel) connect_end (written s)"
    by (simp add: cbind_def attempt_def)
  then show ?thesis using assms(1) by (simp add: vowifi_connect_def s1_def connect_end_def [abs_def])
qed

lemma process_then: "run_with (Inr x # rs) (cbind (run_process k) l s) = run_with rs (cbind (k x) l s)"
  by (simp add: run_process_def given_def)

definition authenticating :: "vowifi \<Rightarrow> vowifi" where
  "authenticating s = s\<lparr>vw_state := AUTHENTICATING, vw_status := (vw_status s)\<lparr>vs_state := AUTHENTICATING\<rparr>\<rparr>"

lemma open_then:
  assumes "decode_strict o1 = Inr t1"
  shows "run_with (Inr (0, o1, e1) # rs) (open_tunnel s) = run_with rs (cbind initiate_connection tunnel_opened (authenticating s))"
  by (simp add: open_tunnel_def load_swanctl_config_def process_then given_def assms authenticating_def)

lemma initiate_then:
  "decode_strict o2 = Inr t2 \<Longrightarrow> run_with (Inr (0, o2, e2) # rs) (cbind initiate_connection k s) = run_with rs (k True s)"
  "code \<noteq> 0 \<Longrightarrow> decode_strict e2 = Inr t2 \<Longrightarrow> run_with (Inr (code, o2, e2) # rs) (cbind initiate_connection k s) = run_with rs (k False s)"
  by (simp_all add: initiate_connection_def process_then given_def)

lemma sas_then:
  assumes "decode_strict o3 = Inr out" "strip out \<noteq> []" "sas_ip out = Some ip" "ip \<noteq> []"
  shows "cbind (sas_listed (c3, o3, e3)) k s = k () (read_sas out s)"
proof -
  have "vw_ip (read_sas out s) = Some ip" by (simp add: read_sas_def assms(3) Let_def)
  then show ?thesis using assms by (simp add: sas_listed_def given_def)
qed

definition open_fields :: "vowifi \<Rightarrow> vowifi \<Rightarrow> bool" where
  "open_fields s s' \<longleftrightarrow> vw_config s' = vw_config s \<and> vs_epdg (vw_status s') = vc_epdg (vw_config s)
    \<and> vs_dpd_ok (vw_status s') = vs_dpd_ok (vw_status s) \<and> vw_monitors s' = vw_monitors s \<and> vw_next s' = vw_next s \<and> vw_ip s' = vw_ip s
    \<and> vw_files s' SWANCTL_CONF = Some (swanctl_config (vw_files s (vc_ca_cert (vw_config s)) \<noteq> None) (vw_config s) (config_nai (vw_config s)))"

lemma written_open: "vw_writable s \<Longrightarrow> vw_conf_dir s \<Longrightarrow> open_fields s (authenticating (written s))"
  by (simp add: open_fields_def authenticating_def written_def Let_def verify_client_quintuplets_def write_swanctl_config_def
    write_strongswan_conf_def write_file_def SWANCTL_CONF_def split: option.split)

text \<open>
  A connection to strongSwan. If the program loads the configuration, opens the connection and lists a
  virtual address, the tunnel is connected with that address, everything is published, the
  configuration on disk names the ePDG and the identity of the subscriber, and one more monitor runs. If
  the connection is refused, the tunnel is failed, but an address of an earlier connection is still
  reported.
\<close>

theorem vowifi_connects:
  assumes "vc_epdg (vw_config s) \<noteq> []" "vw_writable s" "vw_conf_dir s"
    and "decode_strict o1 = Inr t1" "decode_strict o2 = Inr t2" "decode_strict o3 = Inr (vips_line pre (quad a b c d) post)"
    and "clean (ustr ''local-vips'') (lower pre)"
  shows "(\<exists>s'. run_with [Inr (0, o1, e1), Inr (0, o2, e2), Inr (c3, o3, e3)] (vowifi_connect s) = Some (s', Inr True)
      \<and> vw_state s' = CONNECTED \<and> tunnel_ip s' = Some (quad a b c d)
      \<and> get_vowifi_state s' = \<lparr>vs_state = CONNECTED, vs_up = True, vs_epdg = vc_epdg (vw_config s), vs_ip = Some (quad a b c d),
           vs_pcscf = vw_pcscf s', vs_dns = vw_dns s', vs_dpd_ok = vs_dpd_ok (vw_status s)\<rparr>
      \<and> vw_files s' SWANCTL_CONF = Some (swanctl_config (vw_files s (vc_ca_cert (vw_config s)) \<noteq> None) (vw_config s) (config_nai (vw_config s)))
      \<and> vw_monitors s' = vw_monitors s @ [vw_next s])
    \<and> (\<forall>code. code \<noteq> 0 \<longrightarrow> (\<exists>s'. run_with [Inr (0, o1, e1), Inr (code, e2, o2)] (vowifi_connect s) = Some (s', Inr False)
      \<and> vw_state s' = FAILED \<and> tunnel_ip s' = tunnel_ip s \<and> \<not> vs_up (get_vowifi_state s')))"
proof (intro conjI allI impI)
  let ?out = "vips_line pre (quad a b c d) post"
  define s1 where "s1 = authenticating (written s)"
  have o: "open_fields s s1" using written_open [OF assms(2,3)] by (simp add: s1_def)
  define s2 where "s2 = start_monitor (publish_tunnel (read_sas ?out (s1\<lparr>vw_state := CONNECTED\<rparr>)))"
  have "run_with [Inr (0, o1, e1), Inr (0, o2, e2), Inr (c3, o3, e3)] (open_tunnel (written s)) = Some (s2, Inr True)"
    by (simp add: open_then [OF assms(4)] initiate_then(1) [OF assms(5)] tunnel_opened_def extract_tunnel_info_def process_then
      sas_then [OF assms(6) vips_seen vips_ip [OF assms(7)] quad_plain(1)] s2_def s1_def)
  then have "run_with [Inr (0, o1, e1), Inr (0, o2, e2), Inr (c3, o3, e3)] (vowifi_connect s) = Some (s2, Inr True)"
    unfolding connect_written [OF assms(1-3)] by (rule run_catch) (simp add: connect_end_def)
  moreover have "vw_state s2 = CONNECTED" "tunnel_ip s2 = Some (quad a b c d)" "vw_monitors s2 = vw_monitors s @ [vw_next s]"
    "vw_files s2 SWANCTL_CONF = vw_files s1 SWANCTL_CONF"
    "get_vowifi_state s2 = \<lparr>vs_state = CONNECTED, vs_up = True, vs_epdg = vc_epdg (vw_config s), vs_ip = Some (quad a b c d),
           vs_pcscf = vw_pcscf s2, vs_dns = vw_dns s2, vs_dpd_ok = vs_dpd_ok (vw_status s)\<rparr>"
    using o by (simp_all add: s2_def start_monitor_def publish_tunnel_def read_sas_def Let_def vips_ip [OF assms(7)] tunnel_ip_def get_vowifi_state_def open_fields_def)
  ultimately show "\<exists>s'. run_with [Inr (0, o1, e1), Inr (0, o2, e2), Inr (c3, o3, e3)] (vowifi_connect s) = Some (s', Inr True)
      \<and> vw_state s' = CONNECTED \<and> tunnel_ip s' = Some (quad a b c d)
      \<and> get_vowifi_state s' = \<lparr>vs_state = CONNECTED, vs_up = True, vs_epdg = vc_epdg (vw_config s), vs_ip = Some (quad a b c d),
           vs_pcscf = vw_pcscf s', vs_dns = vw_dns s', vs_dpd_ok = vs_dpd_ok (vw_status s)\<rparr>
      \<and> vw_files s' SWANCTL_CONF = Some (swanctl_config (vw_files s (vc_ca_cert (vw_config s)) \<noteq> None) (vw_config s) (config_nai (vw_config s)))
      \<and> vw_monitors s' = vw_monitors s @ [vw_next s]"
    using o by (intro exI [of _ s2]) (simp add: open_fields_def)
  fix code :: int assume c: "code \<noteq> 0"
  have "run_with [Inr (0, o1, e1), Inr (code, e2, o2)] (open_tunnel (written s)) = Some (set_failed s1, Inr False)"
    by (simp add: open_then [OF assms(4)] initiate_then(2) [OF c assms(5)] tunnel_opened_def s1_def)
  then have "run_with [Inr (0, o1, e1), Inr (code, e2, o2)] (vowifi_connect s) = Some (set_failed s1, Inr False)"
    unfolding connect_written [OF assms(1-3)] by (rule run_catch) (simp add: connect_end_def)
  with o show "\<exists>s'. run_with [Inr (0, o1, e1), Inr (code, e2, o2)] (vowifi_connect s) = Some (s', Inr False)
      \<and> vw_state s' = FAILED \<and> tunnel_ip s' = tunnel_ip s \<and> \<not> vs_up (get_vowifi_state s')"
    by (simp add: set_failed_def vs_update_def tunnel_ip_def get_vowifi_state_def open_fields_def)
qed

section \<open>Disconnecting while connecting\<close>

lemma resumed_bind: "resumed rs (m s) = (s', Wait f c) \<Longrightarrow> resumed rs (cbind m k s) = (s', Wait f (\<lambda>r. cbind (c r) k))"
proof -
  have "resumed rs p = (s', Wait f c) \<Longrightarrow> resumed rs (co_bind (snd p) k (fst p)) = (s', Wait f (\<lambda>r. cbind (c r) k))" for p
  proof (induction rs p rule: resumed.induct)
    case (1 r rs s f' c')
    then show ?case by (simp add: case_prod_beta)
  qed (auto simp: cbind_def case_prod_beta fun_eq_iff)
  then show "resumed rs (m s) = (s', Wait f c) \<Longrightarrow> ?thesis" by (simp add: cbind_def case_prod_beta)
qed

lemma resumed_attempt: "resumed rs (m s) = (s', Wait f c) \<Longrightarrow> resumed rs (attempt m s) = (s', Wait f (\<lambda>r. attempt (c r)))"
proof -
  have "resumed rs p = (s', Wait f c) \<Longrightarrow> resumed rs (fst p, co_attempt (snd p)) = (s', Wait f (\<lambda>r. attempt (c r)))" for p
    by (induction rs p rule: resumed.induct) (auto simp: attempt_def case_prod_beta fun_eq_iff map_prod_def)
  then show "resumed rs (m s) = (s', Wait f c) \<Longrightarrow> ?thesis" by (simp add: attempt_def case_prod_beta)
qed

lemma process_resumed: "resumed (Inr x # rs) (cbind (run_process k) l s) = resumed rs (cbind (k x) l s)"
  by (simp add: run_process_def given_def)

text \<open>
  A disconnection while a connection waits for the list of associations is lost. The disconnection
  ends and reports the tunnel down; when the connection goes on it reports success, publishes a
  tunnel that is up with its address under the state disconnected, and leaves a monitor running.
\<close>

theorem disconnect_while_connecting:
  assumes "vc_epdg (vw_config s) \<noteq> []" "vw_writable s" "vw_conf_dir s"
    and "decode_strict o1 = Inr t1" "decode_strict o2 = Inr t2" "decode_strict o3 = Inr (vips_line pre (quad a b c d) post)"
    and "clean (ustr ''local-vips'') (lower pre)"
  shows "\<exists>s1 f k s2 s3. resumed [Inr (0, o1, e1), Inr (0, o2, e2)] (vowifi_connect s) = (s1, Wait f k)
    \<and> run_with [r] (vowifi_disconnect s1) = Some (s2, Inr ()) \<and> vw_state s2 = DISCONNECTED \<and> \<not> vs_up (vw_status s2)
    \<and> k (Inr (c3, o3, e3)) s2 = (s3, Ret True)
    \<and> vs_state (vw_status s3) = DISCONNECTED \<and> vs_up (vw_status s3) \<and> tunnel_ip s3 = Some (quad a b c d) \<and> vw_monitors s3 \<noteq> []"
proof -
  let ?out = "vips_line pre (quad a b c d) post"
  define s1 where "s1 = (authenticating (written s))\<lparr>vw_state := CONNECTED\<rparr>"
  define rest :: "unit \<Rightarrow> bool vrun" where "rest = (\<lambda>_ :: unit. seq (Coroutine.act (start_monitor \<circ> publish_tunnel)) (ret True))"
  have "resumed [Inr (0, o1, e1), Inr (0, o2, e2)] (open_tunnel (written s)) = (s1, Wait 0 (\<lambda>r. cbind (given r sas_listed) rest))"
    by (simp add: open_tunnel_def load_swanctl_config_def process_resumed given_def assms(4,5) initiate_connection_def tunnel_opened_def
      extract_tunnel_info_def run_process_def s1_def authenticating_def rest_def)
  then have w: "resumed [Inr (0, o1, e1), Inr (0, o2, e2)] (vowifi_connect s) = (s1, Wait 0 (\<lambda>r. cbind (attempt (cbind (given r sas_listed) rest)) connect_end))"
    unfolding connect_written [OF assms(1-3)] by (intro resumed_bind resumed_attempt)
  define s2 where "s2 = reset_tunnel (cancel_monitor s1)"
  have d: "run_with [r] (vowifi_disconnect s1) = Some (s2, Inr ())"
    by (cases r) (simp_all add: vowifi_disconnect_def run_process_def ignore_def given_def s2_def)
  define s3 where "s3 = start_monitor (publish_tunnel (read_sas ?out s2))"
  have "cbind (given (Inr (c3, o3, e3)) sas_listed) rest s2 = (s3, Ret True)"
    by (simp add: given_def sas_then [OF assms(6) vips_seen vips_ip [OF assms(7)] quad_plain(1)] rest_def s3_def)
  then have "cbind (attempt (cbind (given (Inr (c3, o3, e3)) sas_listed) rest)) connect_end s2 = (s3, Ret True)"
    by (simp add: connect_end_def)
  moreover have "vw_state s2 = DISCONNECTED" "\<not> vs_up (vw_status s2)" "vs_state (vw_status s3) = DISCONNECTED" "vs_up (vw_status s3)"
    "tunnel_ip s3 = Some (quad a b c d)" "vw_monitors s3 \<noteq> []"
    by (simp_all add: s2_def s3_def reset_tunnel_def cancel_monitor_def start_monitor_def publish_tunnel_def read_sas_def Let_def
      vips_ip [OF assms(7)] tunnel_ip_def split: option.split)
  ultimately show ?thesis using w d by blast
qed

section \<open>The quintuplets of the subscriber\<close>

lemma count_append: "length (filter P (xs @ ys)) = length (filter P xs) + length (filter P ys)"
  by simp

lemma count_provisioned:
  assumes "aes_ok aes" "\<forall>i. length (rands i) = 16" "list_all (subscriber_ok n) us"
    and "provision_all aes rands i (int n) (map subscriber_doc us) = Inr qs"
  shows "length (filter (\<lambda>q. q_permanent q = nai) qs) = length (filter (\<lambda>u. epdg_nai (su_imsi u) = nai) us) * n"
  using assms(3,4)
proof (induction us arbitrary: i qs)
  case (Cons u us)
  obtain q1 where q1: "provision_subscriber aes rands i (int n) (subscriber_doc u) = Inr q1" "length q1 = n"
      "\<forall>m < n. row_of aes rands u (i + m) m (q1 ! m)"
    using subscriber_rows [OF assms(1,2), of n u i] Cons.prems(1) by auto
  then obtain q2 where q2: "provision_all aes rands (i + n) (int n) (map subscriber_doc us) = Inr q2" "qs = q1 @ q2"
    using Cons.prems(2) by (auto simp: rbind_eq_Inr)
  have "\<forall>q \<in> set q1. q_permanent q = epdg_nai (su_imsi u)"
    using q1(2,3) by (auto simp: in_set_conv_nth row_of_def)
  then have "length (filter (\<lambda>q. q_permanent q = nai) q1) = (if epdg_nai (su_imsi u) = nai then n else 0)"
    using q1(2) by (auto cong: filter_cong)
  with Cons.IH [OF _ q2(1)] Cons.prems(1) q2(2) show ?case by (simp add: count_append)
qed simp

lemma count_zip: "length xs = length qs \<Longrightarrow> length (filter (\<lambda>(_, q, _). P q) (zip xs (map (\<lambda>q. (q, b)) qs))) = length (filter P qs)"
  by (induction xs qs rule: list_induct2) auto

lemma zfill_digits:
  assumes "all_digits s" "s \<noteq> []"
  shows "zfill n s = replicate (n - length s) (CHR ''0'') @ s"
proof (cases s)
  case (Cons c t)
  with assms(1) have "is_digit c" by simp
  then have "c \<noteq> CHR ''+''" "c \<noteq> CHR ''-''" by (auto simp: is_digit_def)
  with Cons show ?thesis by (simp add: zfill_def)
qed (use assms in simp)

lemma nai_imsi:
  assumes "CHR ''@'' \<notin> set i" "CHR ''@'' \<notin> set j" "''0'' @ i @ ''@nai.epc.mnc'' @ r = ''0'' @ j @ ''@nai.epc.mnc'' @ r'"
  shows "i = j \<and> r = r'"
proof -
  have "takeWhile (\<lambda>c. c \<noteq> CHR ''@'') (k @ ''@nai.epc.mnc'' @ q) = k" if "CHR ''@'' \<notin> set k" for k q
    using that by (induction k) auto
  note t = this
  have e: "i @ ''@nai.epc.mnc'' @ r = j @ ''@nai.epc.mnc'' @ r'" using assms(3) by simp
  have "i = j" using t [OF assms(1), of r] t [OF assms(2), of r'] unfolding e by simp
  with e show ?thesis by simp
qed

lemma digits_at: "all_digits s \<Longrightarrow> CHR ''@'' \<notin> set s"
  by (auto simp: all_digits_def is_digit_def list_all_iff)

text \<open>The two identities of a subscriber whose IMSI begins with the country and the network code.\<close>

lemma nai_same:
  assumes "all_digits (mcc @ mnc @ msin)" "length mcc = 3" "length mnc = 2 \<or> length mnc = 3"
  shows "epdg_nai (mcc @ mnc @ msin) = build_nai (mcc @ mnc @ msin) mcc mnc \<longleftrightarrow> length mnc = 2 \<or> mnc = ''000''"
proof -
  have d: "all_digits mnc" "all_digits mcc" "all_digits (slice (mcc @ mnc @ msin) 3 5)"
    using assms(1) set_slice_subset [of "mcc @ mnc @ msin" 3 5] by (auto simp: all_digits_def list_all_iff)
  have sl: "slice (mcc @ mnc @ msin) 3 5 = take 2 mnc" using assms(2,3) by (auto simp: slice_def)
  have ne: "mnc \<noteq> []" "mcc \<noteq> []" "take 2 mnc \<noteq> []" using assms(2,3) by auto
  have z: "zfill 3 mnc = replicate (3 - length mnc) (CHR ''0'') @ mnc" "zfill 3 mcc = mcc"
    "zfill 3 (take 2 mnc) = CHR ''0'' # take 2 mnc"
    using zfill_digits [OF d(1) ne(1), of 3] zfill_digits [OF d(2) ne(2), of 3] zfill_digits [OF d(3), of 3] assms(2,3) ne(3) sl by auto
  have "epdg_nai (mcc @ mnc @ msin) = build_nai (mcc @ mnc @ msin) mcc mnc \<longleftrightarrow> CHR ''0'' # take 2 mnc = replicate (3 - length mnc) (CHR ''0'') @ mnc"
    using assms(2,3) by (auto simp: epdg_nai_def build_nai_def sl z)
  also have "\<dots> \<longleftrightarrow> length mnc = 2 \<or> mnc = ''000''"
    using assms(3)
  proof
    assume "length mnc = 2"
    then show ?thesis by (simp add: numeral_2_eq_2 numeral_3_eq_3)
  next
    assume "length mnc = 3"
    then obtain x y w where "mnc = [x, y, w]" by (auto simp: numeral_3_eq_3 length_Suc_conv)
    then show ?thesis by (auto simp: numeral_2_eq_2)
  qed
  finally show ?thesis .
qed

text \<open>
  Which quintuplets a VoWiFi client finds. After the script has provisioned a list of subscribers with
  different IMSIs, the client of one of them counts all of its rows when the network code has two digits;
  with three digits the script has cut the code, and none of its rows is found, the code \<^verbatim>\<open>000\<close> apart.
\<close>

theorem vowifi_finds_rows:
  assumes "aes_ok aes" "\<forall>i. length (rands i) = 16" "list_all (subscriber_ok n) us" "us \<noteq> []" "CHR ''/'' \<in> set path"
    and "distinct (map su_imsi us)" "list_all (\<lambda>u. all_digits (su_imsi u)) us"
    and "u \<in> set us" "su_imsi u = mcc @ mnc @ msin" "length mcc = 3" "length mnc = 2 \<or> length mnc = 3"
    and "vc_imsi (vw_config s) = su_imsi u" "vc_mcc (vw_config s) = mcc" "vc_mnc (vw_config s) = mnc"
  shows "\<exists>db'. provision_main aes rands (\<lambda>_. map subscriber_doc us) False (int n) path db = Inr (Some db')
    \<and> vw_counted (verify_client_quintuplets (s\<lparr>vw_db := Some db'\<rparr>)) = Some (if length mnc = 2 \<or> mnc = ''000'' then n else 0)"
proof -
  let ?nai = "build_nai (su_imsi u) mcc mnc"
  obtain qs where qs: "provision_all aes rands 0 (int n) (map subscriber_doc us) = Inr qs"
    using all_rows [OF assms(1-3), of 0] by blast
  let ?db = "\<lparr>db_next = db_next db + length qs, db_rows = zip [db_next db..<db_next db + length qs] (map (\<lambda>q. (q, False)) qs)\<rparr>"
  have main: "provision_main aes rands (\<lambda>_. map subscriber_doc us) False (int n) path db = Inr (Some ?db)"
    using qs assms(4,5) by (simp add: provision_main_def create_database_def)
  have d: "all_digits (mcc @ mnc @ msin)" using assms(7-9) by (auto simp: list_all_iff)
  have same: "epdg_nai (su_imsi u) = ?nai \<longleftrightarrow> length mnc = 2 \<or> mnc = ''000''"
    unfolding assms(9) by (rule nai_same [OF d assms(10,11)])
  have own: "su_imsi v = su_imsi u" if "v \<in> set us" "epdg_nai (su_imsi v) = ?nai" for v
  proof (rule conjunct1, rule nai_imsi)
    show "CHR ''@'' \<notin> set (su_imsi v)" "CHR ''@'' \<notin> set (su_imsi u)"
      using that(1) assms(7,8) by (auto simp: list_all_iff intro!: digits_at)
    show "''0'' @ su_imsi v @ ''@nai.epc.mnc'' @ zfill 3 (slice (su_imsi v) 3 5) @ ''.mcc'' @ take 3 (su_imsi v) @ ''.3gppnetwork.org''
        = ''0'' @ su_imsi u @ ''@nai.epc.mnc'' @ zfill 3 mnc @ ''.mcc'' @ zfill 3 mcc @ ''.3gppnetwork.org''"
      using that(2) unfolding epdg_nai_def build_nai_def .
  qed
  have "filter (\<lambda>v. epdg_nai (su_imsi v) = ?nai) us = (if length mnc = 2 \<or> mnc = ''000'' then filter (\<lambda>v. su_imsi v = su_imsi u) us else [])"
  proof -
    have "epdg_nai (su_imsi v) = ?nai \<longleftrightarrow> (length mnc = 2 \<or> mnc = ''000'') \<and> su_imsi v = su_imsi u" if "v \<in> set us" for v
      using own [OF that] same by metis
    then show ?thesis by (auto simp: filter_empty_conv intro!: filter_cong)
  qed
  moreover have "length (filter (\<lambda>v. su_imsi v = su_imsi u) us) = 1"
    using assms(6,8) by (induction us) (auto simp: filter_empty_conv intro: rev_image_eqI)
  ultimately have "length (filter (\<lambda>v. epdg_nai (su_imsi v) = ?nai) us) = (if length mnc = 2 \<or> mnc = ''000'' then 1 else 0)" by simp
  then have "count_rows ?nai ?db = (if length mnc = 2 \<or> mnc = ''000'' then n else 0)"
    using count_provisioned [OF assms(1-3) qs, of ?nai] by (simp add: count_rows_def count_zip)
  then show ?thesis using main
    by (intro exI [of _ ?db]) (simp add: verify_client_quintuplets_def config_nai_def assms(12-14))
qed

section \<open>Examples\<close>

definition sample_config :: "string \<Rightarrow> vowifi_config" where
  "sample_config mnc = \<lparr>vc_epdg = ''epdg.test'', vc_mcc = ''001'', vc_mnc = mnc, vc_imsi = ''001010000000001'', vc_ki = [], vc_opc = [],
     vc_local_ts = ''0.0.0.0/0'', vc_remote_ts = ''0.0.0.0/0'', vc_ike = ''aes256-sha256-modp2048'', vc_esp = ''aes256-sha256'',
     vc_rekey = 3600, vc_dpd_delay = 30, vc_ca_cert = ''/ca.pem'', vc_db = ''/db''\<rparr>"

definition sample_vowifi :: "string \<Rightarrow> vowifi" where
  "sample_vowifi mnc = new_vowifi (sample_config mnc) None []"

lemma sample_vowifi_fields: "vc_epdg (vw_config (sample_vowifi m)) \<noteq> []" "vw_writable (sample_vowifi m)" "vw_conf_dir (sample_vowifi m)"
  "vc_imsi (vw_config (sample_vowifi m)) = ''001010000000001''" "vc_mcc (vw_config (sample_vowifi m)) = ''001''" "vc_mnc (vw_config (sample_vowifi m)) = m"
  "vw_ip (sample_vowifi m) = None"
  by (simp_all add: sample_vowifi_def new_vowifi_def sample_config_def)

lemma decode_empty: "decode_strict [] = Inr []"
proof -
  have "utf8_encode [] = Inr []" by (simp add: utf8_encode_def)
  moreover have "utf8_decode [] = []" using utf8_roundtrip [of "[]"] by (auto simp: utf8_encode_def)
  ultimately show ?thesis by (simp add: decode_strict_def utf8_valid_def)
qed

lemma decode_some: "unicode_text t \<Longrightarrow> \<exists>bs. decode_strict bs = Inr t"
  using utf8_roundtrip [of t] by (auto simp: decode_strict_def utf8_valid_def)

lemma sample_sas: "\<exists>bs. decode_strict bs = Inr (vips_line [] (quad 10 47 0 2) [])"
proof -
  have "vips_line [] (quad 10 47 0 2) [] = ustr (''local-vips={'' @ dec_nat 10 @ ''.'' @ dec_nat 47 @ ''.'' @ dec_nat 0 @ ''.'' @ dec_nat 2 @ ''}'')"
    by (simp add: vips_line_def quad_def ustr_simps ustr_append)
  then show ?thesis using decode_some by simp
qed

theorem vowifi_finds_rows_witness:
  "\<exists>db'. provision_main sample_aes (\<lambda>_. sample_rand) (\<lambda>_. [subscriber_doc sample_subscriber]) False 2 ''/var/db'' empty_db = Inr (Some db')
    \<and> vw_counted (verify_client_quintuplets ((sample_vowifi ''01'')\<lparr>vw_db := Some db'\<rparr>)) = Some 2
    \<and> vw_counted (verify_client_quintuplets ((sample_vowifi ''010'')\<lparr>vw_db := Some db'\<rparr>)) = Some 0"
proof -
  have ok: "aes_ok sample_aes" "\<forall>i. length ((\<lambda>_. sample_rand) i) = 16" "list_all (subscriber_ok 2) [sample_subscriber]"
    "[sample_subscriber] \<noteq> []" "CHR ''/'' \<in> set ''/var/db''" "distinct (map su_imsi [sample_subscriber])"
    "list_all (\<lambda>u. all_digits (su_imsi u)) [sample_subscriber]" "sample_subscriber \<in> set [sample_subscriber]"
    using sample_ok(1,3) sample_subscriber_ok by (simp_all add: sample_subscriber_def is_digit_def)
  have i: "su_imsi sample_subscriber = ''001'' @ ''01'' @ ''0000000001''" "su_imsi sample_subscriber = ''001'' @ ''010'' @ ''000000001''"
    by (simp_all add: sample_subscriber_def)
  obtain db' where "provision_main sample_aes (\<lambda>_. sample_rand) (\<lambda>_. [subscriber_doc sample_subscriber]) False 2 ''/var/db'' empty_db = Inr (Some db')"
      "vw_counted (verify_client_quintuplets ((sample_vowifi ''01'')\<lparr>vw_db := Some db'\<rparr>)) = Some 2"
    using vowifi_finds_rows [OF ok i(1), of "sample_vowifi ''01''" empty_db] by (auto simp: sample_vowifi_fields sample_subscriber_def)
  moreover obtain db2 where "provision_main sample_aes (\<lambda>_. sample_rand) (\<lambda>_. [subscriber_doc sample_subscriber]) False 2 ''/var/db'' empty_db = Inr (Some db2)"
      "vw_counted (verify_client_quintuplets ((sample_vowifi ''010'')\<lparr>vw_db := Some db2\<rparr>)) = Some 0"
    using vowifi_finds_rows [OF ok i(2), of "sample_vowifi ''010''" empty_db] by (auto simp: sample_vowifi_fields sample_subscriber_def)
  ultimately show ?thesis by auto
qed

theorem vowifi_connects_witness:
  "\<exists>bs s'. run_with [Inr (0, [], []), Inr (0, [], []), Inr (0, bs, [])] (vowifi_connect (sample_vowifi ''01'')) = Some (s', Inr True)
    \<and> tunnel_ip s' = Some (quad 10 47 0 2) \<and> vs_up (get_vowifi_state s')"
proof -
  obtain bs where bs: "decode_strict bs = Inr (vips_line [] (quad 10 47 0 2) [])" using sample_sas by blast
  have "clean (ustr ''local-vips'') (lower [])" by simp
  from vowifi_connects [OF sample_vowifi_fields(1-3) [of "''01''"] decode_empty decode_empty bs this, of "[]" "[]" 0 "[]"]
  obtain s' where "run_with [Inr (0, [], []), Inr (0, [], []), Inr (0, bs, [])] (vowifi_connect (sample_vowifi ''01'')) = Some (s', Inr True)"
    "tunnel_ip s' = Some (quad 10 47 0 2)" "vs_up (get_vowifi_state s')"
    by (elim conjE exE) simp
  then show ?thesis by blast
qed

theorem disconnect_while_connecting_witness:
  "\<exists>bs s1 f k s2 s3. resumed [Inr (0, [], []), Inr (0, [], [])] (vowifi_connect (sample_vowifi ''01'')) = (s1, Wait f k)
    \<and> run_with [Inr (0, [], [])] (vowifi_disconnect s1) = Some (s2, Inr ()) \<and> k (Inr (0, bs, [])) s2 = (s3, Ret True)
    \<and> vs_state (vw_status s3) = DISCONNECTED \<and> vs_up (vw_status s3)"
proof -
  obtain bs where bs: "decode_strict bs = Inr (vips_line [] (quad 10 47 0 2) [])" using sample_sas by blast
  have "clean (ustr ''local-vips'') (lower [])" by simp
  from disconnect_while_connecting [OF sample_vowifi_fields(1-3) [of "''01''"] decode_empty decode_empty bs this, of "[]" "[]" "Inr (0, [], [])" 0 "[]"] show ?thesis
    by blast
qed

end
