(* ===== verification/Sms_Bridge.thy ===== *)
theory Sms_Bridge
  imports Sms_Service Wire Daemon
begin

text \<open>
  \<^verbatim>\<open>ims/sms_bridge.py\<close>: messages between the IMS and the telephone network through Twilio or Telnyx. A
  request to the provider is a wait whose outcome is the exception of the HTTP client, or the status with
  what \<^verbatim>\<open>json()\<close> gives of the body. The callback for incoming messages is the one that
  \<^verbatim>\<open>ims/service.py\<close> sets, into the SMS service.
\<close>

section \<open>The state\<close>

record bridge_config =
  bc_provider :: string
  bc_from :: string
  bc_sid :: string
  bc_token :: string
  bc_key :: string
  bc_port :: int

record bridge_post =
  bp_url :: string
  bp_auth :: "(string \<times> string) option"
  bp_headers :: "(string \<times> string) list"
  bp_form :: bool
  bp_fields :: dict

text \<open>\<open>br_http\<close> is the HTTP client: none, open or closed. \<open>br_webhook\<close> is the port the webhook server listens on.\<close>

record bridge =
  br_config :: bridge_config
  br_callback :: bool
  br_http :: "bool option"
  br_webhook :: "int option"
  br_posts :: "bridge_post list"
  br_sms :: sms

definition bridge_from_env :: "(string \<Rightarrow> string option) \<Rightarrow> bridge_config res" where
  "bridge_from_env env = (let get = (\<lambda>k. case env k of None \<Rightarrow> [] | Some v \<Rightarrow> v) in
     rbind (int_of_ustr (ustr (case env ''VPHONE_SMS_WEBHOOK_PORT'' of None \<Rightarrow> ''8444'' | Some v \<Rightarrow> v))) (\<lambda>port.
     Inr \<lparr>bc_provider = get ''VPHONE_SMS_PROVIDER'', bc_from = get ''VPHONE_SMS_FROM_NUMBER'', bc_sid = get ''VPHONE_SMS_ACCOUNT_SID'',
          bc_token = get ''VPHONE_SMS_AUTH_TOKEN'', bc_key = get ''VPHONE_SMS_TELNYX_API_KEY'', bc_port = port\<rparr>))"

definition new_bridge :: "bridge_config \<Rightarrow> sms \<Rightarrow> bridge" where
  "new_bridge c s = \<lparr>br_config = c, br_callback = False, br_http = None, br_webhook = None, br_posts = [], br_sms = s\<rparr>"

definition bridge_enabled :: "bridge \<Rightarrow> bool" where
  "bridge_enabled b \<longleftrightarrow> bc_provider (br_config b) \<noteq> [] \<and> bc_from (br_config b) \<noteq> []"

definition set_mt_callback :: "bridge \<Rightarrow> bridge" where
  "set_mt_callback b = b\<lparr>br_callback := True\<rparr>"

text \<open>\<open>free\<close> says whether the webhook's port can be bound.\<close>

definition bridge_start :: "bool \<Rightarrow> bridge \<Rightarrow> bridge \<times> unit res" where
  "bridge_start free b =
     (if \<not> bridge_enabled b then (b, Inr ())
      else let b1 = b\<lparr>br_http := Some True\<rparr> in
        if free then (b1\<lparr>br_webhook := Some (bc_port (br_config b))\<rparr>, Inr ()) else (b1, Inl OSError))"

definition bridge_stop :: "bridge \<Rightarrow> bridge" where
  "bridge_stop b = (case br_http b of None \<Rightarrow> b | Some _ \<Rightarrow> b\<lparr>br_http := Some False\<rparr>)"

section \<open>To the telephone network\<close>

type_synonym provider_answer = "(int \<times> json res) res"
type_synonym 'a brun = "(bridge, provider_answer, 'a) proc"

text \<open>\<^verbatim>\<open>self._http_client.post(...)\<close>: without a client, or with a closed one, it raises.\<close>

definition bridge_post :: "(bridge_config \<Rightarrow> bridge_post) \<Rightarrow> (int \<times> json res) brun" where
  "bridge_post request = read (\<lambda>b. case br_http b of
     None \<Rightarrow> throw AttributeError
   | Some False \<Rightarrow> throw RuntimeError
   | Some True \<Rightarrow> (\<lambda>b. (b\<lparr>br_posts := br_posts b @ [request (br_config b)]\<rparr>, Wait (length (br_posts b)) (\<lambda>r. given r ret))))"

definition twilio_request :: "string \<Rightarrow> string \<Rightarrow> bridge_config \<Rightarrow> bridge_post" where
  "twilio_request num body c =
     \<lparr>bp_url = ''https://api.twilio.com/2010-04-01/Accounts/'' @ bc_sid c @ ''/Messages.json'', bp_auth = Some (bc_sid c, bc_token c),
      bp_headers = [], bp_form = True, bp_fields = [(''From'', JStr (bc_from c)), (''To'', JStr num), (''Body'', JStr body)]\<rparr>"

definition telnyx_request :: "string \<Rightarrow> string \<Rightarrow> bridge_config \<Rightarrow> bridge_post" where
  "telnyx_request num body c =
     \<lparr>bp_url = ''https://api.telnyx.com/v2/messages'', bp_auth = None,
      bp_headers = [(''Authorization'', ''Bearer '' @ bc_key c), (''Content-Type'', ''application/json'')], bp_form = False,
      bp_fields = [(''from'', JStr (bc_from c)), (''to'', JStr num), (''text'', JStr body)]\<rparr>"

text \<open>The accepted answer is read for the log only; what cannot be read raises, and every exception gives False.\<close>

definition provider_send :: "(bridge_config \<Rightarrow> bridge_post) \<Rightarrow> (int \<Rightarrow> bool) \<Rightarrow> (json \<Rightarrow> unit res) \<Rightarrow> bool brun" where
  "provider_send request good reading =
     cbind (attempt (cbind (bridge_post request) (\<lambda>(status, answer).
       if good status then given (rbind answer reading) (\<lambda>_. ret True) else ret False)))
     (\<lambda>r. case r of Inl _ \<Rightarrow> ret False | Inr ok \<Rightarrow> ret ok)"

definition twilio_reading :: "json \<Rightarrow> unit res" where
  "twilio_reading j = rbind (as_dict j) (\<lambda>_. Inr ())"

definition telnyx_reading :: "json \<Rightarrow> unit res" where
  "telnyx_reading j = rbind (as_dict j) (\<lambda>d. rbind (as_dict (dict_get d ''data'' (JObj []))) (\<lambda>_. Inr ()))"

definition send_twilio :: "string \<Rightarrow> string \<Rightarrow> bool brun" where
  "send_twilio num body = provider_send (twilio_request num body) (\<lambda>status. status = 201) twilio_reading"

definition send_telnyx :: "string \<Rightarrow> string \<Rightarrow> bool brun" where
  "send_telnyx num body = provider_send (telnyx_request num body) (\<lambda>status. status = 200 \<or> status = 201) telnyx_reading"

definition bridge_send_sms :: "string \<Rightarrow> string \<Rightarrow> bool brun" where
  "bridge_send_sms num body = read (\<lambda>b.
     if \<not> bridge_enabled b then ret False
     else if bc_provider (br_config b) = ''twilio'' then send_twilio num body
     else if bc_provider (br_config b) = ''telnyx'' then send_telnyx num body
     else ret False)"

section \<open>From the telephone network\<close>

text \<open>A request to the webhook: the form or the JSON body, either of which may not parse.\<close>

record webhook_request =
  wr_form :: "(string \<times> string) list res"
  wr_json :: "json res"

record webhook_reply =
  wp_status :: int
  wp_body :: string
  wp_xml :: bool

definition twiml :: string where
  "twiml = ''<?xml version=\"1.0\" encoding=\"UTF-8\"?><Response></Response>''"

definition webhook_fields :: "string \<Rightarrow> webhook_request \<Rightarrow> (string \<times> string) option res" where
  "webhook_fields provider rq =
     (if provider = ''twilio'' then rbind (wr_form rq) (\<lambda>f. Inr (Some (dict_get f ''From'' [], dict_get f ''Body'' [])))
      else if provider = ''telnyx'' then
        rbind (rbind (wr_json rq) as_dict) (\<lambda>d.
        rbind (as_dict (dict_get d ''data'' (JObj []))) (\<lambda>data.
        rbind (as_dict (dict_get data ''payload'' (JObj []))) (\<lambda>payload.
        rbind (as_dict (dict_get payload ''from'' (JObj []))) (\<lambda>from.
        rbind (jstr from ''phone_number'' []) (\<lambda>num. rbind (jstr payload ''text'' []) (\<lambda>body. Inr (Some (num, body))))))))
      else Inr None)"

definition webhook_handler :: "webhook_request \<Rightarrow> bridge \<Rightarrow> bridge \<times> webhook_reply" where
  "webhook_handler rq b =
     (case webhook_fields (bc_provider (br_config b)) rq of
        Inl _ \<Rightarrow> (b, \<lparr>wp_status = 500, wp_body = [], wp_xml = False\<rparr>)
      | Inr None \<Rightarrow> (b, \<lparr>wp_status = 400, wp_body = ''Unknown provider'', wp_xml = False\<rparr>)
      | Inr (Some (num, body)) \<Rightarrow>
          let b' = (if br_callback b \<and> num \<noteq> [] \<and> body \<noteq> [] then b\<lparr>br_sms := fst (deliver_mt_sms (ustr num) (ustr body) [] (br_sms b))\<rparr> else b)
          in (b', if bc_provider (br_config b) = ''twilio'' then \<lparr>wp_status = 200, wp_body = twiml, wp_xml = True\<rparr>
                  else \<lparr>wp_status = 200, wp_body = [], wp_xml = False\<rparr>))"

definition health_handler :: "bridge \<Rightarrow> dict" where
  "health_handler b = [(''status'', JStr ''ok''), (''provider'', JStr (bc_provider (br_config b))), (''from'', JStr (bc_from (br_config b)))]"

section \<open>What the bridge does\<close>

text \<open>When a provider's answer counts as accepted.\<close>

definition accepted :: "(int \<Rightarrow> bool) \<Rightarrow> (json \<Rightarrow> unit res) \<Rightarrow> provider_answer \<Rightarrow> bool" where
  "accepted good reading r = (case r of Inl _ \<Rightarrow> False | Inr (status, j) \<Rightarrow> good status \<and> \<not> raises (rbind j reading))"

lemma provider_sends:
  assumes "br_http b = Some True"
  shows "run_with [r] (provider_send request good reading b) =
    Some (b\<lparr>br_posts := br_posts b @ [request (br_config b)]\<rparr>, Inr (accepted good reading r))"
proof -
  let ?b = "b\<lparr>br_posts := br_posts b @ [request (br_config b)]\<rparr>"
  have p: "bridge_post request b = (?b, Wait (length (br_posts b)) (\<lambda>r. given r ret))"
    using assms by (simp add: bridge_post_def)
  have "\<exists>x. run_with [r] (cbind (bridge_post request) (\<lambda>(status, answer). if good status then given (rbind answer reading) (\<lambda>_. ret True) else ret False) b) = Some (?b, x)
      \<and> (case x of Inl _ \<Rightarrow> \<not> accepted good reading r | Inr ok \<Rightarrow> ok = accepted good reading r)"
  proof (cases r)
    case (Inl e)
    then show ?thesis by (simp add: p accepted_def given_def)
  next
    case (Inr a)
    then obtain status j where "r = Inr (status, j)" by (cases a) simp
    then show ?thesis by (cases "rbind j reading") (simp_all add: p accepted_def given_def)
  qed
  then obtain x where x: "run_with [r] (cbind (bridge_post request) (\<lambda>(status, answer). if good status then given (rbind answer reading) (\<lambda>_. ret True) else ret False) b) = Some (?b, x)"
    "case x of Inl _ \<Rightarrow> \<not> accepted good reading r | Inr ok \<Rightarrow> ok = accepted good reading r" by blast
  show ?thesis unfolding provider_send_def by (rule run_catch, rule x(1)) (use x(2) in \<open>simp split: sum.splits\<close>)
qed

text \<open>
  A message to the telephone network is one request to the configured provider, with the configured
  number as its sender, and it counts as sent exactly when the answer's status says so and its body can
  be read: an accepted message with an unreadable body is reported as failed.
\<close>

lemma bridge_sends:
  assumes "bridge_enabled b" "br_http b = Some True"
  shows "bc_provider (br_config b) = ''twilio'' \<Longrightarrow> run_with [r] (bridge_send_sms num body b) =
      Some (b\<lparr>br_posts := br_posts b @ [twilio_request num body (br_config b)]\<rparr>, Inr (accepted (\<lambda>status. status = 201) twilio_reading r))"
    and "bc_provider (br_config b) = ''telnyx'' \<Longrightarrow> run_with [r] (bridge_send_sms num body b) =
      Some (b\<lparr>br_posts := br_posts b @ [telnyx_request num body (br_config b)]\<rparr>, Inr (accepted (\<lambda>status. status = 200 \<or> status = 201) telnyx_reading r))"
  using assms by (simp_all add: bridge_send_sms_def send_twilio_def send_telnyx_def provider_sends)

text \<open>A request of the provider for a message.\<close>

definition incoming :: "string \<Rightarrow> string \<Rightarrow> string \<Rightarrow> webhook_request" where
  "incoming provider num body =
     (if provider = ''twilio'' then \<lparr>wr_form = Inr [(''From'', num), (''Body'', body)], wr_json = Inl ValueError\<rparr>
      else \<lparr>wr_form = Inr [], wr_json = Inr (JObj [(''data'', JObj [(''payload'', JObj [(''from'', JObj [(''phone_number'', JStr num)]), (''text'', JStr body)])])])\<rparr>)"

text \<open>
  A message of the telephone network. The webhook answers the provider with 200 in every case; the
  message is delivered once, with its number and text, if the SMS service has a callback to Android.
  It has none in the process that runs the bridge: there every message is acknowledged and lost.
\<close>

theorem pstn_delivery:
  assumes "bc_provider (br_config b) \<in> {''twilio'', ''telnyx''}" "br_callback b" "num \<noteq> []" "body \<noteq> []"
  shows "\<exists>b' reply. webhook_handler (incoming (bc_provider (br_config b)) num body) b = (b', reply) \<and> wp_status reply = 200
    \<and> inbox (br_sms b') = inbox (br_sms b) @ (if mt_callback (br_sms b) then [(ustr num, [], ustr body)] else [])
    \<and> messages_received (br_sms b') = messages_received (br_sms b) + (if mt_callback (br_sms b) then 1 else 0)"
  using assms by (auto simp: webhook_handler_def webhook_fields_def incoming_def dict_get_def as_dict_def jstr_def deliver_mt_sms_def mt_deliver_def)

definition sample_bridge :: bridge where
  "sample_bridge = (new_bridge \<lparr>bc_provider = ''telnyx'', bc_from = ''+1'', bc_sid = [], bc_token = [], bc_key = ''k'', bc_port = 8444\<rparr>
     (new_sms (ustr ''10.0.0.1'') [] [] []))\<lparr>br_callback := True\<rparr>"

theorem pstn_delivery_witness:
  "\<exists>b' reply. webhook_handler (incoming ''telnyx'' ''+49'' ''hi'') sample_bridge = (b', reply) \<and> wp_status reply = 200 \<and> inbox (br_sms b') = []"
proof -
  have "bc_provider (br_config sample_bridge) = ''telnyx''" "br_callback sample_bridge" "\<not> mt_callback (br_sms sample_bridge)" "inbox (br_sms sample_bridge) = []"
    by (simp_all add: sample_bridge_def new_bridge_def new_sms_def)
  then show ?thesis using pstn_delivery [of sample_bridge "''+49''" "''hi''"] by auto
qed

end
