(* ===== verification/Ims_Daemon.thy ===== *)
theory Ims_Daemon
  imports Registration Vowifi_Flows Sms_Bridge Volte
begin

text \<open>
  \<^verbatim>\<open>ims/service.py\<close>: the process that waits for a profile, fetches its credentials from the eUICC
  daemon, opens the VoWiFi tunnel, registers and starts the call manager, the SMS service and the bridge.
  A sleep and a run of strongSwan are waits, between which the other tasks run; an exchange with the daemon
  and a registration attempt are single steps. The endless loops after the start are left to their
  rounds: \<open>serving_round\<close> is one turn of the last.
\<close>

section \<open>The process\<close>

text \<open>The module's dictionary for the management interface.\<close>

record ims_status =
  is_registered :: bool
  is_state :: string
  is_domain :: json
  is_pcscf :: ustr
  is_impi :: json

definition initial_ims_status :: ims_status where
  "initial_ims_status = \<lparr>is_registered = False, is_state = ''not_registered'', is_domain = JStr [], is_pcscf = [], is_impi = JStr []\<rparr>"

text \<open>
  \<open>im_up\<close> says whether the daemon is there, \<open>im_port\<close> whether UDP port 5060 is taken: the clients
  of the registration, the call manager and the SMS service all bind it. \<open>im_volte\<close>, \<open>im_sms\<close> and
  \<open>im_bridge\<close> are set when their start has succeeded; a bridge holds the SMS service from then on.
\<close>

record ims =
  im_daemon :: daemon
  im_up :: bool
  im_env :: "string \<Rightarrow> string option"
  im_status :: ims_status
  im_vowifi :: "vowifi option"
  im_reg :: "registration option"
  im_port :: bool
  im_volte :: "phone option"
  im_sms :: "sms option"
  im_bridge :: "bridge option"

text \<open>What the process finds outside: cryptography, random values, the network, files and ports.\<close>

record ims_world =
  iw_md5 :: "bytes \<Rightarrow> bytes"
  iw_aes :: aes
  iw_cnonce :: bytes
  iw_spi :: "int \<times> int"
  iw_call_id :: ustr
  iw_net :: "nat \<Rightarrow> request \<Rightarrow> sip_message res"
  iw_ids :: "nat \<Rightarrow> ustr"
  iw_ssrc :: "nat \<Rightarrow> int"
  iw_bind :: "int \<Rightarrow> bool"
  iw_webhook :: bool
  iw_db :: "epdg_db option"
  iw_files :: "string \<rightharpoonup> string"
  iw_conf_dir :: bool
  iw_writable :: bool

type_synonym 'a irun = "(ims, process_end, 'a) proc"

definition new_ims :: "daemon \<Rightarrow> bool \<Rightarrow> (string \<Rightarrow> string option) \<Rightarrow> ims" where
  "new_ims d up env = \<lparr>im_daemon = d, im_up = up, im_env = env, im_status = initial_ims_status, im_vowifi = None, im_reg = None,
     im_port = False, im_volte = None, im_sms = None, im_bridge = None\<rparr>"

definition get_ims_state :: "ims \<Rightarrow> ims_status" where
  "get_ims_state s = im_status s"

definition env_get :: "string \<Rightarrow> ims \<Rightarrow> string" where
  "env_get k s = (case im_env s k of None \<Rightarrow> [] | Some v \<Rightarrow> v)"

text \<open>The tunnel's coroutines run inside the process: between their waits they see and set their part.\<close>

definition set_vowifi :: "vowifi \<Rightarrow> ims \<Rightarrow> ims" where
  "set_vowifi v s = s\<lparr>im_vowifi := Some v\<rparr>"

definition on_vowifi :: "'a vrun \<Rightarrow> 'a irun" where
  "on_vowifi = on_part (the \<circ> im_vowifi) set_vowifi id"

section \<open>The profile\<close>

definition ims_exchange :: "aes \<Rightarrow> dict \<Rightarrow> dict irun" where
  "ims_exchange aes msg = effect (\<lambda>s. case socket_exchange aes (im_up s) msg (im_daemon s) of (d, r) \<Rightarrow> (s\<lparr>im_daemon := d\<rparr>, r))"

fun first_enabled :: "json list \<Rightarrow> dict option res" where
  "first_enabled [] = Inr None"
| "first_enabled (p # ps) = rbind (as_dict p) (\<lambda>d. if dict_get d ''state'' JNull = JStr ''enabled'' then Inr (Some d) else first_enabled ps)"

text \<open>Every exception, also that of a list which is none, gives \<open>None\<close>.\<close>

definition ims_active_profile :: "aes \<Rightarrow> dict option irun" where
  "ims_active_profile aes = cbind (attempt (ims_exchange aes [(''type'', JStr ''list_profiles'')])) (\<lambda>r. ret (case r of Inl _ \<Rightarrow> None
     | Inr resp \<Rightarrow> (case dict_get resp ''data'' (JArr []) of
         JArr ps \<Rightarrow> (case first_enabled ps of Inl _ \<Rightarrow> None | Inr p \<Rightarrow> p) | _ \<Rightarrow> None)))"

definition get_profile_credentials :: "aes \<Rightarrow> json \<Rightarrow> json irun" where
  "get_profile_credentials aes i = cbind (attempt (ims_exchange aes [(''type'', JStr ''get_profile_credentials''), (''iccid'', i)])) (\<lambda>r.
     ret (case r of Inl _ \<Rightarrow> JNull | Inr resp \<Rightarrow>
       if dict_get resp ''type'' JNull = JStr ''error'' then JNull else dict_get resp ''data'' JNull))"

definition pause :: "unit irun" where
  "pause s = (s, Wait 0 (\<lambda>_. ret ()))"

text \<open>Sixty attempts, then the endless loop, whose number of rounds is the fuel.\<close>

primrec poll_profile :: "aes \<Rightarrow> nat \<Rightarrow> dict option irun" where
  "poll_profile aes 0 = ret None"
| "poll_profile aes (Suc n) = cbind (ims_active_profile aes) (\<lambda>p. if p = None then seq pause (poll_profile aes n) else ret p)"

primrec idle_profile :: "aes \<Rightarrow> nat \<Rightarrow> dict option irun" where
  "idle_profile aes 0 = ret None"
| "idle_profile aes (Suc n) = seq pause (cbind (ims_active_profile aes) (\<lambda>p. if p = None then idle_profile aes n else ret p))"

definition find_profile :: "aes \<Rightarrow> nat \<Rightarrow> dict option irun" where
  "find_profile aes fuel = cbind (poll_profile aes 60) (\<lambda>p. if p = None then idle_profile aes fuel else ret p)"

section \<open>Identity and credentials\<close>

record identity =
  id_ki :: bytes
  id_opc :: bytes
  id_sqn :: int
  id_impi :: json
  id_impu :: json
  id_home :: json

definition derived_domain :: "string \<Rightarrow> string \<Rightarrow> string \<Rightarrow> string" where
  "derived_domain configured country network = (if configured \<noteq> [] then configured
     else ''ims.mnc'' @ zfill 3 network @ ''.mcc'' @ country @ ''.3gppnetwork.org'')"

text \<open>
  The values of the profile and the credentials' keys are strings. The derived names are used when the
  credentials do not have them; a name that is there and None stays None.
\<close>

definition service_identity :: "string \<Rightarrow> dict \<Rightarrow> json \<Rightarrow> identity res" where
  "service_identity configured profile cred =
     rbind (jstr profile ''imsi'' []) (\<lambda>imsi. rbind (jstr profile ''mcc'' ''001'') (\<lambda>mcc. rbind (jstr profile ''mnc'' ''01'') (\<lambda>mnc.
     let domain = derived_domain configured mcc mnc; impi = JStr (imsi @ ''@'' @ domain); impu = JStr (''sip:'' @ imsi @ ''@'' @ domain) in
     if json_true cred then
       rbind (as_dict cred) (\<lambda>d. rbind (rbind (jstr d ''ki'' (replicate 32 CHR ''0'')) fromhex) (\<lambda>ki.
       rbind (rbind (jstr d ''opc'' (replicate 32 CHR ''0'')) fromhex) (\<lambda>opc. rbind (jint d ''sqn'' 0) (\<lambda>sqn.
       Inr \<lparr>id_ki = ki, id_opc = opc, id_sqn = sqn, id_impi = dict_get d ''impi'' impi, id_impu = dict_get d ''impu'' impu,
            id_home = dict_get d ''home_domain'' (JStr domain)\<rparr>))))
     else Inr \<lparr>id_ki = replicate 16 0, id_opc = replicate 16 0, id_sqn = 0, id_impi = impi, id_impu = impu, id_home = JStr domain\<rparr>)))"

section \<open>The tunnel\<close>

definition service_tunnel :: "ims_world \<Rightarrow> dict \<Rightarrow> identity \<Rightarrow> ims \<Rightarrow> vowifi" where
  "service_tunnel w profile i s =
     (let get = (\<lambda>k dflt. py_str (dict_get profile k (JStr dflt)));
          c = \<lparr>vc_epdg = env_get ''VPHONE_VOWIFI_EPDG'' s, vc_mcc = get ''mcc'' ''001'', vc_mnc = get ''mnc'' ''01'', vc_imsi = get ''imsi'' [],
            vc_ki = id_ki i, vc_opc = id_opc i, vc_local_ts = ''0.0.0.0/0'', vc_remote_ts = ''0.0.0.0/0'', vc_ike = ''aes256-sha256-modp2048'',
            vc_esp = ''aes256-sha256'', vc_rekey = 3600, vc_dpd_delay = 30, vc_ca_cert = ''/var/lib/epdg/ca.cert.pem'',
            vc_db = ''/var/lib/epdg/aka_quintuplets.db''\<rparr>
      in (new_vowifi c (iw_db w) (ustr (env_get ''VPHONE_IMS_PROXY'' s)))\<lparr>vw_files := iw_files w, vw_conf_dir := iw_conf_dir w,
            vw_writable := iw_writable w\<rparr>)"

text \<open>The result is the proxy: the configured one, or the one that the tunnel reports.\<close>

definition vowifi_stage :: "ims_world \<Rightarrow> dict \<Rightarrow> identity \<Rightarrow> ustr irun" where
  "vowifi_stage w profile i = read (\<lambda>s. let proxy = ustr (env_get ''VPHONE_IMS_PROXY'' s) in
     if env_get ''VPHONE_VOWIFI_EPDG'' s = [] then ret proxy
     else seq (Coroutine.act (\<lambda>s. set_vowifi (service_tunnel w profile i s) s))
       (cbind (on_vowifi vowifi_connect) (\<lambda>ok. read (\<lambda>s. case pcscf_address (the (im_vowifi s)) of
          None \<Rightarrow> ret proxy | Some a \<Rightarrow> ret (if ok \<and> a \<noteq> [] then a else proxy)))))"

section \<open>Registration\<close>

fun reg_state_value :: "Registration.reg_state \<Rightarrow> string" where
  "reg_state_value NOT_REGISTERED = ''not_registered''" | "reg_state_value REGISTERING = ''registering''"
| "reg_state_value REGISTERED = ''registered''" | "reg_state_value DEREGISTERING = ''deregistering''"
| "reg_state_value REG_FAILED = ''failed''"

definition json_ustr :: "json \<Rightarrow> ustr" where
  "json_ustr j = ustr (py_str j)"

text \<open>The client of the registration finds the port free or not.\<close>

definition service_registration :: "ims_world \<Rightarrow> identity \<Rightarrow> ustr \<Rightarrow> bool \<Rightarrow> registration" where
  "service_registration w i proxy taken = \<lparr>r_impi = json_ustr (id_impi i), r_impu = json_ustr (id_impu i), r_home = json_ustr (id_home i),
     r_ki = id_ki i, r_opc = id_opc i, r_sqn = id_sqn i, r_pcscf = proxy, r_port = 5060, r_transport = ustr ''UDP'', r_expiry = 3600,
     r_ipsec = False, r_state = NOT_REGISTERED, r_call_id = iw_call_id w, r_service_route = None, r_timer = None, r_bound = taken\<rparr>"

definition registering_status :: "identity \<Rightarrow> ustr \<Rightarrow> ims \<Rightarrow> ims" where
  "registering_status i proxy s = s\<lparr>im_status := (im_status s)\<lparr>is_domain := id_home i, is_pcscf := proxy, is_impi := id_impi i,
     is_state := ''registering''\<rparr>\<rparr>"

definition registration_attempt :: "ims_world \<Rightarrow> identity \<Rightarrow> ustr \<Rightarrow> ims \<Rightarrow> ims \<times> bool res" where
  "registration_attempt w i proxy s =
     (case register (iw_md5 w) (iw_aes w) (iw_cnonce w) (iw_spi w) (iw_net w) (service_registration w i proxy (im_port s)) of
        (r, x) \<Rightarrow> (s\<lparr>im_reg := Some r, im_port := r_bound r\<rparr>, x))"

definition publish_registration :: "ims \<Rightarrow> ims" where
  "publish_registration s = (case im_reg s of None \<Rightarrow> s
     | Some r \<Rightarrow> s\<lparr>im_status := (im_status s)\<lparr>is_registered := (r_state r = REGISTERED), is_state := reg_state_value (r_state r)\<rparr>\<rparr>)"

definition register_stage :: "ims_world \<Rightarrow> identity \<Rightarrow> ustr \<Rightarrow> unit irun" where
  "register_stage w i proxy = seq (Coroutine.act (registering_status i proxy))
     (cbind (effect (registration_attempt w i proxy)) (\<lambda>ok. Coroutine.act (\<lambda>s.
       if ok then s\<lparr>im_status := (im_status s)\<lparr>is_registered := True, is_state := ''registered''\<rparr>\<rparr>
       else case im_reg s of None \<Rightarrow> s
         | Some r \<Rightarrow> s\<lparr>im_status := (im_status s)\<lparr>is_registered := False, is_state := reg_state_value (r_state r)\<rparr>\<rparr>)))"

section \<open>Calls, messages and the bridge\<close>

text \<open>\<^verbatim>\<open>SIPClient.start\<close> over UDP.\<close>

definition take_sip_port :: "unit irun" where
  "take_sip_port = effect (\<lambda>s. if im_port s then (s, Inl OSError) else (s\<lparr>im_port := True\<rparr>, Inr ()))"

definition service_phone :: "ims_world \<Rightarrow> identity \<Rightarrow> ustr \<Rightarrow> registration \<Rightarrow> phone" where
  "service_phone w i proxy r =
     (new_phone \<lparr>vg_pcscf = proxy, vg_port = 5060, vg_transport = ustr ''UDP'', vg_codecs = [''AMR-WB'', ''AMR-NB'', ''EVS''],
        vg_impu = json_ustr (id_impu i), vg_home = json_ustr (id_home i),
        vg_route = (case r_service_route r of None \<Rightarrow> [] | Some x \<Rightarrow> x), vg_local_ip = [], vg_rtp_base = 50000\<rparr>
        (iw_ids w) (iw_ssrc w) (iw_bind w))\<lparr>vhal := False, r_manager := False, r_callback := False\<rparr>"

definition volte_stage :: "ims_world \<Rightarrow> identity \<Rightarrow> ustr \<Rightarrow> unit irun" where
  "volte_stage w i proxy = read (\<lambda>s. seq take_sip_port
     (Coroutine.act (\<lambda>s'. s'\<lparr>im_volte := Some (volte_start (service_phone w i proxy (the (im_reg s))))\<rparr>)))"

definition sms_stage :: "identity \<Rightarrow> ustr \<Rightarrow> unit irun" where
  "sms_stage i proxy = seq take_sip_port
     (Coroutine.act (\<lambda>s. s\<lparr>im_sms := Some (snd (sms_start (new_transport (ustr ''UDP'')) (new_sms proxy (json_ustr (id_impu i)) (json_ustr (id_home i)) [])))\<rparr>))"

definition bridge_stage :: "ims_world \<Rightarrow> unit irun" where
  "bridge_stage w = read (\<lambda>s. given (bridge_from_env (im_env s)) (\<lambda>c.
     let b = new_bridge c (the (im_sms s)) in
     if bridge_enabled b then effect (\<lambda>s. case bridge_start (iw_webhook w) (set_mt_callback b) of (b', r) \<Rightarrow> (s\<lparr>im_bridge := Some b'\<rparr>, r))
     else Coroutine.act (\<lambda>s. s\<lparr>im_bridge := Some b\<rparr>)))"

definition serving_round :: "ims \<Rightarrow> ims" where
  "serving_round = publish_registration"

section \<open>The process as a whole\<close>

datatype ims_end = Still_Idle | No_Pcscf | Serving

definition ims_started :: "ims \<Rightarrow> ims" where
  "ims_started s = s\<lparr>im_status := (im_status s)\<lparr>is_domain := JStr (env_get ''VPHONE_IMS_DOMAIN'' s), is_pcscf := ustr (env_get ''VPHONE_IMS_PROXY'' s)\<rparr>\<rparr>"

definition services_stage :: "ims_world \<Rightarrow> identity \<Rightarrow> ustr \<Rightarrow> ims_end irun" where
  "services_stage w i proxy =
     (if proxy = [] then seq (Coroutine.act (\<lambda>s. s\<lparr>im_status := (im_status s)\<lparr>is_state := ''no_pcscf''\<rparr>\<rparr>)) (ret No_Pcscf)
      else seq (register_stage w i proxy) (seq (volte_stage w i proxy) (seq (sms_stage i proxy) (seq (bridge_stage w) (ret Serving)))))"

definition ims_main :: "ims_world \<Rightarrow> nat \<Rightarrow> ims_end irun" where
  "ims_main w fuel = seq (Coroutine.act ims_started) (cbind (find_profile (iw_aes w) fuel) (\<lambda>found. case found of None \<Rightarrow> ret Still_Idle
     | Some profile \<Rightarrow> cbind (get_profile_credentials (iw_aes w) (dict_get profile ''iccid'' (JStr []))) (\<lambda>cred. read (\<lambda>s.
         given (service_identity (env_get ''VPHONE_IMS_DOMAIN'' s) profile cred) (\<lambda>i.
           cbind (vowifi_stage w profile i) (services_stage w i))))))"

end
