(* ===== verification/Ims_Flows.thy ===== *)
theory Ims_Flows
  imports Ims_Daemon
begin

text \<open>
  How the process of \<^verbatim>\<open>ims/service.py\<close> ends: what every start comes to, and the start of a phone with an
  enabled profile against a registrar that knows the subscriber.
\<close>

interpretation tunnel: part "the \<circ> im_vowifi" set_vowifi "id :: process_end \<Rightarrow> process_end"
  by unfold_locales (simp_all add: set_vowifi_def)

section \<open>Every start\<close>

lemma exchange_within: "within 0 (ims_exchange aes msg)"
  unfolding ims_exchange_def by (rule within_base)

lemma profile_within: "within 0 (ims_active_profile aes)" "within 0 (get_profile_credentials aes i)"
  unfolding ims_active_profile_def get_profile_credentials_def
  by (intro within_bind0 within_attempt exchange_within within_base)+

lemma pause_within: "within 1 pause"
  by (simp add: within_def pause_def)

lemma find_within: "within (60 + fuel) (find_profile aes fuel)"
proof -
  have p: "within n (poll_profile aes n)" for n
  proof (induction n)
    case (Suc n)
    have "within (Suc n) (seq pause (poll_profile aes n))" by (rule within_then [OF pause_within Suc]) simp
    then show ?case unfolding poll_profile.simps by (intro within_bind0 [OF profile_within(1)] within_cases(1) within_base)
  qed (unfold poll_profile.simps, rule within_base)
  have i: "within n (idle_profile aes n)" for n
  proof (induction n)
    case (Suc n)
    then have "within n (cbind (ims_active_profile aes) (\<lambda>p. if p = None then idle_profile aes n else ret p))"
      by (intro within_bind0 [OF profile_within(1)] within_cases(1) within_base)
    then show ?case unfolding idle_profile.simps by (rule within_then [OF pause_within]) simp
  qed (unfold idle_profile.simps, rule within_base)
  have "within fuel (if p = None then idle_profile aes fuel else ret p)" for p
    by (intro i within_base within_cases(1))
  then show ?thesis unfolding find_profile_def by (rule within_then [OF p]) simp
qed

lemma vowifi_within: "within 4 (vowifi_stage w profile i)"
  unfolding vowifi_stage_def Let_def on_vowifi_def
  by (intro within_read within_cases(1) within_base within_bind0 [OF within_base(3)] within_then1 [OF tunnel.within_part [OF connect_within]])
    (auto intro!: waiting)

lemma services_within: "within 0 (services_stage w i proxy)"
  unfolding services_stage_def register_stage_def volte_stage_def sms_stage_def bridge_stage_def take_sip_port_def Let_def
  by (intro within_cases within_bind0 within_base within_read within_given)

text \<open>Once registered over UDP, or with the port taken, the call manager cannot start.\<close>

lemma register_port:
  assumes "upper (r_transport r) = ustr ''UDP''" "r_pcscf r \<noteq> []" "register md5 aes cnonce spi net r = (r', x)"
  shows "r_bound r'" "x = Inl OSError \<and> r_bound r \<or> (\<exists>ok. x = Inr ok \<and> r_state r' = (if ok then REGISTERED else REG_FAILED))"
proof -
  have "r_bound r' \<and> (x = Inl OSError \<and> r_bound r \<or> (\<exists>ok. x = Inr ok \<and> r_state r' = (if ok then REGISTERED else REG_FAILED)))"
  proof (cases "r_bound r")
    case True
    then show ?thesis using assms by (auto simp: register_def)
  next
    case False
    obtain r2 ok where r2: "r_bound r2" "run_register md5 aes cnonce spi net r2 = (r', ok)" "x = Inr ok"
      using False assms that [of "r\<lparr>r_state := REGISTERING, r_bound := True\<rparr>"] by (auto simp: register_def split: prod.splits)
    have "r_bound r'" using run_register_keeps [OF r2(2)] r2(1) by (simp add: same_port_def)
    then show ?thesis using run_register_outcome [OF r2(2)] r2(3) by simp
  qed
  then show "r_bound r'" "x = Inl OSError \<and> r_bound r \<or> (\<exists>ok. x = Inr ok \<and> r_state r' = (if ok then REGISTERED else REG_FAILED))" by blast+
qed

lemma service_registration_simps [simp]:
  "upper (r_transport (service_registration w i proxy b)) = ustr ''UDP''" "r_pcscf (service_registration w i proxy b) = proxy"
  "r_bound (service_registration w i proxy b) = b" "r_ki (service_registration w i proxy b) = id_ki i" "r_opc (service_registration w i proxy b) = id_opc i"
  "r_sqn (service_registration w i proxy b) = id_sqn i" "r_impi (service_registration w i proxy b) = json_ustr (id_impi i)"
  "r_home (service_registration w i proxy b) = json_ustr (id_home i)"
  by (simp_all add: service_registration_def upper_def ustr_simps)

text \<open>
  The rest of the start with a proxy: the attempt to register is made unless the port is taken, its outcome is
  published, and then the call manager's client finds the port taken.
\<close>

definition attempted :: "ims_world \<Rightarrow> identity \<Rightarrow> ustr \<Rightarrow> registration \<times> bool res" where
  "attempted w i proxy = register (iw_md5 w) (iw_aes w) (iw_cnonce w) (iw_spi w) (iw_net w) (service_registration w i proxy False)"

lemma port_taken: "im_port s \<Longrightarrow> seq (volte_stage w i proxy) k s = (s, Exc OSError)"
  by (rule cbind_exc) (simp add: volte_stage_def take_sip_port_def cbind_def effect_def)

lemma services_stop:
  assumes "proxy \<noteq> []" "\<not> im_port s"
  shows "services_stage w i proxy s = (s\<lparr>im_reg := Some (fst (attempted w i proxy)), im_port := True,
     im_status := (im_status s)\<lparr>is_domain := id_home i, is_pcscf := proxy, is_impi := id_impi i,
       is_registered := (r_state (fst (attempted w i proxy)) = REGISTERED), is_state := reg_state_value (r_state (fst (attempted w i proxy)))\<rparr>\<rparr>, Exc OSError)"
proof -
  obtain r x where r: "attempted w i proxy = (r, x)" by fastforce
  obtain ok where ok: "x = Inr ok" "r_bound r" "r_state r = (if ok then REGISTERED else REG_FAILED)"
    using register_port [OF _ _ r [unfolded attempted_def]] assms(1) by auto
  show ?thesis
    using assms r ok
    by (simp add: services_stage_def register_stage_def cbind_effect registration_attempt_def registering_status_def attempted_def
        port_taken)
qed

lemma services_taken:
  assumes "proxy \<noteq> []" "im_port s"
  shows "\<exists>s'. services_stage w i proxy s = (s', Exc OSError)"
proof -
  let ?s = "registering_status i proxy s"
  obtain r where "register (iw_md5 w) (iw_aes w) (iw_cnonce w) (iw_spi w) (iw_net w) (service_registration w i proxy True) = (r, Inl OSError)"
    using assms(1) by (simp add: register_def)
  then have e: "effect (registration_attempt w i proxy) ?s = (?s\<lparr>im_reg := Some r, im_port := r_bound r\<rparr>, Exc OSError)"
    using assms(2) by (simp add: effect_def registration_attempt_def registering_status_def)
  have "register_stage w i proxy s = (?s\<lparr>im_reg := Some r, im_port := r_bound r\<rparr>, Exc OSError)"
    unfolding register_stage_def cbind_act by (rule cbind_exc, rule e)
  then have "services_stage w i proxy s = (?s\<lparr>im_reg := Some r, im_port := r_bound r\<rparr>, Exc OSError)"
    using assms(1) by (simp add: services_stage_def)
  then show ?thesis by blast
qed

lemma services_end: "settles (\<lambda>s x. x = Still_Idle \<or> x = No_Pcscf \<and> is_state (im_status s) = ''no_pcscf'') (\<lambda>_ _. True) (services_stage w i proxy s)"
proof (cases "proxy = []")
  case False
  then show ?thesis using services_stop [of proxy s w i] services_taken [of proxy s w i] by (cases "im_port s") auto
qed (simp add: services_stage_def)

text \<open>
  C15: the service never serves. With whatever profile, network, tunnel and timing, a start ends after at most as
  many waits as there are polls, idle rounds and the four of a tunnel, and it ends idle, without a proxy, or with
  an exception: the registration keeps UDP port 5060, which the call manager's client cannot bind again.
\<close>

theorem ims_never_serves:
  "within (64 + fuel) (ims_main w fuel)
   \<and> settles (\<lambda>s x. x = Still_Idle \<or> x = No_Pcscf \<and> is_state (im_status s) = ''no_pcscf'') (\<lambda>_ _. True) (ims_main w fuel s)"
proof (intro conjI)
  have "within 4 (read (\<lambda>s. given (service_identity (env_get ''VPHONE_IMS_DOMAIN'' s) profile cred) (\<lambda>i.
      cbind (vowifi_stage w profile i) (services_stage w i))))" for profile cred
    by (intro within_read within_given within_then1 [OF vowifi_within] services_within)
  then have "within 4 (case found of None \<Rightarrow> ret Still_Idle
     | Some profile \<Rightarrow> cbind (get_profile_credentials (iw_aes w) (dict_get profile ''iccid'' (JStr []))) (\<lambda>cred. read (\<lambda>s.
         given (service_identity (env_get ''VPHONE_IMS_DOMAIN'' s) profile cred) (\<lambda>i.
           cbind (vowifi_stage w profile i) (services_stage w i)))))" for found
    by (intro within_cases(2) within_base within_bind0 [OF profile_within(2)])
  then show "within (64 + fuel) (ims_main w fuel)"
    unfolding ims_main_def by (intro within_bind0 [OF within_base(3)] within_then [OF find_within, of 4]) simp_all
  let ?R = "\<lambda>s x. x = Still_Idle \<or> x = No_Pcscf \<and> is_state (im_status s) = ''no_pcscf''"
  have e: "settles ?R (\<lambda>_ _. True) (services_stage w i proxy s)" for i proxy s
    by (rule services_end)
  show "settles ?R (\<lambda>_ _. True) (ims_main w fuel s)"
    unfolding ims_main_def
    by (intro settles_then) (auto simp: given_def intro!: settles_then e split: option.split sum.split)
qed

section \<open>The start of a phone\<close>

text \<open>A card that is ready, whose first enabled profile is \<open>p\<close>, filed under its ICCID.\<close>

definition offers :: "euicc \<Rightarrow> isdp \<Rightarrow> bool" where
  "offers e p \<longleftrightarrow> eu_state e = READY \<and> map_of (profiles e) (iccid p) = Some p
     \<and> find (\<lambda>(k, q). p_state q = ENABLED) (profiles e) = Some (iccid p, p)"

lemma find_only:
  assumes "x \<in> set xs" "P x" "\<And>y. y \<in> set xs \<Longrightarrow> P y \<Longrightarrow> y = x"
  shows "find P xs = Some x"
proof (cases "find P xs")
  case None
  then show ?thesis using assms(1,2) by (simp add: find_None_iff)
next
  case (Some y)
  then have "y \<in> set xs" "P y" by (auto simp: find_Some_iff)
  with Some show ?thesis using assms(3) by simp
qed

lemma offers_reach:
  assumes "eu_reach e" "get_active_profile e = Some p"
  shows "offers e p"
proof -
  have inv: "eu_inv e" "eu_state e = READY" using reach_inv [OF assms(1)] by blast+
  obtain k where k: "active_iccid e = Some k" "map_of (profiles e) k = Some p"
    using assms(2) by (cases "active_iccid e") (simp_all add: get_active_eq [OF inv(1)])
  have i: "iccid p = k" "p_state p = ENABLED" using eu_invD(5) [OF inv(1) k(2)] k(1) by simp_all
  have "find (\<lambda>(k, q). p_state q = ENABLED) (profiles e) = Some (k, p)"
  proof (rule find_only)
    fix y assume y: "y \<in> set (profiles e)" "case y of (j, q) \<Rightarrow> p_state q = ENABLED"
    then have m: "map_of (profiles e) (fst y) = Some (snd y)" using dict_okD [OF eu_invD(1) [OF inv(1)], of "fst y" "snd y"] by simp
    have "p_state (snd y) = ENABLED" using y(2) by (simp add: case_prod_beta)
    then have "active_iccid e = Some (fst y)" using eu_invD(5) [OF inv(1) m] by simp
    with m k show "y = (k, p)" by (cases y) simp
  next
    show "(k, p) \<in> set (profiles e)" by (rule map_of_SomeD [OF k(2)])
  qed (simp add: i)
  then show ?thesis using k i inv by (simp add: offers_def)
qed

definition profiles_answer :: "euicc \<Rightarrow> dict" where
  "profiles_answer e = [(''type'', JStr ''profiles''), (''data'', JArr (map (\<lambda>(k, p). JObj (to_summary p)) (profiles e)))]"

definition credentials_request :: "isdp \<Rightarrow> dict" where
  "credentials_request p = [(''type'', JStr ''get_profile_credentials''), (''iccid'', JStr (iccid p))]"

definition credentials_answer :: "isdp \<Rightarrow> dict" where
  "credentials_answer p = [(''type'', JStr ''credentials''), (''data'', JObj (credentials p))]"

lemma ims_exchange_same:
  assumes "im_up s" "sendable msg" "receivable x" "process_message aes msg (im_daemon s) = (im_daemon s, Inr x)"
  shows "ims_exchange aes msg s = (s, Ret x)"
  using exchange_result [OF assms(2,4)] assms(1,3) by (simp add: ims_exchange_def effect_def)

lemma summary_enabled: "dict_get (to_summary p) ''state'' JNull = JStr ''enabled'' \<longleftrightarrow> p_state p = ENABLED"
  by (cases "p_state p") (simp_all add: to_summary_def dict_get_def)

lemma first_summaries:
  "first_enabled (map (\<lambda>(k, p). JObj (to_summary p)) xs) = Inr (map_option (to_summary \<circ> snd) (find (\<lambda>(k, q). p_state q = ENABLED) xs))"
  by (induction xs) (auto simp: as_dict_def summary_enabled)

lemma active_offered:
  assumes "im_up s" "offers (daemon_euicc (im_daemon s)) p" "receivable (profiles_answer (daemon_euicc (im_daemon s)))"
  shows "ims_active_profile aes s = (s, Ret (Some (to_summary p)))"
proof -
  let ?msg = "[(''type'', JStr ''list_profiles'')] :: dict"
  have "sendable ?msg" by (intro conjunct1 [OF sized_ok]) (simp_all add: dict_ok_def)
  moreover have "process_message aes ?msg (im_daemon s) = (im_daemon s, Inr (profiles_answer (daemon_euicc (im_daemon s))))"
    using assms(2) by (simp add: process_message_def dict_get_def list_profiles_def require_ready_def offers_def profiles_answer_def case_prod_beta)
  ultimately have "attempt (ims_exchange aes ?msg) s = (s, Ret (Inr (profiles_answer (daemon_euicc (im_daemon s)))))"
    using ims_exchange_same [OF assms(1) _ assms(3)] by simp
  then show ?thesis
    unfolding ims_active_profile_def
    by (rule cbind_ret [THEN trans]) (use assms(2) in \<open>simp add: profiles_answer_def dict_get_def first_summaries offers_def\<close>)
qed

lemma find_offered:
  assumes "ims_active_profile aes s = (s, Ret (Some x))"
  shows "find_profile aes fuel s = (s, Ret (Some x))"
proof -
  have "poll_profile aes (Suc 59) s = (s, Ret (Some x))"
    unfolding poll_profile.simps by (rule cbind_ret [THEN trans], rule assms) simp
  then have "poll_profile aes 60 s = (s, Ret (Some x))" by (simp del: poll_profile.simps)
  then show ?thesis unfolding find_profile_def by (rule cbind_ret [THEN trans]) simp
qed

lemma credentials_offered:
  assumes "im_up s" "offers (daemon_euicc (im_daemon s)) p" "sendable (credentials_request p)" "receivable (credentials_answer p)"
  shows "get_profile_credentials aes (JStr (iccid p)) s = (s, Ret (JObj (credentials p)))"
proof -
  have "process_message aes (credentials_request p) (im_daemon s) = (im_daemon s, Inr (credentials_answer p))"
    using assms(2) by (simp add: process_message_def credentials_request_def process_credentials_def dict_get_def jstr_def offers_def credentials_answer_def)
  then have "attempt (ims_exchange aes (credentials_request p)) s = (s, Ret (Inr (credentials_answer p)))"
    using ims_exchange_same [OF assms(1,3,4)] by simp
  then show ?thesis
    unfolding get_profile_credentials_def credentials_request_def [symmetric]
    by (rule cbind_ret [THEN trans]) (simp add: credentials_answer_def dict_get_def)
qed

text \<open>The identity of a profile: its own names, whatever the configured domain is.\<close>

definition profile_identity :: "isdp \<Rightarrow> bytes \<Rightarrow> bytes \<Rightarrow> identity" where
  "profile_identity p k oc = (let i = get_isim_data p in \<lparr>id_ki = k, id_opc = oc, id_sqn = sqn p, id_impi = of_opt_str (isim_impi i),
     id_impu = of_opt_str (isim_impu i), id_home = of_opt_str (isim_domain i)\<rparr>)"

lemma identity_of_profile:
  assumes "fromhex (ki p) = Inr k" "fromhex (opc p) = Inr oc"
  shows "service_identity configured (to_summary p) (JObj (credentials p)) = Inr (profile_identity p k oc)"
  using assms
  by (simp add: service_identity_def to_summary_def credentials_def get_usim_data_def dict_update_def dict_get_def jstr_def jint_def as_dict_def
      json_true_def profile_identity_def Let_def)

lemma main_offered:
  assumes "im_up s" "offers (daemon_euicc (im_daemon s)) p" "receivable (profiles_answer (daemon_euicc (im_daemon s)))"
    and "sendable (credentials_request p)" "receivable (credentials_answer p)" "fromhex (ki p) = Inr k" "fromhex (opc p) = Inr oc"
    and "im_env s ''VPHONE_VOWIFI_EPDG'' = None" "im_env s ''VPHONE_IMS_PROXY'' = Some proxy"
  shows "ims_main w fuel s = services_stage w (profile_identity p k oc) (ustr proxy) (ims_started s)"
proof -
  let ?s = "ims_started s" and ?i = "profile_identity p k oc"
  have s: "im_up ?s" "im_daemon ?s = im_daemon s" "im_env ?s = im_env s" using assms(1) by (simp_all add: ims_started_def)
  have f: "find_profile (iw_aes w) fuel ?s = (?s, Ret (Some (to_summary p)))"
    using find_offered [OF active_offered [OF s(1)]] assms(2,3) by (simp add: s)
  have c: "get_profile_credentials (iw_aes w) (dict_get (to_summary p) ''iccid'' (JStr [])) ?s = (?s, Ret (JObj (credentials p)))"
    using credentials_offered [OF s(1), of p] assms(2,4,5) by (simp add: s to_summary_def dict_get_def)
  have v: "vowifi_stage w (to_summary p) ?i ?s = (?s, Ret (ustr proxy))"
    using assms(8,9) by (simp add: vowifi_stage_def env_get_def s)
  show ?thesis
    unfolding ims_main_def cbind_act
    by (rule cbind_ret [THEN trans], rule f, simp, rule cbind_ret [THEN trans], rule c,
        simp add: identity_of_profile [OF assms(6,7)] given_def, rule cbind_ret, rule v)
qed

text \<open>
  C6: a phone whose card offers a profile, with the daemon, a registrar that knows the subscriber and a proxy,
  registers under the names of the profile, not of the configured domain, exactly when the card's sequence number
  is not ahead of the network's; the daemon's card is unchanged, its sequence number too. Then the process ends
  with OSError, registered or not, without calls, messages or bridge.
\<close>

theorem ims_registers_phone:
  assumes "im_up s" "offers (daemon_euicc (im_daemon s)) p" "receivable (profiles_answer (daemon_euicc (im_daemon s)))"
    and "sendable (credentials_request p)" "receivable (credentials_answer p)" "fromhex (ki p) = Inr k" "fromhex (opc p) = Inr oc"
    and "im_env s ''VPHONE_VOWIFI_EPDG'' = None" "im_env s ''VPHONE_IMS_PROXY'' = Some proxy" "proxy \<noteq> []" "\<not> im_port s"
    and "aes_ok (iw_aes w)" "length rand = 16" "sqn_ok n" "fromhex amf_hex = Inr amf" "length amf = 2"
    and "make_vector (iw_aes w) rand (imsi p) k oc n amf_hex = Inr v" "map_of (vector_cache h) (imsi p) = Some v"
    and "iw_net w = registrar (iw_md5 w) (imsi p) v h" "i = profile_identity p k oc"
    and "word_ok (json_ustr (id_impi i))" "unicode_text (json_ustr (id_impi i))"
    and "word_ok (json_ustr (id_home i))" "unicode_text (json_ustr (id_home i))" "word_ok (ustr (ims_realm (imsi p)))"
  shows "\<exists>s' r. ims_main w fuel s = (s', Exc OSError) \<and> im_reg s' = Some r
    \<and> r_state r = (if sqn p \<le> n then REGISTERED else REG_FAILED) \<and> is_registered (im_status s') = (sqn p \<le> n)
    \<and> is_impi (im_status s') = of_opt_str (isim_impi (get_isim_data p)) \<and> is_domain (im_status s') = of_opt_str (isim_domain (get_isim_data p))
    \<and> im_daemon s' = im_daemon s \<and> im_volte s' = im_volte s \<and> im_sms s' = im_sms s \<and> im_bridge s' = im_bridge s"
proof -
  let ?r = "service_registration w i (ustr proxy) False"
  have i: "id_ki i = k" "id_opc i = oc" "id_sqn i = sqn p" "id_impi i = of_opt_str (isim_impi (get_isim_data p))"
    "id_home i = of_opt_str (isim_domain (get_isim_data p))" by (simp_all add: assms(20) profile_identity_def Let_def)
  have px: "ustr proxy \<noteq> []" using assms(10) by (simp add: ustr_def)
  obtain r where r: "attempted w i (ustr proxy) = (r, Inr (sqn p \<le> n))" "r_state r = (if sqn p \<le> n then REGISTERED else REG_FAILED)"
    using register_run [of "iw_aes w" rand n amf_hex amf "imsi p" ?r v h "iw_md5 w" "iw_cnonce w" "iw_spi w"] assms(12-19,21-25) px
    by (auto simp: attempted_def i)
  have "\<not> im_port (ims_started s)" using assms(11) by (simp add: ims_started_def)
  from services_stop [OF px this, of w i] show ?thesis
    unfolding main_offered [OF assms(1-9)] assms(20) [symmetric] using r by (simp add: i ims_started_def)
qed

definition sample_env :: "string \<Rightarrow> string option" where
  "sample_env k = (if k = ''VPHONE_IMS_PROXY'' then Some ''10.0.0.1'' else if k = ''VPHONE_IMS_DOMAIN'' then Some ''ims.example'' else None)"

definition sample_ims :: ims where
  "sample_ims = new_ims (new_daemon sample_handler (\<lambda>_. ''aid'')) True sample_env"

definition sample_world :: "(nat \<Rightarrow> request \<Rightarrow> sip_message res) \<Rightarrow> ims_world" where
  "sample_world net = \<lparr>iw_md5 = (\<lambda>b. b), iw_aes = sample_aes, iw_cnonce = [], iw_spi = (0, 0), iw_call_id = ustr ''c1'', iw_net = net,
     iw_ids = (\<lambda>n. ustr (dec_nat n)), iw_ssrc = int, iw_bind = (\<lambda>_. True), iw_webhook = True, iw_db = None, iw_files = Map.empty,
     iw_conf_dir = True, iw_writable = True\<rparr>"

lemma sample_offers: "offers (daemon_euicc (im_daemon sample_ims)) sample_isdp" "im_up sample_ims" "\<not> im_port sample_ims"
  "im_env sample_ims = sample_env" "profiles (daemon_euicc (im_daemon sample_ims)) = [(''8901'', sample_isdp)]"
  by (simp_all add: offers_def sample_ims_def new_ims_def new_daemon_def daemon_euicc_def sample_handler_def new_handler_def sample_isdp_def)

lemma sample_messages: "receivable (profiles_answer (daemon_euicc (im_daemon sample_ims)))" "sendable (credentials_request sample_isdp)"
  "receivable (credentials_answer sample_isdp)"
proof -
  show "receivable (profiles_answer (daemon_euicc (im_daemon sample_ims)))"
    by (intro conjunct2 [OF sized_ok]) (simp_all add: profiles_answer_def sample_offers dict_ok_def to_summary_def sample_isdp_def)
  show "sendable (credentials_request sample_isdp)"
    by (intro conjunct1 [OF sized_ok]) (simp_all add: credentials_request_def dict_ok_def sample_isdp_def)
  show "receivable (credentials_answer sample_isdp)"
    by (intro conjunct2 [OF sized_ok]) (simp_all add: credentials_answer_def credentials_def get_usim_data_def get_isim_data_def dict_update_def
        dict_ok_def sample_isdp_def sample_mil_def Let_def)
qed

theorem ims_registers_phone_witness:
  "\<exists>w s' r. ims_main w 0 sample_ims = (s', Exc OSError) \<and> im_reg s' = Some r \<and> r_state r = REGISTERED \<and> is_registered (im_status s')
    \<and> is_domain (im_status s') = JStr ''ims.mnc01.mcc001.3gppnetwork.org'' \<and> im_volte s' = None"
proof -
  let ?p = "sample_isdp" and ?i = "profile_identity sample_isdp (mil_ki sample_mil) (mil_opc sample_mil)"
  obtain autn res ck ik where "aka_vector sample_aes sample_mil sample_rand 32 [128, 0] = Inr (autn, res, ck, ik)"
    using sample_vector by fastforce
  moreover have "mil_init (mil_ki sample_mil) (mil_opc sample_mil) = Inr sample_mil" by (simp add: mil_init_def sample_mil_def)
  moreover have f: "fromhex ''8000'' = Inr [128, 0]" by (simp add: is_space_def hex_value_def Let_def)
  moreover have "to_bytes_be 6 32 = Inr (be_bytes 6 32)" by (simp add: to_bytes_be_def)
  ultimately obtain v where v: "make_vector sample_aes sample_rand (imsi ?p) (mil_ki sample_mil) (mil_opc sample_mil) 32 ''8000'' = Inr v"
    by (simp add: make_vector_def)
  let ?h = "\<lparr>subscribers = [], vector_cache = [(imsi ?p, v)]\<rparr>"
  let ?w = "sample_world (registrar (\<lambda>b. b) (imsi ?p) v ?h)"
  have keys: "fromhex (ki ?p) = Inr (mil_ki sample_mil)" "fromhex (opc ?p) = Inr (mil_opc sample_mil)" by (simp_all add: sample_isdp_def)
  have e: "im_env sample_ims ''VPHONE_VOWIFI_EPDG'' = None" "im_env sample_ims ''VPHONE_IMS_PROXY'' = Some ''10.0.0.1''" "''10.0.0.1'' \<noteq> []"
    by (simp_all add: sample_offers sample_env_def)
  have a: "aes_ok (iw_aes ?w)" "map_of (vector_cache ?h) (imsi ?p) = Some v" "iw_net ?w = registrar (iw_md5 ?w) (imsi ?p) v ?h"
    using sample_ok(1) by (simp_all add: sample_world_def)
  have n: "id_impi ?i = JStr ''001010000000001@ims.mnc01.mcc001.3gppnetwork.org''" "id_home ?i = JStr ''ims.mnc01.mcc001.3gppnetwork.org''"
    "isim_domain (get_isim_data ?p) = Some ''ims.mnc01.mcc001.3gppnetwork.org''" "sqn ?p = 30"
    by (simp_all add: profile_identity_def get_isim_data_def sample_isdp_def Let_def)
  have w: "word_ok (json_ustr (id_impi ?i))" "unicode_text (json_ustr (id_impi ?i))" "word_ok (json_ustr (id_home ?i))"
    "unicode_text (json_ustr (id_home ?i))" "word_ok (ustr (ims_realm (imsi ?p)))"
    unfolding n json_ustr_def
    by (simp_all add: py_str_def sample_isdp_def ims_realm_def zfill_def slice_def ustr_simps is_white_def)
  have "make_vector (iw_aes ?w) sample_rand (imsi ?p) (mil_ki sample_mil) (mil_opc sample_mil) 32 ''8000'' = Inr v" using v by (simp add: sample_world_def)
  from ims_registers_phone [OF sample_offers(2,1) sample_messages keys e sample_offers(3) a(1) sample_ok(3,4) f _ this a(2,3) refl w, of 0]
  show ?thesis by (auto simp: n sample_ims_def new_ims_def)
qed

end
