(* ===== verification/Management.thy ===== *)
theory Management
  imports Complex_Main Ims_Daemon Modem Euicc_Hal "HOL-Library.Char_ord" "HOL-Library.List_Lexorder"
begin

text \<open>
  \<^verbatim>\<open>hal/management_api.py\<close>: the HTTP interface. A request is an endpoint with the body the framework has
  parsed, its API key and how long it took. The framework itself is not modelled: \<open>Unrouted\<close> is any request
  that it answers without the code's functions, with its status. Between the waits of a request other requests run.
  Times are exact rational numbers; text that comes as code points is answered as characters.
\<close>

section \<open>Metrics\<close>

record metrics =
  mx_count :: "(string \<times> nat) list"
  mx_latency :: "(string \<times> rat) list"
  mx_errors :: "(string \<times> nat) list"
  mx_installs :: nat
  mx_deletes :: nat

definition new_metrics :: metrics where
  "new_metrics = \<lparr>mx_count = [], mx_latency = [], mx_errors = [], mx_installs = 0, mx_deletes = 0\<rparr>"

definition metric_key :: "string \<Rightarrow> string \<Rightarrow> string" where
  "metric_key http_method path = http_method @ '' '' @ path"

definition record_request :: "string \<Rightarrow> string \<Rightarrow> int \<Rightarrow> rat \<Rightarrow> metrics \<Rightarrow> metrics" where
  "record_request http_method path status seconds m =
     (let key = metric_key http_method path;
          m1 = m\<lparr>mx_count := dict_set key (dict_get (mx_count m) key 0 + 1) (mx_count m),
                 mx_latency := dict_set key (dict_get (mx_latency m) key 0 + seconds) (mx_latency m)\<rparr>
      in if status \<ge> 400 then m1\<lparr>mx_errors := dict_set key (dict_get (mx_errors m) key 0 + 1) (mx_errors m)\<rparr> else m1)"

text \<open>\<^verbatim>\<open>key.split(" ", 1)\<close> of a key with a space in it.\<close>

definition split_key :: "string \<Rightarrow> string \<times> string" where
  "split_key key = (takeWhile (\<lambda>c. c \<noteq> CHR '' '') key, tl (dropWhile (\<lambda>c. c \<noteq> CHR '' '') key))"

definition quoted_text :: "string \<Rightarrow> string" where
  "quoted_text s = [CHR 0x22] @ s @ [CHR 0x22]"

definition metric_line :: "string \<Rightarrow> string \<Rightarrow> string \<Rightarrow> string" where
  "metric_line name key shown = (case split_key key of (http_method, path) \<Rightarrow>
     name @ ''{method='' @ quoted_text http_method @ '',path='' @ quoted_text path @ ''} '' @ shown)"

definition metric_block :: "string \<Rightarrow> string \<Rightarrow> ('v \<Rightarrow> string) \<Rightarrow> (string \<times> 'v) list \<Rightarrow> string list" where
  "metric_block name help shown d = [''# HELP '' @ name @ '' '' @ help, ''# TYPE '' @ name @ '' counter'']
     @ map (\<lambda>(key, v). metric_line name key (shown v)) (sort_key fst d)"

definition metric_total :: "string \<Rightarrow> string \<Rightarrow> string \<Rightarrow> nat \<Rightarrow> string list" where
  "metric_total name kind help n = [''# HELP '' @ name @ '' '' @ help, ''# TYPE '' @ name @ '' '' @ kind, name @ '' '' @ dec_nat n]"

text \<open>\<open>fixed6\<close> is the format \<^verbatim>\<open>.6f\<close>.\<close>

definition render :: "(rat \<Rightarrow> string) \<Rightarrow> metrics \<Rightarrow> string" where
  "render fixed6 m = unlines
     (metric_block ''vphone_http_requests_total'' ''Total HTTP requests'' dec_nat (mx_count m)
      @ metric_block ''vphone_http_request_duration_seconds'' ''Total request duration'' fixed6 (mx_latency m)
      @ metric_block ''vphone_http_errors_total'' ''Total HTTP errors (4xx/5xx)'' dec_nat (mx_errors m)
      @ metric_total ''vphone_profile_installs_total'' ''counter'' ''Total profile installs'' (mx_installs m)
      @ metric_total ''vphone_profile_deletes_total'' ''counter'' ''Total profile deletes'' (mx_deletes m))"

section \<open>The process\<close>

text \<open>
  \<open>ap_rsp\<close> are the provisioning service and the daemon, which the process reaches over their sockets; the rest
  are the modules' variables in this process: the dictionaries that describe the services and the
  references to the call manager and the SMS service.
\<close>

record api =
  ap_key :: string
  ap_metrics :: metrics
  ap_rsp :: rsp
  ap_rsp_up :: bool
  ap_client :: nat
  ap_ims :: ims_status
  ap_vowifi :: vowifi_status
  ap_volte :: "phone option"
  ap_sms :: "sms option"
  ap_supplementary :: supplementary_state

definition initial_supplementary :: supplementary_state where
  "initial_supplementary = \<lparr>ss_rules = [], ss_ussd_active = False, ss_held = 0, ss_conference = 0\<rparr>"

text \<open>The process as it starts: the modules are imported, no service runs in it.\<close>

definition new_api :: "string \<Rightarrow> rsp \<Rightarrow> bool \<Rightarrow> api" where
  "new_api key r up = \<lparr>ap_key = key, ap_metrics = new_metrics, ap_rsp = r, ap_rsp_up = up, ap_client = 0, ap_ims = initial_ims_status,
     ap_vowifi = initial_status, ap_volte = None, ap_sms = None, ap_supplementary = initial_supplementary\<rparr>"

datatype api_wait = Http http_answer | Sip_Answer "sip_message res"

fun http_of :: "api_wait \<Rightarrow> http_answer" where
  "http_of (Http x) = x" | "http_of (Sip_Answer _) = Inl RuntimeError"

fun sip_of :: "api_wait \<Rightarrow> sip_message res" where
  "sip_of (Sip_Answer x) = x" | "sip_of (Http _) = Inl RuntimeError"

type_synonym 'a arun = "(api, api_wait, 'a) proc"

record api_world =
  aw_etext :: "exn \<Rightarrow> string"
  aw_aes :: aes
  aw_fixed6 :: "rat \<Rightarrow> string"
  aw_stats :: "media \<Rightarrow> json"
  aw_error :: "sms_error \<Rightarrow> string"
  aw_sms_net :: "request \<Rightarrow> sip_message res"
  aw_imei :: string

text \<open>A reply of the code; an HTTPException is the reply it becomes.\<close>

datatype api_reply = Reply int json | Plain int string

definition http_error :: "int \<Rightarrow> string \<Rightarrow> api_reply" where
  "http_error code detail = Reply code (JObj [(''detail'', JStr detail)])"

fun reply_status :: "api_reply \<Rightarrow> int" where
  "reply_status (Reply c _) = c" | "reply_status (Plain c _) = c"

definition text_json :: "ustr \<Rightarrow> json" where
  "text_json u = JStr (map char_of u)"

definition opt_json :: "ustr option \<Rightarrow> json" where
  "opt_json x = (case x of None \<Rightarrow> JNull | Some u \<Rightarrow> text_json u)"

section \<open>The sockets\<close>

definition set_rsp :: "rsp \<Rightarrow> api \<Rightarrow> api" where
  "set_rsp r s = s\<lparr>ap_rsp := r\<rparr>"

definition on_rsp :: "'a lrun \<Rightarrow> 'a arun" where
  "on_rsp = on_part ap_rsp set_rsp http_of"

definition unavailable :: "api_world \<Rightarrow> exn \<Rightarrow> api_reply" where
  "unavailable w e = http_error 503 (''Service unavailable: '' @ aw_etext w e)"

definition send_euicc :: "api_world \<Rightarrow> dict \<Rightarrow> (dict \<Rightarrow> api_reply arun) \<Rightarrow> api_reply arun" where
  "send_euicc w msg k = cbind (attempt (on_rsp (es10_send (aw_aes w) msg))) (\<lambda>r. case r of Inl e \<Rightarrow> ret (unavailable w e) | Inr resp \<Rightarrow> k resp)"

definition send_rsp :: "api_world \<Rightarrow> dict \<Rightarrow> (json \<Rightarrow> api_reply arun) \<Rightarrow> api_reply arun" where
  "send_rsp w msg k = read (\<lambda>s. seq (Coroutine.act (\<lambda>s. s\<lparr>ap_client := ap_client s + 1\<rparr>))
     (cbind (attempt (on_rsp (rsp_exchange (aw_etext w) (aw_aes w) (ap_rsp_up s) (ap_client s) msg)))
        (\<lambda>r. case r of Inl e \<Rightarrow> ret (unavailable w e) | Inr resp \<Rightarrow> k resp)))"

section \<open>Profiles\<close>

definition health :: "api_world \<Rightarrow> api_reply arun" where
  "health w = cbind (attempt (on_rsp (es10_send (aw_aes w) [(''type'', JStr ''get_info'')]))) (\<lambda>r.
     let good = (case r of Inl _ \<Rightarrow> False | Inr resp \<Rightarrow> ''data'' \<in> fst ` set resp) in
     ret (Reply 200 (JObj [(''status'', JStr (if good then ''healthy'' else ''degraded'')), (''euicc'', JStr (if good then ''ok'' else ''unavailable''))])))"

text \<open>The two numbers, -1 when the list cannot be counted.\<close>

definition count_profiles :: "json \<Rightarrow> int \<times> int" where
  "count_profiles j = (case j of
     JArr ps \<Rightarrow> (case rmap as_dict ps of Inl _ \<Rightarrow> (-1, -1)
       | Inr ds \<Rightarrow> (int (length ds), int (length (filter (\<lambda>d. dict_get d ''state'' JNull = JStr ''enabled'') ds))))
   | _ \<Rightarrow> if j = JObj [] \<or> j = JStr [] then (0, 0) else (-1, -1))"

definition gauge :: "string \<Rightarrow> string \<Rightarrow> int \<Rightarrow> string" where
  "gauge name help n = unlines [''# HELP '' @ name @ '' '' @ help, ''# TYPE '' @ name @ '' gauge'', name @ '' '' @ dec_int n]"

definition get_metrics :: "api_world \<Rightarrow> api_reply arun" where
  "get_metrics w = cbind (attempt (on_rsp (es10_send (aw_aes w) [(''type'', JStr ''list_profiles'')]))) (\<lambda>r.
     let counts = (case r of Inl _ \<Rightarrow> (-1, -1) | Inr resp \<Rightarrow> count_profiles (dict_get resp ''data'' (JArr []))) in
     read (\<lambda>s. ret (Plain 200 (render (aw_fixed6 w) (ap_metrics s)
       @ gauge ''vphone_profiles_installed'' ''Number of installed profiles'' (fst counts)
       @ gauge ''vphone_profiles_enabled'' ''Number of enabled profiles'' (snd counts)))))"

definition api_euicc_info :: "api_world \<Rightarrow> api_reply arun" where
  "api_euicc_info w = send_euicc w [(''type'', JStr ''get_info'')] (\<lambda>resp. ret (Reply 200 (dict_get resp ''data'' (JObj []))))"

definition api_eid :: "api_world \<Rightarrow> api_reply arun" where
  "api_eid w = send_euicc w [(''type'', JStr ''get_info'')] (\<lambda>resp.
     given (as_dict (dict_get resp ''data'' (JObj []))) (\<lambda>d. ret (Reply 200 (JObj [(''eid'', dict_get d ''eid'' (JStr []))]))))"

definition api_list_profiles :: "api_world \<Rightarrow> api_reply arun" where
  "api_list_profiles w = send_euicc w [(''type'', JStr ''list_profiles'')] (\<lambda>resp.
     ret (Reply 200 (JObj [(''profiles'', dict_get resp ''data'' (JArr []))])))"

record install_request =
  iq_iccid :: string
  iq_imsi :: string
  iq_ki :: string
  iq_opc :: string
  iq_mcc :: string
  iq_mnc :: string
  iq_spn :: string
  iq_msisdn :: "string option"
  iq_impi :: "string option"
  iq_impu :: "string option"
  iq_home_domain :: "string option"

text \<open>\<^verbatim>\<open>model_dump(exclude_none=True)\<close>.\<close>

definition install_dump :: "install_request \<Rightarrow> dict" where
  "install_dump q = [(''iccid'', JStr (iq_iccid q)), (''imsi'', JStr (iq_imsi q)), (''ki'', JStr (iq_ki q)), (''opc'', JStr (iq_opc q)),
     (''mcc'', JStr (iq_mcc q)), (''mnc'', JStr (iq_mnc q)), (''spn'', JStr (iq_spn q))]
     @ concat (map (\<lambda>(k, x). case x of None \<Rightarrow> [] | Some v \<Rightarrow> [(k, JStr v)])
         [(''msisdn'', iq_msisdn q), (''impi'', iq_impi q), (''impu'', iq_impu q), (''home_domain'', iq_home_domain q)])"

definition done_reply :: "string \<Rightarrow> string \<Rightarrow> api_reply" where
  "done_reply i what = Reply 200 (JObj [(''success'', JBool True), (''message'', JStr (''Profile '' @ i @ what))])"

definition on_metrics :: "(metrics \<Rightarrow> metrics) \<Rightarrow> unit arun" where
  "on_metrics f = Coroutine.act (\<lambda>s. s\<lparr>ap_metrics := f (ap_metrics s)\<rparr>)"

definition api_install :: "api_world \<Rightarrow> install_request \<Rightarrow> api_reply arun" where
  "api_install w q = send_euicc w [(''type'', JStr ''install_profile''), (''profile'', JObj (install_dump q))] (\<lambda>resp.
     if json_true (dict_get resp ''success'' JNull) then
       seq (on_metrics (\<lambda>m. m\<lparr>mx_installs := mx_installs m + 1\<rparr>))
         (ret (Reply 200 (JObj [(''success'', JBool True), (''iccid'', dict_get resp ''iccid'' JNull),
            (''message'', JStr (''Profile '' @ iq_iccid q @ '' installed successfully''))])))
     else ret (Reply 400 (JObj [(''detail'', dict_get resp ''message'' (JStr ''Install failed''))])))"

definition api_download :: "api_world \<Rightarrow> string \<Rightarrow> string option \<Rightarrow> api_reply arun" where
  "api_download w code confirmation = send_rsp w (download_message code confirmation) (\<lambda>resp. ret (Reply 200 resp))"

definition api_switch :: "string \<Rightarrow> string \<Rightarrow> api_world \<Rightarrow> string \<Rightarrow> api_reply arun" where
  "api_switch what past w i = send_euicc w [(''type'', JStr (what @ ''_profile'')), (''iccid'', JStr i)] (\<lambda>resp.
     if json_true (dict_get resp ''success'' JNull) then ret (done_reply i past)
     else ret (http_error 400 (''Failed to '' @ what @ '' profile'')))"

definition api_enable :: "api_world \<Rightarrow> string \<Rightarrow> api_reply arun" where "api_enable = api_switch ''enable'' '' enabled''"
definition api_disable :: "api_world \<Rightarrow> string \<Rightarrow> api_reply arun" where "api_disable = api_switch ''disable'' '' disabled''"

definition api_delete :: "api_world \<Rightarrow> string \<Rightarrow> api_reply arun" where
  "api_delete w i = send_euicc w [(''type'', JStr ''delete_profile''), (''iccid'', JStr i)] (\<lambda>resp.
     if json_true (dict_get resp ''success'' JNull) then
       seq (on_metrics (\<lambda>m. m\<lparr>mx_deletes := mx_deletes m + 1\<rparr>)) (ret (done_reply i '' deleted''))
     else ret (http_error 400 ''Failed to delete profile''))"

section \<open>Status\<close>

definition ims_status_json :: "ims_status \<Rightarrow> json" where
  "ims_status_json x = JObj [(''registered'', JBool (is_registered x)), (''state'', JStr (is_state x)), (''domain'', is_domain x),
     (''pcscf'', text_json (is_pcscf x)), (''impi'', is_impi x)]"

fun vowifi_state_value :: "vowifi_state \<Rightarrow> string" where
  "vowifi_state_value DISCONNECTED = ''disconnected''" | "vowifi_state_value CONNECTING = ''connecting''"
| "vowifi_state_value vowifi_state.AUTHENTICATING = ''authenticating''" | "vowifi_state_value CONNECTED = ''connected''"
| "vowifi_state_value FAILED = ''failed''"

definition vowifi_status_json :: "vowifi_status \<Rightarrow> json" where
  "vowifi_status_json x = JObj [(''state'', JStr (vowifi_state_value (vs_state x))), (''tunnel_up'', JBool (vs_up x)), (''epdg'', JStr (vs_epdg x)),
     (''tunnel_ip'', opt_json (vs_ip x)), (''pcscf_addresses'', JArr (map text_json (vs_pcscf x))), (''dns_servers'', JArr (map text_json (vs_dns x))),
     (''dpd_ok'', JBool (vs_dpd_ok x))]"

text \<open>The dictionary of the SMS module: as it is first, and as the service changes it.\<close>

definition sms_status_json :: "api_world \<Rightarrow> sms option \<Rightarrow> json" where
  "sms_status_json w x = (case x of
     None \<Rightarrow> JObj [(''enabled'', JBool False), (''messages_sent'', JInt 0), (''messages_received'', JInt 0), (''last_error'', JNull)]
   | Some s \<Rightarrow> JObj [(''enabled'', JBool (sms_enabled s)), (''messages_sent'', JInt (messages_sent s)), (''messages_received'', JInt (messages_received s)),
       (''last_error'', case last_error s of None \<Rightarrow> JNull | Some e \<Rightarrow> JStr (aw_error w e))])"

fun volte_state_value :: "volte_state \<Rightarrow> string" where
  "volte_state_value INITIATING = ''initiating''" | "volte_state_value RINGING_OUT = ''ringing_out''" | "volte_state_value RINGING_IN = ''ringing_in''"
| "volte_state_value ACTIVE = ''active''" | "volte_state_value HELD = ''held''" | "volte_state_value TERMINATING = ''terminating''"
| "volte_state_value ENDED = ''ended''"

definition call_json :: "api_world \<Rightarrow> volte_call \<Rightarrow> json" where
  "call_json w c = JObj [(''callId'', text_json (vc_id c)), (''direction'', JStr (if vc_mo c then ''MO'' else ''MT'')),
     (''state'', JStr (volte_state_value (vc_state c))), (''number'', text_json (vc_number c)), (''codec'', text_json (vc_codec c)),
     (''rtpPort'', JInt (vc_port c)), (''media'', case vc_media c of None \<Rightarrow> JNull | Some m \<Rightarrow> aw_stats w m)]"

definition volte_status_json :: "api_world \<Rightarrow> phone option \<Rightarrow> json" where
  "volte_status_json w x = (case x of
     None \<Rightarrow> JObj [(''enabled'', JBool False), (''active_calls'', JInt 0), (''total_calls'', JInt 0), (''codec'', JNull)]
   | Some p \<Rightarrow> JObj [(''enabled'', JBool (venabled p)), (''active_calls'', JInt (vactive p)), (''total_calls'', JInt (vtotal p)),
       (''codec'', opt_json (vcodec p)), (''calls'', JArr (map (\<lambda>(_, i). call_json w (call_obj i p)) (vcalls p)))])"

definition media_status_json :: "phone option \<Rightarrow> json" where
  "media_status_json x = (let m = (case x of None \<Rightarrow> \<lparr>active_sessions = 0, total_packets_sent = 0, total_packets_received = 0\<rparr> | Some p \<Rightarrow> vtotals p) in
     JObj [(''active_sessions'', JInt (active_sessions m)), (''total_packets_sent'', JInt (total_packets_sent m)),
       (''total_packets_received'', JInt (total_packets_received m))])"

definition rule_json :: "int \<times> int \<times> int \<times> ustr \<times> int \<Rightarrow> json" where
  "rule_json = (\<lambda>(status, reason, cls, num, seconds). JObj [(''status'', JInt status), (''reason'', JInt reason), (''serviceClass'', JInt cls),
     (''number'', text_json num), (''timeSeconds'', JInt seconds)])"

definition supplementary_json :: "supplementary_state \<Rightarrow> json" where
  "supplementary_json x = JObj [(''call_forwarding_rules'', JArr (map rule_json (ss_rules x))), (''ussd_session_active'', JBool (ss_ussd_active x)),
     (''held_calls'', JInt (ss_held x)), (''conference_calls'', JInt (ss_conference x))]"

text \<open>A \<^verbatim>\<open>RadioHAL\<close> of its own for every request; it has no call manager and is never switched on.\<close>

definition fresh_hal :: "api_world \<Rightarrow> api \<Rightarrow> modem" where
  "fresh_hal w s = new_modem ((new_phone \<lparr>vg_pcscf = [], vg_port = 5060, vg_transport = ustr ''UDP'', vg_codecs = [], vg_impu = [], vg_home = [],
       vg_route = [], vg_local_ip = [], vg_rtp_base = 50000\<rparr> (\<lambda>_. []) (\<lambda>_. 0) (\<lambda>_. False))\<lparr>r_manager := False\<rparr>)
     (rs_daemon (ap_rsp s)) (rs_up (ap_rsp s)) (aw_imei w) None"

definition status_reply :: "(api \<Rightarrow> json) \<Rightarrow> api_reply arun" where
  "status_reply f = read (\<lambda>s. ret (Reply 200 (f s)))"

definition get_ims_status :: "api_reply arun" where "get_ims_status = status_reply (\<lambda>s. ims_status_json (ap_ims s))"
definition get_vowifi_status :: "api_reply arun" where "get_vowifi_status = status_reply (\<lambda>s. vowifi_status_json (ap_vowifi s))"
definition get_sms_status :: "api_world \<Rightarrow> api_reply arun" where "get_sms_status w = status_reply (\<lambda>s. sms_status_json w (ap_sms s))"
definition get_volte_status :: "api_world \<Rightarrow> api_reply arun" where "get_volte_status w = status_reply (\<lambda>s. volte_status_json w (ap_volte s))"
definition get_supplementary_status :: "api_reply arun" where "get_supplementary_status = status_reply (\<lambda>s. supplementary_json (ap_supplementary s))"
definition get_media_status :: "api_reply arun" where "get_media_status = status_reply (\<lambda>s. media_status_json (ap_volte s))"

definition get_radio_status :: "api_world \<Rightarrow> api_reply arun" where
  "get_radio_status w = status_reply (\<lambda>s. JObj (get_radio_state (fresh_hal w s)))"

section \<open>Calls\<close>

definition set_volte :: "phone \<Rightarrow> api \<Rightarrow> api" where
  "set_volte p s = s\<lparr>ap_volte := Some p\<rparr>"

definition on_volte :: "'a run \<Rightarrow> 'a arun" where
  "on_volte = on_part (the \<circ> ap_volte) set_volte sip_of"

definition with_manager :: "string \<Rightarrow> api_reply arun \<Rightarrow> api_reply arun" where
  "with_manager detail k = read (\<lambda>s. case ap_volte s of None \<Rightarrow> ret (http_error 503 detail) | Some _ \<Rightarrow> k)"

definition success_reply :: "bool \<Rightarrow> api_reply" where
  "success_reply b = Reply 200 (JObj [(''success'', JBool b)])"

definition dial_call :: "ustr \<Rightarrow> api_reply arun" where
  "dial_call num = with_manager ''VoLTE call manager not running'' (cbind (on_volte (initiate_call num 0)) (\<lambda>r. case r of
       None \<Rightarrow> ret (http_error 502 ''Call initiation failed'')
     | Some cid \<Rightarrow> ret (if cid = [] then http_error 502 ''Call initiation failed''
         else Reply 200 (JObj [(''success'', JBool True), (''callId'', text_json cid)]))))"

text \<open>Without a Call-ID every call of the table as it is first, one after the other.\<close>

definition hangup_every :: "unit run" where
  "hangup_every = read (\<lambda>p. each (\<lambda>(_, i). read (\<lambda>q. ignore (hangup_call (vc_id (call_obj i q))))) (vcalls p))"

definition api_hangup :: "ustr \<Rightarrow> api_reply arun" where
  "api_hangup cid = with_manager ''VoLTE call manager not running''
     (if cid \<noteq> [] then cbind (on_volte (hangup_call cid)) (\<lambda>b. ret (success_reply b))
      else seq (on_volte hangup_every) (ret (success_reply True)))"

definition manager_call :: "bool run \<Rightarrow> api_reply arun" where
  "manager_call m = with_manager ''VoLTE not running'' (cbind (on_volte m) (\<lambda>b. ret (success_reply b)))"

definition api_hold :: "ustr \<Rightarrow> api_reply arun" where "api_hold cid = manager_call (hold_call cid)"
definition api_resume :: "ustr \<Rightarrow> api_reply arun" where "api_resume cid = manager_call (resume_call cid)"
definition api_swap :: "api_reply arun" where "api_swap = manager_call swap_calls"
definition api_conference :: "api_reply arun" where "api_conference = manager_call Volte.conference_calls"
definition api_transfer :: "ustr \<Rightarrow> ustr \<Rightarrow> api_reply arun" where "api_transfer cid num = manager_call (transfer_call cid num)"

section \<open>Codes and messages\<close>

text \<open>A handler and a forwarding manager of their own for every code: what a code sets is gone with them.\<close>

definition api_ussd :: "ustr \<Rightarrow> api_reply" where
  "api_ussd code = (case send_ussd code (new_ussd []) of (_, typ, message) \<Rightarrow> Reply 200 (JObj [(''type'', JInt typ), (''message'', text_json message)]))"

definition api_pdu :: "ustr \<Rightarrow> ustr \<Rightarrow> string res" where
  "api_pdu dest body = rbind (submit_to_bytes (create_submit dest body GSM_7BIT 0)) (\<lambda>(_, tpdu). Inr (hex_of ([0] @ tpdu)))"

definition send_sms_api :: "api_world \<Rightarrow> ustr \<Rightarrow> ustr \<Rightarrow> api_reply arun" where
  "send_sms_api w dest body = given (api_pdu dest body) (\<lambda>pdu. read (\<lambda>s. case ap_sms s of
       None \<Rightarrow> ret (http_error 503 ''SMS service not running'')
     | Some sms \<Rightarrow> if \<not> sms_enabled sms then ret (http_error 503 ''SMS service not running'')
       else (case send_sms (aw_sms_net w) pdu sms of (sms', r) \<Rightarrow> seq (Coroutine.act (\<lambda>s. s\<lparr>ap_sms := Some sms'\<rparr>))
         (ret (if res_error_code r = 0 then Reply 200 (JObj [(''success'', JBool True), (''messageRef'', JInt (res_message_ref r))])
               else http_error 502 ''SMS delivery failed'')))))"

section \<open>Requests\<close>

datatype endpoint = Health | Metrics | Euicc_Info | Eid | Profiles | Install_Profile install_request | Download string "string option"
  | Enable_Profile string | Disable_Profile string | Delete_Profile string
  | Ims_State | Vowifi_State | Sms_State | Volte_State | Supplementary_State | Media_State | Radio_State
  | Calls_Dial ustr | Calls_Hangup ustr | Calls_Hold ustr | Calls_Resume ustr | Calls_Swap | Calls_Conference | Calls_Transfer ustr ustr
  | Ussd_Send ustr | Sms_Send ustr ustr | Unrouted string string int

text \<open>Method and path.\<close>

fun route :: "endpoint \<Rightarrow> string \<times> string" where
  "route Health = (''GET'', ''/health'')" | "route Metrics = (''GET'', ''/metrics'')" | "route Euicc_Info = (''GET'', ''/euicc/info'')"
| "route Eid = (''GET'', ''/euicc/eid'')" | "route Profiles = (''GET'', ''/profiles'')" | "route (Install_Profile _) = (''POST'', ''/profiles/install'')"
| "route (Download _ _) = (''POST'', ''/profiles/download'')" | "route (Enable_Profile _) = (''POST'', ''/profiles/enable'')"
| "route (Disable_Profile _) = (''POST'', ''/profiles/disable'')" | "route (Delete_Profile i) = (''DELETE'', ''/profiles/'' @ i)"
| "route Ims_State = (''GET'', ''/status/ims'')" | "route Vowifi_State = (''GET'', ''/status/vowifi'')" | "route Sms_State = (''GET'', ''/status/sms'')"
| "route Volte_State = (''GET'', ''/status/volte'')" | "route Supplementary_State = (''GET'', ''/status/supplementary'')"
| "route Media_State = (''GET'', ''/status/media'')" | "route Radio_State = (''GET'', ''/status/radio'')"
| "route (Calls_Dial _) = (''POST'', ''/calls/dial'')" | "route (Calls_Hangup _) = (''POST'', ''/calls/hangup'')"
| "route (Calls_Hold _) = (''POST'', ''/calls/hold'')" | "route (Calls_Resume _) = (''POST'', ''/calls/resume'')"
| "route Calls_Swap = (''POST'', ''/calls/swap'')" | "route Calls_Conference = (''POST'', ''/calls/conference'')"
| "route (Calls_Transfer _ _) = (''POST'', ''/calls/transfer'')" | "route (Ussd_Send _) = (''POST'', ''/ussd/send'')"
| "route (Sms_Send _ _) = (''POST'', ''/sms/send'')" | "route (Unrouted http_method path _) = (http_method, path)"

fun answer_endpoint :: "api_world \<Rightarrow> endpoint \<Rightarrow> api_reply arun" where
  "answer_endpoint w Health = health w" | "answer_endpoint w Metrics = get_metrics w" | "answer_endpoint w Euicc_Info = api_euicc_info w"
| "answer_endpoint w Eid = api_eid w" | "answer_endpoint w Profiles = api_list_profiles w" | "answer_endpoint w (Install_Profile q) = api_install w q"
| "answer_endpoint w (Download code confirmation) = api_download w code confirmation"
| "answer_endpoint w (Enable_Profile i) = api_enable w i" | "answer_endpoint w (Disable_Profile i) = api_disable w i"
| "answer_endpoint w (Delete_Profile i) = api_delete w i"
| "answer_endpoint w Ims_State = get_ims_status"
| "answer_endpoint w Vowifi_State = get_vowifi_status"
| "answer_endpoint w Sms_State = get_sms_status w"
| "answer_endpoint w Volte_State = get_volte_status w"
| "answer_endpoint w Supplementary_State = get_supplementary_status"
| "answer_endpoint w Media_State = get_media_status"
| "answer_endpoint w Radio_State = get_radio_status w"
| "answer_endpoint w (Calls_Dial num) = dial_call num" | "answer_endpoint w (Calls_Hangup cid) = api_hangup cid"
| "answer_endpoint w (Calls_Hold cid) = api_hold cid" | "answer_endpoint w (Calls_Resume cid) = api_resume cid"
| "answer_endpoint w Calls_Swap = api_swap" | "answer_endpoint w Calls_Conference = api_conference"
| "answer_endpoint w (Calls_Transfer cid num) = api_transfer cid num"
| "answer_endpoint w (Ussd_Send code) = ret (api_ussd code)" | "answer_endpoint w (Sms_Send dest body) = send_sms_api w dest body"
| "answer_endpoint w (Unrouted _ _ status) = ret (Reply status JNull)"

record api_query =
  aq_endpoint :: endpoint
  aq_key :: "string option"
  aq_seconds :: rat

definition PUBLIC_PATHS :: "string list" where
  "PUBLIC_PATHS = [''/health'', ''/metrics'', ''/openapi.json'', ''/docs'', ''/redoc'']"

definition verify_api_key :: "string \<Rightarrow> string option \<Rightarrow> api \<Rightarrow> bool" where
  "verify_api_key path key s \<longleftrightarrow> ap_key s = [] \<or> path \<in> set PUBLIC_PATHS \<or> (case key of None \<Rightarrow> False | Some k \<Rightarrow> k \<noteq> [] \<and> k = ap_key s)"

text \<open>The key is a dependency of the code's own routes only.\<close>

definition guarded :: "endpoint \<Rightarrow> bool" where
  "guarded e = (case e of Unrouted _ _ _ \<Rightarrow> False | _ \<Rightarrow> True)"

definition api_route :: "api_world \<Rightarrow> api_query \<Rightarrow> api_reply arun" where
  "api_route w q = read (\<lambda>s.
     if guarded (aq_endpoint q) \<and> \<not> verify_api_key (snd (route (aq_endpoint q))) (aq_key q) s then ret (http_error 401 ''Invalid or missing API key'')
     else answer_endpoint w (aq_endpoint q))"

definition normalize_path :: "string \<Rightarrow> string" where
  "normalize_path path = (if take 10 path = ''/profiles/'' \<and> length (filter (\<lambda>c. c = CHR ''/'') path) = 2 then ''/profiles/{iccid}'' else path)"

text \<open>
  \<^verbatim>\<open>metrics_middleware\<close>: a request whose function raises is answered with 500 outside of it and leaves no trace
  in the metrics.
\<close>

definition api_request :: "api_world \<Rightarrow> api_query \<Rightarrow> api_reply arun" where
  "api_request w q = cbind (attempt (api_route w q)) (\<lambda>r. case r of
     Inl _ \<Rightarrow> ret (Plain 500 ''Internal Server Error'')
   | Inr reply \<Rightarrow> seq (on_metrics (record_request (fst (route (aq_endpoint q))) (normalize_path (snd (route (aq_endpoint q)))) (reply_status reply) (aq_seconds q)))
       (ret reply))"

end
