(* ===== verification/Management_Flows.thy ===== *)
theory Management_Flows
  imports Management
begin

text \<open>
  What a client of the management interface can rely on: a reply to every request, the key, the card behind the
  profile operations, the counters; and what it cannot: the services run in another process.
\<close>

section \<open>Every request is answered\<close>

text \<open>The replies that the code gives, besides those of the framework.\<close>

definition reply_ok :: "endpoint \<Rightarrow> api_reply \<Rightarrow> bool" where
  "reply_ok e r \<longleftrightarrow> reply_status r \<in> {200, 400, 401, 500, 502, 503} \<or> (\<exists>http_method path. e = Unrouted http_method path (reply_status r))"

lemma reply_statuses [simp]: "reply_status (http_error c t) = c" "reply_status (done_reply i t) = 200" "reply_status (success_reply b) = 200"
  "reply_status (unavailable w x) = 503"
  by (simp_all add: http_error_def done_reply_def success_reply_def unavailable_def)

text \<open>The code of an endpoint replies or raises.\<close>

abbreviation replies :: "endpoint \<Rightarrow> api_reply arun \<Rightarrow> bool" where
  "replies e m \<equiv> (\<forall>s. settles (\<lambda>_ r. reply_ok e r) (\<lambda>_ _. True) (m s))"

lemma replies_ret: "reply_ok e r \<Longrightarrow> replies e (ret r)"
  by simp

lemma replies_then: "(\<And>x. replies e (k x)) \<Longrightarrow> replies e (cbind m k)"
  by (auto intro: settles_then)

lemma replies_read: "(\<And>s. replies e (k s)) \<Longrightarrow> replies e (read k)"
  by simp

lemma replies_given: "(\<And>x. replies e (k x)) \<Longrightarrow> replies e (given r k)"
  by (simp add: given_def split: sum.split)

lemma replies_sum: "(\<And>x. replies e (f x)) \<Longrightarrow> (\<And>x. replies e (g x)) \<Longrightarrow> replies e (case r of Inl x \<Rightarrow> f x | Inr x \<Rightarrow> g x)"
  by (simp split: sum.split)

lemma replies_option: "replies e f \<Longrightarrow> (\<And>x. replies e (g x)) \<Longrightarrow> replies e (case r of None \<Rightarrow> f | Some x \<Rightarrow> g x)"
  by (simp split: option.split)

lemma replies_if: "replies e f \<Longrightarrow> replies e g \<Longrightarrow> replies e (if b then f else g)"
  by simp

lemmas replies_rules = replies_ret replies_then replies_read replies_given replies_sum replies_option replies_if

lemma replies_sockets:
  assumes "\<And>x. replies e (k x)" "\<And>x. replies e (k' x)"
  shows "replies e (send_euicc w msg k)" "replies e (send_rsp w msg k')"
  unfolding send_euicc_def send_rsp_def by (intro replies_rules assms; simp add: reply_ok_def)+

lemma replies_manager: "replies e m \<Longrightarrow> replies e (with_manager t m)"
  unfolding with_manager_def by (intro replies_rules; simp add: reply_ok_def)

lemmas replies_euicc = replies_sockets(1) [where k' = "\<lambda>_. ret (Plain 200 [])"]
lemmas replies_rsp = replies_sockets(2) [where k = "\<lambda>_. ret (Plain 200 [])"]

lemmas status_defs = get_ims_status_def get_vowifi_status_def get_sms_status_def get_volte_status_def get_supplementary_status_def
  get_media_status_def get_radio_status_def status_reply_def

lemmas manager_defs = api_hold_def api_resume_def api_swap_def api_conference_def api_transfer_def manager_call_def

lemmas endpoint_defs = health_def get_metrics_def api_euicc_info_def api_eid_def api_list_profiles_def api_install_def api_download_def
  api_enable_def api_disable_def api_switch_def api_delete_def status_defs dial_call_def api_hangup_def
  manager_defs send_sms_api_def

lemma endpoint_replies: "replies e (answer_endpoint w e)"
  by (cases e; simp only: answer_endpoint.simps endpoint_defs Let_def case_prod_beta;
      (intro replies_rules replies_euicc replies_rsp replies_manager)?; simp add: api_ussd_def reply_ok_def split: prod.split)


section \<open>The key\<close>

definition recorded :: "api_query \<Rightarrow> api_reply \<Rightarrow> api \<Rightarrow> api" where
  "recorded q r s = s\<lparr>ap_metrics := record_request (fst (route (aq_endpoint q))) (normalize_path (snd (route (aq_endpoint q))))
     (reply_status r) (aq_seconds q) (ap_metrics s)\<rparr>"

lemma request_ret: "api_route w q s = (s', Ret r) \<Longrightarrow> api_request w q s = (recorded q r s', Ret r)"
  unfolding api_request_def by (rule cbind_ret [THEN trans], rule attempt_run(1)) (auto simp: on_metrics_def recorded_def)

lemma request_allowed: "verify_api_key (snd (route (aq_endpoint q))) (aq_key q) s \<Longrightarrow> answer_endpoint w (aq_endpoint q) s = (s', Ret r) \<Longrightarrow>
    api_request w q s = (recorded q r s', Ret r)"
  by (rule request_ret) (simp add: api_route_def)

text \<open>
  With a key configured, a request without it for a route that is not public is answered with 401 before
  anything is asked or changed, the metrics apart.
\<close>

theorem api_key_required:
  assumes "ap_key s \<noteq> []" "guarded (aq_endpoint q)" "snd (route (aq_endpoint q)) \<notin> set PUBLIC_PATHS" "aq_key q \<noteq> Some (ap_key s)"
  shows "\<exists>r. reply_status r = 401 \<and> api_request w q s = (recorded q r s, Ret r)"
proof -
  have "api_route w q s = (s, Ret (http_error 401 ''Invalid or missing API key''))"
    using assms by (auto simp: api_route_def verify_api_key_def split: option.splits)
  from request_ret [OF this] show ?thesis by (intro exI conjI) auto
qed

section \<open>The card\<close>

lemma on_rsp_run: "m (ap_rsp s) = (r, c) \<Longrightarrow> (\<forall>f g. c \<noteq> Wait f g) \<Longrightarrow> on_rsp m s = (set_rsp r s, case c of Ret x \<Rightarrow> Ret x | Exc e \<Rightarrow> Exc e | Wait f g \<Rightarrow> Exc RuntimeError)"
  by (cases c) (simp_all add: on_rsp_def on_part_def)

lemma send_euicc_ret: "es10_send (aw_aes w) msg (ap_rsp s) = (r, Ret x) \<Longrightarrow> send_euicc w msg k s = k x (set_rsp r s)"
  unfolding send_euicc_def by (rule cbind_ret [THEN trans], rule attempt_run(1), subst on_rsp_run) auto

lemma send_euicc_exc: "es10_send (aw_aes w) msg (ap_rsp s) = (r, Exc e) \<Longrightarrow> send_euicc w msg k s = (set_rsp r s, Ret (unavailable w e))"
  unfolding send_euicc_def by (rule cbind_ret [THEN trans], rule attempt_run(2), subst on_rsp_run) auto

text \<open>What an endpoint asks of the card; \<open>u\<close> is the name that the next installed profile gets.\<close>

fun card_op :: "string \<Rightarrow> endpoint \<Rightarrow> eu_op option" where
  "card_op u (Install_Profile q) = Some (Install (install_dump q) u)"
| "card_op u (Enable_Profile i) = Some (Enable i)"
| "card_op u (Disable_Profile i) = Some (Disable i)"
| "card_op u (Delete_Profile i) = Some (Delete i)"
| "card_op u _ = None"

definition counted :: "endpoint \<Rightarrow> metrics \<Rightarrow> metrics" where
  "counted e m = (case e of Install_Profile _ \<Rightarrow> m\<lparr>mx_installs := mx_installs m + 1\<rparr> | Delete_Profile _ \<Rightarrow> m\<lparr>mx_deletes := mx_deletes m + 1\<rparr> | _ \<Rightarrow> m)"

lemma endpoint_asks:
  assumes "card_op u e = Some op" "es10_send (aw_aes w) (op_message op) (ap_rsp s) = (r, c)"
  shows "c = Exc x \<Longrightarrow> \<exists>t. reply_status t = 503 \<and> answer_endpoint w e s = (set_rsp r s, Ret t)"
    and "c = Ret (op_answer op) \<Longrightarrow> \<exists>t. reply_status t = 200 \<and> answer_endpoint w e s = ((set_rsp r s)\<lparr>ap_metrics := counted e (ap_metrics s)\<rparr>, Ret t)"
proof -
  have u: "(set_rsp r s)\<lparr>ap_metrics := ap_metrics s\<rparr> = set_rsp r s" by (simp add: set_rsp_def)
  show "c = Exc x \<Longrightarrow> \<exists>t. reply_status t = 503 \<and> answer_endpoint w e s = (set_rsp r s, Ret t)"
    using assms by (cases e) (auto simp: api_install_def api_enable_def api_disable_def api_delete_def api_switch_def op_message_def send_euicc_exc)
  show "c = Ret (op_answer op) \<Longrightarrow> \<exists>t. reply_status t = 200 \<and> answer_endpoint w e s = ((set_rsp r s)\<lparr>ap_metrics := counted e (ap_metrics s)\<rparr>, Ret t)"
    using assms u by (cases e) (auto simp: api_install_def api_enable_def api_disable_def api_delete_def api_switch_def op_message_def send_euicc_ret
      op_answer_def dict_get_def json_true_def counted_def on_metrics_def, auto simp: set_rsp_def)
qed

text \<open>
  C11: the profile operations of the interface are those of the abstract card: a request that the card can do is
  answered with 200, does it and counts an installation or a deletion; any other is answered with 503, since the
  daemon closes the connection, and changes nothing. The status 400 that the code has for a refusal never comes.
\<close>

theorem api_refines_card:
  assumes "rs_up (ap_rsp s)" "eu_reach (daemon_euicc (rs_daemon (ap_rsp s)))" "ap_key s = [] \<or> aq_key q = Some (ap_key s)"
    and "card_op (dm_uuids (rs_daemon (ap_rsp s)) (dm_next (rs_daemon (ap_rsp s)))) (aq_endpoint q) = Some op" "sendable (op_message op)"
  shows "\<exists>s' r. api_request w q s = (s', Ret r) \<and> (case card_exec op (card_view (daemon_euicc (rs_daemon (ap_rsp s)))) of
      Inl _ \<Rightarrow> reply_status r = 503 \<and> ap_rsp s' = ap_rsp s \<and> mx_installs (ap_metrics s') = mx_installs (ap_metrics s) \<and> mx_deletes (ap_metrics s') = mx_deletes (ap_metrics s)
    | Inr c \<Rightarrow> reply_status r = 200 \<and> card_view (daemon_euicc (rs_daemon (ap_rsp s'))) = c
        \<and> mx_installs (ap_metrics s') = mx_installs (counted (aq_endpoint q) (ap_metrics s))
        \<and> mx_deletes (ap_metrics s') = mx_deletes (counted (aq_endpoint q) (ap_metrics s)))"
proof -
  let ?e = "aq_endpoint q" and ?x = "card_exec op (card_view (daemon_euicc (rs_daemon (ap_rsp s))))"
  have op: "op \<noteq> Authenticate" "\<forall>p u. op = Install p u \<longrightarrow> u = dm_uuids (rs_daemon (ap_rsp s)) (dm_next (rs_daemon (ap_rsp s)))"
    using assms(4) by (cases ?e; auto)+
  obtain d where d: "es10_send (aw_aes w) (op_message op) (ap_rsp s) = ((ap_rsp s)\<lparr>rs_daemon := d\<rparr>, case ?x of Inl _ \<Rightarrow> Exc EOFError | Inr _ \<Rightarrow> Ret (op_answer op))"
    "case ?x of Inl _ \<Rightarrow> d = rs_daemon (ap_rsp s) | Inr c \<Rightarrow> card_view (daemon_euicc d) = c"
    using es10_op [OF assms(1,2) op(1) assms(5) op(2), of "aw_aes w"] by blast
  have k: "verify_api_key (snd (route ?e)) (aq_key q) s"
    using assms(3) by (cases "ap_key s = []") (simp_all add: verify_api_key_def)
  have m: "mx_installs (ap_metrics (recorded q r s')) = mx_installs (ap_metrics s')" "mx_deletes (ap_metrics (recorded q r s')) = mx_deletes (ap_metrics s')"
    "ap_rsp (recorded q r s') = ap_rsp s'" for r s' by (simp_all add: recorded_def record_request_def Let_def)
  show ?thesis
  proof (cases ?x)
    case (Inl e)
    with d have "es10_send (aw_aes w) (op_message op) (ap_rsp s) = (ap_rsp s, Exc EOFError)" by simp
    from endpoint_asks(1) [OF assms(4) this refl] obtain t where t: "reply_status t = 503" "answer_endpoint w ?e s = (set_rsp (ap_rsp s) s, Ret t)" by blast
    from request_allowed [OF k t(2)] show ?thesis using t(1) by (auto simp: Inl m set_rsp_def)
  next
    case (Inr c)
    with d have "es10_send (aw_aes w) (op_message op) (ap_rsp s) = ((ap_rsp s)\<lparr>rs_daemon := d\<rparr>, Ret (op_answer op))" by simp
    from endpoint_asks(2) [OF assms(4) this refl] obtain t where t: "reply_status t = 200"
      "answer_endpoint w ?e s = ((set_rsp ((ap_rsp s)\<lparr>rs_daemon := d\<rparr>) s)\<lparr>ap_metrics := counted ?e (ap_metrics s)\<rparr>, Ret t)" by blast
    from request_allowed [OF k t(2)] show ?thesis using t(1) d(2) by (auto simp: Inr m set_rsp_def)
  qed
qed

definition sample_install :: install_request where
  "sample_install = \<lparr>iq_iccid = ''8901'', iq_imsi = ''001010000000001'', iq_ki = ''00'', iq_opc = ''11'', iq_mcc = ''001'', iq_mnc = ''01'',
     iq_spn = ''VPhone'', iq_msisdn = None, iq_impi = None, iq_impu = None, iq_home_domain = None\<rparr>"

definition sample_world_api :: api_world where
  "sample_world_api = \<lparr>aw_etext = (\<lambda>_. []), aw_aes = sample_aes, aw_fixed6 = (\<lambda>_. []), aw_stats = (\<lambda>_. JNull), aw_error = (\<lambda>_. []),
     aw_sms_net = (\<lambda>_. Inl TimeoutError), aw_imei = []\<rparr>"

definition sample_api :: api where
  "sample_api = new_api ''secret'' sample_rsp True"

lemma sample_api_fields: "ap_key sample_api = ''secret''" "ap_rsp sample_api = sample_rsp" "ap_metrics sample_api = new_metrics"
  by (simp_all add: sample_api_def new_api_def)

theorem api_key_required_witness:
  "\<exists>s' r. api_request sample_world_api \<lparr>aq_endpoint = Delete_Profile ''8901'', aq_key = None, aq_seconds = 0\<rparr> sample_api = (s', Ret r) \<and> reply_status r = 401"
  using api_key_required [of sample_api "\<lparr>aq_endpoint = Delete_Profile ''8901'', aq_key = None, aq_seconds = 0\<rparr>" sample_world_api]
  by (auto simp: sample_api_fields guarded_def PUBLIC_PATHS_def)

lemma sample_install_sendable: "sendable (op_message (Install (install_dump sample_install) u))"
  by (intro conjunct1 [OF sized_ok]) (simp_all add: op_message_def install_dump_def sample_install_def dict_ok_def)

theorem api_refines_card_witness:
  "\<exists>s' r. api_request sample_world_api \<lparr>aq_endpoint = Install_Profile sample_install, aq_key = Some ''secret'', aq_seconds = 0\<rparr> sample_api = (s', Ret r)
    \<and> reply_status r = 200 \<and> inst (card_view (daemon_euicc (rs_daemon (ap_rsp s')))) ''8901'' \<noteq> None \<and> mx_installs (ap_metrics s') = 1"
proof -
  let ?q = "\<lparr>aq_endpoint = Install_Profile sample_install, aq_key = Some ''secret'', aq_seconds = 0\<rparr>"
  let ?u = "dm_uuids (rs_daemon (ap_rsp sample_api)) (dm_next (rs_daemon (ap_rsp sample_api)))"
  have d: "rs_daemon sample_rsp = sample_daemon" "rs_up sample_rsp" by (simp_all add: sample_rsp_def new_rsp_def)
  have "\<exists>c. card_exec (Install (install_dump sample_install) ?u) (card_view (daemon_euicc sample_daemon)) = Inr c \<and> inst c ''8901'' \<noteq> None"
    by (simp add: card_exec_def card_install_def install_dump_def sample_install_def json_access make_isdp_def sample_daemon_reach(3)
        initialize_def load_profiles_def new_euicc_def)
  then obtain c where c: "card_exec (Install (install_dump sample_install) ?u) (card_view (daemon_euicc sample_daemon)) = Inr c" "inst c ''8901'' \<noteq> None" by blast
  show ?thesis
    using api_refines_card [of sample_api ?q "Install (install_dump sample_install) ?u" sample_world_api] c sample_install_sendable sample_daemon_reach(1)
    by (auto simp: sample_api_fields d counted_def new_metrics_def)
qed

section \<open>The services of another process\<close>

text \<open>What the process is as it starts: no call manager, no SMS service, the first status of everything.\<close>

definition process_separate :: "api \<Rightarrow> bool" where
  "process_separate s \<longleftrightarrow> ap_volte s = None \<and> ap_sms s = None \<and> ap_ims s = initial_ims_status \<and> ap_vowifi s = initial_status
     \<and> ap_supplementary s = initial_supplementary"

lemma separate_steps [simp]:
  "process_separate (set_rsp r s) = process_separate s" "process_separate (s\<lparr>ap_metrics := m\<rparr>) = process_separate s"
  "process_separate (s\<lparr>ap_client := k\<rparr>) = process_separate s" "process_separate (new_api key r up)"
  by (simp_all add: process_separate_def set_rsp_def new_api_def)

lemma keeps_rsp: "keeps process_separate (on_rsp m)"
  unfolding on_rsp_def by (rule keeps_part) simp

lemma keeps_metrics: "keeps process_separate (on_metrics f)"
  unfolding on_metrics_def by (rule keeps_act) simp

lemma keeps_manager: "keeps process_separate (with_manager t m)"
  unfolding with_manager_def by (rule keeps_read) (simp add: process_separate_def keeps_ret)

lemma keeps_euicc: "(\<And>x. keeps process_separate (k x)) \<Longrightarrow> keeps process_separate (send_euicc w msg k)"
  unfolding send_euicc_def by (intro keeps_bind keeps_attempt keeps_rsp) (simp add: keeps_ret split: sum.split)

lemma keeps_service: "(\<And>x. keeps process_separate (k x)) \<Longrightarrow> keeps process_separate (send_rsp w msg k)"
  unfolding send_rsp_def by (intro keeps_read keeps_bind keeps_attempt keeps_rsp keeps_act) (simp_all add: keeps_ret split: sum.split)

lemma keeps_sms: "keeps process_separate (send_sms_api w dest body)"
  unfolding send_sms_api_def by (intro keeps_given keeps_read) (simp add: process_separate_def keeps_ret)

lemma endpoint_keeps: "keeps process_separate (answer_endpoint w e)"
  by (cases e; simp only: answer_endpoint.simps health_def get_metrics_def api_euicc_info_def api_eid_def api_list_profiles_def api_install_def
      api_download_def api_enable_def api_disable_def api_switch_def api_delete_def status_defs dial_call_def api_hangup_def
      manager_defs Let_def;
      (intro keeps_bind keeps_attempt keeps_rsp keeps_ret keeps_read keeps_euicc keeps_service keeps_manager keeps_sms keeps_if keeps_metrics keeps_given)?)

definition call_endpoint :: "endpoint \<Rightarrow> bool" where
  "call_endpoint e = (case e of Calls_Dial _ \<Rightarrow> True | Calls_Hangup _ \<Rightarrow> True | Calls_Hold _ \<Rightarrow> True | Calls_Resume _ \<Rightarrow> True | Calls_Swap \<Rightarrow> True
     | Calls_Conference \<Rightarrow> True | Calls_Transfer _ _ \<Rightarrow> True | _ \<Rightarrow> False)"

text \<open>
  C12: the interface never sees the services. Its process starts without call manager and SMS service and with the
  first status of registration, tunnel and forwarding, and no request changes that, whatever runs in between;
  so every request about a call is answered with 503 and does nothing.
\<close>

theorem api_sees_no_service:
  assumes "process_separate s" "call_endpoint (aq_endpoint q)" "ap_key s = [] \<or> aq_key q = Some (ap_key s)"
  shows "process_separate (new_api key r up) \<and> keeps process_separate (api_request w q')
    \<and> (\<exists>t. api_request w q s = (recorded q t s, Ret t) \<and> reply_status t = 503)"
proof (intro conjI)
  show "keeps process_separate (api_request w q')"
    unfolding api_request_def api_route_def
    by (intro keeps_bind keeps_attempt keeps_read keeps_if keeps_ret endpoint_keeps) (auto intro!: keeps_bind keeps_metrics keeps_ret split: sum.split)
  have k: "verify_api_key (snd (route (aq_endpoint q))) (aq_key q) s"
    using assms(3) by (cases "ap_key s = []") (simp_all add: verify_api_key_def)
  have "\<exists>t. answer_endpoint w (aq_endpoint q) s = (s, Ret t) \<and> reply_status t = 503"
    using assms(1,2) by (cases "aq_endpoint q") (auto simp: call_endpoint_def process_separate_def dial_call_def api_hangup_def manager_defs with_manager_def)
  then obtain t where t: "answer_endpoint w (aq_endpoint q) s = (s, Ret t)" "reply_status t = 503" by blast
  from request_allowed [OF k t(1)] t(2) show "\<exists>t. api_request w q s = (recorded q t s, Ret t) \<and> reply_status t = 503" by blast
qed simp

theorem api_sees_no_service_witness:
  "\<exists>s' t. api_request sample_world_api \<lparr>aq_endpoint = Calls_Dial (ustr ''100''), aq_key = Some ''secret'', aq_seconds = 0\<rparr> sample_api = (s', Ret t)
    \<and> reply_status t = 503"
proof -
  have "process_separate sample_api" by (simp add: sample_api_def)
  then show ?thesis
    using api_sees_no_service [of sample_api "\<lparr>aq_endpoint = Calls_Dial (ustr ''100''), aq_key = Some ''secret'', aq_seconds = 0\<rparr>" "[]" sample_rsp True
        sample_world_api "\<lparr>aq_endpoint = Health, aq_key = None, aq_seconds = 0\<rparr>"]
    by (auto simp: call_endpoint_def sample_api_fields)
qed

section \<open>What the counters count\<close>

type_synonym request_log = "(string \<times> string \<times> int \<times> rat) list"

definition logged :: "request_log \<Rightarrow> metrics" where
  "logged reqs = fold (\<lambda>(http_method, path, status, seconds). record_request http_method path status seconds) reqs new_metrics"

definition with_key :: "string \<Rightarrow> request_log \<Rightarrow> request_log" where
  "with_key k reqs = filter (\<lambda>(http_method, path, _). metric_key http_method path = k) reqs"

lemma logged_snoc: "logged (reqs @ [(http_method, path, status, seconds)]) = record_request http_method path status seconds (logged reqs)"
  by (simp add: logged_def)

text \<open>
  After any requests the counters of a method and a path are the number of requests with both, the sum of their
  times and the number of those with an error status; each has one entry, whose method and path can be told apart
  when the method has no space.
\<close>

theorem metrics_counted:
  "dict_get (mx_count (logged reqs)) k 0 = length (with_key k reqs)
   \<and> dict_get (mx_latency (logged reqs)) k 0 = sum_list (map (\<lambda>(_, _, _, seconds). seconds) (with_key k reqs))
   \<and> dict_get (mx_errors (logged reqs)) k 0 = length (filter (\<lambda>(_, _, status, _). 400 \<le> status) (with_key k reqs))
   \<and> dict_ok (mx_count (logged reqs)) \<and> dict_ok (mx_latency (logged reqs)) \<and> dict_ok (mx_errors (logged reqs))"
proof (induction reqs rule: rev_induct)
  case Nil
  show ?case by (simp add: logged_def new_metrics_def with_key_def dict_get_def)
next
  case (snoc x reqs)
  obtain http_method path status seconds where "x = (http_method, path, status, seconds)" by (cases x) auto
  with snoc show ?case by (auto simp: logged_snoc record_request_def Let_def with_key_def dict_get_def)
qed

lemma split_metric_key: "CHR '' '' \<notin> set http_method \<Longrightarrow> split_key (metric_key http_method path) = (http_method, path)"
proof -
  assume "CHR '' '' \<notin> set http_method"
  then have "takeWhile (\<lambda>c. c \<noteq> CHR '' '') (http_method @ '' '' @ path) = http_method \<and> dropWhile (\<lambda>c. c \<noteq> CHR '' '') (http_method @ '' '' @ path) = '' '' @ path"
    by (induction http_method) auto
  then show ?thesis by (simp add: split_key_def metric_key_def)
qed

end
