(* ===== verification/Spec2Isabelle.thy ===== *)
theory Spec2Isabelle
  imports Media Apdu Sms_Concat Sms_Service Registration Eap_Aka Call_Forward Ril_Messages Euicc_Hal Isdr Ims_Flows Management_Flows
begin

text \<open>
  VirtualPhone: a software phone that keeps SIM profiles on a virtual eUICC and
  registers, exchanges messages and media with an IMS network. This library models its Python code.

  Conventions. Bytes are \<^verbatim>\<open>8 word\<close>, Python integers \<^verbatim>\<open>int\<close>, texts that are only ASCII
  (identifiers, hexadecimal) HOL strings and texts that come from the network lists of code points.
  An operation that can raise returns \<^verbatim>\<open>exn + 'a\<close> (\<^verbatim>\<open>Prelude.res\<close>); one that changes an object
  returns the new state too, so that the state left behind by an exception is visible. Randomness,
  clocks, AES, MD5 and the answers of the network are arguments.

  The parts, bottom up:
  \<^item> \<^verbatim>\<open>Prelude\<close>, \<^verbatim>\<open>Pystr\<close>, \<^verbatim>\<open>Utf8\<close>: the Python operations the code uses on bytes, slices, lists,
    dictionaries and text, with their error cases, and the laws the components share.
  \<^item> \<^verbatim>\<open>Milenage\<close> (\<^verbatim>\<open>euicc/crypto/milenage.py\<close>) and \<^verbatim>\<open>Aka\<close> (the vectors of
    \<^verbatim>\<open>scripts/scscf_auth_helper.py\<close>): card and network agree on keys; freshness; resynchronisation.
  \<^item> \<^verbatim>\<open>Json\<close>, \<^verbatim>\<open>Isdp\<close> (\<^verbatim>\<open>euicc/isdp.py\<close>), \<^verbatim>\<open>Store\<close>, \<^verbatim>\<open>Euicc\<close> (\<^verbatim>\<open>euicc/euicc.py\<close>): profiles, their
    files and the card; an invariant of every reachable card, a refinement of an abstract card,
    restarts.
  \<^item> \<^verbatim>\<open>Digits\<close>, \<^verbatim>\<open>Apdu\<close> (\<^verbatim>\<open>euicc/apdu/handler.py\<close>): commands, elementary files, the handlers; every
    command is answered and errors change nothing.
  \<^item> \<^verbatim>\<open>Gsm7\<close>, \<^verbatim>\<open>Formats\<close>, \<^verbatim>\<open>Sms_Pdu\<close>, \<^verbatim>\<open>Sms_Tpdu\<close>, \<^verbatim>\<open>Sms_Relay\<close>, \<^verbatim>\<open>Sms_Concat\<close>
    (\<^verbatim>\<open>ims/sms_pdu.py\<close>): alphabets, addresses, SUBMIT, DELIVER, RP-DATA, split messages. The wire
    formats are interpretations of the contracts of \<^verbatim>\<open>Formats\<close>.
  \<^item> \<^verbatim>\<open>Rtp\<close> (\<^verbatim>\<open>ims/rtp.py\<close>), \<^verbatim>\<open>Codec\<close> (\<^verbatim>\<open>ims/codec.py\<close>), \<^verbatim>\<open>Jitter\<close> and \<^verbatim>\<open>Media\<close>
    (\<^verbatim>\<open>ims/media.py\<close>): packets, payloads, the jitter buffer and the session.
  \<^item> \<^verbatim>\<open>Sip\<close>, \<^verbatim>\<open>Sip_Client\<close>, \<^verbatim>\<open>Digest\<close> (\<^verbatim>\<open>ims/sip_client.py\<close>): messages, transport, transactions,
    digest headers.
  \<^item> \<^verbatim>\<open>Auth_Helper\<close> (\<^verbatim>\<open>scripts/scscf_auth_helper.py\<close>) and \<^verbatim>\<open>Registration\<close>
    (\<^verbatim>\<open>ims/registration.py\<close>): the network's and the phone's side of IMS registration, composed in
    \<^verbatim>\<open>register_end_to_end\<close>.
  \<^item> \<^verbatim>\<open>Sms_Service\<close> (\<^verbatim>\<open>ims/sms.py\<close>): messages in both directions over SIP.
  \<^item> \<^verbatim>\<open>Supplementary\<close> (\<^verbatim>\<open>ims/supplementary.py\<close>): forwarding rules and USSD codes. \<^verbatim>\<open>Sdp\<close>: the
    session descriptions of \<^verbatim>\<open>ims/volte.py\<close> and what \<^verbatim>\<open>ims/media.py\<close> reads from them.
  \<^item> \<^verbatim>\<open>Coroutine\<close>: Python's coroutines over a shared state; what is kept whatever other tasks do
    during a wait, how often a coroutine waits, and the event loop.
  \<^item> \<^verbatim>\<open>Phone\<close>, \<^verbatim>\<open>Volte\<close> (\<^verbatim>\<open>ims/volte.py\<close>) and \<^verbatim>\<open>Radio\<close> (the calls of
    \<^verbatim>\<open>hal/radio_hal.py\<close>): the state the call manager and the HAL share, every operation of both, and
    the system that interleaves the requests of Android with the messages of the network.
  \<^item> \<^verbatim>\<open>Call_Invariant\<close>, \<^verbatim>\<open>Call_Termination\<close>: what holds in every run, and that every task ends.
    \<^verbatim>\<open>Call_Steps\<close>, \<^verbatim>\<open>Call_Flows\<close>, \<^verbatim>\<open>Call_Release\<close>, \<^verbatim>\<open>Call_Hold\<close>, \<^verbatim>\<open>Call_Forward\<close>: whole calls, from the dial to the
    release, with every outcome of a request.
  \<^item> \<^verbatim>\<open>Eap\<close>, \<^verbatim>\<open>Eap_Aka\<close> (\<^verbatim>\<open>euicc/crypto/eap_aka.py\<close>): the packets and attributes of EAP-AKA,
    the inputs on which their parser ends, and the answer to a challenge with the keys of the
    profile; HMAC and SHA are arguments.
  \<^item> \<^verbatim>\<open>Json_Text\<close>, \<^verbatim>\<open>Wire\<close>: the text of JSON values and the frames of the sockets, with the loop of
    a server as the interface \<^verbatim>\<open>frame_server\<close>; \<^verbatim>\<open>Daemon\<close> (\<^verbatim>\<open>euicc/daemon.py\<close>) and \<^verbatim>\<open>Ril\<close>
    (\<^verbatim>\<open>hal/ril_bridge.py\<close>) interpret it. The fuel of the JSON scanner is the length of the text.
  \<^item> \<^verbatim>\<open>Modem\<close>: the rest of \<^verbatim>\<open>hal/radio_hal.py\<close> over the phone's calls and the daemon: the SIM,
    registration, data calls, messages, indications. \<^verbatim>\<open>Ril_Sim\<close>, \<^verbatim>\<open>Ril_Radio\<close>, \<^verbatim>\<open>Ril_Messages\<close>: what
    Android sees of the SIM, of the radio's power and registration, and of messages and files, from
    the request of the RIL down to the card.

  \<^item> \<^verbatim>\<open>Base64\<close>, \<^verbatim>\<open>Rsp\<close>, \<^verbatim>\<open>Lpa\<close>, \<^verbatim>\<open>Lpa_Download\<close>, \<^verbatim>\<open>Rsp_Service\<close> (\<^verbatim>\<open>rsp/\<close>): remote provisioning. The
    interfaces to the SM-DP+ and to the card, the download as a coroutine whose waits are the HTTP requests,
    and the service's commands, which refine the abstract card. \<^verbatim>\<open>Euicc_Hal\<close> (\<^verbatim>\<open>hal/euicc_hal.py\<close>): what
    Android asks, through all these layers down to the card.
  \<^item> \<^verbatim>\<open>Scp03\<close> (\<^verbatim>\<open>euicc/crypto/scp03.py\<close>) and \<^verbatim>\<open>Isdr\<close> (\<^verbatim>\<open>euicc/isdr.py\<close>): the secure channel between a host
    and the card, and the root domain whose keys it uses.
  \<^item> \<^verbatim>\<open>Epdg\<close> (\<^verbatim>\<open>scripts/provision_epdg.py\<close>), \<^verbatim>\<open>Vowifi\<close>, \<^verbatim>\<open>Vowifi_Flows\<close> (\<^verbatim>\<open>ims/vowifi.py\<close>): the ePDG's
    quintuplets, which the card accepts, and the tunnel, with runs of strongSwan as waits.
  \<^item> \<^verbatim>\<open>Sms_Bridge\<close> (\<^verbatim>\<open>ims/sms_bridge.py\<close>): messages to and from the telephone network.
  \<^item> \<^verbatim>\<open>Ims_Daemon\<close>, \<^verbatim>\<open>Ims_Flows\<close> (\<^verbatim>\<open>ims/service.py\<close>): the process that composes daemon, tunnel, registration,
    calls, messages and bridge. Its idle loop has as fuel the number of its rounds; \<^verbatim>\<open>ims_never_serves\<close> holds
    for every fuel. The interface \<^verbatim>\<open>part\<close> of \<^verbatim>\<open>Wire\<close> runs the coroutine of an object inside a larger state.

  \<^item> \<^verbatim>\<open>Management\<close>, \<^verbatim>\<open>Management_Flows\<close> (\<^verbatim>\<open>hal/management_api.py\<close>): the HTTP interface over all of these,
    with its key, its metrics and every endpoint. Routing and the validation of bodies are the framework's: a request
    is an endpoint with its parsed body.

  Not modelled, and why: the C shim of the RIL, which is not Python; the processes' event loops, signals and
  logging, and \<^verbatim>\<open>hal/service.py\<close>, which is only that; TLS and the ASN.1 text of the remote provisioning; the
  rounding of binary floating point in times; the data classes and the legacy session object that no code uses.
\<close>

end
